(* ===== verification/Prelude.thy ===== *)
theory Prelude
  imports Main "HOL-Library.Word"
begin

text \<open>
  Shared vocabulary of the development.

  The runtime is compiled by Cargo's release profile, which leaves overflow checks off, so
  the integer operators of the source wrap: a \<open>u128\<close> is a \<open>128 word\<close> and
  its \<open>+\<close>, \<open>-\<close> and \<open>*\<close> are the word operations. The explicit
  \<open>checked_\<close> and \<open>saturating_\<close> calls of the source are the functions defined here.

  A fallible operation returns \<open>Inl e\<close> for an error \<open>e\<close> and \<open>Inr r\<close> for its
  result. The combinators follow Rust: \<open>ensure b e k\<close> is \<open>ensure!(b, e); k\<close>, the question
  mark is \<open>and_then\<close>, and \<open>ok_or\<close> is \<open>Option::ok_or\<close>. An operation on storage
  takes the storage before and returns the storage after inside \<open>Inr\<close>; an error carries no
  storage because FRAME discards the writes of a failed call.

  The last section sums the entries of a finite map. The ledger invariants of the
  components are stated with it.
\<close>

section \<open>Machine integers\<close>

type_synonym u8 = "8 word"
type_synonym u16 = "16 word"
type_synonym u32 = "32 word"
type_synonym u64 = "64 word"
type_synonym u128 = "128 word"
type_synonym bytes = "u8 list"

named_theorems result_simps \<open>how a fallible step can have succeeded\<close>

definition checked_add :: "'a::len word \<Rightarrow> 'a word \<Rightarrow> 'a word option" where
  "checked_add a b = (if unat a + unat b < 2 ^ LENGTH('a) then Some (a + b) else None)"

definition checked_sub :: "'a::len word \<Rightarrow> 'a word \<Rightarrow> 'a word option" where
  "checked_sub a b = (if b \<le> a then Some (a - b) else None)"

definition saturating_add :: "'a::len word \<Rightarrow> 'a word \<Rightarrow> 'a word" where
  "saturating_add a b = (if unat a + unat b < 2 ^ LENGTH('a) then a + b else - 1)"

definition saturating_sub :: "'a::len word \<Rightarrow> 'a word \<Rightarrow> 'a word" where
  "saturating_sub a b = (if b \<le> a then a - b else 0)"

lemma unat_add_fits:
  "unat a + unat b < 2 ^ LENGTH('a) \<Longrightarrow> unat (a + b) = unat a + unat b"
  for a b :: "'a::len word"
  by (simp add: unat_add_lem)

lemma checked_add_eq_Some [result_simps]:
  "checked_add a b = Some c \<longleftrightarrow> unat c = unat a + unat b"
  for a b c :: "'a::len word"
proof
  assume "checked_add a b = Some c"
  then show "unat c = unat a + unat b"
    by (auto simp: checked_add_def unat_add_fits split: if_splits)
next
  assume c: "unat c = unat a + unat b"
  have "unat c < 2 ^ LENGTH('a)" by (rule unsigned_less)
  then have fits: "unat a + unat b < 2 ^ LENGTH('a)" by (simp only: c)
  then have "unat (a + b) = unat c" using c by (simp add: unat_add_fits)
  then have "a + b = c" by (simp only: word_unat_eq_iff)
  with fits show "checked_add a b = Some c" by (simp add: checked_add_def)
qed

lemma checked_sub_eq_Some [result_simps]:
  "checked_sub a b = Some c \<longleftrightarrow> unat a = unat b + unat c"
  for a b c :: "'a::len word"
proof
  assume "checked_sub a b = Some c"
  then have "b \<le> a" and c: "c = a - b" by (auto simp: checked_sub_def split: if_splits)
  then show "unat a = unat b + unat c"
    by (simp add: unat_sub word_le_nat_alt)
next
  assume a: "unat a = unat b + unat c"
  then have le: "b \<le> a" by (simp add: word_le_nat_alt)
  then have "unat (a - b) = unat c" using a by (simp add: unat_sub)
  then have "a - b = c" by (simp only: word_unat_eq_iff)
  with le show "checked_sub a b = Some c" by (simp add: checked_sub_def)
qed

lemma checked_add_word: "checked_add a b = Some c \<Longrightarrow> c = a + b"
  by (simp add: checked_add_def split: if_splits)

lemma checked_sub_word: "checked_sub a b = Some c \<Longrightarrow> c = a - b"
  by (simp add: checked_sub_def split: if_splits)

lemma checked_sub_self [simp]: "checked_sub a a = Some 0"
  by (simp add: checked_sub_def)

lemma checked_sub_zero [simp]: "checked_sub a 0 = Some a"
  by (simp add: checked_sub_def)

lemma checked_add_zero [simp]: "checked_add a 0 = Some a" "checked_add 0 a = Some a"
  by (simp_all add: checked_add_def)

lemma checked_sub_None: "checked_sub a b = None \<longleftrightarrow> unat a < unat b"
  by (auto simp: checked_sub_def word_le_nat_alt)

lemma checked_add_None: "checked_add a b = None \<longleftrightarrow> 2 ^ LENGTH('a) \<le> unat a + unat b"
  for a b :: "'a::len word"
  by (auto simp: checked_add_def)

text \<open>The form the simplifier evaluates: overflow shows as a sum below its summand.\<close>

lemma fits_iff_le: "unat a + unat b < 2 ^ LENGTH('a) \<longleftrightarrow> a \<le> a + b"
  for a b :: "'a::len word"
  by (simp add: no_olen_add_nat)

lemma checked_add_code [code]: "checked_add a b = (let c = a + b in if a \<le> c then Some c else None)"
  by (simp add: checked_add_def fits_iff_le Let_def)

lemma saturating_add_code [code]:
  "saturating_add a b = (let c = a + b in if a \<le> c then c else - 1)"
  by (simp add: saturating_add_def fits_iff_le Let_def)

section \<open>Fallible steps\<close>

definition ensure :: "bool \<Rightarrow> 'e \<Rightarrow> 'e + 'a \<Rightarrow> 'e + 'a" where
  "ensure b e k = (if b then k else Inl e)"

definition and_then :: "'e + 'a \<Rightarrow> ('a \<Rightarrow> 'e + 'b) \<Rightarrow> 'e + 'b" where
  "and_then m k = (case m of Inl e \<Rightarrow> Inl e | Inr x \<Rightarrow> k x)"

definition ok_or :: "'a option \<Rightarrow> 'e \<Rightarrow> 'e + 'a" where
  "ok_or x e = (case x of None \<Rightarrow> Inl e | Some y \<Rightarrow> Inr y)"

definition map_err :: "'f \<Rightarrow> 'e + 'a \<Rightarrow> 'f + 'a" where
  "map_err f m = (case m of Inl _ \<Rightarrow> Inl f | Inr x \<Rightarrow> Inr x)"

definition value_or :: "'a \<Rightarrow> 'a option \<Rightarrow> 'a" where
  "value_or d x = (case x of None \<Rightarrow> d | Some y \<Rightarrow> y)"

lemma ensure_cong [cong]: "b = b' \<Longrightarrow> (b' \<Longrightarrow> k = k') \<Longrightarrow> ensure b e k = ensure b' e k'"
  by (simp add: ensure_def)

lemma ensure_simps [simp]: "ensure True e k = k" "ensure False e k = Inl e"
  by (simp_all add: ensure_def)

lemma and_then_simps [simp]:
  "and_then (Inl e) k = Inl e" "and_then (Inr x) k = k x"
  by (simp_all add: and_then_def)

lemma ok_or_simps [simp]: "ok_or None e = Inl e" "ok_or (Some x) e = Inr x"
  by (simp_all add: ok_or_def)

lemma map_err_simps [simp]: "map_err f (Inl e) = Inl f" "map_err f (Inr x) = Inr x"
  by (simp_all add: map_err_def)

lemma map_err_Inr [result_simps]: "map_err f m = Inr r \<longleftrightarrow> m = Inr r"
  by (simp add: map_err_def split: sum.split)

lemma value_or_simps [simp]: "value_or d None = d" "value_or d (Some x) = x"
  by (simp_all add: value_or_def)

lemma ensure_Inr [result_simps]: "ensure b e k = Inr r \<longleftrightarrow> b \<and> k = Inr r"
  by (simp add: ensure_def)

lemma and_then_Inr [result_simps]:
  "and_then m k = Inr r \<longleftrightarrow> (\<exists>x. m = Inr x \<and> k x = Inr r)"
  by (simp add: and_then_def split: sum.split)

lemma ok_or_Inr [result_simps]: "ok_or x e = Inr r \<longleftrightarrow> x = Some r"
  by (simp add: ok_or_def split: option.split)

lemma ensure_Inl: "ensure b e k = Inl x \<longleftrightarrow> (\<not> b \<and> x = e) \<or> (b \<and> k = Inl x)"
  by (auto simp: ensure_def)

lemma and_then_Inl:
  "and_then m k = Inl x \<longleftrightarrow> m = Inl x \<or> (\<exists>y. m = Inr y \<and> k y = Inl x)"
  by (simp add: and_then_def split: sum.split)

lemma if_Inr [result_simps]:
  "(if b then Inl e else k) = Inr r \<longleftrightarrow> \<not> b \<and> k = Inr r"
  "(if b then k else Inl e) = Inr r \<longleftrightarrow> b \<and> k = Inr r"
  by simp_all

section \<open>Sums over finite maps\<close>

definition dom_sum :: "('v \<Rightarrow> 'c::comm_monoid_add) \<Rightarrow> ('k \<rightharpoonup> 'v) \<Rightarrow> 'c" where
  "dom_sum g m = (\<Sum>k\<in>dom m. g (the (m k)))"

definition opt_val :: "('v \<Rightarrow> 'c::comm_monoid_add) \<Rightarrow> 'v option \<Rightarrow> 'c" where
  "opt_val g x = (case x of None \<Rightarrow> 0 | Some v \<Rightarrow> g v)"

lemma opt_val_simps [simp]: "opt_val g None = 0" "opt_val g (Some v) = g v"
  by (simp_all add: opt_val_def)

lemma dom_sum_split:
  assumes "finite (dom m)"
  shows "dom_sum g m = (\<Sum>j\<in>dom m - {k}. g (the (m j))) + opt_val g (m k)"
proof (cases "m k")
  case None
  then have "dom m - {k} = dom m" by auto
  with None show ?thesis by (simp add: dom_sum_def)
next
  case (Some v)
  then have "dom m = insert k (dom m - {k})" by auto
  then have "dom_sum g m = sum (\<lambda>j. g (the (m j))) (insert k (dom m - {k}))"
    by (simp add: dom_sum_def)
  also have "\<dots> = g v + (\<Sum>j\<in>dom m - {k}. g (the (m j)))"
    using assms Some by (subst sum.insert) auto
  finally show ?thesis using Some by (simp add: add.commute)
qed

text \<open>
  The one law of updates: writing \<open>x\<close> at \<open>k\<close> exchanges the old contribution of \<open>k\<close> for
  the new one. It holds in any commutative monoid, so for counts (\<open>nat\<close>) and for
  wrapping totals (words) alike.
\<close>

lemma dom_sum_upd:
  assumes "finite (dom m)"
  shows "dom_sum g (m(k := x)) + opt_val g (m k) = dom_sum g m + opt_val g x"
proof -
  have fin: "finite (dom (m(k := x)))"
    using assms by (cases x) (auto simp: dom_fun_upd)
  have "dom (m(k := x)) - {k} = dom m - {k}" by (auto split: if_splits)
  then have rest: "(\<Sum>j\<in>dom (m(k := x)) - {k}. g (the ((m(k := x)) j)))
      = (\<Sum>j\<in>dom m - {k}. g (the (m j)))"
    by (intro sum.cong) auto
  show ?thesis
    unfolding dom_sum_split [OF fin, of g k] dom_sum_split [OF assms, of g k] rest
    by (simp add: ac_simps)
qed

lemma dom_sum_empty [simp]: "dom_sum g (\<lambda>_. None) = 0"
  by (simp add: dom_sum_def)

lemma dom_sum_ge:
  assumes "finite (dom m)" and "m k = Some v"
  shows "g v \<le> (dom_sum g m :: nat)"
  using assms dom_sum_split [of m g k] by simp

lemma dom_sum_ge2:
  assumes "finite (dom m)" and "m j = Some u" and "m k = Some v" and "j \<noteq> k"
  shows "g u + g v \<le> (dom_sum g m :: nat)"
proof -
  have "finite (dom (m(k := None)))" using assms(1) by simp
  moreover have "(m(k := None)) j = Some u" using assms by simp
  ultimately have "g u \<le> dom_sum g (m(k := None))" by (rule dom_sum_ge)
  then show ?thesis using dom_sum_upd [OF assms(1), of g k None] assms(3) by simp
qed

lemma dom_sum_cong:
  "(\<And>k. m k = m' k) \<Longrightarrow> dom_sum g m = dom_sum g m'"
  by (metis ext)

lemma dom_sum_curry_other:
  "t \<noteq> u \<Longrightarrow> (\<lambda>w. (m((t, a) := x)) (u, w)) = (\<lambda>w. m (u, w))"
  by auto

lemma dom_sum_curry_same:
  "(\<lambda>w. (m((t, a) := x)) (t, w)) = (\<lambda>w. m (t, w))(a := x)"
  by auto

lemma finite_dom_upd [simp]: "finite (dom (m(k := x))) \<longleftrightarrow> finite (dom m)"
  by (cases x) (simp_all add: dom_fun_upd)

lemma finite_dom_curry: "finite (dom m) \<Longrightarrow> finite (dom (\<lambda>w. m (t, w)))"
proof -
  assume fin: "finite (dom m)"
  have "dom (\<lambda>w. m (t, w)) \<subseteq> snd ` dom m" by (force simp: image_iff)
  with fin show ?thesis by (meson finite_imageI finite_subset)
qed

section \<open>Little-endian bytes and byte buffers\<close>

primrec le_nat :: "bytes \<Rightarrow> nat" where
  "le_nat [] = 0"
| "le_nat (b # bs) = unat b + 256 * le_nat bs"

primrec le_bytes :: "nat \<Rightarrow> nat \<Rightarrow> bytes" where
  "le_bytes 0 n = []"
| "le_bytes (Suc k) n = word_of_nat (n mod 256) # le_bytes k (n div 256)"

definition from_le_bytes :: "bytes \<Rightarrow> 'a::len word" where
  "from_le_bytes bs = word_of_nat (le_nat bs)"

definition copy_at :: "'a list \<Rightarrow> nat \<Rightarrow> 'a list \<Rightarrow> 'a list" where
  "copy_at xs i ys = take i xs @ ys @ drop (i + length ys) xs"

definition slice :: "'a list \<Rightarrow> nat \<Rightarrow> nat \<Rightarrow> 'a list" where
  "slice xs i j = take (j - i) (drop i xs)"

lemma length_le_bytes [simp]: "length (le_bytes k n) = k"
  by (induction k arbitrary: n) simp_all

lemma le_nat_le_bytes: "le_nat (le_bytes k n) = n mod 256 ^ k"
proof (induction k arbitrary: n)
  case 0
  show ?case by simp
next
  case (Suc k)
  have "unat (word_of_nat (n mod 256) :: u8) = n mod 256"
    by (simp add: unat_of_nat)
  with Suc show ?case by (simp add: mod_mult2_eq)
qed

lemma length_copy_at [simp]:
  "i + length ys \<le> length xs \<Longrightarrow> length (copy_at xs i ys) = length xs"
  by (simp add: copy_at_def)

lemma slice_copy_at_same:
  "i + length ys \<le> length xs \<Longrightarrow> j = i + length ys \<Longrightarrow> slice (copy_at xs i ys) i j = ys"
  by (simp add: copy_at_def slice_def)

lemma nth_copy_at:
  assumes "i + length ys \<le> length xs" and "k < length xs"
  shows "copy_at xs i ys ! k
    = (if k < i then xs ! k else if k < i + length ys then ys ! (k - i) else xs ! k)"
  using assms by (auto simp: copy_at_def nth_append not_less min_def)

lemma slice_eq_iff_nth:
  assumes "j \<le> length xs" and "j \<le> length ys" and "i \<le> j"
    and "\<And>k. i \<le> k \<Longrightarrow> k < j \<Longrightarrow> xs ! k = ys ! k"
  shows "slice xs i j = slice ys i j"
  using assms by (intro nth_equalityI) (auto simp: slice_def)

lemma length_slice [simp]: "j \<le> length xs \<Longrightarrow> length (slice xs i j) = j - i"
  by (simp add: slice_def)

text \<open>Widening a \<open>u32\<close> keeps its value.\<close>

lemma unat_ucast_u32: "unat (ucast y :: u128) = unat y" for y :: u32
proof -
  have "unat y < 2 ^ 128" using unsigned_less [of y, where ?'a = nat] by simp
  then show ?thesis by (simp add: unsigned_ucast_eq take_bit_nat_eq_self)
qed

end
