(* ===== verification/Primitives.thy ===== *)
theory Primitives
  imports Prelude
begin

text \<open>
  The types the pallets share: account and token ids, extrinsic origins and the error
  values of \<open>DispatchError\<close> with the error enumeration of each pallet.

  An account is an opaque key, so a number; the code compares accounts and never computes
  with them except where it decodes one from bytes, which is then a parameter of the model.
  \<open>Panic\<close> is not an error the source returns: it is the abort of the runtime call on an
  out-of-range index, an \<open>unwrap\<close> of \<open>None\<close> or a division by zero. It travels as an
  error so that every place where the code can abort is a branch of the model, and no
  definition of the model catches it.

  The arithmetic of \<open>sp_arithmetic\<close> (\<open>Permill\<close> and \<open>Perquintill\<close>) is outside this
  repository, so its operations are a record of functions that the definitions take as an
  argument.
\<close>

type_synonym account = nat
type_synonym token_id = u32
type_synonym block_number = u32
type_synonym chain_id = u16

datatype origin = RootOrigin | SignedOrigin account | NoneOrigin

datatype handler_error =
    InvalidTransfer | InvalidTokenId | InvalidResourceId | WrongAssetId | InvalidTokenName
  | OverTransferLimit | AssetAlreadyExists | InvalidCallMessage | RegisterAgentFailed
  | DepositerNotFound | PriceOverflow | LessThanBridgingThreshold | ResourceIdInvalid | FeeZero

datatype bot_error =
    BotAlreadyExist | BotNotFound | InvalidSymbol | InvalidCurrency | BeyondMaxInstance
  | MinimalAmountRequired

datatype agent_error = InvalidSignature

datatype foundation_error = AlreadyExists | EpochNotReached | InvalidApprover

datatype tournament_error =
    SeasonNotFound | NpcNotFound | BattleNotFound | NpcNotInBattle | BattleTimeError
  | BattleStatusError | DuplicateBetting | BattleNpcCantSame | BettingOverTime | TimeFormatError
  | InvalidResourceId | SeasonStatusError | DefaultSeasonNotFound | TicketAmountError
  | TicketPriceTooSmall | ParticipantOverflow | HaveNoBonus | InsufficientBalance
  | BuyTicketOverTime | BattleNotInSeason | VoteSelectZero | SelectIndexOverflow
  | BattleTypeError | AddrListInputError | BettingParamsError | PledgeAmountZero
  | BettingNotFound | BettingAmountOverflow | BettingError | BettingAmountTooSmall
  | PermissonDeny

datatype token_error =
    AmountZero | BalanceLow | BalanceZero | InvalidTokenName | TokenNotFound
  | InsufficientBalance | Overflow | TooManyReserves | InvalidDecimals | ContractError

datatype reward_error =
    Overflow | DivideByZero | RewardNotFound | InsufficientLiquidity | LiquidityNotFound

datatype market_error =
    BrokerNotFound | BrokerAlreadyRegistered | UnsupportedQuoteCurrency | TokenNotFound
  | MarketNotRegistered | MarketCouldntUpdate | MarketNotExists | MarketScaleOverflow
  | BrokerNameTooLong

datatype verifier_error =
    DominatorNotFound | ProofsUnsatisfied | IllegalParameters | ReceiptNotExists
  | ChainNotSupport | ReceiptAlreadyExists | DominatorAlreadyExists | TooEarlyToRegister
  | DominatorInactive | InsufficientBalance | Overflow | InsufficientStakingAmount
  | InvalidName | InvalidStatus | InvalidStaking | StakingNotExists | DistributionOngoing
  | LittleStakingAmount | UnsupportedQuoteCurrency | DominatorEvicted
  | DominatorStatusInvalid | FeesTooHigh | ProofDecompressError | ProofFormatError
  | ProofTooLarge | InvalidBeneficiaryProof

datatype bridge_error =
    ThresholdNotSet | InvalidChainId | InvalidThreshold | ChainNotWhitelisted
  | ChainAlreadyWhitelisted | ResourceDoesNotExist | RelayerAlreadyExists | RelayerInvalid
  | MustBeRelayer | RelayerAlreadyVoted | ProposalAlreadyExists | ProposalDoesNotExist
  | ProposalNotComplete | ProposalAlreadyComplete | ProposalExpired
  | ResourceIdNotMapToToken | InvalidResourceId

datatype dispatch_error =
    BadOrigin
  | CannotLookup
  | OtherError string
  | ForeignError nat
  | TokenError token_error
  | RewardError reward_error
  | MarketError market_error
  | VerifierError verifier_error
  | BridgeError bridge_error
  | HandlerError handler_error
  | BotError bot_error
  | AgentError agent_error
  | FoundationError foundation_error
  | TournamentError tournament_error
  | Panic

type_synonym 'a result = "dispatch_error + 'a"

definition ensure_signed :: "origin \<Rightarrow> account result" where
  "ensure_signed o' = (case o' of SignedOrigin who \<Rightarrow> Inr who | _ \<Rightarrow> Inl BadOrigin)"

definition ensure_root :: "origin \<Rightarrow> unit result" where
  "ensure_root o' = (case o' of RootOrigin \<Rightarrow> Inr () | _ \<Rightarrow> Inl BadOrigin)"

text \<open>
  A call whose error the source drops (\<open>let _ = f()\<close>, \<open>if let Err(e) = f()\<close>). The callee is
  transactional, so its failure leaves the storage \<open>s\<close>; an abort is not an error and goes on.
\<close>

definition drop_error :: "'s \<Rightarrow> 's result \<Rightarrow> 's result" where
  "drop_error s r = (case r of Inl e \<Rightarrow> if e = Panic then Inl Panic else Inr s | Inr s' \<Rightarrow> Inr s')"

text \<open>Division and remainder abort on a zero divisor, with or without overflow checks.\<close>

definition word_div :: "'a::len word \<Rightarrow> 'a word \<Rightarrow> ('a word) result" where
  "word_div a b = (if b = 0 then Inl Panic else Inr (a div b))"

definition word_rem :: "'a::len word \<Rightarrow> 'a word \<Rightarrow> ('a word) result" where
  "word_rem a b = (if b = 0 then Inl Panic else Inr (a mod b))"

record sp_arithmetic =
  permill_from_parts :: "u32 \<Rightarrow> u32"
  permill_from_percent :: "u32 \<Rightarrow> u32"
  permill_mul_ceil :: "u32 \<Rightarrow> u128 \<Rightarrow> u128"
  perquintill_from_rational :: "u128 \<Rightarrow> u128 \<Rightarrow> u64"
  perquintill_mul :: "u64 \<Rightarrow> u128 \<Rightarrow> u128"

lemma ensure_signed_Inr [result_simps]: "ensure_signed o' = Inr who \<longleftrightarrow> o' = SignedOrigin who"
  by (simp add: ensure_signed_def split: origin.split)

lemma ensure_root_Inr [result_simps]: "ensure_root o' = Inr u \<longleftrightarrow> o' = RootOrigin"
  by (simp add: ensure_root_def split: origin.split)

lemma word_div_Inr [result_simps]: "word_div a b = Inr c \<longleftrightarrow> b \<noteq> 0 \<and> c = a div b"
  by (auto simp: word_div_def)

lemma word_rem_Inr [result_simps]: "word_rem a b = Inr c \<longleftrightarrow> b \<noteq> 0 \<and> c = a mod b"
  by (auto simp: word_rem_def)

lemma drop_error_Inr [result_simps]:
  "drop_error s r = Inr t \<longleftrightarrow> r = Inr t \<or> (\<exists>e. r = Inl e \<and> e \<noteq> Panic \<and> t = s)"
  by (auto simp: drop_error_def split: sum.split if_splits)

lemma drop_error_simps [simp]:
  "drop_error s (Inr t) = Inr t" "e \<noteq> Panic \<Longrightarrow> drop_error s (Inl e) = Inr s"
  "drop_error s (Inl Panic) = Inl Panic"
  by (simp_all add: drop_error_def)

section \<open>The part of \<open>frame_system\<close> the pallets read\<close>

record system_state =
  block_number :: block_number
  account_nonce :: "account \<Rightarrow> u32"

end
