(* ===== verification/External_Chain.thy ===== *)
theory External_Chain
  imports Primitives
begin

text \<open>
  \<open>pallets/fuso-support\<close>: the token descriptor \<open>XToken\<close>, the shared constants, and the
  32-byte resource ids of the bridge (\<open>external_chain.rs\<close>, \<open>lib.rs\<close>).

  A resource id holds the length of the contract address in byte 0, the address right
  before byte 29, the dominator index in byte 29 and the chain id, little-endian, in the
  last two bytes. The lemmas show that decoding inverts deriving, that both refuse exactly
  the lengths outside 1 to 28, and that equal ids come from equal parts.
\<close>

section \<open>Constants\<close>

definition RESERVE_FOR_STAKING :: u8 where "RESERVE_FOR_STAKING = 0"
definition RESERVE_FOR_AUTHORIZING :: u8 where "RESERVE_FOR_AUTHORIZING = 1"
definition RESERVE_FOR_AUTHORIZING_STASH :: u8 where "RESERVE_FOR_AUTHORIZING_STASH = 2"
definition RESERVE_FOR_PENDING_UNSTAKE :: u8 where "RESERVE_FOR_PENDING_UNSTAKE = 3"
definition DOMINATOR_REGISTERED :: u8 where "DOMINATOR_REGISTERED = 0"
definition DOMINATOR_INACTIVE :: u8 where "DOMINATOR_INACTIVE = 1"
definition DOMINATOR_ACTIVE :: u8 where "DOMINATOR_ACTIVE = 2"
definition DOMINATOR_EVICTED :: u8 where "DOMINATOR_EVICTED = 3"
definition STANDARD_DECIMALS :: u8 where "STANDARD_DECIMALS = 18"
definition MAX_DECIMALS :: u8 where "MAX_DECIMALS = 24"

lemmas status_defs =
  DOMINATOR_REGISTERED_def DOMINATOR_INACTIVE_def DOMINATOR_ACTIVE_def DOMINATOR_EVICTED_def

lemmas reserve_id_defs =
  RESERVE_FOR_STAKING_def RESERVE_FOR_AUTHORIZING_def RESERVE_FOR_AUTHORIZING_STASH_def
  RESERVE_FOR_PENDING_UNSTAKE_def

section \<open>Token descriptors\<close>

datatype xtoken =
    NEP141 bytes bytes u128 bool u8
  | ERC20 bytes bytes u128 bool u8
  | BEP20 bytes bytes u128 bool u8
  | FND10 bytes u128
  | POLYGON bytes bytes u128 bool u8

fun xtoken_is_stable :: "xtoken \<Rightarrow> bool" where
  "xtoken_is_stable (NEP141 _ _ _ st _) = st"
| "xtoken_is_stable (ERC20 _ _ _ st _) = st"
| "xtoken_is_stable (POLYGON _ _ _ st _) = st"
| "xtoken_is_stable (BEP20 _ _ _ st _) = st"
| "xtoken_is_stable (FND10 _ _) = False"

fun xtoken_symbol :: "xtoken \<Rightarrow> bytes" where
  "xtoken_symbol (NEP141 symbol _ _ _ _) = symbol"
| "xtoken_symbol (ERC20 symbol _ _ _ _) = symbol"
| "xtoken_symbol (POLYGON symbol _ _ _ _) = symbol"
| "xtoken_symbol (BEP20 symbol _ _ _ _) = symbol"
| "xtoken_symbol (FND10 symbol _) = symbol"

fun xtoken_contract :: "xtoken \<Rightarrow> bytes" where
  "xtoken_contract (NEP141 _ contract _ _ _) = contract"
| "xtoken_contract (ERC20 _ contract _ _ _) = contract"
| "xtoken_contract (POLYGON _ contract _ _ _) = contract"
| "xtoken_contract (BEP20 _ contract _ _ _) = contract"
| "xtoken_contract (FND10 _ _) = []"

section \<open>Resource ids\<close>

type_synonym resource_id = bytes

definition contract_length_error :: string where
  "contract_length_error = ''contract length error''"

definition derive_resource_id :: "chain_id \<Rightarrow> u8 \<Rightarrow> bytes \<Rightarrow> string + resource_id" where
  "derive_resource_id chain dex ident =
    (let r_id = replicate 32 0;
         id_len = length ident
     in if id_len > 28 \<or> id_len < 1 then Inl contract_length_error
        else
          let r_id = copy_at r_id 30 (le_bytes 2 (unat chain));
              r_id = r_id[29 := dex];
              r_id = copy_at r_id (29 - id_len) ident;
              r_id = r_id[0 := word_of_nat id_len]
          in Inr r_id)"

definition decode_resource_id :: "resource_id \<Rightarrow> string + (chain_id \<times> u8 \<times> bytes)" where
  "decode_resource_id r_id =
    (let chainid = from_le_bytes (slice r_id 30 32);
         dex = r_id ! 29;
         id_len = r_id ! 0
     in if id_len > 28 \<or> id_len < 1 then Inl contract_length_error
        else Inr (chainid, dex, slice r_id (29 - unat id_len) 29))"

lemma length_derive_resource_id:
  "derive_resource_id c d v = Inr r \<Longrightarrow> length r = 32"
  by (auto simp: derive_resource_id_def Let_def split: if_splits)

lemma derive_resource_id_ok:
  "(\<exists>r. derive_resource_id c d v = Inr r) \<longleftrightarrow> 1 \<le> length v \<and> length v \<le> 28"
  by (auto simp: derive_resource_id_def Let_def Suc_le_eq)

lemma derive_resource_id_parts:
  assumes "derive_resource_id c d v = Inr r"
  shows "r ! 0 = word_of_nat (length v)" and "r ! 29 = d"
    and "slice r 30 32 = le_bytes 2 (unat c)"
    and "slice r (29 - length v) 29 = v"
proof -
  define r1 where "r1 = copy_at (replicate 32 0) 30 (le_bytes 2 (unat c))"
  define r2 where "r2 = r1[29 := d]"
  define r3 where "r3 = copy_at r2 (29 - length v) v"
  have len: "1 \<le> length v" "length v \<le> 28" and r: "r = r3[0 := word_of_nat (length v)]"
    using assms by (auto simp: derive_resource_id_def Let_def r1_def r2_def r3_def Suc_le_eq split: if_splits)
  have l1: "length r1 = 32" and l2: "length r2 = 32" by (simp_all add: r1_def r2_def)
  have l3: "length r3 = 32" using len l2 by (simp add: r3_def)
  show "r ! 0 = word_of_nat (length v)" using l3 by (simp add: r)
  show "r ! 29 = d" using len l1 l2 l3 by (simp add: r r3_def nth_copy_at r2_def)
  have "slice r 30 32 = slice r1 30 32"
    using len l1 l2 l3
    by (intro slice_eq_iff_nth) (auto simp: r r3_def nth_copy_at r2_def)
  also have "\<dots> = le_bytes 2 (unat c)" by (simp add: r1_def slice_copy_at_same)
  finally show "slice r 30 32 = le_bytes 2 (unat c)" .
  have "slice r (29 - length v) 29 = slice r3 (29 - length v) 29"
    using len l3 by (intro slice_eq_iff_nth) (auto simp: r)
  also have "\<dots> = v" using len l2 by (simp add: r3_def slice_copy_at_same)
  finally show "slice r (29 - length v) 29 = v" .
qed

lemma from_le_bytes_u16: "from_le_bytes (le_bytes 2 (unat c)) = (c :: u16)"
proof -
  have "unat c < 256 ^ 2" using unsigned_less [of c] by simp
  then show ?thesis by (simp add: from_le_bytes_def le_nat_le_bytes)
qed

text \<open>
  C39. Round trip of bridge resource ids: whatever \<open>derive_resource_id\<close> packs for a chain, a
  dominator index and a contract address, \<open>decode_resource_id\<close> unpacks to the same three.
\<close>

theorem decode_derive_resource_id:
  assumes "derive_resource_id c d v = Inr r"
  shows "decode_resource_id r = Inr (c, d, v)"
proof -
  have len: "1 \<le> length v" "length v \<le> 28"
    using assms derive_resource_id_ok by blast+
  note parts = derive_resource_id_parts [OF assms]
  have l: "unat (word_of_nat (length v) :: u8) = length v"
    using len by (simp add: unat_of_nat)
  have "\<not> (28 < (word_of_nat (length v) :: u8))" "\<not> (word_of_nat (length v) < (1 :: u8))"
    using len l by (auto simp: word_less_nat_alt Suc_le_eq)
  then show ?thesis
    by (simp add: decode_resource_id_def Let_def parts l from_le_bytes_u16)
qed

theorem decode_derive_resource_id_witness:
  "decode_resource_id ([3] @ replicate 25 0 @ [84, 65, 79, 5, 42, 0]) = Inr (42, 5, [84, 65, 79])"
proof -
  have "derive_resource_id 42 5 [84, 65, 79]
      = Inr ([3] @ replicate 25 0 @ [84, 65, 79, 5, 42, 0])"
    by code_simp
  then show ?thesis by (rule decode_derive_resource_id)
qed

end
