(* ===== verification/Token.thy ===== *)
theory Token
  imports External_Chain
begin

text \<open>
  \<open>pallets/token/src/lib.rs\<close>: the multi-asset ledger. The state holds the pallet's five
  storage items and the events it deposits; \<open>native\<close> is the storage of
  \<open>pallet_balances\<close>, which keeps the native token. That pallet is outside this
  repository, so the operations the code calls on it are the record \<open>native_currency\<close>,
  part of the configuration.

  The section order is the file's: dispatchables, minting and burning, the inspection
  interface, \<open>Token\<close>, the decimal conversions, \<open>ReservableToken\<close>, the bridge lookups.
\<close>

section \<open>State and configuration\<close>

record token_account =
  acc_free :: u128
  acc_reserved :: u128

datatype balance_status = StatusFree | StatusReserved

datatype token_event =
    TokenIssued token_id bytes
  | TokenTransfered token_id account account u128
  | TokenReserved token_id account u128
  | TokenUnreserved token_id account u128
  | TokenMinted token_id account u128
  | TokenBurned token_id account u128
  | TokenRepatriated token_id account account u128

record 'n token_state = system_state +
  token_balances :: "token_id \<times> account \<Rightarrow> token_account option"
  tokens :: "token_id \<Rightarrow> xtoken option"
  next_token_id :: token_id
  token_by_name :: "bytes \<Rightarrow> token_id option"
  token_by_contract :: "chain_id \<times> bytes \<Rightarrow> token_id option"
  token_events :: "token_event list"
  native :: 'n

text \<open>
  \<open>pallet_balances\<close>, as the code uses it: the account closure works on the pair of free and
  reserved balance, and \<open>nc_unreserve\<close> drops the remainder the call returns.
\<close>

record 'n native_currency =
  nc_free :: "account \<Rightarrow> 'n \<Rightarrow> u128"
  nc_reserved :: "account \<Rightarrow> 'n \<Rightarrow> u128"
  nc_issuance :: "'n \<Rightarrow> u128"
  nc_set_issuance :: "u128 \<Rightarrow> 'n \<Rightarrow> 'n"
  nc_transfer :: "account \<Rightarrow> account \<Rightarrow> u128 \<Rightarrow> 'n \<Rightarrow> 'n result"
  nc_mutate_account :: "account \<Rightarrow> (u128 \<times> u128 \<Rightarrow> (u128 \<times> u128) result) \<Rightarrow> 'n \<Rightarrow> 'n result"
  nc_can_reserve :: "account \<Rightarrow> u128 \<Rightarrow> 'n \<Rightarrow> bool"
  nc_reserve :: "account \<Rightarrow> u128 \<Rightarrow> 'n \<Rightarrow> 'n result"
  nc_unreserve :: "account \<Rightarrow> u128 \<Rightarrow> 'n \<Rightarrow> 'n"
  nc_repatriate :: "account \<Rightarrow> account \<Rightarrow> u128 \<Rightarrow> balance_status \<Rightarrow> 'n \<Rightarrow> 'n result"
  nc_burn_from :: "account \<Rightarrow> u128 \<Rightarrow> 'n \<Rightarrow> 'n result"

record 'n token_config =
  currency :: "'n native_currency"
  near_chain_id :: chain_id
  eth_chain_id :: chain_id
  bnb_chain_id :: chain_id
  native_chain_id :: chain_id
  polygon_chain_id :: chain_id
  native_id :: token_id
  burn_tao_when_issue :: u128
  token_admin_origin :: "origin \<Rightarrow> bool"
  token_lookup :: "nat \<Rightarrow> account result"
  ascii_valid :: "bytes \<Rightarrow> bool"

definition no_account :: token_account where
  "no_account = \<lparr>acc_free = 0, acc_reserved = 0\<rparr>"

text \<open>What the code writes back for an account it took out: nothing when both parts are zero.\<close>

definition keep_alive :: "token_account \<Rightarrow> token_account option" where
  "keep_alive a = (if acc_free a = 0 \<and> acc_reserved a = 0 then None else Some a)"

definition deposit_token :: "token_event \<Rightarrow> ('n, 'z) token_state_scheme \<Rightarrow> ('n, 'z) token_state_scheme" where
  "deposit_token e s = s\<lparr>token_events := token_events s @ [e]\<rparr>"

definition get_token_balance ::
  "token_id \<times> account \<Rightarrow> ('n, 'z) token_state_scheme \<Rightarrow> token_account" where
  "get_token_balance k s = value_or no_account (token_balances s k)"

section \<open>Decimals\<close>

primrec shrink10 :: "nat \<Rightarrow> u128 \<Rightarrow> u128" where
  "shrink10 0 amount = amount"
| "shrink10 (Suc n) amount = shrink10 n (amount div 10)"

primrec grow10 :: "nat \<Rightarrow> u128 \<Rightarrow> u128" where
  "grow10 0 amount = amount"
| "grow10 (Suc n) amount = grow10 n (amount * 10)"

definition transform_decimals_to_standard :: "u128 \<Rightarrow> u8 \<Rightarrow> u128" where
  "transform_decimals_to_standard amount external_decimals =
    (if external_decimals > STANDARD_DECIMALS
     then shrink10 (unat (external_decimals - STANDARD_DECIMALS)) amount
     else grow10 (unat (STANDARD_DECIMALS - external_decimals)) amount)"

definition transform_decimals_to_external :: "u128 \<Rightarrow> u8 \<Rightarrow> u128" where
  "transform_decimals_to_external amount external_decimals =
    (if external_decimals > STANDARD_DECIMALS
     then grow10 (unat (external_decimals - STANDARD_DECIMALS)) amount
     else shrink10 (unat (STANDARD_DECIMALS - external_decimals)) amount)"

section \<open>Minting and burning\<close>

text \<open>
  The \<open>match\<close> on the descriptor: the descriptor with its total moved and the unified amount.
  For \<open>FND10\<close> the source binds the total itself as the unified amount.
\<close>

fun mint_total :: "u128 \<Rightarrow> xtoken \<Rightarrow> (xtoken \<times> u128) result" where
  "mint_total amount (NEP141 sy c tot st d) =
    (let u = transform_decimals_to_standard amount d in
     and_then (ok_or (checked_add tot u) (TokenError token_error.InsufficientBalance))
       (\<lambda>tot_new. Inr (NEP141 sy c tot_new st d, u)))"
| "mint_total amount (ERC20 sy c tot st d) =
    (let u = transform_decimals_to_standard amount d in
     and_then (ok_or (checked_add tot u) (TokenError token_error.InsufficientBalance))
       (\<lambda>tot_new. Inr (ERC20 sy c tot_new st d, u)))"
| "mint_total amount (POLYGON sy c tot st d) =
    (let u = transform_decimals_to_standard amount d in
     and_then (ok_or (checked_add tot u) (TokenError token_error.InsufficientBalance))
       (\<lambda>tot_new. Inr (POLYGON sy c tot_new st d, u)))"
| "mint_total amount (BEP20 sy c tot st d) =
    (let u = transform_decimals_to_standard amount d in
     and_then (ok_or (checked_add tot u) (TokenError token_error.InsufficientBalance))
       (\<lambda>tot_new. Inr (BEP20 sy c tot_new st d, u)))"
| "mint_total amount (FND10 sy tot) = Inr (FND10 sy tot, tot)"

definition do_mint ::
  "token_id \<Rightarrow> account \<Rightarrow> u128 \<Rightarrow> ('n, 'z) token_state_scheme \<Rightarrow> ('n, 'z) token_state_scheme result" where
  "do_mint token beneficiary amount s =
    (if amount = 0 then Inr s
     else
       and_then (ok_or (tokens s token) (TokenError token_error.TokenNotFound)) (\<lambda>info.
       and_then (mint_total amount info) (\<lambda>(info', unified_amount).
       ensure (unified_amount \<noteq> 0) (TokenError AmountZero) (
       let account = get_token_balance (token, beneficiary) s in
       and_then (ok_or (checked_add (acc_free account) unified_amount)
           (TokenError token_error.Overflow)) (\<lambda>free.
       Inr (deposit_token (TokenMinted token beneficiary unified_amount)
         (s\<lparr>token_balances := (token_balances s)((token, beneficiary) \<mapsto> account\<lparr>acc_free := free\<rparr>),
            tokens := (tokens s)(token \<mapsto> info')\<rparr>)))))))"

fun burn_total :: "u128 \<Rightarrow> xtoken \<Rightarrow> (xtoken \<times> u128) result" where
  "burn_total amount (NEP141 sy c tot st d) =
    (let u = transform_decimals_to_standard amount d in
     and_then (ok_or (checked_sub tot u) (TokenError token_error.InsufficientBalance))
       (\<lambda>tot_new. Inr (NEP141 sy c tot_new st d, u)))"
| "burn_total amount (ERC20 sy c tot st d) =
    (let u = transform_decimals_to_standard amount d in
     and_then (ok_or (checked_sub tot u) (TokenError token_error.InsufficientBalance))
       (\<lambda>tot_new. Inr (ERC20 sy c tot_new st d, u)))"
| "burn_total amount (POLYGON sy c tot st d) =
    (let u = transform_decimals_to_standard amount d in
     and_then (ok_or (checked_sub tot u) (TokenError token_error.InsufficientBalance))
       (\<lambda>tot_new. Inr (POLYGON sy c tot_new st d, u)))"
| "burn_total amount (BEP20 sy c tot st d) =
    (let u = transform_decimals_to_standard amount d in
     and_then (ok_or (checked_sub tot u) (TokenError token_error.InsufficientBalance))
       (\<lambda>tot_new. Inr (BEP20 sy c tot_new st d, u)))"
| "burn_total amount (FND10 sy tot) = Inr (FND10 sy tot, tot)"

definition do_burn ::
  "token_id \<Rightarrow> account \<Rightarrow> u128 \<Rightarrow> ('n, 'z) token_state_scheme
    \<Rightarrow> (u128 \<times> ('n, 'z) token_state_scheme) result" where
  "do_burn token target amount s =
    ensure (amount \<noteq> 0) (TokenError AmountZero) (
    and_then (ok_or (tokens s token) (TokenError BalanceZero)) (\<lambda>info.
    and_then (burn_total amount info) (\<lambda>(info', unified_amount).
    ensure (unified_amount \<noteq> 0) (TokenError AmountZero) (
    and_then (ok_or (token_balances s (token, target)) (TokenError BalanceZero)) (\<lambda>account.
    and_then (ok_or (checked_sub (acc_free account) unified_amount)
        (TokenError token_error.InsufficientBalance)) (\<lambda>free.
    Inr (amount, deposit_token (TokenBurned token target unified_amount)
      (s\<lparr>token_balances := (token_balances s)((token, target) := keep_alive (account\<lparr>acc_free := free\<rparr>)),
         tokens := (tokens s)(token \<mapsto> info')\<rparr>))))))))"

section \<open>The \<open>fungibles\<close> inspection and mutation interface\<close>

datatype deposit_consequence = DepositSuccess | DepositUnknownAsset
datatype withdraw_consequence = WithdrawSuccess | WithdrawNoFunds

definition minimum_balance :: "token_id \<Rightarrow> u128" where
  "minimum_balance asset = 1"

definition balance :: "token_id \<Rightarrow> account \<Rightarrow> ('n, 'z) token_state_scheme \<Rightarrow> u128" where
  "balance asset who s =
    (let b = get_token_balance (asset, who) s in acc_free b + acc_reserved b)"

definition free_balance ::
  "'n token_config \<Rightarrow> token_id \<Rightarrow> account \<Rightarrow> ('n, 'z) token_state_scheme \<Rightarrow> u128" where
  "free_balance c token who s =
    (if token = native_id c then nc_free (currency c) who (native s)
     else acc_free (get_token_balance (token, who) s))"

definition reducible_balance ::
  "'n token_config \<Rightarrow> token_id \<Rightarrow> account \<Rightarrow> bool \<Rightarrow> ('n, 'z) token_state_scheme \<Rightarrow> u128" where
  "reducible_balance c asset who keep_alive_flag s = free_balance c asset who s"

definition can_deposit ::
  "token_id \<Rightarrow> account \<Rightarrow> u128 \<Rightarrow> bool \<Rightarrow> ('n, 'z) token_state_scheme \<Rightarrow> deposit_consequence" where
  "can_deposit asset who amount mint s =
    (case tokens s asset of Some _ \<Rightarrow> DepositSuccess | None \<Rightarrow> DepositUnknownAsset)"

definition can_withdraw ::
  "'n token_config \<Rightarrow> token_id \<Rightarrow> account \<Rightarrow> u128 \<Rightarrow> ('n, 'z) token_state_scheme
    \<Rightarrow> withdraw_consequence" where
  "can_withdraw c asset who amount s =
    (if amount \<le> free_balance c asset who s then WithdrawSuccess else WithdrawNoFunds)"

definition mint_into ::
  "token_id \<Rightarrow> account \<Rightarrow> u128 \<Rightarrow> ('n, 'z) token_state_scheme \<Rightarrow> ('n, 'z) token_state_scheme result" where
  "mint_into asset who amount s = do_mint asset who amount s"

definition burn_from ::
  "token_id \<Rightarrow> account \<Rightarrow> u128 \<Rightarrow> ('n, 'z) token_state_scheme
    \<Rightarrow> (u128 \<times> ('n, 'z) token_state_scheme) result" where
  "burn_from asset who amount s = do_burn asset who amount s"

definition slash ::
  "token_id \<Rightarrow> account \<Rightarrow> u128 \<Rightarrow> ('n, 'z) token_state_scheme
    \<Rightarrow> (u128 \<times> ('n, 'z) token_state_scheme) result" where
  "slash asset who amount s = do_burn asset who amount s"

section \<open>The interface \<open>Token\<close>\<close>

definition valid_name :: "'n token_config \<Rightarrow> bytes \<Rightarrow> bool" where
  "valid_name c sy \<longleftrightarrow> ascii_valid c sy \<and> 2 \<le> length sy \<and> length sy \<le> 8"

text \<open>
  The checks of \<open>create\<close> and the descriptor it stores: total zero and, but for \<open>FND10\<close>, not
  stable. The second component is the name it registers for the octopus bridge.
\<close>

fun create_info ::
  "'n token_config \<Rightarrow> (bytes \<Rightarrow> token_id option) \<Rightarrow> xtoken \<Rightarrow> (xtoken \<times> bytes option) result" where
  "create_info c names (NEP141 sy ct tot st d) =
    ensure (d \<le> MAX_DECIMALS) (TokenError InvalidDecimals) (
    ensure (valid_name c sy) (TokenError InvalidTokenName) (
    ensure (length ct < 120 \<and> 2 < length ct) (TokenError ContractError) (
    ensure (names ct = None) (TokenError ContractError) (
    Inr (NEP141 sy ct 0 False d, Some ct)))))"
| "create_info c names (ERC20 sy ct tot st d) =
    ensure (d \<le> MAX_DECIMALS) (TokenError InvalidDecimals) (
    ensure (valid_name c sy) (TokenError InvalidTokenName) (
    ensure (length ct = 20) (TokenError ContractError) (
    Inr (ERC20 sy ct 0 False d, None))))"
| "create_info c names (POLYGON sy ct tot st d) =
    ensure (d \<le> MAX_DECIMALS) (TokenError InvalidDecimals) (
    ensure (valid_name c sy) (TokenError InvalidTokenName) (
    ensure (length ct = 20) (TokenError ContractError) (
    Inr (POLYGON sy ct 0 False d, None))))"
| "create_info c names (BEP20 sy ct tot st d) =
    ensure (d \<le> MAX_DECIMALS) (TokenError InvalidDecimals) (
    ensure (valid_name c sy) (TokenError InvalidTokenName) (
    ensure (length ct = 20) (TokenError ContractError) (
    Inr (BEP20 sy ct 0 False d, None))))"
| "create_info c names (FND10 sy tot) =
    ensure (valid_name c sy) (TokenError InvalidTokenName) (Inr (FND10 sy 0, None))"

definition create ::
  "'n token_config \<Rightarrow> xtoken \<Rightarrow> ('n, 'z) token_state_scheme
    \<Rightarrow> (token_id \<times> ('n, 'z) token_state_scheme) result" where
  "create c token_info s =
    (let id = next_token_id s in
     and_then (create_info c (token_by_name s) token_info) (\<lambda>(info, name).
     let s = (case name of None \<Rightarrow> s
              | Some n \<Rightarrow> s\<lparr>token_by_name := (token_by_name s)(n \<mapsto> id)\<rparr>)
     in Inr (id, s\<lparr>next_token_id := next_token_id s + 1, tokens := (tokens s)(id \<mapsto> info)\<rparr>)))"

definition transfer_token ::
  "'n token_config \<Rightarrow> account \<Rightarrow> token_id \<Rightarrow> u128 \<Rightarrow> account \<Rightarrow> ('n, 'z) token_state_scheme
    \<Rightarrow> ('n, 'z) token_state_scheme result" where
  "transfer_token c from' token amount target s =
    (if amount = 0 then Inr s
     else if from' = target then Inr s
     else if token = native_id c then
       and_then (nc_transfer (currency c) from' target amount (native s)) (\<lambda>n. Inr (s\<lparr>native := n\<rparr>))
     else
       and_then (ok_or (token_balances s (token, from')) (TokenError BalanceZero)) (\<lambda>account.
       and_then (ok_or (checked_sub (acc_free account) amount)
           (TokenError token_error.InsufficientBalance)) (\<lambda>left_free.
       let taker = get_token_balance (token, target) s in
       and_then (ok_or (checked_add (acc_free taker) amount)
           (TokenError token_error.Overflow)) (\<lambda>new_free.
       Inr (deposit_token (TokenTransfered token from' target amount)
         (s\<lparr>token_balances := (token_balances s)
             ((token, target) \<mapsto> taker\<lparr>acc_free := new_free\<rparr>,
              (token, from') := keep_alive (account\<lparr>acc_free := left_free\<rparr>))\<rparr>))))))"

definition try_mutate_account ::
  "'n token_config \<Rightarrow> token_id \<Rightarrow> account \<Rightarrow> (u128 \<times> u128 \<Rightarrow> (u128 \<times> u128) result)
    \<Rightarrow> ('n, 'z) token_state_scheme \<Rightarrow> ('n, 'z) token_state_scheme result" where
  "try_mutate_account c token who f s =
    (if token = native_id c then
       and_then (nc_mutate_account (currency c) who f (native s)) (\<lambda>n. Inr (s\<lparr>native := n\<rparr>))
     else
       let b = get_token_balance (token, who) s in
       and_then (f (acc_free b, acc_reserved b)) (\<lambda>(fr, rs).
       Inr (s\<lparr>token_balances := (token_balances s)
              ((token, who) := keep_alive \<lparr>acc_free = fr, acc_reserved = rs\<rparr>)\<rparr>)))"

definition try_mutate_issuance ::
  "'n token_config \<Rightarrow> token_id \<Rightarrow> (u128 \<Rightarrow> u128 result) \<Rightarrow> ('n, 'z) token_state_scheme
    \<Rightarrow> ('n, 'z) token_state_scheme result" where
  "try_mutate_issuance c token f s =
    (if token = native_id c then
       and_then (f (nc_issuance (currency c) (native s))) (\<lambda>v.
       Inr (s\<lparr>native := nc_set_issuance (currency c) v (native s)\<rparr>))
     else Inl (OtherError ''can't update the token issuance''))"

definition token_exists :: "'n token_config \<Rightarrow> token_id \<Rightarrow> ('n, 'z) token_state_scheme \<Rightarrow> bool" where
  "token_exists c token s \<longleftrightarrow> token = native_id c \<or> tokens s token \<noteq> None"

definition is_stable :: "'n token_config \<Rightarrow> token_id \<Rightarrow> ('n, 'z) token_state_scheme \<Rightarrow> bool" where
  "is_stable c token s =
    (if token = native_id c then False
     else value_or False (map_option xtoken_is_stable (tokens s token)))"

fun xtoken_total :: "xtoken \<Rightarrow> u128" where
  "xtoken_total (NEP141 _ _ tot _ _) = tot"
| "xtoken_total (ERC20 _ _ tot _ _) = tot"
| "xtoken_total (POLYGON _ _ tot _ _) = tot"
| "xtoken_total (BEP20 _ _ tot _ _) = tot"
| "xtoken_total (FND10 _ tot) = tot"

definition total_issuance :: "'n token_config \<Rightarrow> token_id \<Rightarrow> ('n, 'z) token_state_scheme \<Rightarrow> u128" where
  "total_issuance c token s =
    (if token = native_id c then nc_issuance (currency c) (native s)
     else case tokens s token of Some info \<Rightarrow> xtoken_total info | None \<Rightarrow> 0)"

fun xtoken_decimals :: "xtoken \<Rightarrow> u8 option" where
  "xtoken_decimals (NEP141 _ _ _ _ d) = Some d"
| "xtoken_decimals (ERC20 _ _ _ _ d) = Some d"
| "xtoken_decimals (POLYGON _ _ _ _ d) = Some d"
| "xtoken_decimals (BEP20 _ _ _ _ d) = Some d"
| "xtoken_decimals (FND10 _ _) = None"

definition token_external_decimals ::
  "'n token_config \<Rightarrow> token_id \<Rightarrow> ('n, 'z) token_state_scheme \<Rightarrow> u8 result" where
  "token_external_decimals c token s =
    (if token = native_id c then Inr STANDARD_DECIMALS
     else case tokens s token of
            Some info \<Rightarrow> ok_or (xtoken_decimals info) (TokenError token_error.TokenNotFound)
          | None \<Rightarrow> Inl (TokenError token_error.TokenNotFound))"

section \<open>The interface \<open>ReservableToken\<close>\<close>

definition can_reserve ::
  "'n token_config \<Rightarrow> token_id \<Rightarrow> account \<Rightarrow> u128 \<Rightarrow> ('n, 'z) token_state_scheme \<Rightarrow> bool" where
  "can_reserve c token who value s =
    (if value = 0 then True
     else if token = native_id c then nc_can_reserve (currency c) who value (native s)
     else value \<le> free_balance c token who s)"

definition reserve ::
  "'n token_config \<Rightarrow> token_id \<Rightarrow> account \<Rightarrow> u128 \<Rightarrow> ('n, 'z) token_state_scheme
    \<Rightarrow> ('n, 'z) token_state_scheme result" where
  "reserve c token who value s =
    (if value = 0 then Inr s
     else if token = native_id c then
       and_then (nc_reserve (currency c) who value (native s)) (\<lambda>n. Inr (s\<lparr>native := n\<rparr>))
     else
       and_then (ok_or (token_balances s (token, who)) (TokenError BalanceZero)) (\<lambda>account.
       and_then (ok_or (checked_sub (acc_free account) value)
           (TokenError token_error.InsufficientBalance)) (\<lambda>fr.
       and_then (ok_or (checked_add (acc_reserved account) value)
           (TokenError token_error.Overflow)) (\<lambda>rs.
       Inr (deposit_token (TokenReserved token who value)
         (s\<lparr>token_balances := (token_balances s)
            ((token, who) \<mapsto> \<lparr>acc_free = fr, acc_reserved = rs\<rparr>)\<rparr>))))))"

definition reserved_balance ::
  "'n token_config \<Rightarrow> token_id \<Rightarrow> account \<Rightarrow> ('n, 'z) token_state_scheme \<Rightarrow> u128" where
  "reserved_balance c token who s =
    (if token = native_id c then nc_reserved (currency c) who (native s)
     else acc_reserved (get_token_balance (token, who) s))"

definition unreserve ::
  "'n token_config \<Rightarrow> token_id \<Rightarrow> account \<Rightarrow> u128 \<Rightarrow> ('n, 'z) token_state_scheme
    \<Rightarrow> ('n, 'z) token_state_scheme result" where
  "unreserve c token who value s =
    (if value = 0 then Inr s
     else if token = native_id c then
       ensure (value \<le> nc_reserved (currency c) who (native s))
         (TokenError token_error.InsufficientBalance)
         (Inr (s\<lparr>native := nc_unreserve (currency c) who value (native s)\<rparr>))
     else
       and_then (ok_or (token_balances s (token, who)) (TokenError BalanceZero)) (\<lambda>account.
       and_then (ok_or (checked_sub (acc_reserved account) value)
           (TokenError token_error.InsufficientBalance)) (\<lambda>rs.
       and_then (ok_or (checked_add (acc_free account) value)
           (TokenError token_error.Overflow)) (\<lambda>fr.
       Inr (deposit_token (TokenUnreserved token who value)
         (s\<lparr>token_balances := (token_balances s)
            ((token, who) \<mapsto> \<lparr>acc_free = fr, acc_reserved = rs\<rparr>)\<rparr>))))))"

text \<open>The \<open>match status\<close> on the beneficiary's account.\<close>

definition repatriate_into :: "balance_status \<Rightarrow> u128 \<Rightarrow> token_account \<Rightarrow> token_account result" where
  "repatriate_into status value account =
    (case status of
       StatusFree \<Rightarrow>
         and_then (ok_or (checked_add (acc_free account) value) (TokenError token_error.Overflow))
           (\<lambda>fr. Inr (account\<lparr>acc_free := fr\<rparr>))
     | StatusReserved \<Rightarrow>
         and_then (ok_or (checked_add (acc_reserved account) value) (TokenError token_error.Overflow))
           (\<lambda>rs. Inr (account\<lparr>acc_reserved := rs\<rparr>)))"

definition repatriate_reserved ::
  "'n token_config \<Rightarrow> token_id \<Rightarrow> account \<Rightarrow> account \<Rightarrow> u128 \<Rightarrow> balance_status
    \<Rightarrow> ('n, 'z) token_state_scheme \<Rightarrow> ('n, 'z) token_state_scheme result" where
  "repatriate_reserved c token slashed beneficiary value status s =
    (if token = native_id c then
       ensure (value \<le> nc_reserved (currency c) slashed (native s))
         (TokenError token_error.InsufficientBalance)
         (and_then (nc_repatriate (currency c) slashed beneficiary value status (native s))
           (\<lambda>n. Inr (s\<lparr>native := n\<rparr>)))
     else if slashed = beneficiary then
       (case status of
          StatusFree \<Rightarrow> unreserve c token slashed value s
        | StatusReserved \<Rightarrow> reserve c token slashed value s)
     else
       and_then (ok_or (token_balances s (token, slashed)) (TokenError BalanceZero)) (\<lambda>account.
       and_then (ok_or (checked_sub (acc_reserved account) value)
           (TokenError token_error.InsufficientBalance)) (\<lambda>rs.
       and_then (repatriate_into status value (get_token_balance (token, beneficiary) s)) (\<lambda>taker.
       Inr (deposit_token (TokenRepatriated token slashed beneficiary value)
         (s\<lparr>token_balances := (token_balances s)
             ((token, beneficiary) \<mapsto> taker,
              (token, slashed) := keep_alive (account\<lparr>acc_reserved := rs\<rparr>))\<rparr>))))))"

section \<open>The bridge lookups\<close>

definition try_get_asset_id_by_name ::
  "bytes \<Rightarrow> ('n, 'z) token_state_scheme \<Rightarrow> token_id option" where
  "try_get_asset_id_by_name name s = token_by_name s name"

definition try_get_token_id :: "token_id \<Rightarrow> ('n, 'z) token_state_scheme \<Rightarrow> bytes option" where
  "try_get_token_id asset s =
    (case tokens s asset of Some (NEP141 _ name _ _ _) \<Rightarrow> Some name | _ \<Rightarrow> None)"

definition try_get_asset_id ::
  "chain_id \<Rightarrow> bytes \<Rightarrow> ('n, 'z) token_state_scheme \<Rightarrow> token_id option" where
  "try_get_asset_id chain contract s = token_by_contract s (chain, contract)"

definition to_asset_balance ::
  "'n token_config \<Rightarrow> u128 \<Rightarrow> token_id \<Rightarrow> ('n, 'z) token_state_scheme \<Rightarrow> u128 result" where
  "to_asset_balance c amount token s =
    (if token = native_id c then Inr amount
     else
       and_then (ok_or (tokens s token) (TokenError token_error.TokenNotFound)) (\<lambda>info.
       Inr (case xtoken_decimals info of
              Some d \<Rightarrow> transform_decimals_to_standard amount d
            | None \<Rightarrow> amount)))"

fun chain_id_of :: "'n token_config \<Rightarrow> xtoken \<Rightarrow> chain_id" where
  "chain_id_of c (NEP141 _ _ _ _ _) = near_chain_id c"
| "chain_id_of c (ERC20 _ _ _ _ _) = eth_chain_id c"
| "chain_id_of c (POLYGON _ _ _ _ _) = polygon_chain_id c"
| "chain_id_of c (BEP20 _ _ _ _ _) = bnb_chain_id c"
| "chain_id_of c (FND10 _ _) = native_chain_id c"

section \<open>Dispatchables\<close>

definition issue ::
  "'n token_config \<Rightarrow> origin \<Rightarrow> xtoken \<Rightarrow> ('n, 'z) token_state_scheme
    \<Rightarrow> ('n, 'z) token_state_scheme result" where
  "issue c o' token_info s =
    and_then (ensure_signed o') (\<lambda>who.
    and_then (nc_burn_from (currency c) who (burn_tao_when_issue c) (native s)) (\<lambda>n.
    and_then (create c token_info (s\<lparr>native := n\<rparr>)) (\<lambda>(id, s).
    Inr (deposit_token (TokenIssued id (xtoken_symbol token_info)) s))))"

fun mark_info :: "xtoken \<Rightarrow> xtoken option" where
  "mark_info (NEP141 sy ct tot _ d) = Some (NEP141 sy ct tot True d)"
| "mark_info (ERC20 sy ct tot _ d) = Some (ERC20 sy ct tot True d)"
| "mark_info (POLYGON sy ct tot _ d) = Some (POLYGON sy ct tot True d)"
| "mark_info (BEP20 sy ct tot _ d) = Some (BEP20 sy ct tot True d)"
| "mark_info (FND10 _ _) = None"

definition mark_stable ::
  "'n token_config \<Rightarrow> origin \<Rightarrow> token_id \<Rightarrow> ('n, 'z) token_state_scheme
    \<Rightarrow> ('n, 'z) token_state_scheme result" where
  "mark_stable c o' token s =
    ensure (token_admin_origin c o') BadOrigin (
    and_then (ok_or (tokens s token) (TokenError token_error.TokenNotFound)) (\<lambda>info.
    and_then (ok_or (mark_info info) (TokenError token_error.TokenNotFound)) (\<lambda>info'.
    Inr (s\<lparr>tokens := (tokens s)(token \<mapsto> info')\<rparr>))))"

definition transfer ::
  "'n token_config \<Rightarrow> origin \<Rightarrow> token_id \<Rightarrow> nat \<Rightarrow> u128 \<Rightarrow> ('n, 'z) token_state_scheme
    \<Rightarrow> ('n, 'z) token_state_scheme result" where
  "transfer c o' token target amount s =
    and_then (ensure_signed o') (\<lambda>who.
    ensure (amount \<noteq> 0) (TokenError BalanceZero) (
    and_then (token_lookup c target) (\<lambda>target'.
    transfer_token c who token amount target' s)))"

definition associate_token ::
  "'n token_config \<Rightarrow> origin \<Rightarrow> chain_id \<Rightarrow> bytes \<Rightarrow> token_id \<Rightarrow> ('n, 'z) token_state_scheme
    \<Rightarrow> ('n, 'z) token_state_scheme result" where
  "associate_token c o' chain contract token s =
    ensure (token_admin_origin c o') BadOrigin (
    Inr (s\<lparr>token_by_contract := (token_by_contract s)((chain, contract) \<mapsto> token)\<rparr>))"

end
