(* ===== verification/Reward.thy ===== *)
theory Reward
  imports Token
begin

text \<open>
  \<open>pallets/reward/src/lib.rs\<close>: trading and liquidity rewards. An account's \<open>reward\<close> holds what
  it has confirmed and the volume pending in the era \<open>last_modify\<close>; rotating it into another
  era turns the pending volume into a share of that era's rewards. The legacy pair
  \<open>Rewards\<close>/\<open>Volumes\<close> and the current pair \<open>MarketingRewards\<close>/\<open>TakenLiquidity\<close> run the same
  rotation. The reward is minted in the native token, so the state extends the token ledger.

  Storage with a default (\<open>ValueQuery\<close>) that is never tested for presence is a total function.
\<close>

section \<open>State and configuration\<close>

type_synonym symbol = "token_id \<times> token_id"

record reward =
  confirmed :: u128
  pending_vol :: u128
  last_modify :: block_number

record liquidity_provider =
  lp_volume :: u128
  start_from :: block_number

datatype reward_event =
    RewardClaimed account u128
  | EraRewardsUpdated u128

record 'n reward_state = "'n token_state" +
  liquidity_pool :: "account \<times> symbol \<Rightarrow> liquidity_provider option"
  era_rewards :: u128
  legacy_rewards :: "account \<Rightarrow> reward option"
  volumes :: "block_number \<Rightarrow> u128"
  taken_liquidity :: "block_number \<Rightarrow> u128"
  marketing_rewards :: "account \<Rightarrow> reward option"
  trading_volumes :: "block_number \<Rightarrow> u128"
  reward_events :: "reward_event list"

record 'n reward_config =
  reward_asset :: "'n token_config"
  era_duration :: block_number
  time_coefficient_zoom :: u32
  reward_terminate_at :: block_number
  treasury_origin :: "origin \<Rightarrow> bool"
  reward_arithmetic :: sp_arithmetic

definition no_reward :: reward where
  "no_reward = \<lparr>confirmed = 0, pending_vol = 0, last_modify = 0\<rparr>"

definition deposit_reward :: "reward_event \<Rightarrow> ('n, 'z) reward_state_scheme \<Rightarrow> ('n, 'z) reward_state_scheme" where
  "deposit_reward e s = s\<lparr>reward_events := reward_events s @ [e]\<rparr>"

text \<open>The first block of the era of \<open>at\<close>.\<close>

definition era_begin :: "'n reward_config \<Rightarrow> block_number \<Rightarrow> block_number result" where
  "era_begin c at = and_then (word_rem at (era_duration c)) (\<lambda>r. Inr (at - r))"

section \<open>Rotation\<close>

text \<open>
  The closure body of \<open>rotate_legacy_reward\<close> and of \<open>rotate_reward\<close>, which differ only in the
  storage items: \<open>totals\<close> is the era total the pending volume is measured against.
\<close>

definition rotated ::
  "'n reward_config \<Rightarrow> (block_number \<Rightarrow> u128) \<Rightarrow> u128 \<Rightarrow> block_number \<Rightarrow> block_number \<Rightarrow> u128
    \<Rightarrow> reward \<Rightarrow> reward result" where
  "rotated c totals per_era now at vol r =
    (if at = last_modify r then
       and_then (ok_or (checked_add (pending_vol r) vol) (RewardError reward_error.Overflow))
         (\<lambda>p. Inr (r\<lparr>pending_vol := p\<rparr>))
     else if pending_vol r = 0 then Inr (r\<lparr>pending_vol := vol, last_modify := at\<rparr>)
     else
       let total_vol = totals (last_modify r) in
       ensure (0 < total_vol) (RewardError DivideByZero) (
       let p = perquintill_from_rational (reward_arithmetic c) (pending_vol r) total_vol;
           era_reward = (if now > reward_terminate_at c then 0 else per_era);
           a = perquintill_mul (reward_arithmetic c) p era_reward in
       and_then (ok_or (checked_add (confirmed r) a) (RewardError reward_error.Overflow))
         (\<lambda>conf. Inr (r\<lparr>confirmed := conf, pending_vol := vol, last_modify := at\<rparr>))))"

definition rotate_legacy_reward ::
  "'n reward_config \<Rightarrow> block_number \<Rightarrow> u128 \<Rightarrow> account \<Rightarrow> ('n, 'z) reward_state_scheme
    \<Rightarrow> (u128 \<times> ('n, 'z) reward_state_scheme) result" where
  "rotate_legacy_reward c at vol who s =
    and_then (rotated c (volumes s) (era_rewards s) (block_number s) at vol
        (value_or no_reward (legacy_rewards s who))) (\<lambda>r.
    Inr (confirmed r, s\<lparr>legacy_rewards := (legacy_rewards s)(who \<mapsto> r)\<rparr>))"

definition rotate_reward ::
  "'n reward_config \<Rightarrow> block_number \<Rightarrow> u128 \<Rightarrow> account \<Rightarrow> ('n, 'z) reward_state_scheme
    \<Rightarrow> (u128 \<times> ('n, 'z) reward_state_scheme) result" where
  "rotate_reward c begin_of_era contribution who s =
    and_then (rotated c (taken_liquidity s) (era_rewards s) (block_number s) begin_of_era contribution
        (value_or no_reward (marketing_rewards s who))) (\<lambda>r.
    Inr (confirmed r, s\<lparr>marketing_rewards := (marketing_rewards s)(who \<mapsto> r)\<rparr>))"

section \<open>Claims\<close>

text \<open>
  The nested closures of the claims: the issuance grows with a check, then the free balance
  with the wrapping \<open>+=\<close>. The source runs the issuance update inside the account closure;
  the two write different storage, so their order does not show.
\<close>

definition mint_native ::
  "'n reward_config \<Rightarrow> account \<Rightarrow> u128 \<Rightarrow> ('n, 'z) reward_state_scheme
    \<Rightarrow> ('n, 'z) reward_state_scheme result" where
  "mint_native c who amount s =
    (let tc = reward_asset c in
     and_then (try_mutate_issuance tc (native_id tc)
         (\<lambda>v. ok_or (checked_add v amount) (RewardError reward_error.Overflow)) s) (\<lambda>s.
     try_mutate_account tc (native_id tc) who (\<lambda>(fr, rs). Inr (fr + amount, rs)) s))"

definition claim_legacy_reward ::
  "'n reward_config \<Rightarrow> account \<Rightarrow> block_number \<Rightarrow> ('n, 'z) reward_state_scheme
    \<Rightarrow> (u128 \<times> ('n, 'z) reward_state_scheme) result" where
  "claim_legacy_reward c who at s =
    and_then (era_begin c at) (\<lambda>at.
    and_then (rotate_legacy_reward c at 0 who s) (\<lambda>(conf, s).
    if conf = 0 then Inr (0, s)
    else
      and_then (ok_or (legacy_rewards s who) (RewardError RewardNotFound)) (\<lambda>r.
      let conf = confirmed r;
          r = r\<lparr>confirmed := 0\<rparr> in
      and_then (if 0 < conf then mint_native c who conf s else Inr s) (\<lambda>s.
      Inr (conf, s\<lparr>legacy_rewards := (legacy_rewards s)
                    (who := if 0 < pending_vol r then Some r else None)\<rparr>)))))"

definition claim_reward ::
  "'n reward_config \<Rightarrow> account \<Rightarrow> block_number \<Rightarrow> ('n, 'z) reward_state_scheme
    \<Rightarrow> (u128 \<times> ('n, 'z) reward_state_scheme) result" where
  "claim_reward c who at s =
    and_then (era_begin c at) (\<lambda>at.
    and_then (rotate_reward c at 0 who s) (\<lambda>(conf, s).
    if conf = 0 then Inr (0, s)
    else
      and_then (ok_or (marketing_rewards s who) (RewardError RewardNotFound)) (\<lambda>r.
      let conf = confirmed r;
          r = r\<lparr>confirmed := 0\<rparr> in
      and_then (if 0 < conf then mint_native c who conf s else Inr s) (\<lambda>s.
      Inr (conf, s\<lparr>marketing_rewards := (marketing_rewards s)
                    (who := if 0 < pending_vol r then Some r else None)\<rparr>)))))"

section \<open>Dispatchables\<close>

definition take_reward ::
  "'n reward_config \<Rightarrow> origin \<Rightarrow> ('n, 'z) reward_state_scheme \<Rightarrow> ('n, 'z) reward_state_scheme result" where
  "take_reward c o' s =
    and_then (ensure_signed o') (\<lambda>who.
    let at = block_number s in
    and_then (claim_legacy_reward c who at s) (\<lambda>(legacy_reward, s).
    and_then (claim_reward c who at s) (\<lambda>(rew, s).
    and_then (ok_or (checked_add rew legacy_reward) (RewardError reward_error.Overflow)) (\<lambda>rew.
    Inr (deposit_reward (RewardClaimed who rew) s)))))"

definition set_era_rewards ::
  "'n reward_config \<Rightarrow> origin \<Rightarrow> u128 \<Rightarrow> ('n, 'z) reward_state_scheme
    \<Rightarrow> ('n, 'z) reward_state_scheme result" where
  "set_era_rewards c o' amount s =
    ensure (treasury_origin c o') BadOrigin (
    Inr (deposit_reward (EraRewardsUpdated amount) (s\<lparr>era_rewards := amount\<rparr>)))"

definition save_trading ::
  "'n reward_config \<Rightarrow> account \<Rightarrow> u128 \<Rightarrow> block_number \<Rightarrow> ('n, 'z) reward_state_scheme
    \<Rightarrow> ('n, 'z) reward_state_scheme result" where
  "save_trading c trader vol at s =
    (if vol = 0 then Inr s
     else
       and_then (era_begin c at) (\<lambda>at.
       and_then (ok_or (checked_add (volumes s at) vol) (RewardError reward_error.Overflow)) (\<lambda>v.
       and_then (rotate_legacy_reward c at vol trader (s\<lparr>volumes := (volumes s)(at := v)\<rparr>)) (\<lambda>(_, s).
       Inr s))))"

section \<open>The interface \<open>Rewarding\<close>\<close>

definition total_volume ::
  "'n reward_config \<Rightarrow> block_number \<Rightarrow> ('n, 'z) reward_state_scheme \<Rightarrow> u128 result" where
  "total_volume c at s = and_then (era_begin c at) (\<lambda>at. Inr (trading_volumes s at))"

definition acked_reward :: "account \<Rightarrow> ('n, 'z) reward_state_scheme \<Rightarrow> u128" where
  "acked_reward who s = confirmed (value_or no_reward (marketing_rewards s who))"

definition put_liquidity ::
  "account \<Rightarrow> symbol \<Rightarrow> u128 \<Rightarrow> block_number \<Rightarrow> ('n, 'z) reward_state_scheme
    \<Rightarrow> ('n, 'z) reward_state_scheme" where
  "put_liquidity maker pair vol at s =
    (if vol = 0 then s
     else s\<lparr>liquidity_pool := (liquidity_pool s)((maker, pair) \<mapsto> \<lparr>lp_volume = vol, start_from = at\<rparr>)\<rparr>)"

definition remove_liquidity ::
  "account \<Rightarrow> symbol \<Rightarrow> u128 \<Rightarrow> ('n, 'z) reward_state_scheme
    \<Rightarrow> (block_number \<times> ('n, 'z) reward_state_scheme) result" where
  "remove_liquidity maker pair vol s =
    (if vol = 0 then Inr (0, s)
     else
       and_then (ok_or (liquidity_pool s (maker, pair)) (RewardError LiquidityNotFound)) (\<lambda>l.
       and_then (ok_or (checked_sub (lp_volume l) vol) (RewardError InsufficientLiquidity)) (\<lambda>v.
       Inr (start_from l, s\<lparr>liquidity_pool := (liquidity_pool s)((maker, pair) :=
              if 0 < v then Some (l\<lparr>lp_volume := v\<rparr>) else None)\<rparr>))))"

definition time_coefficient ::
  "'n reward_config \<Rightarrow> block_number \<Rightarrow> block_number \<Rightarrow> u128 result" where
  "time_coefficient c current from_block =
    (let duration = ucast (current - from_block) :: u128 in
     and_then (word_div (min duration (ucast (era_duration c))) (ucast (time_coefficient_zoom c)))
       (\<lambda>q. Inr (max q 1)))"

definition consume_liquidity ::
  "'n reward_config \<Rightarrow> account \<Rightarrow> symbol \<Rightarrow> u128 \<Rightarrow> block_number \<Rightarrow> ('n, 'z) reward_state_scheme
    \<Rightarrow> ('n, 'z) reward_state_scheme result" where
  "consume_liquidity c maker pair vol current s =
    (case remove_liquidity maker pair vol s of
       Inl _ \<Rightarrow> Inr s
     | Inr (from_block, s) \<Rightarrow>
         and_then (era_begin c current) (\<lambda>begin_of_era.
         and_then (time_coefficient c current from_block) (\<lambda>coefficient.
         let contribution = coefficient * vol in
         and_then (ok_or (checked_add (taken_liquidity s begin_of_era) contribution)
             (RewardError reward_error.Overflow)) (\<lambda>taken.
         and_then (ok_or (checked_add (trading_volumes s begin_of_era) vol)
             (RewardError reward_error.Overflow)) (\<lambda>traded.
         and_then (rotate_reward c begin_of_era contribution maker
             (s\<lparr>taken_liquidity := (taken_liquidity s)(begin_of_era := taken),
                trading_volumes := (trading_volumes s)(begin_of_era := traded)\<rparr>)) (\<lambda>(_, s).
         Inr s))))))"

end
