(* ===== verification/Transition_Systems.thy ===== *)
theory Transition_Systems
  imports Main
begin

text \<open>
  Reachable states of a component and the rule by which an invariant is proved for all of
  them. A component gives its initial states and its step relation, one rule per
  dispatchable; the locale states what makes a predicate an invariant and concludes it for
  every reachable state and every run.
\<close>

inductive reachable :: "('s \<Rightarrow> bool) \<Rightarrow> ('s \<Rightarrow> 's \<Rightarrow> bool) \<Rightarrow> 's \<Rightarrow> bool"
  for init :: "'s \<Rightarrow> bool" and step :: "'s \<Rightarrow> 's \<Rightarrow> bool"
  where
    reachable_init: "init s \<Longrightarrow> reachable init step s"
  | reachable_step: "reachable init step s \<Longrightarrow> step s t \<Longrightarrow> reachable init step t"

fun run_of :: "('s \<Rightarrow> 's \<Rightarrow> bool) \<Rightarrow> 's \<Rightarrow> 's list \<Rightarrow> bool" where
  "run_of step s [] \<longleftrightarrow> True"
| "run_of step s (t # ts) \<longleftrightarrow> step s t \<and> run_of step t ts"

lemma reachable_run:
  "reachable init step s \<Longrightarrow> run_of step s ts \<Longrightarrow> t \<in> set ts \<Longrightarrow> reachable init step t"
  by (induction ts arbitrary: s) (auto intro: reachable_step)

locale invariant_system =
  fixes init :: "'s \<Rightarrow> bool" and step :: "'s \<Rightarrow> 's \<Rightarrow> bool" and inv :: "'s \<Rightarrow> bool"
  assumes inv_init: "init s \<Longrightarrow> inv s"
    and inv_step: "inv s \<Longrightarrow> step s t \<Longrightarrow> inv t"
begin

lemma inv_reachable: "reachable init step s \<Longrightarrow> inv s"
  by (induction rule: reachable.induct) (auto intro: inv_init inv_step)

lemma inv_run: "inv s \<Longrightarrow> run_of step s ts \<Longrightarrow> t \<in> set ts \<Longrightarrow> inv t"
  by (induction ts arbitrary: s) (auto intro: inv_step)

end

text \<open>
  A system simulates another when, under an invariant of its own, each of its steps is a run of the other
  seen through \<open>abs\<close>; then its reachable states are seen as reachable ones.
\<close>

locale simulation = invariant_system init step inv
  for init :: "'s \<Rightarrow> bool" and step :: "'s \<Rightarrow> 's \<Rightarrow> bool" and inv :: "'s \<Rightarrow> bool" +
  fixes ainit :: "'a \<Rightarrow> bool" and astep :: "'a \<Rightarrow> 'a \<Rightarrow> bool" and abs :: "'s \<Rightarrow> 'a"
  assumes abs_init: "init s \<Longrightarrow> ainit (abs s)"
    and abs_step: "inv s \<Longrightarrow> step s t \<Longrightarrow> astep\<^sup>*\<^sup>* (abs s) (abs t)"
begin

lemma abs_reachable: "reachable init step s \<Longrightarrow> reachable ainit astep (abs s)"
proof (induction rule: reachable.induct)
  case (reachable_step s t)
  have "astep\<^sup>*\<^sup>* (abs s) (abs t)" using reachable_step by (blast intro: abs_step inv_reachable)
  then show ?case using reachable_step.IH by (induction rule: rtranclp_induct) (auto intro: reachable.reachable_step)
qed (auto intro: reachable_init abs_init)

end

end
