(* ===== verification/Token_Laws.thy ===== *)
theory Token_Laws
  imports Token Transition_Systems
begin

text \<open>
  What the ledger of \<open>Token\<close> promises.

  The first section reduces every operation to one fact, how a write to one account moves
  the holdings of a token (\<open>holdings_upd\<close>). The second states the ledger invariant
  \<open>token_ok\<close>: for every token the balances of all accounts, free and reserved, add up to the
  total in the token's descriptor; it is preserved by every operation and so holds in every
  reachable state. The bound of the token counter is part of the step relation: ids are 32
  bits wide and \<open>create\<close> reuses old ids once the counter has wrapped. The third section
  gives the exact effect of the single operations, on the invariant where it excludes an
  error branch.
\<close>

section \<open>Holdings of a token\<close>

definition acc_sum :: "token_account \<Rightarrow> nat" where
  "acc_sum a = unat (acc_free a) + unat (acc_reserved a)"

definition holdings :: "token_id \<Rightarrow> (token_id \<times> account \<Rightarrow> token_account option) \<Rightarrow> nat" where
  "holdings t m = dom_sum acc_sum (\<lambda>w. m (t, w))"

definition listed :: "token_id \<Rightarrow> ('n, 'z) token_state_scheme \<Rightarrow> nat" where
  "listed t s = opt_val (\<lambda>info. unat (xtoken_total info)) (tokens s t)"

fun is_fnd10 :: "xtoken \<Rightarrow> bool" where
  "is_fnd10 (FND10 _ _) = True"
| "is_fnd10 _ = False"

lemma acc_sum_no_account [simp]: "acc_sum no_account = 0"
  by (simp add: acc_sum_def no_account_def)

lemma opt_val_keep_alive [simp]: "opt_val acc_sum (keep_alive a) = acc_sum a"
  by (simp add: keep_alive_def acc_sum_def)

lemma opt_val_balance: "opt_val acc_sum (token_balances s k) = acc_sum (get_token_balance k s)"
  by (simp add: get_token_balance_def opt_val_def value_or_def split: option.split)

lemma holdings_upd:
  assumes "finite (dom m)"
  shows "holdings t (m((u, w) := x)) + (if u = t then opt_val acc_sum (m (u, w)) else 0)
    = holdings t m + (if u = t then opt_val acc_sum x else 0)"
proof (cases "u = t")
  case True
  have "finite (dom (\<lambda>w. m (t, w)))" using assms by (rule finite_dom_curry)
  then show ?thesis
    using True dom_sum_upd [of "\<lambda>w. m (t, w)" acc_sum w x]
    by (simp add: holdings_def dom_sum_curry_same del: fun_upd_apply)
next
  case False
  then show ?thesis by (simp add: holdings_def dom_sum_curry_other)
qed

lemma holdings_ge:
  "finite (dom m) \<Longrightarrow> m (t, w) = Some a \<Longrightarrow> acc_sum a \<le> holdings t m"
  unfolding holdings_def by (rule dom_sum_ge [of "\<lambda>w. m (t, w)"]) (auto intro: finite_dom_curry)

lemma holdings_ge2:
  assumes "finite (dom m)" and "m (t, v) = Some a" and "m (t, w) = Some b" and "v \<noteq> w"
  shows "acc_sum a + acc_sum b \<le> holdings t m"
  unfolding holdings_def
  by (rule dom_sum_ge2 [where m = "\<lambda>w. m (t, w)" and j = v and k = w, OF finite_dom_curry])
    (use assms in simp_all)

lemma deposit_token_simps [simp]:
  "token_balances (deposit_token e s) = token_balances s"
  "tokens (deposit_token e s) = tokens s"
  "next_token_id (deposit_token e s) = next_token_id s"
  "token_by_name (deposit_token e s) = token_by_name s"
  "token_by_contract (deposit_token e s) = token_by_contract s"
  "native (deposit_token e s) = native s"
  "token_events (deposit_token e s) = token_events s @ [e]"
  by (simp_all add: deposit_token_def)

section \<open>The ledger invariant\<close>

text \<open>
  The books of the ledger: the balances of a token and what closures of \<open>try_mutate_account\<close> have removed of it
  add up to its total and what they have added. \<open>token_ok\<close> is the case that they have done neither.
\<close>

definition token_books :: "(token_id \<Rightarrow> nat) \<Rightarrow> (token_id \<Rightarrow> nat) \<Rightarrow> ('n, 'z) token_state_scheme \<Rightarrow> bool" where
  "token_books ad rm s \<longleftrightarrow> finite (dom (token_balances s))
    \<and> (\<forall>t. holdings t (token_balances s) + rm t = listed t s + ad t)
    \<and> (\<forall>t info. tokens s t = Some info \<longrightarrow> t < next_token_id s)
    \<and> (\<forall>t info. tokens s t = Some info \<and> is_fnd10 info \<longrightarrow> xtoken_total info = 0)"

abbreviation token_ok :: "('n, 'z) token_state_scheme \<Rightarrow> bool" where
  "token_ok \<equiv> token_books (\<lambda>_. 0) (\<lambda>_. 0)"

lemma token_booksD:
  assumes "token_books ad rm s"
  shows "finite (dom (token_balances s))"
    and "holdings t (token_balances s) + rm t = listed t s + ad t"
    and "tokens s t = Some info \<Longrightarrow> t < next_token_id s"
    and "tokens s t = Some info \<Longrightarrow> is_fnd10 info \<Longrightarrow> xtoken_total info = 0"
  using assms by (auto simp: token_books_def)

lemma token_okD:
  assumes "token_ok s"
  shows "finite (dom (token_balances s))"
    and "holdings t (token_balances s) = listed t s"
    and "tokens s t = Some info \<Longrightarrow> t < next_token_id s"
    and "tokens s t = Some info \<Longrightarrow> is_fnd10 info \<Longrightarrow> xtoken_total info = 0"
  using token_booksD [OF assms] by auto

lemma listed_bound: "listed t s < 2 ^ 128"
  using unsigned_less [of "xtoken_total (the (tokens s t))"]
  by (cases "tokens s t") (simp_all add: listed_def)

text \<open>On the invariant no sum of balances of one token reaches \<open>2 ^ 128\<close>.\<close>

lemma token_ok_bound1:
  assumes "token_ok s"
  shows "acc_sum (get_token_balance (t, w) s) < 2 ^ 128"
proof (cases "token_balances s (t, w)")
  case None
  then show ?thesis by (simp add: get_token_balance_def)
next
  case (Some a)
  have "acc_sum a \<le> holdings t (token_balances s)"
    using token_okD(1) [OF assms] Some by (rule holdings_ge)
  also have "\<dots> < 2 ^ 128" by (simp only: token_okD(2) [OF assms] listed_bound)
  finally show ?thesis using Some by (simp add: get_token_balance_def)
qed

lemma token_ok_bound2:
  assumes "token_ok s" and "v \<noteq> w"
  shows "acc_sum (get_token_balance (t, v) s) + acc_sum (get_token_balance (t, w) s) < 2 ^ 128"
proof (cases "token_balances s (t, v) = None \<or> token_balances s (t, w) = None")
  case True
  then show ?thesis
    using token_ok_bound1 [OF assms(1)] by (auto simp: get_token_balance_def)
next
  case False
  then obtain a b where ab: "token_balances s (t, v) = Some a" "token_balances s (t, w) = Some b"
    by auto
  have "acc_sum a + acc_sum b \<le> holdings t (token_balances s)"
    using token_okD(1) [OF assms(1)] ab assms(2) by (rule holdings_ge2)
  also have "\<dots> < 2 ^ 128" by (simp only: token_okD(2) [OF assms(1)] listed_bound)
  finally show ?thesis using ab by (simp add: get_token_balance_def)
qed

text \<open>An operation that moves the balances and no descriptor keeps the invariant when it
  keeps the holdings of every token.\<close>

lemma token_ok_balances:
  assumes "token_books ad rm s" and "finite (dom (token_balances s'))"
    and "\<And>t. holdings t (token_balances s') = holdings t (token_balances s)"
    and "tokens s' = tokens s" and "next_token_id s' = next_token_id s"
  shows "token_books ad rm s'"
  using assms by (auto simp: token_books_def listed_def)

lemma token_ok_other [simp]:
  "token_books ad rm (deposit_token e s) = token_books ad rm s"
  "token_books ad rm (s\<lparr>native := n\<rparr>) = token_books ad rm s"
  "token_books ad rm (s\<lparr>token_by_name := m\<rparr>) = token_books ad rm s"
  "token_books ad rm (s\<lparr>token_by_contract := m'\<rparr>) = token_books ad rm s"
  by (simp_all add: token_books_def listed_def)

text \<open>Minting and burning move the total and one account by the same amount.\<close>

lemma mint_total_Inr:
  "mint_total amount info = Inr (info', u) \<Longrightarrow>
    is_fnd10 info' = is_fnd10 info \<and>
    (if is_fnd10 info then info' = info \<and> u = xtoken_total info
     else unat (xtoken_total info') = unat (xtoken_total info) + unat u)"
  by (cases info) (auto simp: result_simps Let_def)

lemma burn_total_Inr:
  "burn_total amount info = Inr (info', u) \<Longrightarrow>
    is_fnd10 info' = is_fnd10 info \<and>
    (if is_fnd10 info then info' = info \<and> u = xtoken_total info
     else unat (xtoken_total info) = unat (xtoken_total info') + unat u)"
  by (cases info) (auto simp: result_simps Let_def)

lemma token_ok_write_both:
  assumes ok: "token_books ad rm s" and info: "tokens s t = Some info"
    and fnd: "is_fnd10 info' = is_fnd10 info" "is_fnd10 info' \<Longrightarrow> xtoken_total info' = 0"
    and bal: "unat (xtoken_total info') + acc_sum (get_token_balance (t, w) s)
      = unat (xtoken_total info) + opt_val acc_sum x"
  shows "token_books ad rm (s\<lparr>token_balances := (token_balances s)((t, w) := x), tokens := (tokens s)(t \<mapsto> info')\<rparr>)"
proof -
  note fin = token_booksD(1) [OF ok]
  have "holdings u ((token_balances s)((t, w) := x)) + rm u
      = opt_val (\<lambda>i. unat (xtoken_total i)) (((tokens s)(t \<mapsto> info')) u) + ad u" for u
    using holdings_upd [OF fin, of u t w x] token_booksD(2) [OF ok, of u] bal info
    by (auto simp: listed_def opt_val_balance split: if_splits)
  then show ?thesis
    using ok fnd info unfolding token_books_def by (auto simp: listed_def)
qed

lemma do_mint_ok:
  assumes ok: "token_books ad rm s" and run: "do_mint t w amount s = Inr s'"
  shows "token_books ad rm s'"
proof (cases "amount = 0")
  case True
  with assms show ?thesis by (simp add: do_mint_def)
next
  case False
  obtain info info' u fr where info: "tokens s t = Some info"
    and mint: "mint_total amount info = Inr (info', u)" and u: "u \<noteq> 0"
    and fr: "unat fr = unat (acc_free (get_token_balance (t, w) s)) + unat u"
    and s': "s' = deposit_token (TokenMinted t w u)
      (s\<lparr>token_balances := (token_balances s)((t, w) \<mapsto> (get_token_balance (t, w) s)\<lparr>acc_free := fr\<rparr>),
         tokens := (tokens s)(t \<mapsto> info')\<rparr>)"
    using run False by (auto simp: do_mint_def Let_def result_simps)
  have "\<not> is_fnd10 info"
    using mint_total_Inr [OF mint] u token_booksD(4) [OF ok info] by auto
  then show ?thesis
    unfolding s' token_ok_other using mint_total_Inr [OF mint] fr
    by (intro token_ok_write_both [OF ok info]) (auto simp: acc_sum_def)
qed

lemma do_burn_ok:
  assumes ok: "token_books ad rm s" and run: "do_burn t w amount s = Inr (v, s')"
  shows "token_books ad rm s'"
proof -
  obtain info info' u a fr where info: "tokens s t = Some info"
    and burn: "burn_total amount info = Inr (info', u)" and u: "u \<noteq> 0"
    and a: "token_balances s (t, w) = Some a"
    and fr: "unat (acc_free a) = unat u + unat fr"
    and s': "s' = deposit_token (TokenBurned t w u)
      (s\<lparr>token_balances := (token_balances s)((t, w) := keep_alive (a\<lparr>acc_free := fr\<rparr>)),
         tokens := (tokens s)(t \<mapsto> info')\<rparr>)"
    using run by (auto simp: do_burn_def Let_def result_simps)
  have "\<not> is_fnd10 info"
    using burn_total_Inr [OF burn] u token_booksD(4) [OF ok info] by auto
  then show ?thesis
    unfolding s' token_ok_other using burn_total_Inr [OF burn] fr a
    by (intro token_ok_write_both [OF ok info]) (auto simp: acc_sum_def get_token_balance_def)
qed

text \<open>Moving balance inside one account or between two accounts of a token.\<close>

lemma token_ok_write1:
  assumes ok: "token_books ad rm s" and bal: "opt_val acc_sum x = acc_sum (get_token_balance (t, w) s)"
  shows "token_books ad rm (s\<lparr>token_balances := (token_balances s)((t, w) := x)\<rparr>)"
proof (rule token_ok_balances [OF ok])
  fix u
  show "holdings u (token_balances (s\<lparr>token_balances := (token_balances s)((t, w) := x)\<rparr>))
      = holdings u (token_balances s)"
    using holdings_upd [OF token_booksD(1) [OF ok], of u t w x] bal
    by (simp add: opt_val_balance split: if_splits)
qed (simp_all add: token_booksD(1) [OF ok])

lemma token_ok_write2:
  assumes ok: "token_books ad rm s" and ne: "v \<noteq> w"
    and bal: "opt_val acc_sum x + opt_val acc_sum y
      = acc_sum (get_token_balance (t, v) s) + acc_sum (get_token_balance (t, w) s)"
  shows "token_books ad rm (s\<lparr>token_balances := (token_balances s)((t, v) := x, (t, w) := y)\<rparr>)"
proof (rule token_ok_balances [OF ok])
  note fin = token_booksD(1) [OF ok]
  have fin1: "finite (dom ((token_balances s)((t, v) := x)))" by (simp only: finite_dom_upd fin)
  fix u
  show "holdings u (token_balances (s\<lparr>token_balances := (token_balances s)((t, v) := x, (t, w) := y)\<rparr>))
      = holdings u (token_balances s)"
    using holdings_upd [OF fin, of u t v x]
      holdings_upd [OF fin1, of u t w y] bal ne
    by (cases "t = u") (simp_all add: opt_val_balance)
qed (simp_all add: token_booksD(1) [OF ok])

lemma transfer_token_ok:
  assumes ok: "token_books ad rm s" and run: "transfer_token c a t v b s = Inr s'"
  shows "token_books ad rm s'"
proof (cases "v = 0 \<or> a = b \<or> t = native_id c")
  case True
  with assms show ?thesis by (auto simp: transfer_token_def result_simps split: if_splits)
next
  case False
  obtain acc lf nf where acc: "token_balances s (t, a) = Some acc"
    and lf: "unat (acc_free acc) = unat v + unat lf"
    and nf: "unat nf = unat (acc_free (get_token_balance (t, b) s)) + unat v"
    and s': "s' = deposit_token (TokenTransfered t a b v)
      (s\<lparr>token_balances := (token_balances s)
          ((t, b) \<mapsto> (get_token_balance (t, b) s)\<lparr>acc_free := nf\<rparr>,
           (t, a) := keep_alive (acc\<lparr>acc_free := lf\<rparr>))\<rparr>)"
    using run False by (auto simp: transfer_token_def Let_def result_simps)
  show ?thesis
    unfolding s' token_ok_other using False lf nf acc
    by (intro token_ok_write2 [OF ok]) (auto simp: acc_sum_def get_token_balance_def)
qed

lemma try_mutate_account_ok:
  assumes ok: "token_books ad rm s" and run: "try_mutate_account c t w f s = Inr s'"
    and conserving: "\<And>x y. f x = Inr y \<Longrightarrow> unat (fst y) + unat (snd y) = unat (fst x) + unat (snd x)"
  shows "token_books ad rm s'"
proof (cases "t = native_id c")
  case True
  with assms show ?thesis by (auto simp: try_mutate_account_def result_simps)
next
  case False
  then obtain y where y: "f (acc_free (get_token_balance (t, w) s),
      acc_reserved (get_token_balance (t, w) s)) = Inr y"
    and s': "s' = s\<lparr>token_balances := (token_balances s)
        ((t, w) := keep_alive \<lparr>acc_free = fst y, acc_reserved = snd y\<rparr>)\<rparr>"
    using run by (auto simp: try_mutate_account_def Let_def result_simps split: prod.splits)
  show ?thesis
    unfolding s' using conserving [OF y] by (intro token_ok_write1 [OF ok]) (simp add: acc_sum_def)
qed

text \<open>What a closure that does not keep the sum adds and removes.\<close>

definition closure_adds :: "u128 \<times> u128 \<Rightarrow> u128 \<times> u128 \<Rightarrow> nat" where
  "closure_adds x y = (unat (fst y) + unat (snd y)) - (unat (fst x) + unat (snd x))"

lemma closure_adds_diff:
  "unat (fst y) + unat (snd y) + closure_adds y x = unat (fst x) + unat (snd x) + closure_adds x y"
  by (simp add: closure_adds_def)

lemma try_mutate_account_books:
  assumes ok: "token_books ad rm s" and run: "try_mutate_account c t w f s = Inr s'" and "t \<noteq> native_id c"
    and x: "x = (acc_free (get_token_balance (t, w) s), acc_reserved (get_token_balance (t, w) s))"
    and y: "f x = Inr y"
  shows "token_books (ad(t := ad t + closure_adds x y)) (rm(t := rm t + closure_adds y x)) s'"
proof -
  have s': "s' = s\<lparr>token_balances := (token_balances s)
      ((t, w) := keep_alive \<lparr>acc_free = fst y, acc_reserved = snd y\<rparr>)\<rparr>"
    using run assms(3) y by (auto simp: x try_mutate_account_def Let_def result_simps split: prod.splits)
  note fin = token_booksD(1) [OF ok]
  have "holdings u (token_balances s') + (rm(t := rm t + closure_adds y x)) u
      = listed u s' + (ad(t := ad t + closure_adds x y)) u" for u
    using holdings_upd [OF fin, of u t w "keep_alive \<lparr>acc_free = fst y, acc_reserved = snd y\<rparr>"]
      token_booksD(2) [OF ok, of u] closure_adds_diff [of y x]
    by (cases "u = t") (auto simp: s' x listed_def opt_val_balance acc_sum_def)
  then show ?thesis using ok by (auto simp: token_books_def s')
qed

lemma reserve_ok:
  assumes ok: "token_books ad rm s" and run: "reserve c t w v s = Inr s'"
  shows "token_books ad rm s'"
proof (cases "v = 0 \<or> t = native_id c")
  case True
  with assms show ?thesis by (auto simp: reserve_def result_simps split: if_splits)
next
  case False
  then obtain a fr rs where "token_balances s (t, w) = Some a"
    "unat (acc_free a) = unat v + unat fr" "unat rs = unat (acc_reserved a) + unat v"
    and s': "s' = deposit_token (TokenReserved t w v)
      (s\<lparr>token_balances := (token_balances s)((t, w) \<mapsto> \<lparr>acc_free = fr, acc_reserved = rs\<rparr>)\<rparr>)"
    using run by (auto simp: reserve_def result_simps)
  then show ?thesis
    unfolding s' token_ok_other
    by (intro token_ok_write1 [OF ok]) (simp add: acc_sum_def get_token_balance_def)
qed

lemma unreserve_ok:
  assumes ok: "token_books ad rm s" and run: "unreserve c t w v s = Inr s'"
  shows "token_books ad rm s'"
proof (cases "v = 0 \<or> t = native_id c")
  case True
  with assms show ?thesis by (auto simp: unreserve_def result_simps split: if_splits)
next
  case False
  then obtain a fr rs where "token_balances s (t, w) = Some a"
    "unat (acc_reserved a) = unat v + unat rs" "unat fr = unat (acc_free a) + unat v"
    and s': "s' = deposit_token (TokenUnreserved t w v)
      (s\<lparr>token_balances := (token_balances s)((t, w) \<mapsto> \<lparr>acc_free = fr, acc_reserved = rs\<rparr>)\<rparr>)"
    using run by (auto simp: unreserve_def result_simps)
  then show ?thesis
    unfolding s' token_ok_other
    by (intro token_ok_write1 [OF ok]) (simp add: acc_sum_def get_token_balance_def)
qed

lemma repatriate_into_Inr:
  "repatriate_into st v a = Inr b \<Longrightarrow> acc_sum b = acc_sum a + unat v"
  by (cases st) (auto simp: repatriate_into_def result_simps acc_sum_def)

lemma repatriate_reserved_ok:
  assumes ok: "token_books ad rm s" and run: "repatriate_reserved c t a b v st s = Inr s'"
  shows "token_books ad rm s'"
proof (cases "a = b \<or> t = native_id c")
  case True
  with run show ?thesis
    by (auto simp: repatriate_reserved_def result_simps ok split: if_splits balance_status.splits
        intro: reserve_ok [OF ok] unreserve_ok [OF ok])
next
  case False
  then obtain acc rs taker where acc: "token_balances s (t, a) = Some acc"
    and rs: "unat (acc_reserved acc) = unat v + unat rs"
    and taker: "repatriate_into st v (get_token_balance (t, b) s) = Inr taker"
    and s': "s' = deposit_token (TokenRepatriated t a b v)
      (s\<lparr>token_balances := (token_balances s)
          ((t, b) \<mapsto> taker, (t, a) := keep_alive (acc\<lparr>acc_reserved := rs\<rparr>))\<rparr>)"
    using run by (auto simp: repatriate_reserved_def result_simps)
  show ?thesis
    unfolding s' token_ok_other using repatriate_into_Inr [OF taker] False rs acc
    by (intro token_ok_write2 [OF ok]) (auto simp: acc_sum_def get_token_balance_def)
qed

section \<open>Descriptors and names\<close>

fun nep_name :: "xtoken \<Rightarrow> bytes option" where
  "nep_name (NEP141 _ contract _ _ _) = Some contract"
| "nep_name _ = None"

text \<open>The octopus bridge's name table lists exactly the NEP-141 descriptors.\<close>

definition names_ok :: "('n, 'z) token_state_scheme \<Rightarrow> bool" where
  "names_ok s \<longleftrightarrow> (\<forall>n t. token_by_name s n = Some t
    \<longleftrightarrow> (\<exists>info. tokens s t = Some info \<and> nep_name info = Some n))"

definition same_names :: "('n, 'z) token_state_scheme \<Rightarrow> ('n, 'z) token_state_scheme \<Rightarrow> bool" where
  "same_names s s' \<longleftrightarrow> token_by_name s' = token_by_name s \<and> next_token_id s' = next_token_id s
    \<and> (\<forall>t. map_option nep_name (tokens s' t) = map_option nep_name (tokens s t))"

lemma same_names_iff:
  assumes "same_names s s'"
  shows "(\<exists>info. tokens s' t = Some info \<and> nep_name info = Some n)
    \<longleftrightarrow> (\<exists>info. tokens s t = Some info \<and> nep_name info = Some n)"
proof -
  have "map_option nep_name (tokens s' t) = map_option nep_name (tokens s t)"
    using assms by (simp add: same_names_def)
  then show ?thesis by (cases "tokens s t"; cases "tokens s' t") auto
qed

lemma same_names_ok: "same_names s s' \<Longrightarrow> names_ok s \<Longrightarrow> names_ok s'"
  using same_names_iff [of s s'] by (simp add: names_ok_def same_names_def)

lemma nep_name_total:
  "mint_total v info = Inr (info', u) \<Longrightarrow> nep_name info' = nep_name info"
  "burn_total v info = Inr (info', u) \<Longrightarrow> nep_name info' = nep_name info"
  "mark_info info = Some info' \<Longrightarrow> nep_name info' = nep_name info"
  by (cases info; auto simp: result_simps Let_def)+

lemma same_names_ops:
  "do_mint t w v s = Inr s' \<Longrightarrow> same_names s s'"
  "do_burn t w v s = Inr (r, s') \<Longrightarrow> same_names s s'"
  "transfer_token c a t v b s = Inr s' \<Longrightarrow> same_names s s'"
  "try_mutate_account c t w f s = Inr s' \<Longrightarrow> same_names s s'"
  "reserve c t w v s = Inr s' \<Longrightarrow> same_names s s'"
  "unreserve c t w v s = Inr s' \<Longrightarrow> same_names s s'"
  by (auto simp: same_names_def do_mint_def do_burn_def transfer_token_def try_mutate_account_def
      reserve_def unreserve_def result_simps Let_def nep_name_total split: if_splits prod.splits)

lemma same_names_repatriate:
  "repatriate_reserved c t a b v st s = Inr s' \<Longrightarrow> same_names s s'"
  using same_names_ops(5,6) [of c t a v s s']
  by (auto simp: repatriate_reserved_def result_simps same_names_def
      split: if_splits balance_status.splits)

lemma create_info_Inr:
  "create_info c names info = Inr (info', name) \<Longrightarrow>
    xtoken_total info' = 0 \<and> \<not> xtoken_is_stable info' \<and> is_fnd10 info' = is_fnd10 info
    \<and> xtoken_symbol info' = xtoken_symbol info \<and> xtoken_contract info' = xtoken_contract info
    \<and> xtoken_decimals info' = xtoken_decimals info \<and> chain_id_of c info' = chain_id_of c info
    \<and> valid_name c (xtoken_symbol info) \<and> nep_name info' = name
    \<and> (\<forall>d. xtoken_decimals info = Some d \<longrightarrow> d \<le> MAX_DECIMALS)
    \<and> (\<forall>n. name = Some n \<longrightarrow> names n = None)"
  by (cases info) (auto simp: result_simps)

lemma create_Inr:
  assumes "create c info s = Inr (t, s')"
  obtains info' name where "create_info c (token_by_name s) info = Inr (info', name)"
    and "t = next_token_id s"
    and "s' = s\<lparr>token_by_name := (case name of None \<Rightarrow> token_by_name s
                              | Some n \<Rightarrow> (token_by_name s)(n \<mapsto> t)),
               next_token_id := t + 1, tokens := (tokens s)(t \<mapsto> info')\<rparr>"
  using assms by (auto simp: create_def Let_def result_simps split: option.splits)

lemma next_id_fresh: "token_books ad rm s \<Longrightarrow> tokens s (next_token_id s) = None"
  using token_booksD(3) [of ad rm s "next_token_id s"] by (cases "tokens s (next_token_id s)") auto

lemma create_ok:
  assumes ok: "token_books ad rm s" and bound: "next_token_id s \<noteq> - 1" and run: "create c info s = Inr (t, s')"
  shows "token_books ad rm s'"
proof -
  obtain info' name where ci: "create_info c (token_by_name s) info = Inr (info', name)"
    and t: "t = next_token_id s"
    and s': "s' = s\<lparr>token_by_name := (case name of None \<Rightarrow> token_by_name s
                              | Some n \<Rightarrow> (token_by_name s)(n \<mapsto> t)),
               next_token_id := t + 1, tokens := (tokens s)(t \<mapsto> info')\<rparr>"
    using run by (rule create_Inr)
  have fresh: "tokens s t = None" unfolding t using ok by (rule next_id_fresh)
  have up: "t < t + 1" using bound by (simp add: t not_le [symmetric] inc_less_eq_self_iff_eq)
  have up': "u < t + 1" if "u < t" for u using that up by (rule order.strict_trans)
  have "listed u s' = listed u s" for u
    using create_info_Inr [OF ci] fresh by (simp add: s' listed_def)
  then show ?thesis
    using ok up up' create_info_Inr [OF ci] unfolding token_books_def by (auto simp: s' t)
qed

lemma create_names:
  assumes ok: "token_books ad rm s" and names: "names_ok s" and run: "create c info s = Inr (t, s')"
  shows "names_ok s'"
proof -
  obtain info' name where ci: "create_info c (token_by_name s) info = Inr (info', name)"
    and t: "t = next_token_id s"
    and s': "s' = s\<lparr>token_by_name := (case name of None \<Rightarrow> token_by_name s
                              | Some n \<Rightarrow> (token_by_name s)(n \<mapsto> t)),
               next_token_id := t + 1, tokens := (tokens s)(t \<mapsto> info')\<rparr>"
    using run by (rule create_Inr)
  have fresh: "tokens s t = None" unfolding t using ok by (rule next_id_fresh)
  have nm: "nep_name info' = name" "\<And>n. name = Some n \<Longrightarrow> token_by_name s n = None"
    using create_info_Inr [OF ci] by auto
  show ?thesis
    unfolding names_ok_def
  proof (intro allI)
    fix n u
    have old: "token_by_name s n = Some u
        \<longleftrightarrow> (\<exists>info. tokens s u = Some info \<and> nep_name info = Some n)" for u
      using names by (simp add: names_ok_def)
    show "token_by_name s' n = Some u
        \<longleftrightarrow> (\<exists>info. tokens s' u = Some info \<and> nep_name info = Some n)"
      using old [of u] old [of t] nm fresh by (auto simp: s' split: option.splits)
  qed
qed

section \<open>Reachable ledgers\<close>

definition token_genesis :: "('n, 'z) token_state_scheme \<Rightarrow> bool" where
  "token_genesis s \<longleftrightarrow> token_balances s = (\<lambda>_. None) \<and> tokens s = (\<lambda>_. None)
    \<and> next_token_id s = 1 \<and> token_by_name s = (\<lambda>_. None)"

text \<open>
  One step is a dispatchable, a call of the pallet's interfaces by another pallet, or a change
  of the native currency by its own pallet. Of the mutations of an account only those that keep its sum
  are such steps; \<open>token_run\<close> below has them all.
\<close>

inductive token_step ::
  "'n token_config \<Rightarrow> ('n, 'z) token_state_scheme \<Rightarrow> ('n, 'z) token_state_scheme \<Rightarrow> bool"
  for c :: "'n token_config"
  where
    step_issue: "next_token_id s \<noteq> - 1 \<Longrightarrow> issue c o' info s = Inr s' \<Longrightarrow> token_step c s s'"
  | step_mark_stable: "mark_stable c o' t s = Inr s' \<Longrightarrow> token_step c s s'"
  | step_transfer: "transfer c o' t dest v s = Inr s' \<Longrightarrow> token_step c s s'"
  | step_associate: "associate_token c o' ch ct t s = Inr s' \<Longrightarrow> token_step c s s'"
  | step_create: "next_token_id s \<noteq> - 1 \<Longrightarrow> create c info s = Inr (t, s') \<Longrightarrow> token_step c s s'"
  | step_mint: "mint_into t w v s = Inr s' \<Longrightarrow> token_step c s s'"
  | step_burn: "burn_from t w v s = Inr (r, s') \<Longrightarrow> token_step c s s'"
  | step_slash: "slash t w v s = Inr (r, s') \<Longrightarrow> token_step c s s'"
  | step_transfer_token: "transfer_token c a t v b s = Inr s' \<Longrightarrow> token_step c s s'"
  | step_mutate: "try_mutate_account c t w f s = Inr s'
      \<Longrightarrow> (\<And>x y. f x = Inr y \<Longrightarrow> unat (fst y) + unat (snd y) = unat (fst x) + unat (snd x))
      \<Longrightarrow> token_step c s s'"
  | step_issuance: "try_mutate_issuance c t g s = Inr s' \<Longrightarrow> token_step c s s'"
  | step_reserve: "reserve c t w v s = Inr s' \<Longrightarrow> token_step c s s'"
  | step_unreserve: "unreserve c t w v s = Inr s' \<Longrightarrow> token_step c s s'"
  | step_repatriate: "repatriate_reserved c t a b v st s = Inr s' \<Longrightarrow> token_step c s s'"
  | step_native: "token_step c s (s\<lparr>native := n\<rparr>)"

definition token_inv_with ::
  "(token_id \<Rightarrow> nat) \<Rightarrow> (token_id \<Rightarrow> nat) \<Rightarrow> ('n, 'z) token_state_scheme \<Rightarrow> bool" where
  "token_inv_with ad rm s \<longleftrightarrow> token_books ad rm s \<and> names_ok s"

abbreviation token_inv :: "('n, 'z) token_state_scheme \<Rightarrow> bool" where
  "token_inv \<equiv> token_inv_with (\<lambda>_. 0) (\<lambda>_. 0)"

lemma names_ok_other [simp]:
  "names_ok (deposit_token e s) = names_ok s"
  "names_ok (s\<lparr>native := n\<rparr>) = names_ok s"
  "names_ok (s\<lparr>token_by_contract := m\<rparr>) = names_ok s"
  by (simp_all add: names_ok_def)

lemma issue_inv:
  assumes "token_inv_with ad rm s" and "next_token_id s \<noteq> - 1" and "issue c o' info s = Inr s'"
  shows "token_inv_with ad rm s'"
proof -
  obtain who n t s1 where "create c info (s\<lparr>native := n\<rparr>) = Inr (t, s1)"
    and s': "s' = deposit_token (TokenIssued t (xtoken_symbol info)) s1"
    using assms(3) by (auto simp: issue_def result_simps)
  then have "token_books ad rm s1" "names_ok s1"
    using assms create_ok [of ad rm "s\<lparr>native := n\<rparr>"] create_names [of ad rm "s\<lparr>native := n\<rparr>"]
    by (auto simp: token_inv_with_def)
  then show ?thesis by (simp add: s' token_inv_with_def)
qed

lemma mark_info_Some:
  "mark_info info = Some info' \<Longrightarrow> xtoken_total info' = xtoken_total info \<and> \<not> is_fnd10 info'"
  by (cases info) auto

lemma mark_stable_inv:
  assumes "token_inv_with ad rm s" and "mark_stable c o' t s = Inr s'"
  shows "token_inv_with ad rm s'"
proof -
  obtain info info' where info: "tokens s t = Some info" "mark_info info = Some info'"
    and s': "s' = s\<lparr>tokens := (tokens s)(t \<mapsto> info')\<rparr>"
    using assms(2) by (auto simp: mark_stable_def result_simps)
  have "same_names s s'" using info nep_name_total(3) by (auto simp: s' same_names_def)
  moreover have "listed u s' = listed u s" for u
    using info mark_info_Some [OF info(2)] by (simp add: s' listed_def)
  then have "token_books ad rm s'"
    using assms(1) info mark_info_Some [OF info(2)]
    by (auto simp: token_inv_with_def token_books_def s')
  ultimately show ?thesis using assms(1) same_names_ok by (auto simp: token_inv_with_def)
qed

lemma token_inv_keep: "token_inv_with ad rm s \<Longrightarrow> token_books ad rm s' \<Longrightarrow> same_names s s' \<Longrightarrow> token_inv_with ad rm s'"
  by (auto simp: token_inv_with_def intro: same_names_ok)

text \<open>Every call of the interfaces keeps the invariant.\<close>

lemma token_op_inv:
  assumes "token_inv_with ad rm s"
  shows "do_mint t w v s = Inr s' \<Longrightarrow> token_inv_with ad rm s'"
    and "do_burn t w v s = Inr (r, s') \<Longrightarrow> token_inv_with ad rm s'"
    and "transfer_token c a t v b s = Inr s' \<Longrightarrow> token_inv_with ad rm s'"
    and "reserve c t w v s = Inr s' \<Longrightarrow> token_inv_with ad rm s'"
    and "unreserve c t w v s = Inr s' \<Longrightarrow> token_inv_with ad rm s'"
    and "repatriate_reserved c t a b v st s = Inr s' \<Longrightarrow> token_inv_with ad rm s'"
    and "next_token_id s \<noteq> - 1 \<Longrightarrow> create c info s = Inr (t, s') \<Longrightarrow> token_inv_with ad rm s'"
    and "try_mutate_account c t w f s = Inr s' \<Longrightarrow>
      (\<And>x y. f x = Inr y \<Longrightarrow> unat (fst y) + unat (snd y) = unat (fst x) + unat (snd x))
      \<Longrightarrow> token_inv_with ad rm s'"
proof -
  note keep = token_inv_keep [OF assms]
  have ok: "token_books ad rm s" and names: "names_ok s" using assms by (simp_all add: token_inv_with_def)
  show "token_inv_with ad rm s'" if "do_mint t w v s = Inr s'"
    using do_mint_ok [OF ok that] same_names_ops(1) [OF that] by (rule keep)
  show "token_inv_with ad rm s'" if "do_burn t w v s = Inr (r, s')"
    using do_burn_ok [OF ok that] same_names_ops(2) [OF that] by (rule keep)
  show "token_inv_with ad rm s'" if "transfer_token c a t v b s = Inr s'"
    using transfer_token_ok [OF ok that] same_names_ops(3) [OF that] by (rule keep)
  show "token_inv_with ad rm s'" if "reserve c t w v s = Inr s'"
    using reserve_ok [OF ok that] same_names_ops(5) [OF that] by (rule keep)
  show "token_inv_with ad rm s'" if "unreserve c t w v s = Inr s'"
    using unreserve_ok [OF ok that] same_names_ops(6) [OF that] by (rule keep)
  show "token_inv_with ad rm s'" if "repatriate_reserved c t a b v st s = Inr s'"
    using repatriate_reserved_ok [OF ok that] same_names_repatriate [OF that] by (rule keep)
  show "token_inv_with ad rm s'" if "next_token_id s \<noteq> - 1" "create c info s = Inr (t, s')"
    using create_ok [OF ok that] create_names [OF ok names that(2)] by (simp add: token_inv_with_def)
  show "token_inv_with ad rm s'" if "try_mutate_account c t w f s = Inr s'"
      "\<And>x y. f x = Inr y \<Longrightarrow> unat (fst y) + unat (snd y) = unat (fst x) + unat (snd x)"
    using try_mutate_account_ok [OF ok that] same_names_ops(4) [OF that(1)] by (rule keep)
qed

lemma token_step_inv:
  assumes "token_inv_with ad rm s" and "token_step c s s'"
  shows "token_inv_with ad rm s'"
  using assms(2,1)
proof cases
  case step_issue
  with assms(1) show ?thesis using issue_inv by blast
next
  case step_mark_stable
  with assms(1) show ?thesis using mark_stable_inv by blast
next
  case (step_transfer o' t dest v)
  then obtain a b where "transfer_token c a t v b s = Inr s'"
    by (auto simp: transfer_def result_simps)
  with assms(1) show ?thesis by (blast intro: token_op_inv(3))
next
  case step_associate
  with assms(1) show ?thesis by (auto simp: associate_token_def result_simps token_inv_with_def)
next
  case step_create
  with assms(1) show ?thesis by (blast intro: token_op_inv(7))
next
  case step_mutate
  with assms(1) show ?thesis by (blast intro: token_op_inv(8))
next
  case step_issuance
  with assms(1) show ?thesis
    by (auto simp: token_inv_with_def try_mutate_issuance_def result_simps split: if_splits)
next
  case step_native
  with assms(1) show ?thesis by (simp add: token_inv_with_def)
next
  case step_mint
  with assms(1) show ?thesis unfolding mint_into_def by (blast intro: token_op_inv(1))
next
  case step_burn
  with assms(1) show ?thesis unfolding burn_from_def by (blast intro: token_op_inv(2))
next
  case step_slash
  with assms(1) show ?thesis unfolding slash_def by (blast intro: token_op_inv(2))
next
  case step_transfer_token
  with assms(1) show ?thesis by (blast intro: token_op_inv(3))
next
  case step_reserve
  with assms(1) show ?thesis by (blast intro: token_op_inv(4))
next
  case step_unreserve
  with assms(1) show ?thesis by (blast intro: token_op_inv(5))
next
  case step_repatriate
  with assms(1) show ?thesis by (blast intro: token_op_inv(6))
qed

lemma token_genesis_inv: "token_genesis s \<Longrightarrow> token_inv s"
  by (simp add: token_genesis_def token_inv_with_def token_books_def names_ok_def listed_def holdings_def)

interpretation token_system: invariant_system token_genesis "token_step c" token_inv for c
  by unfold_locales (rule token_genesis_inv, assumption, rule token_step_inv)

section \<open>All histories\<close>

text \<open>
  The histories of the ledger with every mutation of an account: a caller of \<open>try_mutate_account\<close> may write what
  it wants, as the verifier does when it settles trades, takes fees and pays shares. Beside the state a history
  has what the closures have added and removed so far, for each token of the pallet.
\<close>

inductive token_run ::
  "'n token_config \<Rightarrow> (token_id \<Rightarrow> nat) \<Rightarrow> (token_id \<Rightarrow> nat) \<Rightarrow> ('n, 'z) token_state_scheme \<Rightarrow> bool"
  for c :: "'n token_config"
  where
    run_genesis: "token_genesis s \<Longrightarrow> token_run c (\<lambda>_. 0) (\<lambda>_. 0) s"
  | run_step: "token_run c ad rm s \<Longrightarrow> token_step c s s' \<Longrightarrow> token_run c ad rm s'"
  | run_mutate: "token_run c ad rm s \<Longrightarrow> try_mutate_account c t w f s = Inr s' \<Longrightarrow> t \<noteq> native_id c
      \<Longrightarrow> x = (acc_free (get_token_balance (t, w) s), acc_reserved (get_token_balance (t, w) s)) \<Longrightarrow> f x = Inr y
      \<Longrightarrow> token_run c (ad(t := ad t + closure_adds x y)) (rm(t := rm t + closure_adds y x)) s'"

lemma token_run_inv: "token_run c ad rm s \<Longrightarrow> token_inv_with ad rm s"
proof (induction rule: token_run.induct)
  case (run_genesis s)
  then show ?case by (rule token_genesis_inv)
next
  case (run_step ad rm s s')
  then show ?case by (blast intro: token_step_inv)
next
  case (run_mutate ad rm s t w f s' x y)
  have books: "token_books ad rm s" and names: "names_ok s" using run_mutate.IH by (simp_all add: token_inv_with_def)
  show ?case
    using try_mutate_account_books [OF books run_mutate.hyps(2-5)]
      same_names_ok [OF same_names_ops(4) [OF run_mutate.hyps(2)] names]
    by (simp add: token_inv_with_def del: fun_upd_apply)
qed

lemma token_run_reachable: "reachable token_genesis (token_step c) s \<Longrightarrow> token_run c (\<lambda>_. 0) (\<lambda>_. 0) s"
  by (induction rule: reachable.induct) (auto intro: run_genesis run_step)

end
