(* ===== verification/Reference.thy ===== *)
theory Reference
  imports Token
begin

text \<open>
  Concrete functions for the parameters that stand for code outside the repository. No
  definition of the model refers to them: they show that the named hypotheses on those
  parameters can hold, and the witnesses of the theorems run on them.

  The currency keeps a free and a reserved balance per account and an issuance, moves
  amounts with the checks the documentation of \<open>pallet_balances\<close> gives, and has no
  existential deposit and no locks.
\<close>

record ref_native =
  rn_accounts :: "account \<Rightarrow> u128 \<times> u128"
  rn_issuance :: u128

definition rn_empty :: ref_native where
  "rn_empty = \<lparr>rn_accounts = (\<lambda>_. (0, 0)), rn_issuance = 0\<rparr>"

definition rn_put :: "account \<Rightarrow> u128 \<times> u128 \<Rightarrow> ref_native \<Rightarrow> ref_native" where
  "rn_put w p n = n\<lparr>rn_accounts := (rn_accounts n)(w := p)\<rparr>"

definition rn_move ::
  "account \<Rightarrow> (u128 \<times> u128 \<Rightarrow> (u128 \<times> u128) result) \<Rightarrow> ref_native \<Rightarrow> ref_native result" where
  "rn_move w f n = and_then (f (rn_accounts n w)) (\<lambda>p. Inr (rn_put w p n))"

definition take_free :: "u128 \<Rightarrow> u128 \<times> u128 \<Rightarrow> (u128 \<times> u128) result" where
  "take_free v p = and_then (ok_or (checked_sub (fst p) v) (ForeignError 0)) (\<lambda>x. Inr (x, snd p))"

definition give_free :: "u128 \<Rightarrow> u128 \<times> u128 \<Rightarrow> (u128 \<times> u128) result" where
  "give_free v p = and_then (ok_or (checked_add (fst p) v) (ForeignError 1)) (\<lambda>x. Inr (x, snd p))"

definition take_reserved :: "u128 \<Rightarrow> u128 \<times> u128 \<Rightarrow> (u128 \<times> u128) result" where
  "take_reserved v p = and_then (ok_or (checked_sub (snd p) v) (ForeignError 0)) (\<lambda>x. Inr (fst p, x))"

definition give_reserved :: "u128 \<Rightarrow> u128 \<times> u128 \<Rightarrow> (u128 \<times> u128) result" where
  "give_reserved v p = and_then (ok_or (checked_add (snd p) v) (ForeignError 1)) (\<lambda>x. Inr (fst p, x))"

definition rn_reserve :: "account \<Rightarrow> u128 \<Rightarrow> ref_native \<Rightarrow> ref_native result" where
  "rn_reserve w v = rn_move w (\<lambda>p. and_then (take_free v p) (give_reserved v))"

definition rn_unreserve :: "account \<Rightarrow> u128 \<Rightarrow> ref_native \<Rightarrow> ref_native" where
  "rn_unreserve w v n =
    (let (fr, rs) = rn_accounts n w; x = min v rs in rn_put w (saturating_add fr x, rs - x) n)"

definition ref_currency :: "ref_native native_currency" where
  "ref_currency =
    \<lparr>nc_free = (\<lambda>w n. fst (rn_accounts n w)),
     nc_reserved = (\<lambda>w n. snd (rn_accounts n w)),
     nc_issuance = rn_issuance,
     nc_set_issuance = (\<lambda>v n. n\<lparr>rn_issuance := v\<rparr>),
     nc_transfer = (\<lambda>a b v n. and_then (rn_move a (take_free v) n) (rn_move b (give_free v))),
     nc_mutate_account = rn_move,
     nc_can_reserve = (\<lambda>w v n. v \<le> fst (rn_accounts n w)),
     nc_reserve = rn_reserve,
     nc_unreserve = rn_unreserve,
     nc_repatriate = (\<lambda>a b v st n. and_then (rn_move a (take_reserved v) n)
        (rn_move b (if st = StatusFree then give_free v else give_reserved v))),
     nc_burn_from = (\<lambda>w v n. and_then (rn_move w (take_free v) n)
        (\<lambda>n. Inr (n\<lparr>rn_issuance := rn_issuance n - v\<rparr>)))\<rparr>"

text \<open>The constants of \<open>runtime/src/lib.rs\<close>, with administrator root.\<close>

definition ref_token_config :: "ref_native token_config" where
  "ref_token_config =
    \<lparr>currency = ref_currency, near_chain_id = 255, eth_chain_id = 1, bnb_chain_id = 56,
     native_chain_id = 42, polygon_chain_id = 137, native_id = 0,
     burn_tao_when_issue = 10000000000000000000,
     token_admin_origin = (\<lambda>o'. o' = RootOrigin), token_lookup = (\<lambda>n. Inr n),
     ascii_valid = (\<lambda>bs. list_all (\<lambda>b. b < 128) bs)\<rparr>"

definition ref_token_state :: "ref_native token_state" where
  "ref_token_state =
    \<lparr>block_number = 1, account_nonce = (\<lambda>_. 0), token_balances = (\<lambda>_. None),
     tokens = (\<lambda>_. None), next_token_id = 1, token_by_name = (\<lambda>_. None),
     token_by_contract = (\<lambda>_. None), token_events = [], native = rn_empty\<rparr>"

lemmas ref_currency_simps [simp] =
  ref_currency_def rn_move_def rn_put_def take_free_def give_free_def take_reserved_def
  give_reserved_def rn_reserve_def rn_unreserve_def

lemma ref_token_config_simps [simp]:
  "currency ref_token_config = ref_currency" "native_id ref_token_config = 0"
  by (simp_all add: ref_token_config_def)

end
