(* ===== verification/Reward_Correct.thy ===== *)
theory Reward_Correct
  imports Reward Token_Laws Reference
begin

text \<open>
  The reward ledger is solvent: in each era the volumes the accounts have pending add up to at
  most the total the era's rewards are divided by. So no rotation divides by zero and no share
  exceeds one. A claim pays what is confirmed and a second claim in the same era pays
  nothing. Both ledgers, the legacy one and the current one, satisfy one contract
  (\<open>pending_ok\<close>), kept by the shared rotation.
\<close>

section \<open>Pending volumes\<close>

definition pending_in :: "block_number \<Rightarrow> reward \<Rightarrow> nat" where
  "pending_in e r = (if last_modify r = e then unat (pending_vol r) else 0)"

definition pending_ok :: "(block_number \<Rightarrow> u128) \<Rightarrow> (account \<Rightarrow> reward option) \<Rightarrow> bool" where
  "pending_ok totals m \<longleftrightarrow>
    finite (dom m) \<and> (\<forall>e. dom_sum (pending_in e) m \<le> unat (totals e))"

lemma pending_okD:
  assumes "pending_ok totals m" and "m w = Some r"
  shows "unat (pending_vol r) \<le> unat (totals (last_modify r))"
proof -
  have "pending_in (last_modify r) r \<le> dom_sum (pending_in (last_modify r)) m"
    using assms by (intro dom_sum_ge) (auto simp: pending_ok_def)
  also have "\<dots> \<le> unat (totals (last_modify r))" using assms(1) by (simp add: pending_ok_def)
  finally show ?thesis by (simp add: pending_in_def)
qed

lemma opt_val_no_reward:
  "opt_val (pending_in e) m = pending_in e (value_or no_reward m)"
  by (cases m) (simp_all add: pending_in_def no_reward_def)

text \<open>A rotation adds the contribution to the era it rotates into, and to no other.\<close>

lemma rotated_pending:
  assumes "rotated c totals per_era now at vol r = Inr r'"
  shows "pending_in e r' \<le> pending_in e r + (if e = at then unat vol else 0)"
  using assms
  by (auto simp: rotated_def pending_in_def result_simps Let_def split: if_splits)

lemma rotated_era:
  assumes "rotated c totals per_era now at vol r = Inr r'"
  shows "last_modify r' = at" and "unat (pending_vol r')
    = (if last_modify r = at then unat (pending_vol r) else 0) + unat vol"
  using assms by (auto simp: rotated_def result_simps Let_def split: if_splits)

lemma rotated_no_division_by_zero:
  assumes "unat (pending_vol r) \<le> unat (totals (last_modify r))"
  shows "rotated c totals per_era now at vol r \<noteq> Inl (RewardError DivideByZero)"
proof -
  have "pending_vol r \<noteq> 0 \<Longrightarrow> 0 < totals (last_modify r)"
    using assms word_gt_0 [of "pending_vol r"] by (auto simp: word_less_nat_alt)
  then show ?thesis
    by (auto simp: rotated_def Let_def and_then_Inl ensure_Inl ok_or_def split: option.splits)
qed

lemma pending_ok_rotate:
  assumes ok: "pending_ok totals m"
    and run: "rotated c totals' per_era now at vol (value_or no_reward (m w)) = Inr r'"
    and grow: "unat (totals' at) = unat (totals at) + unat vol"
    and same: "\<And>e. e \<noteq> at \<Longrightarrow> totals' e = totals e"
  shows "pending_ok totals' (m(w \<mapsto> r'))"
  unfolding pending_ok_def
proof (intro conjI allI)
  show "finite (dom (m(w \<mapsto> r')))" using ok by (simp add: pending_ok_def)
  fix e
  have "dom_sum (pending_in e) (m(w \<mapsto> r')) + pending_in e (value_or no_reward (m w))
      = dom_sum (pending_in e) m + pending_in e r'"
    using dom_sum_upd [of m "pending_in e" w "Some r'"] ok
    by (simp add: pending_ok_def opt_val_no_reward)
  moreover have "dom_sum (pending_in e) m \<le> unat (totals e)" using ok by (simp add: pending_ok_def)
  ultimately show "dom_sum (pending_in e) (m(w \<mapsto> r')) \<le> unat (totals' e)"
    using rotated_pending [OF run, of e] grow same [of e] by (cases "e = at") auto
qed

lemma pending_ok_shrink:
  assumes ok: "pending_ok totals m"
    and less: "\<And>e. opt_val (pending_in e) x \<le> opt_val (pending_in e) (m w)"
  shows "pending_ok totals (m(w := x))"
  unfolding pending_ok_def
proof (intro conjI allI)
  show "finite (dom (m(w := x)))" using ok by (simp add: pending_ok_def)
  fix e
  have "dom_sum (pending_in e) (m(w := x)) + opt_val (pending_in e) (m w)
      = dom_sum (pending_in e) m + opt_val (pending_in e) x"
    using ok by (intro dom_sum_upd) (simp add: pending_ok_def)
  moreover have "dom_sum (pending_in e) m \<le> unat (totals e)" using ok by (simp add: pending_ok_def)
  ultimately show "dom_sum (pending_in e) (m(w := x)) \<le> unat (totals e)"
    using less [of e] by linarith
qed

section \<open>The invariant\<close>

definition reward_ok :: "('n, 'z) reward_state_scheme \<Rightarrow> bool" where
  "reward_ok s \<longleftrightarrow> pending_ok (taken_liquidity s) (marketing_rewards s)
    \<and> pending_ok (volumes s) (legacy_rewards s)"

definition same_rewards :: "('n, 'z) reward_state_scheme \<Rightarrow> ('n, 'z) reward_state_scheme \<Rightarrow> bool" where
  "same_rewards s s' \<longleftrightarrow> taken_liquidity s' = taken_liquidity s \<and> volumes s' = volumes s
    \<and> marketing_rewards s' = marketing_rewards s \<and> legacy_rewards s' = legacy_rewards s"

lemma same_rewards_ok: "same_rewards s s' \<Longrightarrow> reward_ok s \<Longrightarrow> reward_ok s'"
  by (simp add: same_rewards_def reward_ok_def)

lemma mint_native_same: "mint_native c w v s = Inr s' \<Longrightarrow> same_rewards s s'"
  by (auto simp: mint_native_def try_mutate_issuance_def try_mutate_account_def same_rewards_def
      Let_def result_simps split: if_splits)

lemma rotate_reward_Inr:
  assumes "rotate_reward c at vol w s = Inr (v, s')"
  obtains r where "rotated c (taken_liquidity s) (era_rewards s) (block_number s) at vol
      (value_or no_reward (marketing_rewards s w)) = Inr r"
    and "v = confirmed r" and "s' = s\<lparr>marketing_rewards := (marketing_rewards s)(w \<mapsto> r)\<rparr>"
  using assms by (auto simp: rotate_reward_def result_simps)

lemma rotate_legacy_reward_Inr:
  assumes "rotate_legacy_reward c at vol w s = Inr (v, s')"
  obtains r where "rotated c (volumes s) (era_rewards s) (block_number s) at vol
      (value_or no_reward (legacy_rewards s w)) = Inr r"
    and "v = confirmed r" and "s' = s\<lparr>legacy_rewards := (legacy_rewards s)(w \<mapsto> r)\<rparr>"
  using assms by (auto simp: rotate_legacy_reward_def result_simps)

lemma rotate_zero_ok:
  "reward_ok s \<Longrightarrow> rotate_reward c at 0 w s = Inr (v, s') \<Longrightarrow> reward_ok s'"
  "reward_ok s \<Longrightarrow> rotate_legacy_reward c at 0 w s = Inr (v, s') \<Longrightarrow> reward_ok s'"
  by (auto simp: reward_ok_def elim!: rotate_reward_Inr rotate_legacy_reward_Inr
      intro!: pending_ok_rotate)

text \<open>What a claim does to the account's entry, for the two ledgers.\<close>

lemma claim_reward_Inr:
  assumes "claim_reward c w at s = Inr (v, s')"
  obtains b s1 r where "era_begin c at = Inr b" and "rotate_reward c b 0 w s = Inr (v, s1)"
    and "marketing_rewards s1 w = Some r" and "v = confirmed r"
    and "if v = 0 then s' = s1
      else \<exists>s2. mint_native c w v s1 = Inr s2 \<and> s' = s2\<lparr>marketing_rewards := (marketing_rewards s2)
        (w := if 0 < pending_vol r then Some (r\<lparr>confirmed := 0\<rparr>) else None)\<rparr>"
proof -
  obtain b v1 s1 where b: "era_begin c at = Inr b" and rot: "rotate_reward c b 0 w s = Inr (v1, s1)"
    using assms by (auto simp: claim_reward_def and_then_Inr)
  obtain r where r: "marketing_rewards s1 w = Some r" "v1 = confirmed r"
    using rot by (rule rotate_reward_Inr) auto
  have pay: "if v1 = 0 then v = 0 \<and> s' = s1
      else \<exists>s2. mint_native c w v1 s1 = Inr s2 \<and> v = v1 \<and> s' = s2\<lparr>marketing_rewards := (marketing_rewards s2)
        (w := if 0 < pending_vol r then Some (r\<lparr>confirmed := 0\<rparr>) else None)\<rparr>"
    using assms r by (auto simp: claim_reward_def b rot Let_def and_then_Inr word_gt_0)
  show ?thesis
  proof (rule that [OF b])
    show "rotate_reward c b 0 w s = Inr (v, s1)" using rot pay by (auto split: if_splits)
  qed (use r pay in \<open>auto split: if_splits\<close>)
qed

lemma claim_legacy_reward_Inr:
  assumes "claim_legacy_reward c w at s = Inr (v, s')"
  obtains b s1 r where "era_begin c at = Inr b" and "rotate_legacy_reward c b 0 w s = Inr (v, s1)"
    and "legacy_rewards s1 w = Some r" and "v = confirmed r"
    and "if v = 0 then s' = s1
      else \<exists>s2. mint_native c w v s1 = Inr s2 \<and> s' = s2\<lparr>legacy_rewards := (legacy_rewards s2)
        (w := if 0 < pending_vol r then Some (r\<lparr>confirmed := 0\<rparr>) else None)\<rparr>"
proof -
  obtain b v1 s1 where b: "era_begin c at = Inr b" and rot: "rotate_legacy_reward c b 0 w s = Inr (v1, s1)"
    using assms by (auto simp: claim_legacy_reward_def and_then_Inr)
  obtain r where r: "legacy_rewards s1 w = Some r" "v1 = confirmed r"
    using rot by (rule rotate_legacy_reward_Inr) auto
  have pay: "if v1 = 0 then v = 0 \<and> s' = s1
      else \<exists>s2. mint_native c w v1 s1 = Inr s2 \<and> v = v1 \<and> s' = s2\<lparr>legacy_rewards := (legacy_rewards s2)
        (w := if 0 < pending_vol r then Some (r\<lparr>confirmed := 0\<rparr>) else None)\<rparr>"
    using assms r by (auto simp: claim_legacy_reward_def b rot Let_def and_then_Inr word_gt_0)
  show ?thesis
  proof (rule that [OF b])
    show "rotate_legacy_reward c b 0 w s = Inr (v, s1)" using rot pay by (auto split: if_splits)
  qed (use r pay in \<open>auto split: if_splits\<close>)
qed

lemma claim_reward_ok:
  assumes ok: "reward_ok s" and run: "claim_reward c w at s = Inr (v, s')"
  shows "reward_ok s'"
proof -
  obtain b s1 r where rot: "rotate_reward c b 0 w s = Inr (v, s1)"
    and r: "marketing_rewards s1 w = Some r"
    and pay: "if v = 0 then s' = s1
      else \<exists>s2. mint_native c w v s1 = Inr s2 \<and> s' = s2\<lparr>marketing_rewards := (marketing_rewards s2)
        (w := if 0 < pending_vol r then Some (r\<lparr>confirmed := 0\<rparr>) else None)\<rparr>"
    using run by (rule claim_reward_Inr)
  have ok1: "reward_ok s1" using ok rot by (rule rotate_zero_ok)
  show ?thesis
  proof (cases "v = 0")
    case True
    with pay ok1 show ?thesis by simp
  next
    case False
    then obtain s2 where s2: "mint_native c w v s1 = Inr s2"
      and s': "s' = s2\<lparr>marketing_rewards := (marketing_rewards s2)
        (w := if 0 < pending_vol r then Some (r\<lparr>confirmed := 0\<rparr>) else None)\<rparr>"
      using pay by auto
    have same: "same_rewards s1 s2" using s2 by (rule mint_native_same)
    then have "reward_ok s2" using ok1 by (rule same_rewards_ok)
    then show ?thesis
      using r same unfolding s' reward_ok_def same_rewards_def
      by (auto intro!: pending_ok_shrink simp: pending_in_def)
  qed
qed

lemma claim_legacy_reward_ok:
  assumes ok: "reward_ok s" and run: "claim_legacy_reward c w at s = Inr (v, s')"
  shows "reward_ok s'"
proof -
  obtain b s1 r where rot: "rotate_legacy_reward c b 0 w s = Inr (v, s1)"
    and r: "legacy_rewards s1 w = Some r"
    and pay: "if v = 0 then s' = s1
      else \<exists>s2. mint_native c w v s1 = Inr s2 \<and> s' = s2\<lparr>legacy_rewards := (legacy_rewards s2)
        (w := if 0 < pending_vol r then Some (r\<lparr>confirmed := 0\<rparr>) else None)\<rparr>"
    using run by (rule claim_legacy_reward_Inr)
  have ok1: "reward_ok s1" using ok rot by (rule rotate_zero_ok)
  show ?thesis
  proof (cases "v = 0")
    case True
    with pay ok1 show ?thesis by simp
  next
    case False
    then obtain s2 where s2: "mint_native c w v s1 = Inr s2"
      and s': "s' = s2\<lparr>legacy_rewards := (legacy_rewards s2)
        (w := if 0 < pending_vol r then Some (r\<lparr>confirmed := 0\<rparr>) else None)\<rparr>"
      using pay by auto
    have same: "same_rewards s1 s2" using s2 by (rule mint_native_same)
    then have "reward_ok s2" using ok1 by (rule same_rewards_ok)
    then show ?thesis
      using r same unfolding s' reward_ok_def same_rewards_def
      by (auto intro!: pending_ok_shrink simp: pending_in_def)
  qed
qed

lemma save_trading_ok:
  assumes ok: "reward_ok s" and run: "save_trading c w vol at s = Inr s'"
  shows "reward_ok s'"
proof (cases "vol = 0")
  case True
  with assms show ?thesis by (simp add: save_trading_def)
next
  case False
  then obtain b v u where v: "unat v = unat (volumes s b) + unat vol"
    and rot: "rotate_legacy_reward c b vol w (s\<lparr>volumes := (volumes s)(b := v)\<rparr>) = Inr (u, s')"
    using run by (auto simp: save_trading_def result_simps)
  let ?s = "s\<lparr>volumes := (volumes s)(b := v)\<rparr>"
  obtain r where r: "rotated c (volumes ?s) (era_rewards ?s) (block_number ?s) b vol
      (value_or no_reward (legacy_rewards ?s w)) = Inr r"
    and s': "s' = ?s\<lparr>legacy_rewards := (legacy_rewards ?s)(w \<mapsto> r)\<rparr>"
    using rot by (rule rotate_legacy_reward_Inr)
  have "pending_ok ((volumes s)(b := v)) ((legacy_rewards s)(w \<mapsto> r))"
    using ok v r by (auto simp: reward_ok_def intro!: pending_ok_rotate [where totals = "volumes s"])
  then show ?thesis using ok by (simp add: s' reward_ok_def)
qed

lemma remove_liquidity_same:
  "remove_liquidity w p vol s = Inr (b, s') \<Longrightarrow> same_rewards s s' \<and> trading_volumes s' = trading_volumes s
    \<and> era_rewards s' = era_rewards s \<and> block_number s' = block_number s"
  by (cases "vol = 0"; cases "liquidity_pool s (w, p)";
      cases "checked_sub (lp_volume (the (liquidity_pool s (w, p)))) vol")
    (auto simp: remove_liquidity_def same_rewards_def)

text \<open>A call of \<open>consume_liquidity\<close> that finds the liquidity, step by step.\<close>

lemma consume_liquidity_Inr:
  assumes "consume_liquidity c w p vol now s = Inr s'" and "remove_liquidity w p vol s = Inr (b, s1)"
  obtains e k taken traded r where "era_begin c now = Inr e" and "time_coefficient c now b = Inr k"
    and "unat taken = unat (taken_liquidity s e) + unat (k * vol)"
    and "unat traded = unat (trading_volumes s e) + unat vol"
    and "rotated c ((taken_liquidity s)(e := taken)) (era_rewards s) (block_number s) e (k * vol)
      (value_or no_reward (marketing_rewards s w)) = Inr r"
    and "s' = s1\<lparr>taken_liquidity := (taken_liquidity s)(e := taken),
                  trading_volumes := (trading_volumes s)(e := traded),
                  marketing_rewards := (marketing_rewards s)(w \<mapsto> r)\<rparr>"
proof -
  note same = remove_liquidity_same [OF assms(2)]
  obtain e k taken traded u where ek: "era_begin c now = Inr e" "time_coefficient c now b = Inr k"
    and t: "unat taken = unat (taken_liquidity s1 e) + unat (k * vol)"
      "unat traded = unat (trading_volumes s1 e) + unat vol"
    and rot: "rotate_reward c e (k * vol) w
        (s1\<lparr>taken_liquidity := (taken_liquidity s1)(e := taken),
            trading_volumes := (trading_volumes s1)(e := traded)\<rparr>) = Inr (u, s')"
    using assms by (auto simp: consume_liquidity_def Let_def result_simps)
  show thesis
    using rot by (rule rotate_reward_Inr) (use same ek t in \<open>auto simp: same_rewards_def intro!: that\<close>)
qed

lemma consume_liquidity_ok:
  assumes ok: "reward_ok s" and run: "consume_liquidity c w p vol now s = Inr s'"
  shows "reward_ok s'"
proof (cases "remove_liquidity w p vol s")
  case (Inl e)
  with assms show ?thesis by (simp add: consume_liquidity_def)
next
  case (Inr x)
  then obtain b s1 where rm: "remove_liquidity w p vol s = Inr (b, s1)" by (cases x) auto
  obtain e k taken traded r where "unat taken = unat (taken_liquidity s e) + unat (k * vol)"
    and "rotated c ((taken_liquidity s)(e := taken)) (era_rewards s) (block_number s) e (k * vol)
      (value_or no_reward (marketing_rewards s w)) = Inr r"
    and "s' = s1\<lparr>taken_liquidity := (taken_liquidity s)(e := taken),
                  trading_volumes := (trading_volumes s)(e := traded),
                  marketing_rewards := (marketing_rewards s)(w \<mapsto> r)\<rparr>"
    using run rm by (rule consume_liquidity_Inr)
  then show ?thesis
    using ok remove_liquidity_same [OF rm]
    by (auto simp: reward_ok_def same_rewards_def
        intro!: pending_ok_rotate [where totals = "taken_liquidity s"])
qed

lemma take_reward_Inr:
  assumes "take_reward c o' s = Inr s'"
  obtains w v1 s1 v2 s2 v where "o' = SignedOrigin w"
    and "claim_legacy_reward c w (block_number s) s = Inr (v1, s1)"
    and "claim_reward c w (block_number s) s1 = Inr (v2, s2)"
    and "unat v = unat v2 + unat v1" and "s' = deposit_reward (RewardClaimed w v) s2"
proof -
  obtain w where w: "o' = SignedOrigin w"
    using assms by (auto simp: take_reward_def result_simps)
  obtain v1 s1 where s1: "claim_legacy_reward c w (block_number s) s = Inr (v1, s1)"
    using assms by (auto simp: take_reward_def Let_def and_then_Inr w ensure_signed_def)
  obtain v2 s2 where s2: "claim_reward c w (block_number s) s1 = Inr (v2, s2)"
    using assms by (auto simp: take_reward_def Let_def and_then_Inr w ensure_signed_def s1)
  show thesis
    using assms w s1 s2
    by (auto simp: take_reward_def Let_def ensure_signed_def ok_or_Inr checked_add_eq_Some and_then_Inr
        intro: that)
qed

lemma take_reward_ok:
  assumes "reward_ok s" and "take_reward c o' s = Inr s'"
  shows "reward_ok s'"
proof -
  obtain w v1 s1 v2 s2 v where 1: "claim_legacy_reward c w (block_number s) s = Inr (v1, s1)"
    and 2: "claim_reward c w (block_number s) s1 = Inr (v2, s2)"
    and s': "s' = deposit_reward (RewardClaimed w v) s2"
    using assms(2) by (rule take_reward_Inr)
  have "reward_ok s2" using claim_reward_ok [OF claim_legacy_reward_ok [OF assms(1) 1] 2] .
  then show ?thesis by (simp add: s' deposit_reward_def reward_ok_def)
qed

section \<open>Reachable reward ledgers\<close>

definition reward_genesis :: "('n, 'z) reward_state_scheme \<Rightarrow> bool" where
  "reward_genesis s \<longleftrightarrow> marketing_rewards s = (\<lambda>_. None) \<and> legacy_rewards s = (\<lambda>_. None)"

text \<open>The last rule is every change outside the reward storage: blocks, tokens, the currency,
  the liquidity pool.\<close>

inductive reward_step ::
  "'n reward_config \<Rightarrow> ('n, 'z) reward_state_scheme \<Rightarrow> ('n, 'z) reward_state_scheme \<Rightarrow> bool"
  for c :: "'n reward_config"
  where
    step_take: "take_reward c o' s = Inr s' \<Longrightarrow> reward_step c s s'"
  | step_set_era: "set_era_rewards c o' v s = Inr s' \<Longrightarrow> reward_step c s s'"
  | step_save: "save_trading c w v at s = Inr s' \<Longrightarrow> reward_step c s s'"
  | step_put: "put_liquidity w p v at s = s' \<Longrightarrow> reward_step c s s'"
  | step_remove: "remove_liquidity w p v s = Inr (b, s') \<Longrightarrow> reward_step c s s'"
  | step_consume: "consume_liquidity c w p v at s = Inr s' \<Longrightarrow> reward_step c s s'"
  | step_outside: "same_rewards s s' \<Longrightarrow> reward_step c s s'"

lemma reward_step_ok:
  assumes "reward_ok s" and "reward_step c s s'"
  shows "reward_ok s'"
  using assms(2,1)
proof cases
  case step_set_era
  with assms(1) show ?thesis
    by (auto simp: set_era_rewards_def deposit_reward_def result_simps reward_ok_def)
next
  case step_put
  with assms(1) show ?thesis by (auto simp: put_liquidity_def reward_ok_def)
next
  case (step_remove w p v b)
  then show ?thesis using assms(1) remove_liquidity_same same_rewards_ok by blast
qed (use assms(1) take_reward_ok save_trading_ok consume_liquidity_ok same_rewards_ok in blast)+

interpretation reward_system: invariant_system reward_genesis "reward_step c" reward_ok for c
  by unfold_locales
    (simp add: reward_genesis_def reward_ok_def pending_ok_def, rule reward_step_ok)

section \<open>Properties\<close>

text \<open>A reference configuration with eras of 10 blocks, and ratios rounded down.\<close>

definition ref_arithmetic :: sp_arithmetic where
  "ref_arithmetic =
    \<lparr>permill_from_parts = (\<lambda>n. min n 1000000),
     permill_from_percent = (\<lambda>n. min n 100 * 10000),
     permill_mul_ceil = (\<lambda>p v. word_of_int ((uint p * uint v + 999999) div 1000000)),
     perquintill_from_rational = (\<lambda>p q. word_of_int (uint (min p q) * 1000000000000000000 div uint q)),
     perquintill_mul = (\<lambda>p v. word_of_int (uint p * uint v div 1000000000000000000))\<rparr>"

definition ref_reward_config :: "ref_native reward_config" where
  "ref_reward_config =
    \<lparr>reward_asset = ref_token_config, era_duration = 10, time_coefficient_zoom = 2,
     reward_terminate_at = 1000, treasury_origin = (\<lambda>o'. o' = RootOrigin),
     reward_arithmetic = ref_arithmetic\<rparr>"

definition ref_reward_state :: "ref_native reward_state" where
  "ref_reward_state =
    token_state.extend ref_token_state
      \<lparr>liquidity_pool = (\<lambda>_. None), era_rewards = 500, legacy_rewards = (\<lambda>_. None),
       volumes = (\<lambda>_. 0), taken_liquidity = (\<lambda>_. 0), marketing_rewards = (\<lambda>_. None),
       trading_volumes = (\<lambda>_. 0), reward_events = []\<rparr>"

text \<open>Two makers provide liquidity and it is taken in block 17; in block 21 the era is over.\<close>

definition demo_rewards :: "(ref_native reward_state) result" where
  "demo_rewards =
    (let s = put_liquidity 7 (1, 2) 30 12 (put_liquidity 8 (1, 2) 40 15 ref_reward_state) in
     and_then (consume_liquidity ref_reward_config 7 (1, 2) 30 17 s) (\<lambda>s.
     and_then (consume_liquidity ref_reward_config 8 (1, 2) 40 17 s) (\<lambda>s.
     Inr (s\<lparr>block_number := 21\<rparr>))))"

lemma demo_rewards_reachable:
  assumes "demo_rewards = Inr s"
  shows "reachable reward_genesis (reward_step ref_reward_config) s"
proof -
  let ?R = "reachable reward_genesis (reward_step ref_reward_config)"
  let ?s1 = "put_liquidity 8 (1, 2) 40 15 ref_reward_state"
  let ?s2 = "put_liquidity 7 (1, 2) 30 12 ?s1"
  obtain s3 s4 where s3: "consume_liquidity ref_reward_config 7 (1, 2) 30 17 ?s2 = Inr s3"
    and s4: "consume_liquidity ref_reward_config 8 (1, 2) 40 17 s3 = Inr s4"
    and s: "s = s4\<lparr>block_number := 21\<rparr>"
    using assms by (auto simp: demo_rewards_def Let_def and_then_Inr)
  have "reward_genesis ref_reward_state"
    by (simp add: reward_genesis_def ref_reward_state_def token_state.extend_def)
  then have "?R ref_reward_state" by (rule reachable_init)
  then have "?R ?s1" by (rule reachable_step) (rule step_put, rule refl)
  then have "?R ?s2" by (rule reachable_step) (rule step_put, rule refl)
  then have "?R s3" using step_consume [OF s3] by (rule reachable_step)
  then have "?R s4" using step_consume [OF s4] by (rule reachable_step)
  then show ?thesis
    unfolding s by (rule reachable_step) (rule step_outside, simp add: same_rewards_def)
qed

text \<open>
  C37. Solvency of the rewards. In every reachable state, for every era, the volumes that accounts
  have pending in it add up to at most the era's taken liquidity, which each account's share is
  measured against; so the shares never add up to more than the whole, and no rotation, of the
  current or of the legacy rewards, fails with \<open>DivideByZero\<close>.
\<close>

theorem rewards_solvent:
  assumes "reachable reward_genesis (reward_step c) s"
  shows "(\<Sum>w | marketing_rewards s w \<noteq> None \<and> last_modify (the (marketing_rewards s w)) = e.
      unat (pending_vol (the (marketing_rewards s w)))) \<le> unat (taken_liquidity s e)
    \<and> rotate_reward c b vol w s \<noteq> Inl (RewardError DivideByZero)
    \<and> rotate_legacy_reward c b vol w s \<noteq> Inl (RewardError DivideByZero)"
proof (intro conjI)
  have ok: "reward_ok s" using assms by (rule reward_system.inv_reachable)
  have fin: "finite (dom (marketing_rewards s))" using ok by (simp add: reward_ok_def pending_ok_def)
  have "(\<Sum>w | marketing_rewards s w \<noteq> None \<and> last_modify (the (marketing_rewards s w)) = e.
      unat (pending_vol (the (marketing_rewards s w)))) = dom_sum (pending_in e) (marketing_rewards s)"
    unfolding dom_sum_def
    by (rule sum.mono_neutral_cong_left [OF fin]) (auto simp: pending_in_def)
  also have "\<dots> \<le> unat (taken_liquidity s e)" using ok by (simp add: reward_ok_def pending_ok_def)
  finally show "(\<Sum>w | marketing_rewards s w \<noteq> None \<and> last_modify (the (marketing_rewards s w)) = e.
      unat (pending_vol (the (marketing_rewards s w)))) \<le> unat (taken_liquidity s e)" .
  have no_div: "rotated c totals p now b vol (value_or no_reward (m w)) \<noteq> Inl (RewardError DivideByZero)"
    if "pending_ok totals m" for totals m p now
    using that by (intro rotated_no_division_by_zero)
      (cases "m w", auto simp: no_reward_def dest: pending_okD)
  show "rotate_reward c b vol w s \<noteq> Inl (RewardError DivideByZero)"
    "rotate_legacy_reward c b vol w s \<noteq> Inl (RewardError DivideByZero)"
    using ok no_div
    by (auto simp: rotate_reward_def rotate_legacy_reward_def and_then_Inl reward_ok_def)
qed

theorem rewards_solvent_witness:
  "\<exists>s. demo_rewards = Inr s \<and> taken_liquidity s 10 = 100
    \<and> rotate_reward ref_reward_config 20 0 7 s \<noteq> Inl (RewardError DivideByZero)"
proof -
  have "case demo_rewards of Inl _ \<Rightarrow> False | Inr s \<Rightarrow> taken_liquidity s 10 = 100"
    by code_simp
  then obtain s where s: "demo_rewards = Inr s" "taken_liquidity s 10 = 100"
    by (auto split: sum.splits)
  then show ?thesis using rewards_solvent [OF demo_rewards_reachable [OF s(1)], of 10 20 0 7] by blast
qed

text \<open>
  No reward is paid twice. After a successful claim the account has nothing confirmed left: a
  second claim in the same era succeeds and pays zero, whatever the first one paid.
\<close>

theorem claim_reward_once:
  assumes "claim_reward c w at s = Inr (v, s1)" and "at' - at' mod era_duration c = at - at mod era_duration c"
  shows "\<exists>s2. claim_reward c w at' s1 = Inr (0, s2) \<and> native s2 = native s1"
proof -
  obtain b s0 r where b: "era_begin c at = Inr b" and rot: "rotate_reward c b 0 w s = Inr (v, s0)"
    and r: "marketing_rewards s0 w = Some r" "v = confirmed r"
    and pay: "if v = 0 then s1 = s0
      else \<exists>s2. mint_native c w v s0 = Inr s2 \<and> s1 = s2\<lparr>marketing_rewards := (marketing_rewards s2)
        (w := if 0 < pending_vol r then Some (r\<lparr>confirmed := 0\<rparr>) else None)\<rparr>"
    using assms(1) by (rule claim_reward_Inr)
  have b': "era_begin c at' = Inr b" using b assms(2) by (auto simp: era_begin_def result_simps)
  obtain r0 where rot0: "rotated c (taken_liquidity s) (era_rewards s) (block_number s) b 0
      (value_or no_reward (marketing_rewards s w)) = Inr r0"
    and s0: "s0 = s\<lparr>marketing_rewards := (marketing_rewards s)(w \<mapsto> r0)\<rparr>"
    using rot by (rule rotate_reward_Inr)
  have "r0 = r" using r(1) by (simp add: s0)
  then have last: "last_modify r = b" using rotated_era(1) [OF rot0] by simp
  let ?q = "value_or no_reward (marketing_rewards s1 w)"
  have q: "confirmed ?q = 0 \<and> (last_modify ?q = b \<or> pending_vol ?q = 0)"
  proof (cases "v = 0")
    case True
    then show ?thesis using pay r last by simp
  next
    case False
    then obtain s2 where "s1 = s2\<lparr>marketing_rewards := (marketing_rewards s2)
        (w := if 0 < pending_vol r then Some (r\<lparr>confirmed := 0\<rparr>) else None)\<rparr>"
      using pay by auto
    then have "marketing_rewards s1 w = (if 0 < pending_vol r then Some (r\<lparr>confirmed := 0\<rparr>) else None)"
      by simp
    then show ?thesis using last by (simp add: no_reward_def)
  qed
  then have "\<exists>r'. rotated c (taken_liquidity s1) (era_rewards s1) (block_number s1) b 0 ?q = Inr r'
      \<and> confirmed r' = 0"
    by (cases "last_modify ?q = b") (simp_all add: rotated_def)
  then show ?thesis by (auto simp: claim_reward_def b' rotate_reward_def)
qed

theorem claim_reward_once_witness:
  "\<exists>s s1 s2. demo_rewards = Inr s \<and> claim_reward ref_reward_config 7 21 s = Inr (300, s1)
    \<and> claim_reward ref_reward_config 7 29 s1 = Inr (0, s2)"
proof -
  have "case and_then demo_rewards (claim_reward ref_reward_config 7 21) of
      Inl _ \<Rightarrow> False | Inr (v, s) \<Rightarrow> v = 300"
    by code_simp
  then obtain s s1 where s: "demo_rewards = Inr s" and s1: "claim_reward ref_reward_config 7 21 s = Inr (300, s1)"
    by (auto simp: and_then_def split: sum.splits)
  show ?thesis using claim_reward_once [OF s1, of 29] s s1 by (auto simp: ref_reward_config_def)
qed

text \<open>
  The formula of the contribution. When liquidity put at block \<open>b\<close> is taken at block \<open>now\<close>, the
  contribution is the volume times \<open>max 1 (min (now - b) era / zoom)\<close>; it is added to the taken
  liquidity of the era of \<open>now\<close> and to what the maker has pending in that era, and the volume
  to the era's trading volume.
\<close>

theorem consume_liquidity_exact:
  assumes "consume_liquidity c w p vol now s = Inr s'" and "remove_liquidity w p vol s = Inr (b, s1)"
  shows "\<exists>r. let e = now - now mod era_duration c;
      k = max (min (ucast (now - b)) (ucast (era_duration c)) div ucast (time_coefficient_zoom c)) 1;
      before = value_or no_reward (marketing_rewards s w) in
    unat (taken_liquidity s' e) = unat (taken_liquidity s e) + unat (k * vol)
    \<and> unat (trading_volumes s' e) = unat (trading_volumes s e) + unat vol
    \<and> (\<forall>e'. e' \<noteq> e \<longrightarrow> taken_liquidity s' e' = taken_liquidity s e' \<and> trading_volumes s' e' = trading_volumes s e')
    \<and> marketing_rewards s' w = Some r \<and> last_modify r = e
    \<and> unat (pending_vol r) = (if last_modify before = e then unat (pending_vol before) else 0) + unat (k * vol)
    \<and> liquidity_pool s' = liquidity_pool s1"
proof -
  obtain e k taken traded r where e: "era_begin c now = Inr e" and k: "time_coefficient c now b = Inr k"
    and t: "unat taken = unat (taken_liquidity s e) + unat (k * vol)"
      "unat traded = unat (trading_volumes s e) + unat vol"
    and r: "rotated c ((taken_liquidity s)(e := taken)) (era_rewards s) (block_number s) e (k * vol)
      (value_or no_reward (marketing_rewards s w)) = Inr r"
    and s': "s' = s1\<lparr>taken_liquidity := (taken_liquidity s)(e := taken),
                  trading_volumes := (trading_volumes s)(e := traded),
                  marketing_rewards := (marketing_rewards s)(w \<mapsto> r)\<rparr>"
    using assms by (rule consume_liquidity_Inr)
  have "e = now - now mod era_duration c" using e by (simp add: era_begin_def result_simps)
  moreover have "k = max (min (ucast (now - b)) (ucast (era_duration c)) div ucast (time_coefficient_zoom c)) 1"
    using k by (simp add: time_coefficient_def Let_def result_simps)
  moreover have "last_modify r = e \<and> unat (pending_vol r) =
      (if last_modify (value_or no_reward (marketing_rewards s w)) = e
       then unat (pending_vol (value_or no_reward (marketing_rewards s w))) else 0) + unat (k * vol)"
    using rotated_era [OF r] by simp
  ultimately show ?thesis using t by (intro exI [of _ r]) (auto simp: Let_def s')
qed

theorem consume_liquidity_exact_witness:
  "\<exists>s s' s1. s = put_liquidity 7 (1, 2) 30 12 ref_reward_state
    \<and> remove_liquidity 7 (1, 2) 30 s = Inr (12, s1)
    \<and> consume_liquidity ref_reward_config 7 (1, 2) 30 17 s = Inr s'
    \<and> unat (taken_liquidity s' 10) = 60"
proof -
  let ?s = "put_liquidity 7 (1, 2) 30 12 ref_reward_state"
  have "case remove_liquidity 7 (1, 2) 30 ?s of Inl _ \<Rightarrow> False | Inr (b, _) \<Rightarrow> b = 12"
    "case consume_liquidity ref_reward_config 7 (1, 2) 30 17 ?s of Inl _ \<Rightarrow> False | Inr _ \<Rightarrow> True"
    by code_simp+
  then obtain s1 s' where 1: "remove_liquidity 7 (1, 2) 30 ?s = Inr (12, s1)"
    and 2: "consume_liquidity ref_reward_config 7 (1, 2) 30 17 ?s = Inr s'"
    by (auto split: sum.splits)
  show ?thesis
    using consume_liquidity_exact [OF 2 1] 1 2
    by (auto simp: Let_def ref_reward_config_def put_liquidity_def ref_reward_state_def
        token_state.extend_def)
qed

end
