(* ===== verification/Market.thy ===== *)
theory Market
  imports Reward
begin

text \<open>
  \<open>pallets/market/src/lib.rs\<close>: brokers, who stake native tokens to be listed, and the trading
  pairs of each dominator with their status. The stake lies in the pallet's own account
  (\<open>PALLET_ID.try_into_account()\<close>), an account id the configuration gives.
\<close>

section \<open>State and configuration\<close>

datatype market_status = StatusRegistered | StatusOpen | StatusClosed

record broker =
  broker_beneficiary :: account
  broker_staked :: u128
  register_at :: block_number
  rpc_endpoint :: bytes
  broker_name :: bytes

record market =
  min_base :: u128
  base_scale :: u8
  quote_scale :: u8
  status :: market_status
  trading_rewards :: bool
  liquidity_rewards :: bool
  unavailable_after :: "block_number option"

datatype market_event =
    BrokerRegistered account account
  | BrokerDeregistered account
  | MarketRegistered account token_id token_id u8 u8 u128
  | MarketOpened account token_id token_id u8 u8 u128
  | MarketClosed account token_id token_id

record 'n market_state = "'n reward_state" +
  brokers :: "account \<Rightarrow> broker option"
  markets :: "account \<times> symbol \<Rightarrow> market option"
  market_events :: "market_event list"

record 'n market_config =
  market_assets :: "'n token_config"
  broker_staking_threshold :: u128
  market_close_grace_period :: block_number
  market_system_account :: account

definition deposit_market :: "market_event \<Rightarrow> ('n, 'z) market_state_scheme \<Rightarrow> ('n, 'z) market_state_scheme" where
  "deposit_market e s = s\<lparr>market_events := market_events s @ [e]\<rparr>"

section \<open>Brokers\<close>

definition register_broker ::
  "'n market_config \<Rightarrow> origin \<Rightarrow> account \<Rightarrow> bytes \<Rightarrow> bytes \<Rightarrow> ('n, 'z) market_state_scheme
    \<Rightarrow> ('n, 'z) market_state_scheme result" where
  "register_broker c o' bk endpoint name s =
    and_then (ensure_signed o') (\<lambda>payer.
    ensure (length name \<le> 20) (MarketError BrokerNameTooLong) (
    let requires = broker_staking_threshold c in
    and_then (transfer_token (market_assets c) payer (native_id (market_assets c)) requires
        (market_system_account c) s) (\<lambda>s.
    ensure (brokers s bk = None) (MarketError BrokerAlreadyRegistered) (
    let b = \<lparr>broker_beneficiary = payer, broker_staked = requires, register_at = block_number s,
             rpc_endpoint = endpoint, broker_name = name\<rparr> in
    Inr (deposit_market (BrokerRegistered bk payer) (s\<lparr>brokers := (brokers s)(bk \<mapsto> b)\<rparr>))))))"

definition deregister_broker ::
  "'n market_config \<Rightarrow> origin \<Rightarrow> account \<Rightarrow> ('n, 'z) market_state_scheme
    \<Rightarrow> ('n, 'z) market_state_scheme result" where
  "deregister_broker c o' bk s =
    and_then (ensure_signed o') (\<lambda>payer.
    and_then (ok_or (brokers s bk) (MarketError BrokerNotFound)) (\<lambda>b.
    ensure (broker_beneficiary b = payer) (MarketError BrokerNotFound) (
    and_then (transfer_token (market_assets c) (market_system_account c)
        (native_id (market_assets c)) (broker_staked b) (broker_beneficiary b) s) (\<lambda>s.
    Inr (deposit_market (BrokerDeregistered bk) (s\<lparr>brokers := (brokers s)(bk := None)\<rparr>))))))"

definition broker_set_rpc_endpoint ::
  "origin \<Rightarrow> account \<Rightarrow> bytes \<Rightarrow> ('n, 'z) market_state_scheme \<Rightarrow> ('n, 'z) market_state_scheme result" where
  "broker_set_rpc_endpoint o' bk endpoint s =
    and_then (ensure_signed o') (\<lambda>admin.
    case brokers s bk of
      Some b \<Rightarrow>
        if broker_beneficiary b = admin
        then Inr (s\<lparr>brokers := (brokers s)(bk \<mapsto> b\<lparr>rpc_endpoint := endpoint\<rparr>)\<rparr>)
        else Inl (MarketError BrokerNotFound)
    | None \<Rightarrow> Inl (MarketError BrokerNotFound))"

section \<open>The interface \<open>MarketManager\<close>\<close>

definition liquidity_rewards_enabled ::
  "account \<Rightarrow> token_id \<Rightarrow> token_id \<Rightarrow> ('n, 'z) market_state_scheme \<Rightarrow> bool" where
  "liquidity_rewards_enabled dominator base quote s =
    value_or False (map_option liquidity_rewards (markets s (dominator, base, quote)))"

definition trading_rewards_enabled ::
  "account \<Rightarrow> token_id \<Rightarrow> token_id \<Rightarrow> ('n, 'z) market_state_scheme \<Rightarrow> bool" where
  "trading_rewards_enabled dominator base quote s =
    value_or False (map_option trading_rewards (markets s (dominator, base, quote)))"

definition is_market_open ::
  "account \<Rightarrow> token_id \<Rightarrow> token_id \<Rightarrow> block_number \<Rightarrow> ('n, 'z) market_state_scheme \<Rightarrow> bool" where
  "is_market_open dominator base quote at s =
    (case markets s (dominator, base, quote) of
       None \<Rightarrow> False
     | Some p \<Rightarrow>
         (case (status p, unavailable_after p) of
            (StatusOpen, _) \<Rightarrow> True
          | (StatusClosed, Some deadline) \<Rightarrow> at \<le> deadline
          | _ \<Rightarrow> False))"

definition listed_market :: "market_status \<Rightarrow> u8 \<Rightarrow> u8 \<Rightarrow> u128 \<Rightarrow> market" where
  "listed_market st bs qs mb =
    \<lparr>min_base = mb, base_scale = bs, quote_scale = qs, status = st, trading_rewards = True,
     liquidity_rewards = True, unavailable_after = None\<rparr>"

definition register_market ::
  "'n market_config \<Rightarrow> account \<Rightarrow> token_id \<Rightarrow> token_id \<Rightarrow> u8 \<Rightarrow> u8 \<Rightarrow> u128
    \<Rightarrow> ('n, 'z) market_state_scheme \<Rightarrow> ('n, 'z) market_state_scheme result" where
  "register_market c dominator base quote bs qs mb s =
    ensure (is_stable (market_assets c) quote s) (MarketError market_error.UnsupportedQuoteCurrency) (
    ensure (token_exists (market_assets c) base s) (MarketError market_error.TokenNotFound) (
    ensure (bs \<le> 7 \<and> qs \<le> 7) (MarketError MarketScaleOverflow) (
    ensure (case markets s (dominator, base, quote) of
              None \<Rightarrow> True | Some p \<Rightarrow> status p = StatusRegistered) (MarketError MarketCouldntUpdate) (
    Inr (deposit_market (MarketRegistered dominator base quote bs qs mb)
      (s\<lparr>markets := (markets s)((dominator, base, quote) \<mapsto>
           listed_market StatusRegistered bs qs mb)\<rparr>))))))"

definition apply_for_token_listing ::
  "'n market_config \<Rightarrow> origin \<Rightarrow> account \<Rightarrow> token_id \<Rightarrow> token_id \<Rightarrow> u8 \<Rightarrow> u8 \<Rightarrow> u128
    \<Rightarrow> ('n, 'z) market_state_scheme \<Rightarrow> ('n, 'z) market_state_scheme result" where
  "apply_for_token_listing c o' dominator base quote bs qs mb s =
    and_then (ensure_signed o') (\<lambda>_. register_market c dominator base quote bs qs mb s)"

definition open_market ::
  "account \<Rightarrow> token_id \<Rightarrow> token_id \<Rightarrow> u8 \<Rightarrow> u8 \<Rightarrow> u128
    \<Rightarrow> ('n, 'z) market_state_scheme \<Rightarrow> ('n, 'z) market_state_scheme result" where
  "open_market dominator base quote bs qs mb s =
    ensure (markets s (dominator, base, quote) \<noteq> None) (MarketError MarketNotRegistered) (
    ensure (bs \<le> 7 \<and> qs \<le> 7) (MarketError MarketScaleOverflow) (
    Inr (deposit_market (MarketOpened dominator base quote bs qs mb)
      (s\<lparr>markets := (markets s)((dominator, base, quote) \<mapsto> listed_market StatusOpen bs qs mb)\<rparr>))))"

definition close_market ::
  "'n market_config \<Rightarrow> account \<Rightarrow> token_id \<Rightarrow> token_id \<Rightarrow> block_number
    \<Rightarrow> ('n, 'z) market_state_scheme \<Rightarrow> ('n, 'z) market_state_scheme result" where
  "close_market c dominator base quote now s =
    and_then (ok_or (markets s (dominator, base, quote)) (MarketError MarketNotExists)) (\<lambda>p.
    let p = p\<lparr>status := StatusClosed,
              unavailable_after := Some (saturating_add now (market_close_grace_period c))\<rparr> in
    Inr (deposit_market (MarketClosed dominator base quote)
      (s\<lparr>markets := (markets s)((dominator, base, quote) \<mapsto> p)\<rparr>)))"

text \<open>The interface \<open>FeeBeneficiary\<close>.\<close>

definition beneficiary :: "account \<Rightarrow> ('n, 'z) market_state_scheme \<Rightarrow> account" where
  "beneficiary who s = value_or who (map_option broker_beneficiary (brokers s who))"

end
