(* ===== verification/Indicator.thy ===== *)
theory Indicator
  imports Market
begin

text \<open>
  \<open>pallets/indicator/src/lib.rs\<close>: the on-chain price of a token, the last matched volume over the
  last matched amount in units of \<open>10 ^ -18\<close>.
\<close>

record price_info =
  price :: u128
  recent_matched_amount :: u128
  recent_matched_vol :: u128
  updated_at :: block_number

record 'n oracle_state = "'n market_state" +
  prices :: "token_id \<Rightarrow> price_info"

definition QUINTILL :: u128 where "QUINTILL = 1000000000000000000"

definition no_price :: price_info where
  "no_price = \<lparr>price = 0, recent_matched_amount = 0, recent_matched_vol = 0, updated_at = 0\<rparr>"

definition get_price :: "'n token_config \<Rightarrow> token_id \<Rightarrow> ('n, 'z) oracle_state_scheme \<Rightarrow> u128" where
  "get_price c token s = (if is_stable c token s then QUINTILL else price (prices s token))"

definition set_price ::
  "sp_arithmetic \<Rightarrow> token_id \<Rightarrow> u128 \<Rightarrow> u128 \<Rightarrow> block_number
    \<Rightarrow> ('n, 'z) oracle_state_scheme \<Rightarrow> ('n, 'z) oracle_state_scheme" where
  "set_price ar token amount volume at s =
    (if volume \<noteq> 0 \<and> amount \<noteq> 0 then
       s\<lparr>prices := (prices s)(token := (prices s token)
          \<lparr>updated_at := at, recent_matched_amount := amount, recent_matched_vol := volume,
           price := volume div amount * QUINTILL
             + ucast (perquintill_from_rational ar (volume mod amount) amount)\<rparr>)\<rparr>
     else s)"

end
