(* ===== verification/Market_Correct.thy ===== *)
theory Market_Correct
  imports Market Indicator Reward_Correct
begin

text \<open>
  The life of a market: what listing, opening and closing may do to it, until when a closed market
  can still be traded on; and the price the indicator stores.
\<close>

section \<open>Markets\<close>

definition market_ok :: "('n, 'z) market_state_scheme \<Rightarrow> bool" where
  "market_ok s \<longleftrightarrow> (\<forall>k p. markets s k = Some p \<longrightarrow>
    base_scale p \<le> 7 \<and> quote_scale p \<le> 7 \<and> (status p = StatusClosed \<longleftrightarrow> unavailable_after p \<noteq> None))"

inductive market_step ::
  "'n market_config \<Rightarrow> ('n, 'z) market_state_scheme \<Rightarrow> ('n, 'z) market_state_scheme \<Rightarrow> bool"
  for c :: "'n market_config"
  where
    step_register_broker: "register_broker c o' bk ep name s = Inr s' \<Longrightarrow> market_step c s s'"
  | step_deregister_broker: "deregister_broker c o' bk s = Inr s' \<Longrightarrow> market_step c s s'"
  | step_set_endpoint: "broker_set_rpc_endpoint o' bk ep s = Inr s' \<Longrightarrow> market_step c s s'"
  | step_apply: "apply_for_token_listing c o' d base quote bs qs mb s = Inr s' \<Longrightarrow> market_step c s s'"
  | step_register: "register_market c d base quote bs qs mb s = Inr s' \<Longrightarrow> market_step c s s'"
  | step_open: "open_market d base quote bs qs mb s = Inr s' \<Longrightarrow> market_step c s s'"
  | step_close: "close_market c d base quote now s = Inr s' \<Longrightarrow> market_step c s s'"
  | step_outside: "markets s' = markets s \<Longrightarrow> market_step c s s'"

lemma transfer_token_markets: "transfer_token tc a t v b s = Inr s' \<Longrightarrow>
    markets s' = markets s \<and> brokers s' = brokers s \<and> market_events s' = market_events s"
  by (auto simp: transfer_token_def deposit_token_def result_simps Let_def split: if_splits)

lemma broker_ops_markets:
  "register_broker c o' bk ep name s = Inr s' \<Longrightarrow> markets s' = markets s"
  "deregister_broker c o' bk s = Inr s' \<Longrightarrow> markets s' = markets s"
  "broker_set_rpc_endpoint o' bk ep s = Inr s' \<Longrightarrow> markets s' = markets s"
  by (auto simp: register_broker_def deregister_broker_def broker_set_rpc_endpoint_def
      deposit_market_def result_simps Let_def transfer_token_markets split: option.splits if_splits)

lemma register_market_Inr:
  assumes "register_market c d base quote bs qs mb s = Inr s'"
  shows "is_stable (market_assets c) quote s" and "token_exists (market_assets c) base s"
    and "bs \<le> 7" and "qs \<le> 7"
    and "\<And>p. markets s (d, base, quote) = Some p \<Longrightarrow> status p = StatusRegistered"
    and "markets s' = (markets s)((d, base, quote) \<mapsto> listed_market StatusRegistered bs qs mb)"
  using assms by (auto simp: register_market_def deposit_market_def result_simps)

lemma market_ok_upd:
  assumes "market_ok s" and "markets s' = (markets s)(k \<mapsto> p)"
    and "base_scale p \<le> 7" and "quote_scale p \<le> 7"
    and "status p = StatusClosed \<longleftrightarrow> unavailable_after p \<noteq> None"
  shows "market_ok s'"
  using assms by (auto simp: market_ok_def)

lemma market_ok_same: "market_ok s \<Longrightarrow> markets s' = markets s \<Longrightarrow> market_ok s'"
  by (simp add: market_ok_def)

lemma register_market_ok:
  "market_ok s \<Longrightarrow> register_market c d base quote bs qs mb s = Inr s' \<Longrightarrow> market_ok s'"
  by (rule market_ok_upd [OF _ register_market_Inr(6)])
    (auto simp: listed_market_def dest: register_market_Inr(3,4))

lemma market_step_ok:
  assumes ok: "market_ok s" and step: "market_step c s s'"
  shows "market_ok s'"
  using step
proof cases
  case step_apply
  then show ?thesis using ok register_market_ok
    by (auto simp: apply_for_token_listing_def result_simps)
next
  case (step_open d base quote bs qs mb)
  then show ?thesis
    by (intro market_ok_upd [OF ok, of _ "(d, base, quote)" "listed_market StatusOpen bs qs mb"])
      (auto simp: open_market_def deposit_market_def result_simps listed_market_def)
next
  case (step_close d base quote now)
  then obtain p where "markets s (d, base, quote) = Some p"
    and "markets s' = (markets s)((d, base, quote) \<mapsto> p\<lparr>status := StatusClosed,
        unavailable_after := Some (saturating_add now (market_close_grace_period c))\<rparr>)"
    by (auto simp: close_market_def deposit_market_def result_simps Let_def)
  then show ?thesis using ok by (intro market_ok_upd [OF ok]) (auto simp: market_ok_def)
qed (use ok register_market_ok in \<open>auto intro: market_ok_same broker_ops_markets\<close>)

interpretation market_system:
  invariant_system "\<lambda>s. markets s = (\<lambda>_. None)" "market_step c" market_ok for c
  by unfold_locales (simp add: market_ok_def, rule market_step_ok)

definition ref_market_config :: "ref_native market_config" where
  "ref_market_config =
    \<lparr>market_assets = ref_token_config, broker_staking_threshold = 50, market_close_grace_period = 14400,
     market_system_account = 99\<rparr>"

definition ref_market_state :: "ref_native market_state" where
  "ref_market_state =
    reward_state.extend (ref_reward_state\<lparr>tokens := [1 \<mapsto> NEP141 [85, 83, 68] [117] 0 True 6]\<rparr>)
      \<lparr>brokers = (\<lambda>_. None), markets = (\<lambda>_. None), market_events = []\<rparr>"

text \<open>List the pair of the native token against a stable coin, open it, close it in block 100.\<close>

definition demo_market :: "(ref_native market_state) result" where
  "demo_market =
    and_then (apply_for_token_listing ref_market_config (SignedOrigin 3) 5 0 1 4 2 1000 ref_market_state)
      (open_market 5 0 1 3 2 1000)"

text \<open>
  C38. Every market of every reachable state has scales of at most 7 decimals, and a deadline exactly
  if it is closed; a pair that was never listed for a dominator cannot be traded on with it.
\<close>

theorem market_wellformed:
  assumes "reachable (\<lambda>s. markets s = (\<lambda>_. None)) (market_step c) s"
  shows "case markets s (d, base, quote) of
      None \<Rightarrow> \<not> is_market_open d base quote at s
    | Some p \<Rightarrow> base_scale p \<le> 7 \<and> quote_scale p \<le> 7
        \<and> (status p = StatusClosed \<longleftrightarrow> unavailable_after p \<noteq> None)
        \<and> (is_market_open d base quote at s \<longleftrightarrow>
            status p = StatusOpen \<or> (\<exists>deadline. unavailable_after p = Some deadline \<and> at \<le> deadline))"
proof (cases "markets s (d, base, quote)")
  case None
  then show ?thesis by (simp add: is_market_open_def)
next
  case (Some p)
  have "market_ok s" using assms by (rule market_system.inv_reachable)
  then have "base_scale p \<le> 7 \<and> quote_scale p \<le> 7 \<and> (status p = StatusClosed \<longleftrightarrow> unavailable_after p \<noteq> None)"
    using Some by (simp only: market_ok_def)
  then show ?thesis
    using Some by (cases "status p") (auto simp: is_market_open_def split: option.splits)
qed

theorem market_wellformed_witness:
  "\<exists>s. demo_market = Inr s \<and> is_market_open 5 0 1 77 s"
proof -
  obtain s1 s where s1: "apply_for_token_listing ref_market_config (SignedOrigin 3) 5 0 1 4 2 1000 ref_market_state = Inr s1"
    and s: "open_market 5 0 1 3 2 1000 s1 = Inr s"
    by (auto simp: demo_market_def apply_for_token_listing_def ensure_signed_def register_market_def
        open_market_def is_stable_def token_exists_def ref_market_state_def ref_market_config_def
        reward_state.extend_def deposit_market_def)
  let ?R = "reachable (\<lambda>s :: ref_native market_state. markets s = (\<lambda>_. None)) (market_step ref_market_config)"
  have "?R ref_market_state" by (rule reachable_init) (simp add: ref_market_state_def reward_state.extend_def)
  then have "?R s1" using step_apply [OF s1] by (rule reachable_step)
  then have R: "?R s" using step_open [OF s] by (rule reachable_step)
  have p: "markets s (5, 0, 1) = Some (listed_market StatusOpen 3 2 1000)"
    using s by (auto simp: open_market_def deposit_market_def result_simps)
  show ?thesis
    using market_wellformed [OF R, of 5 0 1 77] s1 s by (simp add: p demo_market_def listed_market_def)
qed

text \<open>
  Anyone may apply for a listing, and that is harmless for running markets: a successful
  application leaves every market that is open or closed as it was, and the pair it lists, a stable
  quote against an existing base, cannot be traded until the dominator opens it.
\<close>

theorem listing_keeps_running_markets:
  assumes "apply_for_token_listing c o' d base quote bs qs mb s = Inr s'"
  shows "(\<forall>k p. markets s k = Some p \<and> status p \<noteq> StatusRegistered \<longrightarrow> markets s' k = Some p)
    \<and> \<not> is_market_open d base quote at s'
    \<and> is_stable (market_assets c) quote s \<and> token_exists (market_assets c) base s"
proof -
  have run: "register_market c d base quote bs qs mb s = Inr s'"
    using assms by (auto simp: apply_for_token_listing_def result_simps)
  note parts = register_market_Inr [OF run]
  show ?thesis
    using parts(1,2,5) by (auto simp: parts(6) is_market_open_def listed_market_def)
qed

theorem listing_keeps_running_markets_witness:
  "\<exists>s'. apply_for_token_listing ref_market_config (SignedOrigin 3) 5 0 1 4 2 1000 ref_market_state = Inr s'
    \<and> \<not> is_market_open 5 0 1 1 s'"
proof -
  obtain s' where s': "apply_for_token_listing ref_market_config (SignedOrigin 3) 5 0 1 4 2 1000 ref_market_state = Inr s'"
    by (auto simp: apply_for_token_listing_def ensure_signed_def register_market_def is_stable_def
        token_exists_def ref_market_state_def ref_market_config_def reward_state.extend_def)
  then show ?thesis using listing_keeps_running_markets by blast
qed

section \<open>Prices\<close>

text \<open>What the code relies on: a ratio of at most one in \<open>10 ^ -18\<close> parts, rounded down. For
  denominators of more than 64 bits the library rounds first, so the law stops there.\<close>

definition exact_ratios :: "sp_arithmetic \<Rightarrow> bool" where
  "exact_ratios ar \<longleftrightarrow> (\<forall>p q. p \<le> q \<and> 0 < q \<and> unat q < 2 ^ 64 \<longrightarrow>
    unat (perquintill_from_rational ar p q) = unat p * 10 ^ 18 div unat q)"

text \<open>
  The price of a token after a match is the matched volume over the matched amount in units of
  \<open>10 ^ -18\<close>, rounded down; a match with a zero amount or volume changes nothing.
\<close>

theorem set_price_exact:
  assumes "exact_ratios ar" and "unat amount < 2 ^ 64" and "unat volume * 10 ^ 18 div unat amount < 2 ^ 128"
  shows "if amount = 0 \<or> volume = 0 then set_price ar t amount volume at s = s
    else unat (price (prices (set_price ar t amount volume at s) t)) = unat volume * 10 ^ 18 div unat amount
      \<and> (\<forall>u. u \<noteq> t \<longrightarrow> prices (set_price ar t amount volume at s) u = prices s u)"
proof (cases "amount = 0 \<or> volume = 0")
  case True
  then show ?thesis by (auto simp: set_price_def)
next
  case False
  let ?q = "perquintill_from_rational ar (volume mod amount) amount"
  have pos: "0 < unat amount" using False by (simp add: unat_gt_0)
  have "volume mod amount \<le> amount"
    using pos mod_less_divisor [of "unat amount" "unat volume"]
    by (simp add: word_le_nat_alt unat_mod less_imp_le)
  moreover have "0 < amount" using False by (simp add: word_gt_0)
  ultimately have q: "unat ?q = unat (volume mod amount) * 10 ^ 18 div unat amount"
    using assms(1,2) by (simp add: exact_ratios_def)
  have "unat ?q < 2 ^ LENGTH(64)" by (rule unsigned_less)
  then have u: "unat (ucast ?q :: u128) = unat ?q"
    by (simp add: unsigned_ucast_eq take_bit_nat_eq_self)
  define V where "V = unat volume"
  define A where "A = unat amount"
  have split: "V * 10 ^ 18 div A = V div A * 10 ^ 18 + (V mod A) * 10 ^ 18 div A"
  proof -
    have "V * 10 ^ 18 = V div A * 10 ^ 18 * A + V mod A * 10 ^ 18"
      by (metis add_mult_distrib div_mult_mod_eq mult.assoc mult.commute)
    then show ?thesis using pos by (simp add: A_def)
  qed
  have fits: "V div A * 10 ^ 18 + V mod A * 10 ^ 18 div A < 2 ^ 128"
    using assms(3) unfolding V_def [symmetric] A_def [symmetric] split .
  have "unat (volume div amount * QUINTILL) = V div A * 10 ^ 18"
    using fits by (simp add: unat_mult_lem [THEN iffD1] unat_div QUINTILL_def V_def A_def)
  moreover have "unat (ucast ?q :: u128) = V mod A * 10 ^ 18 div A"
    by (simp add: u q unat_mod V_def A_def)
  ultimately have "unat (volume div amount * QUINTILL + ucast ?q) = V * 10 ^ 18 div A"
    unfolding split using fits by (simp add: unat_add_fits)
  then show ?thesis using False by (simp add: set_price_def V_def A_def)
qed

lemma ref_arithmetic_exact: "exact_ratios ref_arithmetic"
  unfolding exact_ratios_def
proof (intro allI impI)
  fix p q :: u128
  assume pq: "p \<le> q \<and> 0 < q \<and> unat q < 2 ^ 64"
  then have le: "unat p \<le> unat q" and pos: "0 < unat q" and min: "min p q = p"
    by (simp_all add: word_le_nat_alt word_less_nat_alt min_def)
  have "unat p * 10 ^ 18 div unat q \<le> unat q * 10 ^ 18 div unat q"
    using le by (intro div_le_mono mult_le_mono1)
  also have "\<dots> = 10 ^ 18" using pos by simp
  finally have small: "unat p * 10 ^ 18 div unat q < 2 ^ 64" by simp
  have "uint (min p q) * 1000000000000000000 div uint q = int (unat p * 10 ^ 18 div unat q)"
    by (simp only: min uint_nat zdiv_int of_nat_mult of_nat_power of_nat_numeral) simp
  then have "perquintill_from_rational ref_arithmetic p q = word_of_nat (unat p * 10 ^ 18 div unat q)"
    by (simp add: ref_arithmetic_def)
  then show "unat (perquintill_from_rational ref_arithmetic p q) = unat p * 10 ^ 18 div unat q"
    using small by (simp add: unat_of_nat)
qed

theorem set_price_exact_witness:
  "unat (price (prices (set_price ref_arithmetic 3 8 20 5
      (market_state.extend ref_market_state \<lparr>prices = (\<lambda>_. no_price)\<rparr>)) 3)) = 2500000000000000000"
  using set_price_exact [OF ref_arithmetic_exact, of 8 20 3 5
      "market_state.extend ref_market_state \<lparr>prices = (\<lambda>_. no_price)\<rparr>"]
  by simp

end
