(* ===== verification/Asset_Interface.thy ===== *)
theory Asset_Interface
  imports External_Chain
begin

text \<open>
  The interface \<open>ReservableToken\<close> of \<open>pallets/fuso-support/src/traits.rs\<close> as its clients use it: a
  record of the operations over a storage \<open>'w\<close> the client does not look into, and a locale with
  the laws a client relies on. A law speaks about the tokens of a set \<open>good\<close>: those whose ledger
  the provider answers for.

  \<open>reserved\<close> and \<open>free\<close> observe the balances. A reserve moves the amount from free to
  reserved, an \<open>unreserve\<close> back; \<open>try_mutate_account\<close> writes the pair the closure returns; each
  leaves the balances of every other account and token.
\<close>

record 'w asset =
  as_native_token_id :: token_id
  as_is_stable :: "token_id \<Rightarrow> 'w \<Rightarrow> bool"
  as_free :: "token_id \<Rightarrow> account \<Rightarrow> 'w \<Rightarrow> u128"
  as_reserved :: "token_id \<Rightarrow> account \<Rightarrow> 'w \<Rightarrow> u128"
  as_can_reserve :: "token_id \<Rightarrow> account \<Rightarrow> u128 \<Rightarrow> 'w \<Rightarrow> bool"
  as_reserve :: "token_id \<Rightarrow> account \<Rightarrow> u128 \<Rightarrow> 'w \<Rightarrow> 'w result"
  as_unreserve :: "token_id \<Rightarrow> account \<Rightarrow> u128 \<Rightarrow> 'w \<Rightarrow> 'w result"
  as_try_mutate_account ::
    "token_id \<Rightarrow> account \<Rightarrow> (u128 \<times> u128 \<Rightarrow> (u128 \<times> u128) result) \<Rightarrow> 'w \<Rightarrow> 'w result"

text \<open>Two storages that agree on every reserved balance in a good token, or on all but those of one
  account in one token.\<close>

definition same_reserved :: "'w asset \<Rightarrow> (token_id \<Rightarrow> bool) \<Rightarrow> 'w \<Rightarrow> 'w \<Rightarrow> bool" where
  "same_reserved A good w w' \<longleftrightarrow> (\<forall>t a. good t \<longrightarrow> as_reserved A t a w' = as_reserved A t a w)"

definition same_reserved_but ::
  "'w asset \<Rightarrow> (token_id \<Rightarrow> bool) \<Rightarrow> token_id \<Rightarrow> account \<Rightarrow> 'w \<Rightarrow> 'w \<Rightarrow> bool" where
  "same_reserved_but A good t a w w' \<longleftrightarrow>
    (\<forall>u b. good u \<and> (u, b) \<noteq> (t, a) \<longrightarrow> as_reserved A u b w' = as_reserved A u b w)"

lemma same_reserved_refl [simp]: "same_reserved A good w w"
  by (simp add: same_reserved_def)

lemma same_reserved_trans:
  "same_reserved A good w w' \<Longrightarrow> same_reserved A good w' w'' \<Longrightarrow> same_reserved A good w w''"
  by (simp add: same_reserved_def)

lemma same_reservedD:
  "same_reserved A good w w' \<Longrightarrow> good t \<Longrightarrow> as_reserved A t a w' = as_reserved A t a w"
  by (simp add: same_reserved_def)

lemma same_reserved_butD:
  "same_reserved_but A good t a w w' \<Longrightarrow> good u \<Longrightarrow> (u, b) \<noteq> (t, a)
    \<Longrightarrow> as_reserved A u b w' = as_reserved A u b w"
  by (simp add: same_reserved_but_def)

locale reservable_asset =
  fixes A :: "'w asset" and good :: "token_id \<Rightarrow> bool"
  assumes reserve_frame: "as_reserve A t a v w = Inr w' \<Longrightarrow> same_reserved_but A good t a w w'"
    and reserve_effect: "as_reserve A t a v w = Inr w' \<Longrightarrow> good t \<Longrightarrow>
      unat (as_reserved A t a w') = unat (as_reserved A t a w) + unat v"
    and unreserve_frame: "as_unreserve A t a v w = Inr w' \<Longrightarrow> same_reserved_but A good t a w w'"
    and unreserve_effect: "as_unreserve A t a v w = Inr w' \<Longrightarrow> good t \<Longrightarrow>
      unat (as_reserved A t a w) = unat (as_reserved A t a w') + unat v"
    and mutate_frame: "as_try_mutate_account A t a f w = Inr w' \<Longrightarrow> same_reserved_but A good t a w w'"
    and mutate_effect: "as_try_mutate_account A t a f w = Inr w' \<Longrightarrow> good t \<Longrightarrow>
      \<exists>fr p. f (fr, as_reserved A t a w) = Inr (p, as_reserved A t a w')"
begin

text \<open>A closure that leaves the reserved part, as those that pay fees and shares, changes no
  reserved balance at all.\<close>

lemma pay_free:
  assumes "as_try_mutate_account A t a (\<lambda>(x, y). Inr (x + v, y)) w = Inr w'"
  shows "same_reserved A good w w'"
  unfolding same_reserved_def
proof (intro allI impI)
  fix u b
  assume "good u"
  show "as_reserved A u b w' = as_reserved A u b w"
  proof (cases "(u, b) = (t, a)")
    case True
    then show ?thesis using mutate_effect [OF assms] \<open>good u\<close> by auto
  next
    case False
    then show ?thesis using mutate_frame [OF assms] \<open>good u\<close> by (rule same_reserved_butD [rotated 2])
  qed
qed

end

end
