(* ===== verification/Verifier_State.thy ===== *)
theory Verifier_State
  imports Asset_Interface "HOL-Library.AList"
begin

text \<open>
  \<open>pallets/verifier/src/lib.rs\<close>, data: proofs and commands, the storage of the pallet, and its
  configuration.

  The pallet is generic in the traits of its \<open>Config\<close>; so is the model. \<open>'w\<close> is the storage of the
  other pallets, reached only through the functions of \<open>verifier_config\<close>: the asset ledger, the
  rewards, the price indicator, the market manager and the system. \<open>'cb\<close> is the type of callbacks.
  The Merkle tree check, the hash, the signature check, decompression and decoding are outside
  this repository and are fields too.

  \<open>Dominators\<close> and the entries of \<open>PendingUnstakings\<close> in one block are iterated, so they are
  association lists. A \<open>BTreeMap\<close> is an association list in key order, changed by \<open>bt_upsert\<close>.
\<close>

section \<open>Ordered maps\<close>

text \<open>\<open>entry(k).and_modify(f).or_insert(d)\<close>\<close>

fun bt_upsert :: "('v \<Rightarrow> 'v) \<Rightarrow> 'v \<Rightarrow> 'k::linorder \<Rightarrow> ('k \<times> 'v) list \<Rightarrow> ('k \<times> 'v) list" where
  "bt_upsert f d k [] = [(k, d)]"
| "bt_upsert f d k ((j, v) # xs) =
    (if k < j then (k, d) # (j, v) # xs
     else if k = j then (j, f v) # xs
     else (j, v) # bt_upsert f d k xs)"

lemma set_bt_upsert: "fst ` set (bt_upsert f d k xs) = insert k (fst ` set xs)"
  by (induction f d k xs rule: bt_upsert.induct) (simp_all add: insert_commute)

lemma sorted_bt_upsert:
  "sorted_wrt (<) (List.map fst xs) \<Longrightarrow> sorted_wrt (<) (List.map fst (bt_upsert f d k xs))"
proof (induction xs)
  case (Cons p xs)
  obtain j v where p: "p = (j, v)" by (cases p)
  have "fst ` set (bt_upsert f d k xs) = insert k (fst ` set xs)" by (rule set_bt_upsert)
  then have "x \<in> set (bt_upsert f d k xs) \<Longrightarrow> fst x = k \<or> fst x \<in> fst ` set xs" for x by blast
  then show ?case using Cons p by (fastforce simp: not_less)
qed simp

lemma map_of_bt_upsert:
  "sorted_wrt (<) (List.map fst xs) \<Longrightarrow> map_of (bt_upsert f d k xs)
    = (map_of xs)(k \<mapsto> (case map_of xs k of None \<Rightarrow> d | Some v \<Rightarrow> f v))"
proof (induction xs)
  case (Cons p xs)
  obtain j v where p: "p = (j, v)" by (cases p)
  have "k < j \<Longrightarrow> map_of xs k = None"
    using Cons.prems p by (force simp: map_of_eq_None_iff)
  then show ?case using Cons p by (auto simp: fun_eq_iff)
qed simp

section \<open>Proofs and commands\<close>

type_synonym season = u32
type_synonym merkle_hash = bytes

record merkle_leaf =
  leaf_key :: bytes
  old_v :: merkle_hash
  new_v :: merkle_hash

datatype command =
    AskLimitV1 u128 u128 u32 u32 u32 u32
  | BidLimitV1 u128 u128 u32 u32 u32 u32
  | CancelV1 u32 u32
  | TransferOutV1 u32 u128
  | TransferInV1 u32 u128
  | RejectTransferOutV1 u32 u128
  | RejectTransferInV1

text \<open>Price, amount, maker fee, taker fee, base, quote, broker.\<close>

datatype command_v2 =
    AskLimit u128 u128 u32 u32 u32 u32 "account option"
  | BidLimit u128 u128 u32 u32 u32 u32 "account option"
  | Cancel u32 u32
  | TransferOut u32 u128
  | TransferIn u32 u128
  | RejectTransferOut u32 u128
  | RejectTransferIn

fun command_v2_from :: "command \<Rightarrow> command_v2" where
  "command_v2_from (AskLimitV1 p a mf tf b q) = AskLimit p a mf tf b q None"
| "command_v2_from (BidLimitV1 p a mf tf b q) = BidLimit p a mf tf b q None"
| "command_v2_from (CancelV1 b q) = Cancel b q"
| "command_v2_from (TransferOutV1 cy a) = TransferOut cy a"
| "command_v2_from (TransferInV1 cy a) = TransferIn cy a"
| "command_v2_from (RejectTransferOutV1 cy a) = RejectTransferOut cy a"
| "command_v2_from RejectTransferInV1 = RejectTransferIn"

record 'cmd proof_of =
  event_id :: u64
  user_id :: account
  cmd :: 'cmd
  leaves :: "merkle_leaf list"
  maker_page_delta :: u8
  maker_account_delta :: u8
  merkle_proof :: bytes
  proof_root :: merkle_hash

type_synonym proof_v1 = "command proof_of"
type_synonym proof_v2 = "command_v2 proof_of"

definition proof_v2_from :: "proof_v1 \<Rightarrow> proof_v2" where
  "proof_v2_from p =
    \<lparr>event_id = event_id p, user_id = user_id p, cmd = command_v2_from (cmd p), leaves = leaves p,
     maker_page_delta = maker_page_delta p, maker_account_delta = maker_account_delta p,
     merkle_proof = merkle_proof p, proof_root = proof_root p\<rparr>"

section \<open>Storage\<close>

datatype 'cb receipt =
    Authorize token_id u128 block_number
  | Revoke token_id u128 block_number
  | RevokeWithCallback token_id u128 block_number 'cb

record dominator =
  dom_name :: bytes
  dom_staked :: u128
  merkle_root :: merkle_hash
  dom_start :: block_number
  dom_sequence :: "u64 \<times> block_number"
  dom_status :: u8

record staking =
  from_season :: season
  staking_amount :: u128

record bonus =
  bonus_staked :: u128
  bonus_profit :: "(token_id \<times> u128) list"

record dominator_setting =
  set_beneficiary :: "account option"
  x25519_pubkey :: bytes
  set_rpc_endpoint :: bytes

datatype verifier_event =
    DominatorClaimed account
  | TokenHosted account account token_id u128
  | TokenRevoked account account token_id u128
  | TaoStaked account account u128
  | TaoUnstaked account account u128
  | TaoUnstakeUnlock account u128
  | DominatorOnlineEvent account
  | DominatorOfflineEvent account
  | DominatorEvictedEvent account
  | DominatorInactiveEvent account
  | DominatorX25519KeyUpdated account bytes
  | DominatorRpcEndpointUpdated account bytes

type_synonym reserve_key = "(u8 \<times> account \<times> token_id) \<times> account"

record ('w, 'cb) verifier_state =
  receipts :: "account \<times> account \<Rightarrow> 'cb receipt option"
  dominators :: "(account \<times> dominator) list"
  dominator_settings :: "account \<Rightarrow> dominator_setting option"
  reserves :: "reserve_key \<Rightarrow> u128 option"
  bonuses :: "account \<times> season \<Rightarrow> bonus"
  stakings :: "account \<times> account \<Rightarrow> staking option"
  pending_unstakings :: "block_number \<Rightarrow> (account \<times> u128) list"
  verifier_events :: "verifier_event list"
  world :: 'w

text \<open>The traits \<open>Rewarding\<close>, \<open>PriceOracle\<close>, \<open>MarketManager\<close>, \<open>FeeBeneficiary\<close> and the system.\<close>

record 'w verifier_env =
  env_consume_liquidity :: "account \<Rightarrow> token_id \<times> token_id \<Rightarrow> u128 \<Rightarrow> block_number \<Rightarrow> 'w \<Rightarrow> 'w result"
  env_put_liquidity :: "account \<Rightarrow> token_id \<times> token_id \<Rightarrow> u128 \<Rightarrow> block_number \<Rightarrow> 'w \<Rightarrow> 'w"
  env_remove_liquidity :: "account \<Rightarrow> token_id \<times> token_id \<Rightarrow> u128 \<Rightarrow> 'w \<Rightarrow> (block_number \<times> 'w) result"
  env_set_price :: "token_id \<Rightarrow> u128 \<Rightarrow> u128 \<Rightarrow> block_number \<Rightarrow> 'w \<Rightarrow> 'w"
  env_open_market :: "account \<Rightarrow> token_id \<Rightarrow> token_id \<Rightarrow> u8 \<Rightarrow> u8 \<Rightarrow> u128 \<Rightarrow> 'w \<Rightarrow> 'w result"
  env_broker_beneficiary :: "account \<Rightarrow> 'w \<Rightarrow> account"
  env_block_number :: "'w \<Rightarrow> block_number"
  env_account_nonce :: "account \<Rightarrow> 'w \<Rightarrow> u32"
  env_inc_account_nonce :: "account \<Rightarrow> 'w \<Rightarrow> 'w"

record verifier_params =
  dominator_online_threshold :: u128
  season_duration :: block_number
  dominator_check_grace_period :: block_number
  minimal_staking_amount :: u128
  max_maker_fee :: u32
  max_taker_fee :: u32
  verifier_system_account :: account

text \<open>Libraries: the hash, the sparse Merkle tree, signatures, compression and decoding.\<close>

record verifier_libs =
  lib_arithmetic :: sp_arithmetic
  lib_lookup :: "nat \<Rightarrow> account result"
  lib_ascii_valid :: "bytes \<Rightarrow> bool"
  lib_hashing :: "bytes \<Rightarrow> bytes"
  lib_smt_verify :: "bytes \<Rightarrow> merkle_hash \<Rightarrow> (bytes \<times> merkle_hash) list \<Rightarrow> bool option"
  lib_decode_account :: "bytes \<Rightarrow> account option"
  lib_beneficiary_signed :: "bytes \<Rightarrow> u32 \<Rightarrow> account \<Rightarrow> account \<Rightarrow> bool"
  lib_uncompressed_size :: "bytes \<Rightarrow> (nat \<times> bytes) option"
  lib_decompress :: "bytes \<Rightarrow> nat \<Rightarrow> bytes option"
  lib_decode_proofs :: "bytes \<Rightarrow> (proof_v1 list) option"
  lib_decode_proofs_v2 :: "bytes \<Rightarrow> (proof_v2 list) option"

record ('w, 'cb) verifier_config =
  vc_asset :: "'w asset"
  vc_env :: "'w verifier_env"
  vc_params :: verifier_params
  vc_libs :: verifier_libs
  vc_dispatch :: "'cb \<Rightarrow> account \<Rightarrow> ('w, 'cb) verifier_state \<Rightarrow> ('w, 'cb) verifier_state result"

abbreviation verr :: "verifier_error \<Rightarrow> dispatch_error" where
  "verr \<equiv> VerifierError"

definition UNSTAKE_DELAY_BLOCKS :: u32 where "UNSTAKE_DELAY_BLOCKS = 14400 * 4"
definition MAX_PROOF_SIZE :: nat where "MAX_PROOF_SIZE = 10485760"

definition no_staking :: staking where
  "no_staking = \<lparr>from_season = 0, staking_amount = 0\<rparr>"

definition no_bonus :: bonus where
  "no_bonus = \<lparr>bonus_staked = 0, bonus_profit = []\<rparr>"

definition deposit_verifier :: "verifier_event \<Rightarrow> ('w, 'cb) verifier_state \<Rightarrow> ('w, 'cb) verifier_state" where
  "deposit_verifier e s = s\<lparr>verifier_events := verifier_events s @ [e]\<rparr>"

definition get_dominator :: "account \<Rightarrow> ('w, 'cb) verifier_state \<Rightarrow> dominator option" where
  "get_dominator d s = map_of (dominators s) d"

definition put_dominator :: "account \<Rightarrow> dominator \<Rightarrow> ('w, 'cb) verifier_state \<Rightarrow> ('w, 'cb) verifier_state" where
  "put_dominator d x s = s\<lparr>dominators := AList.update d x (dominators s)\<rparr>"

text \<open>A call into the storage of the other pallets.\<close>

definition on_world :: "('w \<Rightarrow> 'w result) \<Rightarrow> ('w, 'cb) verifier_state \<Rightarrow> ('w, 'cb) verifier_state result" where
  "on_world f s = and_then (f (world s)) (\<lambda>w. Inr (s\<lparr>world := w\<rparr>))"

definition current_block :: "('w, 'cb) verifier_config \<Rightarrow> ('w, 'cb) verifier_state \<Rightarrow> block_number" where
  "current_block c s = env_block_number (vc_env c) (world s)"

definition native_token_id :: "('w, 'cb) verifier_config \<Rightarrow> token_id" where
  "native_token_id c = as_native_token_id (vc_asset c)"

definition get_reserve :: "reserve_key \<Rightarrow> ('w, 'cb) verifier_state \<Rightarrow> u128" where
  "get_reserve k s = value_or 0 (reserves s k)"

lemma get_dominator_put [simp]:
  "get_dominator e (put_dominator d x s) = (if e = d then Some x else get_dominator e s)"
  by (simp add: get_dominator_def put_dominator_def update_conv')

lemma on_world_Inr [result_simps]:
  "on_world f s = Inr s' \<longleftrightarrow> (\<exists>w. f (world s) = Inr w \<and> s' = s\<lparr>world := w\<rparr>)"
  by (auto simp: on_world_def result_simps)

lemma put_dominator_simps [simp]:
  "receipts (put_dominator d x s) = receipts s" "reserves (put_dominator d x s) = reserves s"
  "stakings (put_dominator d x s) = stakings s" "bonuses (put_dominator d x s) = bonuses s"
  "pending_unstakings (put_dominator d x s) = pending_unstakings s"
  "world (put_dominator d x s) = world s"
  "dominator_settings (put_dominator d x s) = dominator_settings s"
  by (simp_all add: put_dominator_def)

lemma deposit_verifier_simps [simp]:
  "receipts (deposit_verifier e s) = receipts s" "reserves (deposit_verifier e s) = reserves s"
  "stakings (deposit_verifier e s) = stakings s" "bonuses (deposit_verifier e s) = bonuses s"
  "pending_unstakings (deposit_verifier e s) = pending_unstakings s"
  "world (deposit_verifier e s) = world s" "dominators (deposit_verifier e s) = dominators s"
  "dominator_settings (deposit_verifier e s) = dominator_settings s"
  "get_dominator d (deposit_verifier e s) = get_dominator d s"
  by (simp_all add: deposit_verifier_def get_dominator_def)

end
