(* ===== verification/Bridge.thy ===== *)
theory Bridge
  imports Indicator Verifier_State
begin

text \<open>
  \<open>pallets/chainbridge/src/lib.rs\<close>: relayers vote on proposals, calls that another chain asks for. A
  proposal is identified by its source chain, its deposit nonce and the call itself. Enough votes in
  favour run the call with the pallet's own account as the origin; too many against reject it.
  Transfers out of the chain only count a nonce up and leave an event for the relayers.

  Operations on the pallet's own storage work on the storage \<open>'w\<close> of the ledgers, which the pallet
  extends. Those that may run a proposal work on the whole storage and take the dispatch of calls as
  an argument: what a proposal does is up to the other pallets.
\<close>

section \<open>Proposals\<close>

datatype proposal_status = Initiated | Approved | Rejected

record proposal_votes =
  votes_for :: "account list"
  votes_against :: "account list"
  pv_status :: proposal_status
  expiry :: block_number

definition fresh_votes :: proposal_votes where
  "fresh_votes = \<lparr>votes_for = [], votes_against = [], pv_status = Initiated, expiry = 0\<rparr>"

definition try_to_complete ::
  "u32 \<Rightarrow> u32 \<Rightarrow> proposal_votes \<Rightarrow> proposal_status \<times> proposal_votes" where
  "try_to_complete threshold relayer_total v =
    (if unat threshold \<le> length (votes_for v) then (Approved, v\<lparr>pv_status := Approved\<rparr>)
     else if threshold \<le> relayer_total
         \<and> relayer_total < word_of_nat (length (votes_against v)) + threshold
     then (Rejected, v\<lparr>pv_status := Rejected\<rparr>)
     else (Initiated, v))"

definition is_complete :: "proposal_votes \<Rightarrow> bool" where
  "is_complete v \<longleftrightarrow> pv_status v \<noteq> Initiated"

definition hash_voted :: "account \<Rightarrow> proposal_votes \<Rightarrow> bool" where
  "hash_voted who v \<longleftrightarrow> who \<in> set (votes_for v) \<or> who \<in> set (votes_against v)"

definition is_expired :: "block_number \<Rightarrow> proposal_votes \<Rightarrow> bool" where
  "is_expired now v \<longleftrightarrow> expiry v \<le> now"

section \<open>Storage\<close>

type_synonym u256 = "256 word"

datatype bridge_event =
    RelayerThresholdChanged u32
  | ChainWhitelisted chain_id
  | RelayerAdded account
  | RelayerRemoved account
  | FungibleTransfer chain_id u64 resource_id u256 bytes
  | NonFungibleTransfer chain_id u64 resource_id bytes bytes bytes
  | GenericTransfer chain_id u64 resource_id bytes
  | VoteFor chain_id u64 account
  | VoteAgainst chain_id u64 account
  | ProposalApproved chain_id u64
  | ProposalRejected chain_id u64
  | ProposalSucceeded chain_id u64
  | ProposalFailed chain_id u64
  | ProposalVote chain_id bytes u64

type_synonym 'p proposal_key = "chain_id \<times> u64 \<times> 'p"

record ('n, 'p) bridge_state = "'n oracle_state" +
  chain_nonces :: "chain_id \<Rightarrow> u64 option"
  relayer_threshold :: u32
  relayers :: "account \<Rightarrow> bool"
  relayer_count :: u32
  votes :: "'p proposal_key \<Rightarrow> proposal_votes option"
  resources :: "resource_id \<Rightarrow> bytes option"
  bridge_events :: "bridge_event list"

record bridge_config =
  br_admin_origin :: "origin \<Rightarrow> bool"
  br_chain_id :: chain_id
  br_proposal_lifetime :: block_number
  br_native_resource_id :: resource_id
  br_account :: account
  br_treasury :: account

definition DEFAULT_RELAYER_THRESHOLD :: u32 where "DEFAULT_RELAYER_THRESHOLD = 1"

definition deposit_bridge ::
  "bridge_event \<Rightarrow> ('n, 'p, 'z) bridge_state_scheme \<Rightarrow> ('n, 'p, 'z) bridge_state_scheme" where
  "deposit_bridge e w = w\<lparr>bridge_events := bridge_events w @ [e]\<rparr>"

definition put_votes ::
  "'p proposal_key \<Rightarrow> proposal_votes \<Rightarrow> ('n, 'p, 'z) bridge_state_scheme
    \<Rightarrow> ('n, 'p, 'z) bridge_state_scheme" where
  "put_votes k v w = w\<lparr>votes := (votes w)(k \<mapsto> v)\<rparr>"

definition resource_exists :: "resource_id \<Rightarrow> ('n, 'p, 'z) bridge_state_scheme \<Rightarrow> bool" where
  "resource_exists rid w \<longleftrightarrow> resources w rid \<noteq> None"

definition chain_whitelisted :: "chain_id \<Rightarrow> ('n, 'p, 'z) bridge_state_scheme \<Rightarrow> bool" where
  "chain_whitelisted ch w \<longleftrightarrow> chain_nonces w ch \<noteq> None"

definition bump_nonce ::
  "chain_id \<Rightarrow> ('n, 'p, 'z) bridge_state_scheme \<Rightarrow> u64 \<times> ('n, 'p, 'z) bridge_state_scheme" where
  "bump_nonce ch w =
    (let nonce = value_or 0 (chain_nonces w ch) + 1
     in (nonce, w\<lparr>chain_nonces := (chain_nonces w)(ch \<mapsto> nonce)\<rparr>))"

abbreviation berr :: "bridge_error \<Rightarrow> dispatch_error" where
  "berr \<equiv> BridgeError"

section \<open>Administration\<close>

definition set_relayer_threshold ::
  "u32 \<Rightarrow> ('n, 'p, 'z) bridge_state_scheme \<Rightarrow> ('n, 'p, 'z) bridge_state_scheme result" where
  "set_relayer_threshold threshold w =
    ensure (0 < threshold) (berr InvalidThreshold) (
    Inr (deposit_bridge (RelayerThresholdChanged threshold) (w\<lparr>relayer_threshold := threshold\<rparr>)))"

definition register_resource ::
  "resource_id \<Rightarrow> bytes \<Rightarrow> ('n, 'p, 'z) bridge_state_scheme \<Rightarrow> ('n, 'p, 'z) bridge_state_scheme result" where
  "register_resource rid meth w = Inr (w\<lparr>resources := (resources w)(rid \<mapsto> meth)\<rparr>)"

definition unregister_resource ::
  "resource_id \<Rightarrow> ('n, 'p, 'z) bridge_state_scheme \<Rightarrow> ('n, 'p, 'z) bridge_state_scheme result" where
  "unregister_resource rid w = Inr (w\<lparr>resources := (resources w)(rid := None)\<rparr>)"

definition whitelist ::
  "bridge_config \<Rightarrow> chain_id \<Rightarrow> ('n, 'p, 'z) bridge_state_scheme \<Rightarrow> ('n, 'p, 'z) bridge_state_scheme result" where
  "whitelist c ch w =
    ensure (ch \<noteq> br_chain_id c) (berr InvalidChainId) (
    ensure (\<not> chain_whitelisted ch w) (berr ChainAlreadyWhitelisted) (
    Inr (deposit_bridge (ChainWhitelisted ch) (w\<lparr>chain_nonces := (chain_nonces w)(ch \<mapsto> 0)\<rparr>))))"

definition register_relayer ::
  "account \<Rightarrow> ('n, 'p, 'z) bridge_state_scheme \<Rightarrow> ('n, 'p, 'z) bridge_state_scheme result" where
  "register_relayer a w =
    ensure (\<not> relayers w a) (berr RelayerAlreadyExists) (
    Inr (deposit_bridge (RelayerAdded a)
      (w\<lparr>relayers := (relayers w)(a := True), relayer_count := relayer_count w + 1\<rparr>)))"

definition unregister_relayer ::
  "account \<Rightarrow> ('n, 'p, 'z) bridge_state_scheme \<Rightarrow> ('n, 'p, 'z) bridge_state_scheme result" where
  "unregister_relayer a w =
    ensure (relayers w a) (berr RelayerInvalid) (
    Inr (deposit_bridge (RelayerRemoved a)
      (w\<lparr>relayers := (relayers w)(a := False), relayer_count := relayer_count w - 1\<rparr>)))"

definition set_threshold ::
  "bridge_config \<Rightarrow> origin \<Rightarrow> u32 \<Rightarrow> ('n, 'p, 'z) bridge_state_scheme \<Rightarrow> ('n, 'p, 'z) bridge_state_scheme result" where
  "set_threshold c o' threshold w = ensure (br_admin_origin c o') BadOrigin (set_relayer_threshold threshold w)"

definition set_resource ::
  "bridge_config \<Rightarrow> origin \<Rightarrow> resource_id \<Rightarrow> bytes \<Rightarrow> ('n, 'p, 'z) bridge_state_scheme
    \<Rightarrow> ('n, 'p, 'z) bridge_state_scheme result" where
  "set_resource c o' rid meth w =
    ensure (br_admin_origin c o') BadOrigin (
    and_then
      (if rid \<noteq> br_native_resource_id c then
         and_then (map_err (berr bridge_error.InvalidResourceId) (decode_resource_id rid)) (\<lambda>(ch, _, contract).
         and_then (ok_or (try_get_asset_id ch contract w) (berr ResourceIdNotMapToToken)) (\<lambda>_. Inr ()))
       else Inr ())
      (\<lambda>_. register_resource rid meth w))"

definition remove_resource ::
  "bridge_config \<Rightarrow> origin \<Rightarrow> resource_id \<Rightarrow> ('n, 'p, 'z) bridge_state_scheme
    \<Rightarrow> ('n, 'p, 'z) bridge_state_scheme result" where
  "remove_resource c o' rid w = ensure (br_admin_origin c o') BadOrigin (unregister_resource rid w)"

definition whitelist_chain ::
  "bridge_config \<Rightarrow> origin \<Rightarrow> chain_id \<Rightarrow> ('n, 'p, 'z) bridge_state_scheme
    \<Rightarrow> ('n, 'p, 'z) bridge_state_scheme result" where
  "whitelist_chain c o' ch w = ensure (br_admin_origin c o') BadOrigin (whitelist c ch w)"

definition add_relayer ::
  "bridge_config \<Rightarrow> origin \<Rightarrow> account \<Rightarrow> ('n, 'p, 'z) bridge_state_scheme
    \<Rightarrow> ('n, 'p, 'z) bridge_state_scheme result" where
  "add_relayer c o' a w = ensure (br_admin_origin c o') BadOrigin (register_relayer a w)"

definition remove_relayer ::
  "bridge_config \<Rightarrow> origin \<Rightarrow> account \<Rightarrow> ('n, 'p, 'z) bridge_state_scheme
    \<Rightarrow> ('n, 'p, 'z) bridge_state_scheme result" where
  "remove_relayer c o' a w = ensure (br_admin_origin c o') BadOrigin (unregister_relayer a w)"

section \<open>Votes\<close>

definition commit_vote ::
  "bridge_config \<Rightarrow> account \<Rightarrow> u64 \<Rightarrow> chain_id \<Rightarrow> 'p \<Rightarrow> bool
    \<Rightarrow> ('n, 'p, 'z) bridge_state_scheme \<Rightarrow> ('n, 'p, 'z) bridge_state_scheme result" where
  "commit_vote c who nonce src prop in_favour w =
    (let now = block_number w;
         v = (case votes w (src, nonce, prop) of
                Some v \<Rightarrow> v
              | None \<Rightarrow> fresh_votes\<lparr>expiry := now + br_proposal_lifetime c\<rparr>) in
     ensure (\<not> is_complete v) (berr ProposalAlreadyComplete) (
     ensure (\<not> is_expired now v) (berr ProposalExpired) (
     ensure (\<not> hash_voted who v) (berr RelayerAlreadyVoted) (
     if in_favour
     then Inr (put_votes (src, nonce, prop) (v\<lparr>votes_for := votes_for v @ [who]\<rparr>)
            (deposit_bridge (VoteFor src nonce who) w))
     else Inr (put_votes (src, nonce, prop) (v\<lparr>votes_against := votes_against v @ [who]\<rparr>)
            (deposit_bridge (VoteAgainst src nonce who) w))))))"

type_synonym ('p, 's) dispatch = "'p \<Rightarrow> account \<Rightarrow> 's \<Rightarrow> 's result"

definition bridge_emit ::
  "bridge_event \<Rightarrow> (('n, 'p, 'z) bridge_state_scheme, 'cb) verifier_state
    \<Rightarrow> (('n, 'p, 'z) bridge_state_scheme, 'cb) verifier_state" where
  "bridge_emit e s = s\<lparr>world := deposit_bridge e (world s)\<rparr>"

text \<open>An approved call runs with the pallet's account as its origin; if it fails, so does the vote.\<close>

definition finalize_execution ::
  "bridge_config \<Rightarrow> ('p, (('n, 'p, 'z) bridge_state_scheme, 'cb) verifier_state) dispatch
    \<Rightarrow> chain_id \<Rightarrow> u64 \<Rightarrow> 'p \<Rightarrow> (('n, 'p, 'z) bridge_state_scheme, 'cb) verifier_state
    \<Rightarrow> (('n, 'p, 'z) bridge_state_scheme, 'cb) verifier_state result" where
  "finalize_execution c dispatch src nonce prop s =
    and_then (dispatch prop (br_account c) (bridge_emit (ProposalApproved src nonce) s)) (\<lambda>s.
    Inr (bridge_emit (ProposalSucceeded src nonce) s))"

definition cancel_execution ::
  "chain_id \<Rightarrow> u64 \<Rightarrow> (('n, 'p, 'z) bridge_state_scheme, 'cb) verifier_state
    \<Rightarrow> (('n, 'p, 'z) bridge_state_scheme, 'cb) verifier_state result" where
  "cancel_execution src nonce s = Inr (bridge_emit (ProposalRejected src nonce) s)"

definition try_resolve_proposal ::
  "bridge_config \<Rightarrow> ('p, (('n, 'p, 'z) bridge_state_scheme, 'cb) verifier_state) dispatch
    \<Rightarrow> u64 \<Rightarrow> chain_id \<Rightarrow> 'p \<Rightarrow> (('n, 'p, 'z) bridge_state_scheme, 'cb) verifier_state
    \<Rightarrow> (('n, 'p, 'z) bridge_state_scheme, 'cb) verifier_state result" where
  "try_resolve_proposal c dispatch nonce src prop s =
    (case votes (world s) (src, nonce, prop) of
       None \<Rightarrow> Inl (berr ProposalDoesNotExist)
     | Some v \<Rightarrow>
         let now = block_number (world s) in
         ensure (\<not> is_complete v) (berr ProposalAlreadyComplete) (
         ensure (\<not> is_expired now v) (berr ProposalExpired) (
         let (status, v') = try_to_complete (relayer_threshold (world s)) (relayer_count (world s)) v;
             s = s\<lparr>world := put_votes (src, nonce, prop) v' (world s)\<rparr> in
         case status of
           Approved \<Rightarrow> finalize_execution c dispatch src nonce prop s
         | Rejected \<Rightarrow> cancel_execution src nonce s
         | Initiated \<Rightarrow> Inr s)))"

definition vote_for ::
  "bridge_config \<Rightarrow> ('p, (('n, 'p, 'z) bridge_state_scheme, 'cb) verifier_state) dispatch
    \<Rightarrow> account \<Rightarrow> u64 \<Rightarrow> chain_id \<Rightarrow> 'p \<Rightarrow> (('n, 'p, 'z) bridge_state_scheme, 'cb) verifier_state
    \<Rightarrow> (('n, 'p, 'z) bridge_state_scheme, 'cb) verifier_state result" where
  "vote_for c dispatch who nonce src prop s =
    and_then (on_world (commit_vote c who nonce src prop True) s)
      (try_resolve_proposal c dispatch nonce src prop)"

definition vote_against ::
  "bridge_config \<Rightarrow> ('p, (('n, 'p, 'z) bridge_state_scheme, 'cb) verifier_state) dispatch
    \<Rightarrow> account \<Rightarrow> u64 \<Rightarrow> chain_id \<Rightarrow> 'p \<Rightarrow> (('n, 'p, 'z) bridge_state_scheme, 'cb) verifier_state
    \<Rightarrow> (('n, 'p, 'z) bridge_state_scheme, 'cb) verifier_state result" where
  "vote_against c dispatch who nonce src prop s =
    and_then (on_world (commit_vote c who nonce src prop False) s)
      (try_resolve_proposal c dispatch nonce src prop)"

text \<open>What both votes check about their caller and the proposal.\<close>

definition voter_of ::
  "origin \<Rightarrow> chain_id \<Rightarrow> resource_id \<Rightarrow> ('n, 'p, 'z) bridge_state_scheme \<Rightarrow> account result" where
  "voter_of o' src rid w =
    and_then (ensure_signed o') (\<lambda>who.
    ensure (relayers w who) (berr MustBeRelayer) (
    ensure (chain_whitelisted src w) (berr ChainNotWhitelisted) (
    ensure (resource_exists rid w) (berr ResourceDoesNotExist) (Inr who))))"

definition acknowledge_proposal ::
  "bridge_config \<Rightarrow> ('p, (('n, 'p, 'z) bridge_state_scheme, 'cb) verifier_state) dispatch
    \<Rightarrow> origin \<Rightarrow> u64 \<Rightarrow> chain_id \<Rightarrow> resource_id \<Rightarrow> bytes \<Rightarrow> 'p
    \<Rightarrow> (('n, 'p, 'z) bridge_state_scheme, 'cb) verifier_state
    \<Rightarrow> (('n, 'p, 'z) bridge_state_scheme, 'cb) verifier_state result" where
  "acknowledge_proposal c dispatch o' nonce src rid evm_hash prop s =
    and_then (voter_of o' src rid (world s)) (\<lambda>who.
    vote_for c dispatch who nonce src prop (bridge_emit (ProposalVote src evm_hash nonce) s))"

definition reject_proposal ::
  "bridge_config \<Rightarrow> ('p, (('n, 'p, 'z) bridge_state_scheme, 'cb) verifier_state) dispatch
    \<Rightarrow> origin \<Rightarrow> u64 \<Rightarrow> chain_id \<Rightarrow> resource_id \<Rightarrow> 'p
    \<Rightarrow> (('n, 'p, 'z) bridge_state_scheme, 'cb) verifier_state
    \<Rightarrow> (('n, 'p, 'z) bridge_state_scheme, 'cb) verifier_state result" where
  "reject_proposal c dispatch o' nonce src rid prop s =
    and_then (voter_of o' src rid (world s)) (\<lambda>who. vote_against c dispatch who nonce src prop s)"

definition eval_vote_state ::
  "bridge_config \<Rightarrow> ('p, (('n, 'p, 'z) bridge_state_scheme, 'cb) verifier_state) dispatch
    \<Rightarrow> origin \<Rightarrow> u64 \<Rightarrow> chain_id \<Rightarrow> 'p
    \<Rightarrow> (('n, 'p, 'z) bridge_state_scheme, 'cb) verifier_state
    \<Rightarrow> (('n, 'p, 'z) bridge_state_scheme, 'cb) verifier_state result" where
  "eval_vote_state c dispatch o' nonce src prop s =
    and_then (ensure_signed o') (\<lambda>_. try_resolve_proposal c dispatch nonce src prop s)"

section \<open>Transfers out of the chain\<close>

definition transfer_fungible ::
  "chain_id \<Rightarrow> resource_id \<Rightarrow> bytes \<Rightarrow> u256 \<Rightarrow> ('n, 'p, 'z) bridge_state_scheme
    \<Rightarrow> ('n, 'p, 'z) bridge_state_scheme result" where
  "transfer_fungible dest rid target amount w =
    ensure (chain_whitelisted dest w) (berr ChainNotWhitelisted) (
    let (nonce, w) = bump_nonce dest w in
    Inr (deposit_bridge (FungibleTransfer dest nonce rid amount target) w))"

definition transfer_nonfungible ::
  "chain_id \<Rightarrow> resource_id \<Rightarrow> bytes \<Rightarrow> bytes \<Rightarrow> bytes \<Rightarrow> ('n, 'p, 'z) bridge_state_scheme
    \<Rightarrow> ('n, 'p, 'z) bridge_state_scheme result" where
  "transfer_nonfungible dest rid token target metadata w =
    ensure (chain_whitelisted dest w) (berr ChainNotWhitelisted) (
    let (nonce, w) = bump_nonce dest w in
    Inr (deposit_bridge (NonFungibleTransfer dest nonce rid token target metadata) w))"

definition transfer_generic ::
  "chain_id \<Rightarrow> resource_id \<Rightarrow> bytes \<Rightarrow> ('n, 'p, 'z) bridge_state_scheme
    \<Rightarrow> ('n, 'p, 'z) bridge_state_scheme result" where
  "transfer_generic dest rid metadata w =
    ensure (chain_whitelisted dest w) (berr ChainNotWhitelisted) (
    let (nonce, w) = bump_nonce dest w in
    Inr (deposit_bridge (GenericTransfer dest nonce rid metadata) w))"

section \<open>The origin of the bridge\<close>

definition ensure_bridge :: "bridge_config \<Rightarrow> origin \<Rightarrow> account result" where
  "ensure_bridge c o' =
    (case o' of SignedOrigin who \<Rightarrow> if who = br_account c then Inr (br_account c) else Inl BadOrigin
     | _ \<Rightarrow> Inl BadOrigin)"

section \<open>The calls of the pallet\<close>

datatype 'p bridge_call =
    BridgeSetThreshold u32
  | BridgeSetResource resource_id bytes
  | BridgeRemoveResource resource_id
  | BridgeWhitelistChain chain_id
  | BridgeAddRelayer account
  | BridgeRemoveRelayer account
  | BridgeAcknowledge u64 chain_id resource_id bytes 'p
  | BridgeReject u64 chain_id resource_id 'p
  | BridgeEval u64 chain_id 'p

fun run_bridge_call ::
  "bridge_config \<Rightarrow> ('p, (('n, 'p, 'z) bridge_state_scheme, 'cb) verifier_state) dispatch
    \<Rightarrow> 'p bridge_call \<Rightarrow> origin \<Rightarrow> (('n, 'p, 'z) bridge_state_scheme, 'cb) verifier_state
    \<Rightarrow> (('n, 'p, 'z) bridge_state_scheme, 'cb) verifier_state result" where
  "run_bridge_call c dispatch (BridgeSetThreshold threshold) o' s = on_world (set_threshold c o' threshold) s"
| "run_bridge_call c dispatch (BridgeSetResource rid meth) o' s = on_world (set_resource c o' rid meth) s"
| "run_bridge_call c dispatch (BridgeRemoveResource rid) o' s = on_world (remove_resource c o' rid) s"
| "run_bridge_call c dispatch (BridgeWhitelistChain ch) o' s = on_world (whitelist_chain c o' ch) s"
| "run_bridge_call c dispatch (BridgeAddRelayer a) o' s = on_world (add_relayer c o' a) s"
| "run_bridge_call c dispatch (BridgeRemoveRelayer a) o' s = on_world (remove_relayer c o' a) s"
| "run_bridge_call c dispatch (BridgeAcknowledge nonce src rid h prop) o' s =
    acknowledge_proposal c dispatch o' nonce src rid h prop s"
| "run_bridge_call c dispatch (BridgeReject nonce src rid prop) o' s =
    reject_proposal c dispatch o' nonce src rid prop s"
| "run_bridge_call c dispatch (BridgeEval nonce src prop) o' s =
    eval_vote_state c dispatch o' nonce src prop s"

end
