(* ===== verification/Verifier_Ledger.thy ===== *)
theory Verifier_Ledger
  imports Verifier_State
begin

text \<open>
  \<open>pallets/verifier/src/lib.rs\<close>, the custody ledger \<open>Reserves\<close>: which part of the reserved balance
  of an account in a token is held for which purpose and which dominator, and the interface
  \<open>Custody\<close> that moves funds in and out of a dominator's hands by receipts.

  A reserve purpose is one of the \<open>RESERVE_FOR\<close> constants. Authorising puts funds in the stash and
  leaves a receipt; the dominator's proof (\<open>Verifier_Clearing\<close>) moves the stash on. Revoking leaves a
  receipt the dominator's proof honours, and pays at once when the dominator is evicted.
\<close>

section \<open>Reserves\<close>

definition vf_reserve ::
  "('w, 'cb) verifier_config \<Rightarrow> u8 \<Rightarrow> account \<Rightarrow> token_id \<Rightarrow> u128 \<Rightarrow> account
    \<Rightarrow> ('w, 'cb) verifier_state \<Rightarrow> ('w, 'cb) verifier_state result" where
  "vf_reserve c reserve_id fund_owner token value dest s =
    (if value = 0 then Inr s
     else
       let k = ((reserve_id, fund_owner, token), dest) in
       and_then (on_world (as_reserve (vc_asset c) token fund_owner value) s) (\<lambda>s.
       and_then (ok_or (checked_add (get_reserve k s) value) (verr verifier_error.Overflow)) (\<lambda>v.
       Inr (s\<lparr>reserves := (reserves s)(k \<mapsto> v)\<rparr>))))"

definition vf_unreserve ::
  "('w, 'cb) verifier_config \<Rightarrow> u8 \<Rightarrow> account \<Rightarrow> token_id \<Rightarrow> u128 \<Rightarrow> account
    \<Rightarrow> ('w, 'cb) verifier_state \<Rightarrow> ('w, 'cb) verifier_state result" where
  "vf_unreserve c reserve_id fund_owner token value src s =
    (if value = 0 then Inr s
     else
       let k = ((reserve_id, fund_owner, token), src) in
       and_then (on_world (as_unreserve (vc_asset c) token fund_owner value) s) (\<lambda>s.
       and_then (ok_or (reserves s k) (verr verifier_error.InsufficientBalance)) (\<lambda>r.
       and_then (ok_or (checked_sub r value) (verr verifier_error.InsufficientBalance)) (\<lambda>v.
       Inr (s\<lparr>reserves := (reserves s)(k := if 0 < v then Some v else None)\<rparr>)))))"

definition has_authorized_morethan ::
  "account \<Rightarrow> token_id \<Rightarrow> u128 \<Rightarrow> account \<Rightarrow> ('w, 'cb) verifier_state \<Rightarrow> bool" where
  "has_authorized_morethan who token amount dmn s \<longleftrightarrow>
    amount \<le> get_reserve ((RESERVE_FOR_AUTHORIZING, who, token), dmn) s"

definition has_authorized_exactly_on ::
  "account \<Rightarrow> token_id \<Rightarrow> u128 \<Rightarrow> account \<Rightarrow> ('w, 'cb) verifier_state \<Rightarrow> bool" where
  "has_authorized_exactly_on who token amount dmn s \<longleftrightarrow>
    (let confirmed = get_reserve ((RESERVE_FOR_AUTHORIZING, who, token), dmn) s in
     if amount \<le> confirmed then confirmed - amount \<le> 100000000000
     else amount - confirmed \<le> 100000000000)"

text \<open>
  The settlement of one account in one token: the authorised part of the reserved balance becomes
  what the proof says. A reserved balance below the old authorised part counts as zero.
\<close>

definition clear ::
  "('w, 'cb) verifier_config \<Rightarrow> account \<Rightarrow> account \<Rightarrow> token_id \<Rightarrow> u128
    \<Rightarrow> ('w, 'cb) verifier_state \<Rightarrow> ('w, 'cb) verifier_state result" where
  "clear c who dmn token amount s =
    (let k = ((RESERVE_FOR_AUTHORIZING, who, token), dmn);
         reserved = get_reserve k s in
     and_then (on_world (as_try_mutate_account (vc_asset c) token who (\<lambda>(fr, rs).
         and_then (ok_or (checked_add (value_or 0 (checked_sub rs reserved)) amount)
             (verr verifier_error.Overflow)) (\<lambda>rs'. Inr (fr, rs')))) s) (\<lambda>s.
     Inr (s\<lparr>reserves := (reserves s)(k \<mapsto> amount)\<rparr>)))"

section \<open>The interface \<open>Custody\<close>\<close>

definition authorize_to ::
  "('w, 'cb) verifier_config \<Rightarrow> account \<Rightarrow> account \<Rightarrow> token_id \<Rightarrow> u128
    \<Rightarrow> ('w, 'cb) verifier_state \<Rightarrow> ('w, 'cb) verifier_state result" where
  "authorize_to c fund_owner dex token amount s =
    and_then (ok_or (get_dominator dex s) (verr DominatorNotFound)) (\<lambda>d.
    ensure (dom_status d = DOMINATOR_ACTIVE) (verr DominatorInactive) (
    ensure (receipts s (dex, fund_owner) = None) (verr ReceiptAlreadyExists) (
    ensure (as_can_reserve (vc_asset c) token fund_owner amount (world s))
      (verr verifier_error.InsufficientBalance) (
    let block = current_block c s in
    and_then (vf_reserve c RESERVE_FOR_AUTHORIZING_STASH fund_owner token amount dex s) (\<lambda>s.
    Inr (deposit_verifier (TokenHosted fund_owner dex token amount)
      (s\<lparr>receipts := (receipts s)((dex, fund_owner) \<mapsto> Authorize token amount block)\<rparr>)))))))"

text \<open>The stash of an evicted dominator goes back to the authorised part before it is paid out.\<close>

definition merge_stash ::
  "account \<Rightarrow> token_id \<Rightarrow> account \<Rightarrow> ('w, 'cb) verifier_state \<Rightarrow> ('w, 'cb) verifier_state result" where
  "merge_stash fund_owner token dmn s =
    (let ks = ((RESERVE_FOR_AUTHORIZING_STASH, fund_owner, token), dmn);
         ka = ((RESERVE_FOR_AUTHORIZING, fund_owner, token), dmn);
         av = get_reserve ks s in
     if 0 < av then
       and_then (ok_or (checked_add (get_reserve ka s) av) (verr verifier_error.Overflow)) (\<lambda>v.
       Inr (s\<lparr>reserves := (reserves s)(ka \<mapsto> v, ks := None)\<rparr>))
     else Inr (s\<lparr>reserves := (reserves s)(ks := None)\<rparr>))"

definition revoke_from ::
  "('w, 'cb) verifier_config \<Rightarrow> account \<Rightarrow> account \<Rightarrow> token_id \<Rightarrow> u128 option \<Rightarrow> 'cb option
    \<Rightarrow> ('w, 'cb) verifier_state \<Rightarrow> ('w, 'cb) verifier_state result" where
  "revoke_from c fund_owner dominator_id token amount_opt callback s =
    (let amount = value_or (get_reserve ((RESERVE_FOR_AUTHORIZING, fund_owner, token), dominator_id) s)
           amount_opt in
     if amount = 0 then Inr s
     else
       ensure (has_authorized_morethan fund_owner token amount dominator_id s)
         (verr verifier_error.InsufficientBalance) (
       and_then (ok_or (get_dominator dominator_id s) (verr DominatorNotFound)) (\<lambda>d.
       ensure (dom_status d \<noteq> DOMINATOR_REGISTERED) (verr DominatorStatusInvalid) (
       and_then
         (if dom_status d = DOMINATOR_EVICTED then
            and_then (merge_stash fund_owner token dominator_id s) (\<lambda>s.
            and_then (vf_unreserve c RESERVE_FOR_AUTHORIZING fund_owner token amount dominator_id s) (\<lambda>s.
            Inr (s\<lparr>receipts := (receipts s)((dominator_id, fund_owner) := None)\<rparr>)))
          else
            ensure (receipts s (dominator_id, fund_owner) = None) (verr ReceiptAlreadyExists) (
            let r = (case callback of
                       Some cb \<Rightarrow> RevokeWithCallback token amount (current_block c s) cb
                     | None \<Rightarrow> Revoke token amount (current_block c s))
            in Inr (s\<lparr>receipts := (receipts s)((dominator_id, fund_owner) \<mapsto> r)\<rparr>)))
         (\<lambda>s. Inr (deposit_verifier (TokenRevoked fund_owner dominator_id token amount) s))))))"

end
