(* ===== verification/Verifier_Proofs.thy ===== *)
theory Verifier_Proofs
  imports Verifier_Ledger
begin

text \<open>
  \<open>pallets/verifier/src/lib.rs\<close>, what a proof must say: the keys and values of Merkle leaves, and the
  checks of each command on the leaves before and after it. A leaf's value is a pair of 128-bit
  numbers: available and frozen balance of an account, ask and bid size or best ask and best bid
  of a pair, the amount on an order page.

  The leaves of a limit order are the order book size, two leaves (base, quote) for each maker, two
  for the taker, the best prices, and the order pages it took.
\<close>

section \<open>Merkle leaves\<close>

definition ACCOUNT_KEY :: u8 where "ACCOUNT_KEY = 0"
definition BESTPRICE_KEY :: u8 where "BESTPRICE_KEY = 2"
definition ORDERBOOK_KEY :: u8 where "ORDERBOOK_KEY = 1"
definition ORDERPAGE_KEY :: u8 where "ORDERPAGE_KEY = 3"

definition try_get_account ::
  "('w, 'cb) verifier_config \<Rightarrow> merkle_leaf \<Rightarrow> (u32 \<times> account) result" where
  "try_get_account c l =
    (let key = leaf_key l in
     ensure (length key = 37) (verr ProofsUnsatisfied) (
     ensure (key ! 0 = ACCOUNT_KEY) (verr ProofsUnsatisfied) (
     and_then (ok_or (lib_decode_account (vc_libs c) (slice key 1 33)) (verr ProofsUnsatisfied)) (\<lambda>who.
     Inr (from_le_bytes (slice key 33 37), who)))))"

definition try_get_symbol :: "merkle_leaf \<Rightarrow> (u32 \<times> u32) result" where
  "try_get_symbol l =
    (let key = leaf_key l in
     ensure (length key = 9) (verr ProofsUnsatisfied) (
     ensure (key ! 0 = ORDERBOOK_KEY \<or> key ! 0 = BESTPRICE_KEY) (verr ProofsUnsatisfied) (
     Inr (from_le_bytes (slice key 1 5), from_le_bytes (slice key 5 9)))))"

definition try_get_orderpage :: "merkle_leaf \<Rightarrow> (u32 \<times> u32 \<times> u128) result" where
  "try_get_orderpage l =
    (let key = leaf_key l in
     ensure (length key = 25) (verr ProofsUnsatisfied) (
     ensure (key ! 0 = ORDERPAGE_KEY) (verr ProofsUnsatisfied) (
     Inr (from_le_bytes (slice key 1 5), from_le_bytes (slice key 5 9), from_le_bytes (slice key 9 25)))))"

definition split_value :: "bytes \<Rightarrow> bytes \<times> bytes" where
  "split_value v = (slice v 0 16, slice v 16 32)"

definition split_to_u128 :: "bytes \<Rightarrow> u128 \<times> u128" where
  "split_to_u128 v = (case split_value v of (l, r) \<Rightarrow> (from_le_bytes l, from_le_bytes r))"

definition split_old_to_u128 :: "merkle_leaf \<Rightarrow> u128 \<times> u128" where
  "split_old_to_u128 l = split_to_u128 (old_v l)"

definition split_new_to_u128 :: "merkle_leaf \<Rightarrow> u128 \<times> u128" where
  "split_new_to_u128 l = split_to_u128 (new_v l)"

definition split_old_to_sum :: "merkle_leaf \<Rightarrow> u128" where
  "split_old_to_sum l = (case split_old_to_u128 l of (a, b) \<Rightarrow> a + b)"

definition split_new_to_sum :: "merkle_leaf \<Rightarrow> u128" where
  "split_new_to_sum l = (case split_new_to_u128 l of (a, b) \<Rightarrow> a + b)"

text \<open>Indexing aborts out of range, and \<open>last().unwrap()\<close> on no leaves.\<close>

definition leaf_at :: "merkle_leaf list \<Rightarrow> nat \<Rightarrow> merkle_leaf result" where
  "leaf_at ls i = (if i < length ls then Inr (ls ! i) else Inl Panic)"

definition leaf_last :: "merkle_leaf list \<Rightarrow> merkle_leaf result" where
  "leaf_last ls = (if ls \<noteq> [] then Inr (last ls) else Inl Panic)"

abbreviation satisfied :: "bool \<Rightarrow> 'a result \<Rightarrow> 'a result" where
  "satisfied b k \<equiv> ensure b (verr ProofsUnsatisfied) k"

abbreviation no_overflow :: "u128 option \<Rightarrow> (u128 \<Rightarrow> 'a result) \<Rightarrow> 'a result" where
  "no_overflow x k \<equiv> and_then (ok_or x (verr verifier_error.Overflow)) k"

section \<open>Results of a limit order\<close>

record maker_mutation =
  mk_who :: account
  mk_filled_volume :: u128
  mk_base_balance :: u128
  mk_quote_balance :: u128

record taker_mutation =
  tk_who :: account
  tk_unfilled_volume :: u128
  tk_filled_volume :: u128
  tk_filled_amount :: u128
  tk_base_balance :: u128
  tk_quote_balance :: u128

record clearing_result =
  cr_makers :: "maker_mutation list"
  cr_taker :: taker_mutation
  cr_base_fee :: u128
  cr_quote_fee :: u128

section \<open>Asks\<close>

text \<open>The loop over the makers: what they gain in base and give in quote, and their new balances.\<close>

fun ask_makers ::
  "('w, 'cb) verifier_config \<Rightarrow> ('w, 'cb) verifier_state \<Rightarrow> account \<Rightarrow> u32 \<Rightarrow> u32 \<Rightarrow> merkle_leaf list
    \<Rightarrow> nat list \<Rightarrow> u128 \<times> u128 \<times> maker_mutation list \<Rightarrow> (u128 \<times> u128 \<times> maker_mutation list) result" where
  "ask_makers c s dmn base quote ls [] acc = Inr acc"
| "ask_makers c s dmn base quote ls (i # is) (mb_delta, mq_delta, ms) =
    and_then (leaf_at ls (i * 2 + 1)) (\<lambda>maker_base.
    and_then (try_get_account c maker_base) (\<lambda>(bk, maker_b_id).
    let mb0 = split_old_to_sum maker_base in
    satisfied (has_authorized_exactly_on maker_b_id base mb0 dmn s) (
    let mb1 = split_new_to_sum maker_base;
        base_incr = mb1 - mb0 in
    and_then (leaf_at ls (i * 2 + 2)) (\<lambda>maker_quote.
    and_then (try_get_account c maker_quote) (\<lambda>(qk, maker_q_id).
    satisfied (base = bk \<and> quote = qk) (
    let mq0 = split_old_to_sum maker_quote in
    satisfied (has_authorized_exactly_on maker_q_id quote mq0 dmn s) (
    let mq1 = split_new_to_sum maker_quote;
        quote_decr = mq0 - mq1 in
    satisfied (maker_b_id = maker_q_id) (
    ask_makers c s dmn base quote ls is
      (mb_delta + base_incr, mq_delta + quote_decr,
       ms @ [\<lparr>mk_who = maker_q_id, mk_filled_volume = quote_decr, mk_base_balance = mb1,
              mk_quote_balance = mq1\<rparr>])))))))))"

text \<open>The loop over the bid pages an ask emptied: prices fall from page to page.\<close>

fun ask_pages ::
  "u32 \<Rightarrow> u32 \<Rightarrow> merkle_leaf list \<Rightarrow> nat list \<Rightarrow> u128 \<times> u128 \<Rightarrow> (u128 \<times> u128) result" where
  "ask_pages base quote ls [] acc = Inr acc"
| "ask_pages base quote ls (i # is) (pre_best, taken_bids) =
    and_then (leaf_at ls i) (\<lambda>page.
    and_then (try_get_orderpage page) (\<lambda>(b, q, p).
    satisfied (b = base \<and> q = quote) (
    satisfied (p < pre_best) (
    satisfied (split_new_to_sum page = 0) (
    ask_pages base quote ls is (p, taken_bids + split_old_to_sum page))))))"

text \<open>The checks on best prices and order pages. \<open>tb_delta\<close> is the traded base.\<close>

definition ask_prices ::
  "u128 \<Rightarrow> u128 \<Rightarrow> u32 \<Rightarrow> u32 \<Rightarrow> nat \<Rightarrow> nat \<Rightarrow> merkle_leaf list \<Rightarrow> u128 \<Rightarrow> u128 \<Rightarrow> u128 \<Rightarrow> unit result" where
  "ask_prices price amount base quote makers pages ls ask_delta bid_delta tb_delta =
    and_then (leaf_at ls (makers + 3)) (\<lambda>best_price.
    and_then (try_get_symbol best_price) (\<lambda>(b, q).
    satisfied (b = base \<and> q = quote) (
    let (best_ask0, best_bid0) = split_old_to_u128 best_price;
        (best_ask1, best_bid1) = split_new_to_u128 best_price in
    if bid_delta \<noteq> 0 then
      satisfied (0 < pages \<and> price \<le> best_bid0) (
      and_then (ask_pages base quote ls [makers + 4 ..< makers + 4 + (pages - 1)] (best_bid0 + 1, 0))
        (\<lambda>(pre_best, taken_bids).
      if ask_delta \<noteq> 0 then
        and_then (leaf_last ls) (\<lambda>taker_page.
        and_then (try_get_orderpage taker_page) (\<lambda>(b, q, p).
        satisfied (b = base \<and> q = quote) (
        satisfied (p < pre_best \<and> best_bid1 \<le> p) (
        satisfied (best_ask1 = price \<and> p = price) (
        let prv_is_maker = split_old_to_sum taker_page;
            now_is_taker = split_new_to_sum taker_page in
        satisfied (taken_bids + prv_is_maker + now_is_taker = amount) (Inr ()))))))
      else
        and_then (leaf_last ls) (\<lambda>vanity_maker.
        and_then (try_get_orderpage vanity_maker) (\<lambda>(b, q, p).
        satisfied (b = base \<and> q = quote) (
        satisfied (p < pre_best \<and> best_bid1 \<le> p) (
        satisfied (best_ask1 = best_ask0) (
        let prv_is_maker = split_old_to_sum vanity_maker;
            now_is_maker = split_new_to_sum vanity_maker in
        satisfied (tb_delta = taken_bids + prv_is_maker - now_is_maker) (Inr ()))))))))
    else
      satisfied (best_bid1 = best_bid0) (
      if ask_delta \<noteq> 0 then
        and_then (leaf_last ls) (\<lambda>vanity_maker.
        and_then (try_get_orderpage vanity_maker) (\<lambda>(b, q, p).
        satisfied (b = base \<and> q = quote \<and> best_bid1 < p) (
        let prv_is_maker = split_old_to_sum vanity_maker;
            now_is_maker = split_new_to_sum vanity_maker in
        satisfied (amount = now_is_maker - prv_is_maker) (Inr ()))))
      else Inr ()))))"

definition verify_ask_limit ::
  "('w, 'cb) verifier_config \<Rightarrow> ('w, 'cb) verifier_state \<Rightarrow> u128 \<Rightarrow> u128 \<Rightarrow> u32 \<Rightarrow> u32 \<Rightarrow> u32 \<Rightarrow> u32
    \<Rightarrow> u8 \<Rightarrow> u8 \<Rightarrow> account \<Rightarrow> merkle_leaf list \<Rightarrow> clearing_result result" where
  "verify_ask_limit c s price amount maker_fee taker_fee base quote maker_accounts pages dmn ls =
    (let leaves_count = unat (4 + maker_accounts + pages);
         makers = unat maker_accounts in
     satisfied (length ls = leaves_count) (
     satisfied (maker_accounts mod 2 = 0) (
     and_then (leaf_at ls 0) (\<lambda>book.
     and_then (try_get_symbol book) (\<lambda>(b, q).
     satisfied (b = base \<and> q = quote) (
     let (ask0, bid0) = split_old_to_u128 book;
         (ask1, bid1) = split_new_to_u128 book;
         ask_delta = ask1 - ask0;
         bid_delta = bid0 - bid1 in
     and_then (leaf_at ls (makers + 1)) (\<lambda>taker_base.
     and_then (try_get_account c taker_base) (\<lambda>(bk, taker_b_id).
     let (tba0, tbf0) = split_old_to_u128 taker_base in
     no_overflow (checked_add tba0 tbf0) (\<lambda>tb0.
     satisfied (has_authorized_exactly_on taker_b_id base tb0 dmn s) (
     let (tba1, tbf1) = split_new_to_u128 taker_base;
         tb_delta = (tba0 + tbf0) - (tba1 + tbf1) in
     and_then (leaf_at ls (makers + 2)) (\<lambda>taker_quote.
     and_then (try_get_account c taker_quote) (\<lambda>(qk, taker_q_id).
     let (tqa0, tqf0) = split_old_to_u128 taker_quote in
     satisfied (has_authorized_exactly_on taker_q_id quote (tqa0 + tqf0) dmn s) (
     let (tqa1, tqf1) = split_new_to_u128 taker_quote in
     no_overflow (checked_add tqa1 tqf1) (\<lambda>tq1.
     no_overflow (checked_add tqa0 tqf0) (\<lambda>tq0.
     no_overflow (checked_sub tq1 tq0) (\<lambda>tq_delta.
     satisfied (bk = base \<and> qk = quote) (
     satisfied (taker_b_id = taker_q_id) (
     satisfied (if ask_delta \<noteq> 0 then amount = tba0 - tba1 else tbf0 = tbf1) (
     satisfied (bid_delta = tb_delta) (
     and_then (ask_makers c s dmn base quote ls [0 ..< makers div 2] (0, 0, [])) (\<lambda>(mb_delta, mq_delta, ms).
     let base_charged = permill_mul_ceil (lib_arithmetic (vc_libs c)) maker_fee tb_delta in
     satisfied (mb_delta + base_charged = tb_delta) (
     let quote_charged = permill_mul_ceil (lib_arithmetic (vc_libs c)) taker_fee mq_delta in
     satisfied (tq_delta + quote_charged = mq_delta) (
     and_then (ask_prices price amount base quote makers (unat pages) ls ask_delta bid_delta tb_delta) (\<lambda>_.
     Inr \<lparr>cr_makers = ms,
          cr_taker = \<lparr>tk_who = taker_b_id, tk_unfilled_volume = tqf1, tk_filled_volume = mq_delta,
                      tk_filled_amount = tb_delta, tk_base_balance = tba1 + tbf1,
                      tk_quote_balance = tqa1 + tqf1\<rparr>,
          cr_base_fee = base_charged, cr_quote_fee = quote_charged\<rparr>))))))))))))))))))))))))"

section \<open>Bids\<close>

fun bid_makers ::
  "('w, 'cb) verifier_config \<Rightarrow> ('w, 'cb) verifier_state \<Rightarrow> account \<Rightarrow> u32 \<Rightarrow> u32 \<Rightarrow> merkle_leaf list
    \<Rightarrow> nat list \<Rightarrow> u128 \<times> u128 \<times> maker_mutation list \<Rightarrow> (u128 \<times> u128 \<times> maker_mutation list) result" where
  "bid_makers c s dmn base quote ls [] acc = Inr acc"
| "bid_makers c s dmn base quote ls (i # is) (mb_delta, mq_delta, ms) =
    and_then (leaf_at ls (i * 2 + 1)) (\<lambda>maker_base.
    and_then (try_get_account c maker_base) (\<lambda>(bk, maker_b_id).
    let mb0 = split_old_to_sum maker_base in
    satisfied (has_authorized_exactly_on maker_b_id base mb0 dmn s) (
    let mb1 = split_new_to_sum maker_base;
        base_decr = mb0 - mb1 in
    and_then (leaf_at ls (i * 2 + 2)) (\<lambda>maker_quote.
    and_then (try_get_account c maker_quote) (\<lambda>(qk, maker_q_id).
    satisfied (quote = qk \<and> base = bk) (
    satisfied (maker_b_id = maker_q_id) (
    let mq0 = split_old_to_sum maker_quote in
    satisfied (has_authorized_exactly_on maker_q_id quote mq0 dmn s) (
    let mq1 = split_new_to_sum maker_quote in
    no_overflow (checked_sub mq1 mq0) (\<lambda>quote_incr.
    no_overflow (checked_add mq_delta quote_incr) (\<lambda>mq_delta.
    bid_makers c s dmn base quote ls is
      (mb_delta + base_decr, mq_delta,
       ms @ [\<lparr>mk_who = maker_b_id, mk_filled_volume = quote_incr, mk_base_balance = mb1,
              mk_quote_balance = mq1\<rparr>])))))))))))"

text \<open>The loop over the ask pages a bid emptied: prices do not fall from page to page.\<close>

fun bid_pages ::
  "u32 \<Rightarrow> u32 \<Rightarrow> merkle_leaf list \<Rightarrow> nat list \<Rightarrow> u128 \<times> u128 \<Rightarrow> (u128 \<times> u128) result" where
  "bid_pages base quote ls [] acc = Inr acc"
| "bid_pages base quote ls (i # is) (pre_best, taken_asks) =
    and_then (leaf_at ls i) (\<lambda>page.
    and_then (try_get_orderpage page) (\<lambda>(b, q, p).
    satisfied (b = base \<and> q = quote) (
    satisfied (pre_best \<le> p) (
    satisfied (split_new_to_sum page = 0) (
    bid_pages base quote ls is (p, taken_asks + split_old_to_sum page))))))"

definition bid_prices ::
  "u128 \<Rightarrow> u128 \<Rightarrow> u32 \<Rightarrow> u32 \<Rightarrow> nat \<Rightarrow> nat \<Rightarrow> merkle_leaf list \<Rightarrow> u128 \<Rightarrow> u128 \<Rightarrow> u128 \<Rightarrow> u128
    \<Rightarrow> unit result" where
  "bid_prices price amount base quote makers pages ls ask_delta bid_delta tb_delta base_charged =
    and_then (leaf_at ls (makers + 3)) (\<lambda>best_price.
    and_then (try_get_symbol best_price) (\<lambda>(b, q).
    satisfied (b = base \<and> q = quote) (
    let (best_ask0, best_bid0) = split_old_to_u128 best_price;
        (best_ask1, best_bid1) = split_new_to_u128 best_price in
    if ask_delta \<noteq> 0 then
      satisfied (0 < pages \<and> best_ask0 \<le> price) (
      and_then (bid_pages base quote ls [makers + 4 ..< makers + 4 + (pages - 1)] (best_ask0, 0))
        (\<lambda>(pre_best, taken_asks).
      if bid_delta \<noteq> 0 then
        and_then (leaf_last ls) (\<lambda>taker_price_page.
        and_then (try_get_orderpage taker_price_page) (\<lambda>(b, q, p).
        satisfied (b = base \<and> q = quote \<and> p = price) (
        satisfied (best_bid1 = price) (
        let prv_is_maker = split_old_to_sum taker_price_page;
            now_is_taker = split_new_to_sum taker_price_page in
        satisfied (taken_asks + prv_is_maker + now_is_taker = amount) (Inr ())))))
      else
        and_then (leaf_last ls) (\<lambda>vanity_maker.
        and_then (try_get_orderpage vanity_maker) (\<lambda>(b, q, _).
        satisfied (b = base \<and> q = quote) (
        satisfied (best_bid1 = best_bid0) (
        let prv_is_maker = split_old_to_sum vanity_maker;
            now_is_maker = split_new_to_sum vanity_maker in
        no_overflow (checked_add tb_delta base_charged) (\<lambda>traded.
        no_overflow (checked_add taken_asks prv_is_maker) (\<lambda>before.
        no_overflow (checked_sub before now_is_maker) (\<lambda>taken.
        satisfied (traded = taken) (Inr ()))))))))))
    else
      satisfied (best_ask1 = best_ask0) (
      if bid_delta \<noteq> 0 then
        and_then (leaf_last ls) (\<lambda>taker_price_page.
        and_then (try_get_orderpage taker_price_page) (\<lambda>(b, q, p).
        satisfied (b = base \<and> q = quote \<and> p = price) (
        let prv_is_maker = split_old_to_sum taker_price_page;
            now_is_maker = split_new_to_sum taker_price_page in
        satisfied (amount = now_is_maker - prv_is_maker) (Inr ()))))
      else Inr ()))))"

definition verify_bid_limit ::
  "('w, 'cb) verifier_config \<Rightarrow> ('w, 'cb) verifier_state \<Rightarrow> u128 \<Rightarrow> u128 \<Rightarrow> u32 \<Rightarrow> u32 \<Rightarrow> u32 \<Rightarrow> u32
    \<Rightarrow> u8 \<Rightarrow> u8 \<Rightarrow> account \<Rightarrow> merkle_leaf list \<Rightarrow> clearing_result result" where
  "verify_bid_limit c s price amount maker_fee taker_fee base quote maker_accounts pages dmn ls =
    (let leaves_count = unat (4 + maker_accounts + pages);
         makers = unat maker_accounts in
     satisfied (length ls = leaves_count) (
     satisfied (maker_accounts mod 2 = 0) (
     and_then (leaf_at ls 0) (\<lambda>book.
     let (ask0, bid0) = split_old_to_u128 book;
         (ask1, bid1) = split_new_to_u128 book;
         ask_delta = ask0 - ask1;
         bid_delta = bid1 - bid0 in
     and_then (leaf_at ls (makers + 1)) (\<lambda>taker_base.
     let (tba0, tbf0) = split_old_to_u128 taker_base;
         (tba1, tbf1) = split_new_to_u128 taker_base;
         tb_delta = (tba1 + tbf1) - (tba0 + tbf0) in
     and_then (try_get_account c taker_base) (\<lambda>(bk, taker_b_id).
     satisfied (has_authorized_exactly_on taker_b_id base (tba0 + tbf0) dmn s) (
     and_then (leaf_at ls (makers + 2)) (\<lambda>taker_quote.
     let (tqa0, tqf0) = split_old_to_u128 taker_quote;
         (tqa1, tqf1) = split_new_to_u128 taker_quote in
     and_then (try_get_account c taker_quote) (\<lambda>(qk, taker_q_id).
     satisfied (has_authorized_exactly_on taker_q_id quote (tqa0 + tqf0) dmn s) (
     no_overflow (checked_add tqa0 tqf0) (\<lambda>tq0.
     no_overflow (checked_add tqa1 tqf1) (\<lambda>tq1.
     no_overflow (checked_sub tq0 tq1) (\<lambda>tq_delta.
     satisfied (bk = base \<and> qk = quote) (
     satisfied (taker_b_id = taker_q_id) (
     and_then (bid_makers c s dmn base quote ls [0 ..< makers div 2] (0, 0, [])) (\<lambda>(mb_delta, mq_delta, ms).
     let quote_charged = permill_mul_ceil (lib_arithmetic (vc_libs c)) maker_fee tq_delta in
     no_overflow (checked_add mq_delta quote_charged) (\<lambda>quote_sum.
     satisfied (quote_sum = tq_delta) (
     let base_charged = permill_mul_ceil (lib_arithmetic (vc_libs c)) taker_fee mb_delta in
     no_overflow (checked_add tb_delta base_charged) (\<lambda>base_sum.
     satisfied (base_sum = mb_delta) (
     satisfied (ask_delta = mb_delta) (
     satisfied (bid_delta \<noteq> 0 \<longrightarrow> bid_delta = amount - mb_delta) (
     no_overflow (checked_add tba1 tbf1) (\<lambda>tb_new.
     no_overflow (checked_add tqa1 tqf1) (\<lambda>tq_new.
     and_then (bid_prices price amount base quote makers (unat pages) ls ask_delta bid_delta tb_delta
         base_charged) (\<lambda>_.
     Inr \<lparr>cr_makers = ms,
          cr_taker = \<lparr>tk_who = taker_b_id, tk_unfilled_volume = tqf1, tk_filled_volume = tq_delta,
                      tk_filled_amount = mb_delta, tk_base_balance = tb_new,
                      tk_quote_balance = tq_new\<rparr>,
          cr_base_fee = base_charged, cr_quote_fee = quote_charged\<rparr>)))))))))))))))))))))))))"

section \<open>Transfers and cancellations\<close>

definition verify_transfer_in ::
  "('w, 'cb) verifier_config \<Rightarrow> u32 \<Rightarrow> u128 \<Rightarrow> account \<Rightarrow> merkle_leaf list \<Rightarrow> unit result" where
  "verify_transfer_in c currency amount who ls =
    satisfied (length ls = 1) (
    let l = ls ! 0;
        (a0, f0) = split_old_to_u128 l;
        (a1, f1) = split_new_to_u128 l in
    satisfied (a1 - a0 = amount) (
    satisfied (f1 = f0) (
    and_then (try_get_account c l) (\<lambda>(cy, id').
    satisfied (currency = cy \<and> who = id') (Inr ())))))"

definition check_fee :: "('w, 'cb) verifier_config \<Rightarrow> u32 \<Rightarrow> u32 \<Rightarrow> unit result" where
  "check_fee c taker_fee maker_fee =
    ensure (maker_fee \<le> max_maker_fee (vc_params c) \<and> taker_fee \<le> max_taker_fee (vc_params c))
      (verr FeesTooHigh) (Inr ())"

definition verify_transfer_out ::
  "('w, 'cb) verifier_config \<Rightarrow> u32 \<Rightarrow> u128 \<Rightarrow> account \<Rightarrow> merkle_leaf list \<Rightarrow> unit result" where
  "verify_transfer_out c currency amount who ls =
    satisfied (length ls = 1) (
    let l = ls ! 0;
        (a0, f0) = split_old_to_u128 l;
        (a1, f1) = split_new_to_u128 l in
    satisfied (a0 - a1 = amount) (
    satisfied (f1 = f0) (
    and_then (try_get_account c l) (\<lambda>(cy, id').
    satisfied (currency = cy \<and> who = id') (Inr ())))))"

definition verify_reject_transfer_out ::
  "('w, 'cb) verifier_config \<Rightarrow> u32 \<Rightarrow> u128 \<Rightarrow> account \<Rightarrow> merkle_leaf list \<Rightarrow> unit result" where
  "verify_reject_transfer_out c currency amount who ls =
    satisfied (length ls = 1) (
    let l = ls ! 0;
        (a0, _) = split_old_to_u128 l in
    satisfied (a0 < amount) (
    and_then (try_get_account c l) (\<lambda>(cy, id').
    satisfied (currency = cy \<and> who = id') (Inr ()))))"

text \<open>The unfilled amount a cancellation takes off its order page.\<close>

definition verify_cancel ::
  "('w, 'cb) verifier_config \<Rightarrow> u32 \<Rightarrow> u32 \<Rightarrow> account \<Rightarrow> merkle_leaf list \<Rightarrow> u128 result" where
  "verify_cancel c base quote who ls =
    satisfied (length ls = 5) (
    and_then (try_get_symbol (ls ! 0)) (\<lambda>(b, q).
    satisfied (b = base \<and> q = quote) (
    let (ask0, bid0) = split_old_to_u128 (ls ! 0);
        (ask1, bid1) = split_new_to_u128 (ls ! 0);
        ask_delta = ask0 - ask1;
        bid_delta = bid0 - bid1 in
    satisfied (ask_delta + bid_delta \<noteq> 0) (
    satisfied (and ask_delta bid_delta = 0) (
    and_then (try_get_account c (ls ! 1)) (\<lambda>(b, id').
    satisfied (b = base) (
    satisfied (who = id') (
    let (ba0, bf0) = split_old_to_u128 (ls ! 1);
        (ba1, bf1) = split_new_to_u128 (ls ! 1) in
    satisfied (ba0 + bf0 = ba1 + bf1) (
    and_then (try_get_account c (ls ! 2)) (\<lambda>(q, id').
    satisfied (q = quote) (
    satisfied (who = id') (
    let (qa0, qf0) = split_old_to_u128 (ls ! 2);
        (qa1, qf1) = split_new_to_u128 (ls ! 2) in
    satisfied (qa0 + qf0 = qa1 + qf1) (
    let (best_ask0, best_bid0) = split_old_to_u128 (ls ! 3) in
    and_then (try_get_orderpage (ls ! 4)) (\<lambda>(b, q, cancel_at).
    satisfied (b = base \<and> q = quote \<and> (best_ask0 \<le> cancel_at \<or> cancel_at \<le> best_bid0)) (
    let before_cancel = split_old_to_sum (ls ! 4);
        after_cancel = split_new_to_sum (ls ! 4);
        delta = before_cancel - after_cancel in
    satisfied (if best_ask0 \<le> cancel_at \<and> best_ask0 \<noteq> 0 then ask_delta = delta else bid_delta = delta) (
    Inr delta))))))))))))))))"

end
