(* ===== verification/Verifier_Staking.thy ===== *)
theory Verifier_Staking
  imports Verifier_Ledger
begin

text \<open>
  \<open>pallets/verifier/src/lib.rs\<close>, staking: the stakes on a dominator, the seasons in which they earn
  shares of the dominator's profit, the delayed release of what is unstaked, and the hook that
  closes seasons and releases stakes at each block.

  A season is \<open>season_duration\<close> blocks from the dominator's start. Its \<open>bonus\<close> collects the profit
  while it runs and the stake on the dominator when it ends.
\<close>

section \<open>Seasons\<close>

definition current_season ::
  "('w, 'cb) verifier_config \<Rightarrow> block_number \<Rightarrow> block_number \<Rightarrow> season result" where
  "current_season c now claim_at =
    (if now \<le> claim_at then Inr 0 else word_div (now - claim_at) (season_duration (vc_params c)))"

definition start_block_of_season ::
  "('w, 'cb) verifier_config \<Rightarrow> block_number \<Rightarrow> season \<Rightarrow> block_number" where
  "start_block_of_season c claim_at sn = claim_at + sn * season_duration (vc_params c)"

definition put_profit ::
  "account \<Rightarrow> season \<Rightarrow> token_id \<Rightarrow> u128 \<Rightarrow> ('w, 'cb) verifier_state \<Rightarrow> ('w, 'cb) verifier_state" where
  "put_profit dmn sn currency amount s =
    (if amount = 0 then s
     else s\<lparr>bonuses := (bonuses s)((dmn, sn) := (bonuses s (dmn, sn))
            \<lparr>bonus_profit := bt_upsert (\<lambda>p. p + amount) amount currency (bonus_profit (bonuses s (dmn, sn)))\<rparr>)\<rparr>)"

section \<open>Shares\<close>

record distribution =
  dist_from :: season
  dist_to :: season
  dist_staking :: u128

definition add_share :: "token_id \<Rightarrow> u128 \<Rightarrow> (token_id \<times> u128) list \<Rightarrow> (token_id \<times> u128) list" where
  "add_share token share shares = bt_upsert (\<lambda>v. v + share) share token shares"

text \<open>What one season adds to the shares: the staker's part of each token's profit.\<close>

definition season_shares ::
  "sp_arithmetic \<Rightarrow> u128 \<Rightarrow> bonus \<Rightarrow> (token_id \<times> u128) list \<Rightarrow> (token_id \<times> u128) list" where
  "season_shares ar held b shares =
    (if bonus_staked b = 0 \<or> bonus_profit b = [] then shares
     else
       let r = perquintill_from_rational ar held (bonus_staked b) in
       fold (\<lambda>(token, profit). add_share token (perquintill_mul ar r profit)) (bonus_profit b) shares)"

definition seasons_between :: "season \<Rightarrow> season \<Rightarrow> season list" where
  "seasons_between a b = List.map word_of_nat [unat a ..< unat b]"

definition all_shares ::
  "('w, 'cb) verifier_config \<Rightarrow> account \<Rightarrow> distribution \<Rightarrow> ('w, 'cb) verifier_state
    \<Rightarrow> (token_id \<times> u128) list" where
  "all_shares c dmn d s =
    fold (\<lambda>sn. season_shares (lib_arithmetic (vc_libs c)) (dist_staking d) (bonuses s (dmn, sn)))
      (seasons_between (dist_from d) (dist_to d)) []"

fun pay_shares ::
  "('w, 'cb) verifier_config \<Rightarrow> account \<Rightarrow> (token_id \<times> u128) list
    \<Rightarrow> ('w, 'cb) verifier_state \<Rightarrow> ('w, 'cb) verifier_state result" where
  "pay_shares c staker [] s = Inr s"
| "pay_shares c staker ((token, profit) # rest) s =
    and_then (on_world (as_try_mutate_account (vc_asset c) token staker
        (\<lambda>(fr, rs). Inr (fr + profit, rs))) s) (pay_shares c staker rest)"

definition take_shares ::
  "('w, 'cb) verifier_config \<Rightarrow> account \<Rightarrow> account \<Rightarrow> distribution
    \<Rightarrow> ('w, 'cb) verifier_state \<Rightarrow> (season \<times> ('w, 'cb) verifier_state) result" where
  "take_shares c staker dmn d s =
    (if dist_to d = dist_from d then Inr (dist_from d, s)
     else and_then (pay_shares c staker (all_shares c dmn d s) s) (\<lambda>s. Inr (dist_to d, s)))"

section \<open>Staking\<close>

text \<open>The status a stake gives a dominator that is neither registered nor evicted.\<close>

definition status_of_stake :: "('w, 'cb) verifier_config \<Rightarrow> u128 \<Rightarrow> u8" where
  "status_of_stake c amount =
    (if dominator_online_threshold (vc_params c) \<le> amount then DOMINATOR_ACTIVE else DOMINATOR_INACTIVE)"

definition stake_on ::
  "('w, 'cb) verifier_config \<Rightarrow> account \<Rightarrow> account \<Rightarrow> u128
    \<Rightarrow> ('w, 'cb) verifier_state \<Rightarrow> ('w, 'cb) verifier_state result" where
  "stake_on c staker dominator_id amount s =
    ensure (minimal_staking_amount (vc_params c) \<le> amount) (verr LittleStakingAmount) (
    and_then (ok_or (get_dominator dominator_id s) (verr DominatorNotFound)) (\<lambda>d.
    ensure (dom_status d = DOMINATOR_ACTIVE \<or> dom_status d = DOMINATOR_INACTIVE)
      (verr DominatorStatusInvalid) (
    let st = value_or no_staking (stakings s (dominator_id, staker)) in
    and_then (vf_reserve c RESERVE_FOR_STAKING staker (native_token_id c) amount dominator_id s) (\<lambda>s.
    and_then (current_season c (current_block c s) (dom_start d)) (\<lambda>sn.
    and_then
      (if staking_amount st \<noteq> 0 then
         and_then (take_shares c staker dominator_id
             \<lparr>dist_from = from_season st, dist_to = sn, dist_staking = staking_amount st\<rparr> s)
           (\<lambda>(_, s). Inr s)
       else Inr s) (\<lambda>s.
    let st' = \<lparr>from_season = sn, staking_amount = staking_amount st + amount\<rparr>;
        s = s\<lparr>stakings := (stakings s)((dominator_id, staker) \<mapsto> st')\<rparr>;
        d' = d\<lparr>dom_staked := dom_staked d + amount,
               dom_status := status_of_stake c (dom_staked d + amount)\<rparr>;
        s = deposit_verifier (TaoStaked staker dominator_id amount) s;
        s = (if dom_status d' = DOMINATOR_ACTIVE \<and> dom_status d = DOMINATOR_INACTIVE
             then deposit_verifier (DominatorOnlineEvent dominator_id) s else s) in
    Inr (put_dominator dominator_id d' s)))))))"

definition unstake_from ::
  "('w, 'cb) verifier_config \<Rightarrow> account \<Rightarrow> account \<Rightarrow> u128
    \<Rightarrow> ('w, 'cb) verifier_state \<Rightarrow> ('w, 'cb) verifier_state result" where
  "unstake_from c staker dominator_id amount s =
    and_then (ok_or (get_dominator dominator_id s) (verr DominatorNotFound)) (\<lambda>d.
    ensure (dom_status d \<noteq> DOMINATOR_REGISTERED) (verr DominatorStatusInvalid) (
    and_then (ok_or (checked_sub (dom_staked d) amount) (verr verifier_error.InsufficientBalance)) (\<lambda>total_staking.
    and_then (ok_or (stakings s (dominator_id, staker)) (verr InvalidStaking)) (\<lambda>st.
    and_then (ok_or (checked_sub (staking_amount st) amount)
        (verr verifier_error.InsufficientBalance)) (\<lambda>remain.
    ensure (remain = 0 \<or> minimal_staking_amount (vc_params c) \<le> remain) (verr LittleStakingAmount) (
    and_then (vf_unreserve c RESERVE_FOR_STAKING staker (native_token_id c) amount dominator_id s) (\<lambda>s.
    and_then (vf_reserve c RESERVE_FOR_PENDING_UNSTAKE staker (native_token_id c) amount
        (verifier_system_account (vc_params c)) s) (\<lambda>s.
    let block = current_block c s in
    and_then (current_season c block (dom_start d)) (\<lambda>sn.
    and_then (word_rem block (dominator_check_grace_period (vc_params c))) (\<lambda>rm.
    let unlock_at = (block - rm) + UNSTAKE_DELAY_BLOCKS in
    and_then (ok_or (checked_add (value_or 0 (map_of (pending_unstakings s unlock_at) staker)) amount)
        (verr verifier_error.Overflow)) (\<lambda>v.
    let s = s\<lparr>pending_unstakings := (pending_unstakings s)
                (unlock_at := AList.update staker v (pending_unstakings s unlock_at))\<rparr> in
    and_then (take_shares c staker dominator_id
        \<lparr>dist_from = from_season st, dist_to = sn, dist_staking = staking_amount st\<rparr> s) (\<lambda>(_, s).
    let st' = \<lparr>from_season = sn, staking_amount = remain\<rparr>;
        s = s\<lparr>stakings := (stakings s)((dominator_id, staker) := if remain \<noteq> 0 then Some st' else None)\<rparr>;
        d' = d\<lparr>dom_staked := total_staking,
               dom_status := (if dom_status d \<noteq> DOMINATOR_EVICTED then status_of_stake c total_staking
                              else dom_status d)\<rparr>;
        s = deposit_verifier (TaoUnstaked staker dominator_id amount) s;
        s = (if dom_status d' = DOMINATOR_INACTIVE \<and> dom_status d = DOMINATOR_ACTIVE
             then deposit_verifier (DominatorOfflineEvent dominator_id) s else s) in
    Inr (put_dominator dominator_id d' s)))))))))))))"

definition claim_shares ::
  "('w, 'cb) verifier_config \<Rightarrow> origin \<Rightarrow> nat \<Rightarrow> ('w, 'cb) verifier_state
    \<Rightarrow> ('w, 'cb) verifier_state result" where
  "claim_shares c o' source s =
    and_then (ensure_signed o') (\<lambda>signer.
    and_then (lib_lookup (vc_libs c) source) (\<lambda>dex.
    and_then (ok_or (get_dominator dex s) (verr DominatorNotFound)) (\<lambda>d.
    ensure (dom_status d \<noteq> DOMINATOR_REGISTERED) (verr DominatorStatusInvalid) (
    and_then (ok_or (stakings s (dex, signer)) (verr InvalidStaking)) (\<lambda>st.
    and_then (current_season c (current_block c s) (dom_start d)) (\<lambda>sn.
    and_then (take_shares c signer dex
        \<lparr>dist_from = from_season st, dist_to = sn, dist_staking = staking_amount st\<rparr> s) (\<lambda>(fs, s).
    Inr (s\<lparr>stakings := (stakings s)((dex, signer) \<mapsto> st\<lparr>from_season := fs\<rparr>)\<rparr>))))))))"

definition stake ::
  "('w, 'cb) verifier_config \<Rightarrow> origin \<Rightarrow> nat \<Rightarrow> u128 \<Rightarrow> ('w, 'cb) verifier_state
    \<Rightarrow> ('w, 'cb) verifier_state result" where
  "stake c o' source amount s =
    and_then (ensure_signed o') (\<lambda>staker.
    and_then (lib_lookup (vc_libs c) source) (\<lambda>dmn. stake_on c staker dmn amount s))"

definition unstake ::
  "('w, 'cb) verifier_config \<Rightarrow> origin \<Rightarrow> nat \<Rightarrow> u128 \<Rightarrow> ('w, 'cb) verifier_state
    \<Rightarrow> ('w, 'cb) verifier_state result" where
  "unstake c o' source amount s =
    and_then (ensure_signed o') (\<lambda>staker.
    and_then (lib_lookup (vc_libs c) source) (\<lambda>dmn. unstake_from c staker dmn amount s))"

section \<open>The block hook\<close>

fun close_seasons ::
  "('w, 'cb) verifier_config \<Rightarrow> block_number \<Rightarrow> (account \<times> dominator) list
    \<Rightarrow> ('w, 'cb) verifier_state \<Rightarrow> ('w, 'cb) verifier_state result" where
  "close_seasons c now [] s = Inr s"
| "close_seasons c now ((dmn, d) # rest) s =
    (if now = dom_start d then close_seasons c now rest s
     else
       and_then (word_rem (now - dom_start d) (season_duration (vc_params c))) (\<lambda>rm.
       if rm = 0 then
         let prv_season = (now - dom_start d) div season_duration (vc_params c) - 1 in
         close_seasons c now rest
           (s\<lparr>bonuses := (bonuses s)((dmn, prv_season) :=
               (bonuses s (dmn, prv_season))\<lparr>bonus_staked := dom_staked d\<rparr>)\<rparr>)
       else close_seasons c now rest s))"

text \<open>A release that fails is logged and dropped.\<close>

fun release_all ::
  "('w, 'cb) verifier_config \<Rightarrow> (account \<times> u128) list
    \<Rightarrow> ('w, 'cb) verifier_state \<Rightarrow> ('w, 'cb) verifier_state result" where
  "release_all c [] s = Inr s"
| "release_all c ((staker, amount) # rest) s =
    and_then (drop_error s
      (and_then (vf_unreserve c RESERVE_FOR_PENDING_UNSTAKE staker (native_token_id c) amount
          (verifier_system_account (vc_params c)) s)
        (\<lambda>s. Inr (deposit_verifier (TaoUnstakeUnlock staker amount) s))))
      (release_all c rest)"

definition on_initialize ::
  "('w, 'cb) verifier_config \<Rightarrow> block_number \<Rightarrow> ('w, 'cb) verifier_state
    \<Rightarrow> ('w, 'cb) verifier_state result" where
  "on_initialize c now s =
    and_then (word_rem now (dominator_check_grace_period (vc_params c))) (\<lambda>rm.
    if rm \<noteq> 0 then Inr s
    else
      and_then (close_seasons c now (dominators s) s) (\<lambda>s.
      release_all c (pending_unstakings s now)
        (s\<lparr>pending_unstakings := (pending_unstakings s)(now := [])\<rparr>)))"

section \<open>Queries\<close>

definition current_season_of_dominator ::
  "('w, 'cb) verifier_config \<Rightarrow> account \<Rightarrow> ('w, 'cb) verifier_state \<Rightarrow> season result" where
  "current_season_of_dominator c dmn s =
    current_season c (current_block c s) (value_or 0 (map_option dom_start (get_dominator dmn s)))"

definition season_total ::
  "sp_arithmetic \<Rightarrow> u128 \<Rightarrow> bonus \<Rightarrow> u128 \<Rightarrow> u128" where
  "season_total ar held b tot =
    (if bonus_staked b = 0 \<or> bonus_profit b = [] then tot
     else
       let r = perquintill_from_rational ar held (bonus_staked b) in
       fold (\<lambda>(_, profit) acc. acc + perquintill_mul ar r profit) (bonus_profit b) tot)"

definition pending_shares_of_dominator ::
  "('w, 'cb) verifier_config \<Rightarrow> account \<Rightarrow> account \<Rightarrow> ('w, 'cb) verifier_state \<Rightarrow> u128 result" where
  "pending_shares_of_dominator c dmn who s =
    (let start_at = value_or 0 (map_option dom_start (get_dominator dmn s)) in
     if start_at = 0 then Inr 0
     else
       and_then (current_season c (current_block c s) start_at) (\<lambda>sn.
       let st = value_or no_staking (stakings s (dmn, who)) in
       if staking_amount st = 0 then Inr 0
       else Inr (fold (\<lambda>n. season_total (lib_arithmetic (vc_libs c)) (staking_amount st) (bonuses s (dmn, n)))
              (seasons_between (from_season st) sn) 0)))"

end
