(* ===== verification/Verifier_Clearing.thy ===== *)
theory Verifier_Clearing
  imports Verifier_Proofs Verifier_Staking
begin

text \<open>
  \<open>pallets/verifier/src/lib.rs\<close>, the heart of the pallet: a dominator submits proofs, each the effect
  of one command on the Merkle tree it keeps off-chain. A proof is accepted when both its old
  leaves are in the tree of the last known root and its new leaves in the tree of the new root and
  the command's own checks hold; the balances it states are then settled in the ledger and the
  new root becomes the known one.

  \<open>verify_and_update\<close> is split by command: \<open>settle\<close> is what asks and bids do with the result of their
  checks, the others have one definition each.
\<close>

record trade =
  tr_token_id :: token_id
  tr_root :: merkle_hash
  tr_amount :: u128
  tr_vol :: u128

section \<open>Settlement of limit orders\<close>

fun settle_makers ::
  "('w, 'cb) verifier_config \<Rightarrow> account \<Rightarrow> u32 \<Rightarrow> u32 \<Rightarrow> block_number \<Rightarrow> maker_mutation list
    \<Rightarrow> ('w, 'cb) verifier_state \<Rightarrow> ('w, 'cb) verifier_state result" where
  "settle_makers c dmn base quote block [] s = Inr s"
| "settle_makers c dmn base quote block (d # ds) s =
    and_then (clear c (mk_who d) dmn base (mk_base_balance d) s) (\<lambda>s.
    and_then (clear c (mk_who d) dmn quote (mk_quote_balance d) s) (\<lambda>s.
    and_then (on_world (env_consume_liquidity (vc_env c) (mk_who d) (base, quote)
        (mk_filled_volume d) block) s)
      (settle_makers c dmn base quote block ds)))"

definition pay_fee ::
  "('w, 'cb) verifier_config \<Rightarrow> token_id \<Rightarrow> account \<Rightarrow> u128
    \<Rightarrow> ('w, 'cb) verifier_state \<Rightarrow> ('w, 'cb) verifier_state result" where
  "pay_fee c token who amount =
    on_world (as_try_mutate_account (vc_asset c) token who (\<lambda>(fr, rs). Inr (fr + amount, rs)))"

text \<open>The fee in base goes to the dominator's beneficiary, half of it, rounded up, to the broker.\<close>

definition pay_base_fee ::
  "('w, 'cb) verifier_config \<Rightarrow> account \<Rightarrow> account option \<Rightarrow> u32 \<Rightarrow> u128
    \<Rightarrow> ('w, 'cb) verifier_state \<Rightarrow> ('w, 'cb) verifier_state result" where
  "pay_base_fee c beneficiary bk base base_fee s =
    (if base_fee = 0 then Inr s
     else
       and_then
         (case bk of
            Some b \<Rightarrow>
              let ar = lib_arithmetic (vc_libs c);
                  near_half = permill_mul_ceil ar (permill_from_percent ar 50) base_fee in
              and_then (pay_fee c base (env_broker_beneficiary (vc_env c) b (world s)) near_half s) (\<lambda>s.
              no_overflow (checked_sub base_fee near_half) (\<lambda>rest. Inr (rest, s)))
          | None \<Rightarrow> Inr (base_fee, s))
         (\<lambda>(fee, s). pay_fee c base beneficiary fee s))"

definition settle ::
  "('w, 'cb) verifier_config \<Rightarrow> account \<Rightarrow> account \<Rightarrow> u32 \<Rightarrow> u32 \<Rightarrow> account option \<Rightarrow> block_number
    \<Rightarrow> season \<Rightarrow> clearing_result \<Rightarrow> ('w, 'cb) verifier_state \<Rightarrow> ('w, 'cb) verifier_state result" where
  "settle c dominator_id beneficiary base quote bk block sn cr s =
    and_then (settle_makers c dominator_id base quote block (cr_makers cr) s) (\<lambda>s.
    let tk = cr_taker cr in
    and_then (clear c (tk_who tk) dominator_id base (tk_base_balance tk) s) (\<lambda>s.
    and_then (clear c (tk_who tk) dominator_id quote (tk_quote_balance tk) s) (\<lambda>s.
    let s = s\<lparr>world := env_put_liquidity (vc_env c) (tk_who tk) (base, quote) (tk_unfilled_volume tk)
                block (world s)\<rparr>;
        s = put_profit dominator_id sn quote (cr_quote_fee cr) s in
    pay_base_fee c beneficiary bk base (cr_base_fee cr) s)))"

definition ask_limit ::
  "('w, 'cb) verifier_config \<Rightarrow> account \<Rightarrow> account \<Rightarrow> proof_v2 \<Rightarrow> block_number \<Rightarrow> season
    \<Rightarrow> u128 \<Rightarrow> u128 \<Rightarrow> u32 \<Rightarrow> u32 \<Rightarrow> u32 \<Rightarrow> u32 \<Rightarrow> account option
    \<Rightarrow> ('w, 'cb) verifier_state \<Rightarrow> (clearing_result \<times> ('w, 'cb) verifier_state) result" where
  "ask_limit c dominator_id beneficiary p block sn pr amount maker_fee taker_fee base quote bk s =
    and_then (check_fee c taker_fee maker_fee) (\<lambda>_.
    let ar = lib_arithmetic (vc_libs c);
        maker_fee = permill_from_parts ar maker_fee;
        taker_fee = permill_from_parts ar taker_fee in
    ensure (as_is_stable (vc_asset c) quote (world s)) (verr verifier_error.UnsupportedQuoteCurrency) (
    and_then (verify_ask_limit c s pr amount maker_fee taker_fee base quote (maker_account_delta p)
        (maker_page_delta p) dominator_id (leaves p)) (\<lambda>cr.
    and_then (settle c dominator_id beneficiary base quote bk block sn cr s) (\<lambda>s. Inr (cr, s)))))"

definition bid_limit ::
  "('w, 'cb) verifier_config \<Rightarrow> account \<Rightarrow> account \<Rightarrow> proof_v2 \<Rightarrow> block_number \<Rightarrow> season
    \<Rightarrow> u128 \<Rightarrow> u128 \<Rightarrow> u32 \<Rightarrow> u32 \<Rightarrow> u32 \<Rightarrow> u32 \<Rightarrow> account option
    \<Rightarrow> ('w, 'cb) verifier_state \<Rightarrow> (clearing_result \<times> ('w, 'cb) verifier_state) result" where
  "bid_limit c dominator_id beneficiary p block sn pr amount maker_fee taker_fee base quote bk s =
    and_then (check_fee c taker_fee maker_fee) (\<lambda>_.
    let ar = lib_arithmetic (vc_libs c);
        maker_fee = permill_from_parts ar maker_fee;
        taker_fee = permill_from_parts ar taker_fee in
    ensure (as_is_stable (vc_asset c) quote (world s)) (verr verifier_error.UnsupportedQuoteCurrency) (
    and_then (verify_bid_limit c s pr amount maker_fee taker_fee base quote (maker_account_delta p)
        (maker_page_delta p) dominator_id (leaves p)) (\<lambda>cr.
    and_then (settle c dominator_id beneficiary base quote bk block sn cr s) (\<lambda>s. Inr (cr, s)))))"

section \<open>Cancellations and transfers\<close>

definition cancel_order ::
  "('w, 'cb) verifier_config \<Rightarrow> proof_v2 \<Rightarrow> u32 \<Rightarrow> u32
    \<Rightarrow> ('w, 'cb) verifier_state \<Rightarrow> ('w, 'cb) verifier_state result" where
  "cancel_order c p base quote s =
    and_then (verify_cancel c base quote (user_id p) (leaves p)) (\<lambda>unfilled.
    drop_error s (on_world (\<lambda>w. and_then (env_remove_liquidity (vc_env c) (user_id p) (base, quote)
      unfilled w) (\<lambda>(_, w). Inr w)) s))"

text \<open>A receipt that asks for this revocation.\<close>

fun revokes :: "u32 \<Rightarrow> u128 \<Rightarrow> 'cb receipt \<Rightarrow> bool" where
  "revokes currency amount (Revoke t v _) \<longleftrightarrow> t = currency \<and> v = amount"
| "revokes currency amount (RevokeWithCallback t v _ _) \<longleftrightarrow> t = currency \<and> v = amount"
| "revokes currency amount (Authorize _ _ _) \<longleftrightarrow> False"

fun authorizes :: "u32 \<Rightarrow> u128 \<Rightarrow> 'cb receipt \<Rightarrow> bool" where
  "authorizes currency amount (Authorize t v _) \<longleftrightarrow> t = currency \<and> v = amount"
| "authorizes currency amount _ \<longleftrightarrow> False"

text \<open>The callback runs as its own call; if it fails the error is logged and dropped.\<close>

fun run_callback ::
  "('w, 'cb) verifier_config \<Rightarrow> account \<Rightarrow> 'cb receipt
    \<Rightarrow> ('w, 'cb) verifier_state \<Rightarrow> ('w, 'cb) verifier_state result" where
  "run_callback c who (RevokeWithCallback _ _ _ cb) s = drop_error s (vc_dispatch c cb who s)"
| "run_callback c who _ s = Inr s"

definition transfer_out ::
  "('w, 'cb) verifier_config \<Rightarrow> account \<Rightarrow> proof_v2 \<Rightarrow> u32 \<Rightarrow> u128
    \<Rightarrow> ('w, 'cb) verifier_state \<Rightarrow> ('w, 'cb) verifier_state result" where
  "transfer_out c dominator_id p currency amount s =
    and_then (ok_or (receipts s (dominator_id, user_id p)) (verr ReceiptNotExists)) (\<lambda>r.
    ensure (revokes currency amount r) (verr ReceiptNotExists) (
    and_then (verify_transfer_out c currency amount (user_id p) (leaves p)) (\<lambda>_.
    and_then (vf_unreserve c RESERVE_FOR_AUTHORIZING (user_id p) currency amount dominator_id s) (\<lambda>s.
    run_callback c (user_id p) r (s\<lparr>receipts := (receipts s)((dominator_id, user_id p) := None)\<rparr>)))))"

definition transfer_in ::
  "('w, 'cb) verifier_config \<Rightarrow> account \<Rightarrow> proof_v2 \<Rightarrow> u32 \<Rightarrow> u128
    \<Rightarrow> ('w, 'cb) verifier_state \<Rightarrow> ('w, 'cb) verifier_state result" where
  "transfer_in c dominator_id p currency amount s =
    and_then (ok_or (receipts s (dominator_id, user_id p)) (verr ReceiptNotExists)) (\<lambda>r.
    ensure (authorizes currency amount r) (verr ReceiptNotExists) (
    and_then (verify_transfer_in c currency amount (user_id p) (leaves p)) (\<lambda>_.
    let ks = ((RESERVE_FOR_AUTHORIZING_STASH, user_id p, currency), dominator_id);
        ka = ((RESERVE_FOR_AUTHORIZING, user_id p, currency), dominator_id);
        s = s\<lparr>reserves := (reserves s)(ks := None)\<rparr> in
    no_overflow (checked_add (get_reserve ka s) amount) (\<lambda>v.
    Inr (s\<lparr>reserves := (reserves s)(ka \<mapsto> v),
           receipts := (receipts s)((dominator_id, user_id p) := None)\<rparr>)))))"

definition reject_transfer_out ::
  "('w, 'cb) verifier_config \<Rightarrow> account \<Rightarrow> proof_v2 \<Rightarrow> u32 \<Rightarrow> u128
    \<Rightarrow> ('w, 'cb) verifier_state \<Rightarrow> ('w, 'cb) verifier_state result" where
  "reject_transfer_out c dominator_id p currency amount s =
    and_then (ok_or (receipts s (dominator_id, user_id p)) (verr ReceiptNotExists)) (\<lambda>r.
    ensure (revokes currency amount r) (verr ReceiptNotExists) (
    and_then (verify_reject_transfer_out c currency amount (user_id p) (leaves p)) (\<lambda>_.
    Inr (s\<lparr>receipts := (receipts s)((dominator_id, user_id p) := None)\<rparr>))))"

definition reject_transfer_in ::
  "account \<Rightarrow> proof_v2 \<Rightarrow> ('w, 'cb) verifier_state \<Rightarrow> ('w, 'cb) verifier_state result" where
  "reject_transfer_in dominator_id p s =
    (case receipts s (dominator_id, user_id p) of
       None \<Rightarrow> Inr s
     | Some r \<Rightarrow>
         ensure (case r of Authorize _ _ _ \<Rightarrow> True | _ \<Rightarrow> False) (verr ReceiptNotExists)
           (Inr (s\<lparr>receipts := (receipts s)((dominator_id, user_id p) := None)\<rparr>)))"

section \<open>Proofs\<close>

text \<open>The two Merkle checks; an error of the tree library counts as a failed check.\<close>

definition check_proof :: "('w, 'cb) verifier_config \<Rightarrow> merkle_hash \<Rightarrow> proof_v2 \<Rightarrow> bool" where
  "check_proof c known_root p \<longleftrightarrow>
    lib_smt_verify (vc_libs c) (merkle_proof p) known_root
        (List.map (\<lambda>l. (lib_hashing (vc_libs c) (leaf_key l), old_v l)) (leaves p)) = Some True
    \<and> lib_smt_verify (vc_libs c) (merkle_proof p) (proof_root p)
        (List.map (\<lambda>l. (lib_hashing (vc_libs c) (leaf_key l), new_v l)) (leaves p)) = Some True"

text \<open>The end of an accepted step: the dominator's root and sequence move on.\<close>

definition advance ::
  "account \<Rightarrow> proof_v2 \<Rightarrow> block_number \<Rightarrow> trade
    \<Rightarrow> ('w, 'cb) verifier_state \<Rightarrow> (trade \<times> ('w, 'cb) verifier_state) result" where
  "advance dominator_id p block tr s =
    (case get_dominator dominator_id s of
       None \<Rightarrow> Inl Panic
     | Some d \<Rightarrow>
         Inr (tr\<lparr>tr_root := proof_root p\<rparr>,
           put_dominator dominator_id
             (d\<lparr>merkle_root := proof_root p, dom_sequence := (event_id p, block)\<rparr>) s))"

definition traded :: "trade \<Rightarrow> u32 \<Rightarrow> clearing_result \<Rightarrow> trade" where
  "traded tr base cr =
    tr\<lparr>tr_token_id := base, tr_amount := tr_amount tr + tk_filled_amount (cr_taker cr),
       tr_vol := tr_vol tr + tk_filled_volume (cr_taker cr)\<rparr>"

definition verify_and_update ::
  "('w, 'cb) verifier_config \<Rightarrow> account \<Rightarrow> account \<Rightarrow> merkle_hash \<Rightarrow> block_number \<Rightarrow> proof_v2
    \<Rightarrow> ('w, 'cb) verifier_state \<Rightarrow> (trade \<times> ('w, 'cb) verifier_state) result" where
  "verify_and_update c dominator_id beneficiary known_root claim_at p s =
    satisfied (check_proof c known_root p) (
    let block = current_block c s in
    and_then (current_season c block claim_at) (\<lambda>sn.
    let tr = \<lparr>tr_token_id = 0, tr_root = known_root, tr_amount = 0, tr_vol = 0\<rparr> in
    case cmd p of
      AskLimit pr amount maker_fee taker_fee base quote bk \<Rightarrow>
        and_then (ask_limit c dominator_id beneficiary p block sn pr amount maker_fee taker_fee base
            quote bk s) (\<lambda>(cr, s).
        advance dominator_id p block (traded tr base cr) s)
    | BidLimit pr amount maker_fee taker_fee base quote bk \<Rightarrow>
        and_then (bid_limit c dominator_id beneficiary p block sn pr amount maker_fee taker_fee base
            quote bk s) (\<lambda>(cr, s).
        advance dominator_id p block (traded tr base cr) s)
    | Cancel base quote \<Rightarrow>
        and_then (cancel_order c p base quote s) (advance dominator_id p block tr)
    | TransferOut currency amount \<Rightarrow>
        and_then (transfer_out c dominator_id p currency amount s) (advance dominator_id p block tr)
    | TransferIn currency amount \<Rightarrow>
        and_then (transfer_in c dominator_id p currency amount s) (advance dominator_id p block tr)
    | RejectTransferOut currency amount \<Rightarrow>
        and_then (reject_transfer_out c dominator_id p currency amount s) (\<lambda>s. Inr (tr, s))
    | RejectTransferIn \<Rightarrow>
        and_then (reject_transfer_in dominator_id p s) (\<lambda>s. Inr (tr, s))))"

text \<open>The loop of \<open>verify_batch\<close>: each proof starts from the root the one before it reached; the
  traded amounts and volumes add up per token.\<close>

type_synonym turnover = "(token_id \<times> (u128 \<times> u128)) list"

definition add_turnover :: "trade \<Rightarrow> turnover \<Rightarrow> turnover" where
  "add_turnover tr incr =
    (if tr_amount tr \<noteq> 0 \<and> tr_vol tr \<noteq> 0
     then bt_upsert (\<lambda>(b, q). (b + tr_amount tr, q + tr_vol tr)) (tr_amount tr, tr_vol tr) (tr_token_id tr) incr
     else incr)"

fun verify_all ::
  "('w, 'cb) verifier_config \<Rightarrow> account \<Rightarrow> account \<Rightarrow> block_number \<Rightarrow> proof_v2 list
    \<Rightarrow> merkle_hash \<times> turnover \<times> ('w, 'cb) verifier_state
    \<Rightarrow> (merkle_hash \<times> turnover \<times> ('w, 'cb) verifier_state) result" where
  "verify_all c dominator_id beneficiary claim_at [] acc = Inr acc"
| "verify_all c dominator_id beneficiary claim_at (p # ps) (known_root, incr, s) =
    and_then (verify_and_update c dominator_id beneficiary known_root claim_at p s) (\<lambda>(tr, s).
    verify_all c dominator_id beneficiary claim_at ps (tr_root tr, add_turnover tr incr, s))"

definition verify_batch ::
  "('w, 'cb) verifier_config \<Rightarrow> account \<Rightarrow> account \<Rightarrow> dominator \<Rightarrow> proof_v2 list
    \<Rightarrow> ('w, 'cb) verifier_state \<Rightarrow> ('w, 'cb) verifier_state result" where
  "verify_batch c dominator_id beneficiary d ps s =
    and_then (verify_all c dominator_id beneficiary (dom_start d) ps (merkle_root d, [], s)) (\<lambda>(_, incr, s).
    let block = current_block c s in
    Inr (s\<lparr>world := fold (\<lambda>(token, b, q). env_set_price (vc_env c) token b q block) incr (world s)\<rparr>))"

section \<open>Dispatchables\<close>

text \<open>The common start of the four calls: an active dominator and its beneficiary.\<close>

definition active_dominator ::
  "origin \<Rightarrow> ('w, 'cb) verifier_state \<Rightarrow> (account \<times> dominator) result" where
  "active_dominator o' s =
    and_then (ensure_signed o') (\<lambda>dominator_id.
    and_then (ok_or (get_dominator dominator_id s) (verr DominatorNotFound)) (\<lambda>d.
    ensure (dom_status d = DOMINATOR_ACTIVE) (verr DominatorInactive) (Inr (dominator_id, d))))"

definition beneficiary_of :: "account \<Rightarrow> ('w, 'cb) verifier_state \<Rightarrow> account" where
  "beneficiary_of dominator_id s =
    value_or dominator_id (Option.bind (dominator_settings s dominator_id) set_beneficiary)"

definition uncompress :: "('w, 'cb) verifier_config \<Rightarrow> bytes \<Rightarrow> bytes result" where
  "uncompress c compressed =
    and_then (ok_or (lib_uncompressed_size (vc_libs c) compressed) (verr ProofDecompressError)) (\<lambda>(sz, input).
    ensure (sz < MAX_PROOF_SIZE) (verr ProofTooLarge) (
    ok_or (lib_decompress (vc_libs c) input sz) (verr ProofDecompressError)))"

definition verify ::
  "('w, 'cb) verifier_config \<Rightarrow> origin \<Rightarrow> proof_v1 list
    \<Rightarrow> ('w, 'cb) verifier_state \<Rightarrow> ('w, 'cb) verifier_state result" where
  "verify c o' ps s =
    and_then (active_dominator o' s) (\<lambda>(dominator_id, d).
    verify_batch c dominator_id (beneficiary_of dominator_id s) d (List.map proof_v2_from ps) s)"

definition verify_v2 ::
  "('w, 'cb) verifier_config \<Rightarrow> origin \<Rightarrow> proof_v2 list
    \<Rightarrow> ('w, 'cb) verifier_state \<Rightarrow> ('w, 'cb) verifier_state result" where
  "verify_v2 c o' ps s =
    and_then (active_dominator o' s) (\<lambda>(dominator_id, d).
    verify_batch c dominator_id (beneficiary_of dominator_id s) d ps s)"

definition verify_compress ::
  "('w, 'cb) verifier_config \<Rightarrow> origin \<Rightarrow> bytes
    \<Rightarrow> ('w, 'cb) verifier_state \<Rightarrow> ('w, 'cb) verifier_state result" where
  "verify_compress c o' compressed s =
    and_then (active_dominator o' s) (\<lambda>(dominator_id, d).
    and_then (uncompress c compressed) (\<lambda>raw.
    and_then (ok_or (lib_decode_proofs (vc_libs c) raw) (verr ProofFormatError)) (\<lambda>ps.
    verify_batch c dominator_id (beneficiary_of dominator_id s) d (List.map proof_v2_from ps) s)))"

definition verify_compress_v2 ::
  "('w, 'cb) verifier_config \<Rightarrow> origin \<Rightarrow> bytes
    \<Rightarrow> ('w, 'cb) verifier_state \<Rightarrow> ('w, 'cb) verifier_state result" where
  "verify_compress_v2 c o' compressed s =
    and_then (active_dominator o' s) (\<lambda>(dominator_id, d).
    and_then (uncompress c compressed) (\<lambda>raw.
    and_then (ok_or (lib_decode_proofs_v2 (vc_libs c) raw) (verr ProofFormatError)) (\<lambda>ps.
    verify_batch c dominator_id (beneficiary_of dominator_id s) d ps s)))"

end
