(* ===== verification/Verifier_Calls.thy ===== *)
theory Verifier_Calls
  imports Verifier_Clearing
begin

text \<open>
  \<open>pallets/verifier/src/lib.rs\<close>, the remaining dispatchables: registration and administration of
  dominators, their settings, and the calls that wrap the \<open>Custody\<close> interface.
\<close>

definition register ::
  "('w, 'cb) verifier_config \<Rightarrow> origin \<Rightarrow> bytes
    \<Rightarrow> ('w, 'cb) verifier_state \<Rightarrow> ('w, 'cb) verifier_state result" where
  "register c o' name s =
    and_then (ensure_signed o') (\<lambda>dmn.
    ensure (lib_ascii_valid (vc_libs c) name) (verr InvalidName) (
    ensure (2 \<le> length name \<and> length name \<le> 32) (verr InvalidName) (
    let block = current_block c s;
        grace = dominator_check_grace_period (vc_params c) in
    ensure (grace \<le> block) (verr TooEarlyToRegister) (
    ensure (get_dominator dmn s = None) (verr DominatorAlreadyExists) (
    ensure (\<not> list_ex (\<lambda>(_, d). dom_name d = name) (dominators s)) (verr InvalidName) (
    and_then (word_rem block grace) (\<lambda>rm.
    Inr (deposit_verifier (DominatorClaimed dmn)
      (put_dominator dmn
        \<lparr>dom_name = name, dom_staked = 0, merkle_root = replicate 32 0, dom_start = block - rm,
         dom_sequence = (0, block), dom_status = DOMINATOR_REGISTERED\<rparr> s)))))))))"

definition evict ::
  "('w, 'cb) verifier_config \<Rightarrow> origin \<Rightarrow> nat
    \<Rightarrow> ('w, 'cb) verifier_state \<Rightarrow> ('w, 'cb) verifier_state result" where
  "evict c o' source s =
    and_then (ensure_root o') (\<lambda>_.
    and_then (lib_lookup (vc_libs c) source) (\<lambda>dmn.
    and_then (ok_or (get_dominator dmn s) (verr DominatorNotFound)) (\<lambda>d.
    Inr (deposit_verifier (DominatorEvictedEvent dmn)
      (put_dominator dmn (d\<lparr>dom_status := DOMINATOR_EVICTED\<rparr>) s)))))"

definition launch ::
  "('w, 'cb) verifier_config \<Rightarrow> origin \<Rightarrow> nat
    \<Rightarrow> ('w, 'cb) verifier_state \<Rightarrow> ('w, 'cb) verifier_state result" where
  "launch c o' source s =
    and_then (ensure_root o') (\<lambda>_.
    and_then (lib_lookup (vc_libs c) source) (\<lambda>dmn.
    and_then (ok_or (get_dominator dmn s) (verr DominatorNotFound)) (\<lambda>d.
    ensure (dom_status d = DOMINATOR_REGISTERED) (verr DominatorStatusInvalid) (
    Inr (deposit_verifier (DominatorInactiveEvent dmn)
      (put_dominator dmn (d\<lparr>dom_status := DOMINATOR_INACTIVE\<rparr>) s))))))"

definition put_setting ::
  "account \<Rightarrow> dominator_setting \<Rightarrow> ('w, 'cb) verifier_state \<Rightarrow> ('w, 'cb) verifier_state" where
  "put_setting dmn x s = s\<lparr>dominator_settings := (dominator_settings s)(dmn \<mapsto> x)\<rparr>"

definition dominator_set_pubkey ::
  "origin \<Rightarrow> bytes \<Rightarrow> ('w, 'cb) verifier_state \<Rightarrow> ('w, 'cb) verifier_state result" where
  "dominator_set_pubkey o' key s =
    and_then (ensure_signed o') (\<lambda>dmn.
    ensure (get_dominator dmn s \<noteq> None) (verr DominatorNotFound) (
    let x = (case dominator_settings s dmn of
               Some x \<Rightarrow> x\<lparr>x25519_pubkey := key\<rparr>
             | None \<Rightarrow> \<lparr>set_beneficiary = None, x25519_pubkey = key, set_rpc_endpoint = []\<rparr>) in
    Inr (deposit_verifier (DominatorX25519KeyUpdated dmn key) (put_setting dmn x s))))"

definition dominator_set_rpc_endpoint ::
  "origin \<Rightarrow> bytes \<Rightarrow> ('w, 'cb) verifier_state \<Rightarrow> ('w, 'cb) verifier_state result" where
  "dominator_set_rpc_endpoint o' endpoint s =
    and_then (ensure_signed o') (\<lambda>dmn.
    ensure (get_dominator dmn s \<noteq> None) (verr DominatorNotFound) (
    let x = (case dominator_settings s dmn of
               Some x \<Rightarrow> x\<lparr>set_rpc_endpoint := endpoint\<rparr>
             | None \<Rightarrow> \<lparr>set_beneficiary = None, x25519_pubkey = [], set_rpc_endpoint = endpoint\<rparr>) in
    Inr (deposit_verifier (DominatorRpcEndpointUpdated dmn endpoint) (put_setting dmn x s))))"

text \<open>The old beneficiary signs its nonce and the new beneficiary; the nonce then moves on.\<close>

definition validate_beneficiary ::
  "('w, 'cb) verifier_config \<Rightarrow> account option \<Rightarrow> bytes \<Rightarrow> account
    \<Rightarrow> ('w, 'cb) verifier_state \<Rightarrow> ('w, 'cb) verifier_state result" where
  "validate_beneficiary c old signature new s =
    (case old of
       Some o' \<Rightarrow>
         if lib_beneficiary_signed (vc_libs c) signature (env_account_nonce (vc_env c) o' (world s)) new o'
         then Inr (s\<lparr>world := env_inc_account_nonce (vc_env c) o' (world s)\<rparr>)
         else Inl (verr InvalidBeneficiaryProof)
     | None \<Rightarrow> Inr s)"

definition dominator_set_beneficiary ::
  "('w, 'cb) verifier_config \<Rightarrow> origin \<Rightarrow> account \<Rightarrow> bytes
    \<Rightarrow> ('w, 'cb) verifier_state \<Rightarrow> ('w, 'cb) verifier_state result" where
  "dominator_set_beneficiary c o' new signature s =
    and_then (ensure_signed o') (\<lambda>dmn.
    ensure (get_dominator dmn s \<noteq> None) (verr DominatorNotFound) (
    case dominator_settings s dmn of
      Some x \<Rightarrow>
        and_then (validate_beneficiary c (set_beneficiary x) signature new s) (\<lambda>s.
        Inr (put_setting dmn (x\<lparr>set_beneficiary := Some new\<rparr>) s))
    | None \<Rightarrow>
        Inr (put_setting dmn
          \<lparr>set_beneficiary = Some new, x25519_pubkey = [], set_rpc_endpoint = []\<rparr> s)))"

definition authorize ::
  "('w, 'cb) verifier_config \<Rightarrow> origin \<Rightarrow> nat \<Rightarrow> token_id \<Rightarrow> u128
    \<Rightarrow> ('w, 'cb) verifier_state \<Rightarrow> ('w, 'cb) verifier_state result" where
  "authorize c o' source token amount s =
    and_then (ensure_signed o') (\<lambda>fund_owner.
    and_then (lib_lookup (vc_libs c) source) (\<lambda>dex. authorize_to c fund_owner dex token amount s))"

definition revoke ::
  "('w, 'cb) verifier_config \<Rightarrow> origin \<Rightarrow> nat \<Rightarrow> token_id \<Rightarrow> u128
    \<Rightarrow> ('w, 'cb) verifier_state \<Rightarrow> ('w, 'cb) verifier_state result" where
  "revoke c o' source token amount s =
    and_then (ensure_signed o') (\<lambda>fund_owner.
    and_then (lib_lookup (vc_libs c) source) (\<lambda>dmn.
    revoke_from c fund_owner dmn token (Some amount) None s))"

definition revoke_with_callback ::
  "('w, 'cb) verifier_config \<Rightarrow> origin \<Rightarrow> nat \<Rightarrow> token_id \<Rightarrow> u128 \<Rightarrow> 'cb
    \<Rightarrow> ('w, 'cb) verifier_state \<Rightarrow> ('w, 'cb) verifier_state result" where
  "revoke_with_callback c o' source token amount callback s =
    and_then (ensure_signed o') (\<lambda>fund_owner.
    and_then (lib_lookup (vc_libs c) source) (\<lambda>dmn.
    revoke_from c fund_owner dmn token (Some amount) (Some callback) s))"

definition vf_open_market ::
  "('w, 'cb) verifier_config \<Rightarrow> origin \<Rightarrow> token_id \<Rightarrow> token_id \<Rightarrow> u8 \<Rightarrow> u8 \<Rightarrow> u128
    \<Rightarrow> ('w, 'cb) verifier_state \<Rightarrow> ('w, 'cb) verifier_state result" where
  "vf_open_market c o' base quote bs qs mb s =
    and_then (ensure_signed o') (\<lambda>dmn.
    ensure (get_dominator dmn s \<noteq> None) (verr DominatorNotFound) (
    on_world (env_open_market (vc_env c) dmn base quote bs qs mb) s))"

section \<open>The calls of the pallet\<close>

text \<open>The variants of the pallet's \<open>Call\<close> enumeration and their dispatch.\<close>

datatype 'cb verifier_call =
    CallRegister bytes
  | CallEvict nat
  | CallLaunch nat
  | CallSetPubkey bytes
  | CallSetRpcEndpoint bytes
  | CallSetBeneficiary account bytes
  | CallVerifyCompress bytes
  | CallVerify "proof_v1 list"
  | CallVerifyCompressV2 bytes
  | CallVerifyV2 "proof_v2 list"
  | CallStake nat u128
  | CallUnstake nat u128
  | CallClaimShares nat
  | CallAuthorize nat token_id u128
  | CallRevoke nat token_id u128
  | CallRevokeWithCallback nat token_id u128 'cb
  | CallOpenMarket token_id token_id u8 u8 u128

fun run_verifier_call ::
  "('w, 'cb) verifier_config \<Rightarrow> 'cb verifier_call \<Rightarrow> origin
    \<Rightarrow> ('w, 'cb) verifier_state \<Rightarrow> ('w, 'cb) verifier_state result" where
  "run_verifier_call c (CallRegister name) o' s = register c o' name s"
| "run_verifier_call c (CallEvict d) o' s = evict c o' d s"
| "run_verifier_call c (CallLaunch d) o' s = launch c o' d s"
| "run_verifier_call c (CallSetPubkey key) o' s = dominator_set_pubkey o' key s"
| "run_verifier_call c (CallSetRpcEndpoint e) o' s = dominator_set_rpc_endpoint o' e s"
| "run_verifier_call c (CallSetBeneficiary new sg) o' s = dominator_set_beneficiary c o' new sg s"
| "run_verifier_call c (CallVerifyCompress bs) o' s = verify_compress c o' bs s"
| "run_verifier_call c (CallVerify ps) o' s = verify c o' ps s"
| "run_verifier_call c (CallVerifyCompressV2 bs) o' s = verify_compress_v2 c o' bs s"
| "run_verifier_call c (CallVerifyV2 ps) o' s = verify_v2 c o' ps s"
| "run_verifier_call c (CallStake d v) o' s = stake c o' d v s"
| "run_verifier_call c (CallUnstake d v) o' s = unstake c o' d v s"
| "run_verifier_call c (CallClaimShares d) o' s = claim_shares c o' d s"
| "run_verifier_call c (CallAuthorize d t v) o' s = authorize c o' d t v s"
| "run_verifier_call c (CallRevoke d t v) o' s = revoke c o' d t v s"
| "run_verifier_call c (CallRevokeWithCallback d t v cb) o' s = revoke_with_callback c o' d t v cb s"
| "run_verifier_call c (CallOpenMarket b q bs qs mb) o' s = vf_open_market c o' b q bs qs mb s"

end
