(* ===== verification/Bridge_Handler.thy ===== *)
theory Bridge_Handler
  imports Bridge Verifier_Calls
begin

text \<open>
  \<open>pallets/chainbridge-handler/src/lib.rs\<close>: the two directions of the token bridge. Out: a native
  transfer is locked on the bridge account, any other token is burnt; the fee goes to the treasury. In:
  native tokens come back from the bridge account, others are minted, and if the resource id names a
  dominator the amount is authorised to it. The fee is set in dollars and converted with the price of
  the token.
\<close>

record ('n, 'p) handler_state = "('n, 'p) bridge_state" +
  native_check :: bool
  bridging_fee :: "chain_id \<Rightarrow> u128"
  associated_dominator :: "u8 \<Rightarrow> account option"

record 'n handler_config =
  hd_token :: "'n token_config"
  hd_bridge :: bridge_config
  hd_admin_origin :: "origin \<Rightarrow> bool"
  hd_native_max :: u128
  hd_donor :: account
  hd_donation :: u128
  hd_arithmetic :: sp_arithmetic

text \<open>The fee of a chain for which none is set.\<close>

definition default_bridging_fee :: u128 where
  "default_bridging_fee = QUINTILL * 2"

abbreviation herr :: "handler_error \<Rightarrow> dispatch_error" where
  "herr \<equiv> HandlerError"

definition is_native_resource :: "bridge_config \<Rightarrow> resource_id \<Rightarrow> bool" where
  "is_native_resource c rid =
    (case decode_resource_id rid of
       Inl _ \<Rightarrow> False
     | Inr (chain, _, p) \<Rightarrow>
         (case decode_resource_id (br_native_resource_id c) of
            Inl _ \<Rightarrow> False
          | Inr (native_chain, _, p0) \<Rightarrow> native_chain = chain \<and> p = p0))"

text \<open>The token a resource id stands for.\<close>

definition token_of_resource ::
  "resource_id \<Rightarrow> ('n, 'z) token_state_scheme \<Rightarrow> token_id result" where
  "token_of_resource rid w =
    and_then (map_err (herr handler_error.InvalidResourceId) (decode_resource_id rid)) (\<lambda>(chain, _, contract).
    ok_or (try_get_asset_id chain contract w) (herr handler_error.InvalidResourceId))"

section \<open>Out\<close>

definition calculate_bridging_fee ::
  "'n handler_config \<Rightarrow> chain_id \<Rightarrow> token_id \<Rightarrow> ('n, 'p, 'z) handler_state_scheme \<Rightarrow> u128" where
  "calculate_bridging_fee c dest token w =
    (let pr = get_price (hd_token c) token w;
         usd = bridging_fee w dest in
     if pr = 0 \<or> usd = 0 then 0
     else usd div pr * QUINTILL + ucast (perquintill_from_rational (hd_arithmetic c) (usd mod pr) pr))"

definition do_lock ::
  "'n handler_config \<Rightarrow> account \<Rightarrow> u128 \<Rightarrow> resource_id \<Rightarrow> bytes \<Rightarrow> chain_id
    \<Rightarrow> ('n, 'p, 'z) handler_state_scheme \<Rightarrow> ('n, 'p, 'z) handler_state_scheme result" where
  "do_lock c sender amount rid recipient dest w =
    (let bridge_id = br_account (hd_bridge c);
         tok = native_id (hd_token c) in
     ensure (native_check w \<longrightarrow> free_balance (hd_token c) tok bridge_id w + amount \<le> hd_native_max c div 3)
       (herr OverTransferLimit) (
     let fee = calculate_bridging_fee c dest tok w in
     ensure (fee + fee < amount) (herr LessThanBridgingThreshold) (
     and_then (transfer_token (hd_token c) sender tok fee (br_treasury (hd_bridge c)) w) (\<lambda>w.
     and_then (transfer_token (hd_token c) sender tok (amount - fee) bridge_id w) (\<lambda>w.
     transfer_fungible dest rid recipient (ucast (amount - fee)) w)))))"

definition do_burn_assets ::
  "'n handler_config \<Rightarrow> account \<Rightarrow> u128 \<Rightarrow> resource_id \<Rightarrow> bytes \<Rightarrow> chain_id
    \<Rightarrow> ('n, 'p, 'z) handler_state_scheme \<Rightarrow> ('n, 'p, 'z) handler_state_scheme result" where
  "do_burn_assets c who amount rid recipient dest w =
    and_then (token_of_resource rid w) (\<lambda>tok.
    and_then (token_external_decimals (hd_token c) tok w) (\<lambda>decimals.
    let standard_amount = transform_decimals_to_standard amount decimals;
        fee = calculate_bridging_fee c dest tok w in
    ensure (fee + fee < standard_amount) (herr LessThanBridgingThreshold) (
    let external_bridge_amount = transform_decimals_to_external (standard_amount - fee) decimals;
        standard_bridge_amount = transform_decimals_to_standard external_bridge_amount decimals;
        actual_fee = standard_amount - standard_bridge_amount in
    and_then (transfer_token (hd_token c) who tok actual_fee (br_treasury (hd_bridge c)) w) (\<lambda>w.
    and_then (burn_from tok who external_bridge_amount w) (\<lambda>(_, w).
    transfer_fungible dest rid recipient (ucast external_bridge_amount) w)))))"

definition bridge_transfer_out ::
  "'n handler_config \<Rightarrow> origin \<Rightarrow> u128 \<Rightarrow> resource_id \<Rightarrow> bytes \<Rightarrow> chain_id
    \<Rightarrow> ('n, 'p, 'z) handler_state_scheme \<Rightarrow> ('n, 'p, 'z) handler_state_scheme result" where
  "bridge_transfer_out c o' amount rid recipient dest w =
    and_then (ensure_signed o') (\<lambda>source.
    ensure (chain_whitelisted dest w) (herr InvalidTransfer) (
    if is_native_resource (hd_bridge c) rid then do_lock c source amount rid recipient dest w
    else do_burn_assets c source amount rid recipient dest w))"

section \<open>In\<close>

definition do_unlock ::
  "'n handler_config \<Rightarrow> account \<Rightarrow> account \<Rightarrow> u128
    \<Rightarrow> ('n, 'z) token_state_scheme \<Rightarrow> ('n, 'z) token_state_scheme result" where
  "do_unlock c sender target amount w =
    transfer_token (hd_token c) sender (native_id (hd_token c)) amount target w"

definition do_mint_assets ::
  "account \<Rightarrow> u128 \<Rightarrow> resource_id
    \<Rightarrow> ('n, 'z) token_state_scheme \<Rightarrow> ('n, 'z) token_state_scheme result" where
  "do_mint_assets who amount rid w =
    and_then (token_of_resource rid w) (\<lambda>tok. mint_into tok who amount w)"

text \<open>
  The end of both branches: the amount in standard units goes to the dominator the resource id names,
  if there is one; an authorisation that fails is logged and dropped.
\<close>

definition authorize_associated ::
  "'n handler_config \<Rightarrow> (('n, 'p, 'z) handler_state_scheme, 'cb) verifier_config
    \<Rightarrow> account \<Rightarrow> u128 \<Rightarrow> u8 \<Rightarrow> token_id result
    \<Rightarrow> (('n, 'p, 'z) handler_state_scheme, 'cb) verifier_state
    \<Rightarrow> (('n, 'p, 'z) handler_state_scheme, 'cb) verifier_state result" where
  "authorize_associated c vc target amount associated token s =
    (case associated_dominator (world s) associated of
       None \<Rightarrow> Inr s
     | Some dmn \<Rightarrow>
         and_then token (\<lambda>tok.
         and_then (map_err (herr handler_error.InvalidResourceId)
             (to_asset_balance (hd_token c) amount tok (world s))) (\<lambda>b.
         drop_error s (authorize_to vc target dmn tok b s))))"

definition donate ::
  "'n token_config \<Rightarrow> account \<Rightarrow> u128 \<Rightarrow> account
    \<Rightarrow> ('n, 'z) token_state_scheme \<Rightarrow> ('n, 'z) token_state_scheme result" where
  "donate c donor amount target w =
    (if account_nonce w target = 0
     then drop_error w (transfer_token c donor (native_id c) amount target w)
     else Inr w)"

definition bridge_transfer_in ::
  "'n handler_config \<Rightarrow> (('n, 'p, 'z) handler_state_scheme, 'cb) verifier_config
    \<Rightarrow> origin \<Rightarrow> account \<Rightarrow> u128 \<Rightarrow> resource_id
    \<Rightarrow> (('n, 'p, 'z) handler_state_scheme, 'cb) verifier_state
    \<Rightarrow> (('n, 'p, 'z) handler_state_scheme, 'cb) verifier_state result" where
  "bridge_transfer_in c vc o' target amount rid s =
    and_then (ensure_bridge (hd_bridge c) o') (\<lambda>source.
    and_then
      (if is_native_resource (hd_bridge c) rid then
         and_then (on_world (do_unlock c source target amount) s) (\<lambda>s.
         and_then (map_err (herr handler_error.InvalidResourceId) (decode_resource_id rid)) (\<lambda>(_, associated, _).
         authorize_associated c vc target amount associated (Inr (native_id (hd_token c))) s))
       else
         and_then (on_world (do_mint_assets target amount rid) s) (\<lambda>s.
         and_then (map_err (herr handler_error.InvalidResourceId) (decode_resource_id rid)) (\<lambda>(_, associated, _).
         authorize_associated c vc target amount associated (token_of_resource rid (world s)) s)))
      (on_world (donate (hd_token c) (hd_donor c) (hd_donation c) target)))"

section \<open>Administration\<close>

definition native_limit ::
  "origin \<Rightarrow> bool \<Rightarrow> ('n, 'p, 'z) handler_state_scheme \<Rightarrow> ('n, 'p, 'z) handler_state_scheme result" where
  "native_limit o' v w = and_then (ensure_root o') (\<lambda>_. Inr (w\<lparr>native_check := v\<rparr>))"

definition associate_dominator ::
  "'n handler_config \<Rightarrow> origin \<Rightarrow> u8 \<Rightarrow> account
    \<Rightarrow> ('n, 'p, 'z) handler_state_scheme \<Rightarrow> ('n, 'p, 'z) handler_state_scheme result" where
  "associate_dominator c o' i dmn w =
    ensure (br_admin_origin (hd_bridge c) o') BadOrigin (
    Inr (w\<lparr>associated_dominator := (associated_dominator w)(i \<mapsto> dmn)\<rparr>))"

definition remark ::
  "'n handler_config \<Rightarrow> origin \<Rightarrow> bytes \<Rightarrow> bytes \<Rightarrow> resource_id
    \<Rightarrow> ('n, 'p, 'z) handler_state_scheme \<Rightarrow> ('n, 'p, 'z) handler_state_scheme result" where
  "remark c o' message depositer rid w = and_then (ensure_bridge (hd_bridge c) o') (\<lambda>_. Inr w)"

definition update_bridge_fee ::
  "'n handler_config \<Rightarrow> origin \<Rightarrow> chain_id \<Rightarrow> u128
    \<Rightarrow> ('n, 'p, 'z) handler_state_scheme \<Rightarrow> ('n, 'p, 'z) handler_state_scheme result" where
  "update_bridge_fee c o' ch fee w =
    ensure (hd_admin_origin c o') BadOrigin (Inr (w\<lparr>bridging_fee := (bridging_fee w)(ch := fee)\<rparr>))"

section \<open>The calls of the pallet\<close>

datatype handler_call =
    HandlerNativeLimit bool
  | HandlerTransferOut u128 resource_id bytes chain_id
  | HandlerTransferIn account u128 resource_id
  | HandlerAssociateDominator u8 account
  | HandlerRemark bytes bytes resource_id
  | HandlerUpdateFee chain_id u128

fun run_handler_call ::
  "'n handler_config \<Rightarrow> (('n, 'p, 'z) handler_state_scheme, 'cb) verifier_config
    \<Rightarrow> handler_call \<Rightarrow> origin \<Rightarrow> (('n, 'p, 'z) handler_state_scheme, 'cb) verifier_state
    \<Rightarrow> (('n, 'p, 'z) handler_state_scheme, 'cb) verifier_state result" where
  "run_handler_call c vc (HandlerNativeLimit v) o' s = on_world (native_limit o' v) s"
| "run_handler_call c vc (HandlerTransferOut amount rid recipient dest) o' s =
    on_world (bridge_transfer_out c o' amount rid recipient dest) s"
| "run_handler_call c vc (HandlerTransferIn target amount rid) o' s =
    bridge_transfer_in c vc o' target amount rid s"
| "run_handler_call c vc (HandlerAssociateDominator i dmn) o' s = on_world (associate_dominator c o' i dmn) s"
| "run_handler_call c vc (HandlerRemark m d rid) o' s = on_world (remark c o' m d rid) s"
| "run_handler_call c vc (HandlerUpdateFee ch fee) o' s = on_world (update_bridge_fee c o' ch fee) s"

end
