(* ===== verification/Bot.thy ===== *)
theory Bot
  imports Bridge_Handler
begin

text \<open>
  \<open>pallets/bot/src/lib.rs\<close>: trading bots. A creator registers a bot for a pair and pays a fixed stake
  to the pallet. A user deposits both tokens of the pair into two accounts derived from the user, the
  bot and the token, and the pallet authorises them to a dominator; the user may revoke and withdraw.
\<close>

record bot =
  bot_staked :: u128
  bot_symbol :: "token_id \<times> token_id"
  bot_name :: bytes
  bot_max_instance :: u32
  bot_current_instance :: u32
  bot_min_base :: u128
  bot_min_quote :: u128
  bot_users :: "account list"
  bot_desc :: bytes

datatype bot_event = BotCreated account token_id token_id

record ('n, 'p) bot_state = "('n, 'p) handler_state" +
  bots :: "account \<Rightarrow> bot option"
  bot_events :: "bot_event list"

text \<open>The derivation hashes the three parts with a prefix; the hash is a parameter.\<close>

record 'n bot_config =
  bot_assets :: "'n token_config"
  bot_staking_threshold :: u128
  bot_system_account :: account
  derive_sub_account :: "account \<Rightarrow> account \<Rightarrow> token_id \<Rightarrow> account"

abbreviation boterr :: "bot_error \<Rightarrow> dispatch_error" where
  "boterr \<equiv> BotError"

definition register_bot ::
  "'n bot_config \<Rightarrow> account \<Rightarrow> token_id \<times> token_id \<Rightarrow> bytes \<Rightarrow> u32 \<Rightarrow> u128 \<Rightarrow> u128 \<Rightarrow> bytes
    \<Rightarrow> ('n, 'p, 'z) bot_state_scheme \<Rightarrow> ('n, 'p, 'z) bot_state_scheme result" where
  "register_bot c creator symbol name max_instance mb mq desc w =
    ensure (bots w creator = None) (boterr BotAlreadyExist) (
    ensure (fst symbol \<noteq> snd symbol) (boterr InvalidSymbol) (
    ensure (is_stable (bot_assets c) (snd symbol) w) (boterr InvalidSymbol) (
    let requires = bot_staking_threshold c in
    and_then (transfer_token (bot_assets c) creator (native_id (bot_assets c)) requires
        (bot_system_account c) w) (\<lambda>w.
    let b = \<lparr>bot_staked = requires, bot_symbol = symbol, bot_name = name,
             bot_max_instance = max_instance, bot_current_instance = 0, bot_min_base = mb,
             bot_min_quote = mq, bot_users = [], bot_desc = desc\<rparr> in
    Inr (w\<lparr>bots := (bots w)(creator \<mapsto> b),
           bot_events := bot_events w @ [BotCreated creator (fst symbol) (snd symbol)]\<rparr>)))))"

text \<open>The user counts once, however often it deposits.\<close>

definition add_user :: "account \<Rightarrow> bot \<Rightarrow> bot" where
  "add_user who b =
    (if who \<in> set (bot_users b) then b
     else b\<lparr>bot_users := bot_users b @ [who], bot_current_instance := bot_current_instance b + 1\<rparr>)"

definition deposit_into_sub ::
  "'n bot_config \<Rightarrow> (('n, 'p, 'z) bot_state_scheme, 'cb) verifier_config
    \<Rightarrow> account \<Rightarrow> account \<Rightarrow> account \<Rightarrow> u128 \<Rightarrow> u128
    \<Rightarrow> (('n, 'p, 'z) bot_state_scheme, 'cb) verifier_state
    \<Rightarrow> (('n, 'p, 'z) bot_state_scheme, 'cb) verifier_state result" where
  "deposit_into_sub c vc from' bot_id dmn base_amount quote_amount s =
    and_then (ok_or (bots (world s) bot_id) (boterr BotNotFound)) (\<lambda>b.
    ensure (bot_current_instance b + 1 \<le> bot_max_instance b) (boterr BeyondMaxInstance) (
    ensure (bot_min_base b \<le> base_amount) (boterr MinimalAmountRequired) (
    ensure (bot_min_quote b \<le> quote_amount) (boterr MinimalAmountRequired) (
    let (base, quote) = bot_symbol b;
        sub0 = derive_sub_account c from' bot_id base;
        sub1 = derive_sub_account c from' bot_id quote in
    and_then (on_world (transfer_token (bot_assets c) from' base base_amount sub0) s) (\<lambda>s.
    and_then (on_world (transfer_token (bot_assets c) from' quote quote_amount sub1) s) (\<lambda>s.
    and_then (authorize_to vc sub0 dmn base base_amount s) (\<lambda>s.
    and_then (authorize_to vc sub1 dmn quote quote_amount s) (\<lambda>s.
    case bots (world s) bot_id of
      None \<Rightarrow> Inl Panic
    | Some bb \<Rightarrow> Inr (s\<lparr>world := (world s)\<lparr>bots := (bots (world s))(bot_id \<mapsto> add_user from' bb)\<rparr>\<rparr>)))))))))"

definition withdraw_from_sub ::
  "'n bot_config \<Rightarrow> account \<Rightarrow> account \<Rightarrow> token_id
    \<Rightarrow> ('n, 'p, 'z) bot_state_scheme \<Rightarrow> ('n, 'p, 'z) bot_state_scheme result" where
  "withdraw_from_sub c from' bot_id cur w =
    and_then (ok_or (bots w bot_id) (boterr BotNotFound)) (\<lambda>b.
    let (base, quote) = bot_symbol b;
        sub0 = derive_sub_account c from' bot_id base;
        sub1 = derive_sub_account c from' bot_id quote;
        balance0 = free_balance (bot_assets c) cur sub0 w;
        balance1 = free_balance (bot_assets c) cur sub1 w in
    and_then (transfer_token (bot_assets c) sub0 cur balance0 from' w)
      (transfer_token (bot_assets c) sub1 cur balance1 from'))"

definition revoke_to_sub ::
  "'n bot_config \<Rightarrow> (('n, 'p, 'z) bot_state_scheme, 'cb) verifier_config
    \<Rightarrow> account \<Rightarrow> account \<Rightarrow> account \<Rightarrow> token_id
    \<Rightarrow> (('n, 'p, 'z) bot_state_scheme, 'cb) verifier_state
    \<Rightarrow> (('n, 'p, 'z) bot_state_scheme, 'cb) verifier_state result" where
  "revoke_to_sub c vc from' bot_id dmn cur s =
    and_then (ok_or (bots (world s) bot_id) (boterr BotNotFound)) (\<lambda>b.
    let (base, quote) = bot_symbol b;
        sub0 = derive_sub_account c from' bot_id base;
        sub1 = derive_sub_account c from' bot_id quote in
    and_then (revoke_from vc sub0 dmn cur None None s)
      (revoke_from vc sub1 dmn cur None None))"

section \<open>The calls of the pallet\<close>

datatype bot_call =
    BotRegister "token_id \<times> token_id" bytes u32 u128 u128 bytes
  | BotDeposit account account u128 u128
  | BotRevoke account account token_id
  | BotWithdraw account token_id

fun run_bot_call ::
  "'n bot_config \<Rightarrow> (('n, 'p, 'z) bot_state_scheme, 'cb) verifier_config
    \<Rightarrow> bot_call \<Rightarrow> origin \<Rightarrow> (('n, 'p, 'z) bot_state_scheme, 'cb) verifier_state
    \<Rightarrow> (('n, 'p, 'z) bot_state_scheme, 'cb) verifier_state result" where
  "run_bot_call c vc (BotRegister symbol name mx mb mq desc) o' s =
    and_then (ensure_signed o') (\<lambda>who. on_world (register_bot c who symbol name mx mb mq desc) s)"
| "run_bot_call c vc (BotDeposit bot_id dmn b q) o' s =
    and_then (ensure_signed o') (\<lambda>who. deposit_into_sub c vc who bot_id dmn b q s)"
| "run_bot_call c vc (BotRevoke bot_id dmn t) o' s =
    and_then (ensure_signed o') (\<lambda>who. revoke_to_sub c vc who bot_id dmn t s)"
| "run_bot_call c vc (BotWithdraw bot_id t) o' s =
    and_then (ensure_signed o') (\<lambda>who. on_world (withdraw_from_sub c who bot_id t) s)"

end
