(* ===== verification/Agent.thy ===== *)
theory Agent
  imports Bot
begin

text \<open>
  \<open>pallets/agent/src/lib.rs\<close>: calls signed with an Ethereum key. An unsigned extrinsic carries a call,
  a nonce and an ECDSA signature; the account is a hash of the recovered address. Validation checks the
  nonce, counts it up and takes the fee; the call then runs with the account as its origin.

  SCALE encoding, hexadecimal text, Keccak, Blake2, key recovery and the weights of calls are
  parameters, as are the fee constants.
\<close>

datatype 'p external_verifiable =
    Ed25519 bytes 'p u32 bytes
  | Ecdsa 'p u32 bytes

datatype dispatch_class = ClassNormal | ClassOperational | ClassMandatory

record weight =
  ref_time :: u64
  proof_size :: u64

record ('n, 'p) agent_config =
  ag_encode :: "u32 \<Rightarrow> 'p \<Rightarrow> bytes"
  ag_hex :: "bytes \<Rightarrow> bytes"
  ag_keccak :: "bytes \<Rightarrow> bytes"
  ag_recover :: "bytes \<Rightarrow> bytes \<Rightarrow> bytes option"
  ag_blake2 :: "bytes \<Rightarrow> bytes"
  ag_decode_account :: "bytes \<Rightarrow> account option"
  ag_network :: u16
  ag_info :: "'p \<Rightarrow> weight \<times> dispatch_class"
  ag_encoded_size :: "'p external_verifiable \<Rightarrow> nat"
  ag_max_length :: u32
  ag_max_block :: weight
  ag_base_extrinsic :: "dispatch_class \<Rightarrow> weight"
  ag_byte_fee :: u128
  ag_weight_to_fee :: "weight \<Rightarrow> u128"
  ag_withdraw :: "account \<Rightarrow> u128 \<Rightarrow> 'n \<Rightarrow> 'n result"

record ('n, 'p) agent_state = "('n, 'p) bot_state" +
  agent_events :: "(account \<times> dispatch_error option) list"

section \<open>Who signed\<close>

fun decimal :: "nat \<Rightarrow> bytes" where
  "decimal n = (if n < 10 then [word_of_nat (48 + n)] else decimal (n div 10) @ [word_of_nat (48 + n mod 10)])"

definition ascii :: "string \<Rightarrow> bytes" where
  "ascii cs = List.map (\<lambda>ch. word_of_nat (of_char ch)) cs"

text \<open>The text an Ethereum wallet signs: the payload in hexadecimal behind the usual prefix.\<close>

definition extend_payload :: "('n, 'p) agent_config \<Rightarrow> u32 \<Rightarrow> 'p \<Rightarrow> bytes" where
  "extend_payload c nonce tx =
    (let encoded_payload = ag_encode c nonce tx in
     [0x19] @ ascii ''Ethereum Signed Message:'' @ [10] @ decimal (length encoded_payload * 2)
       @ ag_hex c encoded_payload)"

text \<open>A byte vector of less than 64 bytes in SCALE: its length in the upper bits of one byte, its bytes.\<close>

definition encode_short :: "bytes \<Rightarrow> bytes" where
  "encode_short bs = word_of_nat (4 * length bs) # bs"

definition extract_signer :: "('n, 'p) agent_config \<Rightarrow> 'p external_verifiable \<Rightarrow> account result" where
  "extract_signer c sg =
    (case sg of
       Ed25519 _ _ _ _ \<Rightarrow> Inl (AgentError InvalidSignature)
     | Ecdsa tx nonce signature \<Rightarrow>
         let digest = ag_keccak c (extend_payload c nonce tx) in
         and_then (ok_or (ag_recover c signature digest) (AgentError InvalidSignature)) (\<lambda>pubkey.
         let address = drop 12 (ag_keccak c pubkey);
             h = ag_blake2 c (ascii ''-*-#fusotao#-*-'' @ le_bytes 2 (unat (ag_network c)) @ encode_short address) in
         ok_or (ag_decode_account c h) (AgentError InvalidSignature)))"

section \<open>Fees\<close>

definition weight_min :: "weight \<Rightarrow> weight \<Rightarrow> weight" where
  "weight_min a b = \<lparr>ref_time = min (ref_time a) (ref_time b), proof_size = min (proof_size a) (proof_size b)\<rparr>"

definition any_lt :: "weight \<Rightarrow> weight \<Rightarrow> bool" where
  "any_lt a b \<longleftrightarrow> ref_time a < ref_time b \<or> proof_size a < proof_size b"

definition weight_div :: "weight \<Rightarrow> u64 \<Rightarrow> weight" where
  "weight_div a n = \<lparr>ref_time = ref_time a div n, proof_size = proof_size a div n\<rparr>"

definition saturating_mul :: "'a::len word \<Rightarrow> 'a word \<Rightarrow> 'a word" where
  "saturating_mul a b = (if unat a * unat b < 2 ^ LENGTH('a) then a * b else - 1)"

definition weight_to_fee :: "('n, 'p) agent_config \<Rightarrow> weight \<Rightarrow> u128" where
  "weight_to_fee c w = ag_weight_to_fee c (weight_min w (ag_max_block c))"

definition compute_fee :: "('n, 'p) agent_config \<Rightarrow> u32 \<Rightarrow> weight \<Rightarrow> dispatch_class \<Rightarrow> u128" where
  "compute_fee c len w cl =
    (let len_fee = saturating_mul (ag_byte_fee c) (ucast len);
         weight_fee = weight_to_fee c w;
         base_fee = weight_to_fee c (ag_base_extrinsic c cl) in
     saturating_add (saturating_add base_fee len_fee) weight_fee)"

section \<open>Validation\<close>

datatype invalid_transaction = BadProof | ExhaustsResources | Payment | InvalidCall

record valid_transaction =
  vt_priority :: u64
  vt_provides :: account
  vt_longevity :: nat

definition withdraw_fee ::
  "('n, 'p) agent_config \<Rightarrow> account \<Rightarrow> u128 \<Rightarrow> ('n, 'z) token_state_scheme
    \<Rightarrow> invalid_transaction + ('n, 'z) token_state_scheme" where
  "withdraw_fee c who fee w =
    (if fee = 0 then Inr w
     else and_then (map_err Payment (ag_withdraw c who fee (native w))) (\<lambda>n. Inr (w\<lparr>native := n\<rparr>)))"

fun nonce_of :: "'p external_verifiable \<Rightarrow> u32" where
  "nonce_of (Ed25519 _ _ nonce _) = nonce"
| "nonce_of (Ecdsa _ nonce _) = nonce"

fun call_of :: "'p external_verifiable \<Rightarrow> 'p" where
  "call_of (Ed25519 _ tx _ _) = tx"
| "call_of (Ecdsa tx _ _) = tx"

definition validate_unsigned ::
  "('n, 'p) agent_config \<Rightarrow> 'p external_verifiable \<Rightarrow> ('n, 'z) token_state_scheme
    \<Rightarrow> invalid_transaction + (valid_transaction \<times> ('n, 'z) token_state_scheme)" where
  "validate_unsigned c tx w =
    and_then (map_err BadProof (extract_signer c tx)) (\<lambda>who.
    ensure (account_nonce w who = nonce_of tx) BadProof (
    let w = w\<lparr>account_nonce := (account_nonce w)(who := account_nonce w who + 1)\<rparr>;
        (wt, cl) = ag_info c (call_of tx);
        size' = ag_encoded_size c tx in
    ensure (size' < 2 ^ 32) ExhaustsResources (
    let len = word_of_nat size' in
    ensure (len < ag_max_length c) ExhaustsResources (
    ensure (any_lt wt (weight_div (ag_max_block c) 5)) ExhaustsResources (
    let fee = compute_fee c len wt cl in
    and_then (withdraw_fee c who fee w) (\<lambda>w.
    Inr (\<lparr>vt_priority = ref_time wt, vt_provides = who, vt_longevity = 5\<rparr>, w)))))))"

section \<open>The call of the pallet\<close>

definition ensure_none :: "origin \<Rightarrow> unit result" where
  "ensure_none o' = (case o' of NoneOrigin \<Rightarrow> Inr () | _ \<Rightarrow> Inl BadOrigin)"

definition agent_emit ::
  "account \<Rightarrow> dispatch_error option \<Rightarrow> (('n, 'p, 'z) agent_state_scheme, 'cb) verifier_state
    \<Rightarrow> (('n, 'p, 'z) agent_state_scheme, 'cb) verifier_state" where
  "agent_emit who r s = s\<lparr>world := (world s)\<lparr>agent_events := agent_events (world s) @ [(who, r)]\<rparr>\<rparr>"

text \<open>The result of the call, error or not, is left in an event; the extrinsic itself succeeds.\<close>

definition submit_external_tx ::
  "('n, 'p) agent_config \<Rightarrow> ('p, (('n, 'p, 'z) agent_state_scheme, 'cb) verifier_state) dispatch
    \<Rightarrow> origin \<Rightarrow> 'p external_verifiable \<Rightarrow> (('n, 'p, 'z) agent_state_scheme, 'cb) verifier_state
    \<Rightarrow> (('n, 'p, 'z) agent_state_scheme, 'cb) verifier_state result" where
  "submit_external_tx c dispatch o' tx s =
    and_then (ensure_none o') (\<lambda>_.
    and_then (extract_signer c tx) (\<lambda>who.
    case tx of
      Ed25519 _ _ _ _ \<Rightarrow> Inl (AgentError InvalidSignature)
    | Ecdsa call _ _ \<Rightarrow>
        (case dispatch call who s of
           Inl e \<Rightarrow> if e = Panic then Inl Panic else Inr (agent_emit who (Some e) s)
         | Inr s' \<Rightarrow> Inr (agent_emit who None s'))))"

end
