(* ===== verification/Token_Asset.thy ===== *)
theory Token_Asset
  imports Token_Laws Asset_Interface Reference
begin

text \<open>
  The token pallet as the provider of the interface \<open>ReservableToken\<close>: its operations as a record,
  and the proof that they keep the laws of \<open>reservable_asset\<close>. For the native token the pallet
  passes the calls on to \<open>pallet_balances\<close>, so the laws hold for it as far as they do there, which
  \<open>balances_laws\<close> states; for every other token they are theorems.
\<close>

definition token_asset :: "'n token_config \<Rightarrow> ('n, 'z) token_state_scheme asset" where
  "token_asset c =
    \<lparr>as_native_token_id = native_id c, as_is_stable = is_stable c, as_free = free_balance c,
     as_reserved = reserved_balance c, as_can_reserve = can_reserve c, as_reserve = reserve c,
     as_unreserve = unreserve c, as_try_mutate_account = try_mutate_account c\<rparr>"

text \<open>
  What the documentation of \<open>pallet_balances\<close> promises: a reserve moves the amount or fails, an
  \<open>unreserve\<close> of at most the reserved balance moves it, a mutation of an account writes what its
  closure returns (the existential deposit is one unit, so no account is dust), transfers, burns and
  the issuance leave the reserved balances.
\<close>

definition moves_reserved :: "'n native_currency \<Rightarrow> account \<Rightarrow> nat \<Rightarrow> nat \<Rightarrow> 'n \<Rightarrow> 'n \<Rightarrow> bool" where
  "moves_reserved cur a inc dec n n' \<longleftrightarrow>
    unat (nc_reserved cur a n') + dec = unat (nc_reserved cur a n) + inc
    \<and> (\<forall>b. b \<noteq> a \<longrightarrow> nc_reserved cur b n' = nc_reserved cur b n)"

definition keeps_reserved :: "'n native_currency \<Rightarrow> 'n \<Rightarrow> 'n \<Rightarrow> bool" where
  "keeps_reserved cur n n' \<longleftrightarrow> (\<forall>b. nc_reserved cur b n' = nc_reserved cur b n)"

definition balances_laws :: "'n native_currency \<Rightarrow> bool" where
  "balances_laws cur \<longleftrightarrow>
    (\<forall>a v n n'. nc_reserve cur a v n = Inr n' \<longrightarrow> moves_reserved cur a (unat v) 0 n n')
    \<and> (\<forall>a v n. v \<le> nc_reserved cur a n \<longrightarrow> moves_reserved cur a 0 (unat v) n (nc_unreserve cur a v n))
    \<and> (\<forall>a f n n'. nc_mutate_account cur a f n = Inr n' \<longrightarrow>
        (\<exists>p. f (nc_free cur a n, nc_reserved cur a n) = Inr (p, nc_reserved cur a n'))
        \<and> (\<forall>b. b \<noteq> a \<longrightarrow> nc_reserved cur b n' = nc_reserved cur b n))
    \<and> (\<forall>a b v n n'. nc_transfer cur a b v n = Inr n' \<longrightarrow> keeps_reserved cur n n')
    \<and> (\<forall>a v n n'. nc_burn_from cur a v n = Inr n' \<longrightarrow> keeps_reserved cur n n')
    \<and> (\<forall>v n. keeps_reserved cur n (nc_set_issuance cur v n))"

lemma balances_lawsD:
  assumes "balances_laws cur"
  shows "nc_reserve cur a v n = Inr n' \<Longrightarrow> moves_reserved cur a (unat v) 0 n n'"
    and "v \<le> nc_reserved cur a n \<Longrightarrow> moves_reserved cur a 0 (unat v) n (nc_unreserve cur a v n)"
    and "nc_mutate_account cur a f n = Inr n' \<Longrightarrow>
      (\<exists>p. f (nc_free cur a n, nc_reserved cur a n) = Inr (p, nc_reserved cur a n'))
      \<and> (\<forall>b. b \<noteq> a \<longrightarrow> nc_reserved cur b n' = nc_reserved cur b n)"
    and "nc_transfer cur a b v n = Inr n' \<Longrightarrow> keeps_reserved cur n n'"
    and "nc_burn_from cur a v n = Inr n' \<Longrightarrow> keeps_reserved cur n n'"
    and "keeps_reserved cur n (nc_set_issuance cur v n)"
  using assms by (simp_all add: balances_laws_def)

definition good_token :: "'n token_config \<Rightarrow> token_id \<Rightarrow> bool" where
  "good_token c t \<longleftrightarrow> (t = native_id c \<longrightarrow> balances_laws (currency c))"

lemma token_asset_simps [simp]:
  "as_native_token_id (token_asset c) = native_id c" "as_is_stable (token_asset c) = is_stable c"
  "as_free (token_asset c) = free_balance c" "as_reserved (token_asset c) = reserved_balance c"
  "as_can_reserve (token_asset c) = can_reserve c" "as_reserve (token_asset c) = reserve c"
  "as_unreserve (token_asset c) = unreserve c"
  "as_try_mutate_account (token_asset c) = try_mutate_account c"
  by (simp_all add: token_asset_def)

text \<open>What each operation does to the reserved balance of every account in every good token.\<close>

lemma reserved_other [simp]:
  "reserved_balance c u b (deposit_token e s) = reserved_balance c u b s"
  by (simp add: reserved_balance_def deposit_token_def get_token_balance_def)

lemma acc_reserved_keep_alive [simp]:
  "acc_reserved (value_or no_account (keep_alive a)) = acc_reserved a"
  by (simp add: keep_alive_def no_account_def)

lemma reserve_moves:
  assumes "reserve c t a v s = Inr s'" and "good_token c u"
  shows "unat (reserved_balance c u b s')
    = unat (reserved_balance c u b s) + (if u = t \<and> b = a then unat v else 0)"
proof (cases "t = native_id c \<and> v \<noteq> 0")
  case True
  then obtain n where n: "nc_reserve (currency c) a v (native s) = Inr n" and s': "s' = s\<lparr>native := n\<rparr>"
    using assms(1) by (auto simp: reserve_def and_then_Inr)
  show ?thesis
  proof (cases "u = t")
    case u: True
    then have "moves_reserved (currency c) a (unat v) 0 (native s) n"
      using balances_lawsD(1) [OF _ n] True assms(2) by (simp add: good_token_def)
    then show ?thesis using True u by (auto simp: s' reserved_balance_def moves_reserved_def)
  next
    case False
    then show ?thesis using True by (simp add: s' reserved_balance_def get_token_balance_def)
  qed
next
  case False
  then show ?thesis
    using assms(1) by (auto simp: reserve_def result_simps reserved_balance_def get_token_balance_def
        deposit_token_def split: if_splits)
qed

lemma unreserve_moves:
  assumes "unreserve c t a v s = Inr s'" and "good_token c u"
  shows "unat (reserved_balance c u b s)
    = unat (reserved_balance c u b s') + (if u = t \<and> b = a then unat v else 0)"
proof (cases "t = native_id c \<and> v \<noteq> 0")
  case True
  then have le: "v \<le> nc_reserved (currency c) a (native s)"
    and s': "s' = s\<lparr>native := nc_unreserve (currency c) a v (native s)\<rparr>"
    using assms(1) by (auto simp: unreserve_def ensure_Inr)
  show ?thesis
  proof (cases "u = t")
    case u: True
    then have "moves_reserved (currency c) a 0 (unat v) (native s) (nc_unreserve (currency c) a v (native s))"
      using balances_lawsD(2) [OF _ le] True assms(2) by (simp add: good_token_def)
    then show ?thesis using True u by (auto simp: s' reserved_balance_def moves_reserved_def)
  next
    case False
    then show ?thesis using True by (simp add: s' reserved_balance_def get_token_balance_def)
  qed
next
  case False
  then show ?thesis
    using assms(1) by (auto simp: unreserve_def result_simps reserved_balance_def get_token_balance_def
        deposit_token_def split: if_splits)
qed

lemma mutate_moves:
  assumes "try_mutate_account c t a f s = Inr s'" and "good_token c u"
  shows "(u, b) \<noteq> (t, a) \<Longrightarrow> reserved_balance c u b s' = reserved_balance c u b s"
    and "\<exists>fr p. good_token c t \<longrightarrow> f (fr, reserved_balance c t a s) = Inr (p, reserved_balance c t a s')"
proof -
  show "reserved_balance c u b s' = reserved_balance c u b s" if ne: "(u, b) \<noteq> (t, a)"
  proof (cases "t = native_id c")
    case True
    then obtain n where n: "nc_mutate_account (currency c) a f (native s) = Inr n"
      and s': "s' = s\<lparr>native := n\<rparr>"
      using assms(1) by (auto simp: try_mutate_account_def and_then_Inr)
    show ?thesis
      using balances_lawsD(3) [OF _ n] assms(2) ne True
      by (auto simp: s' reserved_balance_def good_token_def get_token_balance_def)
  next
    case False
    then obtain x where "s' = s\<lparr>token_balances := (token_balances s)((t, a) := x)\<rparr>"
      using assms(1) by (auto simp: try_mutate_account_def Let_def and_then_Inr)
    then show ?thesis
      using ne False by (auto simp: reserved_balance_def get_token_balance_def)
  qed
  show "\<exists>fr p. good_token c t \<longrightarrow> f (fr, reserved_balance c t a s) = Inr (p, reserved_balance c t a s')"
  proof (cases "t = native_id c")
    case True
    then obtain n where n: "nc_mutate_account (currency c) a f (native s) = Inr n"
      and s': "s' = s\<lparr>native := n\<rparr>"
      using assms(1) by (auto simp: try_mutate_account_def and_then_Inr)
    show ?thesis
      using balances_lawsD(3) [OF _ n] True by (auto simp: good_token_def s' reserved_balance_def)
  next
    case False
    let ?b = "get_token_balance (t, a) s"
    obtain fr rs where f: "f (acc_free ?b, acc_reserved ?b) = Inr (fr, rs)"
      and s': "s' = s\<lparr>token_balances := (token_balances s)((t, a) := keep_alive \<lparr>acc_free = fr, acc_reserved = rs\<rparr>)\<rparr>"
      using assms(1) False by (auto simp: try_mutate_account_def Let_def and_then_Inr)
    have "acc_reserved ?b = reserved_balance c t a s" "rs = reserved_balance c t a s'"
      using False by (simp_all add: s' reserved_balance_def get_token_balance_def)
    with f show ?thesis by auto
  qed
qed

interpretation token_ledger: reservable_asset "token_asset c" "good_token c" for c
proof unfold_locales
  fix t a v w w'
  assume run: "as_reserve (token_asset c) t a v w = Inr w'"
  show "same_reserved_but (token_asset c) (good_token c) t a w w'"
    using reserve_moves [of c t a v w w'] run
    by (auto simp: same_reserved_but_def word_unat_eq_iff)
  show "unat (as_reserved (token_asset c) t a w') = unat (as_reserved (token_asset c) t a w) + unat v"
    if "good_token c t"
    using reserve_moves [of c t a v w w' t a] run that by simp
next
  fix t a v w w'
  assume run: "as_unreserve (token_asset c) t a v w = Inr w'"
  show "same_reserved_but (token_asset c) (good_token c) t a w w'"
    using unreserve_moves [of c t a v w w'] run
    by (auto simp: same_reserved_but_def word_unat_eq_iff)
  show "unat (as_reserved (token_asset c) t a w) = unat (as_reserved (token_asset c) t a w') + unat v"
    if "good_token c t"
    using unreserve_moves [of c t a v w w' t a] run that by simp
next
  fix t a f w w'
  assume run: "as_try_mutate_account (token_asset c) t a f w = Inr w'"
  show "same_reserved_but (token_asset c) (good_token c) t a w w'"
    using mutate_moves(1) [of c t a f w w'] run by (simp add: same_reserved_but_def)
  show "\<exists>fr p. f (fr, as_reserved (token_asset c) t a w) = Inr (p, as_reserved (token_asset c) t a w')"
    if "good_token c t"
    using mutate_moves(2) [of c t a f w w' t] run that by simp
qed

section \<open>Operations that leave every reserved balance\<close>

text \<open>A quiet change leaves every reserved balance of a good token, and the clock.\<close>

definition quiet :: "'n token_config \<Rightarrow> ('n, 'z) token_state_scheme \<Rightarrow> ('n, 'z) token_state_scheme \<Rightarrow> bool" where
  "quiet c s s' \<longleftrightarrow> same_reserved (token_asset c) (good_token c) s s' \<and> block_number s' = block_number s"

lemma quietD: "quiet c s s' \<Longrightarrow> same_reserved (token_asset c) (good_token c) s s'"
  by (simp add: quiet_def)

lemma quiet_refl [simp]: "quiet c s s"
  by (simp add: quiet_def)

lemma quiet_trans: "quiet c s s' \<Longrightarrow> quiet c s' s'' \<Longrightarrow> quiet c s s''"
  by (auto simp: quiet_def intro: same_reserved_trans)

lemma quiet_eq:
  "token_balances s' = token_balances s \<Longrightarrow> native s' = native s \<Longrightarrow> block_number s' = block_number s \<Longrightarrow> quiet c s s'"
  by (simp add: quiet_def same_reserved_def reserved_balance_def get_token_balance_def)

lemma quiet_native:
  assumes "balances_laws (currency c) \<Longrightarrow> keeps_reserved (currency c) (native s) n"
  shows "quiet c s (s\<lparr>native := n\<rparr>)"
  using assms by (auto simp: quiet_def same_reserved_def reserved_balance_def get_token_balance_def
      good_token_def keeps_reserved_def)

lemma transfer_token_quiet: "transfer_token c a t v b s = Inr s' \<Longrightarrow> quiet c s s'"
proof (cases "t = native_id c \<and> v \<noteq> 0 \<and> a \<noteq> b")
  case True
  assume "transfer_token c a t v b s = Inr s'"
  with True show ?thesis
    by (auto simp: transfer_token_def and_then_Inr intro!: quiet_native dest: balances_lawsD(4))
next
  case False
  assume "transfer_token c a t v b s = Inr s'"
  with False show ?thesis
    by (auto simp: transfer_token_def Let_def result_simps quiet_def same_reserved_def reserved_balance_def
        get_token_balance_def deposit_token_def split: if_splits)
qed

lemma transfer_quiet: "transfer c o' t dest v s = Inr s' \<Longrightarrow> quiet c s s'"
  by (auto simp: transfer_def result_simps intro: transfer_token_quiet)

lemma create_frame:
  "create c info s = Inr (t, s') \<Longrightarrow>
    token_balances s' = token_balances s \<and> native s' = native s \<and> block_number s' = block_number s"
  by (auto simp: create_def Let_def and_then_Inr split: option.splits)

lemma issue_quiet:
  assumes "issue c o' info s = Inr s'"
  shows "quiet c s s'"
proof -
  obtain a n t s1 where n: "nc_burn_from (currency c) a (burn_tao_when_issue c) (native s) = Inr n"
    and s1: "create c info (s\<lparr>native := n\<rparr>) = Inr (t, s1)"
    and s': "s' = deposit_token (TokenIssued t (xtoken_symbol info)) s1"
    using assms by (auto simp: issue_def result_simps)
  have "quiet c s (s\<lparr>native := n\<rparr>)" using n by (intro quiet_native) (blast dest: balances_lawsD(5))
  moreover have "quiet c (s\<lparr>native := n\<rparr>) s'"
    using create_frame [OF s1] by (intro quiet_eq) (simp_all add: s' deposit_token_def)
  ultimately show ?thesis by (rule quiet_trans)
qed

lemma mark_stable_quiet: "mark_stable c o' t s = Inr s' \<Longrightarrow> quiet c s s'"
  by (rule quiet_eq) (auto simp: mark_stable_def result_simps)

lemma associate_token_quiet: "associate_token c o' ch ct t s = Inr s' \<Longrightarrow> quiet c s s'"
  by (rule quiet_eq) (auto simp: associate_token_def result_simps)

lemma issuance_quiet: "try_mutate_issuance c t f s = Inr s' \<Longrightarrow> quiet c s s'"
  by (auto simp: try_mutate_issuance_def and_then_Inr split: if_splits
      intro!: quiet_native balances_lawsD(6))

lemma pay_quiet: "try_mutate_account c t a (\<lambda>(x, y). Inr (x + v, y)) s = Inr s' \<Longrightarrow> quiet c s s'"
  using token_ledger.pay_free [of c t a v s s'] by (auto simp: quiet_def try_mutate_account_def Let_def and_then_Inr split: if_splits)

text \<open>The reference currency keeps the laws.\<close>

lemma ref_balances_laws: "balances_laws ref_currency"
proof -
  have "unat y - unat (min v y) = unat (y - min v y)" for v y :: u128
    by (simp add: unat_sub)
  then show ?thesis
    by (auto simp: balances_laws_def moves_reserved_def keeps_reserved_def result_simps Let_def
        unat_sub min_def word_le_nat_alt split: prod.splits)
qed

end
