(* ===== verification/Runtime.thy ===== *)
theory Runtime
  imports Agent Token_Asset
begin

text \<open>
  \<open>runtime/src/lib.rs\<close>: the composition of the pallets. Every configuration trait of the verifier is
  implemented by another pallet of the runtime, as the \<open>impl Config\<close> blocks say: the asset ledger by
  the token pallet, \<open>Rewarding\<close> by the reward pallet, \<open>MarketManager\<close> and \<open>FeeBeneficiary\<close> by the
  market pallet, \<open>PriceOracle\<close> by the indicator, callbacks by the runtime's own calls.

  The storage of the runtime is a \<open>verifier_state\<close> whose \<open>world\<close> is the storage of the other
  pallets: token, reward, market, indicator, bridge, bridge handler, bot and agent (with the block
  number and nonces of the system).

  A callback of the verifier, a proposal of the bridge and a call the agent submits are runtime calls,
  which can run further ones. The dispatch is therefore defined with a bound on the nesting; a call
  that nests deeper aborts.
\<close>

datatype runtime_call =
    VerifierCall "runtime_call verifier_call"
  | TokenTransfer token_id nat u128
  | TokenIssue xtoken
  | TokenMarkStable token_id
  | TokenAssociate chain_id bytes token_id
  | RewardTake
  | RewardSetEra u128
  | MarketRegisterBroker account bytes bytes
  | MarketDeregisterBroker account
  | MarketSetRpcEndpoint account bytes
  | MarketApplyListing account token_id token_id u8 u8 u128
  | BridgeCall "runtime_call bridge_call"
  | HandlerCall handler_call
  | BotCall bot_call
  | AgentSubmit "runtime_call external_verifiable"

type_synonym 'n runtime_world = "('n, runtime_call) agent_state"
type_synonym 'n runtime_state = "('n runtime_world, runtime_call) verifier_state"
type_synonym 'n runtime_dispatch =
  "runtime_call \<Rightarrow> account \<Rightarrow> 'n runtime_state \<Rightarrow> 'n runtime_state result"

record 'n runtime_params =
  rt_token :: "'n token_config"
  rt_reward :: "'n reward_config"
  rt_market :: "'n market_config"
  rt_verifier :: verifier_params
  rt_libs :: verifier_libs
  rt_bridge :: bridge_config
  rt_handler :: "'n handler_config"
  rt_bot :: "'n bot_config"
  rt_agent :: "('n, runtime_call) agent_config"

text \<open>One token pallet serves all.\<close>

definition reward_config_of :: "'n runtime_params \<Rightarrow> 'n reward_config" where
  "reward_config_of R = (rt_reward R)\<lparr>reward_asset := rt_token R\<rparr>"

definition market_config_of :: "'n runtime_params \<Rightarrow> 'n market_config" where
  "market_config_of R = (rt_market R)\<lparr>market_assets := rt_token R\<rparr>"

definition handler_config_of :: "'n runtime_params \<Rightarrow> 'n handler_config" where
  "handler_config_of R = (rt_handler R)
    \<lparr>hd_token := rt_token R, hd_bridge := rt_bridge R, hd_arithmetic := lib_arithmetic (rt_libs R)\<rparr>"

definition bot_config_of :: "'n runtime_params \<Rightarrow> 'n bot_config" where
  "bot_config_of R = (rt_bot R)\<lparr>bot_assets := rt_token R\<rparr>"

definition inc_account_nonce :: "account \<Rightarrow> 'n runtime_world \<Rightarrow> 'n runtime_world" where
  "inc_account_nonce a w = w\<lparr>account_nonce := (account_nonce w)(a := account_nonce w a + 1)\<rparr>"

definition runtime_env :: "'n runtime_params \<Rightarrow> 'n runtime_world verifier_env" where
  "runtime_env R =
    \<lparr>env_consume_liquidity = consume_liquidity (reward_config_of R),
     env_put_liquidity = put_liquidity,
     env_remove_liquidity = remove_liquidity,
     env_set_price = set_price (lib_arithmetic (rt_libs R)),
     env_open_market = open_market,
     env_broker_beneficiary = beneficiary,
     env_block_number = block_number,
     env_account_nonce = (\<lambda>a w. account_nonce w a),
     env_inc_account_nonce = inc_account_nonce\<rparr>"

definition runtime_config ::
  "'n runtime_params \<Rightarrow> 'n runtime_dispatch \<Rightarrow> ('n runtime_world, runtime_call) verifier_config" where
  "runtime_config R dispatch =
    \<lparr>vc_asset = token_asset (rt_token R), vc_env = runtime_env R, vc_params = rt_verifier R,
     vc_libs = rt_libs R, vc_dispatch = dispatch\<rparr>"

fun run_runtime_call ::
  "'n runtime_params \<Rightarrow> 'n runtime_dispatch \<Rightarrow> runtime_call \<Rightarrow> origin
    \<Rightarrow> 'n runtime_state \<Rightarrow> 'n runtime_state result" where
  "run_runtime_call R dispatch (VerifierCall call) o' s = run_verifier_call (runtime_config R dispatch) call o' s"
| "run_runtime_call R dispatch (TokenTransfer t dest v) o' s = on_world (transfer (rt_token R) o' t dest v) s"
| "run_runtime_call R dispatch (TokenIssue info) o' s = on_world (issue (rt_token R) o' info) s"
| "run_runtime_call R dispatch (TokenMarkStable t) o' s = on_world (mark_stable (rt_token R) o' t) s"
| "run_runtime_call R dispatch (TokenAssociate ch ct t) o' s =
    on_world (associate_token (rt_token R) o' ch ct t) s"
| "run_runtime_call R dispatch RewardTake o' s = on_world (take_reward (reward_config_of R) o') s"
| "run_runtime_call R dispatch (RewardSetEra v) o' s = on_world (set_era_rewards (reward_config_of R) o' v) s"
| "run_runtime_call R dispatch (MarketRegisterBroker bk e name) o' s =
    on_world (register_broker (market_config_of R) o' bk e name) s"
| "run_runtime_call R dispatch (MarketDeregisterBroker bk) o' s =
    on_world (deregister_broker (market_config_of R) o' bk) s"
| "run_runtime_call R dispatch (MarketSetRpcEndpoint bk e) o' s =
    on_world (broker_set_rpc_endpoint o' bk e) s"
| "run_runtime_call R dispatch (MarketApplyListing dmn b q bs qs mb) o' s =
    on_world (apply_for_token_listing (market_config_of R) o' dmn b q bs qs mb) s"
| "run_runtime_call R dispatch (BridgeCall call) o' s = run_bridge_call (rt_bridge R) dispatch call o' s"
| "run_runtime_call R dispatch (HandlerCall call) o' s =
    run_handler_call (handler_config_of R) (runtime_config R dispatch) call o' s"
| "run_runtime_call R dispatch (BotCall call) o' s =
    run_bot_call (bot_config_of R) (runtime_config R dispatch) call o' s"
| "run_runtime_call R dispatch (AgentSubmit tx) o' s = submit_external_tx (rt_agent R) dispatch o' tx s"

primrec nested_dispatch :: "'n runtime_params \<Rightarrow> nat \<Rightarrow> 'n runtime_dispatch" where
  "nested_dispatch R 0 = (\<lambda>call who s. Inl Panic)"
| "nested_dispatch R (Suc n) =
    (\<lambda>call who s. run_runtime_call R (nested_dispatch R n) call (SignedOrigin who) s)"

text \<open>The start of a block: the system sets the number, then the verifier's hook runs.\<close>

definition begin_block ::
  "'n runtime_params \<Rightarrow> nat \<Rightarrow> block_number \<Rightarrow> 'n runtime_state \<Rightarrow> 'n runtime_state result" where
  "begin_block R n now s =
    on_initialize (runtime_config R (nested_dispatch R n)) now
      (s\<lparr>world := (world s)\<lparr>block_number := now\<rparr>\<rparr>)"

text \<open>A block: its start, then its extrinsics in order; one that fails leaves the storage.\<close>

fun apply_extrinsics ::
  "'n runtime_params \<Rightarrow> nat \<Rightarrow> (runtime_call \<times> origin) list \<Rightarrow> 'n runtime_state \<Rightarrow> 'n runtime_state result" where
  "apply_extrinsics R n [] s = Inr s"
| "apply_extrinsics R n ((call, o') # xs) s =
    and_then (drop_error s (run_runtime_call R (nested_dispatch R n) call o' s)) (apply_extrinsics R n xs)"

definition execute_block ::
  "'n runtime_params \<Rightarrow> nat \<Rightarrow> block_number \<Rightarrow> (runtime_call \<times> origin) list
    \<Rightarrow> 'n runtime_state \<Rightarrow> 'n runtime_state result" where
  "execute_block R n now xs s = and_then (begin_block R n now s) (apply_extrinsics R n xs)"

text \<open>Nothing is held, staked or voted on at the start.\<close>

definition runtime_genesis :: "'n runtime_state \<Rightarrow> bool" where
  "runtime_genesis s \<longleftrightarrow> reserves s = (\<lambda>_. None) \<and> receipts s = (\<lambda>_. None) \<and> dominators s = []
    \<and> stakings s = (\<lambda>_. None) \<and> pending_unstakings s = (\<lambda>_. []) \<and> bonuses s = (\<lambda>_. no_bonus)
    \<and> chain_nonces (world s) = (\<lambda>_. None) \<and> relayer_threshold (world s) = DEFAULT_RELAYER_THRESHOLD
    \<and> relayers (world s) = (\<lambda>_. False) \<and> relayer_count (world s) = 0 \<and> votes (world s) = (\<lambda>_. None)
    \<and> bridge_events (world s) = [] \<and> bots (world s) = (\<lambda>_. None)"

section \<open>Reading the configuration\<close>

lemma runtime_config_simps [simp]:
  "vc_asset (runtime_config R dp) = token_asset (rt_token R)"
  "vc_env (runtime_config R dp) = runtime_env R" "vc_params (runtime_config R dp) = rt_verifier R"
  "vc_libs (runtime_config R dp) = rt_libs R" "vc_dispatch (runtime_config R dp) = dp"
  by (simp_all add: runtime_config_def)

lemma runtime_env_simps [simp]:
  "env_consume_liquidity (runtime_env R) = consume_liquidity (reward_config_of R)"
  "env_put_liquidity (runtime_env R) = put_liquidity"
  "env_remove_liquidity (runtime_env R) = remove_liquidity"
  "env_set_price (runtime_env R) = set_price (lib_arithmetic (rt_libs R))"
  "env_open_market (runtime_env R) = open_market"
  "env_broker_beneficiary (runtime_env R) = beneficiary"
  "env_block_number (runtime_env R) = block_number"
  "env_inc_account_nonce (runtime_env R) = inc_account_nonce"
  by (simp_all add: runtime_env_def)

lemma config_of_simps [simp]:
  "reward_asset (reward_config_of R) = rt_token R" "market_assets (market_config_of R) = rt_token R"
  "hd_token (handler_config_of R) = rt_token R" "hd_bridge (handler_config_of R) = rt_bridge R"
  "bot_assets (bot_config_of R) = rt_token R"
  by (simp_all add: reward_config_of_def market_config_of_def handler_config_of_def bot_config_of_def)

end
