(* ===== verification/Verifier_Facts.thy ===== *)
theory Verifier_Facts
  imports Verifier_Calls
begin

text \<open>
  How the operations of the verifier can have succeeded: for each, the intermediate states and the
  storage items it leaves behind. The invariants of the following theories are proved from these
  facts; no definition is unfolded again.
\<close>

definition only_world :: "('w, 'cb) verifier_state \<Rightarrow> ('w, 'cb) verifier_state \<Rightarrow> bool" where
  "only_world s s' \<longleftrightarrow> s' = s\<lparr>world := world s'\<rparr>"

lemma only_world_refl [simp]: "only_world s s"
  by (simp add: only_world_def)

lemma only_world_upd [simp]: "only_world s (s\<lparr>world := w\<rparr>)"
  by (simp add: only_world_def)

lemma only_world_trans: "only_world s t \<Longrightarrow> only_world t u \<Longrightarrow> only_world s u"
  unfolding only_world_def
  by (cases s; cases t; cases u) simp

lemma only_worldD:
  assumes "only_world s s'"
  shows "reserves s' = reserves s" and "receipts s' = receipts s" and "stakings s' = stakings s"
    and "dominators s' = dominators s" and "pending_unstakings s' = pending_unstakings s"
    and "bonuses s' = bonuses s" and "dominator_settings s' = dominator_settings s"
    and "get_dominator d s' = get_dominator d s"
  using assms by (cases s; cases s'; simp add: only_world_def get_dominator_def)+

lemma pay_shares_frame: "pay_shares c a shs s = Inr s' \<Longrightarrow> only_world s s'"
proof (induction shs arbitrary: s)
  case (Cons p shs)
  obtain t v where p: "p = (t, v)" by (cases p)
  obtain w where "pay_shares c a shs (s\<lparr>world := w\<rparr>) = Inr s'"
    using Cons.prems by (auto simp: p and_then_Inr on_world_Inr)
  then have "only_world (s\<lparr>world := w\<rparr>) s'" by (rule Cons.IH)
  with only_world_upd show ?case by (rule only_world_trans)
qed simp

lemma take_shares_frame: "take_shares c a d dist s = Inr (sn, s') \<Longrightarrow> only_world s s' \<and> sn = dist_to dist"
  by (auto simp: take_shares_def result_simps split: if_splits dest: pay_shares_frame)

section \<open>The ledger\<close>

lemma vf_reserve_Inr:
  assumes "vf_reserve c rid a t v dmn s = Inr s'"
  shows "receipts s' = receipts s" and "stakings s' = stakings s" and "dominators s' = dominators s"
    and "pending_unstakings s' = pending_unstakings s" and "bonuses s' = bonuses s"
    and "get_dominator d s' = get_dominator d s"
    and "unat (get_reserve ((rid, a, t), dmn) s') = unat (get_reserve ((rid, a, t), dmn) s) + unat v"
    and "k \<noteq> ((rid, a, t), dmn) \<Longrightarrow> reserves s' k = reserves s k"
  using assms
  by (auto simp: vf_reserve_def Let_def result_simps get_reserve_def get_dominator_def split: if_splits)

lemma vf_unreserve_cases:
  assumes "vf_unreserve c rid a t v dmn s = Inr s'"
  obtains (zero) "v = 0" and "s' = s"
    | (some) w x where "as_unreserve (vc_asset c) t a v (world s) = Inr w" and "v \<noteq> 0"
      and "unat (get_reserve ((rid, a, t), dmn) s) = unat v + opt_val unat x"
      and "s' = s\<lparr>world := w, reserves := (reserves s)(((rid, a, t), dmn) := x)\<rparr>"
proof (cases "v = 0")
  case True
  with assms show thesis by (intro zero) (simp_all add: vf_unreserve_def)
next
  case False
  obtain w r y where "as_unreserve (vc_asset c) t a v (world s) = Inr w"
    and "reserves s ((rid, a, t), dmn) = Some r" and "unat r = unat v + unat y"
    and "s' = s\<lparr>world := w, reserves := (reserves s)
        (((rid, a, t), dmn) := if 0 < y then Some y else None)\<rparr>"
    using assms False by (auto simp: vf_unreserve_def Let_def result_simps)
  then show thesis
    using some [of w "if 0 < y then Some y else None"] False
    by (cases "0 < y") (simp_all add: get_reserve_def word_gt_0)
qed

lemma opt_val_reserve: "opt_val unat (reserves s k) = unat (get_reserve k s)"
  by (cases "reserves s k") (simp_all add: get_reserve_def)

lemma opt_val_get: "opt_val unat x = unat (value_or 0 x)"
  by (cases x) simp_all

lemma vf_unreserve_Inr:
  assumes "vf_unreserve c rid a t v dmn s = Inr s'"
  shows "receipts s' = receipts s" and "stakings s' = stakings s" and "dominators s' = dominators s"
    and "pending_unstakings s' = pending_unstakings s" and "bonuses s' = bonuses s"
    and "get_dominator d s' = get_dominator d s"
    and "unat (get_reserve ((rid, a, t), dmn) s) = unat (get_reserve ((rid, a, t), dmn) s') + unat v"
    and "k \<noteq> ((rid, a, t), dmn) \<Longrightarrow> reserves s' k = reserves s k"
  using assms
  by (cases rule: vf_unreserve_cases;
      simp add: get_dominator_def get_reserve_def opt_val_get)+

section \<open>Staking\<close>

lemma stake_on_Inr:
  assumes "stake_on c a dmn v s = Inr s'"
  obtains d s1 sn s2 where "get_dominator dmn s = Some d"
    and "minimal_staking_amount (vc_params c) \<le> v"
    and "dom_status d = DOMINATOR_ACTIVE \<or> dom_status d = DOMINATOR_INACTIVE"
    and "vf_reserve c RESERVE_FOR_STAKING a (native_token_id c) v dmn s = Inr s1"
    and "current_season c (current_block c s1) (dom_start d) = Inr sn"
    and "(let st = value_or no_staking (stakings s (dmn, a)) in
      if staking_amount st \<noteq> 0 then \<exists>x. take_shares c a dmn
        \<lparr>dist_from = from_season st, dist_to = sn, dist_staking = staking_amount st\<rparr> s1 = Inr (x, s2)
      else s2 = s1)"
    and "only_world s1 s2"
    and "stakings s' = (stakings s)((dmn, a) \<mapsto> \<lparr>from_season = sn,
      staking_amount = staking_amount (value_or no_staking (stakings s (dmn, a))) + v\<rparr>)"
    and "dominators s' = AList.update dmn (d\<lparr>dom_staked := dom_staked d + v,
      dom_status := status_of_stake c (dom_staked d + v)\<rparr>) (dominators s)"
    and "reserves s' = reserves s1" and "receipts s' = receipts s" and "bonuses s' = bonuses s"
    and "pending_unstakings s' = pending_unstakings s" and "world s' = world s2"
proof -
  let ?st = "value_or no_staking (stakings s (dmn, a))"
  obtain d s1 sn where d: "get_dominator dmn s = Some d" "minimal_staking_amount (vc_params c) \<le> v"
      "dom_status d = DOMINATOR_ACTIVE \<or> dom_status d = DOMINATOR_INACTIVE"
    and s1: "vf_reserve c RESERVE_FOR_STAKING a (native_token_id c) v dmn s = Inr s1"
    and sn: "current_season c (current_block c s1) (dom_start d) = Inr sn"
    using assms by (auto simp: stake_on_def Let_def ensure_Inr and_then_Inr ok_or_Inr)
  let ?dist = "\<lparr>dist_from = from_season ?st, dist_to = sn, dist_staking = staking_amount ?st\<rparr>"
  let ?share = "if staking_amount ?st \<noteq> 0 then
      and_then (take_shares c a dmn ?dist s1) (\<lambda>(_, s). Inr s) else Inr s1"
  obtain s2 where s2: "?share = Inr s2"
    using assms d s1 sn by (auto simp: stake_on_def Let_def ensure_Inr and_then_Inr ok_or_Inr)
  have share: "if staking_amount ?st \<noteq> 0 then \<exists>x. take_shares c a dmn ?dist s1 = Inr (x, s2) else s2 = s1"
    using s2 by (auto simp: and_then_Inr split: if_splits)
  have world: "only_world s1 s2"
    using share by (auto split: if_splits dest: take_shares_frame)
  note eqs = vf_reserve_Inr(1-5) [OF s1] only_worldD(1-7) [OF world]
  have s': "s' = (let st' = \<lparr>from_season = sn, staking_amount = staking_amount ?st + v\<rparr>;
        s = s2\<lparr>stakings := (stakings s2)((dmn, a) \<mapsto> st')\<rparr>;
        d' = d\<lparr>dom_staked := dom_staked d + v, dom_status := status_of_stake c (dom_staked d + v)\<rparr>;
        s = deposit_verifier (TaoStaked a dmn v) s;
        s = (if dom_status d' = DOMINATOR_ACTIVE \<and> dom_status d = DOMINATOR_INACTIVE
             then deposit_verifier (DominatorOnlineEvent dmn) s else s) in put_dominator dmn d' s)"
    using assms d s1 sn s2 by (simp add: stake_on_def Let_def)
  show thesis
    by (rule that [OF d s1 sn _ world])
      (use share in \<open>simp_all add: s' Let_def eqs put_dominator_def\<close>)
qed

lemma unstake_from_Inr:
  assumes "unstake_from c a dmn v s = Inr s'"
  obtains d tot st remain s1 s2 sn rm u s3 where "get_dominator dmn s = Some d"
    and "dom_status d \<noteq> DOMINATOR_REGISTERED"
    and "unat (dom_staked d) = unat v + unat tot" and "tot = dom_staked d - v"
    and "stakings s (dmn, a) = Some st" and "unat (staking_amount st) = unat v + unat remain"
    and "remain = 0 \<or> minimal_staking_amount (vc_params c) \<le> remain"
    and "vf_unreserve c RESERVE_FOR_STAKING a (native_token_id c) v dmn s = Inr s1"
    and "vf_reserve c RESERVE_FOR_PENDING_UNSTAKE a (native_token_id c) v
      (verifier_system_account (vc_params c)) s1 = Inr s2"
    and "current_season c (current_block c s2) (dom_start d) = Inr sn"
    and "word_rem (current_block c s2) (dominator_check_grace_period (vc_params c)) = Inr rm"
    and "unat u = unat (value_or 0 (map_of (pending_unstakings s
        (current_block c s2 - rm + UNSTAKE_DELAY_BLOCKS)) a)) + unat v"
    and "\<exists>x. take_shares c a dmn
        \<lparr>dist_from = from_season st, dist_to = sn, dist_staking = staking_amount st\<rparr> (s2\<lparr>pending_unstakings :=
          (pending_unstakings s)(current_block c s2 - rm + UNSTAKE_DELAY_BLOCKS := AList.update a u
            (pending_unstakings s (current_block c s2 - rm + UNSTAKE_DELAY_BLOCKS)))\<rparr>) = Inr (x, s3)"
    and "reserves s3 = reserves s2"
    and "stakings s' = (stakings s)((dmn, a) :=
        if remain \<noteq> 0 then Some \<lparr>from_season = sn, staking_amount = remain\<rparr> else None)"
    and "dominators s' = AList.update dmn (d\<lparr>dom_staked := tot,
        dom_status := (if dom_status d \<noteq> DOMINATOR_EVICTED then status_of_stake c tot
                       else dom_status d)\<rparr>) (dominators s)"
    and "reserves s' = reserves s2" and "receipts s' = receipts s" and "bonuses s' = bonuses s"
    and "pending_unstakings s' = (pending_unstakings s)
        (current_block c s2 - rm + UNSTAKE_DELAY_BLOCKS := AList.update a u
            (pending_unstakings s (current_block c s2 - rm + UNSTAKE_DELAY_BLOCKS)))"
    and "world s' = world s3"
proof -
  obtain d tot st remain where d: "get_dominator dmn s = Some d" "dom_status d \<noteq> DOMINATOR_REGISTERED"
    and tot: "checked_sub (dom_staked d) v = Some tot"
    and st: "stakings s (dmn, a) = Some st"
    and rem: "checked_sub (staking_amount st) v = Some remain"
      "remain = 0 \<or> minimal_staking_amount (vc_params c) \<le> remain"
    using assms by (auto simp: unstake_from_def ensure_Inr and_then_Inr ok_or_Inr)
  obtain s1 where s1: "vf_unreserve c RESERVE_FOR_STAKING a (native_token_id c) v dmn s = Inr s1"
    using assms d tot st rem by (auto simp: unstake_from_def and_then_Inr)
  obtain s2 where s2: "vf_reserve c RESERVE_FOR_PENDING_UNSTAKE a (native_token_id c) v
      (verifier_system_account (vc_params c)) s1 = Inr s2"
    using assms d tot st rem s1 by (auto simp: unstake_from_def and_then_Inr)
  obtain sn rm where sn: "current_season c (current_block c s2) (dom_start d) = Inr sn"
    and rm: "word_rem (current_block c s2) (dominator_check_grace_period (vc_params c)) = Inr rm"
    using assms d tot st rem s1 s2 by (auto simp: unstake_from_def Let_def and_then_Inr)
  let ?at = "current_block c s2 - rm + UNSTAKE_DELAY_BLOCKS"
  obtain u where u: "checked_add (value_or 0 (map_of (pending_unstakings s2 ?at) a)) v = Some u"
    using assms d tot st rem s1 s2 sn rm
    by (auto simp: unstake_from_def Let_def and_then_Inr ok_or_Inr)
  let ?sp = "s2\<lparr>pending_unstakings := (pending_unstakings s2)
                (?at := AList.update a u (pending_unstakings s2 ?at))\<rparr>"
  let ?dist = "\<lparr>dist_from = from_season st, dist_to = sn, dist_staking = staking_amount st\<rparr>"
  obtain x s3 where s3: "take_shares c a dmn ?dist ?sp = Inr (x, s3)"
    using assms d tot st rem s1 s2 sn rm u by (auto simp: unstake_from_def Let_def and_then_Inr)
  have world: "only_world ?sp s3" using take_shares_frame [OF s3] by simp
  let ?d' = "d\<lparr>dom_staked := tot, dom_status := (if dom_status d \<noteq> DOMINATOR_EVICTED
      then status_of_stake c tot else dom_status d)\<rparr>"
  have s': "s' = (let
        s = s3\<lparr>stakings := (stakings s3)((dmn, a) :=
          if remain \<noteq> 0 then Some \<lparr>from_season = sn, staking_amount = remain\<rparr> else None)\<rparr>;
        s = deposit_verifier (TaoUnstaked a dmn v) s;
        s = (if dom_status ?d' = DOMINATOR_INACTIVE \<and> dom_status d = DOMINATOR_ACTIVE
             then deposit_verifier (DominatorOfflineEvent dmn) s else s) in put_dominator dmn ?d' s)"
    using assms d tot st rem s1 s2 sn rm u s3 by (simp add: unstake_from_def Let_def)
  note eqs = vf_unreserve_Inr(1-5) [OF s1] vf_reserve_Inr(1-5) [OF s2] only_worldD(1-7) [OF world]
  have "reserves s3 = reserves s2" by (simp add: eqs)
  moreover have "\<exists>x. take_shares c a dmn ?dist (s2\<lparr>pending_unstakings :=
      (pending_unstakings s)(?at := AList.update a u (pending_unstakings s ?at))\<rparr>) = Inr (x, s3)"
    using s3 unfolding eqs by (rule exI)
  moreover have "stakings s' = (stakings s)((dmn, a) :=
      if remain \<noteq> 0 then Some \<lparr>from_season = sn, staking_amount = remain\<rparr> else None)"
    unfolding s' by (simp add: Let_def eqs)
  moreover have "dominators s' = AList.update dmn ?d' (dominators s)"
    unfolding s' by (simp add: Let_def eqs put_dominator_def)
  moreover have "reserves s' = reserves s2" "receipts s' = receipts s" "bonuses s' = bonuses s"
    "world s' = world s3" "pending_unstakings s' = (pending_unstakings s)
      (?at := AList.update a u (pending_unstakings s ?at))"
    unfolding s' by (simp_all add: Let_def eqs)
  moreover have "unat (dom_staked d) = unat v + unat tot" "tot = dom_staked d - v"
    "unat (staking_amount st) = unat v + unat remain"
    using tot rem by (simp_all add: checked_sub_eq_Some checked_sub_word)
  moreover have "unat u = unat (value_or 0 (map_of (pending_unstakings s ?at) a)) + unat v"
    using u by (simp add: checked_add_eq_Some eqs)
  ultimately show thesis
    using d st rem(2) s1 s2 sn rm by (intro that)
qed

lemma claim_shares_Inr:
  assumes "claim_shares c o' src s = Inr s'"
  obtains a dmn d st sn x s1 where "get_dominator dmn s = Some d" and "stakings s (dmn, a) = Some st"
    and "current_season c (current_block c s) (dom_start d) = Inr sn"
    and "take_shares c a dmn
      \<lparr>dist_from = from_season st, dist_to = sn, dist_staking = staking_amount st\<rparr> s = Inr (x, s1)"
    and "only_world s s1"
    and "s' = s1\<lparr>stakings := (stakings s)((dmn, a) \<mapsto> st\<lparr>from_season := sn\<rparr>)\<rparr>"
proof -
  obtain a dmn where "o' = SignedOrigin a" and "lib_lookup (vc_libs c) src = Inr dmn"
    using assms by (auto simp: claim_shares_def and_then_Inr ensure_signed_Inr)
  moreover from this obtain d st sn where d: "get_dominator dmn s = Some d"
    "stakings s (dmn, a) = Some st" "current_season c (current_block c s) (dom_start d) = Inr sn"
    using assms by (auto simp: claim_shares_def and_then_Inr ensure_signed_Inr ok_or_Inr ensure_Inr)
  ultimately obtain x s1 where x: "take_shares c a dmn
      \<lparr>dist_from = from_season st, dist_to = sn, dist_staking = staking_amount st\<rparr> s = Inr (x, s1)"
    and s': "s' = s1\<lparr>stakings := (stakings s1)((dmn, a) \<mapsto> st\<lparr>from_season := x\<rparr>)\<rparr>"
    using assms by (auto simp: claim_shares_def and_then_Inr ensure_signed_def ensure_Inr)
  have w: "only_world s s1" and "x = sn" using take_shares_frame [OF x] by simp_all
  with s' have "s' = s1\<lparr>stakings := (stakings s)((dmn, a) \<mapsto> st\<lparr>from_season := sn\<rparr>)\<rparr>"
    using only_worldD(3) [OF w] by simp
  then show thesis using that d x w by blast
qed

section \<open>The block hook\<close>

definition only_bonuses :: "('w, 'cb) verifier_state \<Rightarrow> ('w, 'cb) verifier_state \<Rightarrow> bool" where
  "only_bonuses s s' \<longleftrightarrow> s' = s\<lparr>bonuses := bonuses s'\<rparr>"

lemma close_seasons_frame: "close_seasons c now ds s = Inr s' \<Longrightarrow> only_bonuses s s'"
proof (induction ds arbitrary: s)
  case Nil
  then show ?case by (simp add: only_bonuses_def)
next
  case (Cons p ds)
  obtain dmn d where p: "p = (dmn, d)" by (cases p)
  show ?case
  proof (cases "now = dom_start d")
    case True
    with Cons show ?thesis by (simp add: p)
  next
    case False
    then obtain b where "close_seasons c now ds (s\<lparr>bonuses := b\<rparr>) = Inr s' \<or> close_seasons c now ds s = Inr s'"
      using Cons.prems by (auto simp: p and_then_Inr Let_def split: if_splits)
    then have "only_bonuses (s\<lparr>bonuses := b\<rparr>) s' \<or> only_bonuses s s'" using Cons.IH by blast
    then show ?thesis by (cases s; cases s') (simp add: only_bonuses_def)
  qed
qed

lemma only_bonusesD:
  assumes "only_bonuses s s'"
  shows "reserves s' = reserves s" and "receipts s' = receipts s" and "stakings s' = stakings s"
    and "dominators s' = dominators s" and "pending_unstakings s' = pending_unstakings s"
    and "world s' = world s" and "get_dominator d s' = get_dominator d s"
  using assms by (cases s; cases s'; simp add: only_bonuses_def get_dominator_def)+

text \<open>A release either happens or leaves the state.\<close>

lemma release_all_step:
  assumes "release_all c ((a, v) # rest) s = Inr s'"
  obtains s1 where "release_all c rest s1 = Inr s'"
    and "s1 = s \<or> (\<exists>s0. vf_unreserve c RESERVE_FOR_PENDING_UNSTAKE a (native_token_id c) v
        (verifier_system_account (vc_params c)) s = Inr s0
      \<and> s1 = deposit_verifier (TaoUnstakeUnlock a v) s0)"
  using assms by (auto simp: and_then_Inr drop_error_Inr)

lemma on_initialize_Inr:
  assumes "on_initialize c now s = Inr s'"
  obtains (skip) "s' = s" and "now mod dominator_check_grace_period (vc_params c) \<noteq> 0"
    | (run) s1 where "now mod dominator_check_grace_period (vc_params c) = 0"
      and "close_seasons c now (dominators s) s = Inr s1"
      and "release_all c (pending_unstakings s now)
        (s1\<lparr>pending_unstakings := (pending_unstakings s)(now := [])\<rparr>) = Inr s'"
proof -
  obtain rm where rm: "rm = now mod dominator_check_grace_period (vc_params c)"
    and step: "(if rm \<noteq> 0 then Inr s
    else
      and_then (close_seasons c now (dominators s) s) (\<lambda>s.
      release_all c (pending_unstakings s now)
        (s\<lparr>pending_unstakings := (pending_unstakings s)(now := [])\<rparr>))) = Inr s'"
    using assms by (auto simp: on_initialize_def and_then_Inr word_rem_Inr)
  show thesis
  proof (cases "rm = 0")
    case True
    then obtain s1 where s1: "close_seasons c now (dominators s) s = Inr s1"
      and "release_all c (pending_unstakings s1 now)
        (s1\<lparr>pending_unstakings := (pending_unstakings s1)(now := [])\<rparr>) = Inr s'"
      using step by (auto simp: and_then_Inr)
    then show thesis
      using run [of s1] True rm only_bonusesD(5) [OF close_seasons_frame [OF s1]] by simp
  next
    case False
    then show thesis using skip step rm by simp
  qed
qed

section \<open>Registration\<close>

lemma register_Inr:
  assumes "register c o' name s = Inr s'"
  obtains dmn d where "get_dominator dmn s = None" and "dom_staked d = 0"
    and "dom_status d = DOMINATOR_REGISTERED"
    and "s' = deposit_verifier (DominatorClaimed dmn) (put_dominator dmn d s)"
    and "dom_name d = name" and "o' = SignedOrigin dmn"
    and "\<not> list_ex (\<lambda>(_, d). dom_name d = name) (dominators s)"
proof -
  obtain dmn rm where dmn: "o' = SignedOrigin dmn" "get_dominator dmn s = None"
    "\<not> list_ex (\<lambda>(_, d). dom_name d = name) (dominators s)"
    and s': "s' = deposit_verifier (DominatorClaimed dmn)
      (put_dominator dmn
        \<lparr>dom_name = name, dom_staked = 0, merkle_root = replicate 32 0, dom_start = current_block c s - rm,
         dom_sequence = (0, current_block c s), dom_status = DOMINATOR_REGISTERED\<rparr> s)"
    using assms by (auto simp: register_def Let_def ensure_Inr and_then_Inr ensure_signed_Inr)
  show thesis by (rule that [OF dmn(2) _ _ s' _ dmn(1,3)]) simp_all
qed

end
