(* ===== verification/Verifier_Backing.thy ===== *)
theory Verifier_Backing
  imports Verifier_Facts Transition_Systems
begin

text \<open>
  Every entry of the custody ledger is backed: for each account and token the amounts the verifier
  holds for all purposes and dominators add up to at most the account's reserved balance in the
  asset ledger, and an authorisation receipt is covered by the stash.

  The proof is relative to two contracts: the asset ledger is a \<open>reservable_asset\<close>, and the other
  pallets the verifier calls leave reserved balances alone, which the locale \<open>verifier_world\<close>
  states. A callback is a call of the same runtime: it keeps the invariant.
\<close>

section \<open>The sum of what is held\<close>

definition in_custody :: "account \<Rightarrow> token_id \<Rightarrow> reserve_key \<Rightarrow> bool" where
  "in_custody a t k \<longleftrightarrow> (\<exists>rid dmn. k = ((rid, a, t), dmn))"

definition held :: "account \<Rightarrow> token_id \<Rightarrow> (reserve_key \<Rightarrow> u128 option) \<Rightarrow> nat" where
  "held a t m = dom_sum unat (\<lambda>(rid, dmn). m ((rid, a, t), dmn))"

lemma held_slot_finite:
  assumes "finite (dom m)"
  shows "finite (dom (\<lambda>(rid, dmn). m ((rid, a, t), dmn)))"
proof -
  have "dom (\<lambda>(rid, dmn). m ((rid, a, t), dmn)) \<subseteq> (\<lambda>((rid, _, _), dmn). (rid, dmn)) ` dom m"
    by (force simp: image_iff)
  then show ?thesis using assms by (meson finite_imageI finite_subset)
qed

lemma held_upd:
  assumes "finite (dom m)"
  shows "held a t (m(((rid, b, u), dmn) := x))
      + (if b = a \<and> u = t then opt_val unat (m ((rid, b, u), dmn)) else 0)
    = held a t m + (if b = a \<and> u = t then opt_val unat x else 0)"
proof (cases "b = a \<and> u = t")
  case True
  let ?f = "\<lambda>m :: reserve_key \<Rightarrow> u128 option. \<lambda>(rid, dmn). m ((rid, a, t), dmn)"
  have "?f (m(((rid, a, t), dmn) := x)) = (?f m)((rid, dmn) := x)" by (auto simp: fun_eq_iff)
  then show ?thesis
    using True dom_sum_upd [OF held_slot_finite [OF assms], of unat a t "(rid, dmn)" x]
    by (simp add: held_def)
next
  case False
  then have "(\<lambda>(r, d). (m(((rid, b, u), dmn) := x)) ((r, a, t), d)) = (\<lambda>(r, d). m ((r, a, t), d))"
    by (auto simp: fun_eq_iff)
  then have "held a t (m(((rid, b, u), dmn) := x)) = held a t m" by (simp only: held_def)
  then show ?thesis using False by auto
qed

lemma held_ge:
  assumes "finite (dom m)"
  shows "opt_val unat (m ((rid, a, t), dmn)) \<le> held a t m"
proof (cases "m ((rid, a, t), dmn)")
  case (Some v)
  then have "(\<lambda>(rid, dmn). m ((rid, a, t), dmn)) (rid, dmn) = Some v" by simp
  then have "unat v \<le> held a t m"
    unfolding held_def by (rule dom_sum_ge [OF held_slot_finite [OF assms]])
  with Some show ?thesis by simp
qed simp

lemma held_ge2:
  assumes "finite (dom m)" and "(rid, dmn) \<noteq> (rid', dmn')"
  shows "opt_val unat (m ((rid, a, t), dmn)) + opt_val unat (m ((rid', a, t), dmn')) \<le> held a t m"
proof -
  have "held a t (m(((rid, a, t), dmn) := None)) + opt_val unat (m ((rid, a, t), dmn)) = held a t m"
    using held_upd [OF assms(1), of a t rid a t dmn None] by simp
  moreover have "finite (dom (m(((rid, a, t), dmn) := None)))" using assms(1) by simp
  then have "opt_val unat ((m(((rid, a, t), dmn) := None)) ((rid', a, t), dmn'))
      \<le> held a t (m(((rid, a, t), dmn) := None))"
    by (rule held_ge)
  ultimately show ?thesis using assms(2) by (auto simp: fun_upd_apply split: if_splits)
qed

section \<open>The invariant\<close>

definition receipt_covered :: "('w, 'cb) verifier_state \<Rightarrow> bool" where
  "receipt_covered s \<longleftrightarrow> (\<forall>dmn a t v b. receipts s (dmn, a) = Some (Authorize t v b) \<longrightarrow>
    v \<le> get_reserve ((RESERVE_FOR_AUTHORIZING_STASH, a, t), dmn) s)"

text \<open>Other pallets may hold reserves of the same accounts: \<open>others\<close> says how much.\<close>

definition custody_ok ::
  "'w asset \<Rightarrow> (token_id \<Rightarrow> bool) \<Rightarrow> (token_id \<Rightarrow> account \<Rightarrow> nat) \<Rightarrow> ('w, 'cb) verifier_state \<Rightarrow> bool" where
  "custody_ok A good others s \<longleftrightarrow> finite (dom (reserves s))
    \<and> (\<forall>a t. good t \<longrightarrow> held a t (reserves s) + others t a \<le> unat (as_reserved A t a (world s)))
    \<and> receipt_covered s"

lemma custody_okD:
  assumes "custody_ok A good others s"
  shows "finite (dom (reserves s))"
    and "good t \<Longrightarrow> held a t (reserves s) + others t a \<le> unat (as_reserved A t a (world s))"
    and "receipt_covered s"
  using assms by (auto simp: custody_ok_def)

locale verifier_world = reservable_asset "vc_asset c" good
  for c :: "('w, 'cb) verifier_config" and good :: "token_id \<Rightarrow> bool" +
  fixes others :: "token_id \<Rightarrow> account \<Rightarrow> nat"
  assumes consume_reserved: "env_consume_liquidity (vc_env c) a p v b w = Inr w'
      \<Longrightarrow> same_reserved (vc_asset c) good w w'"
    and put_reserved: "same_reserved (vc_asset c) good w (env_put_liquidity (vc_env c) a p v b w)"
    and remove_reserved: "env_remove_liquidity (vc_env c) a p v w = Inr (b, w')
      \<Longrightarrow> same_reserved (vc_asset c) good w w'"
    and price_reserved: "same_reserved (vc_asset c) good w (env_set_price (vc_env c) t v q b w)"
    and market_reserved: "env_open_market (vc_env c) a t u x y v w = Inr w'
      \<Longrightarrow> same_reserved (vc_asset c) good w w'"
    and nonce_reserved: "same_reserved (vc_asset c) good w (env_inc_account_nonce (vc_env c) a w)"
    and callback_custody: "vc_dispatch c cb a s = Inr s' \<Longrightarrow> custody_ok (vc_asset c) good others s
      \<Longrightarrow> custody_ok (vc_asset c) good others s'"
begin

abbreviation ok :: "('w, 'cb) verifier_state \<Rightarrow> bool" where
  "ok s \<equiv> custody_ok (vc_asset c) good others s"

lemma ok_same:
  assumes "ok s" and "reserves s' = reserves s" and "receipts s' = receipts s"
    and "same_reserved (vc_asset c) good (world s) (world s')"
  shows "ok s'"
proof -
  have "as_reserved (vc_asset c) t a (world s') = as_reserved (vc_asset c) t a (world s)" if "good t" for t a
    using assms(4) that by (rule same_reservedD)
  then show ?thesis
    using assms(1-3) by (simp add: custody_ok_def receipt_covered_def get_reserve_def)
qed

lemma ok_world: "ok s \<Longrightarrow> same_reserved (vc_asset c) good (world s) w \<Longrightarrow> ok (s\<lparr>world := w\<rparr>)"
  by (rule ok_same) simp_all

lemma ok_receipt:
  assumes "ok s" and "\<And>t v b. r \<noteq> Some (Authorize t v b)"
  shows "ok (s\<lparr>receipts := (receipts s)(k := r)\<rparr>)"
  using assms by (auto simp: custody_ok_def receipt_covered_def get_reserve_def)

text \<open>One write to the ledger together with a change of one reserved balance by the same amount.\<close>

lemma ok_write:
  assumes ok: "ok s" and s': "s' = s\<lparr>world := w, reserves := (reserves s)(((rid, a, t), dmn) := x)\<rparr>"
    and frame: "same_reserved_but (vc_asset c) good t a (world s) w"
    and balance: "good t \<Longrightarrow>
      unat (as_reserved (vc_asset c) t a w) + unat (get_reserve ((rid, a, t), dmn) s)
      = unat (as_reserved (vc_asset c) t a (world s)) + opt_val unat x"
    and stash: "rid = RESERVE_FOR_AUTHORIZING_STASH \<Longrightarrow> get_reserve ((rid, a, t), dmn) s \<le> value_or 0 x"
  shows "ok s'"
proof -
  note fin = custody_okD(1) [OF ok]
  have "held b u (reserves s') + others u b \<le> unat (as_reserved (vc_asset c) u b (world s'))" if u: "good u" for b u
  proof (cases "a = b \<and> t = u")
    case True
    then show ?thesis
      using held_upd [OF fin, of b u rid a t dmn x] custody_okD(2) [OF ok u, of b] balance u
      by (simp add: s' opt_val_reserve)
  next
    case False
    then have "as_reserved (vc_asset c) u b w = as_reserved (vc_asset c) u b (world s)"
      using same_reserved_butD [OF frame u, of b] by auto
    then show ?thesis
      using held_upd [OF fin, of b u rid a t dmn x] custody_okD(2) [OF ok u, of b] False
      by (auto simp: s')
  qed
  moreover have "receipt_covered s'"
    unfolding receipt_covered_def
  proof (intro allI impI)
    fix d e v u b
    assume "receipts s' (d, e) = Some (Authorize u v b)"
    then have "receipts s (d, e) = Some (Authorize u v b)" by (simp add: s')
    then have "v \<le> get_reserve ((RESERVE_FOR_AUTHORIZING_STASH, e, u), d) s"
      using custody_okD(3) [OF ok] unfolding receipt_covered_def by blast
    then show "v \<le> get_reserve ((RESERVE_FOR_AUTHORIZING_STASH, e, u), d) s'"
      using stash by (cases "((RESERVE_FOR_AUTHORIZING_STASH, e, u), d) = ((rid, a, t), dmn)")
        (auto simp: s' get_reserve_def)
  qed
  ultimately show ?thesis using fin by (simp add: custody_ok_def s')
qed

section \<open>The ledger operations\<close>

lemma vf_reserve_ok:
  assumes ok: "ok s" and run: "vf_reserve c rid a t v dmn s = Inr s'"
  shows "ok s'"
proof (cases "v = 0")
  case True
  with assms show ?thesis by (simp add: vf_reserve_def)
next
  case False
  let ?k = "((rid, a, t), dmn)"
  obtain w x where w: "as_reserve (vc_asset c) t a v (world s) = Inr w"
    and x: "unat x = unat (get_reserve ?k s) + unat v"
    and s': "s' = s\<lparr>world := w, reserves := (reserves s)(?k \<mapsto> x)\<rparr>"
    using run False by (auto simp: vf_reserve_def Let_def result_simps get_reserve_def)
  show ?thesis
    using reserve_effect [OF w] x by (intro ok_write [OF ok s' reserve_frame [OF w]])
      (auto simp: word_le_nat_alt)
qed

lemma vf_unreserve_ok:
  assumes ok: "ok s" and run: "vf_unreserve c rid a t v dmn s = Inr s'"
    and rid: "rid \<noteq> RESERVE_FOR_AUTHORIZING_STASH"
  shows "ok s'"
proof (cases "v = 0")
  case True
  with assms show ?thesis by (simp add: vf_unreserve_def)
next
  case False
  obtain w x where w: "as_unreserve (vc_asset c) t a v (world s) = Inr w"
    and x: "unat (get_reserve ((rid, a, t), dmn) s) = unat v + opt_val unat x"
    and s': "s' = s\<lparr>world := w, reserves := (reserves s)(((rid, a, t), dmn) := x)\<rparr>"
    using run False by (cases rule: vf_unreserve_cases) auto
  show ?thesis
    using unreserve_effect [OF w] x rid by (intro ok_write [OF ok s' unreserve_frame [OF w]]) auto
qed

lemma clear_ok:
  assumes ok: "ok s" and run: "clear c a dmn t v s = Inr s'"
  shows "ok s'"
proof -
  let ?k = "((RESERVE_FOR_AUTHORIZING, a, t), dmn)"
  let ?f = "\<lambda>(fr :: u128, rs). and_then (ok_or (checked_add (value_or 0 (checked_sub rs (get_reserve ?k s))) v)
             (verr verifier_error.Overflow)) (\<lambda>rs'. Inr (fr, rs'))"
  obtain w where w: "as_try_mutate_account (vc_asset c) t a ?f (world s) = Inr w"
    and s': "s' = s\<lparr>world := w, reserves := (reserves s)(?k \<mapsto> v)\<rparr>"
    using run by (auto simp: clear_def Let_def result_simps)
  have "unat (as_reserved (vc_asset c) t a w) + unat (get_reserve ?k s)
      = unat (as_reserved (vc_asset c) t a (world s)) + unat v" if t: "good t"
  proof -
    obtain fr p where "?f (fr, as_reserved (vc_asset c) t a (world s)) = Inr (p, as_reserved (vc_asset c) t a w)"
      using mutate_effect [OF w t] by blast
    then have sum: "unat (as_reserved (vc_asset c) t a w)
        = unat (value_or 0 (checked_sub (as_reserved (vc_asset c) t a (world s)) (get_reserve ?k s))) + unat v"
      by (auto simp: result_simps)
    have "unat (get_reserve ?k s) \<le> held a t (reserves s)"
      using held_ge [OF custody_okD(1) [OF ok]] by (simp add: opt_val_reserve [symmetric])
    then have le: "unat (get_reserve ?k s) \<le> unat (as_reserved (vc_asset c) t a (world s))"
      using custody_okD(2) [OF ok t, of a] by linarith
    then have "get_reserve ?k s \<le> as_reserved (vc_asset c) t a (world s)" by (simp only: word_le_nat_alt)
    then show ?thesis using sum le by (simp add: checked_sub_def unat_sub)
  qed
  then show ?thesis
    by (intro ok_write [OF ok s' mutate_frame [OF w]]) (auto simp: reserve_id_defs)
qed

section \<open>Custody\<close>

lemma authorize_to_ok:
  assumes ok: "ok s" and run: "authorize_to c a dmn t v s = Inr s'"
  shows "ok s'"
proof -
  obtain s1 b where s1: "vf_reserve c RESERVE_FOR_AUTHORIZING_STASH a t v dmn s = Inr s1"
    and s': "s' = deposit_verifier (TokenHosted a dmn t v)
        (s1\<lparr>receipts := (receipts s1)((dmn, a) \<mapsto> Authorize t v b)\<rparr>)"
    using run by (auto simp: authorize_to_def Let_def result_simps)
  have "v \<le> get_reserve ((RESERVE_FOR_AUTHORIZING_STASH, a, t), dmn) s1"
    using vf_reserve_Inr(7) [OF s1] by (simp add: word_le_nat_alt)
  then show ?thesis
    using vf_reserve_ok [OF ok s1]
    by (auto simp: s' custody_ok_def receipt_covered_def get_reserve_def)
qed

text \<open>The stash of one account may be merged, or handed over up to the amount the receipt covers,
  once the receipt is gone.\<close>

lemma ok_take_stash:
  assumes ok: "ok s"
    and v: "v \<le> get_reserve ((RESERVE_FOR_AUTHORIZING_STASH, a, t), dmn) s"
    and x: "unat x = unat (get_reserve ((RESERVE_FOR_AUTHORIZING, a, t), dmn) s) + unat v"
  shows "ok (s\<lparr>reserves := (reserves s)(((RESERVE_FOR_AUTHORIZING_STASH, a, t), dmn) := None,
                  ((RESERVE_FOR_AUTHORIZING, a, t), dmn) \<mapsto> x),
              receipts := (receipts s)((dmn, a) := None)\<rparr>)"
proof -
  let ?ks = "((RESERVE_FOR_AUTHORIZING_STASH, a, t), dmn)" and ?ka = "((RESERVE_FOR_AUTHORIZING, a, t), dmn)"
  let ?m = "(reserves s)(?ks := None)" and ?m' = "(reserves s)(?ks := None, ?ka \<mapsto> x)"
  have ne: "?ks \<noteq> ?ka" by (simp add: reserve_id_defs)
  note fin = custody_okD(1) [OF ok]
  have fin': "finite (dom ?m)" by (simp only: finite_dom_upd fin)
  have "held b u ?m' \<le> held b u (reserves s)" for b u
    using held_upd [OF fin, of b u RESERVE_FOR_AUTHORIZING_STASH a t dmn None]
      held_upd [OF fin', of b u RESERVE_FOR_AUTHORIZING a t dmn "Some x"] v x ne
    by (cases "a = b \<and> t = u") (auto simp: opt_val_reserve word_le_nat_alt)
  moreover have "receipt_covered (s\<lparr>reserves := ?m', receipts := (receipts s)((dmn, a) := None)\<rparr>)"
    using custody_okD(3) [OF ok] by (auto simp: receipt_covered_def get_reserve_def reserve_id_defs)
  moreover have "finite (dom ?m')" by (simp only: finite_dom_upd fin)
  ultimately show ?thesis
    using custody_okD(2) [OF ok] unfolding custody_ok_def
    by (simp del: fun_upd_apply dom_fun_upd) (meson add_le_mono1 order_trans)
qed

lemma vf_unreserve_receipts:
  "vf_unreserve c rid a t v dmn s = Inr s' \<Longrightarrow>
    vf_unreserve c rid a t v dmn (s\<lparr>receipts := r\<rparr>) = Inr (s'\<lparr>receipts := r\<rparr>)
    \<and> receipts s' = receipts s"
  by (cases "v = 0"; cases "as_unreserve (vc_asset c) t a v (world s)";
      cases "reserves s ((rid, a, t), dmn)";
      cases "checked_sub (the (reserves s ((rid, a, t), dmn))) v")
    (auto simp: vf_unreserve_def on_world_def)

lemma merge_stash_ok:
  assumes ok: "ok s" and run: "merge_stash a t dmn s = Inr s1"
  shows "ok (s1\<lparr>receipts := (receipts s1)((dmn, a) := None)\<rparr>)"
proof -
  let ?ks = "((RESERVE_FOR_AUTHORIZING_STASH, a, t), dmn)" and ?ka = "((RESERVE_FOR_AUTHORIZING, a, t), dmn)"
  have ne: "?ks \<noteq> ?ka" by (simp add: reserve_id_defs)
  show ?thesis
  proof (cases "0 < get_reserve ?ks s")
    case True
    then obtain x where x: "unat x = unat (get_reserve ?ka s) + unat (get_reserve ?ks s)"
      and s1: "s1 = s\<lparr>reserves := (reserves s)(?ka \<mapsto> x, ?ks := None)\<rparr>"
      using run by (auto simp: merge_stash_def Let_def result_simps)
    have "(reserves s)(?ka \<mapsto> x, ?ks := None) = (reserves s)(?ks := None, ?ka \<mapsto> x)"
      using ne by (rule fun_upd_twist [symmetric])
    then show ?thesis using ok_take_stash [OF ok order.refl x] by (simp add: s1 del: fun_upd_apply)
  next
    case False
    then have s1: "s1 = s\<lparr>world := world s, reserves := (reserves s)(?ks := None)\<rparr>"
      using run by (simp add: merge_stash_def Let_def)
    have "get_reserve ?ks s = 0" using False by (simp add: word_gt_0)
    then have "ok s1" by (intro ok_write [OF ok s1]) (simp_all add: same_reserved_but_def)
    then show ?thesis by (rule ok_receipt) simp
  qed
qed

lemma revoke_from_ok:
  assumes ok: "ok s" and run: "revoke_from c a dmn t amount cb s = Inr s'"
  shows "ok s'"
proof -
  let ?v = "value_or (get_reserve ((RESERVE_FOR_AUTHORIZING, a, t), dmn) s) amount"
  let ?ev = "deposit_verifier (TokenRevoked a dmn t ?v)"
  consider (zero) "s' = s"
    | (evicted) s1 s2 where "merge_stash a t dmn s = Inr s1"
      and "vf_unreserve c RESERVE_FOR_AUTHORIZING a t ?v dmn s1 = Inr s2"
      and "s' = ?ev (s2\<lparr>receipts := (receipts s2)((dmn, a) := None)\<rparr>)"
    | (receipt) r where "s' = ?ev (s\<lparr>receipts := (receipts s)((dmn, a) \<mapsto> r)\<rparr>)"
      and "\<And>t v b. r \<noteq> Authorize t v b"
  proof (cases "?v = 0")
    case True
    then show thesis using run zero by (simp add: revoke_from_def Let_def)
  next
    case False
    then obtain d where d: "get_dominator dmn s = Some d"
      using run by (auto simp: revoke_from_def Let_def ensure_Inr and_then_Inr ok_or_Inr)
    show thesis
    proof (cases "dom_status d = DOMINATOR_EVICTED")
      case True
      have "\<exists>s1 s2. merge_stash a t dmn s = Inr s1
          \<and> vf_unreserve c RESERVE_FOR_AUTHORIZING a t ?v dmn s1 = Inr s2
          \<and> s' = ?ev (s2\<lparr>receipts := (receipts s2)((dmn, a) := None)\<rparr>)"
        using run False True d by (auto simp: revoke_from_def Let_def ensure_Inr and_then_Inr ok_or_Inr)
      then show thesis using evicted by blast
    next
      case not_evicted: False
      show thesis
        by (rule receipt [of "case cb of Some cb \<Rightarrow> RevokeWithCallback t ?v (current_block c s) cb
              | None \<Rightarrow> Revoke t ?v (current_block c s)"])
          (use run False not_evicted d in
            \<open>auto simp: revoke_from_def Let_def ensure_Inr and_then_Inr ok_or_Inr split: option.splits\<close>)
    qed
  qed
  then show ?thesis
  proof cases
    case zero
    with ok show ?thesis by simp
  next
    case evicted
    note un = vf_unreserve_receipts [OF evicted(2), of "(receipts s1)((dmn, a) := None)"]
    have "ok (s2\<lparr>receipts := (receipts s1)((dmn, a) := None)\<rparr>)"
      by (rule vf_unreserve_ok [OF merge_stash_ok [OF ok evicted(1)] un [THEN conjunct1]])
        (simp add: reserve_id_defs)
    then have ok2: "ok (s2\<lparr>receipts := (receipts s2)((dmn, a) := None)\<rparr>)"
      by (simp only: un [THEN conjunct2])
    show ?thesis unfolding evicted(3) by (rule ok_same [OF ok2]) simp_all
  next
    case receipt
    have "ok (s\<lparr>receipts := (receipts s)((dmn, a) \<mapsto> r)\<rparr>)"
      using receipt(2) by (intro ok_receipt [OF ok]) auto
    then show ?thesis unfolding receipt(1) by (rule ok_same) simp_all
  qed
qed


section \<open>Staking\<close>

lemma pay_shares_ok: "pay_shares c a shs s = Inr s' \<Longrightarrow> ok s \<Longrightarrow> ok s'"
proof (induction shs arbitrary: s)
  case (Cons p shs)
  obtain t v where p: "p = (t, v)" by (cases p)
  obtain w where w: "as_try_mutate_account (vc_asset c) t a (\<lambda>(x, y). Inr (x + v, y)) (world s) = Inr w"
    and run: "pay_shares c a shs (s\<lparr>world := w\<rparr>) = Inr s'"
    using Cons.prems(1) by (auto simp: p and_then_Inr on_world_Inr)
  show ?case by (rule Cons.IH [OF run ok_world [OF Cons.prems(2) pay_free [OF w]]])
qed simp

lemma take_shares_ok: "take_shares c a d dist s = Inr (sn, s') \<Longrightarrow> ok s \<Longrightarrow> ok s'"
  by (auto simp: take_shares_def and_then_Inr split: if_splits dest: pay_shares_ok)

lemma stake_on_ok:
  assumes ok: "ok s" and run: "stake_on c a dmn v s = Inr s'"
  shows "ok s'"
  using run
proof (cases rule: stake_on_Inr)
  case (1 d s1 sn s2)
  have "ok s1" by (rule vf_reserve_ok [OF ok 1(4)])
  with 1(6) have ok2: "ok s2" by (auto simp: Let_def split: if_splits dest: take_shares_ok)
  show ?thesis
    by (rule ok_same [OF ok2])
      (simp_all add: 1 only_worldD [OF 1(7)] vf_reserve_Inr [OF 1(4)])
qed

lemma unstake_from_ok:
  assumes ok: "ok s" and run: "unstake_from c a dmn v s = Inr s'"
  shows "ok s'"
  using run
proof (cases rule: unstake_from_Inr)
  case (1 d tot st remain s1 s2 sn rm u s3)
  have "ok s1" by (rule vf_unreserve_ok [OF ok 1(8)]) (simp add: reserve_id_defs)
  then have ok2: "ok s2" by (rule vf_reserve_ok [OF _ 1(9)])
  obtain x where x: "take_shares c a dmn
        \<lparr>dist_from = from_season st, dist_to = sn, dist_staking = staking_amount st\<rparr> (s2\<lparr>pending_unstakings :=
          (pending_unstakings s)(current_block c s2 - rm + UNSTAKE_DELAY_BLOCKS := AList.update a u
            (pending_unstakings s (current_block c s2 - rm + UNSTAKE_DELAY_BLOCKS)))\<rparr>) = Inr (x, s3)"
    using 1(13) by blast
  have ok3: "ok s3" by (rule take_shares_ok [OF x ok_same [OF ok2]]) simp_all
  have "receipts s3 = receipts s"
    using only_worldD(2) take_shares_frame [OF x] vf_reserve_Inr(1) [OF 1(9)] vf_unreserve_Inr(1) [OF 1(8)]
    by fastforce
  then show ?thesis by (intro ok_same [OF ok3]) (simp_all add: 1)
qed

lemma claim_shares_ok:
  assumes ok: "ok s" and run: "claim_shares c o' src s = Inr s'"
  shows "ok s'"
  using run
proof (cases rule: claim_shares_Inr)
  case (1 a dmn d st sn x s1)
  have "ok s1" by (rule take_shares_ok [OF 1(4) ok])
  then show ?thesis by (rule ok_same) (simp_all add: 1)
qed

lemma release_all_ok: "release_all c rs s = Inr s' \<Longrightarrow> ok s \<Longrightarrow> ok s'"
proof (induction rs arbitrary: s)
  case (Cons p rs)
  obtain a v where p: "p = (a, v)" by (cases p)
  obtain s1 where run: "release_all c rs s1 = Inr s'"
    and s1: "s1 = s \<or> (\<exists>s0. vf_unreserve c RESERVE_FOR_PENDING_UNSTAKE a (native_token_id c) v
        (verifier_system_account (vc_params c)) s = Inr s0
      \<and> s1 = deposit_verifier (TaoUnstakeUnlock a v) s0)"
    using Cons.prems(1) unfolding p by (rule release_all_step)
  from s1 have "ok s1"
  proof (elim disjE exE conjE)
    fix s0
    assume s0: "vf_unreserve c RESERVE_FOR_PENDING_UNSTAKE a (native_token_id c) v
        (verifier_system_account (vc_params c)) s = Inr s0"
      and s1: "s1 = deposit_verifier (TaoUnstakeUnlock a v) s0"
    have "ok s0" by (rule vf_unreserve_ok [OF Cons.prems(2) s0]) (simp add: reserve_id_defs)
    then show "ok s1" by (rule ok_same) (simp_all add: s1)
  qed (simp add: Cons.prems(2))
  then show ?case by (rule Cons.IH [OF run])
qed simp

lemma on_initialize_ok:
  assumes ok: "ok s" and run: "on_initialize c now s = Inr s'"
  shows "ok s'"
  using run
proof (cases rule: on_initialize_Inr)
  case skip
  with ok show ?thesis by simp
next
  case (run s1)
  have "ok (s1\<lparr>pending_unstakings := (pending_unstakings s)(now := [])\<rparr>)"
    by (rule ok_same [OF ok]) (simp_all add: only_bonusesD [OF close_seasons_frame [OF run(2)]])
  then show ?thesis by (rule release_all_ok [OF run(3)])
qed

section \<open>Settlement\<close>

lemma settle_makers_ok: "settle_makers c dmn base quote block ds s = Inr s' \<Longrightarrow> ok s \<Longrightarrow> ok s'"
proof (induction ds arbitrary: s)
  case (Cons d ds)
  obtain s1 s2 w where s1: "clear c (mk_who d) dmn base (mk_base_balance d) s = Inr s1"
    and s2: "clear c (mk_who d) dmn quote (mk_quote_balance d) s1 = Inr s2"
    and w: "env_consume_liquidity (vc_env c) (mk_who d) (base, quote) (mk_filled_volume d) block
        (world s2) = Inr w"
    and run: "settle_makers c dmn base quote block ds (s2\<lparr>world := w\<rparr>) = Inr s'"
    using Cons.prems(1) by (auto simp: and_then_Inr on_world_Inr)
  have "ok s2" by (rule clear_ok [OF clear_ok [OF Cons.prems(2) s1] s2])
  then have "ok (s2\<lparr>world := w\<rparr>)" using consume_reserved [OF w] by (rule ok_world)
  then show ?case by (rule Cons.IH [OF run])
qed simp

lemma pay_fee_ok: "pay_fee c t a v s = Inr s' \<Longrightarrow> ok s \<Longrightarrow> ok s'"
  by (auto simp: pay_fee_def on_world_Inr intro: ok_world pay_free)

lemma put_profit_ok: "ok s \<Longrightarrow> ok (put_profit dmn sn t v s)"
  by (erule ok_same) (simp_all add: put_profit_def)

lemma pay_base_fee_ok:
  assumes ok: "ok s" and run: "pay_base_fee c beneficiary bk base fee s = Inr s'"
  shows "ok s'"
proof (cases "fee = 0")
  case True
  with assms show ?thesis by (simp add: pay_base_fee_def)
next
  case False
  obtain s1 v where "ok s1" and "pay_fee c base beneficiary v s1 = Inr s'"
  proof (cases bk)
    case None
    then show thesis using that [OF ok] run False by (simp add: pay_base_fee_def)
  next
    case (Some b)
    then obtain s1 u v where "pay_fee c base b' u s = Inr s1" and "pay_fee c base beneficiary v s1 = Inr s'"
      if "b' = env_broker_beneficiary (vc_env c) b (world s)" for b'
      using run False by (auto simp: pay_base_fee_def Let_def and_then_Inr ok_or_Inr)
    then show thesis using that [of s1 v] ok by (blast intro: pay_fee_ok)
  qed
  then show ?thesis by (blast intro: pay_fee_ok)
qed

lemma settle_ok:
  assumes ok: "ok s" and run: "settle c dmn beneficiary base quote bk block sn cr s = Inr s'"
  shows "ok s'"
proof -
  let ?tk = "cr_taker cr"
  obtain s1 s2 s3 where s1: "settle_makers c dmn base quote block (cr_makers cr) s = Inr s1"
    and s2: "clear c (tk_who ?tk) dmn base (tk_base_balance ?tk) s1 = Inr s2"
    and s3: "clear c (tk_who ?tk) dmn quote (tk_quote_balance ?tk) s2 = Inr s3"
    and s4: "pay_base_fee c beneficiary bk base (cr_base_fee cr) (put_profit dmn sn quote (cr_quote_fee cr)
        (s3\<lparr>world := env_put_liquidity (vc_env c) (tk_who ?tk) (base, quote) (tk_unfilled_volume ?tk)
           block (world s3)\<rparr>)) = Inr s'"
    using run by (auto simp: settle_def Let_def and_then_Inr)
  have "ok s3" by (rule clear_ok [OF clear_ok [OF settle_makers_ok [OF s1 ok] s2] s3])
  then show ?thesis by (rule pay_base_fee_ok [OF put_profit_ok [OF ok_world [OF _ put_reserved]] s4])
qed

lemma ask_limit_ok:
  "ask_limit c dmn ben p block sn pr amount mf tf base quote bk s = Inr (cr, s') \<Longrightarrow> ok s \<Longrightarrow> ok s'"
  by (auto simp: ask_limit_def Let_def and_then_Inr ensure_Inr intro: settle_ok)

lemma bid_limit_ok:
  "bid_limit c dmn ben p block sn pr amount mf tf base quote bk s = Inr (cr, s') \<Longrightarrow> ok s \<Longrightarrow> ok s'"
  by (auto simp: bid_limit_def Let_def and_then_Inr ensure_Inr intro: settle_ok)

section \<open>Cancellations and transfers\<close>

lemma cancel_order_ok: "cancel_order c p base quote s = Inr s' \<Longrightarrow> ok s \<Longrightarrow> ok s'"
  by (auto simp: cancel_order_def and_then_Inr drop_error_Inr on_world_Inr
      intro: ok_world remove_reserved)

lemma run_callback_ok: "run_callback c a r s = Inr s' \<Longrightarrow> ok s \<Longrightarrow> ok s'"
  by (cases r) (auto simp: drop_error_Inr intro: callback_custody)

lemma transfer_out_ok:
  assumes ok: "ok s" and run: "transfer_out c dmn p t v s = Inr s'"
  shows "ok s'"
proof -
  obtain r s1 where s1: "vf_unreserve c RESERVE_FOR_AUTHORIZING (user_id p) t v dmn s = Inr s1"
    and s': "run_callback c (user_id p) r (s1\<lparr>receipts := (receipts s1)((dmn, user_id p) := None)\<rparr>) = Inr s'"
    using run by (auto simp: transfer_out_def and_then_Inr ensure_Inr)
  have "ok s1" by (rule vf_unreserve_ok [OF ok s1]) (simp add: reserve_id_defs)
  then have "ok (s1\<lparr>receipts := (receipts s1)((dmn, user_id p) := None)\<rparr>)" by (rule ok_receipt) simp
  with s' show ?thesis by (rule run_callback_ok)
qed

text \<open>The stash goes whole, the receipt's amount arrives: backing needs the receipt to be covered.\<close>

lemma transfer_in_ok:
  assumes ok: "ok s" and run: "transfer_in c dmn p t v s = Inr s'"
  shows "ok s'"
proof -
  let ?a = "user_id p"
  let ?ks = "((RESERVE_FOR_AUTHORIZING_STASH, ?a, t), dmn)" and ?ka = "((RESERVE_FOR_AUTHORIZING, ?a, t), dmn)"
  obtain r x where r: "receipts s (dmn, ?a) = Some r" "authorizes t v r"
    and x: "checked_add (get_reserve ?ka (s\<lparr>reserves := (reserves s)(?ks := None)\<rparr>)) v = Some x"
    and s': "s' = s\<lparr>reserves := (reserves s)(?ks := None, ?ka \<mapsto> x),
        receipts := (receipts s)((dmn, ?a) := None)\<rparr>"
    using run by (auto simp: transfer_in_def Let_def and_then_Inr ensure_Inr ok_or_Inr)
  obtain b where "r = Authorize t v b" using r(2) by (cases r) auto
  then have "v \<le> get_reserve ?ks s"
    using r(1) custody_okD(3) [OF ok] by (auto simp: receipt_covered_def)
  moreover have "unat x = unat (get_reserve ?ka s) + unat v"
    using x by (simp add: checked_add_eq_Some get_reserve_def reserve_id_defs)
  ultimately show ?thesis unfolding s' by (rule ok_take_stash [OF ok])
qed

lemma reject_transfer_out_ok: "reject_transfer_out c dmn p t v s = Inr s' \<Longrightarrow> ok s \<Longrightarrow> ok s'"
  by (auto simp: reject_transfer_out_def and_then_Inr ensure_Inr intro: ok_receipt)

lemma reject_transfer_in_ok: "reject_transfer_in dmn p s = Inr s' \<Longrightarrow> ok s \<Longrightarrow> ok s'"
  by (auto simp: reject_transfer_in_def ensure_Inr split: option.splits intro: ok_receipt)

section \<open>Proofs\<close>

lemma advance_ok: "advance dmn p block tr s = Inr (tr', s') \<Longrightarrow> ok s \<Longrightarrow> ok s'"
  by (auto simp: advance_def split: option.splits intro: ok_same)

lemma verify_and_update_ok:
  assumes ok: "ok s" and run: "verify_and_update c dmn ben root claim_at p s = Inr (tr, s')"
  shows "ok s'"
proof -
  obtain sn where body: "(let block = current_block c s;
      tr = \<lparr>tr_token_id = 0, tr_root = root, tr_amount = 0, tr_vol = 0\<rparr> in
    case cmd p of
      AskLimit pr amount maker_fee taker_fee base quote bk \<Rightarrow>
        and_then (ask_limit c dmn ben p block sn pr amount maker_fee taker_fee base quote bk s)
          (\<lambda>(cr, s). advance dmn p block (traded tr base cr) s)
    | BidLimit pr amount maker_fee taker_fee base quote bk \<Rightarrow>
        and_then (bid_limit c dmn ben p block sn pr amount maker_fee taker_fee base quote bk s)
          (\<lambda>(cr, s). advance dmn p block (traded tr base cr) s)
    | Cancel base quote \<Rightarrow> and_then (cancel_order c p base quote s) (advance dmn p block tr)
    | TransferOut t v \<Rightarrow> and_then (transfer_out c dmn p t v s) (advance dmn p block tr)
    | TransferIn t v \<Rightarrow> and_then (transfer_in c dmn p t v s) (advance dmn p block tr)
    | RejectTransferOut t v \<Rightarrow> and_then (reject_transfer_out c dmn p t v s) (\<lambda>s. Inr (tr, s))
    | RejectTransferIn \<Rightarrow> and_then (reject_transfer_in dmn p s) (\<lambda>s. Inr (tr, s))) = Inr (tr, s')"
    using run by (auto simp: verify_and_update_def ensure_Inr and_then_Inr Let_def)
  note ops = ask_limit_ok bid_limit_ok cancel_order_ok transfer_out_ok transfer_in_ok
    reject_transfer_out_ok reject_transfer_in_ok
  show ?thesis
    using body ok by (cases "cmd p") (auto simp: Let_def and_then_Inr intro: advance_ok ops)
qed

lemma verify_all_ok:
  "verify_all c dmn ben claim_at ps (root, incr, s) = Inr (root', incr', s') \<Longrightarrow> ok s \<Longrightarrow> ok s'"
  by (induction ps arbitrary: root incr s) (auto simp: and_then_Inr dest: verify_and_update_ok)

lemma set_prices_reserved:
  "same_reserved (vc_asset c) good w
    (fold (\<lambda>(token, b, q). env_set_price (vc_env c) token b q block) incr w)"
proof (induction incr arbitrary: w)
  case (Cons x incr)
  obtain t b q where x: "x = (t, b, q)" by (cases x)
  show ?case using same_reserved_trans [OF price_reserved Cons.IH] by (simp add: x)
qed simp

lemma verify_batch_ok:
  assumes ok: "ok s" and run: "verify_batch c dmn ben d ps s = Inr s'"
  shows "ok s'"
  using run verify_all_ok ok
  by (auto simp: verify_batch_def and_then_Inr Let_def intro: ok_world set_prices_reserved)

section \<open>Calls\<close>

lemma validate_beneficiary_ok: "validate_beneficiary c old sg new s = Inr s' \<Longrightarrow> ok s \<Longrightarrow> ok s'"
  by (auto simp: validate_beneficiary_def split: option.splits if_splits intro: ok_world nonce_reserved)

text \<open>The calls that administer dominators touch neither the ledger nor the receipts.\<close>

lemma dominator_calls_ok:
  assumes ok: "ok s"
  shows "register c o' name s = Inr s' \<Longrightarrow> ok s'"
    and "evict c o' d s = Inr s' \<Longrightarrow> ok s'"
    and "launch c o' d s = Inr s' \<Longrightarrow> ok s'"
    and "dominator_set_pubkey o' key s = Inr s' \<Longrightarrow> ok s'"
    and "dominator_set_rpc_endpoint o' e s = Inr s' \<Longrightarrow> ok s'"
    and "vf_open_market c o' b q bs qs mb s = Inr s' \<Longrightarrow> ok s'"
proof -
  show "ok s'" if "register c o' name s = Inr s'"
    using that by (intro ok_same [OF ok]) (auto simp: register_def Let_def result_simps)
  show "ok s'" if "evict c o' d s = Inr s'"
    using that by (intro ok_same [OF ok]) (auto simp: evict_def result_simps)
  show "ok s'" if "launch c o' d s = Inr s'"
    using that by (intro ok_same [OF ok]) (auto simp: launch_def result_simps)
  show "ok s'" if "dominator_set_pubkey o' key s = Inr s'"
    using that by (intro ok_same [OF ok])
      (auto simp: dominator_set_pubkey_def Let_def result_simps put_setting_def)
  show "ok s'" if "dominator_set_rpc_endpoint o' e s = Inr s'"
    using that by (intro ok_same [OF ok])
      (auto simp: dominator_set_rpc_endpoint_def Let_def result_simps put_setting_def)
  show "ok s'" if "vf_open_market c o' b q bs qs mb s = Inr s'"
    using that by (auto simp: vf_open_market_def result_simps intro: ok_world [OF ok] market_reserved)
qed

lemma put_setting_ok: "ok s \<Longrightarrow> ok (put_setting dmn x s)"
  by (erule ok_same) (simp_all add: put_setting_def)

lemma dominator_set_beneficiary_ok:
  "dominator_set_beneficiary c o' new sg s = Inr s' \<Longrightarrow> ok s \<Longrightarrow> ok s'"
  by (auto simp: dominator_set_beneficiary_def result_simps split: option.splits
      dest: validate_beneficiary_ok intro: put_setting_ok)

lemma call_ok:
  assumes ok: "ok s" and run: "run_verifier_call c call o' s = Inr s'"
  shows "ok s'"
proof (cases call)
  case (CallSetBeneficiary new sg)
  with run show ?thesis using dominator_set_beneficiary_ok ok by simp
next
  case (CallVerifyCompress bs)
  with run show ?thesis
    by (auto simp: verify_compress_def and_then_Inr split: prod.splits intro: verify_batch_ok [OF ok])
next
  case (CallVerify ps)
  with run show ?thesis
    by (auto simp: verify_def and_then_Inr split: prod.splits intro: verify_batch_ok [OF ok])
next
  case (CallVerifyCompressV2 bs)
  with run show ?thesis
    by (auto simp: verify_compress_v2_def and_then_Inr split: prod.splits intro: verify_batch_ok [OF ok])
next
  case (CallVerifyV2 ps)
  with run show ?thesis
    by (auto simp: verify_v2_def and_then_Inr split: prod.splits intro: verify_batch_ok [OF ok])
next
  case (CallStake d v)
  with run show ?thesis by (auto simp: stake_def and_then_Inr intro: stake_on_ok [OF ok])
next
  case (CallUnstake d v)
  with run show ?thesis by (auto simp: unstake_def and_then_Inr intro: unstake_from_ok [OF ok])
next
  case (CallClaimShares d)
  with run show ?thesis using claim_shares_ok [OF ok] by simp
next
  case (CallAuthorize d t v)
  with run show ?thesis by (auto simp: authorize_def and_then_Inr intro: authorize_to_ok [OF ok])
next
  case (CallRevoke d t v)
  with run show ?thesis by (auto simp: revoke_def and_then_Inr intro: revoke_from_ok [OF ok])
next
  case (CallRevokeWithCallback d t v cb)
  with run show ?thesis
    by (auto simp: revoke_with_callback_def and_then_Inr intro: revoke_from_ok [OF ok])
qed (use run dominator_calls_ok [OF ok] in simp_all)

end

end
