(* ===== verification/Runtime_Backing.thy ===== *)
theory Runtime_Backing
  imports Runtime Verifier_Backing Token_Asset Reward_Correct
begin

text \<open>
  What backs the custody ledger in the runtime. Every operation of the other pallets leaves the reserved
  balances of the good tokens and the clock alone (\<open>quiet\<close>). The locale \<open>runtime_calls\<close> then goes through the calls of
  the runtime once: a relation that tolerates quiet changes, the calls of the verifier and its custody
  operations holds across every call. The custody ledger of the verifier is the first instance.
\<close>

section \<open>The other pallets leave reserved balances alone\<close>

definition same_ledger :: "('n, 'z) token_state_scheme \<Rightarrow> ('n, 'z) token_state_scheme \<Rightarrow> bool" where
  "same_ledger s s' \<longleftrightarrow> token_balances s' = token_balances s \<and> native s' = native s \<and> block_number s' = block_number s"

lemma same_ledger_quiet: "same_ledger s s' \<Longrightarrow> quiet c s s'"
  unfolding same_ledger_def by (elim conjE) (rule quiet_eq)

lemma same_ledger_refl [simp]: "same_ledger s s"
  by (simp add: same_ledger_def)

lemma same_ledger_trans: "same_ledger s t \<Longrightarrow> same_ledger t u \<Longrightarrow> same_ledger s u"
  by (simp add: same_ledger_def)

lemma rotate_ledger:
  "rotate_legacy_reward c at vol a s = Inr (x, s') \<Longrightarrow> same_ledger s s'"
  "rotate_reward c at vol a s = Inr (x, s') \<Longrightarrow> same_ledger s s'"
  by (auto simp: rotate_legacy_reward_def rotate_reward_def and_then_Inr same_ledger_def)

lemma remove_liquidity_ledger: "remove_liquidity a p v s = Inr (b, s') \<Longrightarrow> same_ledger s s'"
  unfolding remove_liquidity_def by (cases "v = 0") (auto simp: result_simps same_ledger_def)

lemma consume_liquidity_ledger:
  assumes "consume_liquidity c a p v b s = Inr s'"
  shows "same_ledger s s'"
proof (cases "remove_liquidity a p v s")
  case (Inl e)
  with assms show ?thesis by (simp add: consume_liquidity_def)
next
  case (Inr r)
  obtain fb s1 where r: "r = (fb, s1)" by (cases r)
  obtain be ct f g x where "rotate_reward c be ct a
      (s1\<lparr>taken_liquidity := f, trading_volumes := g\<rparr>) = Inr (x, s')"
    using assms Inr r by (auto simp: consume_liquidity_def Let_def and_then_Inr)
  then have "same_ledger s1 s'" using rotate_ledger(2) by (force simp: same_ledger_def)
  with remove_liquidity_ledger Inr r show ?thesis by (blast intro: same_ledger_trans)
qed

lemma put_liquidity_ledger: "same_ledger s (put_liquidity a p v b s)"
  by (simp add: put_liquidity_def same_ledger_def)

lemma set_price_ledger: "same_ledger s (set_price ar t v q b s)"
  by (simp add: set_price_def same_ledger_def)

lemma open_market_ledger: "open_market a t u x y v s = Inr s' \<Longrightarrow> same_ledger s s'"
  by (auto simp: open_market_def result_simps same_ledger_def deposit_market_def)

lemma mint_native_quiet: "mint_native c a v s = Inr s' \<Longrightarrow> quiet (reward_asset c) s s'"
  by (auto simp: mint_native_def Let_def and_then_Inr
      intro: quiet_trans [OF issuance_quiet pay_quiet])

lemma claim_legacy_quiet:
  assumes "claim_legacy_reward c a at s = Inr (v, s')"
  shows "quiet (reward_asset c) s s'"
  using assms
proof (cases rule: claim_legacy_reward_Inr)
  case (1 b s1 r)
  have "quiet (reward_asset c) s1 s'"
    using 1(5) by (auto split: if_splits simp: same_ledger_def
        intro: quiet_trans [OF mint_native_quiet same_ledger_quiet])
  with same_ledger_quiet [OF rotate_ledger(1) [OF 1(2)]] show ?thesis by (rule quiet_trans)
qed

lemma claim_quiet:
  assumes "claim_reward c a at s = Inr (v, s')"
  shows "quiet (reward_asset c) s s'"
  using assms
proof (cases rule: claim_reward_Inr)
  case (1 b s1 r)
  have "quiet (reward_asset c) s1 s'"
    using 1(5) by (auto split: if_splits simp: same_ledger_def
        intro: quiet_trans [OF mint_native_quiet same_ledger_quiet])
  with same_ledger_quiet [OF rotate_ledger(2) [OF 1(2)]] show ?thesis by (rule quiet_trans)
qed

lemma deposit_reward_ledger: "same_ledger s (deposit_reward e s)"
  by (simp add: same_ledger_def deposit_reward_def)

lemma take_reward_quiet:
  assumes "take_reward c o' s = Inr s'"
  shows "quiet (reward_asset c) s s'"
proof -
  obtain a v s1 u s2 e where s1: "claim_legacy_reward c a (block_number s) s = Inr (v, s1)"
    and s2: "claim_reward c a (block_number s) s1 = Inr (u, s2)" and s': "s' = deposit_reward e s2"
    using assms by (auto simp: take_reward_def Let_def result_simps)
  show ?thesis
    unfolding s'
    by (rule quiet_trans [OF claim_legacy_quiet [OF s1]
          quiet_trans [OF claim_quiet [OF s2] same_ledger_quiet [OF deposit_reward_ledger]]])
qed

lemma set_era_rewards_quiet: "set_era_rewards c o' v s = Inr s' \<Longrightarrow> quiet d s s'"
  by (rule same_ledger_quiet) (auto simp: set_era_rewards_def ensure_Inr same_ledger_def deposit_reward_def)

text \<open>The stake of a broker is a transfer to and from the pallet's account.\<close>

lemma then_same_ledger: "transfer_token c a t v b s = Inr s1 \<Longrightarrow> same_ledger s1 s' \<Longrightarrow> quiet c s s'"
  by (rule quiet_trans [OF transfer_token_quiet same_ledger_quiet])

lemma broker_quiet:
  "register_broker c o' bk e name s = Inr s' \<Longrightarrow> quiet (market_assets c) s s'"
  "deregister_broker c o' bk s = Inr s' \<Longrightarrow> quiet (market_assets c) s s'"
  "broker_set_rpc_endpoint o' bk e s = Inr s' \<Longrightarrow> quiet (market_assets c) s s'"
  "apply_for_token_listing c o' d b q bs qs mb s = Inr s' \<Longrightarrow> quiet (market_assets c) s s'"
proof -
  show "quiet (market_assets c) s s'" if "register_broker c o' bk e name s = Inr s'"
    using that by (auto simp: register_broker_def Let_def result_simps deposit_market_def
        same_ledger_def elim!: then_same_ledger)
  show "quiet (market_assets c) s s'" if "deregister_broker c o' bk s = Inr s'"
    using that by (auto simp: deregister_broker_def result_simps deposit_market_def
        same_ledger_def elim!: then_same_ledger)
  show "quiet (market_assets c) s s'" if "broker_set_rpc_endpoint o' bk e s = Inr s'"
    using that by (intro same_ledger_quiet) (auto simp: broker_set_rpc_endpoint_def result_simps
        same_ledger_def split: option.splits if_splits)
  show "quiet (market_assets c) s s'" if "apply_for_token_listing c o' d b q bs qs mb s = Inr s'"
    using that by (intro same_ledger_quiet) (auto simp: apply_for_token_listing_def register_market_def
        result_simps same_ledger_def deposit_market_def)
qed

text \<open>The bridge and its handler, the bots: their own storage, transfers, mints and burns.\<close>

lemma mint_into_quiet: "mint_into t a v s = Inr s' \<Longrightarrow> quiet c s s'"
  by (auto simp: mint_into_def do_mint_def Let_def result_simps quiet_def same_reserved_def reserved_balance_def
      get_token_balance_def deposit_token_def split: if_splits)

lemma burn_from_quiet: "burn_from t a v s = Inr (u, s') \<Longrightarrow> quiet c s s'"
  by (auto simp: burn_from_def do_burn_def Let_def result_simps quiet_def same_reserved_def reserved_balance_def
      get_token_balance_def deposit_token_def keep_alive_def no_account_def split: if_splits)

lemma bridge_ledger:
  "set_threshold b o' threshold w = Inr w' \<Longrightarrow> same_ledger w w'"
  "set_resource b o' rid meth w = Inr w' \<Longrightarrow> same_ledger w w'"
  "remove_resource b o' rid w = Inr w' \<Longrightarrow> same_ledger w w'"
  "whitelist_chain b o' ch w = Inr w' \<Longrightarrow> same_ledger w w'"
  "add_relayer b o' a w = Inr w' \<Longrightarrow> same_ledger w w'"
  "remove_relayer b o' a w = Inr w' \<Longrightarrow> same_ledger w w'"
  "commit_vote b a nonce src p fav w = Inr w' \<Longrightarrow> same_ledger w w'"
  "transfer_fungible dest rid target x w = Inr w' \<Longrightarrow> same_ledger w w'"
  by (auto simp: set_threshold_def set_relayer_threshold_def set_resource_def register_resource_def
      remove_resource_def unregister_resource_def whitelist_chain_def whitelist_def add_relayer_def
      register_relayer_def remove_relayer_def unregister_relayer_def commit_vote_def put_votes_def
      transfer_fungible_def bump_nonce_def deposit_bridge_def Let_def result_simps same_ledger_def
      split: if_splits)

lemma do_lock_quiet:
  assumes "do_lock c a v rid target dest w = Inr w'"
  shows "quiet (hd_token c) w w'"
proof -
  obtain w1 w2 fee where "transfer_token (hd_token c) a (native_id (hd_token c)) fee (br_treasury (hd_bridge c)) w = Inr w1"
    and "transfer_token (hd_token c) a (native_id (hd_token c)) (v - fee) (br_account (hd_bridge c)) w1 = Inr w2"
    and "transfer_fungible dest rid target (ucast (v - fee)) w2 = Inr w'"
    using assms by (auto simp: do_lock_def Let_def result_simps)
  then show ?thesis
    by (blast intro: quiet_trans transfer_token_quiet same_ledger_quiet bridge_ledger(8))
qed

lemma do_burn_assets_quiet:
  assumes "do_burn_assets c a v rid target dest w = Inr w'"
  shows "quiet (hd_token c) w w'"
proof -
  obtain t fee x y w1 w2 where "transfer_token (hd_token c) a t fee (br_treasury (hd_bridge c)) w = Inr w1"
    and "burn_from t a x w1 = Inr (y, w2)" and "transfer_fungible dest rid target (ucast x) w2 = Inr w'"
    using assms by (auto simp: do_burn_assets_def Let_def result_simps)
  then show ?thesis
    by (blast intro: quiet_trans transfer_token_quiet burn_from_quiet same_ledger_quiet bridge_ledger(8))
qed

lemma handler_quiet:
  "bridge_transfer_out c o' v rid target dest w = Inr w' \<Longrightarrow> quiet (hd_token c) w w'"
  "do_unlock c a b v w = Inr w' \<Longrightarrow> quiet (hd_token c) w w'"
  "do_mint_assets a v rid w = Inr w' \<Longrightarrow> quiet (hd_token c) w w'"
  "donate d a v b w = Inr w' \<Longrightarrow> quiet d w w'"
  "native_limit o' flag w = Inr w' \<Longrightarrow> quiet d w w'"
  "associate_dominator c o' i dmn w = Inr w' \<Longrightarrow> quiet d w w'"
  "remark c o' m x rid w = Inr w' \<Longrightarrow> quiet d w w'"
  "update_bridge_fee c o' ch fee w = Inr w' \<Longrightarrow> quiet d w w'"
  by (auto simp: bridge_transfer_out_def do_unlock_def do_mint_assets_def donate_def native_limit_def
      associate_dominator_def remark_def update_bridge_fee_def result_simps split: if_splits
      intro: do_lock_quiet do_burn_assets_quiet transfer_token_quiet mint_into_quiet quiet_eq)

lemma bot_quiet:
  "register_bot c a sy name mx mb mq desc w = Inr w' \<Longrightarrow> quiet (bot_assets c) w w'"
  "withdraw_from_sub c a bot_id t w = Inr w' \<Longrightarrow> quiet (bot_assets c) w w'"
proof -
  show "quiet (bot_assets c) w w'" if "register_bot c a sy name mx mb mq desc w = Inr w'"
    using that by (auto simp: register_bot_def Let_def result_simps same_ledger_def elim!: then_same_ledger)
  show "quiet (bot_assets c) w w'" if "withdraw_from_sub c a bot_id t w = Inr w'"
    using that by (auto simp: withdraw_from_sub_def Let_def case_prod_unfold result_simps
        intro: quiet_trans [OF transfer_token_quiet transfer_token_quiet])
qed

section \<open>Every call of the runtime\<close>

locale runtime_parts =
  fixes R :: "'n runtime_params" and dp :: "'n runtime_dispatch"
    and Q :: "'n runtime_state \<Rightarrow> 'n runtime_state \<Rightarrow> bool"
  assumes Q_trans: "Q s s' \<Longrightarrow> Q s' s'' \<Longrightarrow> Q s s''"
    and Q_quiet: "quiet (rt_token R) (world s) w \<Longrightarrow> Q s (s\<lparr>world := w\<rparr>)"
    and Q_authorize: "authorize_to (runtime_config R dp) a dmn t v s = Inr s' \<Longrightarrow> Q s s'"
    and Q_revoke: "revoke_from (runtime_config R dp) a dmn t x None s = Inr s' \<Longrightarrow> Q s s'"
    and Q_dispatch: "dp rc a s = Inr s' \<Longrightarrow> Q s s'"
begin

lemma Q_ledger: "same_ledger (world s) w \<Longrightarrow> Q s (s\<lparr>world := w\<rparr>)"
  by (intro Q_quiet same_ledger_quiet)

lemma Q_refl: "Q s s"
  using Q_ledger [of s "world s"] by simp

lemma Q_world:
  "on_world f s = Inr s' \<Longrightarrow> (\<And>w. f (world s) = Inr w \<Longrightarrow> quiet (rt_token R) (world s) w) \<Longrightarrow> Q s s'"
  by (auto simp: on_world_Inr intro: Q_quiet)

lemma Q_world_ledger:
  "on_world f s = Inr s' \<Longrightarrow> (\<And>w. f (world s) = Inr w \<Longrightarrow> same_ledger (world s) w) \<Longrightarrow> Q s s'"
  by (auto simp: on_world_Inr intro: Q_ledger)

lemma Q_emit: "Q s (bridge_emit e s)"
  by (auto simp: bridge_emit_def deposit_bridge_def same_ledger_def intro: Q_ledger)

lemma Q_resolve:
  assumes "try_resolve_proposal b dp nonce src p s = Inr s'"
  shows "Q s s'"
proof -
  obtain v st v' where v: "votes (world s) (src, nonce, p) = Some v"
    and st: "try_to_complete (relayer_threshold (world s)) (relayer_count (world s)) v = (st, v')"
    using assms by (fastforce simp: try_resolve_proposal_def split: option.splits prod.splits)
  let ?s = "s\<lparr>world := put_votes (src, nonce, p) v' (world s)\<rparr>"
  have put: "Q s ?s" by (intro Q_ledger) (simp add: put_votes_def same_ledger_def)
  show ?thesis
  proof (cases st)
    case Initiated
    with assms v st put show ?thesis by (auto simp: try_resolve_proposal_def Let_def result_simps)
  next
    case Rejected
    with assms v st show ?thesis
      by (auto simp: try_resolve_proposal_def Let_def result_simps cancel_execution_def
          intro: Q_trans [OF put Q_emit])
  next
    case Approved
    then obtain t where t: "dp p (br_account b) (bridge_emit (ProposalApproved src nonce) ?s) = Inr t"
      and s': "s' = bridge_emit (ProposalSucceeded src nonce) t"
      using assms v st by (auto simp: try_resolve_proposal_def Let_def result_simps finalize_execution_def)
    show ?thesis unfolding s'
      by (rule Q_trans [OF put Q_trans [OF Q_emit Q_trans [OF Q_dispatch [OF t] Q_emit]]])
  qed
qed

lemma Q_bridge_call:
  assumes "run_bridge_call b dp call o' s = Inr s'"
  shows "Q s s'"
proof (cases call)
  case (BridgeAcknowledge nonce src rid h p)
  then obtain a t where "on_world (commit_vote b a nonce src p True) (bridge_emit (ProposalVote src h nonce) s) = Inr t"
    and "try_resolve_proposal b dp nonce src p t = Inr s'"
    using assms by (auto simp: acknowledge_proposal_def vote_for_def and_then_Inr)
  then show ?thesis by (blast intro: Q_trans Q_emit Q_resolve Q_world_ledger bridge_ledger(7))
next
  case (BridgeReject nonce src rid p)
  then obtain a t where "on_world (commit_vote b a nonce src p False) s = Inr t"
    and "try_resolve_proposal b dp nonce src p t = Inr s'"
    using assms by (auto simp: reject_proposal_def vote_against_def and_then_Inr)
  then show ?thesis by (blast intro: Q_trans Q_resolve Q_world_ledger bridge_ledger(7))
qed (use assms in \<open>auto simp: eval_vote_state_def and_then_Inr
    intro: Q_resolve Q_world_ledger bridge_ledger\<close>)

lemma Q_drop: "drop_error s r = Inr s' \<Longrightarrow> (r = Inr s' \<Longrightarrow> Q s s') \<Longrightarrow> Q s s'"
  by (auto simp: drop_error_Inr Q_refl)

lemma Q_associated:
  "authorize_associated h (runtime_config R dp) a v i t s = Inr s' \<Longrightarrow> Q s s'"
  by (auto simp: authorize_associated_def and_then_Inr map_err_Inr Q_refl split: option.splits
      elim!: Q_drop intro: Q_authorize)

lemma Q_transfer_in:
  assumes "bridge_transfer_in (handler_config_of R) (runtime_config R dp) o' a v rid s = Inr s'"
  shows "Q s s'"
proof -
  let ?h = "handler_config_of R"
  obtain s1 s2 i t where s1: "on_world (do_unlock ?h (br_account (rt_bridge R)) a v) s = Inr s1
      \<or> on_world (do_mint_assets a v rid) s = Inr s1"
    and s2: "authorize_associated ?h (runtime_config R dp) a v i t s1 = Inr s2"
    and s': "on_world (donate (rt_token R) (hd_donor ?h) (hd_donation ?h) a) s2 = Inr s'"
    using assms
    by (auto simp: bridge_transfer_in_def ensure_bridge_def and_then_Inr map_err_Inr
        split: if_splits origin.splits)
  have "Q s s1"
    using s1 handler_quiet(2) [of ?h] handler_quiet(3) [where c = ?h] by (auto elim!: Q_world)
  moreover have "Q s2 s'" using s' by (rule Q_world) (rule handler_quiet(4))
  ultimately show ?thesis using Q_associated [OF s2] by (blast intro: Q_trans)
qed

lemma Q_handler_call:
  "run_handler_call (handler_config_of R) (runtime_config R dp) call o' s = Inr s' \<Longrightarrow> Q s s'"
  using handler_quiet(1) [of "handler_config_of R"]
  by (cases call) (auto elim!: Q_world intro: Q_transfer_in handler_quiet(5-))

lemma Q_bot_call:
  assumes "run_bot_call (bot_config_of R) (runtime_config R dp) call o' s = Inr s'"
  shows "Q s s'"
proof (cases call)
  case (BotDeposit bot_id dmn x y)
  let ?c = "bot_config_of R" and ?vc = "runtime_config R dp"
  obtain a where run: "deposit_into_sub ?c ?vc a bot_id dmn x y s = Inr s'"
    using assms BotDeposit by (auto simp: and_then_Inr)
  then obtain b where b: "bots (world s) bot_id = Some b"
    by (auto simp: deposit_into_sub_def and_then_Inr ok_or_Inr)
  obtain base quote where "bot_symbol b = (base, quote)" by (cases "bot_symbol b")
  with run b obtain d e s1 s2 s3 s4 bb where
    "on_world (transfer_token (rt_token R) a base x d) s = Inr s1"
    "on_world (transfer_token (rt_token R) a quote y e) s1 = Inr s2"
    "authorize_to ?vc d dmn base x s2 = Inr s3" "authorize_to ?vc e dmn quote y s3 = Inr s4"
    and s': "s' = s4\<lparr>world := (world s4)\<lparr>bots := (bots (world s4))(bot_id \<mapsto> add_user a bb)\<rparr>\<rparr>"
    by (simp add: deposit_into_sub_def Let_def and_then_Inr ensure_Inr split: option.splits) blast
  then have "Q s s4" by (blast intro: Q_trans Q_world Q_authorize transfer_token_quiet)
  moreover have "Q s4 s'" unfolding s' by (intro Q_ledger) (simp add: same_ledger_def)
  ultimately show ?thesis by (rule Q_trans)
qed (use assms bot_quiet [of "bot_config_of R"] in
    \<open>auto simp: revoke_to_sub_def Let_def case_prod_unfold and_then_Inr ok_or_Inr elim!: Q_world
      intro: Q_trans [OF Q_revoke Q_revoke]\<close>)

lemma Q_agent:
  assumes "submit_external_tx c dp o' tx s = Inr s'"
  shows "Q s s'"
proof -
  have emit: "Q t (agent_emit a r t)" for a r t
    by (auto simp: agent_emit_def same_ledger_def intro: Q_ledger)
  obtain a call nonce sg where "extract_signer c tx = Inr a" and "tx = Ecdsa call nonce sg"
    using assms by (auto simp: submit_external_tx_def and_then_Inr extract_signer_def
        split: external_verifiable.splits)
  then show ?thesis
    using assms emit Q_trans [OF Q_dispatch emit]
    by (cases "dp call a s") (auto simp: submit_external_tx_def and_then_Inr split: if_splits)
qed

lemma Q_other_call:
  assumes "run_runtime_call R dp call o' s = Inr s'" and "\<nexists>vc. call = VerifierCall vc"
  shows "Q s s'"
proof -
  note quiets = take_reward_quiet [where c = "reward_config_of R", unfolded config_of_simps]
    broker_quiet [where c = "market_config_of R", unfolded config_of_simps]
    transfer_quiet issue_quiet mark_stable_quiet associate_token_quiet set_era_rewards_quiet
  show ?thesis
  proof (cases call)
    case (VerifierCall vc)
    with assms(2) show ?thesis by blast
  next
    case (BridgeCall bc)
    with assms show ?thesis by (simp add: Q_bridge_call)
  next
    case (HandlerCall hc)
    with assms show ?thesis by (simp add: Q_handler_call)
  next
    case (BotCall bc)
    with assms show ?thesis by (simp add: Q_bot_call)
  next
    case (AgentSubmit tx)
    with assms show ?thesis by (simp add: Q_agent)
  qed (use assms(1) in \<open>auto elim!: Q_world intro: quiets\<close>)
qed

end

locale runtime_calls = runtime_parts R dp Q
  for R :: "'n runtime_params" and dp :: "'n runtime_dispatch" and Q +
  assumes Q_verifier: "run_verifier_call (runtime_config R dp) call o' s = Inr s' \<Longrightarrow> Q s s'"
begin

lemma Q_call: "run_runtime_call R dp call o' s = Inr s' \<Longrightarrow> Q s s'"
  by (cases "\<exists>vc. call = VerifierCall vc") (auto intro: Q_verifier Q_other_call)

end

section \<open>Steps\<close>

text \<open>
  One step of the runtime: a call, the start of a block, or a change of the ledgers by a pallet outside of
  it (fees, transfers, staking rewards, the vault, the tournament): it leaves the storage above the ledgers
  and the clock, and takes no reserve that backs what the verifier holds. That is an assumption on these
  pallets. \<open>Chain_Correct\<close> discharges it for the tournament, and for the vault as long as only sound funds are
  put into it; \<open>vault_overflow_frees_custody\<close> is a fund with which the vault violates it.
\<close>

inductive runtime_step :: "'n runtime_params \<Rightarrow> nat \<Rightarrow> 'n runtime_state \<Rightarrow> 'n runtime_state \<Rightarrow> bool"
  for R :: "'n runtime_params" and n :: nat
  where
    step_call: "run_runtime_call R (nested_dispatch R n) call o' s = Inr s' \<Longrightarrow> runtime_step R n s s'"
  | step_block: "begin_block R n now s = Inr s' \<Longrightarrow> runtime_step R n s s'"
  | step_ledgers: "oracle_state.more w = oracle_state.more (world s) \<Longrightarrow> block_number w = block_number (world s)
      \<Longrightarrow> \<forall>t a. good_token (rt_token R) t \<longrightarrow> held a t (reserves s) \<le> unat (reserved_balance (rt_token R) t a w)
      \<Longrightarrow> runtime_step R n s (s\<lparr>world := w\<rparr>)"

section \<open>The custody ledger in the runtime\<close>

text \<open>Whatever a pallet outside the runtime's calls holds beside the ledger stays backed as well.\<close>

abbreviation runtime_ok_with ::
  "'n runtime_params \<Rightarrow> (token_id \<Rightarrow> account \<Rightarrow> nat) \<Rightarrow> 'n runtime_state \<Rightarrow> bool" where
  "runtime_ok_with R others s \<equiv> custody_ok (token_asset (rt_token R)) (good_token (rt_token R)) others s"

abbreviation runtime_ok :: "'n runtime_params \<Rightarrow> 'n runtime_state \<Rightarrow> bool" where
  "runtime_ok R \<equiv> runtime_ok_with R (\<lambda>_ _. 0)"

lemma verifier_world_of_dispatch:
  assumes "\<And>call a s s'. dp call a s = Inr s' \<Longrightarrow> runtime_ok_with R others s \<Longrightarrow> runtime_ok_with R others s'"
  shows "verifier_world (runtime_config R dp) (good_token (rt_token R)) others"
proof -
  have "reservable_asset (vc_asset (runtime_config R dp)) (good_token (rt_token R))"
    by (simp add: token_ledger.reservable_asset_axioms)
  then show ?thesis
    using assms
    by (intro verifier_world.intro verifier_world_axioms.intro)
      (auto intro: quietD [OF same_ledger_quiet] consume_liquidity_ledger put_liquidity_ledger set_price_ledger
        remove_liquidity_ledger open_market_ledger simp: inc_account_nonce_def same_ledger_def)
qed

lemma custody_calls:
  assumes "\<And>call a s s'. dp call a s = Inr s' \<Longrightarrow> runtime_ok_with R others s \<Longrightarrow> runtime_ok_with R others s'"
  shows "runtime_calls R dp (\<lambda>s s'. runtime_ok_with R others s \<longrightarrow> runtime_ok_with R others s')"
proof -
  note vw = verifier_world_of_dispatch [of dp R others, OF assms]
  show ?thesis
    by (intro runtime_calls.intro runtime_parts.intro runtime_calls_axioms.intro)
      (auto intro: assms quietD verifier_world.ok_world [OF vw, simplified] verifier_world.call_ok [OF vw, simplified]
        verifier_world.authorize_to_ok [OF vw, simplified] verifier_world.revoke_from_ok [OF vw, simplified])
qed

lemma runtime_call_keeps:
  assumes "\<And>call a s s'. dp call a s = Inr s' \<Longrightarrow> runtime_ok_with R others s \<Longrightarrow> runtime_ok_with R others s'"
    and "run_runtime_call R dp call o' s = Inr s'" and "runtime_ok_with R others s"
  shows "runtime_ok_with R others s'"
  using runtime_calls.Q_call [OF custody_calls [of dp R others, OF assms(1)] assms(2)] assms(3) by simp

lemma nested_dispatch_keeps:
  "nested_dispatch R n call a s = Inr s' \<Longrightarrow> runtime_ok_with R others s \<Longrightarrow> runtime_ok_with R others s'"
proof (induction n arbitrary: call a s s')
  case (Suc n)
  then show ?case using runtime_call_keeps [of "nested_dispatch R n" R others call "SignedOrigin a" s s'] by simp
qed simp

interpretation custody: verifier_world "runtime_config R (nested_dispatch R n)" "good_token (rt_token R)" others
  for R :: "'n runtime_params" and n and others
  by (rule verifier_world_of_dispatch) (rule nested_dispatch_keeps)

lemma custody_mono:
  assumes "custody_ok A good others s"
    and "\<And>t a. good t \<Longrightarrow> as_reserved A t a (world s) \<le> as_reserved A t a w"
  shows "custody_ok A good others (s\<lparr>world := w\<rparr>)"
proof -
  have "held a t (reserves s) + others t a \<le> unat (as_reserved A t a w)" if "good t" for a t
    using custody_okD(2) [OF assms(1) that] assms(2) [OF that]
    by (meson le_trans word_le_nat_alt)
  with assms(1) show ?thesis by (simp add: custody_ok_def receipt_covered_def get_reserve_def)
qed

lemma call_ok_with:
  "run_runtime_call R (nested_dispatch R n) call o' s = Inr s' \<Longrightarrow> runtime_ok_with R others s \<Longrightarrow> runtime_ok_with R others s'"
  by (blast intro: runtime_call_keeps nested_dispatch_keeps)

lemma block_ok_with:
  assumes "begin_block R n now s = Inr s'" and "runtime_ok_with R others s"
  shows "runtime_ok_with R others s'"
proof -
  have "runtime_ok_with R others (s\<lparr>world := (world s)\<lparr>block_number := now\<rparr>\<rparr>)"
    by (rule custody_mono [OF assms(2)]) (simp add: reserved_balance_def get_token_balance_def)
  with assms(1) show ?thesis using custody.on_initialize_ok [of R] by (simp add: begin_block_def)
qed

lemma runtime_step_ok:
  assumes "runtime_ok R s" and "runtime_step R n s s'"
  shows "runtime_ok R s'"
  using assms(2,1)
proof cases
  case step_call
  with assms(1) show ?thesis by (blast intro: call_ok_with)
next
  case step_block
  with assms(1) show ?thesis by (blast intro: block_ok_with)
next
  case step_ledgers
  with assms(1) show ?thesis by (auto simp: custody_ok_def receipt_covered_def get_reserve_def)
qed

lemma runtime_genesis_ok: "runtime_genesis s \<Longrightarrow> runtime_ok R s"
  by (simp add: runtime_genesis_def custody_ok_def held_def receipt_covered_def case_prod_unfold)

interpretation runtime_system:
  invariant_system runtime_genesis "runtime_step R n" "runtime_ok R" for R :: "'n runtime_params" and n
  by unfold_locales (rule runtime_genesis_ok, assumption, rule runtime_step_ok)

lemma extrinsics_steps:
  "apply_extrinsics R n xs s = Inr s' \<Longrightarrow> (runtime_step R n)\<^sup>*\<^sup>* s s'"
proof (induction xs arbitrary: s)
  case (Cons x xs)
  obtain call o' where x: "x = (call, o')" by (cases x)
  obtain t where t: "t = s \<or> run_runtime_call R (nested_dispatch R n) call o' s = Inr t"
    and rest: "apply_extrinsics R n xs t = Inr s'"
    using Cons.prems(1) by (auto simp: x and_then_Inr drop_error_Inr)
  have "(runtime_step R n)\<^sup>*\<^sup>* s t" using t by (auto intro: step_call)
  then show ?case using Cons.IH [OF rest] by (rule rtranclp_trans)
qed simp

lemma block_steps: "execute_block R n now xs s = Inr s' \<Longrightarrow> (runtime_step R n)\<^sup>*\<^sup>* s s'"
  by (auto simp: execute_block_def and_then_Inr
      intro: converse_rtranclp_into_rtranclp [OF step_block extrinsics_steps])

lemma reachable_steps:
  "(runtime_step R n)\<^sup>*\<^sup>* s s' \<Longrightarrow> reachable runtime_genesis (runtime_step R n) s
    \<Longrightarrow> reachable runtime_genesis (runtime_step R n) s'"
  by (induction rule: rtranclp_induct) (auto intro: reachable_step)

lemma block_reachable:
  assumes "execute_block R n now xs s = Inr s'" and "reachable runtime_genesis (runtime_step R n) s"
  shows "reachable runtime_genesis (runtime_step R n) s'"
  using reachable_steps [OF block_steps [OF assms(1)] assms(2)] .

end
