(* ===== verification/Verifier_Frame.thy ===== *)
theory Verifier_Frame
  imports Verifier_Facts
begin

text \<open>
  What the clearing of proofs and the custody calls leave alone: stakes, pending releases, the
  reserves that back them, and of a dominator all but its root and sequence. The locale turns
  that into a rule: a reflexive and transitive relation between storages that tolerates such
  changes, the dominator administration, the staking operations and callbacks holds across every
  call of the pallet. An invariant is the relation \<open>I s \<longrightarrow> I s'\<close>; a history property is one too.
\<close>

definition same_stakes :: "('w, 'cb) verifier_state \<Rightarrow> ('w, 'cb) verifier_state \<Rightarrow> bool" where
  "same_stakes s s' \<longleftrightarrow> stakings s' = stakings s \<and> pending_unstakings s' = pending_unstakings s
    \<and> dominators s' = dominators s
    \<and> (\<forall>rid k dmn. rid \<noteq> RESERVE_FOR_AUTHORIZING \<and> rid \<noteq> RESERVE_FOR_AUTHORIZING_STASH \<longrightarrow>
        reserves s' ((rid, k), dmn) = reserves s ((rid, k), dmn))"

lemma same_stakesI:
  "stakings s' = stakings s \<Longrightarrow> pending_unstakings s' = pending_unstakings s
    \<Longrightarrow> dominators s' = dominators s \<Longrightarrow> reserves s' = reserves s \<Longrightarrow> same_stakes s s'"
  by (simp add: same_stakes_def)

lemma same_stakes_trans: "same_stakes s t \<Longrightarrow> same_stakes t u \<Longrightarrow> same_stakes s u"
  by (simp add: same_stakes_def)

lemma only_world_same_stakes: "only_world s s' \<Longrightarrow> same_stakes s s'"
  by (rule same_stakesI) (simp_all add: only_worldD)

lemma on_world_same_stakes: "on_world f s = Inr s' \<Longrightarrow> same_stakes s s'"
  by (auto simp: on_world_Inr intro: same_stakesI)

lemma vf_unreserve_same_stakes:
  "vf_unreserve c RESERVE_FOR_AUTHORIZING a t v dmn s = Inr s' \<Longrightarrow> same_stakes s s'"
  unfolding same_stakes_def using vf_unreserve_Inr [of c RESERVE_FOR_AUTHORIZING a t v dmn s s'] by auto

lemma vf_reserve_same_stakes:
  "vf_reserve c RESERVE_FOR_AUTHORIZING_STASH a t v dmn s = Inr s' \<Longrightarrow> same_stakes s s'"
  unfolding same_stakes_def using vf_reserve_Inr [of c RESERVE_FOR_AUTHORIZING_STASH a t v dmn s s'] by auto

lemma clear_same_stakes: "clear c a dmn t v s = Inr s' \<Longrightarrow> same_stakes s s'"
  by (auto simp: clear_def Let_def result_simps same_stakes_def)

lemma merge_stash_same_stakes: "merge_stash a t dmn s = Inr s' \<Longrightarrow> same_stakes s s'"
  by (auto simp: merge_stash_def Let_def result_simps same_stakes_def split: if_splits)

lemma settle_makers_same_stakes:
  "settle_makers c dmn base quote block ds s = Inr s' \<Longrightarrow> same_stakes s s'"
proof (induction ds arbitrary: s)
  case (Cons d ds)
  then obtain s1 s2 s3 where "clear c (mk_who d) dmn base (mk_base_balance d) s = Inr s1"
    and "clear c (mk_who d) dmn quote (mk_quote_balance d) s1 = Inr s2"
    and "on_world (env_consume_liquidity (vc_env c) (mk_who d) (base, quote) (mk_filled_volume d) block) s2
        = Inr s3"
    and "settle_makers c dmn base quote block ds s3 = Inr s'"
    by (auto simp: and_then_Inr)
  then show ?case
    using Cons.IH by (blast intro: same_stakes_trans clear_same_stakes on_world_same_stakes)
qed (simp add: same_stakes_def)

lemma pay_base_fee_same_stakes:
  assumes "pay_base_fee c beneficiary bk base fee s = Inr s'"
  shows "same_stakes s s'"
proof (cases "fee = 0")
  case True
  with assms show ?thesis by (simp add: pay_base_fee_def same_stakes_def)
next
  case False
  show ?thesis
  proof (cases bk)
    case None
    with assms False show ?thesis by (auto simp: pay_base_fee_def pay_fee_def intro: on_world_same_stakes)
  next
    case (Some b)
    with assms False show ?thesis
      by (auto simp: pay_base_fee_def pay_fee_def Let_def and_then_Inr ok_or_Inr
          intro: same_stakes_trans on_world_same_stakes)
  qed
qed

lemma settle_same_stakes:
  assumes "settle c dmn beneficiary base quote bk block sn cr s = Inr s'"
  shows "same_stakes s s'"
proof -
  let ?tk = "cr_taker cr"
  obtain s1 s2 s3 where "settle_makers c dmn base quote block (cr_makers cr) s = Inr s1"
    and "clear c (tk_who ?tk) dmn base (tk_base_balance ?tk) s1 = Inr s2"
    and "clear c (tk_who ?tk) dmn quote (tk_quote_balance ?tk) s2 = Inr s3"
    and s4: "pay_base_fee c beneficiary bk base (cr_base_fee cr) (put_profit dmn sn quote (cr_quote_fee cr)
        (s3\<lparr>world := env_put_liquidity (vc_env c) (tk_who ?tk) (base, quote) (tk_unfilled_volume ?tk)
           block (world s3)\<rparr>)) = Inr s'"
    using assms by (auto simp: settle_def Let_def and_then_Inr)
  then have "same_stakes s s3"
    by (blast intro: same_stakes_trans settle_makers_same_stakes clear_same_stakes)
  moreover have "same_stakes s3 s'"
    using pay_base_fee_same_stakes [OF s4] by (simp add: same_stakes_def put_profit_def split: if_splits)
  ultimately show ?thesis by (rule same_stakes_trans)
qed

lemma orders_same_stakes:
  "ask_limit c dmn ben p block sn pr amount mf tf base quote bk s = Inr (cr, s') \<Longrightarrow> same_stakes s s'"
  "bid_limit c dmn ben p block sn pr amount mf tf base quote bk s = Inr (cr, s') \<Longrightarrow> same_stakes s s'"
  by (auto simp: ask_limit_def bid_limit_def Let_def and_then_Inr ensure_Inr intro: settle_same_stakes)

lemma cancel_order_same_stakes: "cancel_order c p base quote s = Inr s' \<Longrightarrow> same_stakes s s'"
  by (auto simp: cancel_order_def and_then_Inr drop_error_Inr on_world_Inr same_stakes_def)

lemma transfer_in_same_stakes: "transfer_in c dmn p t v s = Inr s' \<Longrightarrow> same_stakes s s'"
  by (auto simp: transfer_in_def Let_def and_then_Inr ensure_Inr same_stakes_def)

lemma rejects_same_stakes:
  "reject_transfer_out c dmn p t v s = Inr s' \<Longrightarrow> same_stakes s s'"
  "reject_transfer_in dmn p s = Inr s' \<Longrightarrow> same_stakes s s'"
  by (auto simp: reject_transfer_out_def reject_transfer_in_def and_then_Inr ensure_Inr same_stakes_def
      split: option.splits)

lemma authorize_to_same_stakes: "authorize_to c a dmn t v s = Inr s' \<Longrightarrow> same_stakes s s'"
proof -
  assume "authorize_to c a dmn t v s = Inr s'"
  then obtain s1 where s1: "vf_reserve c RESERVE_FOR_AUTHORIZING_STASH a t v dmn s = Inr s1"
    and rest: "same_stakes s1 s'"
    by (auto simp: authorize_to_def Let_def result_simps same_stakes_def)
  show ?thesis by (rule same_stakes_trans [OF vf_reserve_same_stakes [OF s1] rest])
qed

lemma revoke_from_same_stakes:
  assumes "revoke_from c a dmn t amount cb s = Inr s'"
  shows "same_stakes s s'"
proof -
  let ?v = "value_or (get_reserve ((RESERVE_FOR_AUTHORIZING, a, t), dmn) s) amount"
  show ?thesis
  proof (cases "?v = 0")
    case True
    with assms show ?thesis by (simp add: revoke_from_def Let_def same_stakes_def)
  next
    case False
    then obtain d where d: "get_dominator dmn s = Some d"
      using assms by (auto simp: revoke_from_def Let_def ensure_Inr and_then_Inr ok_or_Inr)
    show ?thesis
    proof (cases "dom_status d = DOMINATOR_EVICTED")
      case True
      obtain s1 s2 where s1: "merge_stash a t dmn s = Inr s1"
        and s2: "vf_unreserve c RESERVE_FOR_AUTHORIZING a t ?v dmn s1 = Inr s2"
        and "s' = deposit_verifier (TokenRevoked a dmn t ?v)
          (s2\<lparr>receipts := (receipts s2)((dmn, a) := None)\<rparr>)"
        using assms False True d by (auto simp: revoke_from_def Let_def ensure_Inr and_then_Inr ok_or_Inr)
      then have "same_stakes s2 s'" by (simp add: same_stakes_def)
      with merge_stash_same_stakes [OF s1] vf_unreserve_same_stakes [OF s2]
      show ?thesis by (blast intro: same_stakes_trans)
    next
      case not_evicted: False
      then show ?thesis
        using assms False d by (auto simp: revoke_from_def Let_def ensure_Inr and_then_Inr ok_or_Inr same_stakes_def)
    qed
  qed
qed

lemma put_setting_same_stakes: "same_stakes s (put_setting dmn x s)"
  by (simp add: same_stakes_def put_setting_def)

lemma validate_same_stakes: "validate_beneficiary c old sg new s = Inr s' \<Longrightarrow> same_stakes s s'"
  by (cases old) (auto simp: validate_beneficiary_def same_stakes_def split: if_splits)

lemma settings_same_stakes:
  "dominator_set_pubkey o' key s = Inr s' \<Longrightarrow> same_stakes s s'"
  "dominator_set_rpc_endpoint o' e s = Inr s' \<Longrightarrow> same_stakes s s'"
  "dominator_set_beneficiary c o' new sg s = Inr s' \<Longrightarrow> same_stakes s s'"
proof -
  show "same_stakes s s'" if "dominator_set_pubkey o' key s = Inr s'"
    using that by (auto simp: dominator_set_pubkey_def Let_def result_simps same_stakes_def put_setting_def)
  show "same_stakes s s'" if "dominator_set_rpc_endpoint o' e s = Inr s'"
    using that by (auto simp: dominator_set_rpc_endpoint_def Let_def result_simps same_stakes_def put_setting_def)
  show "same_stakes s s'" if run: "dominator_set_beneficiary c o' new sg s = Inr s'"
  proof -
    obtain dmn where "o' = SignedOrigin dmn"
      using run by (auto simp: dominator_set_beneficiary_def result_simps)
    with run show ?thesis
      by (cases "dominator_settings s dmn")
        (auto simp: dominator_set_beneficiary_def ensure_signed_def ensure_Inr and_then_Inr
          intro: put_setting_same_stakes same_stakes_trans [OF validate_same_stakes put_setting_same_stakes])
  qed
qed

section \<open>Relations that hold across every call\<close>

locale clearing_frame =
  fixes c :: "('w, 'cb) verifier_config"
    and Q :: "('w, 'cb) verifier_state \<Rightarrow> ('w, 'cb) verifier_state \<Rightarrow> bool"
  assumes Q_trans: "Q s t \<Longrightarrow> Q t u \<Longrightarrow> Q s u"
    and Q_same: "same_stakes s s' \<Longrightarrow> Q s s'"
    and Q_root: "get_dominator dmn s = Some d
      \<Longrightarrow> Q s (put_dominator dmn (d\<lparr>merkle_root := r, dom_sequence := q\<rparr>) s)"
    and Q_callback: "vc_dispatch c cb a s = Inr s' \<Longrightarrow> Q s s'"
    and Q_register: "register c o' name s = Inr s' \<Longrightarrow> Q s s'"
    and Q_evict: "evict c o' src s = Inr s' \<Longrightarrow> Q s s'"
    and Q_launch: "launch c o' src s = Inr s' \<Longrightarrow> Q s s'"
    and Q_stake: "stake_on c a dmn v s = Inr s' \<Longrightarrow> Q s s'"
    and Q_unstake: "unstake_from c a dmn v s = Inr s' \<Longrightarrow> Q s s'"
    and Q_claim: "claim_shares c o' src s = Inr s' \<Longrightarrow> Q s s'"
begin

lemma Q_refl: "Q s s"
  by (rule Q_same) (simp add: same_stakes_def)

lemma Q_run_callback: "run_callback c a r s = Inr s' \<Longrightarrow> Q s s'"
  by (cases r) (auto simp: drop_error_Inr intro: Q_callback Q_refl)

lemma Q_transfer_out:
  assumes "transfer_out c dmn p t v s = Inr s'"
  shows "Q s s'"
proof -
  obtain r s1 where s1: "vf_unreserve c RESERVE_FOR_AUTHORIZING (user_id p) t v dmn s = Inr s1"
    and run: "run_callback c (user_id p) r (s1\<lparr>receipts := (receipts s1)((dmn, user_id p) := None)\<rparr>) = Inr s'"
    using assms by (auto simp: transfer_out_def and_then_Inr ensure_Inr)
  have "same_stakes s1 (s1\<lparr>receipts := (receipts s1)((dmn, user_id p) := None)\<rparr>)"
    by (simp add: same_stakes_def)
  with vf_unreserve_same_stakes [OF s1]
  have "same_stakes s (s1\<lparr>receipts := (receipts s1)((dmn, user_id p) := None)\<rparr>)"
    by (rule same_stakes_trans)
  then show ?thesis by (rule Q_trans [OF Q_same Q_run_callback [OF run]])
qed

lemma Q_advance: "advance dmn p block tr s = Inr (tr', s') \<Longrightarrow> Q s s'"
  by (auto simp: advance_def split: option.splits intro: Q_root)

lemma Q_verify_and_update:
  assumes "verify_and_update c dmn ben root claim_at p s = Inr (tr, s')"
  shows "Q s s'"
proof -
  note ops = orders_same_stakes [THEN Q_same] cancel_order_same_stakes [THEN Q_same] Q_transfer_out
    transfer_in_same_stakes [THEN Q_same] rejects_same_stakes [THEN Q_same]
  show ?thesis
    using assms by (cases "cmd p")
      (auto simp: verify_and_update_def ensure_Inr and_then_Inr Let_def intro: ops Q_trans [OF _ Q_advance])
qed

lemma Q_verify_all:
  "verify_all c dmn ben claim_at ps (root, incr, s) = Inr (root', incr', s') \<Longrightarrow> Q s s'"
proof (induction ps arbitrary: root incr s)
  case Nil
  then show ?case by (simp add: Q_refl)
next
  case (Cons p ps)
  then show ?case by (auto simp: and_then_Inr intro: Q_trans [OF Q_verify_and_update])
qed

lemma Q_verify_batch: "verify_batch c dmn ben d ps s = Inr s' \<Longrightarrow> Q s s'"
  by (auto simp: verify_batch_def and_then_Inr Let_def intro!: Q_trans [OF Q_verify_all Q_same] same_stakesI)

lemma Q_call:
  assumes "run_verifier_call c call o' s = Inr s'"
  shows "Q s s'"
proof (cases call)
  case (CallRegister name)
  with assms show ?thesis by (simp add: Q_register)
next
  case (CallEvict d)
  with assms show ?thesis by (simp add: Q_evict)
next
  case (CallLaunch d)
  with assms show ?thesis by (simp add: Q_launch)
next
  case (CallVerifyCompress bs)
  with assms show ?thesis
    by (auto simp: verify_compress_def and_then_Inr split: prod.splits intro: Q_verify_batch)
next
  case (CallVerify ps)
  with assms show ?thesis by (auto simp: verify_def and_then_Inr split: prod.splits intro: Q_verify_batch)
next
  case (CallVerifyCompressV2 bs)
  with assms show ?thesis
    by (auto simp: verify_compress_v2_def and_then_Inr split: prod.splits intro: Q_verify_batch)
next
  case (CallVerifyV2 ps)
  with assms show ?thesis by (auto simp: verify_v2_def and_then_Inr split: prod.splits intro: Q_verify_batch)
next
  case (CallStake d v)
  with assms show ?thesis by (auto simp: stake_def and_then_Inr intro: Q_stake)
next
  case (CallUnstake d v)
  with assms show ?thesis by (auto simp: unstake_def and_then_Inr intro: Q_unstake)
next
  case (CallClaimShares d)
  with assms show ?thesis by (simp add: Q_claim)
next
  case (CallAuthorize d t v)
  with assms show ?thesis
    by (auto simp: authorize_def and_then_Inr intro: Q_same authorize_to_same_stakes)
next
  case (CallRevoke d t v)
  with assms show ?thesis by (auto simp: revoke_def and_then_Inr intro: Q_same revoke_from_same_stakes)
next
  case (CallRevokeWithCallback d t v cb)
  with assms show ?thesis
    by (auto simp: revoke_with_callback_def and_then_Inr intro: Q_same revoke_from_same_stakes)
next
  case (CallOpenMarket b q bs qs mb)
  with assms show ?thesis
    by (auto simp: vf_open_market_def result_simps intro!: Q_same same_stakesI)
qed (use assms settings_same_stakes [THEN Q_same] in simp_all)

end

end
