(* ===== verification/Verifier_Stakes.thy ===== *)
theory Verifier_Stakes
  imports Verifier_Frame
begin

text \<open>
  The invariant of staking: the amount recorded for a staker is what the custody ledger holds for
  it, the stake of a dominator is the sum of its stakers' amounts, every pending release is funded
  by the reserve for pending releases, and the status of a dominator fits its stake.

  One lemma per operation shows that it keeps the invariant; the composition of the runtime takes
  them through \<open>clearing_frame\<close>.
\<close>

definition stake_of :: "account \<Rightarrow> account \<Rightarrow> ('w, 'cb) verifier_state \<Rightarrow> u128" where
  "stake_of dmn a s = staking_amount (value_or no_staking (stakings s (dmn, a)))"

definition pending_of :: "account \<Rightarrow> block_number \<Rightarrow> ('w, 'cb) verifier_state \<Rightarrow> nat" where
  "pending_of a b s = unat (value_or 0 (map_of (pending_unstakings s b) a))"

definition staked_key :: "('w, 'cb) verifier_config \<Rightarrow> account \<Rightarrow> account \<Rightarrow> reserve_key" where
  "staked_key c dmn a = ((RESERVE_FOR_STAKING, a, native_token_id c), dmn)"

definition pending_key :: "('w, 'cb) verifier_config \<Rightarrow> account \<Rightarrow> reserve_key" where
  "pending_key c a = ((RESERVE_FOR_PENDING_UNSTAKE, a, native_token_id c), verifier_system_account (vc_params c))"

definition stakes_ok :: "('w, 'cb) verifier_config \<Rightarrow> ('w, 'cb) verifier_state \<Rightarrow> bool" where
  "stakes_ok c s \<longleftrightarrow> finite (dom (stakings s))
    \<and> (\<forall>dmn d. get_dominator dmn s = Some d \<longrightarrow>
        dom_staked d = dom_sum staking_amount (\<lambda>a. stakings s (dmn, a)))
    \<and> (\<forall>dmn a. stakings s (dmn, a) \<noteq> None \<longrightarrow> get_dominator dmn s \<noteq> None)
    \<and> (\<forall>dmn a. get_reserve (staked_key c dmn a) s = stake_of dmn a s)"

definition pendings_ok :: "('w, 'cb) verifier_config \<Rightarrow> ('w, 'cb) verifier_state \<Rightarrow> bool" where
  "pendings_ok c s \<longleftrightarrow> (\<forall>b. distinct (List.map fst (pending_unstakings s b)))
    \<and> (\<forall>a. (\<Sum>b\<in>UNIV. pending_of a b s) \<le> unat (get_reserve (pending_key c a) s))"

definition status_fits :: "('w, 'cb) verifier_config \<Rightarrow> dominator \<Rightarrow> bool" where
  "status_fits c d \<longleftrightarrow>
    (let thr = dominator_online_threshold (vc_params c) in
     dom_status d = DOMINATOR_REGISTERED \<and> dom_staked d = 0
     \<or> dom_status d = DOMINATOR_INACTIVE \<and> (dom_staked d < thr \<or> dom_staked d = 0)
     \<or> dom_status d = DOMINATOR_ACTIVE \<and> thr \<le> dom_staked d
     \<or> dom_status d = DOMINATOR_EVICTED)"

definition status_ok :: "('w, 'cb) verifier_config \<Rightarrow> ('w, 'cb) verifier_state \<Rightarrow> bool" where
  "status_ok c s \<longleftrightarrow> (\<forall>dmn d. get_dominator dmn s = Some d \<longrightarrow> status_fits c d)"

definition staking_ok :: "('w, 'cb) verifier_config \<Rightarrow> ('w, 'cb) verifier_state \<Rightarrow> bool" where
  "staking_ok c s \<longleftrightarrow> stakes_ok c s \<and> pendings_ok c s \<and> status_ok c s"

lemma stakes_okD:
  assumes "stakes_ok c s"
  shows "finite (dom (stakings s))"
    and "get_dominator dmn s = Some d \<Longrightarrow> dom_staked d = dom_sum staking_amount (\<lambda>a. stakings s (dmn, a))"
    and "stakings s (dmn, a) \<noteq> None \<Longrightarrow> get_dominator dmn s \<noteq> None"
    and "get_reserve (staked_key c dmn a) s = stake_of dmn a s"
  using assms unfolding stakes_ok_def by blast+

lemma pendings_okD:
  assumes "pendings_ok c s"
  shows "distinct (List.map fst (pending_unstakings s b))"
    and "(\<Sum>b\<in>UNIV. pending_of a b s) \<le> unat (get_reserve (pending_key c a) s)"
  using assms by (simp_all add: pendings_ok_def)

section \<open>Changes outside staking\<close>

lemma same_stakes_get:
  assumes "same_stakes s s'"
  shows "get_reserve (staked_key c dmn a) s' = get_reserve (staked_key c dmn a) s"
    and "get_reserve (pending_key c a) s' = get_reserve (pending_key c a) s"
    and "stake_of dmn a s' = stake_of dmn a s" and "pending_of a b s' = pending_of a b s"
    and "get_dominator dmn s' = get_dominator dmn s"
  using assms by (simp_all add: same_stakes_def get_reserve_def staked_key_def pending_key_def
      stake_of_def pending_of_def get_dominator_def reserve_id_defs)

lemma same_stakes_staking_ok: "same_stakes s s' \<Longrightarrow> staking_ok c s \<Longrightarrow> staking_ok c s'"
  by (simp add: staking_ok_def stakes_ok_def pendings_ok_def status_ok_def same_stakes_get)
    (simp add: same_stakes_def)

text \<open>Writing back a dominator with the same stake and a status that fits it.\<close>

lemma put_dominator_staking_ok:
  assumes ok: "staking_ok c s" and d: "get_dominator dmn s = Some d"
    and "dom_staked d' = dom_staked d" and "status_fits c d'"
  shows "staking_ok c (put_dominator dmn d' s)"
  using assms
  by (auto simp: staking_ok_def stakes_ok_def pendings_ok_def status_ok_def stake_of_def pending_of_def
      get_reserve_def)

lemma status_fitsD: "staking_ok c s \<Longrightarrow> get_dominator dmn s = Some d \<Longrightarrow> status_fits c d"
  by (simp add: staking_ok_def status_ok_def)

lemma root_staking_ok:
  assumes "staking_ok c s" and d: "get_dominator dmn s = Some d"
  shows "staking_ok c (put_dominator dmn (d\<lparr>merkle_root := r, dom_sequence := q\<rparr>) s)"
  by (rule put_dominator_staking_ok [OF assms])
    (use status_fitsD [OF assms] in \<open>simp_all add: status_fits_def\<close>)

lemma deposit_staking_ok [simp]: "staking_ok c (deposit_verifier e s) = staking_ok c s"
  by (simp add: staking_ok_def stakes_ok_def pendings_ok_def status_ok_def stake_of_def pending_of_def
      get_reserve_def)

lemma evict_staking_ok: "evict c o' src s = Inr s' \<Longrightarrow> staking_ok c s \<Longrightarrow> staking_ok c s'"
  by (auto simp: evict_def result_simps status_fits_def intro!: put_dominator_staking_ok)

lemma launch_staking_ok:
  assumes "launch c o' src s = Inr s'" and ok: "staking_ok c s"
  shows "staking_ok c s'"
proof -
  obtain dmn d where d: "get_dominator dmn s = Some d" and "dom_status d = DOMINATOR_REGISTERED"
    and s': "s' = deposit_verifier (DominatorInactiveEvent dmn)
        (put_dominator dmn (d\<lparr>dom_status := DOMINATOR_INACTIVE\<rparr>) s)"
    using assms(1) by (auto simp: launch_def result_simps)
  then have "dom_staked d = 0"
    using status_fitsD [OF ok d] by (auto simp: status_fits_def status_defs)
  then show ?thesis
    unfolding s' deposit_staking_ok
    by (intro put_dominator_staking_ok [OF ok d]) (simp_all add: status_fits_def)
qed

lemma register_staking_ok:
  assumes "register c o' name s = Inr s'" and ok: "staking_ok c s"
  shows "staking_ok c s'"
proof -
  obtain dmn d where new: "get_dominator dmn s = None"
    and d: "dom_staked d = 0" "dom_status d = DOMINATOR_REGISTERED"
    and s': "s' = deposit_verifier (DominatorClaimed dmn) (put_dominator dmn d s)"
    using assms(1) by (rule register_Inr)
  have stakes: "stakes_ok c s" using ok by (simp add: staking_ok_def)
  then have "stakings s (dmn, a) = None" for a using stakes_okD(3) new by blast
  then have none: "(\<lambda>a. stakings s (dmn, a)) = (\<lambda>_. None)" by (rule ext)
  have "stakes_ok c (put_dominator dmn d s)"
    using stakes by (simp add: stakes_ok_def none d stake_of_def get_reserve_def)
  moreover have "pendings_ok c (put_dominator dmn d s)" "status_ok c (put_dominator dmn d s)"
    using ok d by (simp_all add: staking_ok_def pendings_ok_def status_ok_def pending_of_def
        get_reserve_def status_fits_def)
  ultimately show ?thesis unfolding s' deposit_staking_ok by (simp add: staking_ok_def)
qed

section \<open>Staking\<close>

lemma unat_sum_word: "unat x = unat y + unat z \<Longrightarrow> x = y + z" for x y z :: "'a::len word"
  using checked_add_eq_Some [of y z x] checked_add_word by blast

lemma opt_val_staking: "opt_val staking_amount x = staking_amount (value_or no_staking x)"
  by (cases x) (simp_all add: no_staking_def)

lemma get_dominator_update:
  "dominators s' = AList.update dmn d (dominators s) \<Longrightarrow>
    get_dominator e s' = (if e = dmn then Some d else get_dominator e s)"
  by (simp add: get_dominator_def update_conv')

text \<open>One stake changes, its dominator's total and its reserve with it.\<close>

lemma stakes_write:
  assumes ok: "stakes_ok c s" and d: "get_dominator dmn s = Some d"
    and stk: "stakings s' = (stakings s)((dmn, a) := x)"
    and dms: "dominators s' = AList.update dmn d' (dominators s)"
    and tot: "dom_staked d' + stake_of dmn a s = dom_staked d + opt_val staking_amount x"
    and res: "get_reserve (staked_key c dmn a) s' = opt_val staking_amount x"
    and other: "\<And>e b. (e, b) \<noteq> (dmn, a) \<Longrightarrow>
      get_reserve (staked_key c e b) s' = get_reserve (staked_key c e b) s"
  shows "stakes_ok c s'"
proof -
  note get = get_dominator_update [OF dms]
  have fin: "finite (dom (\<lambda>b. stakings s (dmn, b)))"
    using finite_dom_curry [OF stakes_okD(1) [OF ok]] .
  have sum: "dom_staked d' = dom_sum staking_amount (\<lambda>b. stakings s' (dmn, b))"
  proof -
    have "(\<lambda>b. stakings s' (dmn, b)) = (\<lambda>b. stakings s (dmn, b))(a := x)"
      by (simp add: stk fun_eq_iff)
    then have "dom_sum staking_amount (\<lambda>b. stakings s' (dmn, b)) + stake_of dmn a s
        = dom_staked d' + stake_of dmn a s"
      using dom_sum_upd [OF fin, of staking_amount a x] stakes_okD(2) [OF ok d] tot
      by (simp add: stake_of_def opt_val_staking)
    then show ?thesis by simp
  qed
  have rest: "(\<lambda>b. stakings s' (e, b)) = (\<lambda>b. stakings s (e, b))" if "e \<noteq> dmn" for e
    using that by (simp add: stk fun_eq_iff)
  have "finite (dom (stakings s'))" using stakes_okD(1) [OF ok] by (simp only: stk finite_dom_upd)
  moreover have "dom_staked y = dom_sum staking_amount (\<lambda>b. stakings s' (e, b))"
    if "get_dominator e s' = Some y" for e y
    using that sum stakes_okD(2) [OF ok, of e y] rest [of e] by (cases "e = dmn") (simp_all add: get)
  moreover have "get_dominator e s' \<noteq> None" if "stakings s' (e, b) \<noteq> None" for e b
    using that stakes_okD(3) [OF ok, of e b] by (auto simp: get stk split: if_splits)
  moreover have "get_reserve (staked_key c e b) s' = stake_of e b s'" for e b
    using res other [of e b] stakes_okD(4) [OF ok, of e b]
    by (cases "(e, b) = (dmn, a)") (auto simp: stake_of_def stk opt_val_staking)
  ultimately show ?thesis unfolding stakes_ok_def by blast
qed

lemma staked_key_eq [simp]: "staked_key c e b = staked_key c dmn a \<longleftrightarrow> e = dmn \<and> b = a"
  by (auto simp: staked_key_def)

lemma pending_key_eq [simp]: "pending_key c b = pending_key c a \<longleftrightarrow> b = a"
  "staked_key c e b \<noteq> pending_key c a" "pending_key c a \<noteq> staked_key c e b"
  by (auto simp: staked_key_def pending_key_def reserve_id_defs)

lemma status_fits_stake [simp]:
  "status_fits c (d\<lparr>dom_staked := v, dom_status := status_of_stake c v\<rparr>)"
  by (simp add: status_fits_def status_of_stake_def not_le)

lemma pendings_okI:
  assumes "pendings_ok c s" and "pending_unstakings s' = pending_unstakings s"
    and "\<And>a. get_reserve (pending_key c a) s' = get_reserve (pending_key c a) s"
  shows "pendings_ok c s'"
  using assms by (simp add: pendings_ok_def pending_of_def)

lemma stake_on_staking_ok:
  assumes run: "stake_on c a dmn v s = Inr s'" and ok: "staking_ok c s"
  shows "staking_ok c s'"
  using run
proof (cases rule: stake_on_Inr)
  case (1 d s1 sn s2)
  let ?st = "\<lparr>from_season = sn, staking_amount = stake_of dmn a s + v\<rparr>"
  note res = vf_reserve_Inr(7,8) [OF 1(4), folded staked_key_def]
  have get: "get_reserve k s' = get_reserve k s1" for k by (simp add: get_reserve_def 1)
  have st: "stakes_ok c s" and pd: "pendings_ok c s" and ss: "status_ok c s"
    using ok by (simp_all add: staking_ok_def)
  have new: "get_reserve (staked_key c dmn a) s' = stake_of dmn a s + v"
    using unat_sum_word [OF res(1)] stakes_okD(4) [OF st] by (simp add: get)
  have same: "get_reserve k s' = get_reserve k s" if "k \<noteq> staked_key c dmn a" for k
    unfolding get using res(2) [OF that] by (simp add: get_reserve_def)
  have other: "get_reserve (staked_key c e b) s' = get_reserve (staked_key c e b) s"
    if "(e, b) \<noteq> (dmn, a)" for e b
    using that by (intro same) auto
  have "stakes_ok c s'"
    by (rule stakes_write [OF st 1(1) _ 1(9) _ _ other, where x = "Some ?st"])
      (simp_all add: 1(8) new, simp_all add: stake_of_def)
  moreover have "pendings_ok c s'"
    by (rule pendings_okI [OF pd]) (simp_all add: 1(13) same)
  moreover have "status_ok c s'"
    using ss by (auto simp: status_ok_def get_dominator_update [OF 1(9)])
  ultimately show ?thesis by (simp add: staking_ok_def)
qed

text \<open>An amount goes to the pending releases of one block and into the reserve for them.\<close>

lemma pending_write:
  assumes ok: "pendings_ok c s"
    and pend: "pending_unstakings s' = (pending_unstakings s)(at := AList.update a u (pending_unstakings s at))"
    and u: "unat u = unat (value_or 0 (map_of (pending_unstakings s at) a)) + unat v"
    and res: "unat (get_reserve (pending_key c a) s') = unat (get_reserve (pending_key c a) s) + unat v"
    and other: "\<And>b. b \<noteq> a \<Longrightarrow> get_reserve (pending_key c b) s' = get_reserve (pending_key c b) s"
  shows "pendings_ok c s'"
proof -
  have of_other: "pending_of b x s' = pending_of b x s" if "b \<noteq> a" for b x
    using that by (simp add: pending_of_def pend update_conv')
  have of_a: "pending_of a x s' = pending_of a x s + (if x = at then unat v else 0)" for x
    using u by (simp add: pending_of_def pend update_conv')
  have "(\<Sum>x\<in>UNIV. pending_of b x s') \<le> unat (get_reserve (pending_key c b) s')" for b
  proof (cases "b = a")
    case True
    have "(\<Sum>x\<in>UNIV. pending_of a x s') = (\<Sum>x\<in>UNIV. pending_of a x s) + unat v"
      by (simp add: of_a sum.distrib)
    also have "\<dots> \<le> unat (get_reserve (pending_key c a) s')"
      using pendings_okD(2) [OF ok, of a] res by simp
    finally show ?thesis using True by simp
  next
    case False
    then show ?thesis using pendings_okD(2) [OF ok, of b] by (simp add: of_other other)
  qed
  moreover have "distinct (List.map fst (pending_unstakings s' x))" for x
    using pendings_okD(1) [OF ok] by (simp add: pend distinct_update)
  ultimately show ?thesis by (simp add: pendings_ok_def)
qed

lemma unstake_from_staking_ok:
  assumes run: "unstake_from c a dmn v s = Inr s'" and ok: "staking_ok c s"
  shows "staking_ok c s'"
  using run
proof (cases rule: unstake_from_Inr)
  case (1 d tot st remain s1 s2 sn rm u s3)
  let ?x = "if remain \<noteq> 0 then Some \<lparr>from_season = sn, staking_amount = remain\<rparr> else None"
  note r1 = vf_unreserve_Inr(7,8) [OF 1(8), folded staked_key_def]
  note r2 = vf_reserve_Inr(7,8) [OF 1(9), folded pending_key_def]
  have get: "get_reserve k s' = get_reserve k s2" for k by (simp add: get_reserve_def 1)
  have st: "stakes_ok c s" and pd: "pendings_ok c s" and ss: "status_ok c s"
    using ok by (simp_all add: staking_ok_def)
  have amount: "stake_of dmn a s = staking_amount st" by (simp add: stake_of_def 1)
  have same1: "get_reserve k s1 = get_reserve k s" if "k \<noteq> staked_key c dmn a" for k
    using r1(2) [OF that] by (simp add: get_reserve_def)
  have same2: "get_reserve k s2 = get_reserve k s1" if "k \<noteq> pending_key c a" for k
    using r2(2) [OF that] by (simp add: get_reserve_def)
  have other: "get_reserve (staked_key c e b) s' = get_reserve (staked_key c e b) s"
    if "(e, b) \<noteq> (dmn, a)" for e b
    using that by (auto simp: get same2 intro: same1)
  have "unat (get_reserve (staked_key c dmn a) s1) = unat remain"
    using r1(1) 1(6) stakes_okD(4) [OF st, of dmn a] amount by simp
  then have new: "get_reserve (staked_key c dmn a) s' = remain"
    by (simp add: get same2 word_unat_eq_iff)
  have tot: "dom_staked d = v + tot" "staking_amount st = v + remain"
    using unat_sum_word [OF 1(3)] unat_sum_word [OF 1(6)] by simp_all
  have "stakes_ok c s'"
    by (rule stakes_write [OF st 1(1) 1(15,16) _ _ other]) (simp_all add: new amount tot)
  moreover have "pendings_ok c s'"
    by (rule pending_write [OF pd 1(20) 1(12)]) (simp_all add: get r2 same1 same2)
  moreover have "status_fits c (d\<lparr>dom_staked := tot,
        dom_status := (if dom_status d \<noteq> DOMINATOR_EVICTED then status_of_stake c tot else dom_status d)\<rparr>)"
    by (cases "dom_status d = DOMINATOR_EVICTED") (simp_all add: status_fits_def status_of_stake_def not_le)
  then have "status_ok c s'"
    using ss by (auto simp: status_ok_def get_dominator_update [OF 1(16)])
  ultimately show ?thesis by (simp add: staking_ok_def)
qed

lemma claim_shares_staking_ok:
  assumes run: "claim_shares c o' src s = Inr s'" and ok: "staking_ok c s"
  shows "staking_ok c s'"
  using run
proof (cases rule: claim_shares_Inr)
  case (1 a dmn d st sn x s1)
  let ?x = "Some (st\<lparr>from_season := sn\<rparr>)"
  have st: "stakes_ok c s" using ok by (simp add: staking_ok_def)
  note fr = only_worldD [OF 1(5)]
  have get: "get_reserve k s' = get_reserve k s" for k by (simp add: get_reserve_def 1(6) fr)
  have dms: "dominators s' = AList.update dmn d (dominators s)"
    using 1(1) by (simp add: 1(6) fr get_dominator_def AList.update_triv)
  have stk: "stakings s' = (stakings s)((dmn, a) := ?x)" by (simp add: 1(6))
  have amount: "stake_of dmn a s = staking_amount st" using 1(2) by (simp add: stake_of_def)
  have "get_reserve (staked_key c dmn a) s' = staking_amount st"
    using stakes_okD(4) [OF st, of dmn a] amount by (simp only: get)
  then have new: "get_reserve (staked_key c dmn a) s' = opt_val staking_amount ?x" by simp
  have "stakes_ok c s'"
    by (rule stakes_write [OF st 1(1) stk dms _ new get]) (simp add: amount)
  moreover have "pendings_ok c s'"
    by (rule pendings_okI [of c s]) (use ok in \<open>simp_all add: staking_ok_def get, simp add: 1(6) fr\<close>)
  moreover have "status_ok c s'"
    using ok by (simp add: staking_ok_def status_ok_def get_dominator_def 1(6) fr)
  ultimately show ?thesis by (simp add: staking_ok_def)
qed

section \<open>The block hook\<close>

text \<open>While the releases of a block are worked through, what is still to do is funded on top of what
  is pending elsewhere.\<close>

definition release_funded ::
  "('w, 'cb) verifier_config \<Rightarrow> (account \<times> u128) list \<Rightarrow> ('w, 'cb) verifier_state \<Rightarrow> bool" where
  "release_funded c rs s \<longleftrightarrow> distinct (List.map fst rs)
    \<and> (\<forall>b. distinct (List.map fst (pending_unstakings s b)))
    \<and> (\<forall>a. (\<Sum>b\<in>UNIV. pending_of a b s) + unat (value_or 0 (map_of rs a))
        \<le> unat (get_reserve (pending_key c a) s))"

text \<open>Only the reserves for pending releases and the events change.\<close>

definition releases_only :: "('w, 'cb) verifier_config \<Rightarrow> ('w, 'cb) verifier_state \<Rightarrow> ('w, 'cb) verifier_state \<Rightarrow> bool" where
  "releases_only c s s' \<longleftrightarrow> stakings s' = stakings s \<and> dominators s' = dominators s
    \<and> pending_unstakings s' = pending_unstakings s
    \<and> (\<forall>dmn a. get_reserve (staked_key c dmn a) s' = get_reserve (staked_key c dmn a) s)"

lemma releases_only_keeps:
  assumes "releases_only c s s'"
  shows "stakes_ok c s \<Longrightarrow> stakes_ok c s'" and "status_ok c s \<Longrightarrow> status_ok c s'"
  using assms by (simp_all add: releases_only_def stakes_ok_def status_ok_def get_dominator_def stake_of_def)

lemma release_one:
  assumes fund: "release_funded c ((a, v) # rs) s"
    and run: "s1 = s \<or> (\<exists>s0. vf_unreserve c RESERVE_FOR_PENDING_UNSTAKE a (native_token_id c) v
        (verifier_system_account (vc_params c)) s = Inr s0
      \<and> s1 = deposit_verifier (TaoUnstakeUnlock a v) s0)"
  shows "release_funded c rs s1 \<and> releases_only c s s1"
  using run
proof (elim disjE exE conjE)
  assume "s1 = s"
  have "map_of rs a = None" using fund by (simp add: release_funded_def map_of_eq_None_iff)
  then have le: "unat (value_or 0 (map_of rs b)) \<le> unat (value_or 0 (map_of ((a, v) # rs) b))" for b
    by simp
  have "(\<Sum>x\<in>UNIV. pending_of b x s) + unat (value_or 0 (map_of rs b))
      \<le> unat (get_reserve (pending_key c b) s)" for b
    using fund le [of b] unfolding release_funded_def by (meson add_left_mono order_trans)
  then show ?thesis
    using fund unfolding \<open>s1 = s\<close> release_funded_def releases_only_def by simp
next
  fix s0
  assume s0: "vf_unreserve c RESERVE_FOR_PENDING_UNSTAKE a (native_token_id c) v
        (verifier_system_account (vc_params c)) s = Inr s0"
    and s1: "s1 = deposit_verifier (TaoUnstakeUnlock a v) s0"
  note fr = vf_unreserve_Inr(1-5) [OF s0] and res = vf_unreserve_Inr(7,8) [OF s0, folded pending_key_def]
  have get: "get_reserve k s1 = get_reserve k s" if "k \<noteq> pending_key c a" for k
    using res(2) [OF that] by (simp add: s1 get_reserve_def)
  have "releases_only c s s1"
    using get by (simp add: releases_only_def s1 fr)
  moreover have "(\<Sum>x\<in>UNIV. pending_of b x s1) + unat (value_or 0 (map_of rs b))
      \<le> unat (get_reserve (pending_key c b) s1)" for b
  proof -
    have pend: "pending_of b x s1 = pending_of b x s" for x by (simp add: pending_of_def s1 fr)
    have le: "(\<Sum>x\<in>UNIV. pending_of b x s) + unat (value_or 0 (map_of ((a, v) # rs) b))
        \<le> unat (get_reserve (pending_key c b) s)"
      using fund unfolding release_funded_def by blast
    show ?thesis
    proof (cases "b = a")
      case True
      moreover have "map_of rs a = None"
        using fund by (simp add: release_funded_def map_of_eq_None_iff)
      ultimately show ?thesis unfolding pend using le res(1) by (simp add: s1 get_reserve_def)
    next
      case False
      then show ?thesis using le by (simp add: pend get)
    qed
  qed
  moreover have "distinct (List.map fst rs)" "\<forall>x. distinct (List.map fst (pending_unstakings s1 x))"
    using fund by (simp_all add: release_funded_def s1 fr)
  ultimately show ?thesis unfolding release_funded_def by blast
qed

lemma releases_only_trans: "releases_only c s t \<Longrightarrow> releases_only c t u \<Longrightarrow> releases_only c s u"
  by (simp add: releases_only_def)

lemma release_all_keeps:
  "release_all c rs s = Inr s' \<Longrightarrow> release_funded c rs s \<Longrightarrow> release_funded c [] s' \<and> releases_only c s s'"
proof (induction rs arbitrary: s)
  case Nil
  then show ?case by (simp add: releases_only_def)
next
  case (Cons p rs)
  obtain a v where p: "p = (a, v)" by (cases p)
  obtain s1 where run: "release_all c rs s1 = Inr s'"
    and s1: "s1 = s \<or> (\<exists>s0. vf_unreserve c RESERVE_FOR_PENDING_UNSTAKE a (native_token_id c) v
        (verifier_system_account (vc_params c)) s = Inr s0
      \<and> s1 = deposit_verifier (TaoUnstakeUnlock a v) s0)"
    using Cons.prems(1) unfolding p by (rule release_all_step)
  have one: "release_funded c rs s1 \<and> releases_only c s s1"
    using release_one [OF _ s1] Cons.prems(2) by (simp add: p)
  with Cons.IH [OF run] show ?case by (blast intro: releases_only_trans)
qed

text \<open>Taking the entries of a block out of the map leaves them funded.\<close>

lemma take_pending_funded:
  assumes ok: "pendings_ok c s"
    and res: "\<And>a. get_reserve (pending_key c a) s' = get_reserve (pending_key c a) s"
    and pend: "pending_unstakings s' = (pending_unstakings s)(now := [])"
  shows "release_funded c (pending_unstakings s now) s'"
proof -
  have "(\<Sum>b\<in>UNIV. pending_of a b s') + unat (value_or 0 (map_of (pending_unstakings s now) a))
      \<le> unat (get_reserve (pending_key c a) s')" for a
  proof -
    have "(\<Sum>b\<in>UNIV. pending_of a b s') = (\<Sum>b\<in>UNIV - {now}. pending_of a b s)"
      by (intro sum.mono_neutral_cong_right) (auto simp: pending_of_def pend)
    then have "(\<Sum>b\<in>UNIV. pending_of a b s') + pending_of a now s = (\<Sum>b\<in>UNIV. pending_of a b s)"
      by (simp add: sum.remove [of UNIV now])
    then show ?thesis using pendings_okD(2) [OF ok, of a] by (simp add: res pending_of_def)
  qed
  then show ?thesis
    using pendings_okD(1) [OF ok] unfolding release_funded_def by (simp add: pend)
qed

lemma on_initialize_staking_ok:
  assumes run: "on_initialize c now s = Inr s'" and ok: "staking_ok c s"
  shows "staking_ok c s'"
  using run
proof (cases rule: on_initialize_Inr)
  case skip
  with ok show ?thesis by simp
next
  case (run s1)
  let ?t = "s1\<lparr>pending_unstakings := (pending_unstakings s)(now := [])\<rparr>"
  note fr = only_bonusesD [OF close_seasons_frame [OF run(2)]]
  have get: "get_reserve k ?t = get_reserve k s" for k by (simp add: get_reserve_def fr)
  have "pendings_ok c s" using ok by (simp add: staking_ok_def)
  then have "release_funded c (pending_unstakings s now) ?t"
    by (rule take_pending_funded) (simp_all add: get)
  then have fin: "release_funded c [] s'" "releases_only c ?t s'"
    using release_all_keeps [OF run(3)] by simp_all
  have "stakes_ok c ?t" "status_ok c ?t"
    using ok by (simp_all add: staking_ok_def stakes_ok_def status_ok_def get_dominator_def fr stake_of_def
        get [unfolded fr])
  then have "stakes_ok c s'" "status_ok c s'" using releases_only_keeps [OF fin(2)] by simp_all
  moreover have "pendings_ok c s'" using fin(1) by (simp add: release_funded_def pendings_ok_def)
  ultimately show ?thesis by (simp add: staking_ok_def)
qed

end
