(* ===== verification/Runtime_Frame.thy ===== *)
theory Runtime_Frame
  imports Runtime_Backing Verifier_Stakes
begin

text \<open>
  From the operations of the verifier to whole runs of the runtime: a relation that the operations
  keep holds across every runtime call, nested callbacks included, and, if the hook keeps it too, across
  every step. Two instances: the staking invariant, and the history of
  dominators.
\<close>

locale runtime_call_frame =
  fixes R :: "'n runtime_params" and Q :: "'n runtime_state \<Rightarrow> 'n runtime_state \<Rightarrow> bool"
  assumes Q_trans: "Q s t \<Longrightarrow> Q t u \<Longrightarrow> Q s u"
    and Q_same: "same_stakes s s' \<Longrightarrow> Q s s'"
    and Q_root: "get_dominator dmn s = Some d
      \<Longrightarrow> Q s (put_dominator dmn (d\<lparr>merkle_root := r, dom_sequence := q\<rparr>) s)"
    and Q_register: "register (runtime_config R dp) o' name s = Inr s' \<Longrightarrow> Q s s'"
    and Q_evict: "evict (runtime_config R dp) o' src s = Inr s' \<Longrightarrow> Q s s'"
    and Q_launch: "launch (runtime_config R dp) o' src s = Inr s' \<Longrightarrow> Q s s'"
    and Q_stake: "stake_on (runtime_config R dp) a dmn v s = Inr s' \<Longrightarrow> Q s s'"
    and Q_unstake: "unstake_from (runtime_config R dp) a dmn v s = Inr s' \<Longrightarrow> Q s s'"
    and Q_claim: "claim_shares (runtime_config R dp) o' src s = Inr s' \<Longrightarrow> Q s s'"
begin

lemma frame_of_dispatch:
  assumes "\<And>call a s s'. dp call a s = Inr s' \<Longrightarrow> Q s s'"
  shows "clearing_frame (runtime_config R dp) Q"
  by (rule clearing_frame.intro)
    ((erule (1) Q_trans | erule Q_same Q_root Q_register Q_evict Q_launch Q_stake Q_unstake Q_claim
      | simp add: assms)+)

lemma Q_runtime_call:
  assumes dp: "\<And>call a s s'. dp call a s = Inr s' \<Longrightarrow> Q s s'"
    and run: "run_runtime_call R dp call o' s = Inr s'"
  shows "Q s s'"
proof -
  have "Q s (s\<lparr>world := w\<rparr>)" for s w by (rule Q_same) (simp add: same_stakes_def)
  then have "runtime_calls R dp Q"
    by (intro runtime_calls.intro runtime_parts.intro runtime_calls_axioms.intro)
      (auto intro: Q_trans Q_same authorize_to_same_stakes revoke_from_same_stakes
        clearing_frame.Q_call [OF frame_of_dispatch [OF dp]] dp)
  then show ?thesis using run by (rule runtime_calls.Q_call)
qed

lemma Q_nested: "nested_dispatch R n call a s = Inr s' \<Longrightarrow> Q s s'"
proof (induction n arbitrary: call a s s')
  case (Suc n)
  then show ?case using Q_runtime_call [of "nested_dispatch R n" call "SignedOrigin a" s s'] by simp
qed simp

lemma Q_step_call:
  "run_runtime_call R (nested_dispatch R n) call o' s = Inr s' \<Longrightarrow> Q s s'"
  by (blast intro: Q_runtime_call Q_nested)

end

locale runtime_frame = runtime_call_frame R Q for R :: "'n runtime_params" and Q +
  assumes Q_block: "on_initialize (runtime_config R dp) now s = Inr s' \<Longrightarrow> Q s s'"
begin

lemma Q_step:
  assumes "runtime_step R n s s'"
  shows "Q s s'"
  using assms
proof cases
  case step_call
  then show ?thesis by (rule Q_step_call)
next
  case (step_block now)
  have "same_stakes s (s\<lparr>world := (world s)\<lparr>block_number := now\<rparr>\<rparr>)" by (rule same_stakesI) simp_all
  with step_block show ?thesis by (auto simp: begin_block_def intro: Q_trans [OF Q_same Q_block])
next
  case step_ledgers
  then show ?thesis by (auto intro!: Q_same same_stakesI)
qed

lemma Q_run: "run_of (runtime_step R n) s ts \<Longrightarrow> t \<in> set ts \<Longrightarrow> Q s t"
  by (induction ts arbitrary: s) (auto dest: Q_step intro: Q_trans)

end

section \<open>The staking invariant in the runtime\<close>

text \<open>The dispatch does not occur in the invariant.\<close>

abbreviation runtime_staking_ok :: "'n runtime_params \<Rightarrow> 'n runtime_state \<Rightarrow> bool" where
  "runtime_staking_ok R \<equiv> staking_ok (runtime_config R (nested_dispatch R 0))"

lemma staking_ok_config: "staking_ok (runtime_config R dp) s \<longleftrightarrow> runtime_staking_ok R s"
  by (simp add: staking_ok_def stakes_ok_def pendings_ok_def status_ok_def status_fits_def
      staked_key_def pending_key_def native_token_id_def)

interpretation stakes: runtime_frame R "\<lambda>s s'. runtime_staking_ok R s \<longrightarrow> runtime_staking_ok R s'"
  for R :: "'n runtime_params"
proof unfold_locales
  fix dp a dmn v o' src name now and s s' :: "'n runtime_state"
  note cfg = staking_ok_config [of R dp]
  show "runtime_staking_ok R s \<longrightarrow> runtime_staking_ok R s'"
    if "register (runtime_config R dp) o' name s = Inr s'"
    using register_staking_ok [OF that] by (simp add: cfg)
  show "runtime_staking_ok R s \<longrightarrow> runtime_staking_ok R s'"
    if "evict (runtime_config R dp) o' src s = Inr s'"
    using evict_staking_ok [OF that] by (simp add: cfg)
  show "runtime_staking_ok R s \<longrightarrow> runtime_staking_ok R s'"
    if "launch (runtime_config R dp) o' src s = Inr s'"
    using launch_staking_ok [OF that] by (simp add: cfg)
  show "runtime_staking_ok R s \<longrightarrow> runtime_staking_ok R s'"
    if "stake_on (runtime_config R dp) a dmn v s = Inr s'"
    using stake_on_staking_ok [OF that] by (simp add: cfg)
  show "runtime_staking_ok R s \<longrightarrow> runtime_staking_ok R s'"
    if "unstake_from (runtime_config R dp) a dmn v s = Inr s'"
    using unstake_from_staking_ok [OF that] by (simp add: cfg)
  show "runtime_staking_ok R s \<longrightarrow> runtime_staking_ok R s'"
    if "claim_shares (runtime_config R dp) o' src s = Inr s'"
    using claim_shares_staking_ok [OF that] by (simp add: cfg)
  show "runtime_staking_ok R s \<longrightarrow> runtime_staking_ok R s'"
    if "on_initialize (runtime_config R dp) now s = Inr s'"
    using on_initialize_staking_ok [OF that] by (simp add: cfg)
qed (blast intro: same_stakes_staking_ok root_staking_ok)+

lemma genesis_staking_ok: "runtime_genesis s \<Longrightarrow> runtime_staking_ok R s"
  by (simp add: runtime_genesis_def staking_ok_def stakes_ok_def pendings_ok_def status_ok_def
      get_dominator_def get_reserve_def stake_of_def pending_of_def no_staking_def)

interpretation staking_system:
  invariant_system runtime_genesis "runtime_step R n" "runtime_staking_ok R" for R :: "'n runtime_params" and n
  by unfold_locales (rule genesis_staking_ok, assumption, use stakes.Q_step in blast)

section \<open>The history of dominators\<close>

definition evolves :: "('w, 'cb) verifier_state \<Rightarrow> ('w, 'cb) verifier_state \<Rightarrow> bool" where
  "evolves s s' \<longleftrightarrow> (\<forall>dmn d. get_dominator dmn s = Some d \<longrightarrow>
    (\<exists>d'. get_dominator dmn s' = Some d' \<and> dom_name d' = dom_name d \<and> dom_start d' = dom_start d
      \<and> (dom_status d = DOMINATOR_EVICTED \<longrightarrow> dom_status d' = DOMINATOR_EVICTED)
      \<and> (dom_status d' = DOMINATOR_REGISTERED \<longrightarrow> dom_status d = DOMINATOR_REGISTERED)))"

definition names_unique :: "('w, 'cb) verifier_state \<Rightarrow> bool" where
  "names_unique s \<longleftrightarrow> (\<forall>x y d e. get_dominator x s = Some d \<longrightarrow> get_dominator y s = Some e
    \<longrightarrow> dom_name d = dom_name e \<longrightarrow> x = y)"

definition history :: "('w, 'cb) verifier_state \<Rightarrow> ('w, 'cb) verifier_state \<Rightarrow> bool" where
  "history s s' \<longleftrightarrow> evolves s s' \<and> (names_unique s \<longrightarrow> names_unique s')"

lemma evolves_trans:
  assumes "evolves s t" and "evolves t u"
  shows "evolves s u"
  unfolding evolves_def
proof (intro allI impI)
  fix dmn d
  assume "get_dominator dmn s = Some d"
  with assms(1) obtain d1 where d1: "get_dominator dmn t = Some d1" "dom_name d1 = dom_name d" "dom_start d1 = dom_start d"
    "dom_status d = DOMINATOR_EVICTED \<longrightarrow> dom_status d1 = DOMINATOR_EVICTED"
    "dom_status d1 = DOMINATOR_REGISTERED \<longrightarrow> dom_status d = DOMINATOR_REGISTERED"
    unfolding evolves_def by blast
  from d1(1) assms(2) obtain d2 where d2: "get_dominator dmn u = Some d2" "dom_name d2 = dom_name d1"
    "dom_start d2 = dom_start d1" "dom_status d1 = DOMINATOR_EVICTED \<longrightarrow> dom_status d2 = DOMINATOR_EVICTED"
    "dom_status d2 = DOMINATOR_REGISTERED \<longrightarrow> dom_status d1 = DOMINATOR_REGISTERED"
    unfolding evolves_def by blast
  show "\<exists>d'. get_dominator dmn u = Some d' \<and> dom_name d' = dom_name d \<and> dom_start d' = dom_start d
      \<and> (dom_status d = DOMINATOR_EVICTED \<longrightarrow> dom_status d' = DOMINATOR_EVICTED)
      \<and> (dom_status d' = DOMINATOR_REGISTERED \<longrightarrow> dom_status d = DOMINATOR_REGISTERED)"
    using d1(2-5) d2 by (intro exI [of _ d2] conjI impI) metis+
qed

lemma history_trans: "history s t \<Longrightarrow> history t u \<Longrightarrow> history s u"
  unfolding history_def by (blast intro: evolves_trans)

lemma history_same: "dominators s' = dominators s \<Longrightarrow> history s s'"
  by (simp add: history_def evolves_def names_unique_def get_dominator_def)

lemma history_put:
  assumes "get_dominator dmn s = Some d" and "\<And>e. get_dominator e s' = (if e = dmn then Some d' else get_dominator e s)"
    and "dom_name d' = dom_name d" and "dom_start d' = dom_start d"
    and "dom_status d = DOMINATOR_EVICTED \<Longrightarrow> dom_status d' = DOMINATOR_EVICTED"
    and "dom_status d' = DOMINATOR_REGISTERED \<Longrightarrow> dom_status d = DOMINATOR_REGISTERED"
  shows "history s s'"
proof -
  have "evolves s s'" using assms by (auto simp: evolves_def)
  moreover have "names_unique s'" if "names_unique s"
    unfolding names_unique_def
  proof (intro allI impI)
    fix x y u v
    assume u: "get_dominator x s' = Some u" and v: "get_dominator y s' = Some v"
      and eq: "dom_name u = dom_name v"
    have "\<exists>u0. get_dominator x s = Some u0 \<and> dom_name u0 = dom_name u"
      using u assms(1,3) by (auto simp: assms(2) split: if_splits)
    moreover have "\<exists>v0. get_dominator y s = Some v0 \<and> dom_name v0 = dom_name v"
      using v assms(1,3) by (auto simp: assms(2) split: if_splits)
    ultimately show "x = y" using that eq unfolding names_unique_def by metis
  qed
  ultimately show ?thesis by (simp add: history_def)
qed

lemma history_register:
  assumes "register c o' name s = Inr s'"
  shows "history s s'"
proof -
  obtain dmn d where new: "get_dominator dmn s = None" and name: "dom_name d = name"
    and s': "s' = deposit_verifier (DominatorClaimed dmn) (put_dominator dmn d s)"
    and free: "\<not> list_ex (\<lambda>(_, d). dom_name d = name) (dominators s)"
    using assms by (rule register_Inr)
  have other: "dom_name e \<noteq> name" if "get_dominator x s = Some e" for x e
    using map_of_SomeD [OF that [unfolded get_dominator_def]] free by (auto simp: list_ex_iff)
  have "evolves s s'" using new by (auto simp: evolves_def s')
  moreover have "names_unique s \<Longrightarrow> names_unique s'"
    unfolding names_unique_def s'
    by (auto simp: name dest: other other [OF sym] split: if_splits)
  ultimately show ?thesis by (simp add: history_def)
qed

lemma history_evict: "evict c o' src s = Inr s' \<Longrightarrow> history s s'"
  by (auto simp: evict_def result_simps status_defs intro!: history_put split: if_splits)

lemma history_launch: "launch c o' src s = Inr s' \<Longrightarrow> history s s'"
  by (auto simp: launch_def result_simps status_defs intro!: history_put split: if_splits)

lemma history_root:
  "get_dominator dmn s = Some d \<Longrightarrow>
    history s (put_dominator dmn (d\<lparr>merkle_root := r, dom_sequence := q\<rparr>) s)"
  by (rule history_put [where d' = "d\<lparr>merkle_root := r, dom_sequence := q\<rparr>"]) simp_all

lemma history_stake:
  assumes "stake_on c a dmn v s = Inr s'"
  shows "history s s'"
  using assms
proof (cases rule: stake_on_Inr)
  case (1 d s1 sn s2)
  show ?thesis
    by (rule history_put [OF 1(1) get_dominator_update [OF 1(9)]])
      (use 1(3) in \<open>auto simp: status_of_stake_def status_defs split: if_splits\<close>)
qed

lemma history_unstake:
  assumes "unstake_from c a dmn v s = Inr s'"
  shows "history s s'"
  using assms
proof (cases rule: unstake_from_Inr)
  case (1 d tot st remain s1 s2 sn rm u s3)
  show ?thesis
    by (rule history_put [OF 1(1) get_dominator_update [OF 1(16)]])
      (use 1(2) in \<open>auto simp: status_of_stake_def status_defs split: if_splits\<close>)
qed

lemma history_claim:
  assumes "claim_shares c o' src s = Inr s'"
  shows "history s s'"
  using assms
proof (cases rule: claim_shares_Inr)
  case (1 a dmn d st sn x s1)
  show ?thesis by (rule history_same) (simp add: 1(6) only_worldD [OF 1(5)])
qed

lemma release_all_dominators: "release_all c rs s = Inr s' \<Longrightarrow> dominators s' = dominators s"
proof (induction rs arbitrary: s)
  case (Cons p rs)
  obtain a v where p: "p = (a, v)" by (cases p)
  obtain s1 where run: "release_all c rs s1 = Inr s'"
    and s1: "s1 = s \<or> (\<exists>s0. vf_unreserve c RESERVE_FOR_PENDING_UNSTAKE a (native_token_id c) v
        (verifier_system_account (vc_params c)) s = Inr s0
      \<and> s1 = deposit_verifier (TaoUnstakeUnlock a v) s0)"
    using Cons.prems unfolding p by (rule release_all_step)
  from s1 have "dominators s1 = dominators s" by (auto simp: vf_unreserve_Inr)
  with Cons.IH [OF run] show ?case by simp
qed simp

lemma history_block:
  assumes "on_initialize c now s = Inr s'"
  shows "history s s'"
  using assms
proof (cases rule: on_initialize_Inr)
  case skip
  then show ?thesis by (simp add: history_same)
next
  case (run s1)
  then show ?thesis
    by (intro history_same) (simp add: release_all_dominators only_bonusesD [OF close_seasons_frame])
qed

interpretation dominators: runtime_frame R history for R :: "'n runtime_params"
  by (rule runtime_frame.intro, rule runtime_call_frame.intro)
    ((rule runtime_frame_axioms.intro | erule (1) history_trans | erule history_root history_register history_evict history_launch
        history_stake history_unstake history_claim history_block
      | simp add: same_stakes_def history_same)+)

lemma genesis_names: "runtime_genesis s \<Longrightarrow> names_unique s"
  by (simp add: runtime_genesis_def names_unique_def get_dominator_def)

interpretation naming_system:
  invariant_system runtime_genesis "runtime_step R n" names_unique for R :: "'n runtime_params" and n
  by unfold_locales (rule genesis_names, assumption, use dominators.Q_step in \<open>auto simp: history_def\<close>)

end
