(* ===== verification/Token_Correct.thy ===== *)
theory Token_Correct
  imports Token_Laws Reference
begin

text \<open>
  The properties of \<open>pallets/token\<close>: conservation of every token over all histories, the
  exact outcome of transfers and reserves on every branch, the unit conversions, creation of
  tokens, and the two operations whose code differs from what their interface says.
\<close>

section \<open>Conservation\<close>

lemma balance_listed:
  assumes "token_inv s"
  shows "unat (balance t w s) = acc_sum (get_token_balance (t, w) s)"
    and "acc_sum (get_token_balance (t, w) s) \<le> listed t s"
proof -
  have ok: "token_ok s" using assms by (simp add: token_inv_with_def)
  show "unat (balance t w s) = acc_sum (get_token_balance (t, w) s)"
    using token_ok_bound1 [OF ok, of t w]
    by (simp add: balance_def Let_def acc_sum_def unat_add_fits)
  show "acc_sum (get_token_balance (t, w) s) \<le> listed t s"
  proof (cases "token_balances s (t, w)")
    case None
    then show ?thesis by (simp add: get_token_balance_def)
  next
    case (Some a)
    then show ?thesis
      using holdings_ge [OF token_okD(1) [OF ok] Some] token_okD(2) [OF ok, of t]
      by (simp add: get_token_balance_def)
  qed
qed

definition demo_nep :: xtoken where
  "demo_nep = NEP141 [85, 83, 68] [117, 115, 100] 0 False 6"

text \<open>A short history on the reference currency: create a token, mint and transfer it.\<close>

definition demo_run :: "(ref_native token_state) result" where
  "demo_run =
    and_then (create ref_token_config demo_nep ref_token_state) (\<lambda>(t, s).
    and_then (mint_into t 7 5 s) (transfer ref_token_config (SignedOrigin 7) t 8 2000000000000))"

lemma demo_run_reachable:
  assumes "demo_run = Inr s"
  shows "reachable token_genesis (token_step ref_token_config) s"
proof -
  obtain t s1 s2 where s1: "create ref_token_config demo_nep ref_token_state = Inr (t, s1)"
    and s2: "mint_into t 7 5 s1 = Inr s2"
    and s: "transfer ref_token_config (SignedOrigin 7) t 8 2000000000000 s2 = Inr s"
    using assms by (auto simp: demo_run_def result_simps)
  have "token_genesis ref_token_state" by (simp add: token_genesis_def ref_token_state_def)
  then have "reachable token_genesis (token_step ref_token_config) ref_token_state"
    by (rule reachable_init)
  moreover have "token_step ref_token_config ref_token_state s1"
    using s1 by (intro step_create) (simp_all add: ref_token_state_def)
  ultimately have "reachable token_genesis (token_step ref_token_config) s1"
    by (rule reachable_step)
  then have "reachable token_genesis (token_step ref_token_config) s2"
    using step_mint [OF s2] by (rule reachable_step)
  then show ?thesis using step_transfer [OF s] by (rule reachable_step)
qed

lemma demo_run_value:
  obtains s where "demo_run = Inr s" and "balance 1 8 s = 2000000000000"
    and "total_issuance ref_token_config 1 s = 5000000000000"
proof -
  have "(case demo_run of Inl _ \<Rightarrow> False | Inr s \<Rightarrow> balance 1 8 s = 2000000000000
      \<and> total_issuance ref_token_config 1 s = 5000000000000)"
    by code_simp
  then show ?thesis by (auto intro: that split: sum.splits)
qed

lemma demo_free: "case demo_run of Inl _ \<Rightarrow> False
  | Inr s \<Rightarrow> acc_free (get_token_balance (1, 8) s) = 2000000000000 \<and> acc_reserved (get_token_balance (1, 8) s) = 0"
  by code_simp

text \<open>
  C36. Conservation of every token of the pallet. Over every history of the ledger, until the 32-bit counter of
  the tokens runs out, the free and reserved balances of all accounts in a token, together with what the
  closures that other pallets pass to \<open>try_mutate_account\<close> have removed, add up to the total recorded in the
  token's descriptor and what those closures have added: no operation of the pallet itself creates or loses a
  unit. An id no token has counts as a total of zero.
\<close>

theorem token_supply_conserved:
  assumes "token_run c ad rm s"
  shows "(\<Sum>w | token_balances s (t, w) \<noteq> None.
      unat (acc_free (get_token_balance (t, w) s)) + unat (acc_reserved (get_token_balance (t, w) s))) + rm t
    = (case tokens s t of None \<Rightarrow> 0 | Some info \<Rightarrow> unat (xtoken_total info)) + ad t"
proof -
  have "token_inv_with ad rm s" using assms by (rule token_run_inv)
  then have "holdings t (token_balances s) + rm t = listed t s + ad t"
    by (auto simp: token_inv_with_def dest: token_booksD(2))
  moreover have "holdings t (token_balances s) = (\<Sum>w | token_balances s (t, w) \<noteq> None.
      unat (acc_free (get_token_balance (t, w) s)) + unat (acc_reserved (get_token_balance (t, w) s)))"
    by (auto simp: holdings_def dom_sum_def acc_sum_def get_token_balance_def value_or_def dom_def
        split: option.splits intro!: sum.cong)
  moreover have "listed t s = (case tokens s t of None \<Rightarrow> 0 | Some info \<Rightarrow> unat (xtoken_total info))"
    by (simp add: listed_def opt_val_def split: option.split)
  ultimately show ?thesis by simp
qed

text \<open>After the short history somebody is paid 9 by a closure that adds them.\<close>

definition demo_paid :: "(ref_native token_state) result" where
  "demo_paid = and_then demo_run (try_mutate_account ref_token_config 1 8 (\<lambda>(fr, rs). Inr (fr + 9, rs)))"

lemma demo_paid_value: "case demo_paid of Inl _ \<Rightarrow> False
  | Inr s \<Rightarrow> get_token_balance (1, 8) s = \<lparr>acc_free = 2000000000009, acc_reserved = 0\<rparr>"
  by code_simp

theorem token_supply_conserved_witness:
  "\<exists>s. demo_paid = Inr s \<and>
    (\<Sum>w | token_balances s (1, w) \<noteq> None.
      unat (acc_free (get_token_balance (1, w) s)) + unat (acc_reserved (get_token_balance (1, w) s)))
    = (case tokens s 1 of None \<Rightarrow> 0 | Some info \<Rightarrow> unat (xtoken_total info)) + 9"
proof -
  obtain s where s: "demo_run = Inr s" by (rule demo_run_value)
  obtain s' where paid: "demo_paid = Inr s'" using demo_paid_value by (auto split: sum.splits)
  then have s': "try_mutate_account ref_token_config 1 8 (\<lambda>(fr, rs). Inr (fr + 9, rs)) s = Inr s'" "demo_paid = Inr s'"
    unfolding demo_paid_def s and_then_simps by simp_all
  let ?x = "(acc_free (get_token_balance (1, 8) s), acc_reserved (get_token_balance (1, 8) s))"
  have free: "fst ?x = 2000000000000" "snd ?x = 0" using demo_free unfolding s by simp_all
  have run: "token_run ref_token_config (\<lambda>_. 0) (\<lambda>_. 0) s" by (rule token_run_reachable [OF demo_run_reachable [OF s]])
  have native: "(1 :: token_id) \<noteq> native_id ref_token_config" by (simp add: ref_token_config_def)
  have y: "(\<lambda>(fr, rs). Inr (fr + 9, rs)) ?x = (Inr (fst ?x + 9, snd ?x) :: (u128 \<times> u128) result)" by simp
  have "closure_adds ?x (fst ?x + 9, snd ?x) = 9" "closure_adds (fst ?x + 9, snd ?x) ?x = 0"
    unfolding free closure_adds_def by (simp_all add: free)
  with token_supply_conserved [OF run_mutate [OF run s'(1) native refl y], of 1] s'(2) show ?thesis
    by (intro exI [of _ s']) simp
qed

text \<open>
  \<open>balance\<close>, which the code computes with a wrapping addition of free and reserved, never
  wraps, and never exceeds the token's total issuance, in every reachable state.
\<close>

theorem balance_exact:
  assumes "reachable token_genesis (token_step c) s" and "t \<noteq> native_id c"
  shows "unat (balance t w s)
      = unat (acc_free (get_token_balance (t, w) s)) + unat (acc_reserved (get_token_balance (t, w) s))
    \<and> balance t w s \<le> total_issuance c t s"
proof -
  have inv: "token_inv s" using assms(1) by (rule token_system.inv_reachable)
  have "unat (total_issuance c t s) = listed t s"
    using assms(2) by (simp add: total_issuance_def listed_def opt_val_def split: option.split)
  then show ?thesis
    using balance_listed [OF inv, of t w] by (simp add: word_le_nat_alt acc_sum_def)
qed

theorem balance_exact_witness:
  "\<exists>s. demo_run = Inr s \<and> balance 1 8 s \<le> total_issuance ref_token_config 1 s \<and> balance 1 8 s \<noteq> 0"
proof -
  obtain s where s: "demo_run = Inr s" "balance 1 8 s = 2000000000000" by (rule demo_run_value)
  have "(1 :: token_id) \<noteq> native_id ref_token_config" by simp
  then have "balance 1 8 s \<le> total_issuance ref_token_config 1 s"
    using balance_exact [OF demo_run_reachable [OF s(1)], of 1 8] by blast
  then show ?thesis using s by auto
qed

section \<open>Transfers and reserves\<close>

text \<open>
  Transfer of a token other than the native one between two accounts. In every reachable
  state it succeeds exactly when the sender's free balance covers the amount; then the sender
  loses and the receiver gains exactly the amount, reserved balances and every other account
  and descriptor stay, and otherwise the error is \<open>BalanceZero\<close> or \<open>InsufficientBalance\<close>:
  the \<open>Overflow\<close> branch cannot be taken.
\<close>

theorem transfer_token_exact:
  assumes "reachable token_genesis (token_step c) s"
    and "t \<noteq> native_id c" and "v \<noteq> 0" and "a \<noteq> b"
  shows "if v \<le> free_balance c t a s
    then \<exists>s'. transfer_token c a t v b s = Inr s'
      \<and> unat (free_balance c t a s') + unat v = unat (free_balance c t a s)
      \<and> unat (free_balance c t b s') = unat (free_balance c t b s) + unat v
      \<and> reserved_balance c t a s' = reserved_balance c t a s
      \<and> reserved_balance c t b s' = reserved_balance c t b s
      \<and> (\<forall>k. k \<noteq> (t, a) \<and> k \<noteq> (t, b) \<longrightarrow> token_balances s' k = token_balances s k)
      \<and> tokens s' = tokens s
    else transfer_token c a t v b s \<in>
      {Inl (TokenError BalanceZero), Inl (TokenError token_error.InsufficientBalance)}"
proof -
  have ok: "token_ok s"
    using token_system.inv_reachable [OF assms(1)] by (simp add: token_inv_with_def)
  let ?a = "get_token_balance (t, a) s" and ?b = "get_token_balance (t, b) s"
  show ?thesis
  proof (cases "v \<le> acc_free ?a")
    case True
    then have acc: "token_balances s (t, a) = Some ?a"
      using assms(3) by (cases "token_balances s (t, a)")
        (auto simp: get_token_balance_def no_account_def)
    have sub: "checked_sub (acc_free ?a) v = Some (acc_free ?a - v)"
      using True by (simp add: checked_sub_def)
    have "unat (acc_free ?b) + unat v < 2 ^ 128"
      using token_ok_bound2 [OF ok assms(4), of t] True by (simp add: acc_sum_def word_le_nat_alt)
    then have add: "checked_add (acc_free ?b) v = Some (acc_free ?b + v)"
      and add': "unat (acc_free ?b + v) = unat (acc_free ?b) + unat v"
      by (simp_all add: checked_add_def unat_add_fits)
    define s' where "s' = deposit_token (TokenTransfered t a b v)
      (s\<lparr>token_balances := (token_balances s)
          ((t, b) \<mapsto> ?b\<lparr>acc_free := acc_free ?b + v\<rparr>,
           (t, a) := keep_alive (?a\<lparr>acc_free := acc_free ?a - v\<rparr>))\<rparr>)"
    have run: "transfer_token c a t v b s = Inr s'"
      using assms(2-4) by (simp add: transfer_token_def acc sub add Let_def s'_def)
    have a': "get_token_balance (t, a) s' = ?a\<lparr>acc_free := acc_free ?a - v\<rparr>"
      by (simp add: s'_def get_token_balance_def keep_alive_def no_account_def)
    have b': "get_token_balance (t, b) s' = ?b\<lparr>acc_free := acc_free ?b + v\<rparr>"
      using assms(4) by (simp add: s'_def get_token_balance_def)
    have "unat (acc_free ?a - v) + unat v = unat (acc_free ?a)"
      using True by (simp add: unat_sub word_le_nat_alt)
    then show ?thesis
      using run True add' assms(2)
      by (simp add: free_balance_def reserved_balance_def a' b') (simp add: s'_def)
  next
    case False
    then show ?thesis
      using assms(2-4)
      by (cases "token_balances s (t, a)")
        (simp_all add: transfer_token_def free_balance_def get_token_balance_def checked_sub_def)
  qed
qed

theorem transfer_token_exact_witness:
  "\<exists>s s'. demo_run = Inr s \<and> transfer_token ref_token_config 8 1 3 7 s = Inr s'
    \<and> unat (free_balance ref_token_config 1 7 s') = unat (free_balance ref_token_config 1 7 s) + 3"
proof -
  obtain s where s: "demo_run = Inr s" by (rule demo_run_value)
  have "case demo_run of Inl _ \<Rightarrow> False | Inr s \<Rightarrow> 3 \<le> free_balance ref_token_config 1 8 s"
    by code_simp
  then have free: "3 \<le> free_balance ref_token_config 1 8 s" by (simp add: s)
  show ?thesis
    using transfer_token_exact [OF demo_run_reachable [OF s], of 1 3 8 7] free s by auto
qed

text \<open>
  Reserving a token other than the native one. In every reachable state \<open>reserve\<close> succeeds
  exactly when \<open>can_reserve\<close> answers yes, and then moves the amount from free to reserved and
  leaves every other account; with \<open>unreserve\<close> of the same amount the ledger is back where it
  was, and this always succeeds.
\<close>

theorem reserve_exact:
  assumes "reachable token_genesis (token_step c) s" and "t \<noteq> native_id c"
  shows "if can_reserve c t w v s
    then \<exists>s1 s2. reserve c t w v s = Inr s1
      \<and> unat (reserved_balance c t w s1) = unat (reserved_balance c t w s) + unat v
      \<and> unat (free_balance c t w s1) + unat v = unat (free_balance c t w s)
      \<and> (\<forall>k. k \<noteq> (t, w) \<longrightarrow> token_balances s1 k = token_balances s k)
      \<and> unreserve c t w v s1 = Inr s2 \<and> token_balances s2 = token_balances s
    else \<exists>e. reserve c t w v s = Inl (TokenError e)"
proof (cases "v = 0")
  case True
  then show ?thesis by (simp add: can_reserve_def reserve_def unreserve_def)
next
  case v: False
  have ok: "token_ok s"
    using token_system.inv_reachable [OF assms(1)] by (simp add: token_inv_with_def)
  let ?a = "get_token_balance (t, w) s"
  show ?thesis
  proof (cases "v \<le> acc_free ?a")
    case True
    then have acc: "token_balances s (t, w) = Some ?a"
      using v by (cases "token_balances s (t, w)") (auto simp: get_token_balance_def no_account_def)
    have fits: "unat (acc_reserved ?a) + unat v < 2 ^ 128"
      using token_ok_bound1 [OF ok, of t w] True by (simp add: acc_sum_def word_le_nat_alt)
    define s1 where "s1 = deposit_token (TokenReserved t w v)
      (s\<lparr>token_balances := (token_balances s)((t, w) \<mapsto>
          \<lparr>acc_free = acc_free ?a - v, acc_reserved = acc_reserved ?a + v\<rparr>)\<rparr>)"
    have reserve_run: "reserve c t w v s = Inr s1"
      using True fits v assms(2)
      by (simp add: reserve_def acc checked_sub_def checked_add_def s1_def)
    have undo: "checked_sub (acc_reserved ?a + v) v = Some (acc_reserved ?a)"
      "checked_add (acc_free ?a - v) v = Some (acc_free ?a)"
      using True fits
      by (simp_all add: checked_sub_eq_Some checked_add_eq_Some unat_add_fits unat_sub word_le_nat_alt)
    have "\<exists>s2. unreserve c t w v s1 = Inr s2 \<and> token_balances s2 = token_balances s"
      using v assms(2) acc undo by (auto simp: unreserve_def s1_def)
    then show ?thesis
      using reserve_run True fits v assms(2)
      by (simp add: can_reserve_def free_balance_def reserved_balance_def)
        (simp add: s1_def get_token_balance_def unat_add_fits unat_sub word_le_nat_alt)
  next
    case False
    then show ?thesis
      using v assms(2)
      by (cases "token_balances s (t, w)")
        (simp_all add: can_reserve_def reserve_def free_balance_def get_token_balance_def
          checked_sub_def)
  qed
qed

theorem reserve_exact_witness:
  "\<exists>s s1 s2. demo_run = Inr s \<and> reserve ref_token_config 1 8 9 s = Inr s1
    \<and> unreserve ref_token_config 1 8 9 s1 = Inr s2 \<and> token_balances s2 = token_balances s"
proof -
  obtain s where s: "demo_run = Inr s" by (rule demo_run_value)
  have "case demo_run of Inl _ \<Rightarrow> False | Inr s \<Rightarrow> can_reserve ref_token_config 1 8 9 s"
    by code_simp
  then have can: "can_reserve ref_token_config 1 8 9 s" by (simp add: s)
  show ?thesis
    using reserve_exact [OF demo_run_reachable [OF s], of 1 8 9] can s by auto
qed

text \<open>
  Repatriation between two accounts in a token other than the native one. In every
  reachable state it succeeds exactly when the slashed account has the amount reserved; the
  amount leaves that reserve and arrives in the beneficiary's free or reserved balance as
  asked, and no other balance moves.
\<close>

theorem repatriate_exact:
  assumes "reachable token_genesis (token_step c) s"
    and "t \<noteq> native_id c" and "a \<noteq> b" and "token_balances s (t, a) \<noteq> None"
  shows "if v \<le> reserved_balance c t a s
    then \<exists>s'. repatriate_reserved c t a b v st s = Inr s'
      \<and> unat (reserved_balance c t a s') + unat v = unat (reserved_balance c t a s)
      \<and> free_balance c t a s' = free_balance c t a s
      \<and> unat (free_balance c t b s')
          = unat (free_balance c t b s) + (if st = StatusFree then unat v else 0)
      \<and> unat (reserved_balance c t b s')
          = unat (reserved_balance c t b s) + (if st = StatusFree then 0 else unat v)
      \<and> (\<forall>k. k \<noteq> (t, a) \<and> k \<noteq> (t, b) \<longrightarrow> token_balances s' k = token_balances s k)
    else repatriate_reserved c t a b v st s = Inl (TokenError token_error.InsufficientBalance)"
proof -
  have ok: "token_ok s"
    using token_system.inv_reachable [OF assms(1)] by (simp add: token_inv_with_def)
  let ?a = "get_token_balance (t, a) s" and ?b = "get_token_balance (t, b) s"
  have acc: "token_balances s (t, a) = Some ?a" using assms(4) by (auto simp: get_token_balance_def)
  show ?thesis
  proof (cases "v \<le> acc_reserved ?a")
    case True
    have sub: "checked_sub (acc_reserved ?a) v = Some (acc_reserved ?a - v)"
      using True by (simp add: checked_sub_def)
    have sum: "acc_sum ?a + acc_sum ?b < 2 ^ 128" using ok assms(3) by (rule token_ok_bound2)
    have "\<exists>taker. repatriate_into st v ?b = Inr taker"
      using sum True
      by (cases st) (auto simp: repatriate_into_def checked_add_def acc_sum_def word_le_nat_alt)
    then obtain taker where taker: "repatriate_into st v ?b = Inr taker" ..
    then have parts: "unat (acc_free taker) = unat (acc_free ?b) + (if st = StatusFree then unat v else 0)"
      "unat (acc_reserved taker) = unat (acc_reserved ?b) + (if st = StatusFree then 0 else unat v)"
      by (cases st; auto simp: repatriate_into_def result_simps)+
    define s' where "s' = deposit_token (TokenRepatriated t a b v)
      (s\<lparr>token_balances := (token_balances s)
          ((t, b) \<mapsto> taker, (t, a) := keep_alive (?a\<lparr>acc_reserved := acc_reserved ?a - v\<rparr>))\<rparr>)"
    have run: "repatriate_reserved c t a b v st s = Inr s'"
      using assms(2,3) by (simp add: repatriate_reserved_def acc sub taker s'_def)
    have a': "get_token_balance (t, a) s' = ?a\<lparr>acc_reserved := acc_reserved ?a - v\<rparr>"
      by (simp add: s'_def get_token_balance_def keep_alive_def no_account_def)
    have b': "get_token_balance (t, b) s' = taker"
      using assms(3) by (simp add: s'_def get_token_balance_def)
    have "unat (acc_reserved ?a - v) + unat v = unat (acc_reserved ?a)"
      using True by (simp add: unat_sub word_le_nat_alt)
    then show ?thesis
      using run True parts assms(2)
      by (simp add: free_balance_def reserved_balance_def a' b') (simp add: s'_def)
  next
    case False
    then show ?thesis
      using assms(2,3) by (simp add: repatriate_reserved_def reserved_balance_def acc checked_sub_def)
  qed
qed

theorem repatriate_exact_witness:
  "\<exists>s s'. and_then demo_run (reserve ref_token_config 1 8 9) = Inr s
    \<and> repatriate_reserved ref_token_config 1 8 7 4 StatusFree s = Inr s'
    \<and> unat (reserved_balance ref_token_config 1 8 s') + 4 = 9"
proof -
  let ?run = "and_then demo_run (reserve ref_token_config 1 8 9)"
  have "case ?run of Inl _ \<Rightarrow> False | Inr s \<Rightarrow> reserved_balance ref_token_config 1 8 s = 9
      \<and> token_balances s (1, 8) \<noteq> None"
    by code_simp
  then obtain s where s: "?run = Inr s" and res: "reserved_balance ref_token_config 1 8 s = 9"
    and acc: "token_balances s (1, 8) \<noteq> None"
    by (auto split: sum.splits)
  obtain s0 where s0: "demo_run = Inr s0" "reserve ref_token_config 1 8 9 s0 = Inr s"
    using s by (auto simp: result_simps)
  have "reachable token_genesis (token_step ref_token_config) s"
    using demo_run_reachable [OF s0(1)] step_reserve [OF s0(2)] by (rule reachable_step)
  then show ?thesis
    using repatriate_exact [of ref_token_config s 1 8 7 4 StatusFree] acc s by (auto simp: res)
qed

text \<open>
  Repatriation of an account's reserve to its own reserve should leave the account as it
  is. The code calls \<open>reserve\<close> instead: for a token other than the native one it takes a further
  \<open>v\<close> out of the free balance into the reserve, and fails when the free balance is short, even
  with the whole amount in reserve.
\<close>

theorem repatriate_to_own_reserve:
  assumes "t \<noteq> native_id c" and "token_balances s (t, w) = Some acc" and "v \<noteq> 0"
    and "acc_sum acc < 2 ^ 128"
  shows "if v \<le> acc_free acc
    then \<exists>s'. repatriate_reserved c t w w v StatusReserved s = Inr s'
      \<and> unat (reserved_balance c t w s') = unat (acc_reserved acc) + unat v
      \<and> unat (free_balance c t w s') + unat v = unat (acc_free acc)
    else repatriate_reserved c t w w v StatusReserved s
      = Inl (TokenError token_error.InsufficientBalance)"
proof (cases "v \<le> acc_free acc")
  case True
  then have "unat (acc_reserved acc) + unat v < 2 ^ 128"
    using assms(4) by (simp add: acc_sum_def word_le_nat_alt)
  then show ?thesis
    using assms True
    by (simp add: repatriate_reserved_def reserve_def checked_sub_def checked_add_def
        reserved_balance_def free_balance_def get_token_balance_def unat_add_fits unat_sub
        word_le_nat_alt)
next
  case False
  then show ?thesis
    using assms by (simp add: repatriate_reserved_def reserve_def checked_sub_def)
qed

theorem repatriate_to_own_reserve_witness:
  "repatriate_reserved ref_token_config 1 7 7 5 StatusReserved
    (ref_token_state\<lparr>token_balances := [(1, 7) \<mapsto> \<lparr>acc_free = 4, acc_reserved = 9\<rparr>]\<rparr>)
    = Inl (TokenError token_error.InsufficientBalance)"
  using repatriate_to_own_reserve [of 1 ref_token_config
      "ref_token_state\<lparr>token_balances := [(1, 7) \<mapsto> \<lparr>acc_free = 4, acc_reserved = 9\<rparr>]\<rparr>" 7
      "\<lparr>acc_free = 4, acc_reserved = 9\<rparr>" 5]
  by (simp add: acc_sum_def)

section \<open>Minting\<close>

text \<open>
  Minting. In every reachable state a mint of a non-zero amount of a bridged token credits the
  amount in standard decimals to the beneficiary's free balance and to the token's total, or
  fails because that amount is zero or the total would overflow: the \<open>Overflow\<close> check on
  the account cannot fail. For an \<open>FND10\<close> token, whose arm takes the total for the amount,
  every mint fails with \<open>AmountZero\<close>.
\<close>

theorem do_mint_exact:
  assumes "reachable token_genesis (token_step c) s" and "t \<noteq> native_id c"
    and "tokens s t = Some info" and "amount \<noteq> 0"
  shows "case xtoken_decimals info of
      None \<Rightarrow> do_mint t w amount s = Inl (TokenError AmountZero)
    | Some d \<Rightarrow>
        let u = transform_decimals_to_standard amount d in
        if 2 ^ 128 \<le> unat (total_issuance c t s) + unat u
        then do_mint t w amount s = Inl (TokenError token_error.InsufficientBalance)
        else if u = 0 then do_mint t w amount s = Inl (TokenError AmountZero)
        else \<exists>s'. do_mint t w amount s = Inr s'
          \<and> unat (total_issuance c t s') = unat (total_issuance c t s) + unat u
          \<and> unat (free_balance c t w s') = unat (free_balance c t w s) + unat u
          \<and> reserved_balance c t w s' = reserved_balance c t w s"
proof -
  have inv: "token_inv s" using assms(1) by (rule token_system.inv_reachable)
  then have ok: "token_ok s" by (simp add: token_inv_with_def)
  show ?thesis
  proof (cases "xtoken_decimals info")
    case None
    then have "is_fnd10 info" by (cases info) auto
    moreover from this have "xtoken_total info = 0" using token_okD(4) [OF ok assms(3)] by blast
    ultimately have "mint_total amount info = Inr (info, 0)" by (cases info) auto
    with None show ?thesis using assms(3,4) by (simp add: do_mint_def)
  next
    case (Some d)
    let ?u = "transform_decimals_to_standard amount d"
    have mint: "mint_total amount info = (case checked_add (xtoken_total info) ?u of
        None \<Rightarrow> Inl (TokenError token_error.InsufficientBalance)
      | Some n \<Rightarrow> mint_total amount info)"
      using Some by (cases info) (auto split: option.split)
    have total: "total_issuance c t s = xtoken_total info"
      using assms(2,3) by (simp add: total_issuance_def)
    consider (over) "2 ^ 128 \<le> unat (xtoken_total info) + unat ?u"
      | (zero) "?u = 0" | (fine) "unat (xtoken_total info) + unat ?u < 2 ^ 128" "?u \<noteq> 0"
      by linarith
    then show ?thesis
    proof cases
      case over
      then have "checked_add (xtoken_total info) ?u = None" by (simp add: checked_add_None)
      then show ?thesis using over mint assms(3,4) by (simp add: do_mint_def total Some)
    next
      case zero
      then have "\<exists>i. mint_total amount info = Inr (i, 0)" using Some by (cases info) auto
      moreover have "unat (xtoken_total info) < 2 ^ 128"
        using unsigned_less [of "xtoken_total info"] by simp
      ultimately show ?thesis
        using zero assms(3,4) by (auto simp: do_mint_def total Some)
    next
      case fine
      then obtain i where i: "mint_total amount info = Inr (i, ?u)"
        using Some by (cases info) (auto simp: checked_add_def Let_def)
      have i': "unat (xtoken_total i) = unat (xtoken_total info) + unat ?u"
        using mint_total_Inr [OF i] Some by (cases info) auto
      let ?a = "get_token_balance (t, w) s"
      have "acc_sum ?a \<le> unat (xtoken_total info)"
        using balance_listed(2) [OF inv, of t w] assms(3) by (simp add: listed_def)
      then have "unat (acc_free ?a) + unat ?u < 2 ^ 128" using fine by (simp add: acc_sum_def)
      then have "do_mint t w amount s = Inr (deposit_token (TokenMinted t w ?u)
          (s\<lparr>token_balances := (token_balances s)((t, w) \<mapsto> ?a\<lparr>acc_free := acc_free ?a + ?u\<rparr>),
             tokens := (tokens s)(t \<mapsto> i)\<rparr>))"
        and "unat (acc_free ?a + ?u) = unat (acc_free ?a) + unat ?u"
        using fine assms(3,4) i by (simp_all add: do_mint_def Let_def checked_add_def unat_add_fits)
      then show ?thesis
        using fine i' assms(2) Some
        by (simp add: total free_balance_def reserved_balance_def)
          (simp add: total_issuance_def get_token_balance_def)
    qed
  qed
qed

theorem do_mint_exact_witness:
  "\<exists>s s'. demo_run = Inr s \<and> do_mint 1 9 2 s = Inr s'
    \<and> unat (free_balance ref_token_config 1 9 s')
        = unat (free_balance ref_token_config 1 9 s) + 2000000000000"
proof -
  obtain s where s: "demo_run = Inr s" by (rule demo_run_value)
  have "case demo_run of Inl _ \<Rightarrow> False | Inr s \<Rightarrow>
      tokens s 1 = Some (NEP141 [85, 83, 68] [117, 115, 100] 5000000000000 False 6)"
    by code_simp
  then have info: "tokens s 1 = Some (NEP141 [85, 83, 68] [117, 115, 100] 5000000000000 False 6)"
    by (simp add: s)
  have u: "transform_decimals_to_standard 2 6 = 2000000000000" by code_simp
  show ?thesis
    using do_mint_exact [OF demo_run_reachable [OF s], of 1 _ 2 9] info s
    by (auto simp: u Let_def total_issuance_def)
qed

section \<open>Decimals\<close>

lemma shrink10_unat: "unat (shrink10 n a) = unat a div 10 ^ n"
proof (induction n arbitrary: a)
  case (Suc n)
  have "unat (a div 10) = unat a div 10" by (simp add: unat_div)
  then show ?case using Suc by (simp add: div_mult2_eq)
qed simp

lemma grow10_word: "grow10 n a = a * 10 ^ n"
  by (induction n arbitrary: a) (simp_all add: ac_simps)

lemma grow10_unat: "unat (grow10 n a) = unat a * 10 ^ n mod 2 ^ 128"
proof -
  have w: "a * 10 ^ n = word_of_nat (unat a * 10 ^ n)" by simp
  have "unat (a * 10 ^ n) = unat a * 10 ^ n mod 2 ^ LENGTH(128)" by (subst w) (rule unat_of_nat)
  then show ?thesis by (simp add: grow10_word)
qed

text \<open>
  The conversion to 18 decimals in closed form: an amount with more than 18 decimals is
  divided by the power of ten, rounding down; one with fewer is multiplied, modulo \<open>2 ^ 128\<close>
  as the loop multiplies without a check; the conversion back undoes it when nothing wraps.
\<close>

theorem transform_decimals_exact:
  "unat (transform_decimals_to_standard a d) =
      (if 18 < unat d then unat a div 10 ^ (unat d - 18)
       else unat a * 10 ^ (18 - unat d) mod 2 ^ 128)
    \<and> (unat d \<le> 18 \<and> unat a * 10 ^ (18 - unat d) < 2 ^ 128
      \<longrightarrow> transform_decimals_to_external (transform_decimals_to_standard a d) d = a)
    \<and> (18 < unat d \<and> unat a * 10 ^ (unat d - 18) < 2 ^ 128
      \<longrightarrow> transform_decimals_to_standard (transform_decimals_to_external a d) d = a)"
proof -
  have gt: "STANDARD_DECIMALS < d \<longleftrightarrow> 18 < unat d"
    by (simp add: STANDARD_DECIMALS_def word_less_nat_alt)
  have sub: "18 < unat d \<Longrightarrow> unat (d - STANDARD_DECIMALS) = unat d - 18"
    "\<not> 18 < unat d \<Longrightarrow> unat (STANDARD_DECIMALS - d) = 18 - unat d"
    by (simp_all add: STANDARD_DECIMALS_def unat_sub word_le_nat_alt)
  have undo: "shrink10 n (grow10 n a) = a" if "unat a * 10 ^ n < 2 ^ 128" for n
    using that by (simp add: word_unat_eq_iff shrink10_unat grow10_unat)
  show ?thesis
    using undo by (auto simp: transform_decimals_to_standard_def transform_decimals_to_external_def
        gt sub shrink10_unat grow10_unat)
qed

theorem transform_decimals_exact_witness:
  "transform_decimals_to_external (transform_decimals_to_standard 1234567 6) 6 = 1234567
    \<and> transform_decimals_to_standard (transform_decimals_to_external 1234567 24) 24 = 1234567"
  using transform_decimals_exact [of 1234567 6] transform_decimals_exact [of 1234567 24] by simp

section \<open>Creating tokens\<close>

text \<open>
  Creation. In a reachable state a created token gets an id no token has, keeps the symbol,
  contract, decimals and chain of the request, starts with total zero and not stable, has a name
  of 2 to 8 ASCII bytes and at most 24 decimals, and leaves all balances and other
  descriptors alone.
\<close>

theorem create_exact:
  assumes "reachable token_genesis (token_step c) s" and "create c info s = Inr (t, s')"
  shows "tokens s t = None
    \<and> (\<exists>info'. tokens s' t = Some info' \<and> xtoken_total info' = 0 \<and> \<not> xtoken_is_stable info'
        \<and> xtoken_symbol info' = xtoken_symbol info \<and> xtoken_contract info' = xtoken_contract info
        \<and> xtoken_decimals info' = xtoken_decimals info \<and> chain_id_of c info' = chain_id_of c info)
    \<and> valid_name c (xtoken_symbol info)
    \<and> (\<forall>d. xtoken_decimals info = Some d \<longrightarrow> d \<le> MAX_DECIMALS)
    \<and> (\<forall>u. u \<noteq> t \<longrightarrow> tokens s' u = tokens s u)
    \<and> token_balances s' = token_balances s"
proof -
  have "token_ok s"
    using token_system.inv_reachable [OF assms(1)] by (simp add: token_inv_with_def)
  then have "tokens s (next_token_id s) = None" by (rule next_id_fresh)
  moreover obtain info' name where "create_info c (token_by_name s) info = Inr (info', name)"
    and "t = next_token_id s"
    and "s' = s\<lparr>token_by_name := (case name of None \<Rightarrow> token_by_name s
                              | Some n \<Rightarrow> (token_by_name s)(n \<mapsto> t)),
               next_token_id := t + 1, tokens := (tokens s)(t \<mapsto> info')\<rparr>"
    using assms(2) by (rule create_Inr)
  ultimately show ?thesis using create_info_Inr by fastforce
qed

theorem create_exact_witness:
  "\<exists>s s'. demo_run = Inr s
    \<and> create ref_token_config (ERC20 [66, 84, 67] (replicate 20 7) 99 True 8) s = Inr (2, s')
    \<and> tokens s 2 = None \<and> (\<exists>info'. tokens s' 2 = Some info' \<and> xtoken_total info' = 0)"
proof -
  let ?info = "ERC20 [66, 84, 67] (replicate 20 7) 99 True 8"
  have "case and_then demo_run (create ref_token_config ?info) of
      Inl _ \<Rightarrow> False | Inr (t, s) \<Rightarrow> t = 2"
    by code_simp
  then obtain s s' where s: "demo_run = Inr s" and s': "create ref_token_config ?info s = Inr (2, s')"
    by (auto simp: and_then_def split: sum.splits)
  show ?thesis using create_exact [OF demo_run_reachable [OF s] s'] s s' by blast
qed

text \<open>
  The octopus bridge's two lookups are inverse. In every reachable state
  \<open>try_get_token_id\<close> answers a contract name for exactly the NEP-141 tokens, and
  \<open>try_get_asset_id\<close> leads from a name to the one token that carries it.
\<close>

theorem octopus_lookups_inverse:
  assumes "reachable token_genesis (token_step c) s"
  shows "try_get_token_id t s = Some n \<longleftrightarrow> try_get_asset_id_by_name n s = Some t"
proof -
  have "names_ok s" using token_system.inv_reachable [OF assms] by (simp add: token_inv_with_def)
  moreover have "try_get_token_id t s = Some n
      \<longleftrightarrow> (\<exists>info. tokens s t = Some info \<and> nep_name info = Some n)"
    by (auto simp: try_get_token_id_def split: option.splits xtoken.splits elim: nep_name.elims)
  ultimately show ?thesis by (simp add: names_ok_def try_get_asset_id_by_name_def)
qed

theorem octopus_lookups_inverse_witness:
  "\<exists>s. demo_run = Inr s \<and> try_get_asset_id_by_name [117, 115, 100] s = Some 1"
proof -
  have "case demo_run of Inl _ \<Rightarrow> False | Inr s \<Rightarrow> try_get_token_id 1 s = Some [117, 115, 100]"
    by code_simp
  then obtain s where s: "demo_run = Inr s" "try_get_token_id 1 s = Some [117, 115, 100]"
    by (auto split: sum.splits)
  then show ?thesis using octopus_lookups_inverse [OF demo_run_reachable] by blast
qed

end
