(* ===== verification/Runtime_Correct.thy ===== *)
theory Runtime_Correct
  imports Runtime_Frame Token_Correct Market_Correct
begin

text \<open>
  The theorems about the composed runtime: custody, staking, the life of dominators, the funding of
  delayed releases.
\<close>

section \<open>A concrete runtime\<close>

text \<open>The constants of \<open>runtime/src/lib.rs\<close>, with small amounts for the thresholds.\<close>

definition ref_libs :: verifier_libs where
  "ref_libs =
    \<lparr>lib_arithmetic = ref_arithmetic, lib_lookup = Inr, lib_ascii_valid = list_all (\<lambda>b. b < 128),
     lib_hashing = (\<lambda>bs. bs), lib_smt_verify = (\<lambda>pf root ls. Some (pf = [1])),
     lib_decode_account = (\<lambda>bs. Some (le_nat bs)), lib_beneficiary_signed = (\<lambda>sg n new old. sg = [1]),
     lib_uncompressed_size = (\<lambda>bs. None), lib_decompress = (\<lambda>bs n. None),
     lib_decode_proofs = (\<lambda>bs. None), lib_decode_proofs_v2 = (\<lambda>bs. None)\<rparr>"

definition ref_verifier_params :: verifier_params where
  "ref_verifier_params =
    \<lparr>dominator_online_threshold = 80000, season_duration = 43200, dominator_check_grace_period = 20,
     minimal_staking_amount = 100, max_maker_fee = 10000, max_taker_fee = 10000,
     verifier_system_account = 999\<rparr>"

text \<open>The resource id of the native token: chain 42, no dominator, the contract TAO.\<close>

definition ref_native_resource :: resource_id where
  "ref_native_resource = [3] @ replicate 25 0 @ [84, 65, 79, 0, 42, 0]"

definition ref_bridge :: bridge_config where
  "ref_bridge =
    \<lparr>br_admin_origin = (\<lambda>o'. o' \<in> {SignedOrigin 901, SignedOrigin 902}), br_chain_id = 42,
     br_proposal_lifetime = 28800, br_native_resource_id = ref_native_resource, br_account = 900,
     br_treasury = 903\<rparr>"

definition ref_handler :: "ref_native handler_config" where
  "ref_handler =
    \<lparr>hd_token = ref_token_config, hd_bridge = ref_bridge,
     hd_admin_origin = (\<lambda>o'. o' \<in> {SignedOrigin 901, SignedOrigin 902}), hd_native_max = 30000000,
     hd_donor = 0, hd_donation = 1, hd_arithmetic = ref_arithmetic\<rparr>"

definition ref_bot :: "ref_native bot_config" where
  "ref_bot =
    \<lparr>bot_assets = ref_token_config, bot_staking_threshold = 5000, bot_system_account = 904,
     derive_sub_account = (\<lambda>a b t. 500 + 10 * a + (if t = 0 then b else 5 + b))\<rparr>"

text \<open>Accounts are the numbers the signatures spell; one unit of weight costs one unit of fee.\<close>

definition ref_agent :: "(ref_native, runtime_call) agent_config" where
  "ref_agent =
    \<lparr>ag_encode = (\<lambda>n c. le_bytes 4 (unat n)), ag_hex = (\<lambda>bs. bs @ bs), ag_keccak = (\<lambda>bs. bs),
     ag_recover = (\<lambda>sg digest. if sg = [] then None else Some (replicate 12 0 @ sg)),
     ag_blake2 = (\<lambda>bs. drop 18 bs), ag_decode_account = (\<lambda>bs. Some (le_nat bs)), ag_network = 1,
     ag_info = (\<lambda>_. (\<lparr>ref_time = 195000000, proof_size = 0\<rparr>, ClassNormal)), ag_encoded_size = (\<lambda>_. 100),
     ag_max_length = 3932160, ag_max_block = \<lparr>ref_time = 1500000000000, proof_size = 0\<rparr>,
     ag_base_extrinsic = (\<lambda>_. \<lparr>ref_time = 1000, proof_size = 0\<rparr>), ag_byte_fee = 1,
     ag_weight_to_fee = (\<lambda>w. ucast (ref_time w)),
     ag_withdraw = (\<lambda>a v n. and_then (take_free v (rn_accounts n a)) (\<lambda>p. Inr (rn_put a p n)))\<rparr>"

text \<open>These play no part in the runs below and need not be evaluated in them.\<close>

declare ref_bridge_def [code del] ref_handler_def [code del] ref_bot_def [code del] ref_agent_def [code del]

definition ref_runtime :: "ref_native runtime_params" where
  "ref_runtime =
    \<lparr>rt_token = ref_token_config, rt_reward = ref_reward_config, rt_market = ref_market_config,
     rt_verifier = ref_verifier_params, rt_libs = ref_libs, rt_bridge = ref_bridge,
     rt_handler = ref_handler, rt_bot = ref_bot, rt_agent = ref_agent\<rparr>"

definition ref_world :: "ref_native runtime_world" where
  "ref_world =
    (bot_state.extend
      (handler_state.extend
        (bridge_state.extend
          (oracle_state.extend (market_state.extend ref_market_state \<lparr>prices = (\<lambda>_. no_price)\<rparr>)
            \<lparr>chain_nonces = (\<lambda>_. None), relayer_threshold = DEFAULT_RELAYER_THRESHOLD,
             relayers = (\<lambda>_. False), relayer_count = 0, votes = (\<lambda>_. None), resources = (\<lambda>_. None),
             bridge_events = []\<rparr>)
          \<lparr>native_check = False, bridging_fee = (\<lambda>_. default_bridging_fee),
           associated_dominator = (\<lambda>_. None)\<rparr>)
        \<lparr>bots = (\<lambda>_. None), bot_events = []\<rparr>)
      \<lparr>agent_events = []\<rparr>)
    \<lparr>native := \<lparr>rn_accounts = (\<lambda>a. if a \<in> {5, 6} then (1000000, 0) else (0, 0)), rn_issuance = 2000000\<rparr>\<rparr>"

definition ref_runtime_state :: "ref_native runtime_state" where
  "ref_runtime_state =
    \<lparr>receipts = (\<lambda>_. None), dominators = [], dominator_settings = (\<lambda>_. None), reserves = (\<lambda>_. None),
     bonuses = (\<lambda>_. no_bonus), stakings = (\<lambda>_. None), pending_unstakings = (\<lambda>_. []),
     verifier_events = [], world = ref_world\<rparr>"

text \<open>
  Two blocks. In the first account 9 registers as a dominator, root launches it, account 5 stakes
  90000 on it, which makes it active, and account 6 authorises 700 to it. In the second account 5
  takes 20000 of its stake back.
\<close>

definition demo_block1 :: "(runtime_call \<times> origin) list" where
  "demo_block1 =
    [(VerifierCall (CallRegister [100, 101, 120]), SignedOrigin 9),
     (VerifierCall (CallLaunch 9), RootOrigin),
     (VerifierCall (CallStake 9 90000), SignedOrigin 5),
     (VerifierCall (CallAuthorize 9 0 700), SignedOrigin 6)]"

definition demo_runtime :: "ref_native runtime_state result" where
  "demo_runtime =
    and_then (execute_block ref_runtime 1 40 demo_block1 ref_runtime_state)
      (execute_block ref_runtime 1 41 [(VerifierCall (CallUnstake 9 20000), SignedOrigin 5)])"

lemma ref_runtime_reachable:
  assumes "demo_runtime = Inr s"
  shows "reachable runtime_genesis (runtime_step ref_runtime 1) s"
proof -
  have "reachable runtime_genesis (runtime_step ref_runtime 1) ref_runtime_state"
    by (rule reachable_init) (simp add: runtime_genesis_def ref_runtime_state_def ref_world_def
        bot_state.extend_def handler_state.extend_def bridge_state.extend_def oracle_state.extend_def)
  then show ?thesis
    using assms by (auto simp: demo_runtime_def and_then_Inr intro: block_reachable)
qed

lemma demo_runtime_state:
  "case demo_runtime of Inl _ \<Rightarrow> False
   | Inr s \<Rightarrow> get_reserve ((RESERVE_FOR_STAKING, 5, 0), 9) s = 70000
      \<and> get_reserve ((RESERVE_FOR_PENDING_UNSTAKE, 5, 0), 999) s = 20000
      \<and> get_reserve ((RESERVE_FOR_AUTHORIZING_STASH, 6, 0), 9) s = 700
      \<and> reserved_balance ref_token_config 0 5 (world s) = 90000
      \<and> pending_unstakings s 57640 = [(5, 20000)]
      \<and> receipts s (9, 6) = Some (Authorize 0 700 40)
      \<and> map_option dom_status (get_dominator 9 s) = Some DOMINATOR_INACTIVE
      \<and> map_option dom_staked (get_dominator 9 s) = Some 70000"
  by code_simp

section \<open>Custody\<close>

text \<open>
  In every reachable state of the runtime, for every account and token, the amounts the verifier
  holds for all purposes and dominators add up to at most the account's reserved balance, and an
  authorisation receipt is covered by the stash. For tokens of the token pallet without any
  assumption; for the native token if \<open>pallet_balances\<close> keeps its documented laws.
\<close>

theorem custody_backed:
  assumes "reachable runtime_genesis (runtime_step R n) s"
    and "t = native_id (rt_token R) \<longrightarrow> balances_laws (currency (rt_token R))"
  shows "held a t (reserves s) \<le> unat (reserved_balance (rt_token R) t a (world s))
    \<and> get_reserve ((rid, a, t), dmn) s \<le> reserved_balance (rt_token R) t a (world s)
    \<and> (receipts s (dmn, a) = Some (Authorize t v b) \<longrightarrow>
        v \<le> get_reserve ((RESERVE_FOR_AUTHORIZING_STASH, a, t), dmn) s)"
proof -
  note ok = runtime_system.inv_reachable [OF assms(1)]
  have good: "good_token (rt_token R) t" using assms(2) by (simp add: good_token_def)
  have sum: "held a t (reserves s) \<le> unat (reserved_balance (rt_token R) t a (world s))"
    using custody_okD(2) [OF ok good] by simp
  moreover have "unat (get_reserve ((rid, a, t), dmn) s) \<le> held a t (reserves s)"
    using held_ge [OF custody_okD(1) [OF ok]] by (simp add: opt_val_reserve [symmetric])
  ultimately show ?thesis
    using custody_okD(3) [OF ok] by (auto simp: receipt_covered_def word_le_nat_alt)
qed

theorem custody_backed_witness:
  "\<exists>s. demo_runtime = Inr s
    \<and> get_reserve ((RESERVE_FOR_STAKING, 5, 0), 9) s \<le> reserved_balance ref_token_config 0 5 (world s)
    \<and> get_reserve ((RESERVE_FOR_STAKING, 5, 0), 9) s = 70000"
proof -
  obtain s where s: "demo_runtime = Inr s" "get_reserve ((RESERVE_FOR_STAKING, 5, 0), 9) s = 70000"
    using demo_runtime_state by (auto split: sum.splits)
  then show ?thesis
    using custody_backed [OF ref_runtime_reachable [OF s(1)], of 0 5 RESERVE_FOR_STAKING 9 0 0]
      ref_balances_laws by (auto simp: ref_runtime_def)
qed

section \<open>Staking\<close>

text \<open>
  C3. In every reachable state the amount recorded for a staker on a dominator is what the custody
  ledger holds for it, the stake of a dominator is the sum over its stakers, and the status fits the
  stake: a registered dominator has none, an active one at least the threshold, an inactive one less.
\<close>

theorem staking_consistent:
  assumes "reachable runtime_genesis (runtime_step R n) s"
  shows "get_reserve ((RESERVE_FOR_STAKING, a, native_id (rt_token R)), dmn) s = stake_of dmn a s
    \<and> (get_dominator dmn s = Some d \<longrightarrow>
        dom_staked d = dom_sum staking_amount (\<lambda>b. stakings s (dmn, b))
        \<and> (dom_status d = DOMINATOR_REGISTERED \<longrightarrow> dom_staked d = 0)
        \<and> (dom_status d = DOMINATOR_ACTIVE \<longrightarrow> dominator_online_threshold (rt_verifier R) \<le> dom_staked d)
        \<and> (dom_status d = DOMINATOR_INACTIVE \<longrightarrow>
             dom_staked d < dominator_online_threshold (rt_verifier R) \<or> dom_staked d = 0)
        \<and> dom_status d \<in> {DOMINATOR_REGISTERED, DOMINATOR_INACTIVE, DOMINATOR_ACTIVE, DOMINATOR_EVICTED})"
proof -
  let ?c = "runtime_config R (nested_dispatch R 0)"
  note ok = staking_system.inv_reachable [OF assms]
  then have st: "stakes_ok ?c s" by (simp add: staking_ok_def)
  have "status_fits ?c d" if "get_dominator dmn s = Some d" using ok that by (rule status_fitsD)
  then show ?thesis
    using stakes_okD(4) [OF st, of dmn a] stakes_okD(2) [OF st, of dmn d]
    by (auto simp: staked_key_def native_token_id_def status_fits_def Let_def status_defs)
qed

theorem staking_consistent_witness:
  "\<exists>s d. demo_runtime = Inr s \<and> get_dominator 9 s = Some d \<and> dom_staked d = 70000
    \<and> dom_staked d = dom_sum staking_amount (\<lambda>b. stakings s (9, b)) \<and> stake_of 9 5 s = 70000"
proof -
  obtain s d where s: "demo_runtime = Inr s" "get_reserve ((RESERVE_FOR_STAKING, 5, 0), 9) s = 70000"
    "get_dominator 9 s = Some d" "dom_staked d = 70000"
    using demo_runtime_state by (auto split: sum.splits)
  then show ?thesis
    using staking_consistent [OF ref_runtime_reachable [OF s(1)], of 5 9 d]
    by (auto simp: ref_runtime_def)
qed

section \<open>Delayed releases\<close>

text \<open>With custody backed and the release funded, an unreserve of the native token goes through.\<close>

lemma native_unreserve_succeeds:
  "v \<le> reserved_balance c (native_id c) a w \<Longrightarrow> \<exists>w'. unreserve c (native_id c) a v w = Inr w'"
  by (simp add: unreserve_def reserved_balance_def)

lemma release_succeeds:
  assumes ok: "runtime_ok R s" and laws: "balances_laws (currency (rt_token R))"
    and fund: "unat v \<le> unat (get_reserve ((rid, a, native_id (rt_token R)), dmn) s)"
  shows "\<exists>s'. vf_unreserve (runtime_config R dp) rid a (native_id (rt_token R)) v dmn s = Inr s'"
proof (cases "v = 0")
  case True
  then show ?thesis by (simp add: vf_unreserve_def)
next
  case False
  let ?t = "native_id (rt_token R)" and ?k = "((rid, a, native_id (rt_token R)), dmn)"
  have "unat (get_reserve ?k s) \<le> held a ?t (reserves s)"
    using held_ge [OF custody_okD(1) [OF ok]] by (simp add: opt_val_reserve [symmetric])
  moreover have "held a ?t (reserves s) \<le> unat (reserved_balance (rt_token R) ?t a (world s))"
    using custody_okD(2) [OF ok] laws by (simp add: good_token_def)
  ultimately have "v \<le> reserved_balance (rt_token R) ?t a (world s)"
    using fund by (simp add: word_le_nat_alt)
  then obtain w where w: "unreserve (rt_token R) ?t a v (world s) = Inr w"
    using native_unreserve_succeeds by blast
  have "0 < unat v" using False by (simp add: unat_gt_0)
  then obtain r where r: "reserves s ?k = Some r"
    using fund by (cases "reserves s ?k") (auto simp: get_reserve_def)
  then have "v \<le> r" using fund by (simp add: get_reserve_def word_le_nat_alt)
  then show ?thesis
    using False w r by (simp add: vf_unreserve_def Let_def on_world_def checked_sub_def)
qed

text \<open>One release takes exactly its amount from the reserve and from the reserved balance.\<close>

lemma vf_unreserve_moves:
  assumes run: "vf_unreserve (runtime_config R dp) rid a t v dmn s = Inr s'"
    and good: "good_token (rt_token R) t"
  shows "unat (reserved_balance (rt_token R) t b (world s))
    = unat (reserved_balance (rt_token R) t b (world s')) + (if b = a then unat v else 0)"
  using run
proof (cases rule: vf_unreserve_cases)
  case (some w x)
  then show ?thesis using unreserve_moves [OF _ good, of t a v "world s" w b] by simp
qed simp

definition released :: "'n runtime_params \<Rightarrow> account \<Rightarrow> nat \<Rightarrow> 'n runtime_state \<Rightarrow> 'n runtime_state \<Rightarrow> bool" where
  "released R a v s s' \<longleftrightarrow> (let t = native_id (rt_token R);
      k = ((RESERVE_FOR_PENDING_UNSTAKE, a, t), verifier_system_account (rt_verifier R)) in
    unat (get_reserve k s) = unat (get_reserve k s') + v
    \<and> unat (reserved_balance (rt_token R) t a (world s))
      = unat (reserved_balance (rt_token R) t a (world s')) + v)"

lemma releases_go_through:
  assumes laws: "balances_laws (currency (rt_token R))"
  shows "runtime_ok R s \<Longrightarrow> release_funded (runtime_config R (nested_dispatch R n)) rs s \<Longrightarrow>
    \<exists>s'. release_all (runtime_config R (nested_dispatch R n)) rs s = Inr s'
      \<and> (\<forall>a. released R a (unat (value_or 0 (map_of rs a))) s s')"
proof (induction rs arbitrary: s)
  case Nil
  then show ?case by (simp add: released_def)
next
  case (Cons p rs)
  obtain a v where p: "p = (a, v)" by (cases p)
  let ?c = "runtime_config R (nested_dispatch R n)" and ?t = "native_id (rt_token R)"
    and ?sys = "verifier_system_account (rt_verifier R)"
  have good: "good_token (rt_token R) ?t" using laws by (simp add: good_token_def)
  have nt: "native_token_id ?c = ?t" by (simp add: native_token_id_def)
  have key: "pending_key ?c b = ((RESERVE_FOR_PENDING_UNSTAKE, b, ?t), ?sys)" for b
    by (simp add: pending_key_def nt)
  have "unat v \<le> unat (get_reserve (pending_key ?c a) s)"
    using Cons.prems(2) unfolding p release_funded_def by (auto dest!: conjunct2 spec [of _ a])
  then obtain s0 where s0: "vf_unreserve ?c RESERVE_FOR_PENDING_UNSTAKE a ?t v ?sys s = Inr s0"
    using release_succeeds [OF Cons.prems(1) laws] unfolding key by blast
  let ?s1 = "deposit_verifier (TaoUnstakeUnlock a v) s0"
  have fund: "release_funded ?c rs ?s1"
    using release_one [of ?c a v rs s ?s1] Cons.prems(2) s0 by (simp add: p nt)
  have "runtime_ok R s0"
    using custody.vf_unreserve_ok [of R n _ s] Cons.prems(1) s0 by (simp add: reserve_id_defs)
  then have "runtime_ok R ?s1" using custody.ok_same [of R n _ s0 ?s1] by simp
  then obtain s' where s': "release_all ?c rs ?s1 = Inr s'"
    and rest: "\<And>b. released R b (unat (value_or 0 (map_of rs b))) ?s1 s'"
    using Cons.IH fund by blast
  have "map_of rs a = None" using Cons.prems(2) by (simp add: p release_funded_def map_of_eq_None_iff)
  moreover have "unat (get_reserve ((RESERVE_FOR_PENDING_UNSTAKE, b, ?t), ?sys) s)
      = unat (get_reserve ((RESERVE_FOR_PENDING_UNSTAKE, b, ?t), ?sys) s0) + (if b = a then unat v else 0)" for b
    using vf_unreserve_Inr(7,8) [OF s0] by (simp add: get_reserve_def)
  ultimately have "released R b (unat (value_or 0 (map_of (p # rs) b))) s s'" for b
    using rest [of b] vf_unreserve_moves [OF s0 good, of b]
    by (simp add: released_def Let_def p get_reserve_def split: if_splits)
  moreover have "release_all ?c (p # rs) s = Inr s'" using s0 s' by (simp add: p nt)
  ultimately show ?case by blast
qed

lemma close_seasons_total:
  "season_duration (vc_params c) \<noteq> 0 \<Longrightarrow> \<exists>s'. close_seasons c now ds s = Inr s'"
  by (induction ds arbitrary: s) (auto simp: word_rem_def Let_def)

lemma pending_funded_parts:
  assumes ok: "runtime_staking_ok R s"
    and "reserves s' = reserves s" and "pending_unstakings s' = (pending_unstakings s)(now := [])"
  shows "release_funded (runtime_config R dp) (pending_unstakings s now) s'"
proof -
  have "pendings_ok (runtime_config R dp) s" using ok staking_ok_config [of R dp s] by (simp add: staking_ok_def)
  then show ?thesis
    using assms(2,3) by (intro take_pending_funded [where now = now]) (simp_all add: get_reserve_def)
qed

lemma hook_releases:
  assumes reach: "reachable runtime_genesis (runtime_step R n) s"
    and laws: "balances_laws (currency (rt_token R))"
    and grace: "dominator_check_grace_period (rt_verifier R) \<noteq> 0"
      "now mod dominator_check_grace_period (rt_verifier R) = 0"
    and season: "season_duration (rt_verifier R) \<noteq> 0"
  shows "\<exists>s'. begin_block R n now s = Inr s' \<and> pending_unstakings s' = (pending_unstakings s)(now := [])
    \<and> (\<forall>a. released R a (pending_of a now s) s s')"
proof -
  let ?c = "runtime_config R (nested_dispatch R n)"
  let ?s0 = "s\<lparr>world := (world s)\<lparr>block_number := now\<rparr>\<rparr>"
  note ok = runtime_system.inv_reachable [OF reach] and st = staking_system.inv_reachable [OF reach]
  obtain s1 where s1: "close_seasons ?c now (dominators ?s0) ?s0 = Inr s1"
    using close_seasons_total [of ?c now] season by fastforce
  note fr = only_bonusesD [OF close_seasons_frame [OF s1]]
  let ?t = "s1\<lparr>pending_unstakings := (pending_unstakings s)(now := [])\<rparr>"
  have "runtime_ok R ?s0"
    by (rule custody_mono [OF ok]) (simp add: reserved_balance_def get_token_balance_def)
  then have okt: "runtime_ok R ?t"
    using custody.ok_same [of R n _ ?s0 ?t] by (simp add: fr)
  have fund: "release_funded ?c (pending_unstakings s now) ?t"
    by (rule pending_funded_parts [OF st]) (simp_all add: fr)
  obtain s' where s': "release_all ?c (pending_unstakings s now) ?t = Inr s'"
    and rel: "\<And>a. released R a (unat (value_or 0 (map_of (pending_unstakings s now) a))) ?t s'"
    using releases_go_through [OF laws okt fund] by blast
  have "on_initialize ?c now ?s0 = Inr s'"
    using s1 s' grace by (simp add: on_initialize_def word_rem_def fr)
  then have "begin_block R n now s = Inr s'" by (simp add: begin_block_def)
  moreover have "pending_unstakings s' = (pending_unstakings s)(now := [])"
    using release_all_keeps [OF s' fund] by (simp add: releases_only_def)
  moreover have "released R a (pending_of a now s) s s'" for a
    using rel [of a]
    by (simp add: released_def Let_def pending_of_def get_reserve_def fr reserved_balance_def get_token_balance_def)
  ultimately show ?thesis by blast
qed

section \<open>Dominators\<close>

text \<open>
  C12. Along every run a dominator is never removed and keeps its name and its start block; an evicted
  one stays evicted, and none goes back to being registered.
\<close>

theorem dominator_lifecycle:
  assumes "run_of (runtime_step R n) s ts" and "t \<in> set ts" and "get_dominator dmn s = Some d"
  shows "\<exists>d'. get_dominator dmn t = Some d' \<and> dom_name d' = dom_name d \<and> dom_start d' = dom_start d
    \<and> (dom_status d = DOMINATOR_EVICTED \<longrightarrow> dom_status d' = DOMINATOR_EVICTED)
    \<and> (dom_status d' = DOMINATOR_REGISTERED \<longrightarrow> dom_status d = DOMINATOR_REGISTERED)"
  using dominators.Q_run [OF assms(1,2)] assms(3) by (simp add: history_def evolves_def)

theorem dominator_lifecycle_witness:
  "\<exists>s t d'. demo_runtime = Inr s
    \<and> run_runtime_call ref_runtime (nested_dispatch ref_runtime 1) (VerifierCall (CallEvict 9)) RootOrigin s = Inr t
    \<and> get_dominator 9 t = Some d' \<and> dom_status d' \<noteq> DOMINATOR_REGISTERED"
proof -
  obtain s d where s: "demo_runtime = Inr s" "get_dominator 9 s = Some d" "dom_status d = DOMINATOR_INACTIVE"
    using demo_runtime_state by (auto split: sum.splits)
  obtain t where t: "run_runtime_call ref_runtime (nested_dispatch ref_runtime 1)
      (VerifierCall (CallEvict 9)) RootOrigin s = Inr t"
    using s(2) by (auto simp: evict_def ensure_root_def ref_runtime_def ref_libs_def)
  have "run_of (runtime_step ref_runtime 1) s [t]" using step_call [OF t] by simp
  then have "\<exists>d'. get_dominator 9 t = Some d' \<and> (dom_status d' = DOMINATOR_REGISTERED \<longrightarrow> dom_status d = DOMINATOR_REGISTERED)"
    using dominator_lifecycle [of ref_runtime 1 s "[t]" t 9 d] s(2) by auto
  then show ?thesis using s t by (auto simp: status_defs)
qed

text \<open>No two dominators of a reachable state have the same name.\<close>

theorem dominator_names_unique:
  assumes "reachable runtime_genesis (runtime_step R n) s"
    and "get_dominator x s = Some d" and "get_dominator y s = Some e" and "dom_name d = dom_name e"
  shows "x = y"
  using naming_system.inv_reachable [OF assms(1)] assms(2-4) unfolding names_unique_def by blast

theorem dominator_names_unique_witness:
  "\<exists>s d. demo_runtime = Inr s \<and> get_dominator 9 s = Some d
    \<and> (\<forall>y e. get_dominator y s = Some e \<and> dom_name d = dom_name e \<longrightarrow> y = 9)"
proof -
  obtain s d where s: "demo_runtime = Inr s" "get_dominator 9 s = Some d"
    using demo_runtime_state by (auto split: sum.splits)
  then show ?thesis using dominator_names_unique [OF ref_runtime_reachable [OF s(1)] s(2)] by metis
qed

end
