(* ===== verification/Verifier_Correct.thy ===== *)
theory Verifier_Correct
  imports Runtime_Correct
begin

text \<open>
  The theorems about single operations of the verifier: what the proof of a limit order must say,
  how a batch threads the Merkle roots, the receipts, the shares of stakers.
\<close>

section \<open>Limit orders\<close>

text \<open>The leaves of the base accounts and of the quote accounts: the makers', then the taker's.\<close>

definition base_leaves :: "nat \<Rightarrow> nat list" where
  "base_leaves makers = List.map (\<lambda>i. i * 2 + 1) [0 ..< makers div 2] @ [makers + 1]"

definition quote_leaves :: "nat \<Rightarrow> nat list" where
  "quote_leaves makers = List.map (\<lambda>i. i * 2 + 2) [0 ..< makers div 2] @ [makers + 2]"

definition old_sum :: "merkle_leaf list \<Rightarrow> nat list \<Rightarrow> u128" where
  "old_sum ls is = (\<Sum>i\<leftarrow>is. split_old_to_sum (ls ! i))"

definition new_sum :: "merkle_leaf list \<Rightarrow> nat list \<Rightarrow> u128" where
  "new_sum ls is = (\<Sum>i\<leftarrow>is. split_new_to_sum (ls ! i))"

lemma sums_simps [simp]:
  "old_sum ls [] = 0" "new_sum ls [] = 0"
  "old_sum ls (i # is) = split_old_to_sum (ls ! i) + old_sum ls is"
  "new_sum ls (i # is) = split_new_to_sum (ls ! i) + new_sum ls is"
  "old_sum ls (is @ js) = old_sum ls is + old_sum ls js"
  "new_sum ls (is @ js) = new_sum ls is + new_sum ls js"
  by (simp_all add: old_sum_def new_sum_def)

text \<open>The amounts themselves, available and frozen, without wrapping.\<close>

definition old_units :: "merkle_leaf list \<Rightarrow> nat list \<Rightarrow> nat" where
  "old_units ls is = (\<Sum>i\<leftarrow>is. unat (fst (split_old_to_u128 (ls ! i))) + unat (snd (split_old_to_u128 (ls ! i))))"

definition new_units :: "merkle_leaf list \<Rightarrow> nat list \<Rightarrow> nat" where
  "new_units ls is = (\<Sum>i\<leftarrow>is. unat (fst (split_new_to_u128 (ls ! i))) + unat (snd (split_new_to_u128 (ls ! i))))"

lemma sums_units:
  "old_sum ls is = word_of_nat (old_units ls is)" "new_sum ls is = word_of_nat (new_units ls is)"
  by (induction "is") (simp_all add: old_sum_def new_sum_def old_units_def new_units_def split_old_to_sum_def
      split_new_to_sum_def case_prod_unfold)

lemma units_conserved:
  assumes "old_sum ls is = new_sum ls is + fee"
  shows "old_units ls is < 2 ^ 128 \<and> new_units ls is + unat fee < 2 ^ 128 \<longrightarrow> old_units ls is = new_units ls is + unat fee"
proof
  assume fits: "old_units ls is < 2 ^ 128 \<and> new_units ls is + unat fee < 2 ^ 128"
  have "(word_of_nat (old_units ls is) :: u128) = word_of_nat (new_units ls is + unat fee)"
    using assms by (simp add: sums_units)
  then have "unat (word_of_nat (old_units ls is) :: u128) = unat (word_of_nat (new_units ls is + unat fee) :: u128)"
    by (rule arg_cong)
  then show "old_units ls is = new_units ls is + unat fee"
    using fits by (simp add: unat_of_nat del: of_nat_add)
qed

lemma leaf_at_Inr: "leaf_at ls i = Inr l \<longleftrightarrow> i < length ls \<and> l = ls ! i"
  by (auto simp: leaf_at_def)

lemma ask_makers_Inr:
  assumes "ask_makers c s dmn base quote ls is (mb, mq, ms) = Inr (mb', mq', ms')"
  shows "mb' + old_sum ls (List.map (\<lambda>i. i * 2 + 1) is) = mb + new_sum ls (List.map (\<lambda>i. i * 2 + 1) is)
    \<and> mq' + new_sum ls (List.map (\<lambda>i. i * 2 + 2) is) = mq + old_sum ls (List.map (\<lambda>i. i * 2 + 2) is)
    \<and> List.map mk_base_balance ms' = List.map mk_base_balance ms @ List.map (\<lambda>i. split_new_to_sum (ls ! (i * 2 + 1))) is
    \<and> List.map mk_quote_balance ms' = List.map mk_quote_balance ms @ List.map (\<lambda>i. split_new_to_sum (ls ! (i * 2 + 2))) is"
  using assms
proof (induction "is" arbitrary: mb mq ms)
  case (Cons i "is")
  obtain who v where step: "ask_makers c s dmn base quote ls is
      (mb + (split_new_to_sum (ls ! (i * 2 + 1)) - split_old_to_sum (ls ! (i * 2 + 1))),
       mq + (split_old_to_sum (ls ! (i * 2 + 2)) - split_new_to_sum (ls ! (i * 2 + 2))),
       ms @ [\<lparr>mk_who = who, mk_filled_volume = v, mk_base_balance = split_new_to_sum (ls ! (i * 2 + 1)),
              mk_quote_balance = split_new_to_sum (ls ! (i * 2 + 2))\<rparr>]) = Inr (mb', mq', ms')"
    using Cons.prems by (auto simp: and_then_Inr ensure_Inr Let_def leaf_at_Inr)
  show ?case using Cons.IH [OF step] by (simp add: algebra_simps)
qed simp

lemma bid_makers_Inr:
  assumes "bid_makers c s dmn base quote ls is (mb, mq, ms) = Inr (mb', mq', ms')"
  shows "mb' + new_sum ls (List.map (\<lambda>i. i * 2 + 1) is) = mb + old_sum ls (List.map (\<lambda>i. i * 2 + 1) is)
    \<and> mq' + old_sum ls (List.map (\<lambda>i. i * 2 + 2) is) = mq + new_sum ls (List.map (\<lambda>i. i * 2 + 2) is)
    \<and> List.map mk_base_balance ms' = List.map mk_base_balance ms @ List.map (\<lambda>i. split_new_to_sum (ls ! (i * 2 + 1))) is
    \<and> List.map mk_quote_balance ms' = List.map mk_quote_balance ms @ List.map (\<lambda>i. split_new_to_sum (ls ! (i * 2 + 2))) is"
  using assms
proof (induction "is" arbitrary: mb mq ms)
  case (Cons i "is")
  obtain who v where step: "bid_makers c s dmn base quote ls is
      (mb + (split_old_to_sum (ls ! (i * 2 + 1)) - split_new_to_sum (ls ! (i * 2 + 1))),
       mq + (split_new_to_sum (ls ! (i * 2 + 2)) - split_old_to_sum (ls ! (i * 2 + 2))),
       ms @ [\<lparr>mk_who = who, mk_filled_volume = v, mk_base_balance = split_new_to_sum (ls ! (i * 2 + 1)),
              mk_quote_balance = split_new_to_sum (ls ! (i * 2 + 2))\<rparr>]) = Inr (mb', mq', ms')"
    using Cons.prems
    by (auto simp: and_then_Inr ensure_Inr ok_or_Inr Let_def leaf_at_Inr dest!: checked_sub_word checked_add_word)
  show ?case using Cons.IH [OF step] by (simp add: algebra_simps)
qed simp

text \<open>What an accepted ask has passed, as far as the balances go.\<close>

lemma ask_limit_facts:
  assumes "verify_ask_limit c s pr amount mf tf base quote maker_accounts pages dmn ls = Inr cr"
  obtains mb mq where "let m = unat maker_accounts;
      tb0 = split_old_to_sum (ls ! (m + 1)); tb1 = split_new_to_sum (ls ! (m + 1));
      tq0 = split_old_to_sum (ls ! (m + 2)); tq1 = split_new_to_sum (ls ! (m + 2)) in
      ask_makers c s dmn base quote ls [0 ..< m div 2] (0, 0, []) = Inr (mb, mq, cr_makers cr)
      \<and> mb + cr_base_fee cr = tb0 - tb1 \<and> tq1 - tq0 + cr_quote_fee cr = mq
      \<and> cr_base_fee cr = permill_mul_ceil (lib_arithmetic (vc_libs c)) mf (tb0 - tb1)
      \<and> cr_quote_fee cr = permill_mul_ceil (lib_arithmetic (vc_libs c)) tf mq
      \<and> tk_base_balance (cr_taker cr) = tb1 \<and> tk_quote_balance (cr_taker cr) = tq1
      \<and> tk_filled_amount (cr_taker cr) = tb0 - tb1
      \<and> snd (split_old_to_u128 (ls ! 0)) - snd (split_new_to_u128 (ls ! 0)) = tb0 - tb1"
proof -
  note sums = split_old_to_sum_def split_new_to_sum_def
  obtain x where "ask_makers c s dmn base quote ls [0 ..< unat maker_accounts div 2] (0, 0, []) = Inr x"
    and "let m = unat maker_accounts;
      tb0 = split_old_to_sum (ls ! (m + 1)); tb1 = split_new_to_sum (ls ! (m + 1));
      tq0 = split_old_to_sum (ls ! (m + 2)); tq1 = split_new_to_sum (ls ! (m + 2)) in
      snd (snd x) = cr_makers cr
      \<and> fst x + cr_base_fee cr = tb0 - tb1 \<and> tq1 - tq0 + cr_quote_fee cr = fst (snd x)
      \<and> cr_base_fee cr = permill_mul_ceil (lib_arithmetic (vc_libs c)) mf (tb0 - tb1)
      \<and> cr_quote_fee cr = permill_mul_ceil (lib_arithmetic (vc_libs c)) tf (fst (snd x))
      \<and> tk_base_balance (cr_taker cr) = tb1 \<and> tk_quote_balance (cr_taker cr) = tq1
      \<and> tk_filled_amount (cr_taker cr) = tb0 - tb1
      \<and> snd (split_old_to_u128 (ls ! 0)) - snd (split_new_to_u128 (ls ! 0)) = tb0 - tb1"
    using assms unfolding verify_ask_limit_def Let_def case_prod_unfold sums
    by (auto simp: and_then_Inr ensure_Inr ok_or_Inr leaf_at_Inr dest!: checked_add_word checked_sub_word)
  moreover obtain mb mq ms where x: "x = (mb, mq, ms)" by (cases x)
  ultimately show thesis
    unfolding Let_def x fst_conv snd_conv by (intro that [of mb mq]) (unfold Let_def, blast)
qed

lemma bid_limit_facts:
  assumes "verify_bid_limit c s pr amount mf tf base quote maker_accounts pages dmn ls = Inr cr"
  obtains mb mq where "let m = unat maker_accounts;
      tb0 = split_old_to_sum (ls ! (m + 1)); tb1 = split_new_to_sum (ls ! (m + 1));
      tq0 = split_old_to_sum (ls ! (m + 2)); tq1 = split_new_to_sum (ls ! (m + 2)) in
      bid_makers c s dmn base quote ls [0 ..< m div 2] (0, 0, []) = Inr (mb, mq, cr_makers cr)
      \<and> tb1 - tb0 + cr_base_fee cr = mb \<and> mq + cr_quote_fee cr = tq0 - tq1
      \<and> cr_base_fee cr = permill_mul_ceil (lib_arithmetic (vc_libs c)) tf mb
      \<and> cr_quote_fee cr = permill_mul_ceil (lib_arithmetic (vc_libs c)) mf (tq0 - tq1)
      \<and> tk_base_balance (cr_taker cr) = tb1 \<and> tk_quote_balance (cr_taker cr) = tq1
      \<and> tk_filled_amount (cr_taker cr) = mb
      \<and> fst (split_old_to_u128 (ls ! 0)) - fst (split_new_to_u128 (ls ! 0)) = mb"
proof -
  note sums = split_old_to_sum_def split_new_to_sum_def
  obtain x where "bid_makers c s dmn base quote ls [0 ..< unat maker_accounts div 2] (0, 0, []) = Inr x"
    and "let m = unat maker_accounts;
      tb0 = split_old_to_sum (ls ! (m + 1)); tb1 = split_new_to_sum (ls ! (m + 1));
      tq0 = split_old_to_sum (ls ! (m + 2)); tq1 = split_new_to_sum (ls ! (m + 2)) in
      snd (snd x) = cr_makers cr
      \<and> tb1 - tb0 + cr_base_fee cr = fst x \<and> fst (snd x) + cr_quote_fee cr = tq0 - tq1
      \<and> cr_base_fee cr = permill_mul_ceil (lib_arithmetic (vc_libs c)) tf (fst x)
      \<and> cr_quote_fee cr = permill_mul_ceil (lib_arithmetic (vc_libs c)) mf (tq0 - tq1)
      \<and> tk_base_balance (cr_taker cr) = tb1 \<and> tk_quote_balance (cr_taker cr) = tq1
      \<and> tk_filled_amount (cr_taker cr) = fst x
      \<and> fst (split_old_to_u128 (ls ! 0)) - fst (split_new_to_u128 (ls ! 0)) = fst x"
    using assms unfolding verify_bid_limit_def Let_def case_prod_unfold sums
    by (auto simp: and_then_Inr ensure_Inr ok_or_Inr leaf_at_Inr dest!: checked_add_word checked_sub_word)
  moreover obtain mb mq ms where x: "x = (mb, mq, ms)" by (cases x)
  ultimately show thesis
    unfolding Let_def x fst_conv snd_conv by (intro that [of mb mq]) (unfold Let_def, blast)
qed

text \<open>Concrete leaves: account 5 sells 1000 of token 0 for 10000 of token 1 to account 6.\<close>

definition demo_leaf :: "bytes \<Rightarrow> nat \<times> nat \<Rightarrow> nat \<times> nat \<Rightarrow> merkle_leaf" where
  "demo_leaf key x y =
    \<lparr>leaf_key = key, old_v = le_bytes 16 (fst x) @ le_bytes 16 (snd x),
     new_v = le_bytes 16 (fst y) @ le_bytes 16 (snd y)\<rparr>"

definition account_key :: "nat \<Rightarrow> nat \<Rightarrow> bytes" where
  "account_key who token = ACCOUNT_KEY # le_bytes 32 who @ le_bytes 4 token"

definition pair_key :: "u8 \<Rightarrow> nat \<Rightarrow> nat \<Rightarrow> bytes" where
  "pair_key k base quote = k # le_bytes 4 base @ le_bytes 4 quote"

definition page_key :: "nat \<Rightarrow> nat \<Rightarrow> nat \<Rightarrow> bytes" where
  "page_key base quote p = ORDERPAGE_KEY # le_bytes 4 base @ le_bytes 4 quote @ le_bytes 16 p"

definition demo_ask :: "merkle_leaf list" where
  "demo_ask =
    [demo_leaf (pair_key ORDERBOOK_KEY 0 1) (0, 1000) (0, 0),
     demo_leaf (account_key 6 0) (0, 0) (999, 0), demo_leaf (account_key 6 1) (0, 10000) (0, 0),
     demo_leaf (account_key 5 0) (1000, 0) (0, 0), demo_leaf (account_key 5 1) (0, 0) (9990, 0),
     demo_leaf (pair_key BESTPRICE_KEY 0 1) (0, 10) (0, 0), demo_leaf (page_key 0 1 10) (0, 1000) (0, 0)]"

text \<open>The other way round: account 5 buys what account 6 had on offer.\<close>

definition demo_bid :: "merkle_leaf list" where
  "demo_bid =
    [demo_leaf (pair_key ORDERBOOK_KEY 0 1) (1000, 0) (0, 0),
     demo_leaf (account_key 6 0) (0, 1000) (0, 0), demo_leaf (account_key 6 1) (0, 0) (9990, 0),
     demo_leaf (account_key 5 0) (0, 0) (999, 0), demo_leaf (account_key 5 1) (10000, 0) (0, 0),
     demo_leaf (pair_key BESTPRICE_KEY 0 1) (10, 0) (0, 0), demo_leaf (page_key 0 1 10) (0, 1000) (0, 0)]"

text \<open>The same bid, but the base of account 6 and of a second maker ends at \<open>2 ^ 127\<close> each.\<close>

definition minting_bid :: "merkle_leaf list" where
  "minting_bid =
    [demo_leaf (pair_key ORDERBOOK_KEY 0 1) (1000, 0) (0, 0),
     demo_leaf (account_key 6 0) (0, 1000) (2 ^ 127, 0), demo_leaf (account_key 6 1) (0, 0) (9990, 0),
     demo_leaf (account_key 7 0) (0, 0) (2 ^ 127, 0), demo_leaf (account_key 7 1) (0, 0) (0, 0),
     demo_leaf (account_key 5 0) (0, 0) (999, 0), demo_leaf (account_key 5 1) (10000, 0) (0, 0),
     demo_leaf (pair_key BESTPRICE_KEY 0 1) (10, 0) (0, 0), demo_leaf (page_key 0 1 10) (0, 1000) (0, 0)]"

abbreviation ref_config :: "(ref_native runtime_world, runtime_call) verifier_config" where
  "ref_config \<equiv> runtime_config ref_runtime (nested_dispatch ref_runtime 1)"

text \<open>Reading a leaf gives back what was written into it.\<close>

lemma from_le_bytes_le_bytes:
  "LENGTH('a::len) = 8 * k \<Longrightarrow> (from_le_bytes (le_bytes k n) :: 'a word) = word_of_nat n"
proof -
  assume "LENGTH('a) = 8 * k"
  then have "(256 :: nat) ^ k = 2 ^ LENGTH('a)" by (simp add: power_mult)
  then show ?thesis
    by (simp add: from_le_bytes_def le_nat_le_bytes word_of_nat_eq_iff take_bit_eq_mod)
qed

lemma slice_append:
  "i \<le> length xs \<Longrightarrow> j \<le> length xs \<Longrightarrow> slice (xs @ ys) i j = slice xs i j"
  "length xs \<le> i \<Longrightarrow> slice (xs @ ys) i j = slice ys (i - length xs) (j - length xs)"
  by (simp_all add: slice_def)

lemma slice_Cons_Suc: "0 < i \<Longrightarrow> slice (x # xs) i j = slice xs (i - 1) (j - 1)"
  by (cases i; cases j) (simp_all add: slice_def)

lemma slice_all: "j = length xs \<Longrightarrow> slice xs 0 j = xs"
  by (simp add: slice_def)

lemmas leaf_slices = slice_append slice_Cons_Suc slice_all from_le_bytes_le_bytes

lemma demo_leaf_split [simp]:
  "split_old_to_u128 (demo_leaf key x y) = (word_of_nat (fst x), word_of_nat (snd x))"
  "split_new_to_u128 (demo_leaf key x y) = (word_of_nat (fst y), word_of_nat (snd y))"
  "leaf_key (demo_leaf key x y) = key"
  by (simp_all add: demo_leaf_def split_old_to_u128_def split_new_to_u128_def split_to_u128_def
      split_value_def leaf_slices)

lemma demo_leaf_account [simp]:
  "who < 256 ^ 32 \<Longrightarrow> lib_decode_account (vc_libs c) = (\<lambda>bs. Some (le_nat bs)) \<Longrightarrow>
    try_get_account c (demo_leaf (account_key who token) x y) = Inr (word_of_nat token, who)"
  by (simp add: try_get_account_def account_key_def Let_def leaf_slices le_nat_le_bytes)

lemma demo_leaf_pair [simp]:
  "k = ORDERBOOK_KEY \<or> k = BESTPRICE_KEY \<Longrightarrow>
    try_get_symbol (demo_leaf (pair_key k base quote) x y) = Inr (word_of_nat base, word_of_nat quote)"
  by (auto simp: try_get_symbol_def pair_key_def Let_def leaf_slices)

lemma demo_leaf_page [simp]:
  "try_get_orderpage (demo_leaf (page_key base quote p) x y)
    = Inr (word_of_nat base, word_of_nat quote, word_of_nat p)"
  by (simp add: try_get_orderpage_def page_key_def Let_def leaf_slices)

lemma ref_config_libs [simp]:
  "lib_decode_account (rt_libs ref_runtime) = (\<lambda>bs. Some (le_nat bs))"
  "lib_arithmetic (rt_libs ref_runtime) = ref_arithmetic"
  by (simp_all add: ref_runtime_def ref_libs_def)

lemma ref_authorized: "a \<le> 100000000000 \<Longrightarrow> has_authorized_exactly_on who t a dmn ref_runtime_state"
  by (cases "a = 0") (simp_all add: has_authorized_exactly_on_def get_reserve_def ref_runtime_state_def)

lemma demo_ask_accepted:
  "case verify_ask_limit ref_config ref_runtime_state 10 1000 1000 1000 0 1 2 1 9 demo_ask of
     Inl _ \<Rightarrow> False
   | Inr cr \<Rightarrow> cr_base_fee cr = 1 \<and> cr_quote_fee cr = 10 \<and> tk_quote_balance (cr_taker cr) = 9990"
  by (simp add: verify_ask_limit_def demo_ask_def leaf_at_def leaf_last_def ref_authorized upt_rec
      split_old_to_sum_def split_new_to_sum_def ask_prices_def ref_arithmetic_def checked_add_code
      checked_sub_def Let_def)

lemma demo_bid_accepted:
  "case verify_bid_limit ref_config ref_runtime_state 10 1000 1000 1000 0 1 2 1 9 demo_bid of
     Inl _ \<Rightarrow> False
   | Inr cr \<Rightarrow> cr_base_fee cr = 1 \<and> cr_quote_fee cr = 10 \<and> tk_quote_balance (cr_taker cr) = 0"
  by (simp add: verify_bid_limit_def demo_bid_def leaf_at_def leaf_last_def ref_authorized upt_rec
      split_old_to_sum_def split_new_to_sum_def bid_prices_def ref_arithmetic_def checked_add_code
      checked_sub_def Let_def)

lemma minting_bid_accepted:
  "case verify_bid_limit ref_config ref_runtime_state 10 1000 1000 1000 0 1 4 1 9 minting_bid of
     Inl _ \<Rightarrow> False | Inr cr \<Rightarrow> cr_base_fee cr = 1"
  by (simp add: verify_bid_limit_def minting_bid_def leaf_at_def leaf_last_def ref_authorized upt_rec
      split_old_to_sum_def split_new_to_sum_def bid_prices_def ref_arithmetic_def checked_add_code
      checked_sub_def Let_def)

text \<open>
  C4. An accepted ask balances: over the leaves of the makers and the taker the old amounts in base equal the
  new ones plus the base fee modulo \<open>2 ^ 128\<close>, in which the code computes, and so as numbers, nothing created
  or destroyed, whenever both sides fit into 128 bits; likewise in quote. The balances that will be settled are
  those of the new leaves, and the fees are the fee rates of what the taker gave and what it would have received.
\<close>

theorem ask_limit_conserves:
  assumes "verify_ask_limit c s pr amount mf tf base quote maker_accounts pages dmn ls = Inr cr"
  shows "let m = unat maker_accounts;
      sold = split_old_to_sum (ls ! (m + 1)) - split_new_to_sum (ls ! (m + 1));
      paid = old_sum ls (List.map (\<lambda>i. i * 2 + 2) [0 ..< m div 2])
        - new_sum ls (List.map (\<lambda>i. i * 2 + 2) [0 ..< m div 2]) in
    old_sum ls (base_leaves m) = new_sum ls (base_leaves m) + cr_base_fee cr
    \<and> old_sum ls (quote_leaves m) = new_sum ls (quote_leaves m) + cr_quote_fee cr
    \<and> (old_units ls (base_leaves m) < 2 ^ 128 \<and> new_units ls (base_leaves m) + unat (cr_base_fee cr) < 2 ^ 128 \<longrightarrow>
        old_units ls (base_leaves m) = new_units ls (base_leaves m) + unat (cr_base_fee cr))
    \<and> (old_units ls (quote_leaves m) < 2 ^ 128 \<and> new_units ls (quote_leaves m) + unat (cr_quote_fee cr) < 2 ^ 128 \<longrightarrow>
        old_units ls (quote_leaves m) = new_units ls (quote_leaves m) + unat (cr_quote_fee cr))
    \<and> List.map mk_base_balance (cr_makers cr) @ [tk_base_balance (cr_taker cr)]
        = List.map (\<lambda>i. split_new_to_sum (ls ! i)) (base_leaves m)
    \<and> List.map mk_quote_balance (cr_makers cr) @ [tk_quote_balance (cr_taker cr)]
        = List.map (\<lambda>i. split_new_to_sum (ls ! i)) (quote_leaves m)
    \<and> cr_base_fee cr = permill_mul_ceil (lib_arithmetic (vc_libs c)) mf sold
    \<and> cr_quote_fee cr = permill_mul_ceil (lib_arithmetic (vc_libs c)) tf paid"
proof -
  obtain mb mq where facts: "let m = unat maker_accounts;
      tb0 = split_old_to_sum (ls ! (m + 1)); tb1 = split_new_to_sum (ls ! (m + 1));
      tq0 = split_old_to_sum (ls ! (m + 2)); tq1 = split_new_to_sum (ls ! (m + 2)) in
      ask_makers c s dmn base quote ls [0 ..< m div 2] (0, 0, []) = Inr (mb, mq, cr_makers cr)
      \<and> mb + cr_base_fee cr = tb0 - tb1 \<and> tq1 - tq0 + cr_quote_fee cr = mq
      \<and> cr_base_fee cr = permill_mul_ceil (lib_arithmetic (vc_libs c)) mf (tb0 - tb1)
      \<and> cr_quote_fee cr = permill_mul_ceil (lib_arithmetic (vc_libs c)) tf mq
      \<and> tk_base_balance (cr_taker cr) = tb1 \<and> tk_quote_balance (cr_taker cr) = tq1
      \<and> tk_filled_amount (cr_taker cr) = tb0 - tb1
      \<and> snd (split_old_to_u128 (ls ! 0)) - snd (split_new_to_u128 (ls ! 0)) = tb0 - tb1"
    using assms by (rule ask_limit_facts)
  let ?m = "unat maker_accounts"
  let ?bs = "List.map (\<lambda>i. i * 2 + 1) [0 ..< ?m div 2]" and ?qs = "List.map (\<lambda>i. i * 2 + 2) [0 ..< ?m div 2]"
  have "ask_makers c s dmn base quote ls [0 ..< ?m div 2] (0, 0, []) = Inr (mb, mq, cr_makers cr)"
    using facts by (simp only: Let_def)
  from ask_makers_Inr [OF this]
  have mb: "mb + old_sum ls ?bs = new_sum ls ?bs" and mq: "mq + new_sum ls ?qs = old_sum ls ?qs"
    and ms: "List.map mk_base_balance (cr_makers cr) = List.map (\<lambda>i. split_new_to_sum (ls ! (i * 2 + 1))) [0 ..< ?m div 2]"
      "List.map mk_quote_balance (cr_makers cr) = List.map (\<lambda>i. split_new_to_sum (ls ! (i * 2 + 2))) [0 ..< ?m div 2]"
    by simp_all
  have mb': "mb = new_sum ls ?bs - old_sum ls ?bs" and mq': "mq = old_sum ls ?qs - new_sum ls ?qs"
    using mb mq by (simp_all add: eq_diff_eq)
  have taker: "mb + cr_base_fee cr = split_old_to_sum (ls ! (?m + 1)) - split_new_to_sum (ls ! (?m + 1))"
    "split_new_to_sum (ls ! (?m + 2)) - split_old_to_sum (ls ! (?m + 2)) + cr_quote_fee cr = mq"
    using facts unfolding Let_def by blast+
  have base: "old_sum ls (base_leaves ?m) = new_sum ls (base_leaves ?m) + cr_base_fee cr"
    using taker(1) unfolding base_leaves_def sums_simps mb' by (simp add: algebra_simps)
  have quote: "old_sum ls (quote_leaves ?m) = new_sum ls (quote_leaves ?m) + cr_quote_fee cr"
    using taker(2) unfolding quote_leaves_def sums_simps mq' by (simp add: algebra_simps)
  note base units_conserved [OF base] quote units_conserved [OF quote]
  moreover have "List.map mk_base_balance (cr_makers cr) @ [tk_base_balance (cr_taker cr)]
      = List.map (\<lambda>i. split_new_to_sum (ls ! i)) (base_leaves ?m)"
    "List.map mk_quote_balance (cr_makers cr) @ [tk_quote_balance (cr_taker cr)]
      = List.map (\<lambda>i. split_new_to_sum (ls ! i)) (quote_leaves ?m)"
    using facts by (simp_all add: Let_def ms base_leaves_def quote_leaves_def)
  moreover have "cr_base_fee cr = permill_mul_ceil (lib_arithmetic (vc_libs c)) mf
      (split_old_to_sum (ls ! (?m + 1)) - split_new_to_sum (ls ! (?m + 1)))"
    "cr_quote_fee cr = permill_mul_ceil (lib_arithmetic (vc_libs c)) tf (old_sum ls ?qs - new_sum ls ?qs)"
    using facts unfolding Let_def mq' by blast+
  ultimately show ?thesis by (simp only: Let_def)
qed

theorem ask_limit_conserves_witness:
  "\<exists>cr. verify_ask_limit ref_config ref_runtime_state 10 1000 1000 1000 0 1 2 1 9 demo_ask = Inr cr
    \<and> old_sum demo_ask (quote_leaves 2) = new_sum demo_ask (quote_leaves 2) + cr_quote_fee cr
    \<and> cr_quote_fee cr = 10
    \<and> old_units demo_ask (base_leaves 2) = new_units demo_ask (base_leaves 2) + unat (cr_base_fee cr)
    \<and> cr_base_fee cr = 1"
proof -
  obtain cr where cr: "verify_ask_limit ref_config ref_runtime_state 10 1000 1000 1000 0 1 2 1 9 demo_ask = Inr cr"
    "cr_quote_fee cr = 10" "cr_base_fee cr = 1"
    using demo_ask_accepted by (auto split: sum.splits)
  have "old_units demo_ask (base_leaves 2) < 2 ^ 128" "new_units demo_ask (base_leaves 2) + unat (cr_base_fee cr) < 2 ^ 128"
    by (simp_all add: cr old_units_def new_units_def base_leaves_def demo_ask_def upt_rec)
  then show ?thesis using ask_limit_conserves [OF cr(1)] cr by (simp add: Let_def)
qed

text \<open>
  C5. The same for an accepted bid: base and quote balance up to the fees modulo \<open>2 ^ 128\<close>, and as numbers
  whenever both sides fit into 128 bits; the settled balances are those of the new leaves, and the fees are the
  rates of what the makers gave in base and of what the taker paid in quote.
\<close>

theorem bid_limit_conserves:
  assumes "verify_bid_limit c s pr amount mf tf base quote maker_accounts pages dmn ls = Inr cr"
  shows "let m = unat maker_accounts;
      paid = split_old_to_sum (ls ! (m + 2)) - split_new_to_sum (ls ! (m + 2));
      sold = old_sum ls (List.map (\<lambda>i. i * 2 + 1) [0 ..< m div 2])
        - new_sum ls (List.map (\<lambda>i. i * 2 + 1) [0 ..< m div 2]) in
    old_sum ls (base_leaves m) = new_sum ls (base_leaves m) + cr_base_fee cr
    \<and> old_sum ls (quote_leaves m) = new_sum ls (quote_leaves m) + cr_quote_fee cr
    \<and> (old_units ls (base_leaves m) < 2 ^ 128 \<and> new_units ls (base_leaves m) + unat (cr_base_fee cr) < 2 ^ 128 \<longrightarrow>
        old_units ls (base_leaves m) = new_units ls (base_leaves m) + unat (cr_base_fee cr))
    \<and> (old_units ls (quote_leaves m) < 2 ^ 128 \<and> new_units ls (quote_leaves m) + unat (cr_quote_fee cr) < 2 ^ 128 \<longrightarrow>
        old_units ls (quote_leaves m) = new_units ls (quote_leaves m) + unat (cr_quote_fee cr))
    \<and> List.map mk_base_balance (cr_makers cr) @ [tk_base_balance (cr_taker cr)]
        = List.map (\<lambda>i. split_new_to_sum (ls ! i)) (base_leaves m)
    \<and> List.map mk_quote_balance (cr_makers cr) @ [tk_quote_balance (cr_taker cr)]
        = List.map (\<lambda>i. split_new_to_sum (ls ! i)) (quote_leaves m)
    \<and> cr_base_fee cr = permill_mul_ceil (lib_arithmetic (vc_libs c)) tf sold
    \<and> cr_quote_fee cr = permill_mul_ceil (lib_arithmetic (vc_libs c)) mf paid"
proof -
  obtain mb mq where facts: "let m = unat maker_accounts;
      tb0 = split_old_to_sum (ls ! (m + 1)); tb1 = split_new_to_sum (ls ! (m + 1));
      tq0 = split_old_to_sum (ls ! (m + 2)); tq1 = split_new_to_sum (ls ! (m + 2)) in
      bid_makers c s dmn base quote ls [0 ..< m div 2] (0, 0, []) = Inr (mb, mq, cr_makers cr)
      \<and> tb1 - tb0 + cr_base_fee cr = mb \<and> mq + cr_quote_fee cr = tq0 - tq1
      \<and> cr_base_fee cr = permill_mul_ceil (lib_arithmetic (vc_libs c)) tf mb
      \<and> cr_quote_fee cr = permill_mul_ceil (lib_arithmetic (vc_libs c)) mf (tq0 - tq1)
      \<and> tk_base_balance (cr_taker cr) = tb1 \<and> tk_quote_balance (cr_taker cr) = tq1
      \<and> tk_filled_amount (cr_taker cr) = mb
      \<and> fst (split_old_to_u128 (ls ! 0)) - fst (split_new_to_u128 (ls ! 0)) = mb"
    using assms by (rule bid_limit_facts)
  let ?m = "unat maker_accounts"
  let ?bs = "List.map (\<lambda>i. i * 2 + 1) [0 ..< ?m div 2]" and ?qs = "List.map (\<lambda>i. i * 2 + 2) [0 ..< ?m div 2]"
  have "bid_makers c s dmn base quote ls [0 ..< ?m div 2] (0, 0, []) = Inr (mb, mq, cr_makers cr)"
    using facts by (simp only: Let_def)
  from bid_makers_Inr [OF this]
  have mb: "mb = old_sum ls ?bs - new_sum ls ?bs" and mq: "mq = new_sum ls ?qs - old_sum ls ?qs"
    and ms: "List.map mk_base_balance (cr_makers cr) = List.map (\<lambda>i. split_new_to_sum (ls ! (i * 2 + 1))) [0 ..< ?m div 2]"
      "List.map mk_quote_balance (cr_makers cr) = List.map (\<lambda>i. split_new_to_sum (ls ! (i * 2 + 2))) [0 ..< ?m div 2]"
    by (simp_all add: eq_diff_eq)
  have taker: "split_new_to_sum (ls ! (?m + 1)) - split_old_to_sum (ls ! (?m + 1)) + cr_base_fee cr = mb"
    "mq + cr_quote_fee cr = split_old_to_sum (ls ! (?m + 2)) - split_new_to_sum (ls ! (?m + 2))"
    using facts unfolding Let_def by blast+
  have base: "old_sum ls (base_leaves ?m) = new_sum ls (base_leaves ?m) + cr_base_fee cr"
    using taker(1) unfolding base_leaves_def sums_simps mb by (simp add: algebra_simps)
  have quote: "old_sum ls (quote_leaves ?m) = new_sum ls (quote_leaves ?m) + cr_quote_fee cr"
    using taker(2) unfolding quote_leaves_def sums_simps mq by (simp add: algebra_simps)
  note base units_conserved [OF base] quote units_conserved [OF quote]
  moreover have "List.map mk_base_balance (cr_makers cr) @ [tk_base_balance (cr_taker cr)]
      = List.map (\<lambda>i. split_new_to_sum (ls ! i)) (base_leaves ?m)"
    "List.map mk_quote_balance (cr_makers cr) @ [tk_quote_balance (cr_taker cr)]
      = List.map (\<lambda>i. split_new_to_sum (ls ! i)) (quote_leaves ?m)"
    using facts by (simp_all add: Let_def ms base_leaves_def quote_leaves_def)
  moreover have "cr_base_fee cr = permill_mul_ceil (lib_arithmetic (vc_libs c)) tf (old_sum ls ?bs - new_sum ls ?bs)"
    "cr_quote_fee cr = permill_mul_ceil (lib_arithmetic (vc_libs c)) mf
      (split_old_to_sum (ls ! (?m + 2)) - split_new_to_sum (ls ! (?m + 2)))"
    using facts unfolding Let_def mb by blast+
  ultimately show ?thesis by (simp only: Let_def)
qed

theorem bid_limit_conserves_witness:
  "\<exists>cr. verify_bid_limit ref_config ref_runtime_state 10 1000 1000 1000 0 1 2 1 9 demo_bid = Inr cr
    \<and> old_sum demo_bid (base_leaves 2) = new_sum demo_bid (base_leaves 2) + cr_base_fee cr
    \<and> old_units demo_bid (base_leaves 2) = new_units demo_bid (base_leaves 2) + unat (cr_base_fee cr)
    \<and> cr_base_fee cr = 1"
proof -
  obtain cr where cr: "verify_bid_limit ref_config ref_runtime_state 10 1000 1000 1000 0 1 2 1 9 demo_bid = Inr cr"
    "cr_base_fee cr = 1"
    using demo_bid_accepted by (auto split: sum.splits)
  have "old_units demo_bid (base_leaves 2) < 2 ^ 128" "new_units demo_bid (base_leaves 2) + unat (cr_base_fee cr) < 2 ^ 128"
    by (simp_all add: cr old_units_def new_units_def base_leaves_def demo_bid_def upt_rec)
  then show ?thesis using bid_limit_conserves [OF cr(1)] cr by (simp add: Let_def)
qed

text \<open>
  The condition is needed: this bid is accepted, and afterwards the accounts have \<open>2 ^ 128\<close> units of base more
  than before. A maker's base may rise in a sale, and the sum of the differences wraps.
\<close>

theorem accepted_bid_mints:
  "\<exists>cr. verify_bid_limit ref_config ref_runtime_state 10 1000 1000 1000 0 1 4 1 9 minting_bid = Inr cr
    \<and> new_units minting_bid (base_leaves 4) + unat (cr_base_fee cr) = old_units minting_bid (base_leaves 4) + 2 ^ 128"
proof -
  obtain cr where cr: "verify_bid_limit ref_config ref_runtime_state 10 1000 1000 1000 0 1 4 1 9 minting_bid = Inr cr"
    "cr_base_fee cr = 1"
    using minting_bid_accepted by (auto split: sum.splits)
  have "new_units minting_bid (base_leaves 4) + unat (1 :: u128) = old_units minting_bid (base_leaves 4) + 2 ^ 128"
    by (simp add: old_units_def new_units_def base_leaves_def minting_bid_def upt_rec)
  with cr show ?thesis by simp
qed

section \<open>Batches of proofs\<close>

text \<open>A chain of proofs: each is checked against the root the one before it reached; a rejection does
  not move the root.\<close>

fun moves_root :: "command_v2 \<Rightarrow> bool" where
  "moves_root (RejectTransferOut _ _) \<longleftrightarrow> False"
| "moves_root RejectTransferIn \<longleftrightarrow> False"
| "moves_root _ \<longleftrightarrow> True"

fun follows :: "('w, 'cb) verifier_config \<Rightarrow> merkle_hash \<Rightarrow> proof_v2 list \<Rightarrow> merkle_hash \<Rightarrow> bool" where
  "follows c root [] root' \<longleftrightarrow> root' = root"
| "follows c root (p # ps) root' \<longleftrightarrow> check_proof c root p
    \<and> follows c (if moves_root (cmd p) then proof_root p else root) ps root'"

lemma advance_Inr:
  assumes "advance dmn p block tr s = Inr (tr', s')"
  shows "tr_root tr' = proof_root p"
    and "map_option merkle_root (get_dominator dmn s') = Some (proof_root p)"
  using assms by (auto simp: advance_def split: option.splits)

lemma verify_and_update_root:
  assumes run: "verify_and_update c dmn ben root claim_at p s = Inr (tr, s')"
  shows "check_proof c root p \<and> tr_root tr = (if moves_root (cmd p) then proof_root p else root)
    \<and> (if moves_root (cmd p) then map_option merkle_root (get_dominator dmn s') = Some (proof_root p)
       else dominators s' = dominators s)"
proof -
  note same = rejects_same_stakes [THEN same_stakes_def [THEN iffD1]]
  show ?thesis
    using run by (cases "cmd p")
      (auto simp: verify_and_update_def ensure_Inr and_then_Inr Let_def traded_def dest: advance_Inr same)
qed

text \<open>
  C11. An accepted batch is a chain from the dominator's stored root: every proof was checked against
  the root reached before it, on its old leaves, and against its own root, on its new leaves. The
  stored root afterwards is the end of the chain.
\<close>

theorem batch_follows_roots:
  assumes "verify_batch c dmn ben d ps s = Inr s'" and "get_dominator dmn s = Some d"
  shows "\<exists>root'. follows c (merkle_root d) ps root'
    \<and> map_option merkle_root (get_dominator dmn s') = Some root'"
proof -
  have chain: "follows c root ps root' \<and> map_option merkle_root (get_dominator dmn t) = Some root'"
    if "verify_all c dmn ben claim_at ps (root, incr, s) = Inr (root', incr', t)"
      and "map_option merkle_root (get_dominator dmn s) = Some root" for claim_at root root' incr incr' t
    using that
  proof (induction ps arbitrary: root incr s)
    case (Cons p ps)
    obtain tr s1 where one: "verify_and_update c dmn ben root claim_at p s = Inr (tr, s1)"
      and rest: "verify_all c dmn ben claim_at ps (tr_root tr, add_turnover tr incr, s1) = Inr (root', incr', t)"
      using Cons.prems(1) by (auto simp: and_then_Inr)
    note root = verify_and_update_root [OF one]
    then have "map_option merkle_root (get_dominator dmn s1) = Some (tr_root tr)"
      using Cons.prems(2) by (auto simp: get_dominator_def split: if_splits)
    then show ?case using Cons.IH [OF rest] root by simp
  qed simp
  show ?thesis
    using assms chain by (fastforce simp: verify_batch_def and_then_Inr Let_def get_dominator_def)
qed

text \<open>A batch of one transfer of the authorised 700 into the hands of dominator 9.\<close>

definition demo_transfer_in :: proof_v2 where
  "demo_transfer_in =
    \<lparr>event_id = 1, user_id = 6, cmd = TransferIn 0 700,
     leaves = [demo_leaf (account_key 6 0) (0, 0) (700, 0)], maker_page_delta = 0, maker_account_delta = 0,
     merkle_proof = [1], proof_root = replicate 32 7\<rparr>"

lemma ref_smt [simp]: "lib_smt_verify (rt_libs ref_runtime) = (\<lambda>pf root ls. Some (pf = [1]))"
  by (simp add: ref_runtime_def ref_libs_def)

lemma ref_season [simp]: "season_duration (rt_verifier ref_runtime) = 43200"
  by (simp add: ref_runtime_def ref_verifier_params_def)

lemma demo_transfer_in_runs:
  assumes d: "get_dominator 9 s = Some d" and r: "receipts s (9, 6) = Some (Authorize 0 700 40)"
    and "get_reserve ((RESERVE_FOR_AUTHORIZING, 6, 0), 9) s = 0"
  shows "\<exists>s'. verify_batch ref_config 9 9 d [demo_transfer_in] s = Inr s'
    \<and> get_reserve ((RESERVE_FOR_AUTHORIZING, 6, 0), 9) s' = 700"
proof -
  let ?ks = "((RESERVE_FOR_AUTHORIZING_STASH, 6, 0), 9)" and ?ka = "((RESERVE_FOR_AUTHORIZING, 6, 0), 9)"
  let ?s = "s\<lparr>reserves := (reserves s)(?ks := None, ?ka \<mapsto> 700), receipts := (receipts s)((9, 6) := None)\<rparr>"
  have "transfer_in ref_config 9 demo_transfer_in 0 700 s = Inr ?s"
    using assms by (simp add: transfer_in_def demo_transfer_in_def verify_transfer_in_def Let_def
        get_reserve_def reserve_id_defs checked_add_code)
  moreover have "get_dominator 9 ?s = Some d" using d by (simp add: get_dominator_def)
  moreover have "\<exists>sn. current_season ref_config b a = Inr sn" for a b
    by (simp add: current_season_def word_div_def)
  then obtain sn where "current_season ref_config (current_block ref_config s) (dom_start d) = Inr sn" by blast
  ultimately show ?thesis
    by (simp add: verify_batch_def verify_and_update_def check_proof_def demo_transfer_in_def Let_def
        advance_def add_turnover_def get_reserve_def)
qed

lemma demo_runtime_facts:
  obtains s d where "demo_runtime = Inr s" and "get_dominator 9 s = Some d"
    and "dom_status d = DOMINATOR_INACTIVE" and "receipts s (9, 6) = Some (Authorize 0 700 40)"
    and "get_reserve ((RESERVE_FOR_AUTHORIZING_STASH, 6, 0), 9) s = 700"
    and "get_reserve ((RESERVE_FOR_AUTHORIZING, 6, 0), 9) s = 0"
proof -
  obtain s d where s: "demo_runtime = Inr s" "get_dominator 9 s = Some d"
    "dom_status d = DOMINATOR_INACTIVE" "receipts s (9, 6) = Some (Authorize 0 700 40)"
    "get_reserve ((RESERVE_FOR_AUTHORIZING_STASH, 6, 0), 9) s = 700"
    using demo_runtime_state by (auto split: sum.splits)
  have "case demo_runtime of Inl _ \<Rightarrow> False
      | Inr s \<Rightarrow> get_reserve ((RESERVE_FOR_AUTHORIZING, 6, 0), 9) s = 0" by code_simp
  then have "get_reserve ((RESERVE_FOR_AUTHORIZING, 6, 0), 9) s = 0" by (simp add: s(1))
  then show thesis by (rule that [OF s])
qed

theorem batch_follows_roots_witness:
  "\<exists>s d s' root'. demo_runtime = Inr s \<and> get_dominator 9 s = Some d
    \<and> verify_batch ref_config 9 9 d [demo_transfer_in] s = Inr s'
    \<and> follows ref_config (merkle_root d) [demo_transfer_in] root'
    \<and> map_option merkle_root (get_dominator 9 s') = Some root'"
proof -
  obtain s d where s: "demo_runtime = Inr s" "get_dominator 9 s = Some d"
    "receipts s (9, 6) = Some (Authorize 0 700 40)" "get_reserve ((RESERVE_FOR_AUTHORIZING, 6, 0), 9) s = 0"
    by (rule demo_runtime_facts)
  obtain s' where "verify_batch ref_config 9 9 d [demo_transfer_in] s = Inr s'"
    using demo_transfer_in_runs [OF s(2-4)] by blast
  then show ?thesis using batch_follows_roots s(1,2) by blast
qed

section \<open>Receipts\<close>

lemma transfer_in_exact_at:
  assumes "transfer_in c dmn p t v s = Inr s'"
  shows "(\<exists>b. receipts s (dmn, user_id p) = Some (Authorize t v b))
    \<and> receipts s' = (receipts s)((dmn, user_id p) := None)
    \<and> unat (get_reserve ((RESERVE_FOR_AUTHORIZING, user_id p, t), dmn) s')
        = unat (get_reserve ((RESERVE_FOR_AUTHORIZING, user_id p, t), dmn) s) + unat v
    \<and> get_reserve ((RESERVE_FOR_AUTHORIZING_STASH, user_id p, t), dmn) s' = 0
    \<and> world s' = world s \<and> dominators s' = dominators s
    \<and> (\<exists>l. leaves p = [l] \<and> fst (split_new_to_u128 l) = fst (split_old_to_u128 l) + v
        \<and> try_get_account c l = Inr (t, user_id p))"
proof -
  obtain r x where r: "receipts s (dmn, user_id p) = Some r" "authorizes t v r"
    and ok: "verify_transfer_in c t v (user_id p) (leaves p) = Inr ()"
    and x: "checked_add (get_reserve ((RESERVE_FOR_AUTHORIZING, user_id p, t), dmn) s) v = Some x"
    and s': "s' = s\<lparr>reserves := (reserves s)(((RESERVE_FOR_AUTHORIZING_STASH, user_id p, t), dmn) := None,
        ((RESERVE_FOR_AUTHORIZING, user_id p, t), dmn) \<mapsto> x),
        receipts := (receipts s)((dmn, user_id p) := None)\<rparr>"
    using assms by (auto simp: transfer_in_def Let_def and_then_Inr ensure_Inr ok_or_Inr get_reserve_def
        reserve_id_defs)
  obtain b where "r = Authorize t v b" using r(2) by (cases r) auto
  moreover obtain l where "leaves p = [l]" using ok
    by (auto simp: verify_transfer_in_def ensure_Inr length_Suc_conv)
  moreover from this ok have "fst (split_new_to_u128 l) = fst (split_old_to_u128 l) + v
      \<and> try_get_account c l = Inr (t, user_id p)"
    by (auto simp: verify_transfer_in_def Let_def ensure_Inr and_then_Inr split: prod.splits)
  ultimately show ?thesis
    using r(1) x by (simp add: s' checked_add_eq_Some get_reserve_def reserve_id_defs)
qed

text \<open>
  A transfer into the hands of a dominator needs the receipt of an authorisation of that amount
  and a leaf on which exactly the amount appears; it uses the receipt up, adds the amount to the
  authorised part, moves no balance, and empties the stash whatever it held.
\<close>

theorem transfer_in_exact:
  assumes "transfer_in c dmn p t v s = Inr s'"
  shows "(\<exists>b. receipts s (dmn, user_id p) = Some (Authorize t v b))
    \<and> receipts s' = (receipts s)((dmn, user_id p) := None)
    \<and> unat (get_reserve ((RESERVE_FOR_AUTHORIZING, user_id p, t), dmn) s')
        = unat (get_reserve ((RESERVE_FOR_AUTHORIZING, user_id p, t), dmn) s) + unat v
    \<and> get_reserve ((RESERVE_FOR_AUTHORIZING_STASH, user_id p, t), dmn) s' = 0
    \<and> world s' = world s \<and> dominators s' = dominators s
    \<and> (\<exists>l. leaves p = [l] \<and> fst (split_new_to_u128 l) = fst (split_old_to_u128 l) + v
        \<and> try_get_account c l = Inr (t, user_id p))"
  using assms by (rule transfer_in_exact_at)

theorem transfer_in_exact_witness:
  "\<exists>s s'. demo_runtime = Inr s \<and> transfer_in ref_config 9 demo_transfer_in 0 700 s = Inr s'
    \<and> unat (get_reserve ((RESERVE_FOR_AUTHORIZING, 6, 0), 9) s') = 700"
proof -
  obtain s d where s: "demo_runtime = Inr s" "receipts s (9, 6) = Some (Authorize 0 700 40)"
    "get_reserve ((RESERVE_FOR_AUTHORIZING, 6, 0), 9) s = 0"
    by (rule demo_runtime_facts)
  obtain s' where s': "transfer_in ref_config 9 demo_transfer_in 0 700 s = Inr s'"
    using s(2,3) by (auto simp: transfer_in_def demo_transfer_in_def verify_transfer_in_def Let_def
        get_reserve_def reserve_id_defs checked_add_code)
  have "user_id demo_transfer_in = 6" by (simp add: demo_transfer_in_def)
  then show ?thesis using transfer_in_exact [OF s'] s s' by auto
qed




text \<open>
  C15. When the dominator rejects an authorisation and the owner authorises again, the transfer that
  completes the second one empties the stash of both but adds only the second amount: what the
  rejected authorisation had put into the stash stays in the reserved balance and is recorded nowhere.
\<close>

theorem rejected_stash_is_lost:
  assumes reject: "reject_transfer_in dmn p s = Inr s1"
    and again: "authorize_to (runtime_config R dp) (user_id p) dmn t v s1 = Inr s2"
    and accept: "transfer_in (runtime_config R dp) dmn q t v s2 = Inr s3" and "user_id q = user_id p"
    and laws: "t = native_id (rt_token R) \<longrightarrow> balances_laws (currency (rt_token R))"
  shows "unat (get_reserve ((RESERVE_FOR_AUTHORIZING, user_id p, t), dmn) s3)
        = unat (get_reserve ((RESERVE_FOR_AUTHORIZING, user_id p, t), dmn) s) + unat v
    \<and> get_reserve ((RESERVE_FOR_AUTHORIZING_STASH, user_id p, t), dmn) s3 = 0
    \<and> unat (reserved_balance (rt_token R) t (user_id p) (world s3))
        = unat (reserved_balance (rt_token R) t (user_id p) (world s)) + unat v"
proof -
  let ?a = "user_id p"
  have good: "good_token (rt_token R) t" using laws by (simp add: good_token_def)
  have s1: "reserves s1 = reserves s" "world s1 = world s"
    using reject by (auto simp: reject_transfer_in_def ensure_Inr split: option.splits)
  obtain s' where s': "vf_reserve (runtime_config R dp) RESERVE_FOR_AUTHORIZING_STASH ?a t v dmn s1 = Inr s'"
    and s2: "reserves s2 = reserves s'" "world s2 = world s'"
    using again by (auto simp: authorize_to_def Let_def result_simps)
  have "reserves s' ((RESERVE_FOR_AUTHORIZING, ?a, t), dmn) = reserves s1 ((RESERVE_FOR_AUTHORIZING, ?a, t), dmn)"
    by (rule vf_reserve_Inr(8) [OF s']) (simp add: reserve_id_defs)
  then have auth: "get_reserve ((RESERVE_FOR_AUTHORIZING, ?a, t), dmn) s2
      = get_reserve ((RESERVE_FOR_AUTHORIZING, ?a, t), dmn) s"
    by (simp add: get_reserve_def s1 s2)
  have "unat (reserved_balance (rt_token R) t ?a (world s'))
      = unat (reserved_balance (rt_token R) t ?a (world s1)) + unat v"
  proof (cases "v = 0")
    case True
    with s' show ?thesis by (simp add: vf_reserve_def)
  next
    case False
    then have "reserve (rt_token R) t ?a v (world s1) = Inr (world s')"
      using s' by (auto simp: vf_reserve_def Let_def result_simps)
    then show ?thesis using reserve_moves [OF _ good] by fastforce
  qed
  then show ?thesis
    using transfer_in_exact_at [OF accept] auth assms(4) by (simp add: s1 s2)
qed

text \<open>Account 6 has 700 in the stash of dominator 9, which rejects; then 500 are authorised and accepted.\<close>

definition demo_stash :: "ref_native runtime_state" where
  "demo_stash = ref_runtime_state
    \<lparr>dominators := [(9, \<lparr>dom_name = [100, 101], dom_staked = 90000, merkle_root = [], dom_start = 40,
        dom_sequence = (0, 40), dom_status = DOMINATOR_ACTIVE\<rparr>)],
     reserves := [((RESERVE_FOR_AUTHORIZING_STASH, 6, 0), 9) \<mapsto> 700],
     receipts := [(9, 6) \<mapsto> Authorize 0 700 41],
     world := ref_world\<lparr>native := \<lparr>rn_accounts = (\<lambda>a. if a = 6 then (1000, 700) else (0, 0)), rn_issuance = 1700\<rparr>\<rparr>\<rparr>"

definition demo_accept :: proof_v2 where
  "demo_accept =
    demo_transfer_in\<lparr>cmd := TransferIn 0 500, leaves := [demo_leaf (account_key 6 0) (0, 0) (500, 0)]\<rparr>"

lemma demo_stash_runs:
  "\<exists>s1 s2 s3. reject_transfer_in 9 demo_accept demo_stash = Inr s1
    \<and> authorize_to ref_config 6 9 0 500 s1 = Inr s2 \<and> transfer_in ref_config 9 demo_accept 0 500 s2 = Inr s3"
proof -
  have user: "user_id demo_accept = 6" by (simp add: demo_accept_def demo_transfer_in_def)
  let ?s1 = "demo_stash\<lparr>receipts := (receipts demo_stash)((9, 6) := None)\<rparr>"
  have s1: "reject_transfer_in 9 demo_accept demo_stash = Inr ?s1"
    by (simp add: reject_transfer_in_def user demo_stash_def)
  have "\<exists>s'. vf_reserve ref_config RESERVE_FOR_AUTHORIZING_STASH 6 0 500 9 ?s1 = Inr s'"
    by (simp add: vf_reserve_def on_world_def reserve_def get_reserve_def checked_add_code checked_sub_def
        ref_runtime_def demo_stash_def)
  then obtain s' where s': "vf_reserve ref_config RESERVE_FOR_AUTHORIZING_STASH 6 0 500 9 ?s1 = Inr s'" by blast
  define s2 where "s2 = deposit_verifier (TokenHosted 6 9 0 500)
    (s'\<lparr>receipts := (receipts s')((9, 6) \<mapsto> Authorize 0 500 (current_block ref_config ?s1))\<rparr>)"
  have s2: "authorize_to ref_config 6 9 0 500 ?s1 = Inr s2"
    using s' by (simp add: authorize_to_def Let_def s2_def can_reserve_def)
      (simp add: demo_stash_def get_dominator_def ref_runtime_def)
  have "reserves s' ((RESERVE_FOR_AUTHORIZING, 6, 0), 9) = None"
    using vf_reserve_Inr(8) [OF s', of "((RESERVE_FOR_AUTHORIZING, 6, 0), 9)"]
    by (simp add: reserve_id_defs demo_stash_def)
  then have "get_reserve ((RESERVE_FOR_AUTHORIZING, 6, 0), 9) s2 = 0" by (simp add: s2_def get_reserve_def)
  then have "\<exists>s3. transfer_in ref_config 9 demo_accept 0 500 s2 = Inr s3"
    by (simp add: transfer_in_def user s2_def demo_accept_def demo_transfer_in_def
        verify_transfer_in_def Let_def get_reserve_def reserve_id_defs checked_add_code)
  with s1 s2 show ?thesis by blast
qed

theorem rejected_stash_is_lost_witness:
  "\<exists>s1 s2 s3. reject_transfer_in 9 demo_accept demo_stash = Inr s1
    \<and> authorize_to ref_config 6 9 0 500 s1 = Inr s2 \<and> transfer_in ref_config 9 demo_accept 0 500 s2 = Inr s3
    \<and> held 6 0 (reserves demo_stash) = 700
    \<and> unat (reserved_balance ref_token_config 0 6 (world s3)) = 1200
    \<and> unat (get_reserve ((RESERVE_FOR_AUTHORIZING, 6, 0), 9) s3) = 500
    \<and> get_reserve ((RESERVE_FOR_AUTHORIZING_STASH, 6, 0), 9) s3 = 0"
proof -
  have user: "user_id demo_accept = 6" by (simp add: demo_accept_def demo_transfer_in_def)
  obtain s1 s2 s3 where run: "reject_transfer_in 9 demo_accept demo_stash = Inr s1"
    "authorize_to ref_config 6 9 0 500 s1 = Inr s2" "transfer_in ref_config 9 demo_accept 0 500 s2 = Inr s3"
    using demo_stash_runs by blast
  have "held 6 0 (reserves demo_stash) = unat (700 :: u128)"
    using held_upd [of "\<lambda>_. None" 6 0 RESERVE_FOR_AUTHORIZING_STASH 6 0 9 "Some 700"]
    by (simp add: demo_stash_def held_def case_prod_unfold)
  then show ?thesis
    using rejected_stash_is_lost [OF run(1) _ run(3)] run ref_balances_laws
    by (simp add: user ref_runtime_def demo_stash_def get_reserve_def reserved_balance_def reserve_id_defs)
qed

end
