(* ===== verification/Staking_Correct.thy ===== *)
theory Staking_Correct
  imports Runtime_Correct
begin

text \<open>
  The theorems about seasons, shares and the schedule of delayed releases.
\<close>

section \<open>The block number\<close>

text \<open>No operation of the asset ledger touches the block number.\<close>

lemma asset_block:
  "try_mutate_account c t a f w = Inr w' \<Longrightarrow> block_number w' = block_number w"
  "reserve c t a v w = Inr w' \<Longrightarrow> block_number w' = block_number w"
  "unreserve c t a v w = Inr w' \<Longrightarrow> block_number w' = block_number w"
  by (auto simp: try_mutate_account_def reserve_def unreserve_def result_simps Let_def deposit_token_def
      split: if_splits)

lemma pay_shares_block:
  "pay_shares (runtime_config R dp) a shs s = Inr s' \<Longrightarrow> block_number (world s') = block_number (world s)"
proof (induction shs arbitrary: s)
  case (Cons p shs)
  obtain t v where p: "p = (t, v)" by (cases p)
  show ?case using Cons by (auto simp: p and_then_Inr on_world_Inr dest!: asset_block)
qed simp

lemma ledger_block:
  "vf_reserve (runtime_config R dp) rid a t v dmn s = Inr s' \<Longrightarrow> block_number (world s') = block_number (world s)"
  "vf_unreserve (runtime_config R dp) rid a t v dmn s = Inr s' \<Longrightarrow> block_number (world s') = block_number (world s)"
  by (auto simp: vf_reserve_def vf_unreserve_def Let_def result_simps dest!: asset_block split: if_splits)

lemma take_shares_block:
  "take_shares (runtime_config R dp) a dmn d s = Inr (x, s') \<Longrightarrow> block_number (world s') = block_number (world s)"
  by (auto simp: take_shares_def and_then_Inr dest: pay_shares_block split: if_splits)

lemma current_block_runtime [simp]: "current_block (runtime_config R dp) s = block_number (world s)"
  by (simp add: current_block_def)

section \<open>Seasons\<close>

text \<open>
  The season of a block is the one whose blocks contain it: it starts at or before the block and
  the next one starts after it.
\<close>

theorem season_contains_block:
  assumes "current_season c now start = Inr sn" and "start \<le> now"
    and len: "0 < season_duration (vc_params c)"
  shows "unat (start_block_of_season c start sn) \<le> unat now
    \<and> unat now < unat (start_block_of_season c start sn) + unat (season_duration (vc_params c))"
proof -
  let ?d = "season_duration (vc_params c)"
  have sn: "sn = (now - start) div ?d"
    using assms(1,2) len by (cases "now = start") (auto simp: current_season_def result_simps)
  have diff: "unat (now - start) = unat now - unat start" and le: "unat start \<le> unat now"
    using assms(2) by (simp_all add: unat_sub word_le_nat_alt)
  have pos: "0 < unat ?d" using len by (simp add: word_less_nat_alt)
  have prod: "unat sn * unat ?d \<le> unat now - unat start"
    by (simp add: sn unat_div diff)
  have bound: "unat now < 2 ^ 32" using unsigned_less [of now] by simp
  have "unat (sn * ?d) = unat sn * unat ?d"
    using prod bound by (intro unat_mult_lem [THEN iffD1]) simp
  moreover from this have "unat (start + sn * ?d) = unat start + unat sn * unat ?d"
    using prod bound le by (intro trans [OF unat_add_lem [THEN iffD1]]) simp_all
  moreover have "unat now - unat start < unat sn * unat ?d + unat ?d"
    using pos by (simp add: sn unat_div diff) (metis add.commute div_mult_mod_eq mod_less_divisor
        nat_add_left_cancel_less)
  ultimately show ?thesis
    using prod le by (auto simp: start_block_of_season_def sn)
qed

theorem season_contains_block_witness:
  "current_season (runtime_config ref_runtime (nested_dispatch ref_runtime 1)) 100000 40 = Inr 2
    \<and> unat (start_block_of_season (runtime_config ref_runtime (nested_dispatch ref_runtime 1)) 40 2) \<le> 100000"
proof -
  have "current_season (runtime_config ref_runtime (nested_dispatch ref_runtime 1)) 100000 40 = Inr 2"
    by (simp add: current_season_def word_div_def ref_runtime_def ref_verifier_params_def)
  then show ?thesis
    using season_contains_block [of "runtime_config ref_runtime (nested_dispatch ref_runtime 1)" 100000 40 2]
    by (simp add: ref_runtime_def ref_verifier_params_def)
qed

section \<open>Shares\<close>

text \<open>
  Claiming pays once: a second claim on the same dominator in the same block succeeds and changes
  nothing.
\<close>

theorem claim_shares_once:
  assumes "claim_shares (runtime_config R dp) o' src s = Inr s1"
  shows "claim_shares (runtime_config R dp) o' src s1 = Inr s1"
proof -
  let ?c = "runtime_config R dp"
  obtain a dmn d st sn x s0 where o': "o' = SignedOrigin a" and dmn: "lib_lookup (rt_libs R) src = Inr dmn"
    and d: "get_dominator dmn s = Some d" "dom_status d \<noteq> DOMINATOR_REGISTERED"
    and st: "stakings s (dmn, a) = Some st"
    and sn: "current_season ?c (block_number (world s)) (dom_start d) = Inr sn"
    and take: "take_shares ?c a dmn
      \<lparr>dist_from = from_season st, dist_to = sn, dist_staking = staking_amount st\<rparr> s = Inr (x, s0)"
    and s1: "s1 = s0\<lparr>stakings := (stakings s0)((dmn, a) \<mapsto> st\<lparr>from_season := x\<rparr>)\<rparr>"
    using assms by (auto simp: claim_shares_def result_simps)
  have w: "only_world s s0" and x: "x = sn" using take_shares_frame [OF take] by simp_all
  have "get_dominator dmn s1 = Some d"
    using d(1) only_worldD(4) [OF w] by (simp add: s1 get_dominator_def)
  moreover have "stakings s1 (dmn, a) = Some (st\<lparr>from_season := sn\<rparr>)" by (simp add: s1 x)
  moreover have "block_number (world s1) = block_number (world s)"
    using take_shares_block [OF take] by (simp add: s1)
  moreover have "s1\<lparr>stakings := (stakings s1)((dmn, a) \<mapsto> st\<lparr>from_season := sn\<rparr>)\<rparr> = s1"
    by (simp add: s1 x)
  ultimately show ?thesis
    using o' dmn d(2) sn by (simp add: claim_shares_def ensure_signed_def take_shares_def)
qed

text \<open>Account 5 has staked 90000 of 90000 on dominator 9 and 500 of token 3 were earned in season 0.\<close>

definition demo_season :: "ref_native runtime_state" where
  "demo_season = ref_runtime_state
    \<lparr>dominators := [(9, \<lparr>dom_name = [100, 101], dom_staked = 90000, merkle_root = [], dom_start = 40,
        dom_sequence = (0, 40), dom_status = DOMINATOR_ACTIVE\<rparr>)],
     stakings := [(9, 5) \<mapsto> \<lparr>from_season = 0, staking_amount = 90000\<rparr>],
     bonuses := (\<lambda>_. no_bonus)((9, 0) := \<lparr>bonus_staked = 90000, bonus_profit = [(3, 500)]\<rparr>),
     world := ref_world\<lparr>block_number := 50000\<rparr>\<rparr>"

lemma demo_claim:
  obtains s where "claim_shares (runtime_config ref_runtime (nested_dispatch ref_runtime 1)) (SignedOrigin 5) 9 demo_season = Inr s"
    and "free_balance ref_token_config 3 5 (world s) = 500"
proof -
  have "case claim_shares (runtime_config ref_runtime (nested_dispatch ref_runtime 1)) (SignedOrigin 5) 9 demo_season
      of Inl _ \<Rightarrow> False | Inr s \<Rightarrow> free_balance ref_token_config 3 5 (world s) = 500"
    by code_simp
  then show ?thesis using that by (auto split: sum.splits)
qed

theorem claim_shares_once_witness:
  "\<exists>s. claim_shares (runtime_config ref_runtime (nested_dispatch ref_runtime 1)) (SignedOrigin 5) 9 demo_season = Inr s
    \<and> free_balance ref_token_config 3 5 (world s) = 500
    \<and> claim_shares (runtime_config ref_runtime (nested_dispatch ref_runtime 1)) (SignedOrigin 5) 9 s = Inr s"
  using demo_claim claim_shares_once by metis

section \<open>The schedule of releases\<close>

lemma unstake_books:
  assumes run: "unstake_from (runtime_config R dp) a dmn v s = Inr s'"
    and grace: "unat (dominator_check_grace_period (rt_verifier R)) dvd 57600"
    and now: "unat (block_number (world s)) + 57600 < 2 ^ 32"
  shows "\<exists>u. u mod dominator_check_grace_period (rt_verifier R) = 0
    \<and> unat u \<le> unat (block_number (world s)) + 57600
    \<and> unat (block_number (world s)) + 57600 < unat u + unat (dominator_check_grace_period (rt_verifier R))
    \<and> pending_of a u s' = pending_of a u s + unat v
    \<and> (\<forall>x. x \<noteq> u \<longrightarrow> pending_unstakings s' x = pending_unstakings s x)
    \<and> unat (stake_of dmn a s) = unat (stake_of dmn a s') + unat v"
  using run
proof (cases rule: unstake_from_Inr)
  case (1 d tot st remain s1 s2 sn rm y s3)
  let ?g = "dominator_check_grace_period (rt_verifier R)" and ?b = "block_number (world s)"
  have b: "block_number (world s2) = ?b" using ledger_block 1(8,9) by metis
  have g: "?g \<noteq> 0" and rm: "rm = ?b mod ?g" using 1(11) by (simp_all add: b word_rem_Inr)
  define u where "u = ?b - rm + UNSTAKE_DELAY_BLOCKS"
  have delay: "unat UNSTAKE_DELAY_BLOCKS = 57600" by (simp add: UNSTAKE_DELAY_BLOCKS_def)
  have "unat (?b - rm) = unat ?b - unat ?b mod unat ?g"
    unfolding rm by (simp add: unat_sub word_le_nat_alt unat_mod)
  also have "\<dots> = unat ?g * (unat ?b div unat ?g)" by (simp add: minus_mod_eq_mult_div)
  finally have base: "unat (?b - rm) = unat ?g * (unat ?b div unat ?g)" .
  have le: "unat (?b - rm) \<le> unat ?b" unfolding base by simp
  have "unat (?b - rm) + unat UNSTAKE_DELAY_BLOCKS < 2 ^ LENGTH(32)" using now le delay by simp
  then have u: "unat u = unat ?g * (unat ?b div unat ?g) + 57600"
    unfolding u_def by (simp only: unat_add_fits base delay)
  have "unat (u mod ?g) = 0"
    using grace by (simp add: unat_mod u mod_add_eq [symmetric] dvd_eq_mod_eq_0)
  then have "u mod ?g = 0" by (simp only: unat_eq_0)
  moreover have "unat ?b < unat ?g * (unat ?b div unat ?g) + unat ?g"
    using g by (metis add.commute mod_less_divisor mult_div_mod_eq nat_add_left_cancel_less unat_gt_0)
  moreover have "pending_of a u s' = pending_of a u s + unat v"
    using 1(12,20) by (simp add: pending_of_def u_def b update_conv')
  moreover have "\<forall>x. x \<noteq> u \<longrightarrow> pending_unstakings s' x = pending_unstakings s x"
    using 1(20) by (simp add: u_def b)
  moreover have "stake_of dmn a s = staking_amount st" "stake_of dmn a s' = remain"
    using 1(5,15) by (simp_all add: stake_of_def no_staking_def)
  ultimately show ?thesis using u le base 1(6) by (intro exI [of _ u]) simp
qed

text \<open>
  An unstake takes the amount off the stake at once and books it for release: at the last multiple
  of the grace period plus the delay, which is itself such a multiple, so that the hook will visit it,
  no later than the delay from now and less than one grace period earlier. (The grace period divides
  the delay, and the block number is below the last 57600 of its range.)
\<close>

theorem unstake_schedules:
  assumes run: "unstake_from (runtime_config R dp) a dmn v s = Inr s'"
    and grace: "unat (dominator_check_grace_period (rt_verifier R)) dvd 57600"
    and now: "unat (block_number (world s)) + 57600 < 2 ^ 32"
  shows "\<exists>u. u mod dominator_check_grace_period (rt_verifier R) = 0
    \<and> unat u \<le> unat (block_number (world s)) + 57600
    \<and> unat (block_number (world s)) + 57600 < unat u + unat (dominator_check_grace_period (rt_verifier R))
    \<and> pending_of a u s' = pending_of a u s + unat v
    \<and> (\<forall>x. x \<noteq> u \<longrightarrow> pending_unstakings s' x = pending_unstakings s x)
    \<and> unat (stake_of dmn a s) = unat (stake_of dmn a s') + unat v"
  using assms by (rule unstake_books)

definition demo_unstake :: "ref_native runtime_state" where
  "demo_unstake = demo_season
    \<lparr>reserves := [((RESERVE_FOR_STAKING, 5, 0), 9) \<mapsto> 90000],
     world := ref_world\<lparr>block_number := 50000,
       native := \<lparr>rn_accounts = (\<lambda>a. if a = 5 then (0, 90000) else (0, 0)), rn_issuance = 90000\<rparr>\<rparr>\<rparr>"

theorem unstake_schedules_witness:
  "\<exists>s' u. unstake_from (runtime_config ref_runtime (nested_dispatch ref_runtime 1)) 5 9 10000 demo_unstake = Inr s'
    \<and> pending_of 5 u s' = pending_of 5 u demo_unstake + 10000 \<and> unat u \<le> 107600"
proof -
  let ?c = "runtime_config ref_runtime (nested_dispatch ref_runtime 1)"
  have "case unstake_from ?c 5 9 10000 demo_unstake of Inl _ \<Rightarrow> False | Inr s' \<Rightarrow> True" by code_simp
  then obtain s' where s': "unstake_from ?c 5 9 10000 demo_unstake = Inr s'" by (auto split: sum.splits)
  have b: "block_number (world demo_unstake) = 50000" by (simp add: demo_unstake_def)
  have g: "dominator_check_grace_period (rt_verifier ref_runtime) = 20"
    by (simp add: ref_runtime_def ref_verifier_params_def)
  obtain u where "pending_of 5 u s' = pending_of 5 u demo_unstake + unat (10000 :: u128)"
    and "unat u \<le> unat (50000 :: u32) + 57600"
    using unstake_schedules [OF s'] by (auto simp: b g)
  then show ?thesis using s' by (intro exI [of _ s'] exI [of _ u]) simp
qed

end
