(* ===== verification/Verifier_World.thy ===== *)
theory Verifier_World
  imports Verifier_Facts
begin

text \<open>
  The verifier changes the storage of other pallets only through their interfaces: it reserves and
  releases balances, writes accounts, calls the reward, market and price pallets, and dispatches the
  callbacks of receipts. The locales turn that into a rule: a relation on that storage which each of
  these keeps holds across every call of the verifier and across its block hook. \<open>ledger_frame\<close> is the
  part that no callback enters.
\<close>

locale ledger_frame =
  fixes c :: "('w, 'cb) verifier_config" and W :: "'w \<Rightarrow> 'w \<Rightarrow> bool"
  assumes W_refl: "W w w"
    and W_trans: "W w w' \<Longrightarrow> W w' w'' \<Longrightarrow> W w w''"
    and W_reserve: "as_reserve (vc_asset c) t a v w = Inr w' \<Longrightarrow> W w w'"
    and W_unreserve: "as_unreserve (vc_asset c) t a v w = Inr w' \<Longrightarrow> W w w'"
    and W_mutate: "as_try_mutate_account (vc_asset c) t a f w = Inr w' \<Longrightarrow> W w w'"
    and W_consume: "env_consume_liquidity (vc_env c) a p v b w = Inr w' \<Longrightarrow> W w w'"
    and W_put: "W w (env_put_liquidity (vc_env c) a p v b w)"
    and W_remove: "env_remove_liquidity (vc_env c) a p v w = Inr (u, w') \<Longrightarrow> W w w'"
    and W_price: "W w (env_set_price (vc_env c) t v q b w)"
    and W_market: "env_open_market (vc_env c) a t t' x y v w = Inr w' \<Longrightarrow> W w w'"
    and W_nonce: "W w (env_inc_account_nonce (vc_env c) a w)"
begin

abbreviation Q :: "('w, 'cb) verifier_state \<Rightarrow> ('w, 'cb) verifier_state \<Rightarrow> bool" where
  "Q s s' \<equiv> W (world s) (world s')"

lemma vf_reserve_world: "vf_reserve c rid a t v dmn s = Inr s' \<Longrightarrow> Q s s'"
  by (auto simp: vf_reserve_def Let_def result_simps W_refl intro: W_reserve split: if_splits)

lemma vf_unreserve_world: "vf_unreserve c rid a t v dmn s = Inr s' \<Longrightarrow> Q s s'"
  by (auto simp: vf_unreserve_def Let_def result_simps W_refl intro: W_unreserve split: if_splits)

lemma clear_world: "clear c a dmn t v s = Inr s' \<Longrightarrow> Q s s'"
  by (auto simp: clear_def Let_def result_simps intro: W_mutate)

lemma authorize_to_world: "authorize_to c a dmn t v s = Inr s' \<Longrightarrow> Q s s'"
  by (auto simp: authorize_to_def Let_def and_then_Inr ok_or_Inr ensure_Inr dest!: vf_reserve_world)

lemma merge_stash_world: "merge_stash a t dmn s = Inr s' \<Longrightarrow> world s' = world s"
  by (auto simp: merge_stash_def Let_def result_simps split: if_splits)

lemma revoke_from_world: "revoke_from c a dmn t x cb s = Inr s' \<Longrightarrow> Q s s'"
  by (auto simp: revoke_from_def Let_def and_then_Inr ok_or_Inr ensure_Inr W_refl
      dest!: vf_unreserve_world merge_stash_world split: if_splits)

end

locale world_frame = ledger_frame c W for c :: "('w, 'cb) verifier_config" and W +
  assumes W_callback: "vc_dispatch c cb a s = Inr s' \<Longrightarrow> W (world s) (world s')"
begin

section \<open>Staking\<close>

lemma pay_shares_world: "pay_shares c a shs s = Inr s' \<Longrightarrow> Q s s'"
proof (induction shs arbitrary: s)
  case (Cons p shs)
  obtain t v where p: "p = (t, v)" by (cases p)
  obtain w where w: "as_try_mutate_account (vc_asset c) t a (\<lambda>(x, y). Inr (x + v, y)) (world s) = Inr w"
    and run: "pay_shares c a shs (s\<lparr>world := w\<rparr>) = Inr s'"
    using Cons.prems(1) by (auto simp: p and_then_Inr on_world_Inr)
  show ?case using W_trans [OF W_mutate [OF w]] Cons.IH [OF run] by simp
qed (simp add: W_refl)

lemma take_shares_world: "take_shares c a d dist s = Inr (sn, s') \<Longrightarrow> Q s s'"
  by (auto simp: take_shares_def and_then_Inr W_refl split: if_splits dest: pay_shares_world)

lemma stake_on_world:
  assumes "stake_on c a dmn v s = Inr s'"
  shows "Q s s'"
  using assms
proof (cases rule: stake_on_Inr)
  case (1 d s1 sn s2)
  have "Q s1 s2" using 1(6) by (auto simp: Let_def W_refl split: if_splits dest: take_shares_world)
  then show ?thesis using W_trans [OF vf_reserve_world [OF 1(4)]] by (simp add: 1)
qed

lemma unstake_from_world:
  assumes "unstake_from c a dmn v s = Inr s'"
  shows "Q s s'"
  using assms
proof (cases rule: unstake_from_Inr)
  case (1 d tot st remain s1 s2 sn rm u s3)
  have "Q s2 s3" using 1(13) by (auto dest: take_shares_world)
  then show ?thesis
    using W_trans [OF W_trans [OF vf_unreserve_world [OF 1(8)] vf_reserve_world [OF 1(9)]]] by (simp add: 1)
qed

lemma claim_shares_world:
  assumes "claim_shares c o' src s = Inr s'"
  shows "Q s s'"
  using assms
proof (cases rule: claim_shares_Inr)
  case (1 a dmn d st sn x s1)
  then show ?thesis using take_shares_world [OF 1(4)] by simp
qed

lemma release_all_world: "release_all c rs s = Inr s' \<Longrightarrow> Q s s'"
proof (induction rs arbitrary: s)
  case (Cons p rs)
  obtain a v where p: "p = (a, v)" by (cases p)
  obtain s1 where run: "release_all c rs s1 = Inr s'"
    and s1: "s1 = s \<or> (\<exists>s0. vf_unreserve c RESERVE_FOR_PENDING_UNSTAKE a (native_token_id c) v
        (verifier_system_account (vc_params c)) s = Inr s0
      \<and> s1 = deposit_verifier (TaoUnstakeUnlock a v) s0)"
    using Cons.prems(1) unfolding p by (rule release_all_step)
  from s1 have "Q s s1" using vf_unreserve_world by (auto simp: W_refl)
  then show ?case using Cons.IH [OF run] by (rule W_trans)
qed (simp add: W_refl)

lemma on_initialize_world:
  assumes "on_initialize c now s = Inr s'"
  shows "Q s s'"
  using assms
proof (cases rule: on_initialize_Inr)
  case skip
  then show ?thesis by (simp add: W_refl)
next
  case (run s1)
  then show ?thesis using release_all_world [OF run(3)] by (simp add: only_bonusesD [OF close_seasons_frame [OF run(2)]])
qed

section \<open>Clearing\<close>

lemma settle_makers_world: "settle_makers c dmn base quote block ds s = Inr s' \<Longrightarrow> Q s s'"
proof (induction ds arbitrary: s)
  case (Cons d ds)
  obtain s1 s2 w where s1: "clear c (mk_who d) dmn base (mk_base_balance d) s = Inr s1"
    and s2: "clear c (mk_who d) dmn quote (mk_quote_balance d) s1 = Inr s2"
    and w: "env_consume_liquidity (vc_env c) (mk_who d) (base, quote) (mk_filled_volume d) block
        (world s2) = Inr w"
    and run: "settle_makers c dmn base quote block ds (s2\<lparr>world := w\<rparr>) = Inr s'"
    using Cons.prems(1) by (auto simp: and_then_Inr on_world_Inr)
  show ?case
    using W_trans [OF W_trans [OF W_trans [OF clear_world [OF s1] clear_world [OF s2]] W_consume [OF w]]]
      Cons.IH [OF run] by simp
qed (simp add: W_refl)

lemma pay_fee_world: "pay_fee c t a v s = Inr s' \<Longrightarrow> Q s s'"
  by (auto simp: pay_fee_def on_world_Inr intro: W_mutate)

lemma pay_base_fee_world:
  assumes "pay_base_fee c beneficiary bk base fee s = Inr s'"
  shows "Q s s'"
proof (cases "fee = 0")
  case True
  with assms show ?thesis by (simp add: pay_base_fee_def W_refl)
next
  case False
  show ?thesis
  proof (cases bk)
    case None
    with assms False show ?thesis by (simp add: pay_base_fee_def pay_fee_world)
  next
    case (Some b)
    then obtain a u v s1 where "pay_fee c base a u s = Inr s1" and "pay_fee c base beneficiary v s1 = Inr s'"
      using assms False by (auto simp: pay_base_fee_def Let_def and_then_Inr ok_or_Inr)
    then show ?thesis by (blast intro: W_trans pay_fee_world)
  qed
qed

lemma settle_world:
  assumes "settle c dmn beneficiary base quote bk block sn cr s = Inr s'"
  shows "Q s s'"
proof -
  let ?tk = "cr_taker cr"
  let ?put = "env_put_liquidity (vc_env c) (tk_who ?tk) (base, quote) (tk_unfilled_volume ?tk) block"
  obtain s1 s2 s3 where s1: "settle_makers c dmn base quote block (cr_makers cr) s = Inr s1"
    and s2: "clear c (tk_who ?tk) dmn base (tk_base_balance ?tk) s1 = Inr s2"
    and s3: "clear c (tk_who ?tk) dmn quote (tk_quote_balance ?tk) s2 = Inr s3"
    and s4: "pay_base_fee c beneficiary bk base (cr_base_fee cr) (put_profit dmn sn quote (cr_quote_fee cr)
        (s3\<lparr>world := ?put (world s3)\<rparr>)) = Inr s'"
    using assms by (auto simp: settle_def Let_def and_then_Inr)
  have "Q s s3"
    by (rule W_trans [OF W_trans [OF settle_makers_world [OF s1] clear_world [OF s2]] clear_world [OF s3]])
  moreover have "W (?put (world s3)) (world s')"
    using pay_base_fee_world [OF s4] by (simp add: put_profit_def split: if_splits)
  ultimately show ?thesis using W_put by (blast intro: W_trans)
qed

lemma orders_world:
  "ask_limit c dmn ben p block sn pr amount mf tf base quote bk s = Inr (cr, s') \<Longrightarrow> Q s s'"
  "bid_limit c dmn ben p block sn pr amount mf tf base quote bk s = Inr (cr, s') \<Longrightarrow> Q s s'"
  by (auto simp: ask_limit_def bid_limit_def Let_def and_then_Inr ensure_Inr intro: settle_world)

lemma cancel_order_world: "cancel_order c p base quote s = Inr s' \<Longrightarrow> Q s s'"
  by (auto simp: cancel_order_def and_then_Inr drop_error_Inr on_world_Inr W_refl intro: W_remove)

lemma run_callback_world: "run_callback c a r s = Inr s' \<Longrightarrow> Q s s'"
  by (cases r) (auto simp: drop_error_Inr W_refl intro: W_callback)

lemma transfer_out_world:
  assumes "transfer_out c dmn p t v s = Inr s'"
  shows "Q s s'"
proof -
  obtain r s1 where s1: "vf_unreserve c RESERVE_FOR_AUTHORIZING (user_id p) t v dmn s = Inr s1"
    and run: "run_callback c (user_id p) r (s1\<lparr>receipts := (receipts s1)((dmn, user_id p) := None)\<rparr>) = Inr s'"
    using assms by (auto simp: transfer_out_def and_then_Inr ensure_Inr)
  show ?thesis using W_trans [OF vf_unreserve_world [OF s1]] run_callback_world [OF run] by simp
qed

lemma transfer_rest_world:
  "transfer_in c dmn p t v s = Inr s' \<Longrightarrow> Q s s'"
  "reject_transfer_out c dmn p t v s = Inr s' \<Longrightarrow> Q s s'"
  "reject_transfer_in dmn p s = Inr s' \<Longrightarrow> Q s s'"
  "advance dmn p block tr s = Inr (tr', s') \<Longrightarrow> Q s s'"
  by (auto simp: transfer_in_def reject_transfer_out_def reject_transfer_in_def advance_def Let_def
      result_simps W_refl split: option.splits)

lemma verify_and_update_world:
  assumes "verify_and_update c dmn ben root claim_at p s = Inr (tr, s')"
  shows "Q s s'"
  using assms by (cases "cmd p")
    (auto simp: verify_and_update_def ensure_Inr and_then_Inr Let_def
      intro: W_trans [OF _ transfer_rest_world(4)] orders_world cancel_order_world transfer_out_world
        transfer_rest_world)

lemma verify_all_world:
  "verify_all c dmn ben claim_at ps (root, incr, s) = Inr (root', incr', s') \<Longrightarrow> Q s s'"
proof (induction ps arbitrary: root incr s)
  case Nil
  then show ?case by (simp add: W_refl)
next
  case (Cons p ps)
  then show ?case by (auto simp: and_then_Inr intro: W_trans [OF verify_and_update_world])
qed

lemma set_prices_world: "W w (fold (\<lambda>(t, b, q). env_set_price (vc_env c) t b q block) incr w)"
proof (induction incr arbitrary: w)
  case (Cons x incr)
  obtain t b q where x: "x = (t, b, q)" by (cases x)
  show ?case using W_trans [OF W_price Cons.IH] by (simp add: x)
qed (simp add: W_refl)

lemma verify_batch_world: "verify_batch c dmn ben d ps s = Inr s' \<Longrightarrow> Q s s'"
  by (auto simp: verify_batch_def and_then_Inr Let_def intro: W_trans [OF verify_all_world set_prices_world])

section \<open>Calls\<close>

lemma administration_world:
  "register c o' name s = Inr s' \<Longrightarrow> Q s s'"
  "evict c o' src s = Inr s' \<Longrightarrow> Q s s'"
  "launch c o' src s = Inr s' \<Longrightarrow> Q s s'"
  "dominator_set_pubkey o' key s = Inr s' \<Longrightarrow> Q s s'"
  "dominator_set_rpc_endpoint o' e s = Inr s' \<Longrightarrow> Q s s'"
  "vf_open_market c o' base quote bs qs mb s = Inr s' \<Longrightarrow> Q s s'"
proof -
  show "Q s s'" if "register c o' name s = Inr s'"
    using that by (auto simp: register_def Let_def result_simps W_refl)
  show "Q s s'" if "evict c o' src s = Inr s'"
    using that by (auto simp: evict_def result_simps W_refl)
  show "Q s s'" if "launch c o' src s = Inr s'"
    using that by (auto simp: launch_def result_simps W_refl)
  show "Q s s'" if "dominator_set_pubkey o' key s = Inr s'"
    using that by (auto simp: dominator_set_pubkey_def Let_def result_simps put_setting_def W_refl)
  show "Q s s'" if "dominator_set_rpc_endpoint o' e s = Inr s'"
    using that by (auto simp: dominator_set_rpc_endpoint_def Let_def result_simps put_setting_def W_refl)
  show "Q s s'" if "vf_open_market c o' base quote bs qs mb s = Inr s'"
    using that by (auto simp: vf_open_market_def result_simps intro: W_market)
qed

lemma validate_beneficiary_world: "validate_beneficiary c old sg new s = Inr s' \<Longrightarrow> Q s s'"
  by (auto simp: validate_beneficiary_def W_refl W_nonce split: option.splits if_splits)

lemma set_beneficiary_world:
  assumes "dominator_set_beneficiary c o' new sg s = Inr s'"
  shows "Q s s'"
proof -
  have put: "world (put_setting d x t) = world t" for d x and t :: "('w, 'cb) verifier_state"
    by (simp add: put_setting_def)
  obtain dmn where "get_dominator dmn s \<noteq> None" and run: "(case dominator_settings s dmn of
      Some x \<Rightarrow> and_then (validate_beneficiary c (set_beneficiary x) sg new s) (\<lambda>s.
        Inr (put_setting dmn (x\<lparr>set_beneficiary := Some new\<rparr>) s))
    | None \<Rightarrow> Inr (put_setting dmn
        \<lparr>set_beneficiary = Some new, x25519_pubkey = [], set_rpc_endpoint = []\<rparr> s)) = Inr s'"
    using assms by (auto simp: dominator_set_beneficiary_def and_then_Inr ensure_Inr)
  show ?thesis
    using run by (auto simp: and_then_Inr put W_refl dest!: validate_beneficiary_world split: option.splits)
qed

lemma call_world:
  assumes "run_verifier_call c call o' s = Inr s'"
  shows "Q s s'"
proof (cases call)
  case (CallVerifyCompress bs)
  with assms show ?thesis
    by (auto simp: verify_compress_def and_then_Inr split: prod.splits intro: verify_batch_world)
next
  case (CallVerify ps)
  with assms show ?thesis by (auto simp: verify_def and_then_Inr split: prod.splits intro: verify_batch_world)
next
  case (CallVerifyCompressV2 bs)
  with assms show ?thesis
    by (auto simp: verify_compress_v2_def and_then_Inr split: prod.splits intro: verify_batch_world)
next
  case (CallVerifyV2 ps)
  with assms show ?thesis by (auto simp: verify_v2_def and_then_Inr split: prod.splits intro: verify_batch_world)
qed (use assms administration_world set_beneficiary_world in \<open>auto simp: stake_def unstake_def authorize_def
    revoke_def revoke_with_callback_def and_then_Inr
    intro: stake_on_world unstake_from_world claim_shares_world authorize_to_world revoke_from_world\<close>)

end

end
