(* ===== verification/Bridge_Correct.thy ===== *)
theory Bridge_Correct
  imports Bridge Transition_Systems
begin

text \<open>
  What the bridge pallet promises. \<open>bridge_change\<close> lists the changes its operations make to its
  storage. Three facts hold along all of them: its books are consistent (\<open>bridge_books\<close>), a decided
  proposal is never touched again, and the storage follows an abstract election (\<open>election_step\<close>) in
  which each relayer votes once per proposal, a quorum passes it and an unreachable quorum fails it.
\<close>

section \<open>The changes of the bridge storage\<close>

definition same_bridge ::
  "('n, 'p, 'z) bridge_state_scheme \<Rightarrow> ('n, 'p, 'z) bridge_state_scheme \<Rightarrow> bool" where
  "same_bridge w w' \<longleftrightarrow> chain_nonces w' = chain_nonces w \<and> relayer_threshold w' = relayer_threshold w
    \<and> relayers w' = relayers w \<and> relayer_count w' = relayer_count w \<and> votes w' = votes w
    \<and> bridge_events w' = bridge_events w"

text \<open>The deposit nonce of a transfer out of the chain.\<close>

fun nonce_out :: "chain_id \<Rightarrow> bridge_event \<Rightarrow> u64 option" where
  "nonce_out ch (FungibleTransfer dest nonce _ _ _) = (if dest = ch then Some nonce else None)"
| "nonce_out ch (NonFungibleTransfer dest nonce _ _ _ _) = (if dest = ch then Some nonce else None)"
| "nonce_out ch (GenericTransfer dest nonce _ _) = (if dest = ch then Some nonce else None)"
| "nonce_out ch _ = None"

definition nonces_out :: "chain_id \<Rightarrow> bridge_event list \<Rightarrow> u64 list" where
  "nonces_out ch es = List.map_filter (nonce_out ch) es"

lemma nonces_out_simps [simp]:
  "nonces_out ch [] = []"
  "nonces_out ch (es @ [e]) = nonces_out ch es @ (case nonce_out ch e of None \<Rightarrow> [] | Some x \<Rightarrow> [x])"
  by (simp_all add: nonces_out_def List.map_filter_def split: option.splits)

inductive bridge_change ::
  "bridge_config \<Rightarrow> ('n, 'p, 'z) bridge_state_scheme \<Rightarrow> ('n, 'p, 'z) bridge_state_scheme \<Rightarrow> bool"
  for c :: bridge_config
  where
    bc_other: "same_bridge w w' \<Longrightarrow> bridge_change c w w'"
  | bc_threshold: "set_relayer_threshold t w = Inr w' \<Longrightarrow> bridge_change c w w'"
  | bc_join: "register_relayer a w = Inr w' \<Longrightarrow> bridge_change c w w'"
  | bc_leave: "unregister_relayer a w = Inr w' \<Longrightarrow> bridge_change c w w'"
  | bc_chain: "whitelist c ch w = Inr w' \<Longrightarrow> bridge_change c w w'"
  | bc_vote: "relayers w a \<Longrightarrow> commit_vote c a nonce src p fav w = Inr w' \<Longrightarrow> bridge_change c w w'"
  | bc_resolve: "votes w k = Some v \<Longrightarrow> \<not> is_complete v
      \<Longrightarrow> try_to_complete (relayer_threshold w) (relayer_count w) v = (st, v')
      \<Longrightarrow> bridge_change c w (put_votes k v' w)"
  | bc_event: "(\<And>ch. nonce_out ch e = None) \<Longrightarrow> bridge_change c w (deposit_bridge e w)"
  | bc_out: "transfer_fungible dest rid target x w = Inr w' \<Longrightarrow> bridge_change c w w'"

lemma same_bridge_refl [simp]: "same_bridge w w"
  by (simp add: same_bridge_def)

text \<open>The two operations that write votes, opened.\<close>

lemma commit_vote_cases:
  assumes "commit_vote c a nonce src p fav w = Inr w'"
  obtains v v' e where "votes w (src, nonce, p) = Some v \<or>
      votes w (src, nonce, p) = None \<and> v = fresh_votes\<lparr>expiry := block_number w + br_proposal_lifetime c\<rparr>"
    "\<not> is_complete v" "\<not> is_expired (block_number w) v" "a \<notin> set (votes_for v)" "a \<notin> set (votes_against v)"
    "v' = (if fav then v\<lparr>votes_for := votes_for v @ [a]\<rparr> else v\<lparr>votes_against := votes_against v @ [a]\<rparr>)"
    "w' = put_votes (src, nonce, p) v' (deposit_bridge e w)" "\<And>ch. nonce_out ch e = None"
proof -
  define v where "v = (case votes w (src, nonce, p) of Some v \<Rightarrow> v
    | None \<Rightarrow> fresh_votes\<lparr>expiry := block_number w + br_proposal_lifetime c\<rparr>)"
  have found: "votes w (src, nonce, p) = Some v \<or>
      votes w (src, nonce, p) = None \<and> v = fresh_votes\<lparr>expiry := block_number w + br_proposal_lifetime c\<rparr>"
    by (cases "votes w (src, nonce, p)") (simp_all add: v_def)
  have guards: "\<not> is_complete v" "\<not> is_expired (block_number w) v" "\<not> hash_voted a v"
    and run: "w' = put_votes (src, nonce, p)
      (if fav then v\<lparr>votes_for := votes_for v @ [a]\<rparr> else v\<lparr>votes_against := votes_against v @ [a]\<rparr>)
      (deposit_bridge (if fav then VoteFor src nonce a else VoteAgainst src nonce a) w)"
    using assms unfolding commit_vote_def Let_def ensure_Inr v_def [symmetric] by (cases fav, simp, simp)+
  show thesis
    by (rule that [OF found guards(1,2) _ _ refl run]) (use guards(3) in \<open>simp_all add: hash_voted_def\<close>)
qed

lemma try_to_complete_cases:
  assumes "try_to_complete th tot v = (st, v')"
  obtains (Approved) "st = Approved" "unat th \<le> length (votes_for v)" "v' = v\<lparr>pv_status := Approved\<rparr>"
  | (Rejected) "st = Rejected" "length (votes_for v) < unat th" "th \<le> tot"
      "tot < word_of_nat (length (votes_against v)) + th" "v' = v\<lparr>pv_status := Rejected\<rparr>"
  | (Open) "st = Initiated" "length (votes_for v) < unat th" "v' = v"
proof (cases "unat th \<le> length (votes_for v)")
  case True
  with assms Approved show thesis by (simp add: try_to_complete_def)
next
  case less: False
  show thesis
  proof (cases "th \<le> tot \<and> tot < word_of_nat (length (votes_against v)) + th")
    case True
    then show thesis using assms less Rejected by (simp add: try_to_complete_def not_le)
  next
    case False
    then have "st = Initiated" "v' = v" using assms less by (simp_all add: try_to_complete_def split: if_splits)
    then show thesis using less Open by simp
  qed
qed

section \<open>The books\<close>

definition votes_ok :: "proposal_votes \<Rightarrow> bool" where
  "votes_ok v \<longleftrightarrow> distinct (votes_for v @ votes_against v)
    \<and> (pv_status v = Approved \<longrightarrow> votes_for v \<noteq> []) \<and> (pv_status v = Rejected \<longrightarrow> votes_against v \<noteq> [])"

definition chain_books :: "('n, 'p, 'z) bridge_state_scheme \<Rightarrow> chain_id \<Rightarrow> bool" where
  "chain_books w ch \<longleftrightarrow>
    (let sent = nonces_out ch (bridge_events w)
     in case chain_nonces w ch of
          None \<Rightarrow> sent = []
        | Some x \<Rightarrow> x = word_of_nat (length sent) \<and> sent = List.map word_of_nat [1..<Suc (length sent)])"

definition proposal_books :: "('n, 'p, 'z) bridge_state_scheme \<Rightarrow> 'p proposal_key \<Rightarrow> bool" where
  "proposal_books w k \<longleftrightarrow>
    (case votes w k of None \<Rightarrow> True
     | Some v \<Rightarrow> votes_ok v \<and> length (votes_against v) \<le> length (bridge_events w))"

definition relayer_books :: "('n, 'p, 'z) bridge_state_scheme \<Rightarrow> bool" where
  "relayer_books w \<longleftrightarrow> finite (Collect (relayers w))
    \<and> relayer_count w = word_of_nat (card (Collect (relayers w)))
    \<and> card (Collect (relayers w)) \<le> length (bridge_events w)"

definition bridge_books :: "bridge_config \<Rightarrow> ('n, 'p, 'z) bridge_state_scheme \<Rightarrow> bool" where
  "bridge_books c w \<longleftrightarrow> 0 < relayer_threshold w \<and> chain_nonces w (br_chain_id c) = None
    \<and> relayer_books w \<and> (\<forall>k. proposal_books w k) \<and> (\<forall>ch. chain_books w ch)"

lemma bridge_booksI:
  assumes "0 < relayer_threshold w" "chain_nonces w (br_chain_id c) = None" "relayer_books w"
    "\<And>k. proposal_books w k" "\<And>ch. chain_books w ch"
  shows "bridge_books c w"
  using assms unfolding bridge_books_def by blast

lemma bridge_booksD:
  assumes "bridge_books c w"
  shows "0 < relayer_threshold w" "chain_nonces w (br_chain_id c) = None" "relayer_books w"
    "proposal_books w k" "chain_books w ch"
  using assms unfolding bridge_books_def by blast+

text \<open>Each kind of change and the part of the books it could spoil.\<close>

lemma votes_ok_fresh: "votes_ok (fresh_votes\<lparr>expiry := x\<rparr>)"
  by (simp add: votes_ok_def fresh_votes_def)

lemma vote_keeps_votes_ok:
  assumes "votes_ok v" "\<not> is_complete v" "a \<notin> set (votes_for v)" "a \<notin> set (votes_against v)"
  shows "votes_ok (if fav then v\<lparr>votes_for := votes_for v @ [a]\<rparr> else v\<lparr>votes_against := votes_against v @ [a]\<rparr>)"
  using assms by (auto simp: votes_ok_def is_complete_def)

lemma try_to_complete_votes_ok:
  assumes "try_to_complete th tot v = (st, v')" "votes_ok v" "\<not> is_complete v" "0 < th"
  shows "votes_ok v' \<and> votes_against v' = votes_against v"
  using assms(1)
proof (cases rule: try_to_complete_cases)
  case Approved
  then have "votes_for v \<noteq> []" using assms(4) by (auto simp: word_gt_0 unat_eq_zero)
  then show ?thesis using assms(2) Approved by (simp add: votes_ok_def)
next
  case Rejected
  then have "votes_against v \<noteq> []" by (auto simp: not_less)
  then show ?thesis using assms(2) Rejected by (simp add: votes_ok_def)
next
  case Open
  with assms(2) show ?thesis by simp
qed

lemma deposit_books:
  "relayer_books w \<Longrightarrow> relayer_books (deposit_bridge e w)"
  "proposal_books w k \<Longrightarrow> proposal_books (deposit_bridge e w) k"
  "chain_books w ch \<Longrightarrow> nonce_out ch e = None \<Longrightarrow> chain_books (deposit_bridge e w) ch"
  by (auto simp: relayer_books_def proposal_books_def chain_books_def deposit_bridge_def
      split: option.splits)


lemma put_votes_books:
  assumes "bridge_books c w" and "votes_ok v'"
    and "length (votes_against v') \<le> length (bridge_events w)"
  shows "bridge_books c (put_votes k v' w)"
proof (rule bridge_booksI)
  note books = bridge_booksD [OF assms(1)]
  show "proposal_books (put_votes k v' w) j" for j
    using assms(2,3) books(4) [of j] by (cases "j = k") (simp_all add: proposal_books_def put_votes_def split: option.splits)
  show "relayer_books (put_votes k v' w)"
    using books(3) by (simp add: relayer_books_def put_votes_def)
  show "chain_books (put_votes k v' w) ch" for ch
    using books(5) [of ch] by (simp add: chain_books_def put_votes_def)
qed (use bridge_booksD(1,2) [OF assms(1)] in \<open>simp_all add: put_votes_def\<close>)

lemma event_books:
  assumes "bridge_books c w" and "\<And>ch. nonce_out ch e = None"
  shows "bridge_books c (deposit_bridge e w)"
  by (rule bridge_booksI; (intro deposit_books)?)
    (use assms(2) bridge_booksD [OF assms(1)] in \<open>simp_all add: deposit_bridge_def\<close>)

lemma same_bridge_books:
  assumes "same_bridge w w'" and "bridge_books c w"
  shows "bridge_books c w'"
  using assms by (auto simp only: same_bridge_def bridge_books_def relayer_books_def proposal_books_def
      chain_books_def)

text \<open>A change of the relayers, the threshold or a chain, up to the event it leaves.\<close>

lemma books_with:
  assumes "bridge_books c w" and "votes w' = votes w" and "bridge_events w' = bridge_events w @ [e]"
    and "\<And>ch. nonce_out ch e = None" and "0 < relayer_threshold w'" and "relayer_books w'"
    and "chain_nonces w' = chain_nonces w"
  shows "bridge_books c w'"
proof (rule bridge_booksI)
  note books = bridge_booksD [OF assms(1)]
  show "proposal_books w' k" for k
    using books(4) [of k] assms(2,3) by (auto simp: proposal_books_def split: option.splits)
  show "chain_books w' ch" for ch
    using books(5) [of ch] assms(3,4,7) by (simp add: chain_books_def)
  show "chain_nonces w' (br_chain_id c) = None" using books(2) assms(7) by simp
qed (use assms in auto)

lemma relayer_join_books:
  assumes "register_relayer a w = Inr w'" and "relayer_books w"
  shows "relayer_books w'"
proof -
  have new: "\<not> relayers w a"
    and w': "w' = deposit_bridge (RelayerAdded a)
      (w\<lparr>relayers := (relayers w)(a := True), relayer_count := relayer_count w + 1\<rparr>)"
    using assms(1) by (auto simp: register_relayer_def ensure_Inr)
  have S: "Collect (relayers w') = insert a (Collect (relayers w))" by (auto simp: w' deposit_bridge_def)
  show ?thesis
    using assms(2) new unfolding relayer_books_def S
    by (simp add: w' deposit_bridge_def card_insert_if add.commute)
qed

lemma relayer_leave_books:
  assumes "unregister_relayer a w = Inr w'" and "relayer_books w"
  shows "relayer_books w'"
proof -
  have old: "relayers w a"
    and w': "w' = deposit_bridge (RelayerRemoved a)
      (w\<lparr>relayers := (relayers w)(a := False), relayer_count := relayer_count w - 1\<rparr>)"
    using assms(1) by (auto simp: unregister_relayer_def ensure_Inr)
  let ?S = "Collect (relayers w)"
  have S: "Collect (relayers w') = ?S - {a}" by (auto simp: w' deposit_bridge_def split: if_splits)
  have fin: "finite ?S" using assms(2) by (simp add: relayer_books_def)
  then have "card ?S \<noteq> 0" using old by auto
  then have "word_of_nat (card ?S) - 1 = (word_of_nat (card ?S - 1) :: u32)" by simp
  then show ?thesis
    using assms(2) old fin unfolding relayer_books_def S
    by (simp add: w' deposit_bridge_def card_Diff_singleton) linarith
qed

lemma chain_books_out:
  assumes "transfer_fungible dest rid target x w = Inr w'" and "chain_books w ch"
  shows "chain_books w' ch"
proof -
  obtain n where n: "chain_nonces w dest = Some n"
    and w': "w' = deposit_bridge (FungibleTransfer dest (n + 1) rid x target)
      (w\<lparr>chain_nonces := (chain_nonces w)(dest \<mapsto> n + 1)\<rparr>)"
    using assms(1)
    by (auto simp: transfer_fungible_def bump_nonce_def ensure_Inr Let_def chain_whitelisted_def)
  show ?thesis
  proof (cases "dest = ch")
    case True
    let ?l = "length (nonces_out ch (bridge_events w))"
    have l: "n = word_of_nat ?l" "nonces_out ch (bridge_events w) = List.map word_of_nat [1..<Suc ?l]"
      using assms(2) n True by (simp_all add: chain_books_def Let_def)
    have "nonces_out ch (bridge_events w) @ [n + 1] = List.map word_of_nat [1..<Suc (Suc ?l)]"
      using l by (simp add: add.commute)
    then show ?thesis using True l(1)
      by (simp add: w' chain_books_def deposit_bridge_def Let_def add.commute del: upt_Suc)
  next
    case False
    with assms(2) show ?thesis by (simp add: w' chain_books_def deposit_bridge_def)
  qed
qed

lemma out_other_books:
  assumes "transfer_fungible dest rid target x w = Inr w'"
  shows "relayer_books w \<Longrightarrow> relayer_books w'" "proposal_books w k \<Longrightarrow> proposal_books w' k"
    "relayer_threshold w' = relayer_threshold w"
    "chain_nonces w d = None \<Longrightarrow> chain_nonces w' d = None"
  using assms
  by (auto simp: transfer_fungible_def bump_nonce_def ensure_Inr Let_def chain_whitelisted_def
      relayer_books_def proposal_books_def deposit_bridge_def split: option.splits)

lemma vote_books:
  assumes "commit_vote c a nonce src p fav w = Inr w'" and "bridge_books c w"
  shows "bridge_books c w'"
  using assms(1)
proof (cases rule: commit_vote_cases)
  case (1 v v' e)
  have "votes_ok v \<and> length (votes_against v) \<le> length (bridge_events w)"
  proof (cases "votes w (src, nonce, p)")
    case None
    then show ?thesis using 1(1) by (simp add: votes_ok_fresh) (simp add: fresh_votes_def)
  next
    case (Some u)
    then show ?thesis using 1(1) bridge_booksD(4) [OF assms(2), of "(src, nonce, p)"] by (simp add: proposal_books_def)
  qed
  then have ok: "votes_ok v'" and len: "length (votes_against v') \<le> length (bridge_events (deposit_bridge e w))"
    using vote_keeps_votes_ok [of v a fav] 1(2,4,5) by (simp_all add: 1(6) deposit_bridge_def)
  show ?thesis unfolding 1(7) by (rule put_votes_books [OF event_books [OF assms(2) 1(8)] ok len])
qed

lemma bridge_change_books:
  assumes "bridge_change c w w'" and "bridge_books c w"
  shows "bridge_books c w'"
  using assms(1)
proof cases
  case bc_other
  then show ?thesis using assms(2) by (rule same_bridge_books)
next
  case (bc_threshold t)
  then show ?thesis
    using bridge_booksD(3) [OF assms(2)]
    by (intro books_with [OF assms(2), of _ "RelayerThresholdChanged t"])
      (auto simp: set_relayer_threshold_def ensure_Inr deposit_bridge_def relayer_books_def)
next
  case (bc_join a)
  then show ?thesis
    using bridge_booksD(1) [OF assms(2)] relayer_join_books [OF bc_join bridge_booksD(3) [OF assms(2)]]
    by (intro books_with [OF assms(2), of _ "RelayerAdded a"])
      (auto simp: register_relayer_def ensure_Inr deposit_bridge_def)
next
  case (bc_leave a)
  then show ?thesis
    using bridge_booksD(1) [OF assms(2)] relayer_leave_books [OF bc_leave bridge_booksD(3) [OF assms(2)]]
    by (intro books_with [OF assms(2), of _ "RelayerRemoved a"])
      (auto simp: unregister_relayer_def ensure_Inr deposit_bridge_def)
next
  case (bc_chain ch)
  then have ch: "ch \<noteq> br_chain_id c" "chain_nonces w ch = None"
    and w': "w' = deposit_bridge (ChainWhitelisted ch) (w\<lparr>chain_nonces := (chain_nonces w)(ch \<mapsto> 0)\<rparr>)"
    by (auto simp: whitelist_def ensure_Inr chain_whitelisted_def)
  note books = bridge_booksD [OF assms(2)]
  have "bridge_books c (w\<lparr>chain_nonces := (chain_nonces w)(ch \<mapsto> 0)\<rparr>)" (is "bridge_books c ?w")
  proof (rule bridge_booksI)
    show "proposal_books ?w k" for k using books(4) [of k] by (simp add: proposal_books_def split: option.splits)
    show "chain_books ?w d" for d
      using books(5) [of d] books(5) [of ch] ch(2)
      by (cases "d = ch") (simp_all add: chain_books_def Let_def split: option.splits)
    show "relayer_books ?w" using books(3) by (simp add: relayer_books_def)
  qed (use ch books(1,2) in auto)
  then show ?thesis unfolding w' by (rule event_books) simp
next
  case bc_vote
  show ?thesis by (rule vote_books [OF bc_vote(2) assms(2)])
next
  case (bc_resolve k v st v')
  have "votes_ok v" "length (votes_against v) \<le> length (bridge_events w)"
    using bc_resolve bridge_booksD(4) [OF assms(2), of k] by (simp_all add: proposal_books_def)
  then show ?thesis
    using try_to_complete_votes_ok [OF bc_resolve(4) _ bc_resolve(3) bridge_booksD(1) [OF assms(2)]]
      put_votes_books [OF assms(2)] bc_resolve(1) by simp
next
  case (bc_event e)
  then show ?thesis using event_books [OF assms(2)] by blast
next
  case (bc_out dest rid target x)
  note books = bridge_booksD [OF assms(2)]
  show ?thesis
    using books(1) out_other_books(1,3) [OF bc_out] books(3)
    by (intro bridge_booksI chain_books_out [OF bc_out books(5)] out_other_books(2,4) [OF bc_out] books(4,2)) auto
qed

lemma bridge_changes_books: "(bridge_change c)\<^sup>*\<^sup>* w w' \<Longrightarrow> bridge_books c w \<Longrightarrow> bridge_books c w'"
  by (induction rule: rtranclp_induct) (auto intro: bridge_change_books)


section \<open>A decided proposal stays decided\<close>

lemma bridge_change_decided:
  assumes "bridge_change c w w'" and "votes w k = Some v" and "is_complete v"
  shows "votes w' k = Some v"
  using assms(1)
proof cases
  case bc_other
  with assms(2) show ?thesis by (simp add: same_bridge_def)
next
  case (bc_vote a nonce src p fav)
  from bc_vote(2) show ?thesis
  proof (cases rule: commit_vote_cases)
    case (1 u v' e)
    then have "k \<noteq> (src, nonce, p)" using assms(2,3) by auto
    then show ?thesis using assms(2) by (simp add: 1(7) put_votes_def deposit_bridge_def)
  qed
next
  case (bc_resolve j u st v')
  then have "k \<noteq> j" using assms(2,3) by auto
  then show ?thesis using assms(2) by (simp add: bc_resolve(1) put_votes_def)
qed (use assms(2) in \<open>auto simp: set_relayer_threshold_def register_relayer_def unregister_relayer_def
    whitelist_def transfer_fungible_def bump_nonce_def Let_def ensure_Inr deposit_bridge_def\<close>)

lemma bridge_changes_decided:
  "(bridge_change c)\<^sup>*\<^sup>* w w' \<Longrightarrow> votes w k = Some v \<Longrightarrow> is_complete v \<Longrightarrow> votes w' k = Some v"
  by (induction rule: rtranclp_induct) (auto intro: bridge_change_decided)

section \<open>The abstract election\<close>

text \<open>
  A ballot fails when the quorum is out of reach: no set of electors that leaves out the opponents is large
  enough. An opponent who has left the electorate still counts, and then the ballot fails when the opponents
  outnumber the electors that a quorum can spare.
\<close>

datatype ballot = Open "account set" "account set" | Passed | Failed

record 'p election =
  electorate :: "account set"
  quorum :: nat
  ballots :: "'p proposal_key \<Rightarrow> ballot"

inductive election_step :: "'p election \<Rightarrow> 'p election \<Rightarrow> bool" where
  el_quorum: "0 < q \<Longrightarrow> election_step e (e\<lparr>quorum := q\<rparr>)"
| el_join: "a \<notin> electorate e \<Longrightarrow> election_step e (e\<lparr>electorate := insert a (electorate e)\<rparr>)"
| el_leave: "a \<in> electorate e \<Longrightarrow> election_step e (e\<lparr>electorate := electorate e - {a}\<rparr>)"
| el_yes: "ballots e k = Open y n \<Longrightarrow> a \<in> electorate e \<Longrightarrow> a \<notin> y \<union> n
    \<Longrightarrow> election_step e (e\<lparr>ballots := (ballots e)(k := Open (insert a y) n)\<rparr>)"
| el_no: "ballots e k = Open y n \<Longrightarrow> a \<in> electorate e \<Longrightarrow> a \<notin> y \<union> n
    \<Longrightarrow> election_step e (e\<lparr>ballots := (ballots e)(k := Open y (insert a n))\<rparr>)"
| el_pass: "ballots e k = Open y n \<Longrightarrow> quorum e \<le> card y
    \<Longrightarrow> election_step e (e\<lparr>ballots := (ballots e)(k := Passed)\<rparr>)"
| el_fail: "ballots e k = Open y n \<Longrightarrow> card y < quorum e \<Longrightarrow> quorum e \<le> card (electorate e)
    \<Longrightarrow> n \<subseteq> electorate e \<Longrightarrow> \<nexists>Y. Y \<subseteq> electorate e - n \<and> quorum e \<le> card Y
    \<Longrightarrow> election_step e (e\<lparr>ballots := (ballots e)(k := Failed)\<rparr>)"
| el_fail_left: "ballots e k = Open y n \<Longrightarrow> card y < quorum e \<Longrightarrow> quorum e \<le> card (electorate e)
    \<Longrightarrow> \<not> n \<subseteq> electorate e \<Longrightarrow> card (electorate e) - quorum e < card n
    \<Longrightarrow> election_step e (e\<lparr>ballots := (ballots e)(k := Failed)\<rparr>)"

definition ballot_of :: "proposal_votes option \<Rightarrow> ballot" where
  "ballot_of o' =
    (case o' of None \<Rightarrow> Open {} {}
     | Some v \<Rightarrow> (case pv_status v of Initiated \<Rightarrow> Open (set (votes_for v)) (set (votes_against v))
                  | Approved \<Rightarrow> Passed | Rejected \<Rightarrow> Failed))"

definition election_of :: "('n, 'p, 'z) bridge_state_scheme \<Rightarrow> 'p election" where
  "election_of w = \<lparr>electorate = Collect (relayers w), quorum = unat (relayer_threshold w),
                    ballots = (\<lambda>k. ballot_of (votes w k))\<rparr>"

lemma election_of_simps [simp]:
  "electorate (election_of w) = Collect (relayers w)" "quorum (election_of w) = unat (relayer_threshold w)"
  "ballots (election_of w) k = ballot_of (votes w k)"
  by (simp_all add: election_of_def)

lemma election_of_deposit [simp]: "election_of (deposit_bridge e w) = election_of w"
  by (simp add: election_of_def deposit_bridge_def)

lemma election_of_put_votes:
  "election_of (put_votes k v w) = (election_of w)\<lparr>ballots := (ballots (election_of w))(k := ballot_of (Some v))\<rparr>"
  by (auto simp: election_of_def put_votes_def)

text \<open>Counting the opponents says that the quorum is out of reach.\<close>

lemma reach_of_quorum:
  assumes "finite E" and "n \<subseteq> E"
  shows "(\<exists>Y. Y \<subseteq> E - n \<and> q \<le> card Y) \<longleftrightarrow> q + card n \<le> card E"
proof -
  have rest: "card (E - n) = card E - card n" "card n \<le> card E"
    using assms by (simp_all add: card_Diff_subset card_mono finite_subset)
  have "(\<exists>Y. Y \<subseteq> E - n \<and> q \<le> card Y) \<longleftrightarrow> q \<le> card (E - n)"
  proof
    assume "\<exists>Y. Y \<subseteq> E - n \<and> q \<le> card Y"
    then obtain Y where "Y \<subseteq> E - n" "q \<le> card Y" by blast
    then show "q \<le> card (E - n)" using card_mono [of "E - n" Y] assms(1) by simp
  qed (intro exI [of _ "E - n"], simp)
  also have "\<dots> \<longleftrightarrow> q + card n \<le> card E" using rest by linarith
  finally show ?thesis .
qed

lemma election_fails:
  assumes "ballots e k = Open y n" and "card y < quorum e" and "quorum e \<le> card (electorate e)"
    and "card (electorate e) < card n + quorum e" and "finite (electorate e)"
  shows "election_step e (e\<lparr>ballots := (ballots e)(k := Failed)\<rparr>)"
proof (cases "n \<subseteq> electorate e")
  case True
  moreover from this have "\<nexists>Y. Y \<subseteq> electorate e - n \<and> quorum e \<le> card Y"
    using reach_of_quorum [OF assms(5), of n "quorum e"] assms(4) by simp
  ultimately show ?thesis using assms(1-3) by (intro el_fail)
next
  case False
  have "card (electorate e) - quorum e < card n" using assms(3,4) by linarith
  with False show ?thesis using assms(1-3) by (intro el_fail_left)
qed

lemma unat_small: "n < 2 ^ 32 \<Longrightarrow> unat (word_of_nat n :: u32) = n"
  by (simp add: unat_of_nat)

lemma fail_word:
  assumes "th \<le> (tot :: u32)" "tot < word_of_nat m + th" "tot = word_of_nat n" "m < 2 ^ 31" "n < 2 ^ 31"
  shows "unat th \<le> n \<and> n < m + unat th"
proof -
  have n: "unat tot = n" using assms(3,5) by (simp add: unat_small)
  have th: "unat th \<le> n" using assms(1) n by (simp add: word_le_nat_alt)
  have m: "unat (word_of_nat m :: u32) = m" using assms(4) by (simp add: unat_small)
  have "unat (word_of_nat m + th :: u32) = m + unat th"
    using assms(4,5) th by (subst unat_add_lem [THEN iffD1]) (simp_all add: m)
  then show ?thesis using assms(2) n th by (simp add: word_less_nat_alt)
qed

lemma election_change:
  assumes "bridge_change c w w'" and "bridge_books c w" and "length (bridge_events w) < 2 ^ 31"
  shows "election_step\<^sup>=\<^sup>= (election_of w) (election_of w')"
  using assms(1)
proof cases
  case bc_other
  then show ?thesis by (simp add: same_bridge_def election_of_def)
next
  case (bc_threshold t)
  then have "0 < t" "election_of w' = (election_of w)\<lparr>quorum := unat t\<rparr>"
    by (auto simp: set_relayer_threshold_def ensure_Inr) (simp add: election_of_def)
  then show ?thesis by (auto simp: word_gt_0 unat_gt_0 intro: el_quorum)
next
  case (bc_join a)
  then have "a \<notin> electorate (election_of w)"
    "election_of w' = (election_of w)\<lparr>electorate := insert a (electorate (election_of w))\<rparr>"
    by (auto simp: register_relayer_def ensure_Inr) (auto simp: election_of_def split: if_splits)
  then show ?thesis using el_join by (elim ssubst) blast
next
  case (bc_leave a)
  then have "a \<in> electorate (election_of w)"
    "election_of w' = (election_of w)\<lparr>electorate := electorate (election_of w) - {a}\<rparr>"
    by (auto simp: unregister_relayer_def ensure_Inr) (auto simp: election_of_def split: if_splits)
  then show ?thesis using el_leave by (elim ssubst) blast
next
  case (bc_chain ch)
  then show ?thesis by (auto simp: whitelist_def ensure_Inr) (simp add: election_of_def)
next
  case (bc_vote a nonce src p fav)
  from bc_vote(2) show ?thesis
  proof (cases rule: commit_vote_cases)
    case (1 v v' e)
    let ?k = "(src, nonce, p)"
    have open_v: "ballots (election_of w) ?k = Open (set (votes_for v)) (set (votes_against v))"
      using 1(1,2) by (auto simp: ballot_of_def is_complete_def fresh_votes_def)
    have w': "election_of w' = (election_of w)\<lparr>ballots := (ballots (election_of w))(?k := ballot_of (Some v'))\<rparr>"
      by (simp add: 1(7) election_of_put_votes)
    have "ballot_of (Some v') = (if fav then Open (insert a (set (votes_for v))) (set (votes_against v))
        else Open (set (votes_for v)) (insert a (set (votes_against v))))"
      using 1(2) by (auto simp: 1(6) ballot_of_def is_complete_def split: proposal_status.splits)
    then show ?thesis
      using el_yes [OF open_v, of a] el_no [OF open_v, of a] bc_vote(1) 1(4,5) by (cases fav) (simp_all add: w')
  qed
next
  case (bc_resolve k v st v')
  have open_v: "ballots (election_of w) k = Open (set (votes_for v)) (set (votes_against v))"
    using bc_resolve(2,3) by (auto simp: ballot_of_def is_complete_def)
  have ok: "votes_ok v" "length (votes_against v) < 2 ^ 31"
    using bridge_booksD(4) [OF assms(2), of k] bc_resolve(2) assms(3) by (auto simp: proposal_books_def)
  then have card: "card (set (votes_for v)) = length (votes_for v)"
    "card (set (votes_against v)) = length (votes_against v)"
    by (simp_all add: votes_ok_def distinct_card)
  have w': "election_of w' = (election_of w)\<lparr>ballots := (ballots (election_of w))(k := ballot_of (Some v'))\<rparr>"
    by (simp add: bc_resolve(1) election_of_put_votes)
  from bc_resolve(4) show ?thesis
  proof (cases rule: try_to_complete_cases)
    case Approved
    then show ?thesis using el_pass [OF open_v] card(1) by (simp add: w' ballot_of_def)
  next
    case Rejected
    have "relayer_count w = word_of_nat (card (Collect (relayers w)))" "card (Collect (relayers w)) < 2 ^ 31"
      and "finite (electorate (election_of w))"
      using bridge_booksD(3) [OF assms(2)] assms(3) by (simp_all add: relayer_books_def)
    then show ?thesis
      using election_fails [OF open_v] fail_word [OF Rejected(3,4)] ok(2) card Rejected(2,5)
      by (simp add: w' ballot_of_def)
  next
    case Open
    then have "ballot_of (Some v') = ballots (election_of w) k"
      using bc_resolve(2) by simp
    then have "(ballots (election_of w))(k := ballot_of (Some v')) = ballots (election_of w)"
      by (rule fun_upd_idem [OF sym])
    then show ?thesis by (simp add: w')
  qed
next
  case (bc_event e)
  then show ?thesis by simp
next
  case (bc_out dest rid target x)
  then show ?thesis by (auto simp: transfer_fungible_def bump_nonce_def Let_def ensure_Inr) (simp add: election_of_def)
qed

lemma bridge_change_log: "bridge_change c w w' \<Longrightarrow> length (bridge_events w) \<le> length (bridge_events w')"
  by (induction rule: bridge_change.induct)
    (auto simp: same_bridge_def set_relayer_threshold_def register_relayer_def unregister_relayer_def whitelist_def
      transfer_fungible_def bump_nonce_def Let_def ensure_Inr deposit_bridge_def put_votes_def elim!: commit_vote_cases)

lemma election_changes:
  assumes "(bridge_change c)\<^sup>*\<^sup>* w w'" and "bridge_books c w" and "length (bridge_events w') < 2 ^ 31"
  shows "election_step\<^sup>*\<^sup>* (election_of w) (election_of w')"
  using assms(1,3)
proof (induction rule: rtranclp_induct)
  case (step u v)
  have "length (bridge_events u) < 2 ^ 31" using bridge_change_log [OF step(2)] step.prems by simp
  moreover have "bridge_books c u" using bridge_changes_books step(1) assms(2) by blast
  ultimately have "election_step\<^sup>=\<^sup>= (election_of u) (election_of v)" "election_step\<^sup>*\<^sup>* (election_of w) (election_of u)"
    using election_change [OF step(2)] step.IH by auto
  then show ?case by (elim sup2E) (auto intro: rtranclp.rtrancl_into_rtrancl)
qed simp

section \<open>The verdict on the votes\<close>

text \<open>
  C32. The arithmetic on the counters decides the vote as it should. When every voter is a current relayer,
  nobody has voted twice and there are fewer than 2^31 relayers, the verdict is: approved if enough have voted
  in favour; otherwise open exactly while the threshold is above the number of relayers or some set of relayers
  that contains the supporters and none of the opponents is large enough; otherwise rejected.
\<close>

theorem verdict_is_reachability:
  assumes "set (votes_for v) \<union> set (votes_against v) \<subseteq> S" and "finite S" and "card S < 2 ^ 31"
    and "distinct (votes_for v @ votes_against v)"
  shows "fst (try_to_complete th (word_of_nat (card S)) v) =
    (if unat th \<le> card (set (votes_for v)) then Approved
     else if card S < unat th
       \<or> (\<exists>Y. set (votes_for v) \<subseteq> Y \<and> Y \<subseteq> S - set (votes_against v) \<and> unat th \<le> card Y) then Initiated
     else Rejected)"
proof -
  let ?yes = "set (votes_for v)" and ?no = "set (votes_against v)"
  have yes: "card ?yes = length (votes_for v)" and no: "card ?no = length (votes_against v)"
    using assms(4) by (simp_all add: distinct_card)
  have rest: "card (S - ?no) = card S - card ?no" "card ?no \<le> card S"
    using assms(1,2) by (simp_all add: card_Diff_subset card_mono)
  have possible: "(\<exists>Y. ?yes \<subseteq> Y \<and> Y \<subseteq> S - ?no \<and> unat th \<le> card Y) \<longleftrightarrow> unat th \<le> card S - card ?no"
  proof
    assume "\<exists>Y. ?yes \<subseteq> Y \<and> Y \<subseteq> S - ?no \<and> unat th \<le> card Y"
    then obtain Y where "Y \<subseteq> S - ?no" "unat th \<le> card Y" by blast
    then have "unat th \<le> card (S - ?no)" using assms(2) card_mono by (metis finite_Diff le_trans)
    then show "unat th \<le> card S - card ?no" by (simp add: rest)
  next
    assume "unat th \<le> card S - card ?no"
    then show "\<exists>Y. ?yes \<subseteq> Y \<and> Y \<subseteq> S - ?no \<and> unat th \<le> card Y"
      using assms(1,4) rest(1) by (intro exI [of _ "S - ?no"]) auto
  qed
  have tot: "unat (word_of_nat (card S) :: u32) = card S" using assms(3) by (simp add: unat_small)
  have n: "unat (word_of_nat (length (votes_against v)) :: u32) = card ?no"
    using assms(3) rest(2) no by (simp add: unat_small)
  show ?thesis
  proof (cases "unat th \<le> card S")
    case True
    then have le: "th \<le> word_of_nat (card S)" using tot by (simp add: word_le_nat_alt)
    have "unat (word_of_nat (length (votes_against v)) + th :: u32) = card ?no + unat th"
      using n assms(3) rest(2) True by (subst unat_add_lem [THEN iffD1]) simp_all
    then have "word_of_nat (card S) < word_of_nat (length (votes_against v)) + th
        \<longleftrightarrow> \<not> unat th \<le> card S - card ?no"
      using tot rest(2) by (auto simp: word_less_nat_alt)
    then show ?thesis using le True by (simp add: try_to_complete_def possible yes)
  next
    case False
    then have "\<not> th \<le> word_of_nat (card S)" using tot by (simp add: word_le_nat_alt)
    then show ?thesis using False yes by (simp add: try_to_complete_def)
  qed
qed

theorem verdict_is_reachability_witness:
  "fst (try_to_complete 2 3 \<lparr>votes_for = [11], votes_against = [12, 13], pv_status = Initiated, expiry = 9\<rparr>) = Rejected
    \<and> fst (try_to_complete 2 3 \<lparr>votes_for = [11], votes_against = [12], pv_status = Initiated, expiry = 9\<rparr>) = Initiated"
proof -
  let ?S = "{11, 12, 13 :: account}"
  have S: "finite ?S" "card ?S = 3" by simp_all
  have "\<not> (\<exists>Y. set [11 :: account] \<subseteq> Y \<and> Y \<subseteq> ?S - set [12, 13] \<and> unat (2 :: u32) \<le> card Y)"
  proof
    assume "\<exists>Y. set [11 :: account] \<subseteq> Y \<and> Y \<subseteq> ?S - set [12, 13] \<and> unat (2 :: u32) \<le> card Y"
    then obtain Y where Y: "Y \<subseteq> ?S - set [12, 13]" "unat (2 :: u32) \<le> card Y" by blast
    have "Y \<subseteq> {11}" using Y(1) by auto
    then have "card Y \<le> card {11 :: account}" by (intro card_mono) auto
    with Y(2) show False by simp
  qed
  moreover have "\<exists>Y. set [11 :: account] \<subseteq> Y \<and> Y \<subseteq> ?S - set [12] \<and> unat (2 :: u32) \<le> card Y"
    by (rule exI [of _ "{11, 13}"]) auto
  ultimately show ?thesis
    using verdict_is_reachability [of "\<lparr>votes_for = [11], votes_against = [12, 13], pv_status = Initiated, expiry = 9\<rparr>" ?S 2]
      verdict_is_reachability [of "\<lparr>votes_for = [11], votes_against = [12], pv_status = Initiated, expiry = 9\<rparr>" ?S 2]
    by (simp add: S(2))
qed

end
