(* ===== verification/Ledger_Frame.thy ===== *)
theory Ledger_Frame
  imports Bridge_Handler Reward_Correct
begin

text \<open>
  What the ledgers (token, reward, market, indicator) do to the storage around them: their operations
  never touch the storage of the pallets above, and a transfer of a bridged token changes two balances.
\<close>

section \<open>The ledgers leave the upper storage alone\<close>

abbreviation same_upper :: "('n, 'z) oracle_state_scheme \<Rightarrow> ('n, 'z) oracle_state_scheme \<Rightarrow> bool" where
  "same_upper w w' \<equiv> oracle_state.more w' = oracle_state.more w"

named_theorems upper \<open>operations of the ledgers leave the upper storage\<close>

lemma transfer_token_upper [upper]: "transfer_token c a t v b w = Inr w' \<Longrightarrow> same_upper w w'"
  by (auto simp: transfer_token_def Let_def result_simps deposit_token_def split: if_splits)

lemma token_upper [upper]:
  "reserve c t a v w = Inr w' \<Longrightarrow> same_upper w w'"
  "unreserve c t a v w = Inr w' \<Longrightarrow> same_upper w w'"
  "try_mutate_account c t a f w = Inr w' \<Longrightarrow> same_upper w w'"
  "mint_into t a v w = Inr w' \<Longrightarrow> same_upper w w'"
  "burn_from t a v w = Inr (u, w') \<Longrightarrow> same_upper w w'"
  "try_mutate_issuance c t g w = Inr w' \<Longrightarrow> same_upper w w'"
  by (auto simp: reserve_def unreserve_def try_mutate_account_def mint_into_def do_mint_def burn_from_def
      do_burn_def try_mutate_issuance_def Let_def result_simps deposit_token_def split: if_splits)

lemma token_calls_upper [upper]:
  "transfer c o' t dest v w = Inr w' \<Longrightarrow> same_upper w w'"
  "issue c o' info w = Inr w' \<Longrightarrow> same_upper w w'"
  "mark_stable c o' t w = Inr w' \<Longrightarrow> same_upper w w'"
  "associate_token c o' ch ct t w = Inr w' \<Longrightarrow> same_upper w w'"
  by (auto simp: transfer_def issue_def create_def mark_stable_def associate_token_def Let_def result_simps
      deposit_token_def split: option.splits intro: transfer_token_upper)

lemma rotate_upper [upper]:
  "rotate_legacy_reward c at vol a w = Inr (x, w') \<Longrightarrow> same_upper w w'"
  "rotate_reward c at vol a w = Inr (x, w') \<Longrightarrow> same_upper w w'"
  by (auto simp: rotate_legacy_reward_def rotate_reward_def and_then_Inr)

lemma remove_liquidity_upper [upper]: "remove_liquidity a p v w = Inr (b, w') \<Longrightarrow> same_upper w w'"
  unfolding remove_liquidity_def by (cases "v = 0") (auto simp: result_simps)

lemma ledger_upper [simp]:
  "oracle_state.more (put_liquidity a p v b w) = oracle_state.more w"
  "oracle_state.more (set_price ar t v q b w) = oracle_state.more w"
  "oracle_state.more (deposit_reward e w) = oracle_state.more w"
  "oracle_state.more (deposit_market m w) = oracle_state.more w"
  by (simp_all add: put_liquidity_def set_price_def deposit_reward_def deposit_market_def Let_def)

lemma consume_liquidity_upper [upper]:
  assumes "consume_liquidity c a p v b w = Inr w'"
  shows "same_upper w w'"
proof (cases "remove_liquidity a p v w")
  case (Inl e)
  with assms show ?thesis by (simp add: consume_liquidity_def)
next
  case (Inr r)
  obtain fb s1 where r: "r = (fb, s1)" by (cases r)
  obtain be ct f g x where "rotate_reward c be ct a
      (s1\<lparr>taken_liquidity := f, trading_volumes := g\<rparr>) = Inr (x, w')"
    using assms Inr r by (auto simp: consume_liquidity_def Let_def and_then_Inr)
  then have "same_upper s1 w'" using rotate_upper(2) by fastforce
  with remove_liquidity_upper Inr r show ?thesis by metis
qed

lemma mint_native_upper [upper]: "mint_native c a v w = Inr w' \<Longrightarrow> same_upper w w'"
  by (auto simp: mint_native_def Let_def and_then_Inr dest!: token_upper)

lemma claim_upper [upper]:
  "claim_legacy_reward c a at w = Inr (v, w') \<Longrightarrow> same_upper w w'"
  "claim_reward c a at w = Inr (v, w') \<Longrightarrow> same_upper w w'"
  by (erule claim_legacy_reward_Inr claim_reward_Inr;
      auto dest!: rotate_upper mint_native_upper split: if_splits)+

lemma reward_calls_upper [upper]:
  "take_reward c o' w = Inr w' \<Longrightarrow> same_upper w w'"
  "set_era_rewards c o' v w = Inr w' \<Longrightarrow> same_upper w w'"
  by (auto simp: take_reward_def set_era_rewards_def Let_def result_simps dest!: claim_upper)

lemma market_upper [upper]:
  "open_market a t u x y v w = Inr w' \<Longrightarrow> same_upper w w'"
  "register_broker mc o' bk e name w = Inr w' \<Longrightarrow> same_upper w w'"
  "deregister_broker mc o' bk w = Inr w' \<Longrightarrow> same_upper w w'"
  "broker_set_rpc_endpoint o' bk e w = Inr w' \<Longrightarrow> same_upper w w'"
  "apply_for_token_listing mc o' d b q bs qs mb w = Inr w' \<Longrightarrow> same_upper w w'"
  by (auto simp: open_market_def register_broker_def deregister_broker_def broker_set_rpc_endpoint_def
      apply_for_token_listing_def register_market_def Let_def result_simps
      split: option.splits if_splits dest!: transfer_token_upper)

lemma upper_handler [upper]:
  "do_unlock c a b v w = Inr w' \<Longrightarrow> same_upper w w'"
  "do_mint_assets a v rid w = Inr w' \<Longrightarrow> same_upper w w'"
  "donate d a v b w = Inr w' \<Longrightarrow> same_upper w w'"
  by (auto simp: do_unlock_def do_mint_assets_def donate_def and_then_Inr drop_error_Inr split: if_splits
      intro: upper)

section \<open>A transfer of a bridged token\<close>

lemma transfer_moves:
  assumes "transfer_token c a t v b w = Inr w'" and "t \<noteq> native_id c" and "a \<noteq> b"
  shows "unat (free_balance c t a w) = unat (free_balance c t a w') + unat v"
    and "unat (free_balance c t b w') = unat (free_balance c t b w) + unat v"
    and "d \<noteq> a \<Longrightarrow> d \<noteq> b \<Longrightarrow> free_balance c t d w' = free_balance c t d w"
    and "tokens w' = tokens w"
  using assms
  by (auto simp: transfer_token_def Let_def result_simps free_balance_def get_token_balance_def
      deposit_token_def keep_alive_def no_account_def split: if_splits)

text \<open>The same with the two accounts equal: every balance, as an integer, moves by the amount.\<close>

lemma transfer_balances:
  assumes "transfer_token c a t v b w = Inr w'" and "t \<noteq> native_id c"
  shows "uint (free_balance c t d w')
    = uint (free_balance c t d w) - (if d = a then uint v else 0) + (if d = b then uint v else 0)"
proof (cases "a = b")
  case True
  then show ?thesis using assms by (auto simp: transfer_token_def split: if_splits)
next
  case False
  note moves = transfer_moves [OF assms False]
  consider "d = a" | "d = b" | "d \<noteq> a" "d \<noteq> b" by blast
  then show ?thesis
  proof cases
    case 1
    then show ?thesis using moves(1) False unfolding uint_nat by simp
  next
    case 2
    then show ?thesis using moves(2) False unfolding uint_nat by simp
  next
    case 3
    then show ?thesis using moves(3) [of d] by simp
  qed
qed

end
