(* ===== verification/Runtime_World.thy ===== *)
theory Runtime_World
  imports Runtime_Backing Verifier_World Bridge_Correct Ledger_Frame
begin

text \<open>
  What a call of the runtime can do to the storage of the bridge and of the bots. The ledgers below
  them (token, reward, market, indicator) never touch it, nor do the verifier and the agent. The
  relation \<open>world_change\<close> lists the changes that remain; \<open>runtime_step_world\<close> is the walk over every
  call, nested ones included, that shows there are no others.
\<close>

section \<open>The changes of the upper storage\<close>

lemma same_bridge_upper: "same_upper (w :: ('n, 'p, 'z) bridge_state_scheme) w' \<Longrightarrow> same_bridge w w'"
  by (cases w; cases w') (simp add: same_bridge_def)

lemma same_upperD:
  assumes "same_upper (w :: ('n, 'p, 'z) bot_state_scheme) w'"
  shows "same_bridge w w'" "bots w' = bots w"
  using assms by (cases w; cases w'; simp add: same_bridge_def)+

inductive world_change :: "'n runtime_params \<Rightarrow> 'n runtime_world \<Rightarrow> 'n runtime_world \<Rightarrow> bool"
  for R :: "'n runtime_params"
  where
    wc_bridge: "bridge_change (rt_bridge R) w w' \<Longrightarrow> bots w' = bots w \<Longrightarrow> world_change R w w'"
  | wc_register: "register_bot (bot_config_of R) a sy name mx mb mq desc w = Inr w' \<Longrightarrow> world_change R w w'"
  | wc_deposit: "bots w i = Some b \<Longrightarrow> bot_current_instance b + 1 \<le> bot_max_instance b
      \<Longrightarrow> world_change R w (w\<lparr>bots := (bots w)(i \<mapsto> add_user a b)\<rparr>)"

abbreviation world_changes :: "'n runtime_params \<Rightarrow> 'n runtime_world \<Rightarrow> 'n runtime_world \<Rightarrow> bool" where
  "world_changes R \<equiv> (world_change R)\<^sup>*\<^sup>*"

lemma wc_same: "same_bridge w w' \<Longrightarrow> bots w' = bots w \<Longrightarrow> world_changes R w w'"
  by (intro r_into_rtranclp wc_bridge bc_other)

lemma wc_upper: "same_upper w w' \<Longrightarrow> world_changes R w w'"
  by (intro wc_same same_upperD)

lemma wc_bridges: "bridge_change (rt_bridge R) w w' \<Longrightarrow> bots w' = bots w \<Longrightarrow> world_changes R w w'"
  by (intro r_into_rtranclp wc_bridge)

lemma wc_trans: "world_changes R w w' \<Longrightarrow> world_changes R w' w'' \<Longrightarrow> world_changes R w w''"
  by (rule rtranclp_trans)

lemma bots_bridge [simp]: "bots (deposit_bridge e w) = bots w" "bots (put_votes k v w) = bots w"
  by (simp_all add: deposit_bridge_def put_votes_def)

interpretation upper_frame: ledger_frame "runtime_config R dp" same_upper
  for R :: "'n runtime_params" and dp :: "'n runtime_dispatch"
  by unfold_locales (auto simp: inc_account_nonce_def dest: upper)

lemma world_frame_of:
  assumes "\<And>call a s s'. dp call a s = Inr s' \<Longrightarrow> world_changes R (world s) (world s')"
  shows "world_frame (runtime_config R dp) (world_changes R)"
  by unfold_locales (auto simp: inc_account_nonce_def intro: wc_trans wc_upper assms dest: upper)


section \<open>Every call of the runtime\<close>

locale world_calls =
  fixes R :: "'n runtime_params" and dp :: "'n runtime_dispatch"
  assumes dispatch_world: "dp call a s = Inr s' \<Longrightarrow> world_changes R (world s) (world s')"
begin

lemma frame: "world_frame (runtime_config R dp) (world_changes R)"
  by (rule world_frame_of) (rule dispatch_world)

lemma wc_on_world:
  "on_world f s = Inr s' \<Longrightarrow> (\<And>w. f (world s) = Inr w \<Longrightarrow> world_changes R (world s) w)
    \<Longrightarrow> world_changes R (world s) (world s')"
  by (auto simp: on_world_Inr)

lemma wc_on_upper:
  "on_world f s = Inr s' \<Longrightarrow> (\<And>w. f (world s) = Inr w \<Longrightarrow> same_upper (world s) w)
    \<Longrightarrow> world_changes R (world s) (world s')"
  by (auto simp: on_world_Inr intro: wc_upper)

lemma wc_emit: "(\<And>ch. nonce_out ch e = None) \<Longrightarrow> world_changes R (world s) (world (bridge_emit e s))"
  by (auto simp: bridge_emit_def intro!: wc_bridges bc_event)

lemma wc_resolve:
  assumes "try_resolve_proposal (rt_bridge R) dp nonce src p s = Inr s'"
  shows "world_changes R (world s) (world s')"
proof -
  obtain v st v' where v: "votes (world s) (src, nonce, p) = Some v" "\<not> is_complete v"
    and st: "try_to_complete (relayer_threshold (world s)) (relayer_count (world s)) v = (st, v')"
    using assms by (auto simp: try_resolve_proposal_def Let_def ensure_Inr split: option.splits prod.splits)
  let ?s = "s\<lparr>world := put_votes (src, nonce, p) v' (world s)\<rparr>"
  have put: "world_changes R (world s) (world ?s)"
    by (rule wc_bridges) (use bc_resolve [OF v st] in simp_all)
  show ?thesis
  proof (cases st)
    case Initiated
    with assms v st put show ?thesis by (auto simp: try_resolve_proposal_def Let_def ensure_Inr)
  next
    case Rejected
    then have "s' = bridge_emit (ProposalRejected src nonce) ?s"
      using assms v st by (auto simp: try_resolve_proposal_def Let_def ensure_Inr cancel_execution_def)
    then show ?thesis using wc_trans [OF put wc_emit] by simp
  next
    case Approved
    then obtain t where t: "dp p (br_account (rt_bridge R)) (bridge_emit (ProposalApproved src nonce) ?s) = Inr t"
      and s': "s' = bridge_emit (ProposalSucceeded src nonce) t"
      using assms v st by (auto simp: try_resolve_proposal_def Let_def result_simps finalize_execution_def)
    show ?thesis unfolding s'
      by (rule wc_trans [OF put wc_trans [OF wc_emit wc_trans [OF dispatch_world [OF t] wc_emit]]]) simp_all
  qed
qed

lemma wc_vote:
  assumes "on_world (commit_vote (rt_bridge R) a nonce src p fav) s = Inr s'" and "relayers (world s) a"
  shows "world_changes R (world s) (world s')"
proof -
  obtain w where w: "commit_vote (rt_bridge R) a nonce src p fav (world s) = Inr w" and s': "s' = s\<lparr>world := w\<rparr>"
    using assms(1) by (auto simp: on_world_Inr)
  have "bots w = bots (world s)" using w by (auto elim!: commit_vote_cases)
  then show ?thesis using bc_vote [OF assms(2) w] by (simp add: s' wc_bridges)
qed

lemma bridge_admin:
  "set_threshold b o' t w = Inr w' \<Longrightarrow> bridge_change b w w'"
  "set_resource b o' rid meth w = Inr w' \<Longrightarrow> bridge_change b w w'"
  "remove_resource b o' rid w = Inr w' \<Longrightarrow> bridge_change b w w'"
  "whitelist_chain b o' ch w = Inr w' \<Longrightarrow> bridge_change b w w'"
  "add_relayer b o' a w = Inr w' \<Longrightarrow> bridge_change b w w'"
  "remove_relayer b o' a w = Inr w' \<Longrightarrow> bridge_change b w w'"
  by (auto simp: set_threshold_def whitelist_chain_def add_relayer_def remove_relayer_def ensure_Inr
      intro: bc_threshold bc_chain bc_join bc_leave)
    (auto simp: set_resource_def register_resource_def remove_resource_def unregister_resource_def
      ensure_Inr and_then_Inr same_bridge_def intro!: bc_other)

lemma bots_admin:
  "set_threshold b o' t w = Inr w' \<Longrightarrow> bots w' = bots w"
  "set_resource b o' rid meth w = Inr w' \<Longrightarrow> bots w' = bots w"
  "remove_resource b o' rid w = Inr w' \<Longrightarrow> bots w' = bots w"
  "whitelist_chain b o' ch w = Inr w' \<Longrightarrow> bots w' = bots w"
  "add_relayer b o' a w = Inr w' \<Longrightarrow> bots w' = bots w"
  "remove_relayer b o' a w = Inr w' \<Longrightarrow> bots w' = bots w"
  "transfer_fungible dest rid target x w = Inr w' \<Longrightarrow> bots w' = bots w"
  by (auto simp: set_threshold_def set_relayer_threshold_def set_resource_def register_resource_def
      remove_resource_def unregister_resource_def whitelist_chain_def whitelist_def add_relayer_def
      register_relayer_def remove_relayer_def unregister_relayer_def transfer_fungible_def bump_nonce_def
      Let_def ensure_Inr and_then_Inr)

lemma wc_bridge_call:
  assumes "run_bridge_call (rt_bridge R) dp call o' s = Inr s'"
  shows "world_changes R (world s) (world s')"
proof (cases call)
  case (BridgeAcknowledge nonce src rid h p)
  then obtain a t where a: "relayers (world s) a"
    and t: "on_world (commit_vote (rt_bridge R) a nonce src p True) (bridge_emit (ProposalVote src h nonce) s) = Inr t"
    and r: "try_resolve_proposal (rt_bridge R) dp nonce src p t = Inr s'"
    using assms by (auto simp: acknowledge_proposal_def vote_for_def voter_of_def and_then_Inr ensure_Inr)
  show ?thesis
    by (rule wc_trans [OF wc_emit wc_trans [OF wc_vote [OF t] wc_resolve [OF r]]])
      (use a in \<open>simp_all add: bridge_emit_def deposit_bridge_def\<close>)
next
  case (BridgeReject nonce src rid p)
  then obtain a t where a: "relayers (world s) a"
    and t: "on_world (commit_vote (rt_bridge R) a nonce src p False) s = Inr t"
    and r: "try_resolve_proposal (rt_bridge R) dp nonce src p t = Inr s'"
    using assms by (auto simp: reject_proposal_def vote_against_def voter_of_def and_then_Inr ensure_Inr)
  show ?thesis by (rule wc_trans [OF wc_vote [OF t a] wc_resolve [OF r]])
next
  case (BridgeEval nonce src p)
  with assms show ?thesis by (auto simp: eval_vote_state_def and_then_Inr intro: wc_resolve)
qed (use assms in \<open>auto elim!: wc_on_world intro: wc_bridges bridge_admin bots_admin\<close>)

lemma wc_out: "transfer_fungible dest rid target x w = Inr w' \<Longrightarrow> world_changes R w w'"
  by (intro wc_bridges bc_out bots_admin)

lemma wc_token: "transfer_token c a t v b w = Inr w' \<Longrightarrow> world_changes R w w'"
  by (intro wc_upper upper)

lemma wc_burn: "burn_from t a v w = Inr (u, w') \<Longrightarrow> world_changes R w w'"
  by (intro wc_upper upper)

lemma wc_lock:
  assumes "do_lock c a v rid target dest w = Inr w'"
  shows "world_changes R w w'"
proof -
  obtain w1 w2 fee x where "transfer_token (hd_token c) a (native_id (hd_token c)) fee (br_treasury (hd_bridge c)) w = Inr w1"
    and "transfer_token (hd_token c) a (native_id (hd_token c)) (v - fee) (br_account (hd_bridge c)) w1 = Inr w2"
    and "transfer_fungible dest rid target x w2 = Inr w'"
    using assms by (auto simp: do_lock_def Let_def and_then_Inr ensure_Inr)
  then show ?thesis by (blast intro: wc_trans wc_token wc_out)
qed

lemma wc_burn_assets:
  assumes "do_burn_assets c a v rid target dest w = Inr w'"
  shows "world_changes R w w'"
proof -
  obtain t fee x y z w1 w2 where "transfer_token (hd_token c) a t fee (br_treasury (hd_bridge c)) w = Inr w1"
    and "burn_from t a x w1 = Inr (y, w2)" and "transfer_fungible dest rid target z w2 = Inr w'"
    using assms by (auto simp: do_burn_assets_def Let_def and_then_Inr ensure_Inr)
  then show ?thesis by (blast intro: wc_trans wc_token wc_burn wc_out)
qed

lemma wc_transfer_out:
  "bridge_transfer_out c o' v rid target dest w = Inr w' \<Longrightarrow> world_changes R w w'"
  by (auto simp: bridge_transfer_out_def and_then_Inr ensure_Inr split: if_splits intro: wc_lock wc_burn_assets)

lemma wc_handler_admin:
  "native_limit o' flag w = Inr w' \<Longrightarrow> world_changes R w w'"
  "associate_dominator c o' i dmn w = Inr w' \<Longrightarrow> world_changes R w w'"
  "remark c o' m x rid w = Inr w' \<Longrightarrow> world_changes R w w'"
  "update_bridge_fee c o' ch fee w = Inr w' \<Longrightarrow> world_changes R w w'"
  by (auto simp: native_limit_def associate_dominator_def remark_def update_bridge_fee_def and_then_Inr
      ensure_Inr same_bridge_def intro!: wc_same)

lemma wc_authorize: "authorize_to (runtime_config R dp) a dmn t v s = Inr s' \<Longrightarrow> world_changes R (world s) (world s')"
  by (intro wc_upper upper_frame.authorize_to_world)

lemma wc_transfer_in:
  assumes "bridge_transfer_in (handler_config_of R) (runtime_config R dp) o' a v rid s = Inr s'"
  shows "world_changes R (world s) (world s')"
proof -
  let ?h = "handler_config_of R"
  obtain s1 s2 i t where s1: "on_world (do_unlock ?h (br_account (rt_bridge R)) a v) s = Inr s1
      \<or> on_world (do_mint_assets a v rid) s = Inr s1"
    and s2: "authorize_associated ?h (runtime_config R dp) a v i t s1 = Inr s2"
    and s': "on_world (donate (rt_token R) (hd_donor ?h) (hd_donation ?h) a) s2 = Inr s'"
    using assms
    by (auto simp: bridge_transfer_in_def ensure_bridge_def and_then_Inr map_err_Inr
        split: if_splits origin.splits)
  have "world_changes R (world s) (world s1)"
    using s1 by (auto elim!: wc_on_upper intro: upper_handler)
  moreover have "world_changes R (world s1) (world s2)"
    using s2 by (auto simp: authorize_associated_def and_then_Inr drop_error_Inr split: option.splits
        intro: wc_authorize)
  moreover have "world_changes R (world s2) (world s')"
    using s' by (rule wc_on_upper) (rule upper_handler)
  ultimately show ?thesis by (blast intro: wc_trans)
qed

lemma wc_handler_call:
  "run_handler_call (handler_config_of R) (runtime_config R dp) call o' s = Inr s'
    \<Longrightarrow> world_changes R (world s) (world s')"
  by (cases call) (auto elim!: wc_on_world intro: wc_transfer_out wc_transfer_in wc_handler_admin)

text \<open>A deposit checks the instances of the bot before the transfers and counts the user after them.\<close>

lemma wc_bot_deposit:
  assumes "deposit_into_sub (bot_config_of R) (runtime_config R dp) a i dmn x y s = Inr s'"
  shows "world_changes R (world s) (world s')"
proof -
  let ?vc = "runtime_config R dp"
  obtain b where b: "bots (world s) i = Some b" "bot_current_instance b + 1 \<le> bot_max_instance b"
    using assms by (auto simp: deposit_into_sub_def and_then_Inr ok_or_Inr ensure_Inr)
  obtain base quote where "bot_symbol b = (base, quote)" by (cases "bot_symbol b")
  with assms b obtain d e s1 s2 s3 s4 bb where
    s1: "on_world (transfer_token (rt_token R) a base x d) s = Inr s1"
    and s2: "on_world (transfer_token (rt_token R) a quote y e) s1 = Inr s2"
    and s3: "authorize_to ?vc d dmn base x s2 = Inr s3" and s4: "authorize_to ?vc e dmn quote y s3 = Inr s4"
    and bb: "bots (world s4) i = Some bb"
    and s': "s' = s4\<lparr>world := (world s4)\<lparr>bots := (bots (world s4))(i \<mapsto> add_user a bb)\<rparr>\<rparr>"
    by (simp add: deposit_into_sub_def Let_def and_then_Inr ensure_Inr split: option.splits) blast
  have "same_upper (world s) (world s1)" "same_upper (world s1) (world s2)"
    using s1 s2 transfer_token_upper by (fastforce simp: on_world_Inr)+
  then have up: "same_upper (world s) (world s4)"
    using upper_frame.authorize_to_world [OF s3] upper_frame.authorize_to_world [OF s4] by simp
  then have "bb = b" using same_upperD(2) b(1) bb by fastforce
  then show ?thesis
    using wc_deposit [OF bb, where R = R and a = a] b(2) wc_upper [OF up]
    by (auto simp: s' intro: rtranclp.rtrancl_into_rtrancl)
qed

lemma wc_revoke: "revoke_from (runtime_config R dp) a dmn t x cb s = Inr s' \<Longrightarrow> world_changes R (world s) (world s')"
  by (intro wc_upper upper_frame.revoke_from_world)

lemma wc_bot_call:
  assumes "run_bot_call (bot_config_of R) (runtime_config R dp) call o' s = Inr s'"
  shows "world_changes R (world s) (world s')"
proof (cases call)
  case (BotRegister sy name mx mb mq desc)
  with assms obtain x w where "register_bot (bot_config_of R) x sy name mx mb mq desc (world s) = Inr w"
    and "s' = s\<lparr>world := w\<rparr>"
    by (auto simp: and_then_Inr on_world_Inr)
  then show ?thesis using r_into_rtranclp [of "world_change R", OF wc_register] by simp
next
  case (BotDeposit i dmn x y)
  with assms show ?thesis by (auto simp: and_then_Inr intro: wc_bot_deposit)
next
  case (BotRevoke i dmn t)
  with assms show ?thesis
    by (auto simp: revoke_to_sub_def Let_def case_prod_unfold and_then_Inr ok_or_Inr
        intro: wc_trans [OF wc_revoke wc_revoke])
next
  case (BotWithdraw i t)
  with assms show ?thesis
    by (auto simp: withdraw_from_sub_def Let_def case_prod_unfold and_then_Inr ok_or_Inr on_world_Inr
        intro: wc_trans [OF wc_token wc_token])
qed

lemma wc_agent:
  assumes "submit_external_tx c dp o' tx s = Inr s'"
  shows "world_changes R (world s) (world s')"
proof -
  have emit: "world_changes R (world t) (world (agent_emit a r t))" for a r t
    by (auto simp: agent_emit_def same_bridge_def intro!: wc_same)
  obtain a call nonce sg where "extract_signer c tx = Inr a" and "tx = Ecdsa call nonce sg"
    using assms by (auto simp: submit_external_tx_def and_then_Inr extract_signer_def
        split: external_verifiable.splits)
  then show ?thesis
    using assms emit wc_trans [OF dispatch_world emit]
    by (cases "dp call a s") (auto simp: submit_external_tx_def and_then_Inr split: if_splits)
qed

lemma wc_call:
  assumes "run_runtime_call R dp call o' s = Inr s'"
  shows "world_changes R (world s) (world s')"
proof (cases call)
  case (VerifierCall vc)
  with assms show ?thesis by (simp add: world_frame.call_world [OF frame])
next
  case (BridgeCall bc)
  with assms show ?thesis by (simp add: wc_bridge_call)
next
  case (HandlerCall hc)
  with assms show ?thesis by (simp add: wc_handler_call)
next
  case (BotCall bc)
  with assms show ?thesis by (simp add: wc_bot_call)
next
  case (AgentSubmit tx)
  with assms show ?thesis by (simp add: wc_agent)
qed (use assms in \<open>auto elim!: wc_on_upper intro: upper\<close>)

end

section \<open>Every step of the runtime\<close>

lemma nested_dispatch_world:
  "nested_dispatch R n call a s = Inr s' \<Longrightarrow> world_changes R (world s) (world s')"
proof (induction n arbitrary: call a s s')
  case (Suc n)
  then have run: "run_runtime_call R (nested_dispatch R n) call (SignedOrigin a) s = Inr s'" by simp
  show ?case by (rule world_calls.wc_call [OF world_calls.intro run]) (rule Suc.IH)
qed simp

interpretation runtime_world: world_calls R "nested_dispatch R n" for R :: "'n runtime_params" and n
  by unfold_locales (rule nested_dispatch_world)

lemma runtime_step_world:
  assumes "runtime_step R n s s'"
  shows "world_changes R (world s) (world s')"
  using assms
proof cases
  case (step_call call o')
  then show ?thesis by (rule runtime_world.wc_call)
next
  case (step_block now)
  have "world_changes R (world s) ((world s)\<lparr>block_number := now\<rparr>)" by (rule wc_upper) simp
  moreover have "world_changes R ((world s)\<lparr>block_number := now\<rparr>) (world s')"
    using world_frame.on_initialize_world [OF runtime_world.frame] step_block
    by (fastforce simp: begin_block_def)
  ultimately show ?thesis by (rule wc_trans)
next
  case (step_ledgers w)
  show ?thesis by (rule wc_upper) (simp add: step_ledgers)
qed

lemma runtime_steps_world: "(runtime_step R n)\<^sup>*\<^sup>* s s' \<Longrightarrow> world_changes R (world s) (world s')"
  by (induction rule: rtranclp_induct) (auto intro: wc_trans runtime_step_world)

end
