(* ===== verification/Bridge_Runtime.thy ===== *)
theory Bridge_Runtime
  imports Runtime_World Runtime_Correct
begin

text \<open>
  The theorems about the bridge in the composed runtime: its books, the nonces of outgoing transfers,
  the life of a proposal, the election it implements, and what an approved or failing call does.
\<close>

section \<open>A run of the bridge\<close>

text \<open>
  One block: account 901 sets the threshold to two, names the relayers 11 and 12, admits chain 1 and
  registers the native resource; account 5 sends 1000 out, of which the relayers bring 300 back to
  account 6. The second vote runs the transfer.
\<close>

declare ref_bridge_def [code] ref_handler_def [code]

definition demo_incoming :: runtime_call where
  "demo_incoming = HandlerCall (HandlerTransferIn 6 300 ref_native_resource)"

definition demo_bridge_block :: "(runtime_call \<times> origin) list" where
  "demo_bridge_block =
    [(BridgeCall (BridgeSetThreshold 2), SignedOrigin 901),
     (BridgeCall (BridgeAddRelayer 11), SignedOrigin 901),
     (BridgeCall (BridgeAddRelayer 12), SignedOrigin 902),
     (BridgeCall (BridgeWhitelistChain 1), SignedOrigin 901),
     (BridgeCall (BridgeSetResource ref_native_resource [1]), SignedOrigin 901),
     (HandlerCall (HandlerTransferOut 1000 ref_native_resource [7] 1), SignedOrigin 5),
     (BridgeCall (BridgeAcknowledge 3 1 ref_native_resource [] demo_incoming), SignedOrigin 11),
     (BridgeCall (BridgeAcknowledge 3 1 ref_native_resource [] demo_incoming), SignedOrigin 12)]"

definition demo_bridge :: "ref_native runtime_state result" where
  "demo_bridge = execute_block ref_runtime 1 41 demo_bridge_block ref_runtime_state"

lemma demo_bridge_state:
  "case demo_bridge of Inl _ \<Rightarrow> False
   | Inr s \<Rightarrow> votes (world s) (1, 3, demo_incoming)
        = Some \<lparr>votes_for = [11, 12], votes_against = [], pv_status = Approved, expiry = 28841\<rparr>
      \<and> chain_nonces (world s) 1 = Some 1 \<and> relayer_count (world s) = 2
      \<and> free_balance ref_token_config 0 900 (world s) = 700
      \<and> free_balance ref_token_config 0 6 (world s) = 1000300
      \<and> length (bridge_events (world s)) = 11"
  by code_simp


lemma ref_runtime_genesis: "runtime_genesis ref_runtime_state"
  by (simp add: runtime_genesis_def ref_runtime_state_def ref_world_def
      bot_state.extend_def handler_state.extend_def bridge_state.extend_def oracle_state.extend_def)

lemma ref_bridge_of: "rt_bridge ref_runtime = ref_bridge"
  by (simp add: ref_runtime_def)

lemma demo_bridge_run:
  obtains s where "demo_bridge = Inr s" "(runtime_step ref_runtime 1)\<^sup>*\<^sup>* ref_runtime_state s"
    "reachable runtime_genesis (runtime_step ref_runtime 1) s"
    "votes (world s) (1, 3, demo_incoming)
      = Some \<lparr>votes_for = [11, 12], votes_against = [], pv_status = Approved, expiry = 28841\<rparr>"
    "chain_nonces (world s) 1 = Some 1" "relayer_count (world s) = 2"
    "free_balance ref_token_config 0 6 (world s) = 1000300" "length (bridge_events (world s)) = 11"
proof -
  obtain s where s: "demo_bridge = Inr s" using demo_bridge_state by (auto split: sum.splits)
  have run: "(runtime_step ref_runtime 1)\<^sup>*\<^sup>* ref_runtime_state s"
    using s block_steps unfolding demo_bridge_def by blast
  have "reachable runtime_genesis (runtime_step ref_runtime 1) ref_runtime_state"
    using ref_runtime_genesis by (rule reachable_init)
  then have "reachable runtime_genesis (runtime_step ref_runtime 1) s" by (rule reachable_steps [OF run])
  then show thesis using that [OF s run] demo_bridge_state by (simp add: s)
qed

section \<open>The invariants\<close>

lemma genesis_books: "runtime_genesis s \<Longrightarrow> bridge_books b (world s)"
  by (simp add: runtime_genesis_def bridge_books_def relayer_books_def proposal_books_def chain_books_def
      DEFAULT_RELAYER_THRESHOLD_def)

lemma register_bot_bridge: "register_bot bc a sy name mx mb mq desc w = Inr w' \<Longrightarrow> same_bridge w w'"
  by (auto simp: register_bot_def Let_def and_then_Inr ensure_Inr same_bridge_def
      dest!: transfer_token_upper same_upperD(1))

lemma world_change_bridge: "world_change R w w' \<Longrightarrow> bridge_change (rt_bridge R) w w'"
  by (induction rule: world_change.induct)
    (auto intro: bc_other register_bot_bridge simp: same_bridge_def [of _ "bots_update _ _"])

lemma world_changes_bridge: "world_changes R w w' \<Longrightarrow> (bridge_change (rt_bridge R))\<^sup>*\<^sup>* w w'"
  by (induction rule: rtranclp_induct) (auto intro: rtranclp.rtrancl_into_rtrancl world_change_bridge)

lemma runtime_step_bridge: "runtime_step R n s s' \<Longrightarrow> (bridge_change (rt_bridge R))\<^sup>*\<^sup>* (world s) (world s')"
  by (intro world_changes_bridge runtime_step_world)

lemma runtime_steps_bridge:
  "(runtime_step R n)\<^sup>*\<^sup>* s s' \<Longrightarrow> (bridge_change (rt_bridge R))\<^sup>*\<^sup>* (world s) (world s')"
  by (intro world_changes_bridge runtime_steps_world)

interpretation bridge_system:
  invariant_system runtime_genesis "runtime_step R n" "\<lambda>s. bridge_books (rt_bridge R) (world s)"
  for R :: "'n runtime_params" and n
  by unfold_locales (auto intro: genesis_books bridge_changes_books runtime_step_bridge)


text \<open>
  C31. In every reachable state of the runtime the threshold is positive, the number of relayers is
  counted exactly (modulo 2^32), nobody has voted twice on a proposal or on both sides, a proposal
  is approved only with a vote for it and rejected only with one against it, and the chain itself is
  never a destination.
\<close>

theorem bridge_votes_wellformed:
  assumes "reachable runtime_genesis (runtime_step R n) s"
  shows "0 < relayer_threshold (world s)
    \<and> finite {a. relayers (world s) a}
    \<and> relayer_count (world s) = word_of_nat (card {a. relayers (world s) a})
    \<and> \<not> chain_whitelisted (br_chain_id (rt_bridge R)) (world s)
    \<and> (votes (world s) k = Some v \<longrightarrow> distinct (votes_for v @ votes_against v)
        \<and> (pv_status v = Approved \<longrightarrow> votes_for v \<noteq> [])
        \<and> (pv_status v = Rejected \<longrightarrow> votes_against v \<noteq> []))"
proof -
  note books = bridge_booksD [OF bridge_system.inv_reachable [OF assms]]
  show ?thesis
    using books(1-3) books(4) [of k]
    by (auto simp: relayer_books_def proposal_books_def votes_ok_def chain_whitelisted_def)
qed

theorem bridge_votes_wellformed_witness:
  "\<exists>s v. demo_bridge = Inr s \<and> votes (world s) (1, 3, demo_incoming) = Some v \<and> pv_status v = Approved
    \<and> distinct (votes_for v) \<and> relayer_count (world s) = 2 \<and> card {a. relayers (world s) a} mod 2 ^ 32 = 2"
proof -
  obtain s where s: "demo_bridge = Inr s" "(runtime_step ref_runtime 1)\<^sup>*\<^sup>* ref_runtime_state s"
      "reachable runtime_genesis (runtime_step ref_runtime 1) s"
    and v: "votes (world s) (1, 3, demo_incoming)
      = Some \<lparr>votes_for = [11, 12], votes_against = [], pv_status = Approved, expiry = 28841\<rparr>"
    and count: "relayer_count (world s) = 2"
    by (rule demo_bridge_run)
  note wf = bridge_votes_wellformed [OF s(3),
      of "(1, 3, demo_incoming)"]
  then have "unat (word_of_nat (card {a. relayers (world s) a}) :: u32) = unat (2 :: u32)" using count by auto
  then have "card {a. relayers (world s) a} mod 2 ^ 32 = 2" by (simp add: unat_of_nat)
  with s(1) v count wf show ?thesis by auto
qed

text \<open>
  C33. The deposit nonces of the transfers to each chain, in the order of their events, are exactly
  1, 2, 3 and so on, and the stored nonce is the number of transfers sent: no nonce is skipped or
  given twice, so a relayer on the other side can tell every transfer apart.
\<close>

theorem deposit_nonces_consecutive:
  assumes "reachable runtime_genesis (runtime_step R n) s"
  shows "nonces_out ch (bridge_events (world s))
      = List.map word_of_nat [1..<Suc (length (nonces_out ch (bridge_events (world s))))]
    \<and> (case chain_nonces (world s) ch of
         None \<Rightarrow> nonces_out ch (bridge_events (world s)) = []
       | Some x \<Rightarrow> x = word_of_nat (length (nonces_out ch (bridge_events (world s)))))"
  using bridge_booksD(5) [OF bridge_system.inv_reachable [OF assms], of ch]
  by (auto simp: chain_books_def Let_def split: option.splits)

theorem deposit_nonces_consecutive_witness:
  "\<exists>s. demo_bridge = Inr s \<and> nonces_out 1 (bridge_events (world s))
      = List.map word_of_nat [1..<Suc (length (nonces_out 1 (bridge_events (world s))))]
    \<and> word_of_nat (length (nonces_out 1 (bridge_events (world s)))) = (1 :: u64)"
proof -
  obtain s where s: "demo_bridge = Inr s" "(runtime_step ref_runtime 1)\<^sup>*\<^sup>* ref_runtime_state s"
      "reachable runtime_genesis (runtime_step ref_runtime 1) s"
    and x: "chain_nonces (world s) 1 = Some 1"
    by (rule demo_bridge_run)
  show ?thesis
    using deposit_nonces_consecutive [OF s(3), of 1]
      s(1) x by auto
qed

section \<open>The life of a proposal\<close>

lemma decided_refused:
  assumes "votes (world s) (src, nonce, p) = Some v" and "is_complete v"
  shows "try_resolve_proposal b dp nonce src p s = Inl (BridgeError ProposalAlreadyComplete)"
    and "commit_vote b a nonce src p fav (world s) = Inl (BridgeError ProposalAlreadyComplete)"
  using assms by (simp_all add: try_resolve_proposal_def commit_vote_def ensure_def Let_def)

text \<open>
  C17. A decided proposal is final: once it is approved or rejected, its record is the same after any
  number of further steps of the runtime, an evaluation of it fails, and so does every vote on it,
  for and against. An approved call therefore runs at most once, also when it votes itself.
\<close>

theorem proposal_decided_once:
  assumes "(runtime_step R n)\<^sup>*\<^sup>* s s'"
    and "votes (world s) (src, nonce, p) = Some v" and "is_complete v"
  shows "votes (world s') (src, nonce, p) = Some v
    \<and> eval_vote_state (rt_bridge R) dp (SignedOrigin a) nonce src p s' = Inl (BridgeError ProposalAlreadyComplete)
    \<and> (\<forall>t. acknowledge_proposal (rt_bridge R) dp o' nonce src rid h p s' \<noteq> Inr t)
    \<and> (\<forall>t. reject_proposal (rt_bridge R) dp o' nonce src rid p s' \<noteq> Inr t)"
proof -
  have v: "votes (world s') (src, nonce, p) = Some v"
    using bridge_changes_decided [OF runtime_steps_bridge [OF assms(1)] assms(2,3)] .
  have v': "votes (world (bridge_emit e s')) (src, nonce, p) = Some v" for e
    using v by (simp add: bridge_emit_def deposit_bridge_def)
  show ?thesis
    using v decided_refused [OF v assms(3)] decided_refused(2) [OF v' assms(3)]
    by (auto simp: eval_vote_state_def ensure_signed_def acknowledge_proposal_def reject_proposal_def
        vote_for_def vote_against_def and_then_Inr on_world_Inr)
qed

theorem proposal_decided_once_witness:
  "\<exists>s. demo_bridge = Inr s \<and> (\<forall>t. acknowledge_proposal ref_bridge (nested_dispatch ref_runtime 1)
      (SignedOrigin 11) 3 1 ref_native_resource [] demo_incoming s \<noteq> Inr t)"
proof -
  obtain s where s: "demo_bridge = Inr s"
    and v: "votes (world s) (1, 3, demo_incoming)
      = Some \<lparr>votes_for = [11, 12], votes_against = [], pv_status = Approved, expiry = 28841\<rparr>"
    by (rule demo_bridge_run)
  have "\<forall>t. acknowledge_proposal ref_bridge (nested_dispatch ref_runtime 1)
      (SignedOrigin 11) 3 1 ref_native_resource [] demo_incoming s \<noteq> Inr t"
    using proposal_decided_once [OF rtranclp.rtrancl_refl [of "runtime_step ref_runtime 1"] v]
    unfolding ref_bridge_of by (simp add: is_complete_def)
  with s show ?thesis by blast
qed

text \<open>
  C16. The bridge implements an election. Seen as the set of relayers, the quorum and a ballot per
  proposal (who is for it, who against it, passed or failed), every run of the runtime is a run of the
  abstract election: relayers vote once, a ballot passes when its supporters reach the quorum, and fails
  only when no set of relayers without its opponents is large enough for the quorum or, if an opponent has
  been removed since, when the opponents outnumber the relayers that a quorum can spare (votes of removed
  relayers keep counting, for and against). The bound on the event log keeps the 32-bit counters from
  wrapping.
\<close>

theorem bridge_refines_election:
  assumes "reachable runtime_genesis (runtime_step R n) s" and "(runtime_step R n)\<^sup>*\<^sup>* s s'"
    and "length (bridge_events (world s')) < 2 ^ 31"
  shows "election_step\<^sup>*\<^sup>* (election_of (world s)) (election_of (world s'))"
  using assms by (intro election_changes [OF runtime_steps_bridge] bridge_system.inv_reachable) auto

theorem bridge_refines_election_witness:
  "\<exists>s. demo_bridge = Inr s \<and> election_step\<^sup>*\<^sup>* (election_of ref_world) (election_of (world s))
    \<and> ballots (election_of ref_world) (1, 3, demo_incoming) = Open {} {}
    \<and> ballots (election_of (world s)) (1, 3, demo_incoming) = Passed"
proof -
  obtain s where s: "demo_bridge = Inr s" "(runtime_step ref_runtime 1)\<^sup>*\<^sup>* ref_runtime_state s"
      "reachable runtime_genesis (runtime_step ref_runtime 1) s"
    and v: "votes (world s) (1, 3, demo_incoming)
      = Some \<lparr>votes_for = [11, 12], votes_against = [], pv_status = Approved, expiry = 28841\<rparr>"
    and len: "length (bridge_events (world s)) = 11"
    by (rule demo_bridge_run)
  have init: "reachable runtime_genesis (runtime_step ref_runtime 1) ref_runtime_state"
    using ref_runtime_genesis by (rule reachable_init)
  have none: "votes ref_world (1, 3, demo_incoming) = None" "world ref_runtime_state = ref_world"
    using ref_runtime_genesis by (simp_all add: runtime_genesis_def ref_runtime_state_def)
  show ?thesis
    by (rule exI [of _ s])
      (use bridge_refines_election [OF init s(2)] s(1) v len none in \<open>simp add: ballot_of_def\<close>)
qed

end
