(* ===== verification/Handler_Correct.thy ===== *)
theory Handler_Correct
  imports Runtime_World Runtime_Correct
begin

text \<open>
  What a transfer out of the chain costs: the sender loses exactly the amount, split between the fee,
  which the treasury gets, and the amount the other chain pays out, which is burnt.
\<close>

section \<open>Rounding\<close>

text \<open>Converting to the decimals of the other chain and back rounds down, also when it wraps.\<close>

lemma standard_external_le: "transform_decimals_to_standard (transform_decimals_to_external a d) d \<le> a"
proof (cases "STANDARD_DECIMALS < d")
  case True
  let ?p = "10 ^ unat (d - STANDARD_DECIMALS) :: nat"
  have "(unat a * ?p mod 2 ^ 128) div ?p \<le> unat a * ?p div ?p" by (intro div_le_mono) simp
  then show ?thesis
    using True by (simp add: transform_decimals_to_standard_def transform_decimals_to_external_def
        word_le_nat_alt shrink10_unat grow10_unat)
next
  case False
  let ?p = "10 ^ unat (STANDARD_DECIMALS - d) :: nat"
  have "unat a div ?p * ?p mod 2 ^ 128 \<le> unat a" by (rule le_trans [OF mod_less_eq_dividend]) simp
  then show ?thesis
    using False by (simp add: transform_decimals_to_standard_def transform_decimals_to_external_def
        word_le_nat_alt shrink10_unat grow10_unat)
qed

section \<open>The burn\<close>

lemma burn_moves:
  assumes "burn_from t a x w = Inr (y, w')" and "t \<noteq> native_id c"
    and "tokens w t = Some info" and "xtoken_decimals info = Some d"
  shows "unat (free_balance c t a w) = unat (free_balance c t a w') + unat (transform_decimals_to_standard x d)"
    and "b \<noteq> a \<Longrightarrow> free_balance c t b w' = free_balance c t b w"
    and "unat (total_issuance c t w) = unat (total_issuance c t w') + unat (transform_decimals_to_standard x d)"
proof -
  obtain info' u acc fr where u: "burn_total x info = Inr (info', u)"
    and acc: "token_balances w (t, a) = Some acc" "unat (acc_free acc) = unat u + unat fr"
    and w': "w' = deposit_token (TokenBurned t a u)
      (w\<lparr>token_balances := (token_balances w)((t, a) := keep_alive (acc\<lparr>acc_free := fr\<rparr>)),
         tokens := (tokens w)(t \<mapsto> info')\<rparr>)"
    using assms(1,3) by (auto simp: burn_from_def do_burn_def result_simps)
  have "u = transform_decimals_to_standard x d"
    and "unat (xtoken_total info) = unat (xtoken_total info') + unat u"
    using u assms(4) by (cases info; auto simp: result_simps Let_def)+
  then show "unat (free_balance c t a w) = unat (free_balance c t a w') + unat (transform_decimals_to_standard x d)"
    and "b \<noteq> a \<Longrightarrow> free_balance c t b w' = free_balance c t b w"
    and "unat (total_issuance c t w) = unat (total_issuance c t w') + unat (transform_decimals_to_standard x d)"
    using acc assms(2,3)
    by (simp_all add: w' free_balance_def total_issuance_def get_token_balance_def keep_alive_def no_account_def)
qed

section \<open>A transfer out\<close>

text \<open>
  C18. A transfer of a bridged token out of the chain. When it goes through, the amount the sender
  loses is the requested amount in standard units; what the other chain is told to pay, brought back
  to standard units, is burnt, and all the rest, which is at least the bridging fee, goes to the
  treasury; nobody else's balance changes; the event for the relayers carries the next nonce of the
  chain and the amount in the decimals of the other chain.
\<close>

theorem bridge_out_exact:
  assumes "bridge_transfer_out c (SignedOrigin who) amount rid recipient dest w = Inr w'"
    and "\<not> is_native_resource (hd_bridge c) rid" and "token_of_resource rid w = Inr t"
    and "t \<noteq> native_id (hd_token c)" and "who \<noteq> br_treasury (hd_bridge c)"
    and "unat (calculate_bridging_fee c dest t w) < 2 ^ 127"
  shows "\<exists>d x fee n. token_external_decimals (hd_token c) t w = Inr d
    \<and> transform_decimals_to_standard amount d = transform_decimals_to_standard x d + fee
    \<and> calculate_bridging_fee c dest t w \<le> fee
    \<and> unat (free_balance (hd_token c) t who w)
        = unat (free_balance (hd_token c) t who w') + unat fee + unat (transform_decimals_to_standard x d)
    \<and> unat (free_balance (hd_token c) t (br_treasury (hd_bridge c)) w')
        = unat (free_balance (hd_token c) t (br_treasury (hd_bridge c)) w) + unat fee
    \<and> (\<forall>b. b \<noteq> who \<and> b \<noteq> br_treasury (hd_bridge c)
        \<longrightarrow> free_balance (hd_token c) t b w' = free_balance (hd_token c) t b w)
    \<and> unat (total_issuance (hd_token c) t w)
        = unat (total_issuance (hd_token c) t w') + unat (transform_decimals_to_standard x d)
    \<and> chain_nonces w dest = Some n \<and> chain_nonces w' dest = Some (n + 1)
    \<and> bridge_events w' = bridge_events w @ [FungibleTransfer dest (n + 1) rid (ucast x) recipient]"
proof -
  let ?tc = "hd_token c" and ?tr = "br_treasury (hd_bridge c)" and ?fee = "calculate_bridging_fee c dest t w"
  obtain d w1 y w2 where d: "token_external_decimals ?tc t w = Inr d"
    and guard: "?fee + ?fee < transform_decimals_to_standard amount d"
    and w1: "transfer_token ?tc who t (transform_decimals_to_standard amount d
        - transform_decimals_to_standard (transform_decimals_to_external
            (transform_decimals_to_standard amount d - ?fee) d) d) ?tr w = Inr w1"
    and w2: "burn_from t who (transform_decimals_to_external (transform_decimals_to_standard amount d - ?fee) d) w1
        = Inr (y, w2)"
    and out: "transfer_fungible dest rid recipient
        (ucast (transform_decimals_to_external (transform_decimals_to_standard amount d - ?fee) d)) w2 = Inr w'"
    using assms(1-3)
    by (auto simp: bridge_transfer_out_def do_burn_assets_def Let_def and_then_Inr ensure_Inr ensure_signed_def)
  define paid x sent where "paid = transform_decimals_to_standard amount d"
    and "x = transform_decimals_to_external (paid - ?fee) d"
    and "sent = transform_decimals_to_standard x d"
  note names = paid_def [symmetric] x_def [symmetric] sent_def [symmetric]
  note w1 = w1 [unfolded names] and w2 = w2 [unfolded names] and out = out [unfolded names]
  have "unat (?fee + ?fee) = unat ?fee + unat ?fee" using assms(6) by (intro unat_add_fits) simp
  then have "?fee \<le> paid" using guard by (simp add: paid_def word_le_nat_alt word_less_nat_alt)
  moreover have le: "sent \<le> paid - ?fee" unfolding sent_def x_def by (rule standard_external_le)
  ultimately have fee: "?fee \<le> paid - sent"
    by (simp add: word_le_nat_alt unat_sub)
  obtain info where info: "tokens w t = Some info" "xtoken_decimals info = Some d"
    using d assms(4) by (auto simp: token_external_decimals_def result_simps split: option.splits)
  note move = transfer_moves [OF w1 assms(4,5)]
  have "tokens w1 t = Some info" using info(1) move(4) by simp
  note burn = burn_moves [OF w2 assms(4) this info(2), folded sent_def]
  obtain n where n: "chain_nonces w2 dest = Some n"
    and w': "w' = deposit_bridge (FungibleTransfer dest (n + 1) rid (ucast x) recipient)
      (w2\<lparr>chain_nonces := (chain_nonces w2)(dest \<mapsto> n + 1)\<rparr>)"
    using out by (auto simp: transfer_fungible_def bump_nonce_def ensure_Inr Let_def chain_whitelisted_def)
  have bridge: "same_bridge w w2"
    using transfer_token_upper [OF w1] token_upper(5) [OF w2] by (simp add: same_bridge_upper)
  have keep: "free_balance ?tc t b w' = free_balance ?tc t b w2" "total_issuance ?tc t w' = total_issuance ?tc t w2" for b
    by (simp_all add: w' deposit_bridge_def free_balance_def total_issuance_def get_token_balance_def)
  have "total_issuance ?tc t w1 = total_issuance ?tc t w" using move(4) by (simp add: total_issuance_def assms(4))
  moreover have "chain_nonces w' dest = Some (n + 1)" "chain_nonces w dest = Some n"
    "bridge_events w' = bridge_events w @ [FungibleTransfer dest (n + 1) rid (ucast x) recipient]"
    using n bridge by (simp_all add: w' deposit_bridge_def same_bridge_def)
  ultimately show ?thesis
    using d fee move(1-3) burn assms(5)
    by (intro exI [of _ d] exI [of _ x] exI [of _ "paid - sent"] exI [of _ n]) (simp add: keep names)
qed

text \<open>Token 1 is a coin of chain 1 with six decimals, of which account 5 holds five.\<close>

definition ref_coin_resource :: resource_id where
  "ref_coin_resource = [3] @ replicate 25 0 @ [85, 83, 68, 0, 1, 0]"

definition ref_coin_world :: "ref_native runtime_world" where
  "ref_coin_world = ref_world
    \<lparr>tokens := [1 \<mapsto> BEP20 [85, 83, 68] [85, 83, 68] 5000000000000000000 True 6],
     token_balances := [(1, 5) \<mapsto> \<lparr>acc_free = 5000000000000000000, acc_reserved = 0\<rparr>],
     token_by_contract := [(1, [85, 83, 68]) \<mapsto> 1], chain_nonces := [1 \<mapsto> 4],
     bridging_fee := (\<lambda>_. 100000000000000)\<rparr>"

declare ref_bridge_def [code] ref_handler_def [code]

lemma bridge_out_run:
  "case bridge_transfer_out ref_handler (SignedOrigin 5) 2000000 ref_coin_resource [7] 1 ref_coin_world of
     Inl _ \<Rightarrow> False
   | Inr w' \<Rightarrow> chain_nonces w' 1 = Some 5
      \<and> calculate_bridging_fee ref_handler 1 1 ref_coin_world = 100000000000000
      \<and> token_of_resource ref_coin_resource ref_coin_world = Inr 1
      \<and> free_balance ref_token_config 1 903 w' = 100000000000000"
  by code_simp

theorem bridge_out_exact_witness:
  "\<exists>w' x. bridge_transfer_out ref_handler (SignedOrigin 5) 2000000 ref_coin_resource [7] 1 ref_coin_world = Inr w'
    \<and> unat (free_balance ref_token_config 1 903 w') = 100000000000000
    \<and> unat (free_balance ref_token_config 1 5 ref_coin_world)
        = unat (free_balance ref_token_config 1 5 w') + 100000000000000 + unat (transform_decimals_to_standard x 6)"
proof -
  obtain w' where run: "bridge_transfer_out ref_handler (SignedOrigin 5) 2000000 ref_coin_resource [7] 1 ref_coin_world = Inr w'"
    and cfee: "calculate_bridging_fee ref_handler 1 1 ref_coin_world = 100000000000000"
    and t: "token_of_resource ref_coin_resource ref_coin_world = Inr 1"
    and fee: "free_balance ref_token_config 1 903 w' = 100000000000000"
    using bridge_out_run by (auto split: sum.splits)
  have small: "unat (calculate_bridging_fee ref_handler 1 1 ref_coin_world) < 2 ^ 127" by (simp add: cfee)
  have nat: "\<not> is_native_resource (hd_bridge ref_handler) ref_coin_resource" by code_simp
  have cfg: "hd_token ref_handler = ref_token_config" "br_treasury (hd_bridge ref_handler) = 903"
    by (simp_all add: ref_handler_def ref_bridge_def)
  have start: "free_balance ref_token_config 1 903 ref_coin_world = 0"
    "token_external_decimals ref_token_config 1 ref_coin_world = Inr 6"
    by code_simp+
  show ?thesis
    using bridge_out_exact [OF run nat t _ _ small] fee start run by (fastforce simp: cfg)
qed

end
