(* ===== verification/Bot_Correct.thy ===== *)
theory Bot_Correct
  imports Runtime_World Runtime_Correct
begin

text \<open>
  The bots of every reachable state, and the nonces of the calls submitted with external keys.
\<close>

section \<open>Instances of a bot\<close>

definition bot_ok :: "bot \<Rightarrow> bool" where
  "bot_ok b \<longleftrightarrow> distinct (bot_users b) \<and> bot_current_instance b = word_of_nat (length (bot_users b))
    \<and> (bot_max_instance b \<noteq> - 1 \<longrightarrow> length (bot_users b) \<le> unat (bot_max_instance b))
    \<and> fst (bot_symbol b) \<noteq> snd (bot_symbol b)"

definition bots_ok :: "('n, 'p, 'z) bot_state_scheme \<Rightarrow> bool" where
  "bots_ok w \<longleftrightarrow> (\<forall>i b. bots w i = Some b \<longrightarrow> bot_ok b)"

lemma add_user_ok:
  assumes "bot_ok b" and "bot_current_instance b + 1 \<le> bot_max_instance b"
  shows "bot_ok (add_user a b)"
proof (cases "a \<in> set (bot_users b)")
  case True
  with assms(1) show ?thesis by (simp add: add_user_def)
next
  case False
  let ?n = "length (bot_users b)" and ?m = "bot_max_instance b"
  have "Suc ?n \<le> unat ?m" if "?m \<noteq> - 1"
  proof -
    have le: "?n \<le> unat ?m" using assms(1) that by (simp add: bot_ok_def)
    have "unat ?m \<noteq> unat (- 1 :: u32)" using that by (simp only: word_unat_eq_iff [symmetric] simp_thms)
    moreover have "unat (- 1 :: u32) = 2 ^ 32 - 1" by (simp add: unsigned_minus_1_eq_mask mask_eq_exp_minus_1)
    moreover have "unat ?m < 2 ^ 32" using unsigned_less [of ?m] by simp
    ultimately have "Suc ?n < 2 ^ 32" using le by linarith
    then have "unat (word_of_nat (Suc ?n) :: u32) = Suc ?n" by (rule unat_small)
    moreover have "(word_of_nat (Suc ?n) :: u32) \<le> ?m"
      using assms by (simp add: bot_ok_def add.commute)
    ultimately show ?thesis by (simp add: word_le_nat_alt)
  qed
  with False assms(1) show ?thesis by (simp add: add_user_def bot_ok_def add.commute)
qed

lemma register_bot_ok:
  assumes "register_bot c a sy name mx mb mq desc w = Inr w'" and "bots_ok w"
  shows "bots_ok w'"
proof -
  obtain w1 where w1: "transfer_token (bot_assets c) a (native_id (bot_assets c)) (bot_staking_threshold c)
      (bot_system_account c) w = Inr w1" and ne: "fst sy \<noteq> snd sy"
    and w': "bots w' = (bots w1)(a \<mapsto> \<lparr>bot_staked = bot_staking_threshold c, bot_symbol = sy, bot_name = name,
             bot_max_instance = mx, bot_current_instance = 0, bot_min_base = mb,
             bot_min_quote = mq, bot_users = [], bot_desc = desc\<rparr>)"
    using assms(1) by (auto simp: register_bot_def Let_def and_then_Inr ensure_Inr)
  have "bots w1 = bots w" using same_upperD(2) [OF transfer_token_upper [OF w1]] .
  then show ?thesis using assms(2) ne by (auto simp: bots_ok_def w' bot_ok_def)
qed

lemma world_change_bots: "world_change R w w' \<Longrightarrow> bots_ok w \<Longrightarrow> bots_ok w'"
proof (induction rule: world_change.induct)
  case (wc_deposit w i b a)
  then show ?case by (auto simp: bots_ok_def intro: add_user_ok)
qed (auto simp: bots_ok_def dest: register_bot_ok [unfolded bots_ok_def])

lemma world_changes_bots: "world_changes R w w' \<Longrightarrow> bots_ok w \<Longrightarrow> bots_ok w'"
  by (induction rule: rtranclp_induct) (auto intro: world_change_bots)

interpretation bot_system:
  invariant_system runtime_genesis "runtime_step R n" "\<lambda>s. bots_ok (world s)"
  for R :: "'n runtime_params" and n
  by unfold_locales (auto simp: runtime_genesis_def bots_ok_def dest: world_changes_bots [OF runtime_step_world]
      simp: bots_ok_def)

text \<open>
  C35. In every reachable state of the runtime each bot trades two different tokens, lists every user
  once, counts them exactly (modulo 2^32), and has at most as many as it allows. The one exception to
  the last is a bot that allows 2^32 - 1: its check adds one to the count and wraps.
\<close>

theorem bots_within_capacity:
  assumes "reachable runtime_genesis (runtime_step R n) s" and "bots (world s) i = Some b"
  shows "distinct (bot_users b)
    \<and> bot_current_instance b = word_of_nat (length (bot_users b))
    \<and> (bot_max_instance b \<noteq> - 1 \<longrightarrow> length (bot_users b) \<le> unat (bot_max_instance b))
    \<and> fst (bot_symbol b) \<noteq> snd (bot_symbol b)"
  using bot_system.inv_reachable [OF assms(1)] assms(2) by (simp add: bots_ok_def bot_ok_def)

text \<open>Account 6 opens a bot for the pair of tokens 0 and 1, and account 5 deposits twice.\<close>

declare ref_bot_def [code]

definition demo_bot_start :: "ref_native runtime_state" where
  "demo_bot_start = ref_runtime_state\<lparr>world := ref_world
    \<lparr>tokens := [1 \<mapsto> BEP20 [85, 83, 68] [85, 83, 68] 5000 True 18],
     token_balances := [(1, 5) \<mapsto> \<lparr>acc_free = 5000, acc_reserved = 0\<rparr>]\<rparr>\<rparr>"

definition demo_bot :: "ref_native runtime_state result" where
  "demo_bot = execute_block ref_runtime 1 41
    [(VerifierCall (CallRegister [100, 101, 120]), SignedOrigin 9),
     (VerifierCall (CallLaunch 9), RootOrigin),
     (VerifierCall (CallStake 9 90000), SignedOrigin 5),
     (BotCall (BotRegister (0, 1) [66] 2 10 10 []), SignedOrigin 6),
     (BotCall (BotDeposit 6 9 100 200), SignedOrigin 5),
     (BotCall (BotDeposit 6 9 100 200), SignedOrigin 5)] demo_bot_start"

lemma demo_bot_state:
  "case demo_bot of Inl _ \<Rightarrow> False
   | Inr s \<Rightarrow> map_option bot_users (bots (world s) 6) = Some [5]
      \<and> map_option bot_max_instance (bots (world s) 6) = Some 2"
  by code_simp

theorem bots_within_capacity_witness:
  "\<exists>s b. demo_bot = Inr s \<and> bots (world s) 6 = Some b \<and> bot_users b = [5]
    \<and> bot_current_instance b = 1 \<and> length (bot_users b) \<le> unat (bot_max_instance b)"
proof -
  obtain s b where s: "demo_bot = Inr s" and b: "bots (world s) 6 = Some b" "bot_users b = [5]"
    "bot_max_instance b = 2"
    using demo_bot_state by (auto split: sum.splits)
  have "runtime_genesis demo_bot_start"
    by (simp add: runtime_genesis_def demo_bot_start_def ref_runtime_state_def ref_world_def
        bot_state.extend_def handler_state.extend_def bridge_state.extend_def oracle_state.extend_def)
  then have "reachable runtime_genesis (runtime_step ref_runtime 1) s"
    using block_reachable s unfolding demo_bot_def by (blast intro: reachable_init)
  from bots_within_capacity [OF this b(1)] show ?thesis using s b by auto
qed

section \<open>Nonces of external keys\<close>

text \<open>The node validates one extrinsic after the other.\<close>

fun validate_each ::
  "('n, 'p) agent_config \<Rightarrow> 'p external_verifiable list \<Rightarrow> ('n, 'z) token_state_scheme
    \<Rightarrow> invalid_transaction + ('n, 'z) token_state_scheme" where
  "validate_each c [] w = Inr w"
| "validate_each c (tx # txs) w = and_then (validate_unsigned c tx w) (\<lambda>(_, w). validate_each c txs w)"

definition signed_by :: "('n, 'p) agent_config \<Rightarrow> account \<Rightarrow> 'p external_verifiable \<Rightarrow> bool" where
  "signed_by c who tx \<longleftrightarrow> extract_signer c tx = Inr who"

lemma validate_unsigned_nonce:
  assumes "validate_unsigned c tx w = Inr (vt, w')"
  obtains who where "signed_by c who tx" "nonce_of tx = account_nonce w who"
    "account_nonce w' = (account_nonce w)(who := account_nonce w who + 1)"
proof -
  obtain who fee w1 where who: "extract_signer c tx = Inr who" and n: "account_nonce w who = nonce_of tx"
    and pay: "withdraw_fee c who fee (w\<lparr>account_nonce := (account_nonce w)(who := account_nonce w who + 1)\<rparr>) = Inr w1"
    and w': "w' = w1"
    using assms unfolding validate_unsigned_def Let_def case_prod_unfold and_then_Inr ensure_Inr map_err_Inr
    by blast
  have "account_nonce w1 = (account_nonce w)(who := account_nonce w who + 1)"
    using pay by (auto simp: withdraw_fee_def and_then_Inr split: if_splits)
  with who n w' show thesis by (intro that [of who]) (simp_all add: signed_by_def)
qed

text \<open>
  No replay. Of the external extrinsics a node accepts in a row, those of one signer carry
  consecutive nonces, starting from the nonce stored for the account and counting it up; so within
  2^32 of them none is accepted twice.
\<close>

theorem external_nonces_consecutive:
  assumes "validate_each c txs w = Inr w'"
  shows "List.map nonce_of (filter (signed_by c who) txs)
      = List.map (\<lambda>i. account_nonce w who + word_of_nat i) [0..<length (filter (signed_by c who) txs)]
    \<and> account_nonce w' who = account_nonce w who + word_of_nat (length (filter (signed_by c who) txs))
    \<and> (length (filter (signed_by c who) txs) \<le> 2 ^ 32 \<longrightarrow> distinct (filter (signed_by c who) txs))"
proof -
  have main: "List.map nonce_of (filter (signed_by c who) txs)
      = List.map (\<lambda>i. account_nonce w who + word_of_nat i) [0..<length (filter (signed_by c who) txs)]
    \<and> account_nonce w' who = account_nonce w who + word_of_nat (length (filter (signed_by c who) txs))"
    using assms
  proof (induction txs arbitrary: w)
    case (Cons tx txs)
    obtain vt w1 where w1: "validate_unsigned c tx w = Inr (vt, w1)" and rest: "validate_each c txs w1 = Inr w'"
      using Cons.prems by (auto simp: and_then_Inr)
    from w1 obtain a where a: "signed_by c a tx" "nonce_of tx = account_nonce w a"
      "account_nonce w1 = (account_nonce w)(a := account_nonce w a + 1)"
      by (rule validate_unsigned_nonce)
    show ?case
    proof (cases "a = who")
      case True
      have "List.map (\<lambda>i. account_nonce w who + word_of_nat i) [0..<Suc k]
          = account_nonce w who # List.map (\<lambda>i. account_nonce w who + 1 + word_of_nat i) [0..<k]" for k
        by (simp add: upt_conv_Cons map_Suc_upt [symmetric] comp_def ac_simps del: upt_Suc)
      then show ?thesis using Cons.IH [OF rest] a True by (simp add: ac_simps del: upt_Suc)
    next
      case False
      then have "\<not> signed_by c who tx" using a(1) by (simp add: signed_by_def)
      then show ?thesis using Cons.IH [OF rest] a(3) False by simp
    qed
  qed simp
  have "distinct (filter (signed_by c who) txs)" if "length (filter (signed_by c who) txs) \<le> 2 ^ 32"
  proof -
    have "inj_on (\<lambda>i. account_nonce w who + word_of_nat i :: u32) {0..<length (filter (signed_by c who) txs)}"
      by (rule inj_onI) (use that in \<open>simp add: word_of_nat_eq_iff take_bit_nat_eq_self\<close>)
    then have "distinct (List.map nonce_of (filter (signed_by c who) txs))"
      by (simp add: main distinct_map)
    then show ?thesis by (simp add: distinct_map)
  qed
  with main show ?thesis by blast
qed

text \<open>Signer 7 sends two calls, signer 8 one in between.\<close>

definition demo_external :: "runtime_call external_verifiable list" where
  "demo_external = [Ecdsa RewardTake 0 [7], Ecdsa RewardTake 0 [8], Ecdsa RewardTake 1 [7]]"

definition demo_external_world :: "ref_native runtime_world" where
  "demo_external_world = ref_world
    \<lparr>native := \<lparr>rn_accounts = (\<lambda>_. (1000000000000, 0)), rn_issuance = 2000000\<rparr>\<rparr>"

lemma ref_agent_signer: "extract_signer ref_agent (Ecdsa tx n [b]) = Inr (unat b)"
  by (simp add: extract_signer_def ref_agent_def ascii_def encode_short_def numeral_2_eq_2)

lemma ref_agent_validates:
  assumes "account_nonce w (unat b) = n" and "rn_accounts (native w) (unat b) = (v, r)" and "195001100 \<le> v"
  shows "\<exists>vt. validate_unsigned ref_agent (Ecdsa tx n [b]) w = Inr (vt, w
    \<lparr>account_nonce := (account_nonce w)(unat b := n + 1),
     native := rn_put (unat b) (v - 195001100, r) (native w)\<rparr>)"
proof -
  have fee: "compute_fee ref_agent 100 \<lparr>ref_time = 195000000, proof_size = 0\<rparr> ClassNormal = 195001100"
    by (simp add: compute_fee_def weight_to_fee_def weight_min_def saturating_mul_def saturating_add_def ref_agent_def)
  have info: "ag_info ref_agent tx = (\<lparr>ref_time = 195000000, proof_size = 0\<rparr>, ClassNormal)"
    "ag_encoded_size ref_agent e = 100" "ag_max_length ref_agent = 3932160"
    "ag_max_block ref_agent = \<lparr>ref_time = 1500000000000, proof_size = 0\<rparr>"
    "ag_withdraw ref_agent a x m = and_then (take_free x (rn_accounts m a)) (\<lambda>p. Inr (rn_put a p m))" for e a x m
    by (simp_all add: ref_agent_def)
  show ?thesis
    using assms
    by (simp add: validate_unsigned_def ref_agent_signer info any_lt_def weight_div_def fee withdraw_fee_def
        ensure_def checked_sub_def)
qed

lemma demo_external_runs: "\<exists>w. validate_each ref_agent demo_external demo_external_world = Inr w"
proof -
  let ?w = demo_external_world
  have fresh: "account_nonce ?w 7 = 0" "account_nonce ?w 8 = 0" by code_simp+
  have rich: "rn_accounts (native ?w) a = (1000000000000, 0)" for a by (simp add: demo_external_world_def)
  obtain x w1 where 1: "validate_unsigned ref_agent (Ecdsa RewardTake 0 [7]) ?w = Inr (x, w1)"
    and w1: "w1 = ?w\<lparr>account_nonce := (account_nonce ?w)(7 := 1), native := rn_put 7 (804998900 + 999000000000, 0) (native ?w)\<rparr>"
    using ref_agent_validates [of ?w 7 0 1000000000000 0 RewardTake] by (auto simp: fresh rich)
  obtain y w2 where 2: "validate_unsigned ref_agent (Ecdsa RewardTake 0 [8]) w1 = Inr (y, w2)"
    and w2: "w2 = w1\<lparr>account_nonce := (account_nonce w1)(8 := 1), native := rn_put 8 (804998900 + 999000000000, 0) (native w1)\<rparr>"
    using ref_agent_validates [of w1 8 0 1000000000000 0 RewardTake] by (auto simp: w1 fresh rich)
  obtain z w3 where "validate_unsigned ref_agent (Ecdsa RewardTake 1 [7]) w2 = Inr (z, w3)"
    using ref_agent_validates [of w2 7 1 "804998900 + 999000000000" 0 RewardTake] by (auto simp: w2 w1)
  with 1 2 show ?thesis by (simp add: demo_external_def)
qed

theorem external_nonces_consecutive_witness:
  "\<exists>w. validate_each ref_agent demo_external demo_external_world = Inr w
    \<and> filter (signed_by ref_agent 7) demo_external = [Ecdsa RewardTake 0 [7], Ecdsa RewardTake 1 [7]]
    \<and> account_nonce w 7 = account_nonce demo_external_world 7 + word_of_nat 2"
proof -
  obtain w where run: "validate_each ref_agent demo_external demo_external_world = Inr w"
    using demo_external_runs by blast
  have "filter (signed_by ref_agent 7) demo_external = [Ecdsa RewardTake 0 [7], Ecdsa RewardTake 1 [7]]"
    by (simp add: demo_external_def signed_by_def ref_agent_signer)
  with external_nonces_consecutive [OF run, of 7] run show ?thesis by simp
qed

end
