(* ===== verification/Foundation.thy ===== *)
theory Foundation
  imports Token
begin

text \<open>
  \<open>pallets/foundation/src/lib.rs\<close>: a vault of native tokens released by schedule. A fund is reserved
  on the beneficiary's account and released once per epoch of \<open>Duration\<close> blocks: a first amount at the
  epoch \<open>delay_durations\<close>, then the same amount every \<open>interval_durations\<close> epochs. For an epoch that
  still waits for an approval the release goes back to the seller.

  The map of funds is kept in the order in which it is visited. The pallet works on the storage of
  \<open>pallet_balances\<close> only.
\<close>

record foundation_data =
  delay_durations :: u32
  interval_durations :: u32
  fund_times :: u32
  fund_amount :: u128
  first_amount :: u128

datatype foundation_event =
    PreLockedFundUnlocked account u128
  | UnlockedFundAllBalance account

record 'n foundation_state = "'n token_state" +
  foundation :: "(account \<times> foundation_data) list"
  approvals :: "account \<times> u32 \<Rightarrow> account option"
  foundation_events :: "foundation_event list"

record 'n foundation_config =
  fnd_currency :: "'n native_currency"
  fnd_duration :: block_number

abbreviation fnderr :: "foundation_error \<Rightarrow> dispatch_error" where
  "fnderr \<equiv> FoundationError"

definition get_fund :: "account \<Rightarrow> ('n, 'z) foundation_state_scheme \<Rightarrow> foundation_data option" where
  "get_fund a s = map_of (foundation s) a"

fun put_entry :: "'k \<Rightarrow> 'v \<Rightarrow> ('k \<times> 'v) list \<Rightarrow> ('k \<times> 'v) list" where
  "put_entry k v [] = [(k, v)]"
| "put_entry k v ((j, u) # ps) = (if j = k then (k, v) # ps else (j, u) # put_entry k v ps)"

definition put_fund ::
  "account \<Rightarrow> foundation_data \<Rightarrow> ('n, 'z) foundation_state_scheme \<Rightarrow> ('n, 'z) foundation_state_scheme" where
  "put_fund a f s = s\<lparr>foundation := put_entry a f (foundation s)\<rparr>"

definition remove_fund ::
  "account \<Rightarrow> ('n, 'z) foundation_state_scheme \<Rightarrow> ('n, 'z) foundation_state_scheme" where
  "remove_fund a s = s\<lparr>foundation := filter (\<lambda>(b, _). b \<noteq> a) (foundation s)\<rparr>"

definition fund_total :: "foundation_data \<Rightarrow> u128" where
  "fund_total f = fund_amount f * ucast (fund_times f) + first_amount f"

section \<open>Genesis\<close>

definition build_fund ::
  "'n foundation_config \<Rightarrow> (account \<Rightarrow> u128 \<Rightarrow> 'n \<Rightarrow> 'n) \<Rightarrow> account \<times> foundation_data
    \<Rightarrow> ('n, 'z) foundation_state_scheme \<Rightarrow> ('n, 'z) foundation_state_scheme result" where
  "build_fund c deposit_creating entry s =
    (let (a, f) = entry in
     and_then (map_err Panic
         (nc_reserve (fnd_currency c) a (fund_total f) (deposit_creating a (fund_total f) (native s)))) (\<lambda>n.
     Inr (put_fund a f (s\<lparr>native := n\<rparr>))))"

section \<open>Dispatchables\<close>

definition put_into_vault ::
  "'n foundation_config \<Rightarrow> origin \<Rightarrow> account \<Rightarrow> foundation_data \<Rightarrow> bool
    \<Rightarrow> ('n, 'z) foundation_state_scheme \<Rightarrow> ('n, 'z) foundation_state_scheme result" where
  "put_into_vault c o' beneficiary fund need_to_approve s =
    and_then (ensure_signed o') (\<lambda>seller.
    ensure (get_fund beneficiary s = None) (fnderr AlreadyExists) (
    and_then (word_div (block_number s) (fnd_duration c)) (\<lambda>current_epoch.
    ensure (current_epoch < delay_durations fund) (fnderr EpochNotReached) (
    let total_amount = fund_total fund in
    and_then (nc_transfer (fnd_currency c) seller beneficiary total_amount (native s)) (\<lambda>n.
    and_then (nc_reserve (fnd_currency c) beneficiary total_amount n) (\<lambda>n.
    let s = s\<lparr>native := n\<rparr>;
        s = (if need_to_approve then
               s\<lparr>approvals := fold (\<lambda>i m. m((beneficiary,
                   delay_durations fund + word_of_nat i * interval_durations fund) \<mapsto> seller))
                 [0 ..< unat (fund_times fund)] (approvals s)\<rparr>
             else s) in
    Inr (put_fund beneficiary fund s)))))))"

definition approve ::
  "origin \<Rightarrow> account \<Rightarrow> u32 \<Rightarrow> ('n, 'z) foundation_state_scheme \<Rightarrow> ('n, 'z) foundation_state_scheme result" where
  "approve o' beneficiary epoch s =
    and_then (ensure_signed o') (\<lambda>approver.
    case approvals s (beneficiary, epoch) of
      None \<Rightarrow> Inr s
    | Some a \<Rightarrow>
        ensure (a = approver) (fnderr InvalidApprover)
          (Inr (s\<lparr>approvals := (approvals s)((beneficiary, epoch) := None)\<rparr>)))"

section \<open>The block hook\<close>

text \<open>
  One release. The approval that is still open is used up and the amount goes to its holder; an error
  of that move is dropped.
\<close>

definition release_fund ::
  "'n foundation_config \<Rightarrow> u32 \<Rightarrow> account \<Rightarrow> u128
    \<Rightarrow> ('n, 'z) foundation_state_scheme \<Rightarrow> ('n, 'z) foundation_state_scheme result" where
  "release_fund c now a amount s =
    (case approvals s (a, now) of
       Some approver \<Rightarrow>
         and_then (drop_error (native s)
             (nc_repatriate (fnd_currency c) a approver amount StatusFree (native s))) (\<lambda>n.
         Inr (s\<lparr>approvals := (approvals s)((a, now) := None), native := n\<rparr>))
     | None \<Rightarrow>
         Inr (s\<lparr>native := nc_unreserve (fnd_currency c) a amount (native s),
                foundation_events := foundation_events s @ [PreLockedFundUnlocked a amount]\<rparr>))"

text \<open>The two conditions are evaluated in order, and the remainder only where the first part holds.\<close>

definition unlock_one ::
  "'n foundation_config \<Rightarrow> u32 \<Rightarrow> account \<Rightarrow> foundation_data
    \<Rightarrow> ('n, 'z) foundation_state_scheme \<Rightarrow> ('n, 'z) foundation_state_scheme result" where
  "unlock_one c now a f s =
    (let on_interval = and_then (word_rem (saturating_sub now (delay_durations f)) (interval_durations f))
           (\<lambda>rm. Inr (rm = 0)) in
     and_then (if delay_durations f < now then on_interval else Inr False) (\<lambda>regular.
     if regular then
       and_then (release_fund c now a (fund_amount f) s) (\<lambda>s.
       let f' = f\<lparr>fund_times := fund_times f - 1\<rparr> in
       Inr (if fund_times f' = 0 then remove_fund a s else put_fund a f' s))
     else
       and_then (if now = delay_durations f then on_interval else Inr False) (\<lambda>initial.
       if initial then release_fund c now a (first_amount f) s else Inr s)))"

fun unlock_each ::
  "'n foundation_config \<Rightarrow> u32 \<Rightarrow> (account \<times> foundation_data) list
    \<Rightarrow> ('n, 'z) foundation_state_scheme \<Rightarrow> ('n, 'z) foundation_state_scheme result" where
  "unlock_each c now [] s = Inr s"
| "unlock_each c now ((a, f) # rest) s = and_then (unlock_one c now a f s) (unlock_each c now rest)"

definition unlock_fund ::
  "'n foundation_config \<Rightarrow> u32
    \<Rightarrow> ('n, 'z) foundation_state_scheme \<Rightarrow> ('n, 'z) foundation_state_scheme result" where
  "unlock_fund c now s = unlock_each c now (foundation s) s"

definition foundation_initialize ::
  "'n foundation_config \<Rightarrow> block_number
    \<Rightarrow> ('n, 'z) foundation_state_scheme \<Rightarrow> ('n, 'z) foundation_state_scheme result" where
  "foundation_initialize c now s =
    and_then (word_rem now (fnd_duration c)) (\<lambda>rm.
    if rm \<noteq> 0 then Inr s
    else and_then (word_div now (fnd_duration c)) (\<lambda>epoch. unlock_fund c epoch s))"

end
