(* ===== verification/Foundation_Correct.thy ===== *)
theory Foundation_Correct
  imports Foundation Reference
begin

text \<open>
  The hook of the vault at the first block of an epoch, and the fund on which it cannot return.
\<close>

section \<open>The hook at the first block of an epoch\<close>

lemma initialize_at_epoch:
  assumes "0 < fnd_duration c" and "unat e * unat (fnd_duration c) < 2 ^ 32"
  shows "foundation_initialize c (e * fnd_duration c) s = unlock_fund c e s"
proof -
  have m: "unat (e * fnd_duration c) = unat e * unat (fnd_duration c)"
    using assms(2) by (simp add: unat_mult_lem [THEN iffD1])
  have d: "unat (fnd_duration c) \<noteq> 0" using assms(1) by (simp add: unat_eq_zero word_gt_0)
  have "e * fnd_duration c mod fnd_duration c = 0" "e * fnd_duration c div fnd_duration c = e"
    using d by (simp_all add: word_unat_eq_iff unat_mod unat_div m)
  then show ?thesis using assms(1) by (simp add: foundation_initialize_def word_rem_def word_div_def word_gt_0)
qed

section \<open>A fund that stops the chain\<close>

lemma drop_error_Panic: "drop_error x m = Inl e \<Longrightarrow> e = Panic"
  by (auto simp: drop_error_def split: sum.splits if_splits)

lemma release_fund_Inl: "release_fund c e a v s = Inl r \<Longrightarrow> r = Panic"
  by (auto simp: release_fund_def and_then_def split: option.splits sum.splits dest: drop_error_Panic)

lemma word_rem_Inl: "word_rem a b = Inl r \<Longrightarrow> r = Panic"
  by (simp add: word_rem_def split: if_splits)

lemma unlock_one_Inl:
  assumes "unlock_one c e a f s = Inl r"
  shows "r = Panic"
proof -
  let ?on = "and_then (word_rem (saturating_sub e (delay_durations f)) (interval_durations f)) (\<lambda>rm. Inr (rm = 0))"
  have on: "(if b then ?on else Inr False) = Inl q \<Longrightarrow> q = Panic" for b q
    by (auto simp: word_rem_def split: if_splits)
  show ?thesis
    using assms unfolding unlock_one_def Let_def and_then_Inl
    by (auto simp only: on and_then_Inl split: if_splits dest!: on word_rem_Inl release_fund_Inl)
qed

lemma unlock_one_zero: "delay_durations f \<le> e \<Longrightarrow> interval_durations f = 0 \<Longrightarrow> unlock_one c e a f s = Inl Panic"
  by (auto simp: unlock_one_def word_rem_def Let_def)

lemma unlock_each_zero:
  assumes "(a, f) \<in> set ps" and "delay_durations f \<le> e" and "interval_durations f = 0"
  shows "unlock_each c e ps s = Inl Panic"
  using assms(1)
proof (induction ps arbitrary: s)
  case (Cons p ps)
  obtain b g where p: "p = (b, g)" by (cases p)
  show ?case
  proof (cases "unlock_one c e b g s")
    case (Inl r)
    then show ?thesis using unlock_one_Inl by (simp add: p)
  next
    case (Inr t)
    then have "(a, f) \<in> set ps"
      using Cons.prems unlock_one_zero [OF assms(2,3), of c a s] by (auto simp: p)
    then show ?thesis using Inr Cons.IH by (simp add: p)
  qed
qed simp

lemma put_entry_in: "(k, v) \<in> set (put_entry k v ps)"
  by (induction ps) auto

text \<open>
  The vault accepts a fund whose interval is zero, and from the epoch of its delay on the block hook
  cannot return: the remainder by the interval divides by zero at the start of every later epoch. A
  seller who puts such a fund stops the chain.
\<close>

theorem vault_zero_interval_halts:
  assumes "put_into_vault c o' a f need s = Inr s'" and "interval_durations f = 0"
    and "0 < fnd_duration c" and "delay_durations f \<le> e" and "unat e * unat (fnd_duration c) < 2 ^ 32"
  shows "foundation_initialize c (e * fnd_duration c) s' = Inl Panic"
proof -
  have "(a, f) \<in> set (foundation s')"
    using assms(1) by (auto simp: put_into_vault_def Let_def result_simps put_fund_def put_entry_in)
  then show ?thesis
    using unlock_each_zero assms by (simp add: initialize_at_epoch unlock_fund_def)
qed

definition empty_vault :: "ref_native foundation_state" where
  "empty_vault = token_state.extend (ref_token_state\<lparr>native := rn_put 9 (1000, 0) rn_empty\<rparr>)
    \<lparr>foundation = [], approvals = (\<lambda>_. None), foundation_events = []\<rparr>"

theorem vault_zero_interval_halts_witness:
  "\<exists>s'. put_into_vault \<lparr>fnd_currency = ref_currency, fnd_duration = 10\<rparr> (SignedOrigin 9) 5
      \<lparr>delay_durations = 3, interval_durations = 0, fund_times = 2, fund_amount = 300, first_amount = 100\<rparr>
      False empty_vault = Inr s'
    \<and> foundation_initialize \<lparr>fnd_currency = ref_currency, fnd_duration = 10\<rparr> 40 s' = Inl Panic"
proof -
  let ?c = "\<lparr>fnd_currency = ref_currency, fnd_duration = 10\<rparr>"
    and ?f = "\<lparr>delay_durations = 3, interval_durations = 0, fund_times = 2, fund_amount = 300, first_amount = 100\<rparr>"
  obtain s' where s': "put_into_vault ?c (SignedOrigin 9) 5 ?f False empty_vault = Inr s'"
    by (simp add: put_into_vault_def empty_vault_def token_state.extend_def get_fund_def word_div_def
        ensure_signed_def fund_total_def ensure_def Let_def checked_sub_def checked_add_def ref_token_state_def rn_empty_def)
  with vault_zero_interval_halts [OF s', of 4] show ?thesis by simp
qed

end
