(* ===== verification/Vault_Backing.thy ===== *)
theory Vault_Backing
  imports Foundation_Correct Token_Asset
begin

text \<open>
  What the vault still owes, and that its hook releases no more than that: over one epoch the reserved
  balance of a beneficiary falls by at most what the debt to the beneficiary falls.
\<close>

definition fund_due :: "nat \<Rightarrow> foundation_data \<Rightarrow> nat" where
  "fund_due e f = (if e \<le> unat (delay_durations f) then unat (first_amount f) else 0)
    + unat (fund_times f) * unat (fund_amount f)"

text \<open>From epoch \<open>e\<close> on, counting \<open>e\<close>; a later epoch owes less.\<close>

definition account_due :: "nat \<Rightarrow> (account \<times> foundation_data) list \<Rightarrow> account \<Rightarrow> nat" where
  "account_due e fs a = opt_val (fund_due e) (map_of fs a)"

lemma fund_due_mono: "d \<le> e \<Longrightarrow> fund_due e f \<le> fund_due d f"
  by (auto simp: fund_due_def)

lemma account_due_mono: "d \<le> e \<Longrightarrow> account_due e fs a \<le> account_due d fs a"
  by (auto simp: account_due_def opt_val_def fund_due_mono split: option.split)

text \<open>
  What the documentation of \<open>pallet_balances\<close> promises beyond \<open>balances_laws\<close>: \<open>repatriate_reserved\<close> to a
  free balance takes at most the amount, from the one account only, and fails with an error, not a panic.
\<close>

definition falls_by :: "'n native_currency \<Rightarrow> account \<Rightarrow> nat \<Rightarrow> 'n \<Rightarrow> 'n \<Rightarrow> bool" where
  "falls_by cur a v n n' \<longleftrightarrow> unat (nc_reserved cur a n) \<le> unat (nc_reserved cur a n') + v
    \<and> (\<forall>b. b \<noteq> a \<longrightarrow> nc_reserved cur b n' = nc_reserved cur b n)"

definition vault_laws :: "'n native_currency \<Rightarrow> bool" where
  "vault_laws cur \<longleftrightarrow> balances_laws cur
    \<and> (\<forall>a b v n n'. nc_repatriate cur a b v StatusFree n = Inr n' \<longrightarrow> falls_by cur a (unat v) n n')
    \<and> (\<forall>a b v n. nc_repatriate cur a b v StatusFree n \<noteq> Inl Panic)"

text \<open>The reference balances keep these laws.\<close>

lemma ref_vault_laws: "vault_laws ref_currency"
proof -
  have "unat (y - v) + unat v = unat y" if "v \<le> y" for v y :: u128 using that by (simp add: unat_sub word_le_nat_alt)
  moreover have "ok_or x e = Inl r \<longleftrightarrow> x = None \<and> r = e" for x :: "u128 option" and e r :: dispatch_error
    by (cases x) auto
  ultimately show ?thesis
    using ref_balances_laws
    by (auto simp: vault_laws_def falls_by_def result_simps and_then_Inl Let_def split: prod.splits)
qed

section \<open>The list of funds\<close>

definition funds_ok :: "(account \<times> foundation_data) list \<Rightarrow> bool" where
  "funds_ok fs \<longleftrightarrow> distinct (List.map fst fs)
    \<and> (\<forall>(a, f) \<in> set fs. 0 < fund_times f \<and> 0 < interval_durations f)"

lemma map_of_put [simp]: "map_of (put_entry a f fs) = (map_of fs)(a \<mapsto> f)"
  by (induction fs) (auto simp: fun_eq_iff)

lemma map_of_drop [simp]: "map_of (filter (\<lambda>(b, _). b \<noteq> a) fs) = (map_of fs)(a := None)"
  by (induction fs) (auto simp: fun_eq_iff)

lemma put_entry_set: "set (put_entry a f fs) \<subseteq> insert (a, f) (set fs)"
  by (induction fs) (auto split: if_splits)

lemma put_entry_keys: "fst ` set (put_entry a f fs) = insert a (fst ` set fs)"
proof (induction fs)
  case (Cons p fs)
  then show ?case by (cases p; cases "fst p = a") (simp_all add: insert_commute)
qed simp

lemma put_entry_distinct: "distinct (List.map fst fs) \<Longrightarrow> distinct (List.map fst (put_entry a f fs))"
proof (induction fs)
  case (Cons p fs)
  then show ?case using put_entry_keys [of a f fs] by (cases p) auto
qed simp

lemma funds_ok_put: "funds_ok fs \<Longrightarrow> 0 < fund_times f \<Longrightarrow> 0 < interval_durations f \<Longrightarrow> funds_ok (put_entry a f fs)"
  using put_entry_set [of a f fs] by (auto simp: funds_ok_def put_entry_distinct)

lemma funds_ok_drop: "funds_ok fs \<Longrightarrow> funds_ok (filter (\<lambda>(b, _). b \<noteq> a) fs)"
  by (auto simp: funds_ok_def distinct_map_filter)

section \<open>One release\<close>

abbreviation res_of :: "'n foundation_config \<Rightarrow> account \<Rightarrow> ('n, 'z) foundation_state_scheme \<Rightarrow> nat" where
  "res_of c a s \<equiv> unat (nc_reserved (fnd_currency c) a (native s))"

definition same_tokens :: "('n, 'z) token_state_scheme \<Rightarrow> ('n, 'z) token_state_scheme \<Rightarrow> bool" where
  "same_tokens s s' \<longleftrightarrow> token_balances s' = token_balances s \<and> block_number s' = block_number s"

lemma unreserve_falls:
  assumes "vault_laws cur" and "v \<le> nc_reserved cur a n"
  shows "falls_by cur a (unat v) n (nc_unreserve cur a v n)"
  using balances_lawsD(2) [of cur v a n] assms by (auto simp: vault_laws_def moves_reserved_def falls_by_def)

lemma release_falls:
  assumes laws: "vault_laws (fnd_currency c)" and run: "release_fund c e a v s = Inr s'"
    and le: "unat v \<le> res_of c a s"
  shows "falls_by (fnd_currency c) a (unat v) (native s) (native s')" and "foundation s' = foundation s"
    and "same_tokens s s'"
proof -
  have refl: "falls_by cur a v n n" for cur :: "'a native_currency" and v n by (simp add: falls_by_def)
  have un: "falls_by (fnd_currency c) a (unat v) (native s) (nc_unreserve (fnd_currency c) a v (native s))"
    using le by (intro unreserve_falls [OF laws]) (simp add: word_le_nat_alt)
  show "falls_by (fnd_currency c) a (unat v) (native s) (native s')"
    using run un refl laws
    by (auto simp: release_fund_def and_then_Inr drop_error_Inr vault_laws_def split: option.splits)
  show "foundation s' = foundation s" "same_tokens s s'"
    using run by (auto simp: release_fund_def and_then_Inr same_tokens_def split: option.splits)
qed

lemma same_tokens_refl: "same_tokens s s"
  by (simp add: same_tokens_def)

lemma same_tokens_trans: "same_tokens s t \<Longrightarrow> same_tokens t u \<Longrightarrow> same_tokens s u"
  by (simp add: same_tokens_def)

lemma release_tokens: "release_fund c e a v s = Inr s' \<Longrightarrow> same_tokens s s'"
  by (auto simp: release_fund_def and_then_Inr same_tokens_def split: option.splits)

lemma unlock_one_tokens:
  assumes "unlock_one c e a f s = Inr s'"
  shows "same_tokens s s'"
proof -
  have "same_tokens s (remove_fund a t)" "same_tokens s (put_fund a f' t)" if "same_tokens s t" for t f'
    using that by (simp_all add: remove_fund_def put_fund_def same_tokens_def)
  then show ?thesis
    using assms unfolding unlock_one_def Let_def and_then_Inr
    by (auto simp: and_then_Inr same_tokens_refl dest!: release_tokens split: if_splits)
qed

lemma initialize_tokens: "foundation_initialize c now s = Inr s' \<Longrightarrow> same_tokens s s'"
proof -
  have each: "unlock_each c e ps t = Inr u \<Longrightarrow> same_tokens t u" for e ps t u
  proof (induction ps arbitrary: t)
    case (Cons p ps)
    then show ?case by (cases p) (auto simp: and_then_Inr intro: same_tokens_trans unlock_one_tokens)
  qed (simp add: same_tokens_refl)
  assume "foundation_initialize c now s = Inr s'"
  then show ?thesis
    by (auto simp: foundation_initialize_def unlock_fund_def and_then_Inr same_tokens_refl split: if_splits dest: each)
qed

lemma times_minus: "0 < t \<Longrightarrow> unat (t - 1 :: u32) = unat t - 1"
  by (simp add: unat_minus_one word_gt_0)

text \<open>The debt of one fund and the reserved balance of its account over one epoch.\<close>

lemma unlock_one_due:
  assumes laws: "vault_laws (fnd_currency c)" and run: "unlock_one c e a f s = Inr s'"
    and f: "map_of (foundation s) a = Some f" "0 < fund_times f" and due: "fund_due (unat e) f \<le> res_of c a s"
    and ok: "funds_ok (foundation s)"
  obtains g where "map_of (foundation s') = (map_of (foundation s))(a := g)"
    and "opt_val (fund_due (Suc (unat e))) g + res_of c a s \<le> fund_due (unat e) f + res_of c a s'"
    and "\<And>b. b \<noteq> a \<Longrightarrow> nc_reserved (fnd_currency c) b (native s') = nc_reserved (fnd_currency c) b (native s)"
    and "funds_ok (foundation s')" and "same_tokens s s'"
proof -
  let ?on = "and_then (word_rem (saturating_sub e (delay_durations f)) (interval_durations f)) (\<lambda>rm. Inr (rm = 0))"
  let ?f' = "f\<lparr>fund_times := fund_times f - 1\<rparr>"
  have pos: "0 < unat (fund_times f)" using f(2) by (simp add: word_less_nat_alt)
  then obtain k where k: "unat (fund_times f) = Suc k" by (cases "unat (fund_times f)") auto
  have left: "unat (fund_times ?f') = k" using f(2) k by (simp add: times_minus)
  have interval: "0 < interval_durations f" using ok map_of_SomeD [OF f(1)] by (auto simp: funds_ok_def)
  have unchanged: "map_of (foundation s) = (map_of (foundation s))(a := Some f)" using f(1) by (simp add: fun_upd_idem)
  obtain regular where reg: "(if delay_durations f < e then ?on else Inr False) = Inr regular"
    and body: "(if regular then
       and_then (release_fund c e a (fund_amount f) s) (\<lambda>s.
         Inr (if fund_times ?f' = 0 then remove_fund a s else put_fund a ?f' s))
     else and_then (if e = delay_durations f then ?on else Inr False) (\<lambda>initial.
       if initial then release_fund c e a (first_amount f) s else Inr s)) = Inr s'"
    using run unfolding unlock_one_def Let_def and_then_Inr by blast
  show thesis
  proof (cases regular)
    case True
    then have late: "unat (delay_durations f) < unat e" using reg by (auto simp: word_less_nat_alt split: if_splits)
    obtain t where t: "release_fund c e a (fund_amount f) s = Inr t"
      and s': "s' = (if fund_times ?f' = 0 then remove_fund a t else put_fund a ?f' t)"
      using body True by (auto simp: and_then_Inr)
    have "unat (fund_amount f) \<le> res_of c a s" using due late k by (simp add: fund_due_def)
    note falls = release_falls [OF laws t this]
    let ?g = "if fund_times ?f' = 0 then None else Some ?f'"
    have due': "opt_val (fund_due (Suc (unat e))) ?g + unat (fund_amount f) = fund_due (unat e) f"
      using late left k by (auto simp: fund_due_def word_unat_eq_iff)
    show thesis
    proof (rule that [of ?g])
      show "map_of (foundation s') = (map_of (foundation s))(a := ?g)"
        using falls(2) by (simp add: s' remove_fund_def put_fund_def)
      show "opt_val (fund_due (Suc (unat e))) ?g + res_of c a s \<le> fund_due (unat e) f + res_of c a s'"
        using falls(1) due' by (auto simp: s' remove_fund_def put_fund_def falls_by_def)
      show "nc_reserved (fnd_currency c) b (native s') = nc_reserved (fnd_currency c) b (native s)" if "b \<noteq> a" for b
        using falls(1) that by (auto simp: s' remove_fund_def put_fund_def falls_by_def)
      show "funds_ok (foundation s')"
        using ok falls(2) interval by (auto simp: s' remove_fund_def put_fund_def word_gt_0 intro!: funds_ok_put funds_ok_drop)
      show "same_tokens s s'" using falls(3) by (auto simp: s' same_tokens_def remove_fund_def put_fund_def)
    qed
  next
    case False
    show thesis
    proof (cases "s' = s")
      case True
      then show thesis
        using fund_due_mono [of "unat e" "Suc (unat e)" f] unchanged ok
        by (intro that [of "Some f"]) (simp_all add: same_tokens_def)
    next
      case False
      then have at: "e = delay_durations f" and t: "release_fund c e a (first_amount f) s = Inr s'"
        using body \<open>\<not> regular\<close> by (auto simp: and_then_Inr split: if_splits)
      have "unat (first_amount f) \<le> res_of c a s" using due at by (simp add: fund_due_def)
      note falls = release_falls [OF laws t this]
      show thesis
        using falls unchanged ok at by (intro that [of "Some f"]) (auto simp: falls_by_def fund_due_def)
    qed
  qed
qed

section \<open>One epoch\<close>

text \<open>
  Whatever \<open>h\<close> others hold of each account, it stays backed together with the debts. While the hook runs, the
  funds it has still to visit owe the epoch \<open>e\<close>, the others only what comes after it.
\<close>

definition debts_backed ::
  "'n foundation_config \<Rightarrow> (account \<Rightarrow> nat) \<Rightarrow> nat \<Rightarrow> account set \<Rightarrow> ('n, 'z) foundation_state_scheme \<Rightarrow> bool" where
  "debts_backed c h e A s \<longleftrightarrow>
    (\<forall>a. h a + account_due (if a \<in> A then e else Suc e) (foundation s) a \<le> res_of c a s)"

lemma debts_backed_step:
  assumes "debts_backed c h e (insert a A) s" and "a \<notin> A" and "map_of (foundation s) a = Some f"
    and g: "map_of (foundation s') = (map_of (foundation s))(a := g)"
      "opt_val (fund_due (Suc e)) g + res_of c a s \<le> fund_due e f + res_of c a s'"
      "\<And>b. b \<noteq> a \<Longrightarrow> nc_reserved (fnd_currency c) b (native s') = nc_reserved (fnd_currency c) b (native s)"
  shows "debts_backed c h e A s'"
  unfolding debts_backed_def
proof
  fix b
  have b: "h b + account_due (if b \<in> insert a A then e else Suc e) (foundation s) b \<le> res_of c b s"
    using assms(1) unfolding debts_backed_def by blast
  show "h b + account_due (if b \<in> A then e else Suc e) (foundation s') b \<le> res_of c b s'"
  proof (cases "b = a")
    case True
    then show ?thesis using b assms(2,3) g(1,2) by (simp add: account_due_def)
  next
    case False
    then show ?thesis using b g(1,3) by (simp add: account_due_def)
  qed
qed

lemma unlock_each_due:
  assumes laws: "vault_laws (fnd_currency c)"
  shows "unlock_each c e ps s = Inr s' \<Longrightarrow> distinct (List.map fst ps)
    \<Longrightarrow> \<forall>(a, f) \<in> set ps. map_of (foundation s) a = Some f \<and> 0 < fund_times f
    \<Longrightarrow> funds_ok (foundation s) \<Longrightarrow> debts_backed c h (unat e) (fst ` set ps) s
    \<Longrightarrow> debts_backed c h (unat e) {} s' \<and> funds_ok (foundation s') \<and> same_tokens s s'"
proof (induction ps arbitrary: s)
  case (Cons p ps)
  obtain a f where p: "p = (a, f)" by (cases p)
  obtain t where t: "unlock_one c e a f s = Inr t" and rest: "unlock_each c e ps t = Inr s'"
    using Cons.prems(1) by (auto simp: p and_then_Inr)
  have f: "map_of (foundation s) a = Some f" "0 < fund_times f" and fresh: "a \<notin> fst ` set ps"
    using Cons.prems(2,3) by (auto simp: p)
  have backed: "debts_backed c h (unat e) (insert a (fst ` set ps)) s" using Cons.prems(5) by (simp add: p)
  then have "h a + fund_due (unat e) f \<le> res_of c a s"
    using f(1) unfolding debts_backed_def by (auto simp: account_due_def dest: spec [of _ a])
  then obtain g where g: "map_of (foundation t) = (map_of (foundation s))(a := g)"
    and due: "opt_val (fund_due (Suc (unat e))) g + res_of c a s \<le> fund_due (unat e) f + res_of c a t"
    and other: "\<And>b. b \<noteq> a \<Longrightarrow> nc_reserved (fnd_currency c) b (native t) = nc_reserved (fnd_currency c) b (native s)"
    and ok: "funds_ok (foundation t)" "same_tokens s t"
    using unlock_one_due [OF laws t f _ Cons.prems(4)] by (metis add_leD2)
  have "\<forall>(b, g) \<in> set ps. map_of (foundation t) b = Some g \<and> 0 < fund_times g"
    using Cons.prems(3) fresh g by (force simp: p)
  then have "debts_backed c h (unat e) {} s' \<and> funds_ok (foundation s') \<and> same_tokens t s'"
    using Cons.prems(2) debts_backed_step [OF backed fresh f(1) g due other] ok(1)
    by (intro Cons.IH [OF rest]) (simp_all add: p)
  then show ?case using ok(2) by (simp add: same_tokens_def)
qed (simp add: same_tokens_def)

lemma unlock_fund_due:
  assumes "vault_laws (fnd_currency c)" and "unlock_fund c e s = Inr s'" and "funds_ok (foundation s)"
    and "\<And>a. h a + account_due (unat e) (foundation s) a \<le> res_of c a s"
  shows "h a + account_due (Suc (unat e)) (foundation s') a \<le> res_of c a s'"
    and "funds_ok (foundation s')" and "same_tokens s s'"
proof -
  have "debts_backed c h (unat e) (fst ` set (foundation s)) s"
    unfolding debts_backed_def
  proof
    fix a
    have "map_of (foundation s) a = None" if "a \<notin> fst ` set (foundation s)"
      using that by (simp add: map_of_eq_None_iff)
    then show "h a + account_due (if a \<in> fst ` set (foundation s) then unat e else Suc (unat e)) (foundation s) a \<le> res_of c a s"
      using assms(4) [of a] by (auto simp: account_due_def)
  qed
  then have "debts_backed c h (unat e) {} s' \<and> funds_ok (foundation s') \<and> same_tokens s s'"
    using assms(2,3) unfolding unlock_fund_def
    by (intro unlock_each_due [OF assms(1)]) (auto simp: funds_ok_def)
  then show "h a + account_due (Suc (unat e)) (foundation s') a \<le> res_of c a s'"
    and "funds_ok (foundation s')" and "same_tokens s s'"
    by (auto simp: debts_backed_def)
qed

section \<open>The operations of the pallet\<close>

text \<open>The epoch that comes next in block \<open>now\<close>, and the hook at the start of a later block.\<close>

definition next_epoch :: "block_number \<Rightarrow> block_number \<Rightarrow> nat" where
  "next_epoch d now = Suc (unat now div unat d)"

lemma next_epoch_mono: "m \<le> n \<Longrightarrow> next_epoch d m \<le> next_epoch d n"
  by (simp add: next_epoch_def div_le_mono word_le_nat_alt)

lemma next_epoch_exact: "n mod d = 0 \<Longrightarrow> m < n \<Longrightarrow> next_epoch d m \<le> unat (n div d)"
proof (cases "d = 0")
  case False
  assume n: "n mod d = 0" and m: "m < n"
  have d: "0 < unat d" using False by (simp add: unat_gt_0)
  have "unat n mod unat d = 0" using n by (metis unat_0 unat_mod)
  then obtain k where k: "unat n = unat d * k" by auto
  have "unat m < unat d * k" using m k by (simp add: word_less_nat_alt)
  then have "unat m div unat d < k" using d by (simp add: less_mult_imp_div_less mult.commute)
  moreover have "unat (n div d) = k" using k d by (simp add: unat_div)
  ultimately show ?thesis by (simp add: next_epoch_def)
qed (auto simp: next_epoch_def)

lemma initialize_due:
  assumes laws: "vault_laws (fnd_currency c)" and run: "foundation_initialize c now s = Inr s'"
    and ok: "funds_ok (foundation s)" and late: "before < now"
    and due: "\<And>a. h a + account_due (next_epoch (fnd_duration c) before) (foundation s) a \<le> res_of c a s"
  shows "h a + account_due (next_epoch (fnd_duration c) now) (foundation s') a \<le> res_of c a s'"
    and "funds_ok (foundation s')" and "same_tokens s s'"
proof -
  let ?d = "fnd_duration c"
  have "(h a + account_due (next_epoch ?d now) (foundation s') a \<le> res_of c a s')
    \<and> funds_ok (foundation s') \<and> same_tokens s s'"
  proof (cases "now mod ?d = 0")
    case True
    have d: "?d \<noteq> 0" using run by (auto simp: foundation_initialize_def word_rem_def and_then_def)
    have unlock: "unlock_fund c (now div ?d) s = Inr s'"
      using run True d by (simp add: foundation_initialize_def word_rem_def word_div_def)
    have before: "h b + account_due (unat (now div ?d)) (foundation s) b \<le> res_of c b s" for b
      using due [of b] account_due_mono [OF next_epoch_exact [OF True late], of "foundation s" b] by linarith
    have "Suc (unat (now div ?d)) = next_epoch ?d now" by (simp add: next_epoch_def unat_div)
    then show ?thesis using unlock_fund_due [OF laws unlock ok before] by simp
  next
    case False
    then have "s' = s" using run by (auto simp: foundation_initialize_def word_rem_def and_then_Inr split: if_splits)
    moreover have "account_due (next_epoch ?d now) (foundation s) a \<le> account_due (next_epoch ?d before) (foundation s) a"
      using late by (intro account_due_mono next_epoch_mono) simp
    ultimately show ?thesis using due [of a] ok by (auto simp: same_tokens_def)
  qed
  then show "h a + account_due (next_epoch ?d now) (foundation s') a \<le> res_of c a s'"
    and "funds_ok (foundation s')" and "same_tokens s s'" by blast+
qed

text \<open>A fund whose total is a \<open>u128\<close>, which pays at least once and at an interval, is backed when it is put.\<close>

definition sound_fund :: "foundation_data \<Rightarrow> bool" where
  "sound_fund f \<longleftrightarrow> 0 < fund_times f \<and> 0 < interval_durations f
    \<and> unat (fund_times f) * unat (fund_amount f) + unat (first_amount f) < 2 ^ 128"

lemma sound_total:
  assumes "sound_fund f"
  shows "unat (fund_total f) = unat (fund_times f) * unat (fund_amount f) + unat (first_amount f)"
proof -
  show ?thesis
    using assms unfolding fund_total_def sound_fund_def
    by (subst unat_add_lem [THEN iffD1]; subst unat_mult_lem [THEN iffD1]) (simp_all add: unat_ucast_u32 mult.commute)
qed

lemma put_into_vault_due:
  assumes laws: "vault_laws (fnd_currency c)" and run: "put_into_vault c o' a f need s = Inr s'"
    and ok: "funds_ok (foundation s)" and sound: "sound_fund f"
  shows "h b + account_due e (foundation s) b \<le> res_of c b s \<Longrightarrow> h b + account_due e (foundation s') b \<le> res_of c b s'"
    and "funds_ok (foundation s')" and "same_tokens s s'"
proof -
  obtain seller n m where n: "nc_transfer (fnd_currency c) seller a (fund_total f) (native s) = Inr n"
    and m: "nc_reserve (fnd_currency c) a (fund_total f) n = Inr m"
    and new: "get_fund a s = None"
    and s': "foundation s' = put_entry a f (foundation s)" "native s' = m" "same_tokens s s'"
    using run by (auto simp: put_into_vault_def Let_def and_then_Inr ensure_Inr put_fund_def same_tokens_def)
  have kept: "keeps_reserved (fnd_currency c) (native s) n"
    and moved: "moves_reserved (fnd_currency c) a (unat (fund_total f)) 0 n m"
    using laws n m balances_lawsD(1,4) by (auto simp: vault_laws_def)
  have most: "fund_due e f \<le> unat (fund_total f)" using sound_total [OF sound] by (simp add: fund_due_def)
  have none: "map_of (foundation s) a = None" using new by (simp add: get_fund_def)
  show "h b + account_due e (foundation s') b \<le> res_of c b s'" if "h b + account_due e (foundation s) b \<le> res_of c b s"
    using that kept moved most none s'(1,2)
    by (cases "b = a") (auto simp: account_due_def keeps_reserved_def moves_reserved_def)
  show "funds_ok (foundation s')" using ok sound by (simp add: s'(1) funds_ok_put sound_fund_def)
  show "same_tokens s s'" by (rule s'(3))
qed

lemma approve_frame:
  "approve o' a e s = Inr s' \<Longrightarrow> foundation s' = foundation s \<and> native s' = native s \<and> same_tokens s s'"
  by (auto simp: approve_def and_then_Inr ensure_Inr same_tokens_def split: option.splits)

section \<open>The hook returns\<close>

lemma drop_error_returns: "m \<noteq> Inl Panic \<Longrightarrow> \<exists>s'. drop_error s m = Inr s'"
  by (cases m) (auto simp: drop_error_def split: sum.splits if_splits)

lemma release_returns: "vault_laws (fnd_currency c) \<Longrightarrow> \<exists>s'. release_fund c e a v s = Inr s'"
proof (cases "approvals s (a, e)")
  case (Some b)
  assume "vault_laws (fnd_currency c)"
  then obtain n where "drop_error (native s) (nc_repatriate (fnd_currency c) a b v StatusFree (native s)) = Inr n"
    using drop_error_returns unfolding vault_laws_def by metis
  then show ?thesis using Some by (simp add: release_fund_def)
qed (simp add: release_fund_def)

lemma unlock_one_returns:
  assumes "vault_laws (fnd_currency c)" and "0 < interval_durations f"
  shows "\<exists>s'. unlock_one c e a f s = Inr s'"
proof -
  obtain t u where "release_fund c e a (fund_amount f) s = Inr t" and "release_fund c e a (first_amount f) s = Inr u"
    using release_returns [OF assms(1)] by metis
  then show ?thesis using assms(2) by (auto simp: unlock_one_def word_rem_def Let_def)
qed

lemma unlock_each_returns:
  "vault_laws (fnd_currency c) \<Longrightarrow> \<forall>(a, f) \<in> set ps. 0 < interval_durations f \<Longrightarrow> \<exists>s'. unlock_each c e ps s = Inr s'"
proof (induction ps arbitrary: s)
  case (Cons p ps)
  obtain a f where p: "p = (a, f)" by (cases p)
  obtain t where "unlock_one c e a f s = Inr t" using unlock_one_returns Cons.prems by (force simp: p)
  moreover obtain s' where "unlock_each c e ps t = Inr s'" using Cons by force
  ultimately show ?case by (simp add: p)
qed simp

lemma initialize_returns:
  assumes "vault_laws (fnd_currency c)" and "funds_ok (foundation s)" and "0 < fnd_duration c"
  shows "\<exists>s'. foundation_initialize c now s = Inr s'"
proof -
  have "\<forall>(a, f) \<in> set (foundation s). 0 < interval_durations f" using assms(2) by (auto simp: funds_ok_def)
  from unlock_each_returns [OF assms(1) this] show ?thesis
    using assms(3) by (auto simp: foundation_initialize_def word_rem_def word_div_def unlock_fund_def)
qed

end
