(* ===== verification/Vault_Correct.thy ===== *)
theory Vault_Correct
  imports Vault_Backing
begin

text \<open>
  The schedule of the vault: what its hook pays of one fund over the epochs, among any other funds and whatever
  else happens to the accounts between the epochs.
\<close>

section \<open>One account among the others\<close>

fun concerns :: "account \<Rightarrow> foundation_event \<Rightarrow> bool" where
  "concerns a (PreLockedFundUnlocked b _) \<longleftrightarrow> b = a"
| "concerns a (UnlockedFundAllBalance b) \<longleftrightarrow> b = a"

definition events_of :: "account \<Rightarrow> ('n, 'z) foundation_state_scheme \<Rightarrow> foundation_event list" where
  "events_of a s = filter (concerns a) (foundation_events s)"

text \<open>The fund and the approvals of an account are as before.\<close>

definition left_alone :: "account \<Rightarrow> ('n, 'z) foundation_state_scheme \<Rightarrow> ('n, 'z) foundation_state_scheme \<Rightarrow> bool" where
  "left_alone a s s' \<longleftrightarrow> map_of (foundation s') a = map_of (foundation s) a
    \<and> (\<forall>e. approvals s' (a, e) = approvals s (a, e))"

definition passed_over ::
  "'n foundation_config \<Rightarrow> account \<Rightarrow> ('n, 'z) foundation_state_scheme \<Rightarrow> ('n, 'z) foundation_state_scheme \<Rightarrow> bool" where
  "passed_over c a s s' \<longleftrightarrow> left_alone a s s' \<and> events_of a s' = events_of a s \<and> res_of c a s' = res_of c a s"

lemma passed_over_refl [simp]: "passed_over c a s s"
  by (simp add: passed_over_def left_alone_def)

lemma passed_over_trans: "passed_over c a s t \<Longrightarrow> passed_over c a t u \<Longrightarrow> passed_over c a s u"
  by (simp add: passed_over_def left_alone_def)

lemma release_events:
  assumes "release_fund c e b v s = Inr s'" and "b \<noteq> a"
  shows "events_of a s' = events_of a s \<and> (\<forall>x. approvals s' (a, x) = approvals s (a, x))"
  using assms by (auto simp: release_fund_def and_then_Inr events_of_def split: option.splits)

lemma unlock_one_events:
  assumes "unlock_one c e b g s = Inr s'" and "b \<noteq> a"
  shows "events_of a s' = events_of a s \<and> (\<forall>x. approvals s' (a, x) = approvals s (a, x))"
proof -
  have eq: "events_of a (remove_fund x t) = events_of a t" "events_of a (put_fund x y t) = events_of a t"
    "approvals (remove_fund x t) = approvals t" "approvals (put_fund x y t) = approvals t" for x y t
    by (simp_all add: remove_fund_def put_fund_def events_of_def)
  show ?thesis
    using assms unfolding unlock_one_def Let_def and_then_Inr
    by (auto simp: and_then_Inr eq dest!: release_events [OF _ assms(2)] split: if_splits)
qed

text \<open>What the loop over the funds needs of the state: the funds to visit are there and backed.\<close>

definition to_visit ::
  "'n foundation_config \<Rightarrow> u32 \<Rightarrow> (account \<times> foundation_data) list \<Rightarrow> ('n, 'z) foundation_state_scheme \<Rightarrow> bool" where
  "to_visit c e ps s \<longleftrightarrow> distinct (List.map fst ps)
    \<and> (\<forall>(b, g) \<in> set ps. map_of (foundation s) b = Some g \<and> 0 < fund_times g \<and> 0 < interval_durations g)
    \<and> funds_ok (foundation s) \<and> debts_backed c (\<lambda>_. 0) (unat e) (fst ` set ps) s"

lemma visit_one:
  assumes laws: "vault_laws (fnd_currency c)" and visit: "to_visit c e ((b, g) # ps) s"
    and run: "unlock_one c e b g s = Inr t"
  shows "to_visit c e ps t" and "a \<noteq> b \<Longrightarrow> passed_over c a s t"
proof -
  have g: "map_of (foundation s) b = Some g" "0 < fund_times g" and ok: "funds_ok (foundation s)"
    and fresh: "b \<notin> fst ` set ps" and backed: "debts_backed c (\<lambda>_. 0) (unat e) (insert b (fst ` set ps)) s"
    using visit by (auto simp: to_visit_def)
  have "fund_due (unat e) g \<le> res_of c b s"
    using backed g(1) unfolding debts_backed_def by (auto simp: account_due_def dest: spec [of _ b])
  then obtain h where h: "map_of (foundation t) = (map_of (foundation s))(b := h)"
    and due: "opt_val (fund_due (Suc (unat e))) h + res_of c b s \<le> fund_due (unat e) g + res_of c b t"
    and other: "\<And>x. x \<noteq> b \<Longrightarrow> nc_reserved (fnd_currency c) x (native t) = nc_reserved (fnd_currency c) x (native s)"
    and ok': "funds_ok (foundation t)"
    using unlock_one_due [OF laws run g _ ok] by metis
  have "\<forall>(x, y) \<in> set ps. map_of (foundation t) x = Some y \<and> 0 < fund_times y \<and> 0 < interval_durations y"
    using visit fresh h by (force simp: to_visit_def)
  then show "to_visit c e ps t"
    using visit ok' debts_backed_step [OF backed fresh g(1) h due other] by (simp add: to_visit_def)
  show "passed_over c a s t" if "a \<noteq> b"
    using unlock_one_events [OF run that [symmetric]] other [OF that] h that
    by (simp add: passed_over_def left_alone_def)
qed

lemma visit_returns:
  assumes "vault_laws (fnd_currency c)" and "to_visit c e ((b, g) # ps) s"
  obtains t where "unlock_one c e b g s = Inr t"
  using unlock_one_returns [OF assms(1), of g e b s] assms(2) by (auto simp: to_visit_def)

lemma visit_others:
  assumes laws: "vault_laws (fnd_currency c)"
  shows "to_visit c e ps s \<Longrightarrow> a \<notin> fst ` set ps \<Longrightarrow> \<exists>s'. unlock_each c e ps s = Inr s' \<and> passed_over c a s s'"
proof (induction ps arbitrary: s)
  case (Cons p ps)
  obtain b g where p: "p = (b, g)" by (cases p)
  obtain t where t: "unlock_one c e b g s = Inr t" using visit_returns [OF laws Cons.prems(1) [unfolded p]] .
  obtain s' where "unlock_each c e ps t = Inr s'" "passed_over c a t s'"
    using Cons.IH [OF visit_one(1) [OF laws Cons.prems(1) [unfolded p] t]] Cons.prems(2) by auto
  moreover have "passed_over c a s t"
    using visit_one(2) [OF laws Cons.prems(1) [unfolded p] t] Cons.prems(2) by (simp add: p)
  ultimately show ?case using t by (auto simp: p intro: passed_over_trans)
qed simp

text \<open>The loop visits the fund of an account once; before and after it passes over it.\<close>

lemma visit_account:
  assumes laws: "vault_laws (fnd_currency c)"
  shows "to_visit c e ps s \<Longrightarrow> (a, f) \<in> set ps \<Longrightarrow> \<exists>t t' s'. unlock_each c e ps s = Inr s'
    \<and> passed_over c a s t \<and> map_of (foundation t) a = Some f \<and> fund_due (unat e) f \<le> res_of c a t
    \<and> unlock_one c e a f t = Inr t' \<and> passed_over c a t' s'"
proof (induction ps arbitrary: s)
  case (Cons p ps)
  obtain b g where p: "p = (b, g)" by (cases p)
  note visit = Cons.prems(1) [unfolded p]
  obtain t where t: "unlock_one c e b g s = Inr t" using visit_returns [OF laws visit] .
  show ?case
  proof (cases "a = b")
    case True
    have "b \<notin> fst ` set ps" using visit by (auto simp: to_visit_def)
    then have fresh: "a \<notin> fst ` set ps" using True by simp
    then have g: "g = f" using Cons.prems(2) True by (force simp: p)
    then have "fund_due (unat e) f \<le> res_of c a s" "map_of (foundation s) a = Some f"
      using visit True unfolding to_visit_def debts_backed_def by (auto simp: account_due_def dest: spec [of _ b])
    moreover obtain s' where "unlock_each c e ps t = Inr s'" "passed_over c a t s'"
      using visit_others [OF laws visit_one(1) [OF laws visit t] fresh] by blast
    ultimately show ?thesis using t True g by (intro exI [of _ s] exI [of _ t] exI [of _ s']) (simp add: p)
  next
    case False
    then have "(a, f) \<in> set ps" using Cons.prems(2) by (simp add: p)
    from Cons.IH [OF visit_one(1) [OF laws visit t] this] obtain u t' s' where "unlock_each c e ps t = Inr s'"
      "passed_over c a t u" "map_of (foundation u) a = Some f \<and> fund_due (unat e) f \<le> res_of c a u
      \<and> unlock_one c e a f u = Inr t' \<and> passed_over c a t' s'"
      by blast
    moreover have "passed_over c a s u" using visit_one(2) [OF laws visit t False] calculation(2) by (rule passed_over_trans)
    ultimately show ?thesis using t by (intro exI [of _ u] exI [of _ t'] exI [of _ s']) (simp add: p)
  qed
qed simp

section \<open>The account at its turn\<close>

text \<open>What the hook pays of a fund at an epoch.\<close>

definition pays_at :: "u32 \<Rightarrow> foundation_data \<Rightarrow> u128 option" where
  "pays_at e f =
    (if e = delay_durations f then Some (first_amount f)
     else if delay_durations f < e \<and> (e - delay_durations f) mod interval_durations f = 0 then Some (fund_amount f)
     else None)"

definition fund_after :: "u32 \<Rightarrow> foundation_data \<Rightarrow> foundation_data option" where
  "fund_after e f =
    (if delay_durations f < e \<and> (e - delay_durations f) mod interval_durations f = 0
     then if fund_times f - 1 = 0 then None else Some (f\<lparr>fund_times := fund_times f - 1\<rparr>)
     else Some f)"

definition pays ::
  "'n foundation_config \<Rightarrow> account \<Rightarrow> u128 option
    \<Rightarrow> ('n, 'z) foundation_state_scheme \<Rightarrow> ('n, 'z) foundation_state_scheme \<Rightarrow> bool" where
  "pays c a v s s' \<longleftrightarrow> (\<forall>e. approvals s' (a, e) = approvals s (a, e))
    \<and> events_of a s' = events_of a s @ (case v of None \<Rightarrow> [] | Some v \<Rightarrow> [PreLockedFundUnlocked a v])
    \<and> res_of c a s = res_of c a s' + opt_val unat v"

lemma release_pays:
  assumes laws: "vault_laws (fnd_currency c)" and run: "release_fund c e a v s = Inr s'"
    and "approvals s (a, e) = None" and le: "unat v \<le> res_of c a s"
  shows "pays c a (Some v) s s' \<and> foundation s' = foundation s"
proof -
  have s': "s' = s\<lparr>native := nc_unreserve (fnd_currency c) a v (native s),
      foundation_events := foundation_events s @ [PreLockedFundUnlocked a v]\<rparr>"
    using run assms(3) by (simp add: release_fund_def)
  have "balances_laws (fnd_currency c)" using laws by (simp add: vault_laws_def)
  moreover have "v \<le> nc_reserved (fnd_currency c) a (native s)" using le by (simp add: word_le_nat_alt)
  ultimately have "moves_reserved (fnd_currency c) a 0 (unat v) (native s) (nc_unreserve (fnd_currency c) a v (native s))"
    by (rule balances_lawsD(2))
  then show ?thesis by (simp add: s' pays_def events_of_def moves_reserved_def)
qed

lemma unlock_pays:
  assumes laws: "vault_laws (fnd_currency c)" and run: "unlock_one c e a f s = Inr s'"
    and open': "approvals s (a, e) = None" and f: "map_of (foundation s) a = Some f" "interval_durations f \<noteq> 0"
    and le: "opt_val unat (pays_at e f) \<le> res_of c a s"
  shows "pays c a (pays_at e f) s s' \<and> map_of (foundation s') a = fund_after e f"
proof -
  have same: "pays c a v s (remove_fund a t) = pays c a v s t" "pays c a v s (put_fund a g t) = pays c a v s t" for v t g
    by (simp_all add: pays_def remove_fund_def put_fund_def events_of_def)
  have keys: "map_of (foundation (remove_fund a t)) a = None" "map_of (foundation (put_fund a g t)) a = Some g"
    for t :: "('a, 'b) foundation_state_scheme" and g
    by (simp_all add: remove_fund_def put_fund_def)
  consider (first) "e = delay_durations f"
    | (regular) "delay_durations f < e" "(e - delay_durations f) mod interval_durations f = 0"
    | (none) "e \<noteq> delay_durations f" "\<not> (delay_durations f < e \<and> (e - delay_durations f) mod interval_durations f = 0)"
    by blast
  then show ?thesis
  proof cases
    case first
    then have "release_fund c e a (first_amount f) s = Inr s'"
      using run f(2) by (simp add: unlock_one_def word_rem_def saturating_sub_def)
    from release_pays [OF laws this open'] show ?thesis
      using first le f(1) by (simp add: pays_at_def fund_after_def)
  next
    case regular
    have sub: "saturating_sub e (delay_durations f) = e - delay_durations f"
      using less_imp_le [OF regular(1)] by (simp add: saturating_sub_def)
    obtain t where t: "release_fund c e a (fund_amount f) s = Inr t"
      and s': "s' = (if fund_times f - 1 = 0 then remove_fund a t else put_fund a (f\<lparr>fund_times := fund_times f - 1\<rparr>) t)"
      using run f(2) regular by (auto simp: unlock_one_def word_rem_def sub and_then_Inr Let_def)
    have at: "pays_at e f = Some (fund_amount f)" using regular by (auto simp: pays_at_def)
    from release_pays [OF laws t open'] show ?thesis
      using regular le by (simp add: s' at fund_after_def same keys)
  next
    case none
    then have "s' = s"
      using run f(2) by (auto simp: unlock_one_def word_rem_def saturating_sub_def and_then_Inr Let_def split: if_splits)
    then show ?thesis using none f(1) by (auto simp: pays_at_def fund_after_def pays_def)
  qed
qed

text \<open>One epoch: the account with a fund, and one without.\<close>

definition vault_backed :: "'n foundation_config \<Rightarrow> nat \<Rightarrow> ('n, 'z) foundation_state_scheme \<Rightarrow> bool" where
  "vault_backed c e s \<longleftrightarrow> funds_ok (foundation s) \<and> (\<forall>b. account_due e (foundation s) b \<le> res_of c b s)"

lemma backed_to_visit:
  assumes "vault_backed c (unat e) s"
  shows "to_visit c e (foundation s) s"
proof -
  have "account_due (Suc (unat e)) (foundation s) b \<le> res_of c b s" for b
    using assms account_due_mono [of "unat e" "Suc (unat e)" "foundation s" b] unfolding vault_backed_def
    by (meson le_SucI le_trans order_refl)
  then show ?thesis
    using assms by (auto simp: to_visit_def vault_backed_def debts_backed_def funds_ok_def)
qed

lemma due_covers_payment:
  assumes "0 < fund_times f"
  shows "opt_val unat (pays_at e f) \<le> fund_due (unat e) f"
proof -
  have "0 < unat (fund_times f)" using assms by (simp add: unat_gt_0 word_gt_0)
  then obtain k where "unat (fund_times f) = Suc k" by (cases "unat (fund_times f)") simp_all
  then show ?thesis by (auto simp: pays_at_def fund_due_def)
qed

lemma pays_passed_over:
  assumes "passed_over c a s t" and "pays c a v t t'" and "passed_over c a t' s'"
  shows "pays c a v s s'"
  using assms by (simp add: pays_def passed_over_def left_alone_def)

lemma epoch_pays:
  assumes laws: "vault_laws (fnd_currency c)" and ok: "vault_backed c (unat e) s" and open': "approvals s (a, e) = None"
    and f: "map_of (foundation s) a = Some f"
  shows "\<exists>s'. unlock_fund c e s = Inr s' \<and> pays c a (pays_at e f) s s' \<and> map_of (foundation s') a = fund_after e f"
proof -
  have pos: "0 < fund_times f" "interval_durations f \<noteq> 0"
    using ok map_of_SomeD [OF f] by (auto simp: vault_backed_def funds_ok_def word_gt_0)
  obtain t t' s' where run: "unlock_each c e (foundation s) s = Inr s'" and t: "passed_over c a s t"
    "map_of (foundation t) a = Some f" "fund_due (unat e) f \<le> res_of c a t" "unlock_one c e a f t = Inr t'"
    and s': "passed_over c a t' s'"
    using visit_account [OF laws backed_to_visit [OF ok] map_of_SomeD [OF f]] by blast
  have "approvals t (a, e) = None" using t(1) open' by (simp add: passed_over_def left_alone_def)
  moreover have "opt_val unat (pays_at e f) \<le> res_of c a t" using due_covers_payment [OF pos(1)] t(3) by (rule le_trans)
  ultimately have "pays c a (pays_at e f) t t'" "map_of (foundation t') a = fund_after e f"
    using unlock_pays [OF laws t(4) _ t(2) pos(2)] by blast+
  then show ?thesis
    using run pays_passed_over [OF t(1) _ s'] s' by (auto simp: unlock_fund_def passed_over_def left_alone_def)
qed

lemma epoch_passes:
  assumes laws: "vault_laws (fnd_currency c)" and ok: "vault_backed c (unat e) s" and none: "map_of (foundation s) a = None"
  shows "\<exists>s'. unlock_fund c e s = Inr s' \<and> passed_over c a s s'"
proof -
  have "a \<notin> fst ` set (foundation s)" using none by (simp add: map_of_eq_None_iff)
  from visit_others [OF laws backed_to_visit [OF ok] this] show ?thesis by (simp add: unlock_fund_def)
qed

section \<open>The schedule\<close>

text \<open>What is paid \<open>i\<close> epochs after the delay, and what is left of the fund after \<open>k\<close> regular payments.\<close>

definition schedule :: "foundation_data \<Rightarrow> nat \<Rightarrow> u128 option" where
  "schedule f i =
    (if i = 0 then Some (first_amount f)
     else if unat (interval_durations f) dvd i \<and> i div unat (interval_durations f) \<le> unat (fund_times f)
     then Some (fund_amount f) else None)"

definition still_owed :: "foundation_data \<Rightarrow> nat \<Rightarrow> foundation_data option" where
  "still_owed f k = (if k < unat (fund_times f) then Some (f\<lparr>fund_times := fund_times f - word_of_nat k\<rparr>) else None)"

lemma schedule_step:
  assumes i: "0 < interval_durations f" and fits: "unat (delay_durations f) + Suc m < 2 ^ 32"
    and k: "k = m div unat (interval_durations f)" "k < unat (fund_times f)"
  shows "pays_at (delay_durations f + word_of_nat (Suc m)) (f\<lparr>fund_times := fund_times f - word_of_nat k\<rparr>) = schedule f (Suc m)"
    and "fund_after (delay_durations f + word_of_nat (Suc m)) (f\<lparr>fund_times := fund_times f - word_of_nat k\<rparr>)
      = still_owed f (Suc m div unat (interval_durations f))"
proof -
  let ?i = "unat (interval_durations f)" and ?m = "word_of_nat (Suc m) :: u32"
  have m: "unat ?m = Suc m" using fits by (simp add: unat_of_nat del: of_nat_Suc)
  then have "unat (delay_durations f + ?m) = unat (delay_durations f) + Suc m"
    using fits by (subst unat_add_lem [THEN iffD1]) simp_all
  then have later: "delay_durations f < delay_durations f + ?m" by (simp add: word_less_nat_alt)
  have rest: "(delay_durations f + ?m - delay_durations f) mod interval_durations f = 0 \<longleftrightarrow> ?i dvd Suc m"
    by (simp add: word_unat_eq_iff unat_mod m mod_eq_0_iff_dvd del: of_nat_Suc)
  have next_k: "?i dvd Suc m \<Longrightarrow> Suc m div ?i = Suc k" "\<not> ?i dvd Suc m \<Longrightarrow> Suc m div ?i = k"
    by (simp_all add: k(1) div_Suc mod_eq_0_iff_dvd)
  have times: "unat (fund_times f) < 2 ^ LENGTH(32)" by (rule unsigned_less)
  have left: "fund_times f - word_of_nat k - 1 = fund_times f - word_of_nat (Suc k)" by simp
  have sk: "unat (word_of_nat (Suc k) :: u32) = Suc k" using k(2) times by (simp add: unat_of_nat del: of_nat_Suc)
  have "unat (fund_times f - word_of_nat (Suc k)) = unat (fund_times f) - Suc k"
    using k(2) sk by (subst unat_sub) (simp_all add: word_le_nat_alt del: of_nat_Suc)
  then have over: "fund_times f - word_of_nat (Suc k) = 0 \<longleftrightarrow> \<not> Suc k < unat (fund_times f)"
    using k(2) by (auto simp: word_unat_eq_iff)
  then have last: "fund_times f - word_of_nat k = 1 \<longleftrightarrow> \<not> Suc k < unat (fund_times f)"
    using left by (metis right_minus_eq)
  have ne: "delay_durations f + ?m \<noteq> delay_durations f" using later by auto
  show "pays_at (delay_durations f + ?m) (f\<lparr>fund_times := fund_times f - word_of_nat k\<rparr>) = schedule f (Suc m)"
    using later rest ne next_k(1) k(2) by (auto simp: pays_at_def schedule_def simp del: of_nat_Suc add_diff_cancel_left')
  show "fund_after (delay_durations f + ?m) (f\<lparr>fund_times := fund_times f - word_of_nat k\<rparr>)
      = still_owed f (Suc m div ?i)"
    using later rest next_k k(2) left last
    by (cases "?i dvd Suc m") (simp_all add: fund_after_def still_owed_def del: of_nat_Suc add_diff_cancel_left')
qed

lemma schedule_over:
  assumes "unat (fund_times f) \<le> m div unat (interval_durations f)"
  shows "schedule f (Suc m) = None" and "still_owed f (Suc m div unat (interval_durations f)) = None"
proof -
  have "m div unat (interval_durations f) \<le> Suc m div unat (interval_durations f)" by (rule div_le_mono) simp
  then have "unat (fund_times f) \<le> Suc m div unat (interval_durations f)" using assms by linarith
  then show "still_owed f (Suc m div unat (interval_durations f)) = None" by (simp add: still_owed_def)
  have "unat (interval_durations f) dvd Suc m \<Longrightarrow> Suc m div unat (interval_durations f) = Suc (m div unat (interval_durations f))"
    by (simp add: div_Suc mod_eq_0_iff_dvd)
  then show "schedule f (Suc m) = None" using assms by (auto simp: schedule_def)
qed

text \<open>The fund at the start of the epoch \<open>i\<close> after the delay, and what the hook makes of it.\<close>

definition owed_before :: "foundation_data \<Rightarrow> nat \<Rightarrow> foundation_data option" where
  "owed_before f i = (case i of 0 \<Rightarrow> Some f | Suc m \<Rightarrow> still_owed f (m div unat (interval_durations f)))"

lemma epoch_on_schedule:
  assumes laws: "vault_laws (fnd_currency c)"
    and e: "e = delay_durations f + word_of_nat i" "unat (delay_durations f) + i < 2 ^ 32"
    and ok: "vault_backed c (unat e) s" and open': "\<forall>e. approvals s (a, e) = None"
    and fund: "map_of (foundation s) a = owed_before f i" and f: "0 < fund_times f" "0 < interval_durations f"
  shows "\<exists>s'. unlock_fund c e s = Inr s' \<and> pays c a (schedule f i) s s'
    \<and> map_of (foundation s') a = still_owed f (i div unat (interval_durations f))"
proof (cases i)
  case 0
  then have fund: "map_of (foundation s) a = Some f" and e: "e = delay_durations f"
    using assms(6,2) by (simp_all add: owed_before_def)
  have "pays_at e f = schedule f i" "fund_after e f = still_owed f (i div unat (interval_durations f))"
    using f(1) 0 by (simp_all add: e pays_at_def schedule_def fund_after_def still_owed_def unat_gt_0 word_gt_0)
  then show ?thesis using epoch_pays [OF laws ok _ fund] open' by simp
next
  case (Suc m)
  let ?k = "m div unat (interval_durations f)"
  have fund: "map_of (foundation s) a = still_owed f ?k" using assms(6) Suc by (simp add: owed_before_def)
  show ?thesis
  proof (cases "?k < unat (fund_times f)")
    case True
    then have g: "map_of (foundation s) a = Some (f\<lparr>fund_times := fund_times f - word_of_nat ?k\<rparr>)"
      using fund by (simp add: still_owed_def)
    note step = schedule_step [OF f(2) e(2) [unfolded Suc] refl True]
    show ?thesis using epoch_pays [OF laws ok _ g] open' step unfolding Suc e(1) by simp
  next
    case False
    then have none: "map_of (foundation s) a = None" and over: "unat (fund_times f) \<le> ?k"
      using fund by (simp_all add: still_owed_def)
    obtain s' where "unlock_fund c e s = Inr s'" "passed_over c a s s'" using epoch_passes [OF laws ok none] by blast
    then show ?thesis
      using none schedule_over [OF over] by (simp add: Suc passed_over_def left_alone_def pays_def)
  qed
qed

text \<open>
  C34. The vault pays out by its schedule. Let an account have a fund without open approvals in a vault with any
  other funds, and look at the epochs from its delay on: in each of them the hook goes through, and for this
  account it releases the first amount in the first one, then one regular amount at every interval, as many as
  agreed, and nothing in the other epochs and after the last; every release is recorded and lowers the reserved
  balance of the account by just the amount, and after the last the fund is gone. Between the epochs anything
  may happen that leaves the fund and the approvals of the account alone. At each of the epochs every fund in the
  vault has payments left and a positive interval, and what is owed to an account is within its reserved balance
  (\<open>chain_vault_backed\<close>: so it is on a chain where only sound funds are put into the vault); the first blocks of
  the epochs are within the range of block numbers; \<open>pallet_balances\<close> keeps its documented laws.
\<close>

theorem vault_pays_out:
  assumes laws: "vault_laws (fnd_currency c)" and duration: "0 < fnd_duration c"
    and range: "(unat (delay_durations f) + n) * unat (fnd_duration c) < 2 ^ 32"
    and fund: "map_of (foundation (st 0)) a = Some f" and open': "\<forall>e. approvals (st 0) (a, e) = None"
    and backed: "\<And>i. i \<le> n \<Longrightarrow> vault_backed c (unat (delay_durations f) + i) (st i)"
    and between: "\<And>i t. i < n \<Longrightarrow>
      foundation_initialize c ((delay_durations f + word_of_nat i) * fnd_duration c) (st i) = Inr t \<Longrightarrow> left_alone a t (st (Suc i))"
    and i: "i \<le> n"
  shows "\<exists>t. foundation_initialize c ((delay_durations f + word_of_nat i) * fnd_duration c) (st i) = Inr t
    \<and> events_of a t = events_of a (st i) @ (case schedule f i of None \<Rightarrow> [] | Some v \<Rightarrow> [PreLockedFundUnlocked a v])
    \<and> res_of c a (st i) = res_of c a t + (case schedule f i of None \<Rightarrow> 0 | Some v \<Rightarrow> unat v)
    \<and> map_of (foundation t) a = still_owed f (i div unat (interval_durations f))"
proof -
  have f: "0 < fund_times f" "0 < interval_durations f"
    using backed [of 0] map_of_SomeD [OF fund] by (auto simp: vault_backed_def funds_ok_def)
  have d: "0 < unat (fnd_duration c)" using duration by (simp add: unat_gt_0 word_gt_0)
  have fits: "(unat (delay_durations f) + j) * unat (fnd_duration c) < 2 ^ 32" if "j \<le> n" for j
  proof -
    have "(unat (delay_durations f) + j) * unat (fnd_duration c) \<le> (unat (delay_durations f) + n) * unat (fnd_duration c)"
      using that by (intro mult_le_mono1) simp
    then show ?thesis using range by (rule le_less_trans)
  qed
  have small: "unat (delay_durations f) + j < 2 ^ 32" if "j \<le> n" for j
  proof -
    have "unat (delay_durations f) + j \<le> (unat (delay_durations f) + j) * unat (fnd_duration c)" using d by simp
    then show ?thesis using fits [OF that] by (rule le_less_trans)
  qed
  have e: "unat (delay_durations f + word_of_nat j) = unat (delay_durations f) + j" if "j \<le> n" for j
    using small [OF that] by (subst unat_add_lem [THEN iffD1]) (simp_all add: unat_of_nat)
  have step: "\<exists>t. foundation_initialize c ((delay_durations f + word_of_nat j) * fnd_duration c) (st j) = Inr t
      \<and> pays c a (schedule f j) (st j) t \<and> map_of (foundation t) a = still_owed f (j div unat (interval_durations f))"
    if j: "j \<le> n" and at: "map_of (foundation (st j)) a = owed_before f j" "\<forall>e. approvals (st j) (a, e) = None" for j
    using epoch_on_schedule [OF laws refl small [OF j] _ at(2,1) f] backed [OF j] e [OF j]
      initialize_at_epoch [OF duration, of "delay_durations f + word_of_nat j" "st j"] fits [OF j]
    by simp
  have "map_of (foundation (st j)) a = owed_before f j \<and> (\<forall>e. approvals (st j) (a, e) = None)" if "j \<le> n" for j
    using that
  proof (induction j)
    case 0
    then show ?case using fund open' by (simp add: owed_before_def)
  next
    case (Suc j)
    then obtain t where t: "foundation_initialize c ((delay_durations f + word_of_nat j) * fnd_duration c) (st j) = Inr t"
      "pays c a (schedule f j) (st j) t" "map_of (foundation t) a = still_owed f (j div unat (interval_durations f))"
      using step [of j] by auto
    have "left_alone a t (st (Suc j))" using Suc.prems t(1) by (intro between) simp_all
    then show ?case using t(2,3) Suc by (simp add: left_alone_def pays_def owed_before_def)
  qed
  then show ?thesis using step [OF i] i by (auto simp: pays_def opt_val_def)
qed

text \<open>The hook itself keeps the debts backed.\<close>

lemma hook_keeps_backed:
  assumes laws: "vault_laws (fnd_currency c)" and ok: "vault_backed c (unat e) s" and run: "unlock_fund c e s = Inr t"
  shows "vault_backed c (Suc (unat e)) t"
proof -
  have ok': "funds_ok (foundation s)" and due: "\<And>b. 0 + account_due (unat e) (foundation s) b \<le> res_of c b s"
    using ok by (simp_all add: vault_backed_def)
  show ?thesis
    using unlock_fund_due(1) [OF laws run ok' due] unlock_fund_due(2) [OF laws run ok' due] by (simp add: vault_backed_def)
qed

text \<open>Two funds: account 5 is owed 100 at epoch 3 and 300 twice, account 6 is paid in every epoch from 4 on.\<close>

definition demo_vault :: "ref_native foundation_state" where
  "demo_vault = token_state.extend (ref_token_state\<lparr>native := rn_put 6 (0, 35) (rn_put 5 (0, 700) rn_empty)\<rparr>)
    \<lparr>foundation =
       [(6, \<lparr>delay_durations = 4, interval_durations = 1, fund_times = 3, fund_amount = 10, first_amount = 5\<rparr>),
        (5, \<lparr>delay_durations = 3, interval_durations = 2, fund_times = 2, fund_amount = 300, first_amount = 100\<rparr>)],
     approvals = (\<lambda>_. None), foundation_events = []\<rparr>"

definition demo_vault_config :: "ref_native foundation_config" where
  "demo_vault_config = \<lparr>fnd_currency = ref_currency, fnd_duration = 10\<rparr>"

primrec demo_epoch :: "nat \<Rightarrow> ref_native foundation_state" where
  "demo_epoch 0 = demo_vault"
| "demo_epoch (Suc i) = (case foundation_initialize demo_vault_config ((3 + word_of_nat i) * 10) (demo_epoch i) of
     Inl _ \<Rightarrow> demo_epoch i | Inr t \<Rightarrow> t)"

lemma demo_vault_backed: "vault_backed demo_vault_config 3 demo_vault"
  by (auto simp: vault_backed_def funds_ok_def demo_vault_def demo_vault_config_def token_state.extend_def
      account_due_def fund_due_def ref_currency_def rn_put_def)

lemma demo_epoch_backed:
  assumes laws: "vault_laws ref_currency"
  shows "i \<le> 5 \<Longrightarrow> vault_backed demo_vault_config (3 + i) (demo_epoch i)"
proof (induction i)
  case 0
  then show ?case using demo_vault_backed by simp
next
  case (Suc i)
  let ?e = "3 + word_of_nat i :: u32"
  have e: "unat ?e = 3 + i" using Suc.prems by (subst unat_add_lem [THEN iffD1]) (simp_all add: unat_of_nat)
  have laws': "vault_laws (fnd_currency demo_vault_config)" using laws by (simp add: demo_vault_config_def)
  have backed: "vault_backed demo_vault_config (unat ?e) (demo_epoch i)" using Suc e by simp
  have "foundation_initialize demo_vault_config (?e * fnd_duration demo_vault_config) (demo_epoch i)
      = unlock_fund demo_vault_config ?e (demo_epoch i)"
    using Suc.prems by (intro initialize_at_epoch) (simp_all add: e demo_vault_config_def)
  moreover have "\<forall>(a, f) \<in> set (foundation (demo_epoch i)). 0 < interval_durations f"
    using backed by (auto simp: vault_backed_def funds_ok_def)
  from unlock_each_returns [OF laws' this]
  obtain t where t: "unlock_fund demo_vault_config ?e (demo_epoch i) = Inr t" unfolding unlock_fund_def by blast
  ultimately have "demo_epoch (Suc i) = t" by (simp add: demo_vault_config_def)
  then show ?case using hook_keeps_backed [OF laws' backed t] by (simp add: e)
qed

theorem vault_pays_out_witness:
  "\<exists>t. foundation_initialize demo_vault_config 70 (demo_epoch 4) = Inr t
    \<and> events_of 5 t = events_of 5 (demo_epoch 4) @ [PreLockedFundUnlocked 5 300]
    \<and> res_of demo_vault_config 5 (demo_epoch 4) = res_of demo_vault_config 5 t + 300
    \<and> map_of (foundation t) 5 = None"
proof -
  let ?f = "\<lparr>delay_durations = 3, interval_durations = 2, fund_times = 2, fund_amount = 300, first_amount = 100\<rparr>"
  have laws: "vault_laws ref_currency" by (rule ref_vault_laws)
  have start: "map_of (foundation (demo_epoch 0)) 5 = Some ?f" "\<forall>e. approvals (demo_epoch 0) (5, e) = None"
    by (simp_all add: demo_vault_def token_state.extend_def)
  have four: "schedule ?f 4 = Some 300" "still_owed ?f (4 div unat (interval_durations ?f)) = None"
    by (simp_all add: schedule_def still_owed_def)
  have "(3 + word_of_nat 4) * 10 = (70 :: u32)" by simp
  moreover have "vault_laws (fnd_currency demo_vault_config)" "0 < fnd_duration demo_vault_config"
    using laws by (simp_all add: demo_vault_config_def)
  ultimately show ?thesis
    using vault_pays_out [of demo_vault_config ?f 5 demo_epoch 5 4] start demo_epoch_backed [OF laws] four
    by (auto simp: left_alone_def demo_vault_config_def)
qed

end
