(* ===== verification/Tournament_State.thy ===== *)
theory Tournament_State
  imports Bridge_Handler "HOL-Library.Product_Lexorder"
begin

text \<open>
  \<open>pallets/abyss-tournament/src/lib.rs\<close>, data: seasons of battles between characters (NPCs), tickets with
  which participants predict the winners, and bets on single battles with fixed odds.

  \<open>SeasonWinners\<close> and \<open>VotesForCalc\<close> hold ordered maps, lists in key order; \<open>ParticipantPoints\<close> is
  iterated, so it is an association list. The time is the moment of \<open>pallet_timestamp\<close> in
  milliseconds. Decoding of dates, addresses and invite codes and the derived accounts are parameters.
\<close>

type_synonym object_id = u32
type_synonym odds_number = u16
type_synonym select_index = u16
type_synonym score = u8

section \<open>Kinds and statuses\<close>

datatype season_status = SeasonInitial | SeasonActive | SeasonFinalized

datatype battle_status = BattleRunning | BattleCompleted | BattleFinalized

datatype battle_type = SixteenthFinals | EighthFinals | QuarterFinals | SemiFinals | Finals | League

datatype betting_type = BettingScore | BettingWinLose

fun total_battles :: "battle_type \<Rightarrow> u8" where
  "total_battles SixteenthFinals = 31"
| "total_battles EighthFinals = 15"
| "total_battles QuarterFinals = 7"
| "total_battles SemiFinals = 3"
| "total_battles Finals = 1"
| "total_battles League = 35"

fun battle_type_u8 :: "battle_type \<Rightarrow> u8" where
  "battle_type_u8 SixteenthFinals = 16"
| "battle_type_u8 EighthFinals = 8"
| "battle_type_u8 QuarterFinals = 4"
| "battle_type_u8 SemiFinals = 2"
| "battle_type_u8 Finals = 1"
| "battle_type_u8 League = 255"

definition battle_type_of :: "u8 \<Rightarrow> battle_type option" where
  "battle_type_of v =
    (if v = 255 then Some League else if v = 16 then Some SixteenthFinals else if v = 8 then Some EighthFinals
     else if v = 4 then Some QuarterFinals else if v = 2 then Some SemiFinals else if v = 1 then Some Finals
     else None)"

section \<open>Battles\<close>

record npc =
  npc_name :: bytes
  npc_img_url :: bytes
  npc_story :: bytes
  npc_features :: bytes

record vote_select =
  vs_battle_id :: object_id
  vs_npc_id :: object_id

record vote_select_info =
  vs_ticket_amount :: u32
  vs_selects :: "vote_select list"

record battle =
  btl_season :: object_id
  btl_season_name :: bytes
  btl_home :: object_id
  btl_type :: battle_type
  btl_visiting :: object_id
  btl_status :: battle_status
  btl_start_time :: u64
  btl_position :: u8
  btl_home_score :: "score option"
  btl_visiting_score :: "score option"
  btl_video_url :: bytes

record battle_abstract =
  abs_season :: object_id
  abs_home :: object_id
  abs_visiting :: object_id
  abs_start_time :: u64
  abs_home_score :: score
  abs_visiting_score :: score

text \<open>\<open>unwrap\<close>, and the order of \<open>Option\<close>: \<open>None\<close> is below every value.\<close>

definition unwrap :: "'a option \<Rightarrow> 'a result" where
  "unwrap x = ok_or x Panic"

fun opt_less :: "'a::linorder option \<Rightarrow> 'a option \<Rightarrow> bool" where
  "opt_less _ None = False"
| "opt_less None (Some _) = True"
| "opt_less (Some a) (Some b) = (a < b)"

text \<open>The difference of the scores, the winner and the loser.\<close>

definition battle_calc :: "battle \<Rightarrow> (u8 \<times> object_id \<times> object_id) result" where
  "battle_calc b =
    (if opt_less (btl_visiting_score b) (btl_home_score b) then
       and_then (unwrap (btl_home_score b)) (\<lambda>h.
       and_then (unwrap (btl_visiting_score b)) (\<lambda>v.
       Inr (h - v, btl_home b, btl_visiting b)))
     else
       and_then (unwrap (btl_visiting_score b)) (\<lambda>v.
       and_then (unwrap (btl_home_score b)) (\<lambda>h.
       Inr (v - h, btl_visiting b, btl_home b))))"

definition battle_abstract_of :: "battle \<Rightarrow> battle_abstract result" where
  "battle_abstract_of b =
    and_then (unwrap (btl_home_score b)) (\<lambda>h.
    and_then (unwrap (btl_visiting_score b)) (\<lambda>v.
    Inr \<lparr>abs_season = btl_season b, abs_home = btl_home b, abs_visiting = btl_visiting b,
         abs_start_time = btl_start_time b, abs_home_score = h, abs_visiting_score = v\<rparr>))"

section \<open>Bets\<close>

record odds_item =
  od_win_lose :: "u8 list"
  od_score :: "(score \<times> score) list"
  od_o :: odds_number
  od_total_compensate_amount :: u128
  od_buy_in :: u128
  od_accounts :: u32

record odds_item_params =
  op_win_lose :: "u8 list"
  op_score :: "(score \<times> score) list"
  op_o :: odds_number

definition odds_item_of :: "odds_item_params \<Rightarrow> odds_item" where
  "odds_item_of p = \<lparr>od_win_lose = op_win_lose p, od_score = op_score p, od_o = op_o p,
     od_total_compensate_amount = 0, od_buy_in = 0, od_accounts = 0\<rparr>"

record betting =
  bet_creator :: account
  bet_pledge_account :: account
  bet_total_pledge :: u128
  bet_type :: betting_type
  bet_battles :: "object_id list"
  bet_odds :: "odds_item list"
  bet_token_id :: token_id
  bet_min_amount :: u128
  bet_season :: object_id

definition legal_score :: "score \<times> score \<Rightarrow> bool" where
  "legal_score x \<longleftrightarrow> (case x of (h, v) \<Rightarrow> \<not> (h \<noteq> 3 \<and> v \<noteq> 3) \<and> \<not> (3 < h \<or> 3 < v) \<and> h \<noteq> v)"

definition odds_check :: "betting_type \<Rightarrow> nat \<Rightarrow> odds_item \<Rightarrow> bool" where
  "odds_check ty battle_size o' =
    ((case ty of
        BettingScore \<Rightarrow> length (od_score o') = battle_size \<and> list_all legal_score (od_score o')
      | BettingWinLose \<Rightarrow> length (od_win_lose o') = battle_size \<and> list_all (\<lambda>x. x = 1 \<or> x = 2) (od_win_lose o'))
     \<and> \<not> od_o o' \<le> 100)"

text \<open>The pairwise comparisons of the two loops say that the entries are distinct.\<close>

definition betting_check :: "betting \<Rightarrow> bool" where
  "betting_check b =
    (length (bet_battles b) = 1
     \<and> list_all (odds_check (bet_type b) (length (bet_battles b))) (bet_odds b)
     \<and> (case bet_type b of
          BettingScore \<Rightarrow> length (bet_odds b) = 6 ^ length (bet_battles b)
            \<and> list_all (\<lambda>o'. length (od_score o') = length (bet_battles b)) (bet_odds b)
            \<and> distinct (List.map od_score (bet_odds b))
        | BettingWinLose \<Rightarrow> length (bet_odds b) = 2 ^ length (bet_battles b)
            \<and> list_all (\<lambda>o'. length (od_win_lose o') = length (bet_battles b)) (bet_odds b)
            \<and> distinct (List.map od_win_lose (bet_odds b))))"

section \<open>Seasons\<close>

record season_info =
  ssn_id :: object_id
  ssn_name :: bytes
  ssn_status :: season_status
  ssn_treasury :: account
  ssn_start_time :: u64
  ssn_total_battles :: u8
  ssn_bonus_strategy :: "(u8 \<times> u32 \<times> u128) list"
  ssn_ticket_price :: u128
  ssn_first_finals :: battle_type
  ssn_current_finals :: battle_type
  ssn_champion :: "object_id option"
  ssn_total_tickets :: u32

section \<open>Storage\<close>

datatype tournament_event =
    NpcPoints object_id object_id u8 u8 u32 "32 word"
  | ParticipantPoints object_id account u8 u8 u32
  | ParticipantPointRecord account object_id battle_abstract object_id
  | BattleEvent object_id battle
  | SeasonUpdate season_info bool
  | BettingUpdate object_id betting

type_synonym betting_record = "(select_index \<times> odds_number \<times> u128) list \<times> bool"
type_synonym participant_key = "object_id \<times> account \<times> select_index"

record 'n tournament_state = "'n oracle_state" +
  moment :: u64
  next_season_id :: object_id
  next_npc_id :: object_id
  next_battle_id :: object_id
  next_betting_id :: object_id
  default_season :: object_id
  npcs :: "object_id \<Rightarrow> npc option"
  betting_invite_amount :: "(object_id \<times> account) \<times> token_id \<Rightarrow> u128"
  betting_by_battle :: "object_id \<Rightarrow> object_id list"
  battles :: "object_id \<Rightarrow> battle option"
  bettings :: "object_id \<Rightarrow> betting option"
  betting_records :: "account \<times> object_id \<Rightarrow> betting_record"
  season_winners :: "object_id \<Rightarrow> (object_id \<times> object_id) list"
  seasons :: "object_id \<Rightarrow> season_info option"
  participant_points :: "(participant_key \<times> u8 \<times> u8 \<times> u32) list"
  npc_points :: "object_id \<times> object_id \<Rightarrow> u8 \<times> u8 \<times> u32 \<times> 32 word"
  tickets :: "object_id \<times> account \<Rightarrow> u32 \<times> u32"
  invite_code :: "account \<Rightarrow> bytes \<times> u32 \<times> u128"
  invite_records :: "account \<Rightarrow> bool"
  vote_select_infos :: "account \<times> object_id \<Rightarrow> vote_select_info list \<times> bool"
  votes_for_calc :: "object_id \<Rightarrow> ((account \<times> select_index) \<times> object_id) list"
  tournament_events :: "tournament_event list"

record 'n tournament_config =
  tn_token :: "'n token_config"
  tn_bridge :: bridge_config
  tn_organizer_origin :: "origin \<Rightarrow> bool"
  tn_awt :: token_id
  tn_max_tickets :: u32
  tn_min_betting :: u128
  tn_donor :: account
  tn_donation :: u128
  tn_max_participants :: nat
  tn_bvb_treasury :: account
  tn_bvb_organizer :: account
  tn_swap_pool :: account
  tn_arithmetic :: sp_arithmetic
  tn_parse_time :: "bytes \<Rightarrow> u64 option"
  tn_base64 :: "bytes \<Rightarrow> bytes option"
  tn_decode_account :: "bytes \<Rightarrow> account option"
  tn_decode_list :: "bytes \<Rightarrow> bytes list option"
  tn_season_treasury :: "object_id \<Rightarrow> account"
  tn_betting_treasury :: "object_id \<Rightarrow> account"

abbreviation terr :: "tournament_error \<Rightarrow> dispatch_error" where
  "terr \<equiv> TournamentError"

definition deposit_tournament ::
  "tournament_event \<Rightarrow> ('n, 'z) tournament_state_scheme \<Rightarrow> ('n, 'z) tournament_state_scheme" where
  "deposit_tournament e w = w\<lparr>tournament_events := tournament_events w @ [e]\<rparr>"

definition put_battle ::
  "object_id \<Rightarrow> battle \<Rightarrow> ('n, 'z) tournament_state_scheme \<Rightarrow> ('n, 'z) tournament_state_scheme" where
  "put_battle i b w = w\<lparr>battles := (battles w)(i \<mapsto> b)\<rparr>"

definition put_betting ::
  "object_id \<Rightarrow> betting \<Rightarrow> ('n, 'z) tournament_state_scheme \<Rightarrow> ('n, 'z) tournament_state_scheme" where
  "put_betting i b w = w\<lparr>bettings := (bettings w)(i \<mapsto> b)\<rparr>"

definition put_season ::
  "object_id \<Rightarrow> season_info \<Rightarrow> ('n, 'z) tournament_state_scheme \<Rightarrow> ('n, 'z) tournament_state_scheme" where
  "put_season i x w = w\<lparr>seasons := (seasons w)(i \<mapsto> x)\<rparr>"

definition get_battle :: "object_id \<Rightarrow> ('n, 'z) tournament_state_scheme \<Rightarrow> battle result" where
  "get_battle i w = ok_or (battles w i) (terr BattleNotFound)"

definition get_betting :: "object_id \<Rightarrow> ('n, 'z) tournament_state_scheme \<Rightarrow> betting result" where
  "get_betting i w = ok_or (bettings w i) (terr BettingNotFound)"

definition get_season :: "object_id \<Rightarrow> ('n, 'z) tournament_state_scheme \<Rightarrow> season_info result" where
  "get_season i w = ok_or (seasons w i) (terr SeasonNotFound)"

text \<open>\<open>BoundedBTreeMap::try_insert\<close>\<close>

definition try_insert :: "nat \<Rightarrow> 'k::linorder \<Rightarrow> 'v \<Rightarrow> ('k \<times> 'v) list \<Rightarrow> (('k \<times> 'v) list) result" where
  "try_insert bound k v m =
    (if length m < bound \<or> map_of m k \<noteq> None then Inr (bt_upsert (\<lambda>_. v) v k m)
     else Inl (terr ParticipantOverflow))"

definition organizer :: "'n tournament_config \<Rightarrow> origin \<Rightarrow> 'a result \<Rightarrow> 'a result" where
  "organizer c o' k = ensure (tn_organizer_origin c o') BadOrigin k"

text \<open>Seconds since the epoch.\<close>

definition now_seconds :: "('n, 'z) tournament_state_scheme \<Rightarrow> u64" where
  "now_seconds w = moment w div 1000"

text \<open>\<open>xs[i]\<close> with its panic out of range.\<close>

definition index :: "'a list \<Rightarrow> nat \<Rightarrow> 'a result" where
  "index xs i = (if i < length xs then Inr (xs ! i) else Inl Panic)"

end
