(* ===== verification/Tournament_Bets.thy ===== *)
theory Tournament_Bets
  imports Tournament_State
begin

text \<open>
  \<open>pallets/abyss-tournament/src/lib.rs\<close>: seasons, characters and battles as the organizer keeps them, and
  the bets. A bet is covered by a pledge on an account derived from its id; every purchase adds to what
  its outcome would cost, which may not exceed the pledge. When the battle is finalized the outcome
  that hit is paid from the pledge.
\<close>

section \<open>The organizer's records\<close>

definition create_npc ::
  "'n tournament_config \<Rightarrow> origin \<Rightarrow> bytes \<Rightarrow> bytes \<Rightarrow> bytes \<Rightarrow> bytes
    \<Rightarrow> ('n, 'z) tournament_state_scheme \<Rightarrow> ('n, 'z) tournament_state_scheme result" where
  "create_npc c o' name img story features w =
    organizer c o' (
    let n = \<lparr>npc_name = name, npc_img_url = img, npc_story = story, npc_features = features\<rparr> in
    Inr (w\<lparr>npcs := (npcs w)(next_npc_id w \<mapsto> n), next_npc_id := next_npc_id w + 1\<rparr>))"

definition date_to_timestamp :: "'n tournament_config \<Rightarrow> bytes \<Rightarrow> u64 result" where
  "date_to_timestamp c v = ok_or (tn_parse_time c v) (terr TimeFormatError)"

definition create_season ::
  "'n tournament_config \<Rightarrow> origin \<Rightarrow> bytes \<Rightarrow> bytes \<Rightarrow> battle_type \<Rightarrow> u128
    \<Rightarrow> ('n, 'z) tournament_state_scheme \<Rightarrow> ('n, 'z) tournament_state_scheme result" where
  "create_season c o' name start first ticket_price w =
    organizer c o' (
    and_then (date_to_timestamp c start) (\<lambda>start_time.
    ensure (QUINTILL < ticket_price) (terr TicketPriceTooSmall) (
    let id = next_season_id w;
        x = \<lparr>ssn_id = id, ssn_name = name, ssn_status = SeasonInitial, ssn_treasury = tn_season_treasury c id,
             ssn_start_time = start_time, ssn_total_battles = total_battles first,
             ssn_bonus_strategy = [], ssn_ticket_price = ticket_price, ssn_first_finals = first,
             ssn_current_finals = first, ssn_champion = None, ssn_total_tickets = 0\<rparr> in
    Inr (deposit_tournament (SeasonUpdate x False)
      (put_season id x w\<lparr>next_season_id := next_season_id w + 1\<rparr>)))))"

definition store_season ::
  "object_id \<Rightarrow> season_info \<Rightarrow> ('n, 'z) tournament_state_scheme \<Rightarrow> ('n, 'z) tournament_state_scheme" where
  "store_season i x w = deposit_tournament (SeasonUpdate x (default_season w = i)) (put_season i x w)"

definition update_season_current_round ::
  "'n tournament_config \<Rightarrow> origin \<Rightarrow> object_id \<Rightarrow> battle_type
    \<Rightarrow> ('n, 'z) tournament_state_scheme \<Rightarrow> ('n, 'z) tournament_state_scheme result" where
  "update_season_current_round c o' season_id ty w =
    organizer c o' (
    and_then (get_season season_id w) (\<lambda>x. Inr (store_season season_id (x\<lparr>ssn_current_finals := ty\<rparr>) w)))"

definition update_season ::
  "'n tournament_config \<Rightarrow> origin \<Rightarrow> object_id \<Rightarrow> bytes \<Rightarrow> bytes \<Rightarrow> battle_type \<Rightarrow> battle_type \<Rightarrow> u128
    \<Rightarrow> ('n, 'z) tournament_state_scheme \<Rightarrow> ('n, 'z) tournament_state_scheme result" where
  "update_season c o' season_id name start first current ticket_price w =
    organizer c o' (
    and_then (date_to_timestamp c start) (\<lambda>start_time.
    ensure (QUINTILL < ticket_price) (terr TicketPriceTooSmall) (
    and_then (get_season season_id w) (\<lambda>x.
    Inr (store_season season_id
      (x\<lparr>ssn_name := name, ssn_start_time := start_time, ssn_total_battles := total_battles first,
         ssn_first_finals := first, ssn_current_finals := current, ssn_ticket_price := ticket_price\<rparr>) w)))))"

definition set_default_season ::
  "'n tournament_config \<Rightarrow> origin \<Rightarrow> object_id
    \<Rightarrow> ('n, 'z) tournament_state_scheme \<Rightarrow> ('n, 'z) tournament_state_scheme result" where
  "set_default_season c o' sid w =
    organizer c o' (
    and_then (get_season sid w) (\<lambda>x.
    let w = (case seasons w (default_season w) of
               Some d \<Rightarrow> deposit_tournament (SeasonUpdate d False) w
             | None \<Rightarrow> w) in
    Inr (deposit_tournament (SeasonUpdate x True) (w\<lparr>default_season := sid\<rparr>))))"

definition new_battle ::
  "season_info \<Rightarrow> object_id \<Rightarrow> battle_type \<Rightarrow> object_id \<Rightarrow> object_id \<Rightarrow> u64 \<Rightarrow> u8 \<Rightarrow> battle" where
  "new_battle x season_id ty home visiting start_time position =
    \<lparr>btl_season = season_id, btl_season_name = ssn_name x, btl_home = home, btl_type = ty,
     btl_visiting = visiting, btl_status = BattleRunning, btl_start_time = start_time,
     btl_position = position, btl_home_score = None, btl_visiting_score = None, btl_video_url = []\<rparr>"

definition create_battle ::
  "'n tournament_config \<Rightarrow> origin \<Rightarrow> object_id \<Rightarrow> battle_type \<Rightarrow> object_id \<Rightarrow> object_id \<Rightarrow> bytes \<Rightarrow> u8
    \<Rightarrow> ('n, 'z) tournament_state_scheme \<Rightarrow> ('n, 'z) tournament_state_scheme result" where
  "create_battle c o' season_id ty home visiting start position w =
    organizer c o' (
    and_then (get_season season_id w) (\<lambda>x.
    and_then (ok_or (npcs w home) (terr NpcNotFound)) (\<lambda>_.
    and_then (ok_or (npcs w visiting) (terr NpcNotFound)) (\<lambda>_.
    and_then (date_to_timestamp c start) (\<lambda>start_time.
    ensure (ty = League \<or> ssn_start_time x \<le> start_time) (terr BattleTimeError) (
    ensure (home \<noteq> visiting) (terr BattleNpcCantSame) (
    let id = next_battle_id w; b = new_battle x season_id ty home visiting start_time position in
    Inr (deposit_tournament (BattleEvent id b)
      (put_battle id b w\<lparr>next_battle_id := next_battle_id w + 1\<rparr>)))))))))"

definition update_battle ::
  "'n tournament_config \<Rightarrow> origin \<Rightarrow> object_id \<Rightarrow> object_id \<Rightarrow> battle_type \<Rightarrow> object_id \<Rightarrow> object_id \<Rightarrow> bytes
    \<Rightarrow> u8 \<Rightarrow> ('n, 'z) tournament_state_scheme \<Rightarrow> ('n, 'z) tournament_state_scheme result" where
  "update_battle c o' battle_id season_id ty home visiting start position w =
    organizer c o' (
    and_then (get_season season_id w) (\<lambda>x.
    and_then (ok_or (npcs w home) (terr NpcNotFound)) (\<lambda>_.
    and_then (ok_or (npcs w visiting) (terr NpcNotFound)) (\<lambda>_.
    and_then (date_to_timestamp c start) (\<lambda>start_time.
    ensure (ssn_start_time x \<le> start_time) (terr BattleTimeError) (
    ensure (home \<noteq> visiting) (terr BattleNpcCantSame) (
    let b = new_battle x season_id ty home visiting start_time position in
    Inr (deposit_tournament (BattleEvent battle_id b) (put_battle battle_id b w)))))))))"

definition set_result ::
  "'n tournament_config \<Rightarrow> origin \<Rightarrow> object_id \<Rightarrow> score \<Rightarrow> score \<Rightarrow> bytes
    \<Rightarrow> ('n, 'z) tournament_state_scheme \<Rightarrow> ('n, 'z) tournament_state_scheme result" where
  "set_result c o' battle_id home_score visiting_score video w =
    organizer c o' (
    and_then (get_battle battle_id w) (\<lambda>b.
    let winner = (if visiting_score < home_score then btl_home b else btl_visiting b) in
    and_then (try_insert (tn_max_participants c) battle_id winner (season_winners w (btl_season b))) (\<lambda>m.
    let b' = b\<lparr>btl_home_score := Some home_score, btl_visiting_score := Some visiting_score,
               btl_video_url := video, btl_status := BattleCompleted\<rparr> in
    Inr (deposit_tournament (BattleEvent battle_id b')
      (put_battle battle_id b' (w\<lparr>season_winners := (season_winners w)(btl_season b := m)\<rparr>))))))"

section \<open>Placing a bet\<close>

definition generate_default_odd_item :: "betting_type \<Rightarrow> nat \<Rightarrow> odds_item list option" where
  "generate_default_odd_item ty battle_size =
    (let item = (\<lambda>wl sc o'. \<lparr>od_win_lose = wl, od_score = sc, od_o = o', od_total_compensate_amount = 0,
                              od_buy_in = 0, od_accounts = 0\<rparr>) in
     case ty of
       BettingScore \<Rightarrow>
         if battle_size \<noteq> 1 then None
         else Some (List.map (\<lambda>s. item [] [s] 600) [(3, 0), (3, 1), (3, 2), (0, 3), (1, 3), (2, 3)])
     | BettingWinLose \<Rightarrow>
         if battle_size = 1 then Some (List.map (\<lambda>o'. item o' [] 200) [[1], [2]])
         else if battle_size = 2 then
           Some (List.map (\<lambda>o'. item o' [] 400) [[1, 1], [1, 2], [2, 1], [2, 2]])
         else if battle_size = 3 then
           Some (List.map (\<lambda>o'. item o' [] 800)
             [[1, 1, 1], [1, 1, 2], [1, 2, 1], [1, 2, 2], [2, 1, 1], [2, 1, 2], [2, 2, 1], [2, 2, 2]])
         else None)"

definition create_betting ::
  "'n tournament_config \<Rightarrow> origin \<Rightarrow> betting_type \<Rightarrow> object_id list \<Rightarrow> odds_item_params list \<Rightarrow> object_id \<Rightarrow> u128
    \<Rightarrow> ('n, 'z) tournament_state_scheme \<Rightarrow> ('n, 'z) tournament_state_scheme result" where
  "create_betting c o' ty bs params season_id pledge_amount w =
    organizer c o' (
    ensure (0 < pledge_amount) (terr PledgeAmountZero) (
    and_then (if params = [] then ok_or (generate_default_odd_item ty (length bs)) (terr BettingError)
              else Inr (List.map odds_item_of params)) (\<lambda>odds.
    and_then (get_season season_id w) (\<lambda>_.
    let betting_id = next_betting_id w;
        b = \<lparr>bet_creator = tn_bvb_organizer c, bet_pledge_account = tn_betting_treasury c betting_id,
             bet_total_pledge = pledge_amount, bet_type = ty, bet_battles = bs, bet_odds = odds,
             bet_token_id = tn_awt c, bet_min_amount = tn_min_betting c, bet_season = season_id\<rparr> in
    ensure (betting_check b) (terr BettingParamsError) (
    and_then (transfer_token (tn_token c) (bet_creator b) (bet_token_id b) pledge_amount
        (bet_pledge_account b) w) (\<lambda>w.
    let w = put_betting betting_id b w;
        w = w\<lparr>betting_by_battle := fold (\<lambda>i m. m(i := m i @ [betting_id])) bs (betting_by_battle w)\<rparr>;
        w = w\<lparr>next_betting_id := next_betting_id w + 1\<rparr> in
    Inr (deposit_tournament (BettingUpdate betting_id b) w)))))))"

definition invite_code_to_addr :: "'n tournament_config \<Rightarrow> bytes \<Rightarrow> account option" where
  "invite_code_to_addr c code =
    (case tn_base64 c code of Some v \<Rightarrow> tn_decode_account c (rev v) | None \<Rightarrow> None)"

text \<open>Every battle of the bet still lies ahead.\<close>

fun battles_ahead ::
  "object_id list \<Rightarrow> ('n, 'z) tournament_state_scheme \<Rightarrow> unit result" where
  "battles_ahead [] w = Inr ()"
| "battles_ahead (i # is) w =
    and_then (get_battle i w) (\<lambda>b.
    ensure (now_seconds w < btl_start_time b) (terr BettingOverTime) (battles_ahead is w))"

text \<open>A purchase at the same odds is added to the one before it.\<close>

fun add_purchase ::
  "select_index \<Rightarrow> odds_number \<Rightarrow> u128 \<Rightarrow> (select_index \<times> odds_number \<times> u128) list
    \<Rightarrow> (select_index \<times> odds_number \<times> u128) list" where
  "add_purchase i o' amount [] = [(i, o', amount)]"
| "add_purchase i o' amount ((j, p, a) # rs) =
    (if j = i \<and> p = o' then (j, p, a + amount) # rs else (j, p, a) # add_purchase i o' amount rs)"

definition go_bet_for ::
  "'n tournament_config \<Rightarrow> account \<Rightarrow> object_id \<Rightarrow> select_index \<Rightarrow> u128
    \<Rightarrow> ('n, 'z) tournament_state_scheme \<Rightarrow> ('n, 'z) tournament_state_scheme result" where
  "go_bet_for c who betting_id item_index amount w =
    and_then (get_betting betting_id w) (\<lambda>b.
    ensure (bet_min_amount b \<le> amount) (terr BettingAmountTooSmall) (
    ensure (unat item_index < length (bet_odds b)) (terr SelectIndexOverflow) (
    and_then (battles_ahead (bet_battles b) w) (\<lambda>_.
    let select_odd = bet_odds b ! unat item_index;
        add_compensate = ucast (od_o select_odd) * amount div 100;
        new_compensate = od_total_compensate_amount select_odd + add_compensate in
    ensure (new_compensate \<le> free_balance (tn_token c) (bet_token_id b) (bet_pledge_account b) w)
      (terr BettingAmountOverflow) (
    and_then (transfer_token (tn_token c) who (bet_token_id b) amount (bet_creator b) w) (\<lambda>w.
    let r = betting_records w (who, betting_id);
        w = w\<lparr>betting_records := (betting_records w)
              ((who, betting_id) := (add_purchase item_index (od_o select_odd) amount (fst r), snd r))\<rparr>;
        item = select_odd\<lparr>od_total_compensate_amount := new_compensate,
                 od_accounts := od_accounts select_odd + 1, od_buy_in := od_buy_in select_odd + amount\<rparr>;
        b' = b\<lparr>bet_odds := (bet_odds b)[unat item_index := item]\<rparr> in
    Inr (put_betting betting_id b' (deposit_tournament (BettingUpdate betting_id b') w))))))))"

definition go_bet ::
  "'n tournament_config \<Rightarrow> origin \<Rightarrow> object_id \<Rightarrow> select_index \<Rightarrow> u128
    \<Rightarrow> ('n, 'z) tournament_state_scheme \<Rightarrow> ('n, 'z) tournament_state_scheme result" where
  "go_bet c o' betting_id item_index amount w =
    and_then (ensure_signed o') (\<lambda>who. go_bet_for c who betting_id item_index amount w)"

definition go_bet_with_invite ::
  "'n tournament_config \<Rightarrow> origin \<Rightarrow> object_id \<Rightarrow> select_index \<Rightarrow> u128 \<Rightarrow> bytes
    \<Rightarrow> ('n, 'z) tournament_state_scheme \<Rightarrow> ('n, 'z) tournament_state_scheme result" where
  "go_bet_with_invite c o' betting_id item_index amount code w =
    and_then (ensure_signed o') (\<lambda>who.
    and_then (get_betting betting_id w) (\<lambda>b.
    and_then (go_bet_for c who betting_id item_index amount w) (\<lambda>w.
    Inr (case invite_code_to_addr c code of
           Some invitor \<Rightarrow>
             if invitor \<noteq> who then
               let k = ((bet_season b, invitor), bet_token_id b) in
               w\<lparr>betting_invite_amount := (betting_invite_amount w)(k := betting_invite_amount w k + amount)\<rparr>
             else w
         | None \<Rightarrow> w))))"

section \<open>The outcome\<close>

fun finalized_battles ::
  "object_id list \<Rightarrow> ('n, 'z) tournament_state_scheme \<Rightarrow> (battle list) result" where
  "finalized_battles [] w = Inr []"
| "finalized_battles (i # is) w =
    and_then (get_battle i w) (\<lambda>b.
    ensure (btl_status b = BattleFinalized) (terr BattleStatusError) (
    and_then (finalized_battles is w) (\<lambda>bs. Inr (b # bs))))"

text \<open>Whether the scores, or the winners, of the outcome from position \<open>j\<close> on are those of the battles.\<close>

fun score_hit :: "battle list \<Rightarrow> nat \<Rightarrow> (score \<times> score) list \<Rightarrow> bool result" where
  "score_hit bs j [] = Inr True"
| "score_hit bs j ((h, v) # ss) =
    and_then (index bs j) (\<lambda>b.
    and_then (unwrap (btl_home_score b)) (\<lambda>home.
    if h \<noteq> home then Inr False
    else
      and_then (unwrap (btl_visiting_score b)) (\<lambda>visiting.
      if v \<noteq> visiting then Inr False else score_hit bs (j + 1) ss)))"

fun win_lose_hit :: "battle list \<Rightarrow> nat \<Rightarrow> u8 list \<Rightarrow> bool result" where
  "win_lose_hit bs j [] = Inr True"
| "win_lose_hit bs j (x # xs) =
    and_then (index bs j) (\<lambda>b.
    let winner = (if opt_less (btl_visiting_score b) (btl_home_score b) then 1 else 2) in
    if x \<noteq> winner then Inr False else win_lose_hit bs (j + 1) xs)"

fun first_hit :: "(odds_item \<Rightarrow> bool result) \<Rightarrow> nat \<Rightarrow> odds_item list \<Rightarrow> select_index result" where
  "first_hit hit i [] = Inl (terr BettingError)"
| "first_hit hit i (o' # os) =
    and_then (hit o') (\<lambda>b. if b then Inr (word_of_nat i) else first_hit hit (i + 1) os)"

definition calc_betting_hit_index ::
  "betting \<Rightarrow> ('n, 'z) tournament_state_scheme \<Rightarrow> select_index result" where
  "calc_betting_hit_index b w =
    and_then (finalized_battles (bet_battles b) w) (\<lambda>bs.
    first_hit
      (case bet_type b of
         BettingScore \<Rightarrow> (\<lambda>o'. score_hit bs 0 (od_score o'))
       | BettingWinLose \<Rightarrow> (\<lambda>o'. win_lose_hit bs 0 (od_win_lose o')))
      0 (bet_odds b))"

section \<open>Settling a bet\<close>

definition revoke_remain_compensate ::
  "'n tournament_config \<Rightarrow> origin \<Rightarrow> object_id
    \<Rightarrow> ('n, 'z) tournament_state_scheme \<Rightarrow> ('n, 'z) tournament_state_scheme result" where
  "revoke_remain_compensate c o' betting_id w =
    and_then (ensure_signed o') (\<lambda>who.
    and_then (get_betting betting_id w) (\<lambda>b.
    ensure (who = bet_creator b) (terr PermissonDeny) (
    and_then (calc_betting_hit_index b w) (\<lambda>hit.
    and_then (index (bet_odds b) (unat hit)) (\<lambda>item.
    let total = od_total_compensate_amount item in
    if bet_total_pledge b \<le> total then Inr w
    else transfer_token (tn_token c) (bet_pledge_account b) (bet_token_id b) (bet_total_pledge b - total) who w)))))"

definition claim_amount :: "select_index \<Rightarrow> (select_index \<times> odds_number \<times> u128) list \<Rightarrow> u128" where
  "claim_amount hit rs =
    sum_list (List.map (\<lambda>(i, o', a). if i = hit then a * ucast o' div 100 else 0) rs)"

definition betting_claim ::
  "'n tournament_config \<Rightarrow> origin \<Rightarrow> object_id
    \<Rightarrow> ('n, 'z) tournament_state_scheme \<Rightarrow> ('n, 'z) tournament_state_scheme result" where
  "betting_claim c o' betting_id w =
    and_then (ensure_signed o') (\<lambda>who.
    let (v, claimed) = betting_records w (who, betting_id) in
    ensure (\<not> claimed) (terr HaveNoBonus) (
    ensure (v \<noteq> []) (terr HaveNoBonus) (
    and_then (get_betting betting_id w) (\<lambda>b.
    and_then (calc_betting_hit_index b w) (\<lambda>hit.
    let amount = claim_amount hit v in
    and_then
      (if 0 < amount then transfer_token (tn_token c) (bet_pledge_account b) (bet_token_id b) amount who w
       else Inr w) (\<lambda>w.
    Inr (w\<lparr>betting_records := (betting_records w)
             ((who, betting_id) := (fst (betting_records w (who, betting_id)), True))\<rparr>)))))))"

fun none_finalized ::
  "object_id list \<Rightarrow> ('n, 'z) tournament_state_scheme \<Rightarrow> unit result" where
  "none_finalized [] w = Inr ()"
| "none_finalized (i # is) w =
    and_then (get_battle i w) (\<lambda>b.
    ensure (btl_status b \<noteq> BattleFinalized) (terr BattleStatusError) (none_finalized is w))"

definition append_betting_pledge ::
  "'n tournament_config \<Rightarrow> origin \<Rightarrow> object_id \<Rightarrow> u128
    \<Rightarrow> ('n, 'z) tournament_state_scheme \<Rightarrow> ('n, 'z) tournament_state_scheme result" where
  "append_betting_pledge c o' betting_id amount w =
    and_then (ensure_signed o') (\<lambda>who.
    ensure (0 < amount) (terr PledgeAmountZero) (
    and_then (get_betting betting_id w) (\<lambda>b.
    and_then (none_finalized (bet_battles b) w) (\<lambda>_.
    and_then (transfer_token (tn_token c) who (bet_token_id b) amount (bet_pledge_account b) w) (\<lambda>w.
    Inr (put_betting betting_id
      (b\<lparr>bet_total_pledge := free_balance (tn_token c) (bet_token_id b) (bet_pledge_account b) w\<rparr>) w))))))"

definition drop_betting ::
  "'n tournament_config \<Rightarrow> origin \<Rightarrow> object_id
    \<Rightarrow> ('n, 'z) tournament_state_scheme \<Rightarrow> ('n, 'z) tournament_state_scheme result" where
  "drop_betting c o' betting_id w =
    and_then (ensure_signed o') (\<lambda>who.
    and_then (get_betting betting_id w) (\<lambda>b.
    ensure (who = bet_creator b) (terr PermissonDeny) (
    ensure (list_all (\<lambda>o'. od_total_compensate_amount o' = 0) (bet_odds b)) (terr BettingError) (
    let pledge_amount = free_balance (tn_token c) (bet_token_id b) (bet_pledge_account b) w in
    and_then (transfer_token (tn_token c) (bet_pledge_account b) (bet_token_id b) pledge_amount
        (bet_creator b) w) (\<lambda>w.
    let w = put_betting betting_id (b\<lparr>bet_total_pledge := 0\<rparr>) w in
    Inr (w\<lparr>betting_by_battle := fold (\<lambda>i m. m(i := filter (\<lambda>x. x \<noteq> betting_id) (m i)))
             (bet_battles b) (betting_by_battle w)\<rparr>))))))"

fun write_odds :: "(select_index \<times> odds_number) list \<Rightarrow> odds_item list \<Rightarrow> (odds_item list) result" where
  "write_odds [] items = Inr items"
| "write_odds ((i, o') # ps) items =
    ensure (unat i < length items) (terr SelectIndexOverflow) (
    ensure (100 < o') (terr BettingParamsError) (
    write_odds ps (items[unat i := (items ! unat i)\<lparr>od_o := o'\<rparr>])))"

definition update_odds ::
  "'n tournament_config \<Rightarrow> origin \<Rightarrow> object_id \<Rightarrow> (select_index \<times> odds_number) list
    \<Rightarrow> ('n, 'z) tournament_state_scheme \<Rightarrow> ('n, 'z) tournament_state_scheme result" where
  "update_odds c o' betting_id odds w =
    and_then (ensure_signed o') (\<lambda>who.
    and_then (get_betting betting_id w) (\<lambda>b.
    ensure (who = bet_creator b) (terr PermissonDeny) (
    and_then (write_odds odds (bet_odds b)) (\<lambda>items.
    let b' = b\<lparr>bet_odds := items\<rparr> in
    Inr (put_betting betting_id b' (deposit_tournament (BettingUpdate betting_id b') w))))))"

end
