(* ===== verification/Tournament.thy ===== *)
theory Tournament
  imports Tournament_Bets
begin

text \<open>
  \<open>pallets/abyss-tournament/src/lib.rs\<close>: tickets, votes, the settlement of battles and of seasons, and the
  calls of the pallet. A holder of tickets stakes them on a sheet of predictions (\<open>VoteSelectInfo\<close>); the
  organizer's settlement of a battle scores every sheet that voted on it, and once the season is closed
  the sheets with all, or all but one, of the winners share its treasury.
\<close>

section \<open>Tickets\<close>

definition add_tickets ::
  "object_id \<Rightarrow> account \<Rightarrow> u32 \<Rightarrow> ('n, 'z) tournament_state_scheme \<Rightarrow> ('n, 'z) tournament_state_scheme" where
  "add_tickets i a n w = w\<lparr>tickets := (tickets w)((i, a) :=
     (fst (tickets w (i, a)) + n, snd (tickets w (i, a)) + n))\<rparr>"

fun give_tickets ::
  "'n tournament_config \<Rightarrow> object_id \<Rightarrow> bytes list
    \<Rightarrow> ('n, 'z) tournament_state_scheme \<Rightarrow> ('n, 'z) tournament_state_scheme result" where
  "give_tickets c i [] w = Inr w"
| "give_tickets c i (a # as) w =
    and_then (ok_or (tn_decode_account c a) (terr AddrListInputError)) (\<lambda>addr.
    give_tickets c i as (add_tickets i addr 1 w))"

definition give_away_tickets ::
  "'n tournament_config \<Rightarrow> origin \<Rightarrow> object_id \<Rightarrow> bytes
    \<Rightarrow> ('n, 'z) tournament_state_scheme \<Rightarrow> ('n, 'z) tournament_state_scheme result" where
  "give_away_tickets c o' season_id addrs w =
    organizer c o' (
    and_then (ok_or (tn_decode_list c addrs) (terr AddrListInputError)) (\<lambda>v.
    give_tickets c season_id v w))"

fun give_fees ::
  "'n tournament_config \<Rightarrow> bytes list
    \<Rightarrow> ('n, 'z) tournament_state_scheme \<Rightarrow> ('n, 'z) tournament_state_scheme result" where
  "give_fees c [] w = Inr w"
| "give_fees c (a # as) w =
    and_then (ok_or (tn_decode_account c a) (terr AddrListInputError)) (\<lambda>addr.
    and_then (drop_error w (transfer_token (tn_token c) (tn_donor c) (native_id (tn_token c))
        (tn_donation c) addr w)) (give_fees c as))"

definition give_away_fee ::
  "'n tournament_config \<Rightarrow> origin \<Rightarrow> bytes
    \<Rightarrow> ('n, 'z) tournament_state_scheme \<Rightarrow> ('n, 'z) tournament_state_scheme result" where
  "give_away_fee c o' addrs w =
    organizer c o' (
    and_then (ok_or (tn_decode_list c addrs) (terr AddrListInputError)) (\<lambda>v. give_fees c v w))"

definition withdraw_season_treasury ::
  "'n tournament_config \<Rightarrow> origin \<Rightarrow> object_id \<Rightarrow> account \<Rightarrow> u128
    \<Rightarrow> ('n, 'z) tournament_state_scheme \<Rightarrow> ('n, 'z) tournament_state_scheme result" where
  "withdraw_season_treasury c o' season_id target amount w =
    organizer c o' (
    and_then (get_season season_id w) (\<lambda>x.
    transfer_token (tn_token c) (ssn_treasury x) (tn_awt c) amount target w))"

definition transfer_ticket ::
  "'n tournament_config \<Rightarrow> origin \<Rightarrow> object_id \<Rightarrow> u32 \<Rightarrow> account
    \<Rightarrow> ('n, 'z) tournament_state_scheme \<Rightarrow> ('n, 'z) tournament_state_scheme result" where
  "transfer_ticket c o' season_id n target w =
    and_then (ensure_signed o') (\<lambda>who.
    let (total_tickets, remain_tickets) = tickets w (season_id, who) in
    ensure (n \<le> total_tickets \<and> n \<le> remain_tickets \<and> 0 < n) (terr TicketAmountError) (
    let w = w\<lparr>tickets := (tickets w)((season_id, who) := (total_tickets - n, remain_tickets - n))\<rparr> in
    donate (tn_token c) (tn_donor c) (tn_donation c) target (add_tickets season_id target n w)))"

definition ticket_token ::
  "resource_id \<Rightarrow> ('n, 'z) tournament_state_scheme \<Rightarrow> token_id result" where
  "ticket_token rid w =
    and_then (map_err (terr tournament_error.InvalidResourceId) (decode_resource_id rid)) (\<lambda>(chain, _, contract).
    ok_or (try_get_asset_id chain contract w) (terr tournament_error.InvalidResourceId))"

definition tournament_deposit ::
  "'n tournament_config \<Rightarrow> origin \<Rightarrow> account \<Rightarrow> u128 \<Rightarrow> resource_id
    \<Rightarrow> ('n, 'z) tournament_state_scheme \<Rightarrow> ('n, 'z) tournament_state_scheme result" where
  "tournament_deposit c o' target amount rid w =
    and_then (ensure_bridge (tn_bridge c) o') (\<lambda>_.
    and_then (ticket_token rid w) (\<lambda>tok.
    and_then (mint_into tok target amount w)
      (donate (tn_token c) (tn_donor c) (tn_donation c) target)))"

text \<open>The last lines of \<open>swap\<close>: stable coins against AWT at the price of the oracle, if the pool can pay.\<close>

definition swap_from_pool ::
  "'n tournament_config \<Rightarrow> account \<Rightarrow> token_id \<Rightarrow> u128
    \<Rightarrow> ('n, 'z) tournament_state_scheme \<Rightarrow> ('n, 'z) tournament_state_scheme result" where
  "swap_from_pool c who tok amt w =
    and_then (token_external_decimals (tn_token c) tok w) (\<lambda>decimals.
    let unified = transform_decimals_to_standard amt decimals;
        pr = get_price (tn_token c) (tn_awt c) w in
    if pr = 0 then Inr w
    else
      let awt = unified div pr * QUINTILL + ucast (perquintill_from_rational (tn_arithmetic c) (unified mod pr) pr) in
      if free_balance (tn_token c) (tn_awt c) (tn_swap_pool c) w < awt then Inr w
      else
        and_then (transfer_token (tn_token c) (tn_swap_pool c) (tn_awt c) awt who w)
          (transfer_token (tn_token c) who tok unified (tn_swap_pool c)))"

definition tournament_swap ::
  "'n tournament_config \<Rightarrow> origin \<Rightarrow> account \<Rightarrow> u128 \<Rightarrow> resource_id
    \<Rightarrow> ('n, 'z) tournament_state_scheme \<Rightarrow> ('n, 'z) tournament_state_scheme result" where
  "tournament_swap c o' target amt rid w =
    and_then (ensure_bridge (tn_bridge c) o') (\<lambda>_.
    and_then (ticket_token rid w) (\<lambda>tok.
    and_then (mint_into tok target amt w) (\<lambda>w.
    and_then (donate (tn_token c) (tn_donor c) (tn_donation c) target w) (\<lambda>w.
    if tok = tn_awt c then Inr w
    else if \<not> is_stable (tn_token c) tok w then Inr w
    else swap_from_pool c target tok amt w))))"

text \<open>The share of the inviting account: five percent, if the code names another account.\<close>

definition pay_invitor ::
  "'n tournament_config \<Rightarrow> account \<Rightarrow> bytes \<Rightarrow> u128
    \<Rightarrow> ('n, 'z) tournament_state_scheme \<Rightarrow> (u128 \<times> ('n, 'z) tournament_state_scheme) result" where
  "pay_invitor c who code m w =
    (case invite_code_to_addr c code of
       None \<Rightarrow> Inr (0, w)
     | Some invitor \<Rightarrow>
         if invitor = who then Inr (0, w)
         else
           let part = m * 5 div 100 in
           and_then (transfer_token (tn_token c) who (tn_awt c) part invitor w) (\<lambda>w.
           let w = w\<lparr>invite_records := (invite_records w)(who := True)\<rparr>;
               (v, n, earned) = invite_code w invitor in
           Inr (part, w\<lparr>invite_code := (invite_code w)(invitor := (v, n + 1, earned + part))\<rparr>)))"

definition buy_ticket ::
  "'n tournament_config \<Rightarrow> origin \<Rightarrow> u32 \<Rightarrow> bytes
    \<Rightarrow> ('n, 'z) tournament_state_scheme \<Rightarrow> ('n, 'z) tournament_state_scheme result" where
  "buy_ticket c o' amount code w =
    and_then (ensure_signed o') (\<lambda>who.
    let sid = default_season w in
    and_then (ok_or (seasons w sid) (terr DefaultSeasonNotFound)) (\<lambda>season.
    ensure (now_seconds w < ssn_start_time season) (terr BuyTicketOverTime) (
    ensure (fst (tickets w (sid, who)) + amount \<le> tn_max_tickets c \<and> 0 < amount) (terr TicketAmountError) (
    let m = ssn_ticket_price season * ucast amount in
    ensure (m \<le> free_balance (tn_token c) (tn_awt c) who w) (terr tournament_error.InsufficientBalance) (
    let part_to_bonus = m * 85 div 100 in
    and_then (transfer_token (tn_token c) who (tn_awt c) part_to_bonus (ssn_treasury season) w) (\<lambda>w.
    and_then (pay_invitor c who code m w) (\<lambda>(part_to_invitor, w).
    let part_to_bvb_treasury = m - part_to_bonus - part_to_invitor in
    and_then (transfer_token (tn_token c) who (tn_awt c) part_to_bvb_treasury (tn_bvb_treasury c) w) (\<lambda>w.
    Inr (put_season sid (season\<lparr>ssn_total_tickets := ssn_total_tickets season + amount\<rparr>)
      (add_tickets sid who amount w))))))))))"

section \<open>Votes\<close>

definition put_vote ::
  "'n tournament_config \<Rightarrow> account \<Rightarrow> select_index \<Rightarrow> vote_select
    \<Rightarrow> ('n, 'z) tournament_state_scheme \<Rightarrow> ('n, 'z) tournament_state_scheme result" where
  "put_vote c who i s w =
    and_then (try_insert (tn_max_participants c) (who, i) (vs_npc_id s) (votes_for_calc w (vs_battle_id s))) (\<lambda>m.
    Inr (w\<lparr>votes_for_calc := (votes_for_calc w)(vs_battle_id s := m)\<rparr>))"

fun put_vote_list ::
  "'n tournament_config \<Rightarrow> account \<Rightarrow> select_index \<Rightarrow> vote_select list
    \<Rightarrow> ('n, 'z) tournament_state_scheme \<Rightarrow> ('n, 'z) tournament_state_scheme result" where
  "put_vote_list c who i [] w = Inr w"
| "put_vote_list c who i (s # ss) w = and_then (put_vote c who i s w) (put_vote_list c who i ss)"

definition initial_vote_ok ::
  "object_id \<Rightarrow> season_info \<Rightarrow> vote_select \<Rightarrow> ('n, 'z) tournament_state_scheme \<Rightarrow> unit result" where
  "initial_vote_ok season_id season s w =
    and_then (get_battle (vs_battle_id s) w) (\<lambda>b.
    ensure (btl_home b = vs_npc_id s \<or> btl_visiting b = vs_npc_id s) (terr NpcNotInBattle) (
    ensure (btl_status b = BattleRunning) (terr BattleStatusError) (
    ensure (btl_type b = ssn_first_finals season) (terr BattleTypeError) (
    ensure (btl_season b = season_id) (terr BattleNotInSeason) (
    ensure (now_seconds w < btl_start_time b) (terr BettingOverTime) (Inr ()))))))"

fun cast_votes ::
  "'n tournament_config \<Rightarrow> account \<Rightarrow> object_id \<Rightarrow> season_info \<Rightarrow> select_index \<Rightarrow> vote_select list
    \<Rightarrow> ('n, 'z) tournament_state_scheme \<Rightarrow> ('n, 'z) tournament_state_scheme result" where
  "cast_votes c who season_id season i [] w = Inr w"
| "cast_votes c who season_id season i (s # ss) w =
    and_then (initial_vote_ok season_id season s w) (\<lambda>_.
    and_then (put_vote c who i s w) (cast_votes c who season_id season i ss))"

text \<open>The two loops compare every entry with the ones behind it.\<close>

definition duplicate :: "object_id list \<Rightarrow> bool" where
  "duplicate v = (if length v = 1 then False else \<not> distinct v)"

definition initial_vote ::
  "'n tournament_config \<Rightarrow> origin \<Rightarrow> object_id \<Rightarrow> u32 \<Rightarrow> vote_select list
    \<Rightarrow> ('n, 'z) tournament_state_scheme \<Rightarrow> ('n, 'z) tournament_state_scheme result" where
  "initial_vote c o' season_id n sels w =
    and_then (ensure_signed o') (\<lambda>who.
    ensure (sels \<noteq> []) (terr VoteSelectZero) (
    and_then (get_season season_id w) (\<lambda>season.
    let t = tickets w (season_id, who) in
    ensure (n \<le> snd t \<and> 0 < n) (terr TicketAmountError) (
    let i = word_of_nat (length (fst (vote_select_infos w (who, season_id)))) in
    and_then (cast_votes c who season_id season i sels w) (\<lambda>w.
    ensure (\<not> duplicate (List.map vs_battle_id sels)) (terr DuplicateBetting) (
    let v = vote_select_infos w (who, season_id);
        sel = \<lparr>vs_ticket_amount = n, vs_selects = sels\<rparr>;
        w = w\<lparr>vote_select_infos := (vote_select_infos w)((who, season_id) := (fst v @ [sel], snd v))\<rparr> in
    Inr (w\<lparr>tickets := (tickets w)
           ((season_id, who) := (fst (tickets w (season_id, who)), snd t - n))\<rparr>)))))))"

fun append_duplicate :: "object_id list \<Rightarrow> vote_select list \<Rightarrow> bool" where
  "append_duplicate old [] = False"
| "append_duplicate old (s # ss) =
    (if vs_battle_id s \<in> set old then True else append_duplicate (old @ [vs_battle_id s]) ss)"

definition append_vote_check_duplicate :: "vote_select list \<Rightarrow> vote_select list \<Rightarrow> bool" where
  "append_vote_check_duplicate old new = append_duplicate (List.map vs_battle_id old) new"

definition append_vote_ok ::
  "object_id \<Rightarrow> vote_select \<Rightarrow> ('n, 'z) tournament_state_scheme \<Rightarrow> unit result" where
  "append_vote_ok season_id s w =
    and_then (get_battle (vs_battle_id s) w) (\<lambda>b.
    ensure (btl_status b = BattleRunning) (terr BattleStatusError) (
    ensure (btl_home b = vs_npc_id s \<or> btl_visiting b = vs_npc_id s) (terr NpcNotInBattle) (
    ensure (btl_season b = season_id) (terr BattleNotInSeason) (
    ensure (now_seconds w < btl_start_time b) (terr BettingOverTime) (Inr ())))))"

fun extend_votes ::
  "'n tournament_config \<Rightarrow> account \<Rightarrow> object_id \<Rightarrow> select_index \<Rightarrow> vote_select list
    \<Rightarrow> ('n, 'z) tournament_state_scheme \<Rightarrow> ('n, 'z) tournament_state_scheme result" where
  "extend_votes c who season_id i [] w = Inr w"
| "extend_votes c who season_id i (s # ss) w =
    and_then (append_vote_ok season_id s w) (\<lambda>_.
    and_then (put_vote c who i s w) (extend_votes c who season_id i ss))"

fun append_votes_ok ::
  "object_id \<Rightarrow> vote_select list \<Rightarrow> ('n, 'z) tournament_state_scheme \<Rightarrow> unit result" where
  "append_votes_ok season_id [] w = Inr ()"
| "append_votes_ok season_id (s # ss) w =
    and_then (append_vote_ok season_id s w) (\<lambda>_. append_votes_ok season_id ss w)"

definition get_participant_point ::
  "participant_key \<Rightarrow> ('n, 'z) tournament_state_scheme \<Rightarrow> u8 \<times> u8 \<times> u32" where
  "get_participant_point k w = value_or (0, 0, 0) (map_of (participant_points w) k)"

text \<open>All the tickets of the sheet: the votes are added to it.\<close>

definition append_whole ::
  "'n tournament_config \<Rightarrow> account \<Rightarrow> object_id \<Rightarrow> select_index \<Rightarrow> vote_select_info \<Rightarrow> vote_select list
    \<Rightarrow> ('n, 'z) tournament_state_scheme \<Rightarrow> ('n, 'z) tournament_state_scheme result" where
  "append_whole c who season_id i old sels w =
    and_then (extend_votes c who season_id i sels w) (\<lambda>w.
    let v = vote_select_infos w (who, season_id);
        old' = old\<lparr>vs_selects := vs_selects old @ sels\<rparr> in
    Inr (w\<lparr>vote_select_infos := (vote_select_infos w)
           ((who, season_id) := ((fst v)[unat i := old'], snd v))\<rparr>))"

text \<open>Some of the tickets: they move to a new sheet, which starts with the votes and the points of the old one.\<close>

definition append_split ::
  "'n tournament_config \<Rightarrow> account \<Rightarrow> object_id \<Rightarrow> select_index \<Rightarrow> vote_select_info \<Rightarrow> u32 \<Rightarrow> vote_select list
    \<Rightarrow> ('n, 'z) tournament_state_scheme \<Rightarrow> ('n, 'z) tournament_state_scheme result" where
  "append_split c who season_id i old n sels w =
    (let k = (who, season_id);
         v = vote_select_infos w k;
         x = fst v ! unat i;
         w = w\<lparr>vote_select_infos := (vote_select_infos w)(k :=
               ((fst v)[unat i := x\<lparr>vs_ticket_amount := vs_ticket_amount x - n\<rparr>], snd v))\<rparr>;
         j = word_of_nat (length (fst (vote_select_infos w k))) in
     and_then (append_votes_ok season_id sels w) (\<lambda>_.
     let base = vs_selects old @ sels in
     and_then (put_vote_list c who j base w) (\<lambda>w.
     let v = vote_select_infos w k;
         w = w\<lparr>vote_select_infos := (vote_select_infos w)(k :=
               (fst v @ [\<lparr>vs_ticket_amount = n, vs_selects = base\<rparr>], snd v))\<rparr>;
         points = get_participant_point (season_id, who, i) w in
     Inr (w\<lparr>participant_points := AList.update (season_id, who, j) points (participant_points w)\<rparr>))))"

definition append_vote ::
  "'n tournament_config \<Rightarrow> origin \<Rightarrow> object_id \<Rightarrow> select_index \<Rightarrow> u8 \<Rightarrow> u32 \<Rightarrow> vote_select list
    \<Rightarrow> ('n, 'z) tournament_state_scheme \<Rightarrow> ('n, 'z) tournament_state_scheme result" where
  "append_vote c o' season_id i ty n sels w =
    and_then (ensure_signed o') (\<lambda>who.
    ensure (sels \<noteq> []) (terr VoteSelectZero) (
    and_then (get_season season_id w) (\<lambda>season.
    ensure (ty < battle_type_u8 (ssn_first_finals season) \<and> battle_type_of ty \<noteq> None) (terr BattleTypeError) (
    let old_select = vote_select_infos w (who, season_id) in
    ensure (unat i < length (fst old_select)) (terr SelectIndexOverflow) (
    let old = fst old_select ! unat i in
    ensure (n \<le> vs_ticket_amount old \<and> 0 < n) (terr TicketAmountError) (
    ensure (\<not> append_vote_check_duplicate (vs_selects old) sels) (terr DuplicateBetting) (
    if n = vs_ticket_amount old then append_whole c who season_id i old sels w
    else append_split c who season_id i old n sels w)))))))"

section \<open>Settling battles\<close>

definition score_vote ::
  "object_id \<Rightarrow> object_id \<Rightarrow> battle_abstract \<Rightarrow> object_id \<Rightarrow> (account \<times> select_index) \<times> object_id
    \<Rightarrow> ('n, 'z) tournament_state_scheme \<Rightarrow> ('n, 'z) tournament_state_scheme" where
  "score_vote season_id battle_id ba winner e w =
    (let ((acc, i), nid) = e;
         (games, wins, points) = get_participant_point (season_id, acc, i) w;
         p = (if winner = nid then (games + 1, wins + 1, points + 3) else (games + 1, wins, points));
         w = w\<lparr>participant_points := AList.update (season_id, acc, i) p (participant_points w)\<rparr> in
     deposit_tournament (ParticipantPointRecord acc battle_id ba nid)
       (deposit_tournament (ParticipantPoints season_id acc (fst p) (fst (snd p)) (snd (snd p))) w))"

definition update_participant_point ::
  "object_id \<Rightarrow> object_id \<Rightarrow> battle \<Rightarrow> object_id
    \<Rightarrow> ('n, 'z) tournament_state_scheme \<Rightarrow> ('n, 'z) tournament_state_scheme result" where
  "update_participant_point season_id battle_id b winner w =
    and_then (battle_abstract_of b) (\<lambda>ba.
    Inr (fold (score_vote season_id battle_id ba winner) (votes_for_calc w battle_id) w))"

text \<open>The score difference is an \<open>i32\<close> in the NPC's points; \<open>+\<close> and \<open>-\<close> wrap alike on its 32 bits.\<close>

definition update_npc_league_point ::
  "object_id \<Rightarrow> object_id \<Rightarrow> object_id \<Rightarrow> u8 \<Rightarrow> battle_type
    \<Rightarrow> ('n, 'z) tournament_state_scheme \<Rightarrow> ('n, 'z) tournament_state_scheme" where
  "update_npc_league_point season_id winner loser diff ty w =
    (if ty \<noteq> League then w
     else
       let (g, n, p, d) = npc_points w (season_id, winner);
           (g, n, p, d) = (g + 1, n + 1, p + 3, d + ucast diff);
           w = deposit_tournament (NpcPoints season_id winner g n p d)
                 (w\<lparr>npc_points := (npc_points w)((season_id, winner) := (g, n, p, d))\<rparr>);
           (g, n, p, d) = npc_points w (season_id, loser);
           (g, d) = (g + 1, d - ucast diff) in
       deposit_tournament (NpcPoints season_id loser g n p d)
         (w\<lparr>npc_points := (npc_points w)((season_id, loser) := (g, n, p, d))\<rparr>))"

definition finalize_battle ::
  "object_id \<Rightarrow> ('n, 'z) tournament_state_scheme \<Rightarrow> ('n, 'z) tournament_state_scheme result" where
  "finalize_battle battle_id w =
    and_then (unwrap (battles w battle_id)) (\<lambda>b.
    Inr (put_battle battle_id (b\<lparr>btl_status := BattleFinalized\<rparr>) w))"

definition finals_settle ::
  "'n tournament_config \<Rightarrow> origin \<Rightarrow> object_id
    \<Rightarrow> ('n, 'z) tournament_state_scheme \<Rightarrow> ('n, 'z) tournament_state_scheme result" where
  "finals_settle c o' battle_id w =
    organizer c o' (
    and_then (get_battle battle_id w) (\<lambda>b.
    ensure (btl_type b = QuarterFinals \<or> btl_type b = SemiFinals \<or> btl_type b = Finals) (terr BattleTypeError) (
    ensure (btl_status b = BattleCompleted) (terr BattleStatusError) (
    and_then (battle_calc b) (\<lambda>(_, winner, _).
    and_then (update_participant_point (btl_season b) battle_id b winner w) (\<lambda>w.
    and_then (finalize_battle battle_id w) (\<lambda>w.
    if btl_type b = Finals then
      and_then (unwrap (seasons w (btl_season b))) (\<lambda>x.
      Inr (store_season (btl_season b) (x\<lparr>ssn_champion := Some winner\<rparr>) w))
    else Inr w)))))))"

definition league_settle ::
  "'n tournament_config \<Rightarrow> origin \<Rightarrow> object_id
    \<Rightarrow> ('n, 'z) tournament_state_scheme \<Rightarrow> ('n, 'z) tournament_state_scheme result" where
  "league_settle c o' battle_id w =
    organizer c o' (
    and_then (get_battle battle_id w) (\<lambda>b.
    ensure (btl_status b = BattleCompleted) (terr BattleStatusError) (
    ensure (btl_type b = League) (terr BattleTypeError) (
    and_then (battle_calc b) (\<lambda>(diff, winner, loser).
    let w = update_npc_league_point (btl_season b) winner loser diff (btl_type b) w in
    and_then (update_participant_point (btl_season b) battle_id b winner w) (finalize_battle battle_id))))))"

section \<open>Closing a season\<close>

text \<open>The tickets of the sheets with all the winners, and with all but one.\<close>

fun count_tickets ::
  "object_id \<Rightarrow> u8 \<Rightarrow> (participant_key \<times> u8 \<times> u8 \<times> u32) list
    \<Rightarrow> ('n, 'z) tournament_state_scheme \<Rightarrow> u32 \<times> u32 \<Rightarrow> (u32 \<times> u32) result" where
  "count_tickets season_id best [] w t = Inr t"
| "count_tickets season_id best (((sid, acc, i), (_, wins, _)) # ps) w (champion, runner_up) =
    (if sid \<noteq> season_id then count_tickets season_id best ps w (champion, runner_up)
     else
       and_then (index (fst (vote_select_infos w (acc, season_id))) (unat i)) (\<lambda>sel.
       count_tickets season_id best ps w
         (if wins = best then champion + vs_ticket_amount sel else champion,
          if wins + 1 = best then runner_up + vs_ticket_amount sel else runner_up)))"

definition close_season ::
  "'n tournament_config \<Rightarrow> origin \<Rightarrow> object_id
    \<Rightarrow> ('n, 'z) tournament_state_scheme \<Rightarrow> ('n, 'z) tournament_state_scheme result" where
  "close_season c o' season_id w =
    organizer c o' (
    and_then (get_season season_id w) (\<lambda>x.
    and_then (count_tickets season_id (ssn_total_battles x) (participant_points w) w (0, 0)) (\<lambda>(champion, runner_up).
    let b = free_balance (tn_token c) (tn_awt c) (ssn_treasury x) w;
        champion_bonus = b * 7 div 8;
        runnerup_bonus = b - champion_bonus in
    Inr (store_season season_id
      (x\<lparr>ssn_bonus_strategy := [(ssn_total_battles x, champion, champion_bonus),
                               (ssn_total_battles x - 1, runner_up, runnerup_bonus)],
         ssn_status := SeasonFinalized\<rparr>) w))))"

text \<open>The number of winners on a sheet; \<open>result_map[&id]\<close> panics for a battle without a result.\<close>

fun right_battles :: "(object_id \<times> object_id) list \<Rightarrow> vote_select list \<Rightarrow> u8 \<Rightarrow> u8 result" where
  "right_battles m [] n = Inr n"
| "right_battles m (s # ss) n =
    and_then (unwrap (map_of m (vs_battle_id s))) (\<lambda>winner.
    right_battles m ss (if vs_npc_id s = winner then n + 1 else n))"

fun sheet_bonus :: "season_info \<Rightarrow> u32 \<Rightarrow> u8 \<Rightarrow> (u8 \<times> u32 \<times> u128) list \<Rightarrow> u128" where
  "sheet_bonus x n right [] = 0"
| "sheet_bonus x n right ((k, all, bonus) # bs) =
    (if right = k \<and> 0 < all then
       let per = bonus div ucast all;
           per = (if ssn_ticket_price x * 100 < per then ssn_ticket_price x * 100 else per) in
       per * ucast n
     else sheet_bonus x n right bs)"

fun total_bonus ::
  "season_info \<Rightarrow> (object_id \<times> object_id) list \<Rightarrow> vote_select_info list \<Rightarrow> u128 \<Rightarrow> u128 result" where
  "total_bonus x m [] t = Inr t"
| "total_bonus x m (sel # sels) t =
    and_then (right_battles m (vs_selects sel) 0) (\<lambda>right.
    total_bonus x m sels (t + sheet_bonus x (vs_ticket_amount sel) right (ssn_bonus_strategy x)))"

definition tournament_claim ::
  "'n tournament_config \<Rightarrow> origin \<Rightarrow> object_id
    \<Rightarrow> ('n, 'z) tournament_state_scheme \<Rightarrow> ('n, 'z) tournament_state_scheme result" where
  "tournament_claim c o' season_id w =
    and_then (ensure_signed o') (\<lambda>who.
    and_then (get_season season_id w) (\<lambda>season.
    ensure (ssn_status season = SeasonFinalized) (terr SeasonStatusError) (
    let infos = vote_select_infos w (who, season_id) in
    ensure (fst infos \<noteq> [] \<and> \<not> snd infos) (terr HaveNoBonus) (
    and_then (total_bonus season (season_winners w season_id) (fst infos) 0) (\<lambda>bonus.
    and_then (transfer_token (tn_token c) (ssn_treasury season) (tn_awt c) bonus who w) (\<lambda>w.
    Inr (w\<lparr>vote_select_infos := (vote_select_infos w)
           ((who, season_id) := (fst (vote_select_infos w (who, season_id)), True))\<rparr>)))))))"

section \<open>The calls of the pallet\<close>

datatype tournament_call =
    CreateNpc bytes bytes bytes bytes
  | CreateSeason bytes bytes battle_type u128
  | UpdateSeasonCurrentRound object_id battle_type
  | UpdateSeason object_id bytes bytes battle_type battle_type u128
  | GoBetWithInvite object_id select_index u128 bytes
  | GoBet object_id select_index u128
  | RevokeRemainCompensate object_id
  | BettingClaim object_id
  | AppendBettingPledge object_id u128
  | CreateBetting betting_type "object_id list" "odds_item_params list" object_id u128
  | SetDefaultSeason object_id
  | GiveAwayTickets object_id bytes
  | GiveAwayFee bytes
  | CreateBattle object_id battle_type object_id object_id bytes u8
  | WithdrawSeasonTreasury object_id account u128
  | UpdateBattle object_id object_id battle_type object_id object_id bytes u8
  | TransferTicket object_id u32 account
  | TournamentDeposit account u128 resource_id
  | TournamentSwap account u128 resource_id
  | BuyTicket u32 bytes
  | CloseSeason object_id
  | TournamentClaim object_id
  | SetResult object_id score score bytes
  | InitialVote object_id u32 "vote_select list"
  | AppendVote object_id select_index u8 u32 "vote_select list"
  | FinalsSettle object_id
  | DropBetting object_id
  | UpdateOdds object_id "(select_index \<times> odds_number) list"
  | LeagueSettle object_id

fun run_tournament_call ::
  "'n tournament_config \<Rightarrow> tournament_call \<Rightarrow> origin
    \<Rightarrow> ('n, 'z) tournament_state_scheme \<Rightarrow> ('n, 'z) tournament_state_scheme result" where
  "run_tournament_call c (CreateNpc a b d e) o' w = create_npc c o' a b d e w"
| "run_tournament_call c (CreateSeason a b t p) o' w = create_season c o' a b t p w"
| "run_tournament_call c (UpdateSeasonCurrentRound i t) o' w = update_season_current_round c o' i t w"
| "run_tournament_call c (UpdateSeason i a b t u p) o' w = update_season c o' i a b t u p w"
| "run_tournament_call c (GoBetWithInvite i s a d) o' w = go_bet_with_invite c o' i s a d w"
| "run_tournament_call c (GoBet i s a) o' w = go_bet c o' i s a w"
| "run_tournament_call c (RevokeRemainCompensate i) o' w = revoke_remain_compensate c o' i w"
| "run_tournament_call c (BettingClaim i) o' w = betting_claim c o' i w"
| "run_tournament_call c (AppendBettingPledge i a) o' w = append_betting_pledge c o' i a w"
| "run_tournament_call c (CreateBetting t bs ps i a) o' w = create_betting c o' t bs ps i a w"
| "run_tournament_call c (SetDefaultSeason i) o' w = set_default_season c o' i w"
| "run_tournament_call c (GiveAwayTickets i a) o' w = give_away_tickets c o' i a w"
| "run_tournament_call c (GiveAwayFee a) o' w = give_away_fee c o' a w"
| "run_tournament_call c (CreateBattle i t h v s p) o' w = create_battle c o' i t h v s p w"
| "run_tournament_call c (WithdrawSeasonTreasury i a n) o' w = withdraw_season_treasury c o' i a n w"
| "run_tournament_call c (UpdateBattle j i t h v s p) o' w = update_battle c o' j i t h v s p w"
| "run_tournament_call c (TransferTicket i n a) o' w = transfer_ticket c o' i n a w"
| "run_tournament_call c (TournamentDeposit a n r) o' w = tournament_deposit c o' a n r w"
| "run_tournament_call c (TournamentSwap a n r) o' w = tournament_swap c o' a n r w"
| "run_tournament_call c (BuyTicket n d) o' w = buy_ticket c o' n d w"
| "run_tournament_call c (CloseSeason i) o' w = close_season c o' i w"
| "run_tournament_call c (TournamentClaim i) o' w = tournament_claim c o' i w"
| "run_tournament_call c (SetResult i h v u) o' w = set_result c o' i h v u w"
| "run_tournament_call c (InitialVote i n vs) o' w = initial_vote c o' i n vs w"
| "run_tournament_call c (AppendVote i s t n vs) o' w = append_vote c o' i s t n vs w"
| "run_tournament_call c (FinalsSettle i) o' w = finals_settle c o' i w"
| "run_tournament_call c (DropBetting i) o' w = drop_betting c o' i w"
| "run_tournament_call c (UpdateOdds i os) o' w = update_odds c o' i os w"
| "run_tournament_call c (LeagueSettle i) o' w = league_settle c o' i w"

end
