(* ===== verification/Tournament_Frame.thy ===== *)
theory Tournament_Frame
  imports Tournament Ledger_Frame Transition_Systems
begin

text \<open>
  Which call of the tournament writes what. The bets (\<open>same_bets\<close>) and the sheets with their tickets
  (\<open>same_sheets\<close>) are written by disjoint groups of calls; all other calls, and everything that happens
  in other pallets, leave both.
\<close>

definition same_bets :: "('n, 'z) tournament_state_scheme \<Rightarrow> ('n, 'z) tournament_state_scheme \<Rightarrow> bool" where
  "same_bets w w' \<longleftrightarrow> bettings w' = bettings w \<and> betting_records w' = betting_records w"

definition same_sheets :: "('n, 'z) tournament_state_scheme \<Rightarrow> ('n, 'z) tournament_state_scheme \<Rightarrow> bool" where
  "same_sheets w w' \<longleftrightarrow> tickets w' = tickets w \<and> vote_select_infos w' = vote_select_infos w"

lemma same_bets_refl [simp]: "same_bets w w"
  by (simp add: same_bets_def)

lemma same_sheets_refl [simp]: "same_sheets w w"
  by (simp add: same_sheets_def)

lemma same_bets_trans: "same_bets w w' \<Longrightarrow> same_bets w' w'' \<Longrightarrow> same_bets w w''"
  by (simp add: same_bets_def)

lemma same_sheets_trans: "same_sheets w w' \<Longrightarrow> same_sheets w' w'' \<Longrightarrow> same_sheets w w''"
  by (simp add: same_sheets_def)

section \<open>Steps\<close>

text \<open>
  A step: a call of the pallet, any operation of another pallet (they do not reach this storage), or the
  passing of time.
\<close>

inductive tournament_step ::
  "'n tournament_config \<Rightarrow> 'n tournament_state \<Rightarrow> 'n tournament_state \<Rightarrow> bool" for c where
  ts_call: "run_tournament_call c call o' w = Inr w' \<Longrightarrow> tournament_step c w w'"
| ts_other: "same_upper w w' \<Longrightarrow> tournament_step c w w'"
| ts_time: "tournament_step c w (w\<lparr>moment := t\<rparr>)"

definition tournament_genesis :: "'n tournament_state \<Rightarrow> bool" where
  "tournament_genesis w \<longleftrightarrow> bettings w = (\<lambda>_. None) \<and> betting_records w = (\<lambda>_. ([], False))
    \<and> tickets w = (\<lambda>_. (0, 0)) \<and> vote_select_infos w = (\<lambda>_. ([], False))"

abbreviation tournament_reachable :: "'n tournament_config \<Rightarrow> 'n tournament_state \<Rightarrow> bool" where
  "tournament_reachable c \<equiv> reachable tournament_genesis (tournament_step c)"

section \<open>What leaves the bets and the sheets\<close>

named_theorems kept \<open>what a successful operation leaves of the tournament's storage\<close>

lemma upper_tournament:
  fixes w :: "('n, 'z) tournament_state_scheme"
  assumes "same_upper w w'"
  shows "same_bets w w'" and "same_sheets w w'" and "seasons w' = seasons w" and "battles w' = battles w"
    and "default_season w' = default_season w" and "moment w' = moment w" and "invite_code w' = invite_code w"
  using assms by (cases w; cases w'; simp add: same_bets_def same_sheets_def)+

lemma pay_kept [kept]:
  fixes w :: "('n, 'z) tournament_state_scheme"
  assumes "transfer_token c a t v b w = Inr w'"
  shows "same_bets w w' \<and> same_sheets w w'"
  using upper_tournament [OF transfer_token_upper [OF assms]] by blast

lemma mint_kept [kept]:
  fixes w :: "('n, 'z) tournament_state_scheme"
  assumes "mint_into t a v w = Inr w'"
  shows "same_bets w w' \<and> same_sheets w w'"
  using upper_tournament [OF token_upper(4) [OF assms]] by blast

lemma donate_kept [kept]:
  fixes w :: "('n, 'z) tournament_state_scheme"
  assumes "donate c d v a w = Inr w'"
  shows "same_bets w w' \<and> same_sheets w w'"
  using upper_tournament [OF upper_handler(3) [OF assms]] by blast

lemma put_fields [simp]:
  "bettings (put_season i x u) = bettings u"
  "bettings (put_battle i b u) = bettings u"
  "bettings (deposit_tournament e u) = bettings u"
  "bettings (store_season i x u) = bettings u"
  "bettings (put_betting k bt u) = (bettings u)(k \<mapsto> bt)"
  "bettings (add_tickets i a n u) = bettings u"
  "betting_records (put_season i x u) = betting_records u"
  "betting_records (put_battle i b u) = betting_records u"
  "betting_records (deposit_tournament e u) = betting_records u"
  "betting_records (store_season i x u) = betting_records u"
  "betting_records (put_betting k bt u) = betting_records u"
  "betting_records (add_tickets i a n u) = betting_records u"
  "tickets (put_season i x u) = tickets u"
  "tickets (put_battle i b u) = tickets u"
  "tickets (deposit_tournament e u) = tickets u"
  "tickets (store_season i x u) = tickets u"
  "tickets (put_betting k bt u) = tickets u"
  "vote_select_infos (put_season i x u) = vote_select_infos u"
  "vote_select_infos (put_battle i b u) = vote_select_infos u"
  "vote_select_infos (deposit_tournament e u) = vote_select_infos u"
  "vote_select_infos (store_season i x u) = vote_select_infos u"
  "vote_select_infos (put_betting k bt u) = vote_select_infos u"
  "vote_select_infos (add_tickets i a n u) = vote_select_infos u"
  by (simp_all add: put_season_def put_battle_def deposit_tournament_def store_season_def put_betting_def
      add_tickets_def)

lemma put_kept [simp]:
  "same_bets w (put_season i x u) = same_bets w u" "same_sheets w (put_season i x u) = same_sheets w u"
  "same_bets w (put_battle i b u) = same_bets w u" "same_sheets w (put_battle i b u) = same_sheets w u"
  "same_bets w (deposit_tournament e u) = same_bets w u"
  "same_sheets w (deposit_tournament e u) = same_sheets w u"
  "same_bets w (store_season i x u) = same_bets w u" "same_sheets w (store_season i x u) = same_sheets w u"
  "same_sheets w (put_betting k bt u) = same_sheets w u"
  "same_bets w (add_tickets i a n u) = same_bets w u"
  by (simp_all add: same_bets_def same_sheets_def)

lemma organizer_Inr [result_simps]: "organizer c o' k = Inr r \<longleftrightarrow> tn_organizer_origin c o' \<and> k = Inr r"
  by (simp add: organizer_def result_simps)

lemma get_Inr [result_simps]:
  "get_season i w = Inr x \<longleftrightarrow> seasons w i = Some x"
  "get_battle i w = Inr b \<longleftrightarrow> battles w i = Some b"
  "get_betting i w = Inr bt \<longleftrightarrow> bettings w i = Some bt"
  "unwrap y = Inr z \<longleftrightarrow> y = Some z"
  by (simp_all add: get_season_def get_battle_def get_betting_def unwrap_def result_simps)

lemma give_fees_kept [kept]:
  "give_fees c as w = Inr w' \<Longrightarrow> same_bets w w' \<and> same_sheets w w'"
  by (induction as arbitrary: w)
    (auto simp: result_simps dest!: pay_kept intro: same_bets_trans same_sheets_trans)

lemma score_vote_kept [simp]:
  "same_bets w (score_vote i k ba n e u) = same_bets w u" "same_sheets w (score_vote i k ba n e u) = same_sheets w u"
  by (simp_all add: score_vote_def Let_def same_bets_def same_sheets_def deposit_tournament_def split: prod.splits)

lemma score_votes_kept [simp]:
  "same_bets w (fold (score_vote i k ba n) es u) = same_bets w u"
  "same_sheets w (fold (score_vote i k ba n) es u) = same_sheets w u"
  by (induction es arbitrary: u) simp_all

lemma league_point_kept [simp]:
  "same_bets w (update_npc_league_point i x y d ty u) = same_bets w u"
  "same_sheets w (update_npc_league_point i x y d ty u) = same_sheets w u"
  by (simp_all add: update_npc_league_point_def Let_def same_bets_def same_sheets_def deposit_tournament_def
      split: prod.splits)

lemma record_calls_kept [kept]:
  "create_npc c o' a b d e w = Inr w' \<Longrightarrow> same_bets w w' \<and> same_sheets w w'"
  "create_season c o' a b t p w = Inr w' \<Longrightarrow> same_bets w w' \<and> same_sheets w w'"
  "update_season_current_round c o' i t w = Inr w' \<Longrightarrow> same_bets w w' \<and> same_sheets w w'"
  "update_season c o' i a b t u p w = Inr w' \<Longrightarrow> same_bets w w' \<and> same_sheets w w'"
  "set_default_season c o' i w = Inr w' \<Longrightarrow> same_bets w w' \<and> same_sheets w w'"
  "create_battle c o' i t h v s n w = Inr w' \<Longrightarrow> same_bets w w' \<and> same_sheets w w'"
  "update_battle c o' j i t h v s n w = Inr w' \<Longrightarrow> same_bets w w' \<and> same_sheets w w'"
  "set_result c o' i x y url w = Inr w' \<Longrightarrow> same_bets w w' \<and> same_sheets w w'"
  by (auto simp: create_npc_def create_season_def update_season_current_round_def update_season_def
      set_default_season_def create_battle_def update_battle_def set_result_def Let_def result_simps
      split: option.splits) (simp_all add: same_bets_def same_sheets_def)

lemma money_calls_kept [kept]:
  "give_away_fee c o' a w = Inr w' \<Longrightarrow> same_bets w w' \<and> same_sheets w w'"
  "withdraw_season_treasury c o' i b n w = Inr w' \<Longrightarrow> same_bets w w' \<and> same_sheets w w'"
  "tournament_deposit c o' b n r w = Inr w' \<Longrightarrow> same_bets w w' \<and> same_sheets w w'"
  "tournament_swap c o' b n r w = Inr w' \<Longrightarrow> same_bets w w' \<and> same_sheets w w'"
  "revoke_remain_compensate c o' i w = Inr w' \<Longrightarrow> same_bets w w' \<and> same_sheets w w'"
  by (auto simp: give_away_fee_def withdraw_season_treasury_def tournament_deposit_def tournament_swap_def
      swap_from_pool_def revoke_remain_compensate_def Let_def result_simps split: if_splits
      dest!: pay_kept mint_kept donate_kept give_fees_kept intro: same_bets_trans same_sheets_trans)

lemma settle_calls_kept [kept]:
  "finals_settle c o' i w = Inr w' \<Longrightarrow> same_bets w w' \<and> same_sheets w w'"
  "league_settle c o' i w = Inr w' \<Longrightarrow> same_bets w w' \<and> same_sheets w w'"
  "close_season c o' i w = Inr w' \<Longrightarrow> same_bets w w' \<and> same_sheets w w'"
  by (auto simp: finals_settle_def league_settle_def close_season_def update_participant_point_def
      finalize_battle_def Let_def result_simps split: if_splits)

end
