(* ===== verification/Tournament_Invariants.thy ===== *)
theory Tournament_Invariants
  imports Tournament_Frame
begin

text \<open>
  What every step of the tournament keeps: the bets on the books are well formed (\<open>bettings_ok\<close>), the
  tickets of an account are unspent or on one of its sheets (\<open>tickets_ok\<close>), and what has been claimed stays
  claimed (\<open>claims_kept\<close>).
\<close>

section \<open>Bets on the books\<close>

definition bettings_ok :: "('n, 'z) tournament_state_scheme \<Rightarrow> bool" where
  "bettings_ok w \<longleftrightarrow> (\<forall>k b. bettings w k = Some b \<longrightarrow> betting_check b)"

lemma bettings_okD: "bettings_ok w \<Longrightarrow> bettings w k = Some b \<Longrightarrow> betting_check b"
  by (simp add: bettings_ok_def)

lemma bettings_ok_same: "same_bets w w' \<Longrightarrow> bettings_ok w \<Longrightarrow> bettings_ok w'"
  by (simp add: bettings_ok_def same_bets_def)

lemma bettings_ok_put: "bettings_ok w \<Longrightarrow> betting_check b \<Longrightarrow> bettings_ok (put_betting k b w)"
  by (simp add: bettings_ok_def)

lemma bettings_ok_cong: "bettings w' = bettings w \<Longrightarrow> bettings_ok w \<Longrightarrow> bettings_ok w'"
  by (simp add: bettings_ok_def)

text \<open>The odds may change as long as the outcomes stay and the numbers are above 100.\<close>

lemma list_all_map_eq: "List.map f xs = List.map f ys \<Longrightarrow> list_all (\<lambda>x. P (f x)) xs = list_all (\<lambda>x. P (f x)) ys"
  by (metis (no_types, lifting) list.pred_map list.pred_cong comp_apply)

lemma odds_check_split:
  "list_all (odds_check BettingScore n) os
    \<longleftrightarrow> list_all (\<lambda>x. length (od_score x) = n \<and> list_all legal_score (od_score x)) os
      \<and> list_all (\<lambda>x. 100 < od_o x) os"
  "list_all (odds_check BettingWinLose n) os
    \<longleftrightarrow> list_all (\<lambda>x. length (od_win_lose x) = n \<and> list_all (\<lambda>y. y = 1 \<or> y = 2) (od_win_lose x)) os
      \<and> list_all (\<lambda>x. 100 < od_o x) os"
  by (auto simp: odds_check_def list_all_iff not_le)

lemma betting_check_odds:
  assumes "betting_check b" and "List.map od_score os = List.map od_score (bet_odds b)"
    and "List.map od_win_lose os = List.map od_win_lose (bet_odds b)" and "list_all (\<lambda>x. 100 < od_o x) os"
  shows "betting_check (b\<lparr>bet_odds := os\<rparr>)"
proof -
  have "length os = length (bet_odds b)" using assms(2) by (metis length_map)
  moreover have "list_all (\<lambda>x. length (od_score x) = n \<and> list_all legal_score (od_score x)) os
      = list_all (\<lambda>x. length (od_score x) = n \<and> list_all legal_score (od_score x)) (bet_odds b)"
    "list_all (\<lambda>x. length (od_score x) = n) os = list_all (\<lambda>x. length (od_score x) = n) (bet_odds b)" for n
    using list_all_map_eq [OF assms(2), of "\<lambda>l. length l = n \<and> list_all legal_score l"]
      list_all_map_eq [OF assms(2), of "\<lambda>l. length l = n"] by simp_all
  moreover have "list_all (\<lambda>x. length (od_win_lose x) = n \<and> list_all (\<lambda>y. y = 1 \<or> y = 2) (od_win_lose x)) os
      = list_all (\<lambda>x. length (od_win_lose x) = n \<and> list_all (\<lambda>y. y = 1 \<or> y = 2) (od_win_lose x)) (bet_odds b)"
    "list_all (\<lambda>x. length (od_win_lose x) = n) os = list_all (\<lambda>x. length (od_win_lose x) = n) (bet_odds b)" for n
    using list_all_map_eq [OF assms(3), of "\<lambda>l. length l = n \<and> list_all (\<lambda>y. y = 1 \<or> y = 2) l"]
      list_all_map_eq [OF assms(3), of "\<lambda>l. length l = n"] by simp_all
  ultimately show ?thesis
    using assms by (cases "bet_type b") (auto simp: betting_check_def odds_check_split)
qed

lemma checked_odds: "betting_check b \<Longrightarrow> list_all (\<lambda>x. 100 < od_o x) (bet_odds b)"
  by (auto simp: betting_check_def odds_check_def list_all_iff not_le)

lemma write_odds_keeps:
  assumes "write_odds ps os = Inr os'" and "list_all (\<lambda>x. 100 < od_o x) os"
  shows "List.map od_score os' = List.map od_score os \<and> List.map od_win_lose os' = List.map od_win_lose os
    \<and> list_all (\<lambda>x. 100 < od_o x) os'"
  using assms
proof (induction ps arbitrary: os)
  case (Cons p ps)
  obtain i n where p: "p = (i, n)" by (cases p)
  let ?os = "os[unat i := (os ! unat i)\<lparr>od_o := n\<rparr>]"
  have i: "unat i < length os" and n: "100 < n" and run: "write_odds ps ?os = Inr os'"
    using Cons.prems(1) by (auto simp: p result_simps)
  have ok: "list_all (\<lambda>x. 100 < od_o x) ?os"
    using Cons.prems(2) n i by (auto simp: list_all_length nth_list_update)
  have same: "List.map od_score ?os = List.map od_score os" "List.map od_win_lose ?os = List.map od_win_lose os"
    using i by (simp_all add: map_update list_update_same_conv)
  show ?case using Cons.IH [OF run ok] same by simp
qed simp_all

lemma go_bet_for_ok:
  assumes "go_bet_for c who k i v w = Inr w'" and "bettings_ok w"
  shows "bettings_ok w'"
proof -
  obtain b w1 os r where b: "bettings w k = Some b" and i: "unat i < length (bet_odds b)"
    and pay: "transfer_token (tn_token c) who (bet_token_id b) v (bet_creator b) w = Inr w1"
    and os: "os = (bet_odds b)[unat i := (bet_odds b ! unat i)
      \<lparr>od_total_compensate_amount := od_total_compensate_amount (bet_odds b ! unat i)
          + ucast (od_o (bet_odds b ! unat i)) * v div 100,
       od_accounts := od_accounts (bet_odds b ! unat i) + 1,
       od_buy_in := od_buy_in (bet_odds b ! unat i) + v\<rparr>]"
    and w': "w' = put_betting k (b\<lparr>bet_odds := os\<rparr>)
      (deposit_tournament (BettingUpdate k (b\<lparr>bet_odds := os\<rparr>)) (w1\<lparr>betting_records := r\<rparr>))"
    using assms(1) by (auto simp: go_bet_for_def Let_def result_simps)
  have ok: "betting_check b" using assms(2) b by (rule bettings_okD)
  have odds: "100 < od_o (bet_odds b ! unat i)" using checked_odds [OF ok] i by (simp add: list_all_length)
  have "betting_check (b\<lparr>bet_odds := os\<rparr>)"
  proof (rule betting_check_odds [OF ok])
    show "List.map od_score os = List.map od_score (bet_odds b)"
      "List.map od_win_lose os = List.map od_win_lose (bet_odds b)"
      using i by (simp_all add: os map_update list_update_same_conv)
    show "list_all (\<lambda>x. 100 < od_o x) os"
      using checked_odds [OF ok] odds i by (auto simp: os list_all_length nth_list_update)
  qed
  moreover have "bettings_ok w1" using pay_kept [OF pay] assms(2) by (blast intro: bettings_ok_same)
  ultimately show ?thesis
    unfolding w' by (intro bettings_ok_put) (simp_all add: bettings_ok_def)
qed

lemma create_betting_ok:
  assumes "create_betting c o' ty bs ps i v w = Inr w'" and "bettings_ok w"
  shows "bettings_ok w'"
proof -
  obtain b w1 f n where "betting_check b"
    and pay: "transfer_token (tn_token c) (bet_creator b) (bet_token_id b) v (bet_pledge_account b) w = Inr w1"
    and w': "w' = deposit_tournament (BettingUpdate (next_betting_id w) b)
      (put_betting (next_betting_id w) b w1\<lparr>betting_by_battle := f, next_betting_id := n\<rparr>)"
    using assms(1) unfolding create_betting_def Let_def result_simps by blast
  moreover have "bettings_ok w1" using pay_kept [OF pay] assms(2) by (blast intro: bettings_ok_same)
  ultimately show ?thesis by (simp add: bettings_ok_def)
qed

lemma pledge_ok:
  assumes "append_betting_pledge c o' k v w = Inr w' \<or> drop_betting c o' k w = Inr w'" and "bettings_ok w"
  shows "bettings_ok w'"
proof -
  obtain b w1 a d x p f where b: "bettings w k = Some b"
    and pay: "transfer_token (tn_token c) a (bet_token_id b) x d w = Inr w1"
    and w': "bettings w' = (bettings w1)(k \<mapsto> b\<lparr>bet_total_pledge := p\<rparr>)"
    using assms(1) by (auto simp: append_betting_pledge_def drop_betting_def Let_def result_simps)
  have "bettings w1 = bettings w" using pay_kept [OF pay] by (simp add: same_bets_def)
  moreover have "betting_check (b\<lparr>bet_total_pledge := p\<rparr>)"
    using bettings_okD [OF assms(2) b] by (cases "bet_type b") (auto simp: betting_check_def)
  ultimately show ?thesis using assms(2) by (simp add: bettings_ok_def w')
qed

lemma update_odds_ok:
  assumes "update_odds c o' k ps w = Inr w'" and "bettings_ok w"
  shows "bettings_ok w'"
proof -
  obtain b os where b: "bettings w k = Some b" and os: "write_odds ps (bet_odds b) = Inr os"
    and w': "w' = put_betting k (b\<lparr>bet_odds := os\<rparr>) (deposit_tournament (BettingUpdate k (b\<lparr>bet_odds := os\<rparr>)) w)"
    using assms(1) by (auto simp: update_odds_def Let_def result_simps)
  have ok: "betting_check b" using assms(2) b by (rule bettings_okD)
  have "betting_check (b\<lparr>bet_odds := os\<rparr>)"
    using write_odds_keeps [OF os checked_odds [OF ok]] ok by (intro betting_check_odds) blast+
  then show ?thesis
    using assms(2) unfolding w' by (intro bettings_ok_put) (simp_all add: bettings_ok_def)
qed

lemma betting_claim_Inr:
  assumes "betting_claim c o' k w = Inr w'"
  obtains who b hit w1 where "o' = SignedOrigin who" and "\<not> snd (betting_records w (who, k))"
    and "bettings w k = Some b" and "calc_betting_hit_index b w = Inr hit" and "same_bets w w1" and "same_sheets w w1"
    and "w' = w1\<lparr>betting_records := (betting_records w1)((who, k) := (fst (betting_records w1 (who, k)), True))\<rparr>"
proof -
  obtain who b hit w1 where *: "ensure_signed o' = Inr who" "\<not> snd (betting_records w (who, k))"
    "bettings w k = Some b" "calc_betting_hit_index b w = Inr hit"
    and pay: "(if 0 < claim_amount hit (fst (betting_records w (who, k)))
       then transfer_token (tn_token c) (bet_pledge_account b) (bet_token_id b)
         (claim_amount hit (fst (betting_records w (who, k)))) who w
       else Inr w) = Inr w1"
    and w': "w' = w1\<lparr>betting_records := (betting_records w1)((who, k) := (fst (betting_records w1 (who, k)), True))\<rparr>"
    using assms unfolding betting_claim_def Let_def case_prod_unfold and_then_Inr ensure_Inr get_Inr sum.inject
    by metis
  have "same_bets w w1 \<and> same_sheets w w1" using pay by (auto split: if_splits dest!: pay_kept)
  moreover have "o' = SignedOrigin who" using *(1) by (auto simp: ensure_signed_def split: origin.splits)
  ultimately show thesis using that * w' by blast
qed

lemma go_bet_Inr:
  assumes "go_bet c o' k i v w = Inr w'"
  obtains who where "o' = SignedOrigin who" and "go_bet_for c who k i v w = Inr w'"
  using assms by (auto simp: go_bet_def ensure_signed_def split: origin.splits)

lemma go_bet_with_invite_Inr:
  assumes "go_bet_with_invite c o' k i v code w = Inr w'"
  obtains who w1 f where "o' = SignedOrigin who" and "go_bet_for c who k i v w = Inr w1"
    and "w' = w1\<lparr>betting_invite_amount := f\<rparr>"
proof -
  let ?out = "\<lambda>who (b :: betting) w1. case invite_code_to_addr c code of
      Some invitor \<Rightarrow> if invitor \<noteq> who
        then w1\<lparr>betting_invite_amount := (betting_invite_amount w1)(((bet_season b, invitor), bet_token_id b)
          := betting_invite_amount w1 ((bet_season b, invitor), bet_token_id b) + v)\<rparr>
        else w1
    | None \<Rightarrow> w1"
  have "\<exists>who b w1. ensure_signed o' = Inr who \<and> go_bet_for c who k i v w = Inr w1 \<and> ?out who b w1 = w'"
    using assms unfolding go_bet_with_invite_def Let_def and_then_Inr sum.inject by (elim exE conjE) (intro exI conjI)
  then obtain who b w1 where *: "ensure_signed o' = Inr who" "go_bet_for c who k i v w = Inr w1"
    and w': "?out who b w1 = w'" by (elim exE conjE)
  have same: "\<exists>f. w1 = w1\<lparr>betting_invite_amount := f\<rparr>"
    by (rule exI [of _ "betting_invite_amount w1"]) simp
  have "\<exists>f. w' = w1\<lparr>betting_invite_amount := f\<rparr>"
  proof (cases "w' = w1")
    case True
    then show ?thesis using same by blast
  next
    case False
    then show ?thesis using w' by (auto split: option.splits if_splits)
  qed
  moreover have "o' = SignedOrigin who" using *(1) by (auto simp: ensure_signed_def split: origin.splits)
  ultimately show thesis using that *(2) by blast
qed

lemma bet_calls_ok:
  "go_bet c o' k i v w = Inr w' \<Longrightarrow> bettings_ok w \<Longrightarrow> bettings_ok w'"
  "go_bet_with_invite c o' k i v code w = Inr w' \<Longrightarrow> bettings_ok w \<Longrightarrow> bettings_ok w'"
  "betting_claim c o' k w = Inr w' \<Longrightarrow> bettings_ok w \<Longrightarrow> bettings_ok w'"
  by (auto elim!: go_bet_Inr go_bet_with_invite_Inr betting_claim_Inr dest!: go_bet_for_ok
      simp: bettings_ok_def same_bets_def)

section \<open>Tickets and sheets\<close>

text \<open>The calls that write tickets or sheets leave the bets.\<close>

lemma put_vote_kept [kept]:
  "put_vote c a i x w = Inr w' \<Longrightarrow> same_bets w w' \<and> same_sheets w w'"
  by (auto simp: put_vote_def result_simps same_bets_def same_sheets_def)

lemma vote_lists_kept [kept]:
  "put_vote_list c a i xs w = Inr w' \<Longrightarrow> same_bets w w' \<and> same_sheets w w'"
  "cast_votes c a j x i xs w = Inr w' \<Longrightarrow> same_bets w w' \<and> same_sheets w w'"
  "extend_votes c a j i xs w = Inr w' \<Longrightarrow> same_bets w w' \<and> same_sheets w w'"
  by (induction xs arbitrary: w; auto simp: result_simps dest!: put_vote_kept
      intro: same_bets_trans same_sheets_trans)+

lemma pay_invitor_kept [kept]:
  "pay_invitor c a code m w = Inr (x, w') \<Longrightarrow> same_bets w w' \<and> same_sheets w w'"
  by (auto simp: pay_invitor_def Let_def result_simps case_prod_unfold split: option.splits if_splits
      dest!: pay_kept) (simp_all add: same_bets_def same_sheets_def)

lemma give_tickets_bets: "give_tickets c i as w = Inr w' \<Longrightarrow> same_bets w w'"
  by (induction as arbitrary: w) (auto simp: result_simps same_bets_def)

definition sheet_tickets :: "account \<Rightarrow> object_id \<Rightarrow> ('n, 'z) tournament_state_scheme \<Rightarrow> u32" where
  "sheet_tickets a i w = sum_list (List.map vs_ticket_amount (fst (vote_select_infos w (a, i))))"

definition tickets_ok :: "('n, 'z) tournament_state_scheme \<Rightarrow> bool" where
  "tickets_ok w \<longleftrightarrow> (\<forall>i a. fst (tickets w (i, a)) = snd (tickets w (i, a)) + sheet_tickets a i w)"

lemma tickets_okI:
  "(\<And>i a. fst (tickets w (i, a)) = snd (tickets w (i, a)) + sheet_tickets a i w) \<Longrightarrow> tickets_ok w"
  by (simp add: tickets_ok_def)

lemma tickets_okD: "tickets_ok w \<Longrightarrow> fst (tickets w (i, a)) = snd (tickets w (i, a)) + sheet_tickets a i w"
  by (simp add: tickets_ok_def)

lemma tickets_ok_same: "same_sheets w w' \<Longrightarrow> tickets_ok w \<Longrightarrow> tickets_ok w'"
  by (simp add: tickets_ok_def same_sheets_def sheet_tickets_def)

lemma tickets_ok_add: "tickets_ok w \<Longrightarrow> tickets_ok (add_tickets i a n w)"
  by (auto simp: add_tickets_def sheet_tickets_def intro!: tickets_okI dest: tickets_okD)

lemma sum_list_update:
  fixes f :: "'a \<Rightarrow> 'b::ab_group_add"
  shows "i < length xs \<Longrightarrow> sum_list (List.map f (xs[i := x])) = sum_list (List.map f xs) - f (xs ! i) + f x"
  by (induction xs arbitrary: i) (auto split: nat.splits)

lemma give_tickets_ok: "give_tickets c i as w = Inr w' \<Longrightarrow> tickets_ok w \<Longrightarrow> tickets_ok w'"
  by (induction as arbitrary: w) (auto simp: result_simps intro: tickets_ok_add)

lemma transfer_ticket_Inr:
  assumes "transfer_ticket c o' i n a w = Inr w'"
  obtains who w1 where "same_bets w w'" and "same_sheets w1 w'"
    and "w1 = add_tickets i a n (w\<lparr>tickets := (tickets w)((i, who) :=
      (fst (tickets w (i, who)) - n, snd (tickets w (i, who)) - n))\<rparr>)"
proof -
  obtain who where run: "donate (tn_token c) (tn_donor c) (tn_donation c) a
      (add_tickets i a n (w\<lparr>tickets := (tickets w)((i, who) :=
        (fst (tickets w (i, who)) - n, snd (tickets w (i, who)) - n))\<rparr>)) = Inr w'"
    using assms unfolding transfer_ticket_def Let_def case_prod_unfold and_then_Inr ensure_Inr by blast
  show thesis
  proof (rule that [OF _ _ refl, of who])
    show "same_bets w w'" using donate_kept [OF run] by (auto simp: same_bets_def add_tickets_def)
  qed (rule conjunct2 [OF donate_kept [OF run]])
qed

lemma buy_ticket_Inr:
  assumes "buy_ticket c o' n code w = Inr w'"
  obtains who x w1 w2 w3 inv m bonus where "o' = SignedOrigin who" and "seasons w (default_season w) = Some x"
    and "now_seconds w < ssn_start_time x"
    and "fst (tickets w (default_season w, who)) + n \<le> tn_max_tickets c" and "0 < n"
    and "m = ssn_ticket_price x * ucast n" and "m \<le> free_balance (tn_token c) (tn_awt c) who w"
    and "bonus = m * 85 div 100"
    and "transfer_token (tn_token c) who (tn_awt c) bonus (ssn_treasury x) w = Inr w1"
    and "pay_invitor c who code m w1 = Inr (inv, w2)"
    and "transfer_token (tn_token c) who (tn_awt c) (m - bonus - inv) (tn_bvb_treasury c) w2 = Inr w3"
    and "same_bets w w3" and "same_sheets w w3"
    and "w' = put_season (default_season w) (x\<lparr>ssn_total_tickets := ssn_total_tickets x + n\<rparr>)
      (add_tickets (default_season w) who n w3)"
proof -
  obtain who x w1 w2 w3 inv where *: "ensure_signed o' = Inr who" "seasons w (default_season w) = Some x"
    "now_seconds w < ssn_start_time x"
    "fst (tickets w (default_season w, who)) + n \<le> tn_max_tickets c" "0 < n"
    "ssn_ticket_price x * ucast n \<le> free_balance (tn_token c) (tn_awt c) who w"
    and pay: "transfer_token (tn_token c) who (tn_awt c) (ssn_ticket_price x * ucast n * 85 div 100)
        (ssn_treasury x) w = Inr w1"
    "pay_invitor c who code (ssn_ticket_price x * ucast n) w1 = Inr (inv, w2)"
    "transfer_token (tn_token c) who (tn_awt c)
        (ssn_ticket_price x * ucast n - ssn_ticket_price x * ucast n * 85 div 100 - inv) (tn_bvb_treasury c) w2 = Inr w3"
    and w': "put_season (default_season w) (x\<lparr>ssn_total_tickets := ssn_total_tickets x + n\<rparr>)
      (add_tickets (default_season w) who n w3) = w'"
    using assms unfolding buy_ticket_def Let_def and_then_Inr ensure_Inr ok_or_Inr sum.inject split_paired_Ex
      prod.case by blast
  have "o' = SignedOrigin who" using *(1) by (auto simp: ensure_signed_def split: origin.splits)
  moreover have "same_bets w w3" "same_sheets w w3"
    using pay_kept [OF pay(1)] pay_invitor_kept [OF pay(2)] pay_kept [OF pay(3)]
    by (auto intro: same_bets_trans same_sheets_trans)
  ultimately show thesis using * pay w' by (intro that) (rule refl | assumption | simp)+
qed

text \<open>A sheet is added with tickets of its own, or changed without changing its tickets.\<close>

lemma initial_vote_Inr:
  assumes "initial_vote c o' i n xs w = Inr w'"
  obtains who w1 v where "same_bets w w1" and "same_sheets w w1" and "same_bets w1 w'"
    and "v = vote_select_infos w (who, i)"
    and "vote_select_infos w' = (vote_select_infos w)((who, i) :=
      (fst v @ [\<lparr>vs_ticket_amount = n, vs_selects = xs\<rparr>], snd v))"
    and "tickets w' = (tickets w)((i, who) := (fst (tickets w (i, who)), snd (tickets w (i, who)) - n))"
proof -
  obtain who x w1 where cast: "cast_votes c who i x
      (word_of_nat (length (fst (vote_select_infos w (who, i))))) xs w = Inr w1"
    and w': "w1\<lparr>vote_select_infos := (vote_select_infos w1)((who, i) :=
        (fst (vote_select_infos w1 (who, i)) @ [\<lparr>vs_ticket_amount = n, vs_selects = xs\<rparr>],
         snd (vote_select_infos w1 (who, i)))),
      tickets := (tickets w1)((i, who) := (fst (tickets w1 (i, who)), snd (tickets w (i, who)) - n))\<rparr> = w'"
    using assms unfolding initial_vote_def Let_def and_then_Inr ensure_Inr sum.inject by auto
  note same = vote_lists_kept(2) [OF cast]
  show thesis
    using same by (intro that [of w1]) (auto simp: same_bets_def same_sheets_def w' [symmetric])
qed

lemma append_split_Inr:
  assumes "append_split c who i k old n xs w = Inr w'" and "old = fst (vote_select_infos w (who, i)) ! unat k"
  obtains j w1 where "put_vote_list c who j (vs_selects old @ xs) (w\<lparr>vote_select_infos := (vote_select_infos w)((who, i) :=
      ((fst (vote_select_infos w (who, i)))[unat k := old\<lparr>vs_ticket_amount := vs_ticket_amount old - n\<rparr>],
       snd (vote_select_infos w (who, i))))\<rparr>) = Inr w1"
    and "bettings w' = bettings w1" and "betting_records w' = betting_records w1" and "tickets w' = tickets w1"
    and "vote_select_infos w' = (vote_select_infos w1)((who, i) :=
          (fst (vote_select_infos w1 (who, i)) @ [\<lparr>vs_ticket_amount = n, vs_selects = vs_selects old @ xs\<rparr>],
           snd (vote_select_infos w1 (who, i))))"
  using assms(1) unfolding append_split_def Let_def assms(2) [symmetric] and_then_Inr sum.inject
  by (elim exE conjE) (erule that; erule subst; simp)

lemma append_vote_Inr:
  assumes "append_vote c o' i k ty n xs w = Inr w'"
  obtains who old v where "same_bets w w'" and "tickets w' = tickets w" and "v = vote_select_infos w (who, i)"
    and "unat k < length (fst v)" and "old = fst v ! unat k"
    and "n = vs_ticket_amount old \<and> vote_select_infos w' = (vote_select_infos w)((who, i) :=
        ((fst v)[unat k := old\<lparr>vs_selects := vs_selects old @ xs\<rparr>], snd v))
      \<or> vote_select_infos w' = (vote_select_infos w)((who, i) :=
        ((fst v)[unat k := old\<lparr>vs_ticket_amount := vs_ticket_amount old - n\<rparr>]
          @ [\<lparr>vs_ticket_amount = n, vs_selects = vs_selects old @ xs\<rparr>], snd v))"
proof -
  obtain who old v where v: "v = vote_select_infos w (who, i)" "unat k < length (fst v)" "old = fst v ! unat k"
    and run: "(if n = vs_ticket_amount old then append_whole c who i k old xs w
      else append_split c who i k old n xs w) = Inr w'"
    using assms unfolding append_vote_def Let_def and_then_Inr ensure_Inr by blast
  show thesis
  proof (cases "n = vs_ticket_amount old")
    case True
    then obtain w1 where ext: "extend_votes c who i k xs w = Inr w1"
      and w': "w' = w1\<lparr>vote_select_infos := (vote_select_infos w1)((who, i) :=
        ((fst (vote_select_infos w1 (who, i)))[unat k := old\<lparr>vs_selects := vs_selects old @ xs\<rparr>],
         snd (vote_select_infos w1 (who, i))))\<rparr>"
      using run by (auto simp: append_whole_def Let_def and_then_Inr)
    note same = vote_lists_kept(3) [OF ext]
    show thesis using same v True by (intro that [of v who old]) (auto simp: same_bets_def same_sheets_def w')
  next
    case False
    let ?w = "w\<lparr>vote_select_infos := (vote_select_infos w)((who, i) :=
      ((fst v)[unat k := old\<lparr>vs_ticket_amount := vs_ticket_amount old - n\<rparr>], snd v))\<rparr>"
    obtain j w1 where put: "put_vote_list c who j (vs_selects old @ xs) ?w = Inr w1"
      and w': "bettings w' = bettings w1" "betting_records w' = betting_records w1" "tickets w' = tickets w1"
        "vote_select_infos w' = (vote_select_infos w1)((who, i) :=
          (fst (vote_select_infos w1 (who, i)) @ [\<lparr>vs_ticket_amount = n, vs_selects = vs_selects old @ xs\<rparr>],
           snd (vote_select_infos w1 (who, i))))"
      using append_split_Inr [OF run [unfolded if_not_P [OF False]] v(3) [unfolded v(1)]] unfolding v(1) by metis
    note same = vote_lists_kept(1) [OF put]
    show thesis using same v by (intro that [of v who old]) (auto simp: same_bets_def same_sheets_def w')
  qed
qed

lemma tournament_claim_Inr:
  assumes "tournament_claim c o' i w = Inr w'"
  obtains who w1 where "o' = SignedOrigin who" and "\<not> snd (vote_select_infos w (who, i))"
    and "same_bets w w1" and "same_sheets w w1"
    and "w' = w1\<lparr>vote_select_infos := (vote_select_infos w1)((who, i) := (fst (vote_select_infos w1 (who, i)), True))\<rparr>"
proof -
  obtain who v x w1 where *: "ensure_signed o' = Inr who" "\<not> snd (vote_select_infos w (who, i))"
    and pay: "transfer_token (tn_token c) v (tn_awt c) x who w = Inr w1"
    and w': "w1\<lparr>vote_select_infos := (vote_select_infos w1)
      ((who, i) := (fst (vote_select_infos w1 (who, i)), True))\<rparr> = w'"
    using assms unfolding tournament_claim_def Let_def and_then_Inr ensure_Inr sum.inject by blast
  have "o' = SignedOrigin who" using *(1) by (auto simp: ensure_signed_def split: origin.splits)
  then show thesis using that [of who w1] *(2) pay_kept [OF pay] w' by blast
qed

lemma give_away_tickets_Inr:
  assumes "give_away_tickets c o' i v w = Inr w'"
  obtains as where "give_tickets c i as w = Inr w'"
  using assms by (auto simp: give_away_tickets_def result_simps)

lemma go_bet_for_sheets: "go_bet_for c who k i v w = Inr w' \<Longrightarrow> same_sheets w w'"
  by (auto simp: go_bet_for_def Let_def result_simps dest!: pay_kept) (simp add: same_sheets_def)

text \<open>The calls on bets leave the sheets, those on sheets the bets.\<close>

lemma bet_calls_sheets:
  "go_bet c o' k i v w = Inr w' \<Longrightarrow> same_sheets w w'"
  "go_bet_with_invite c o' k i v code w = Inr w' \<Longrightarrow> same_sheets w w'"
  "betting_claim c o' k w = Inr w' \<Longrightarrow> same_sheets w w'"
  by (auto elim!: go_bet_Inr go_bet_with_invite_Inr betting_claim_Inr dest!: go_bet_for_sheets
      simp: same_sheets_def)

lemma pledge_calls_sheets:
  "append_betting_pledge c o' k v w = Inr w' \<Longrightarrow> same_sheets w w'"
  "drop_betting c o' k w = Inr w' \<Longrightarrow> same_sheets w w'"
  "update_odds c o' k ps w = Inr w' \<Longrightarrow> same_sheets w w'"
  by (auto simp: append_betting_pledge_def drop_betting_def update_odds_def Let_def result_simps
      dest!: pay_kept) (simp_all add: same_sheets_def)

lemma create_betting_sheets: "create_betting c o' ty bs ps i v w = Inr w' \<Longrightarrow> same_sheets w w'"
  unfolding create_betting_def Let_def result_simps
  by (elim exE conjE) (drule pay_kept, auto simp: same_sheets_def)

lemma sheet_calls_bets:
  "give_away_tickets c o' i code w = Inr w' \<Longrightarrow> same_bets w w'"
  "transfer_ticket c o' i n a w = Inr w' \<Longrightarrow> same_bets w w'"
  "buy_ticket c o' n code w = Inr w' \<Longrightarrow> same_bets w w'"
  "initial_vote c o' i n xs w = Inr w' \<Longrightarrow> same_bets w w'"
  "append_vote c o' i k ty n xs w = Inr w' \<Longrightarrow> same_bets w w'"
  "tournament_claim c o' i w = Inr w' \<Longrightarrow> same_bets w w'"
       apply (erule give_away_tickets_Inr, erule give_tickets_bets)
      apply (erule transfer_ticket_Inr, assumption)
     apply (erule buy_ticket_Inr, simp)
    apply (erule initial_vote_Inr, blast intro: same_bets_trans)
   apply (erule append_vote_Inr, assumption)
  apply (erule tournament_claim_Inr, simp add: same_bets_def)
  done

lemmas call_kept = record_calls_kept money_calls_kept settle_calls_kept bet_calls_sheets pledge_calls_sheets
  create_betting_sheets sheet_calls_bets

lemma call_bettings_ok:
  assumes "run_tournament_call c call o' w = Inr w'" and "bettings_ok w"
  shows "bettings_ok w'"
  using assms
  by (cases call) (auto dest!: call_kept(1-16) sheet_calls_bets intro: bettings_ok_same
      dest: bet_calls_ok create_betting_ok pledge_ok [OF disjI1] pledge_ok [OF disjI2] update_odds_ok)

lemma transfer_ticket_ok: "transfer_ticket c o' i n a w = Inr w' \<Longrightarrow> tickets_ok w \<Longrightarrow> tickets_ok w'"
proof (erule transfer_ticket_Inr)
  fix who w1
  assume ok: "tickets_ok w" and same: "same_sheets w1 w'"
    and w1: "w1 = add_tickets i a n (w\<lparr>tickets := (tickets w)((i, who) :=
      (fst (tickets w (i, who)) - n, snd (tickets w (i, who)) - n))\<rparr>)"
  have "tickets_ok w1"
    unfolding w1 by (intro tickets_ok_add tickets_okI) (use ok in \<open>auto simp: sheet_tickets_def dest: tickets_okD\<close>)
  with same show "tickets_ok w'" by (rule tickets_ok_same)
qed

lemma initial_vote_ok_tickets: "initial_vote c o' i n xs w = Inr w' \<Longrightarrow> tickets_ok w \<Longrightarrow> tickets_ok w'"
  by (erule initial_vote_Inr, intro tickets_okI) (auto simp: sheet_tickets_def dest: tickets_okD)

lemma append_vote_tickets: "append_vote c o' i k ty n xs w = Inr w' \<Longrightarrow> tickets_ok w \<Longrightarrow> tickets_ok w'"
  by (erule append_vote_Inr, intro tickets_okI)
    (auto simp: sheet_tickets_def sum_list_update dest: tickets_okD)

lemma buy_ticket_ok: "buy_ticket c o' n code w = Inr w' \<Longrightarrow> tickets_ok w \<Longrightarrow> tickets_ok w'"
proof (erule buy_ticket_Inr)
  fix who x w3
  assume "tickets_ok w" and "same_sheets w w3" and w': "w' = put_season (default_season w)
    (x\<lparr>ssn_total_tickets := ssn_total_tickets x + n\<rparr>) (add_tickets (default_season w) who n w3)"
  then have "tickets_ok (add_tickets (default_season w) who n w3)" by (blast intro: tickets_ok_add tickets_ok_same)
  then show "tickets_ok w'" unfolding w' by (rule tickets_ok_same [rotated]) simp
qed

lemma tournament_claim_ok: "tournament_claim c o' i w = Inr w' \<Longrightarrow> tickets_ok w \<Longrightarrow> tickets_ok w'"
  by (erule tournament_claim_Inr, intro tickets_okI) (auto simp: sheet_tickets_def same_sheets_def dest: tickets_okD)

lemma call_tickets_ok:
  assumes "run_tournament_call c call o' w = Inr w'" and "tickets_ok w"
  shows "tickets_ok w'"
  using assms
  by (cases call) (auto dest!: call_kept(1-16) bet_calls_sheets pledge_calls_sheets create_betting_sheets
      intro: tickets_ok_same transfer_ticket_ok initial_vote_ok_tickets append_vote_tickets
        give_tickets_ok buy_ticket_ok tournament_claim_ok elim!: give_away_tickets_Inr)

section \<open>Claims\<close>

text \<open>What has been claimed stays claimed.\<close>

definition claims_kept :: "('n, 'z) tournament_state_scheme \<Rightarrow> ('n, 'z) tournament_state_scheme \<Rightarrow> bool" where
  "claims_kept w w' \<longleftrightarrow> (\<forall>k. snd (betting_records w k) \<longrightarrow> snd (betting_records w' k))
    \<and> (\<forall>k. snd (vote_select_infos w k) \<longrightarrow> snd (vote_select_infos w' k))"

lemma claims_kept_refl [simp]: "claims_kept w w"
  by (simp add: claims_kept_def)

lemma claims_kept_trans: "claims_kept w w' \<Longrightarrow> claims_kept w' w'' \<Longrightarrow> claims_kept w w''"
  by (simp add: claims_kept_def)

lemma claims_kept_same: "same_bets w w' \<and> same_sheets w w' \<Longrightarrow> claims_kept w w'"
  by (simp add: claims_kept_def same_bets_def same_sheets_def)

definition records_kept :: "('n, 'z) tournament_state_scheme \<Rightarrow> ('n, 'z) tournament_state_scheme \<Rightarrow> bool" where
  "records_kept w w' \<longleftrightarrow> (\<forall>k. snd (betting_records w k) \<longrightarrow> snd (betting_records w' k))"

definition infos_kept :: "('n, 'z) tournament_state_scheme \<Rightarrow> ('n, 'z) tournament_state_scheme \<Rightarrow> bool" where
  "infos_kept w w' \<longleftrightarrow> (\<forall>k. snd (vote_select_infos w k) \<longrightarrow> snd (vote_select_infos w' k))"

lemma kept_same: "same_bets w w' \<Longrightarrow> records_kept w w'" "same_sheets w w' \<Longrightarrow> infos_kept w w'"
  by (simp_all add: records_kept_def same_bets_def infos_kept_def same_sheets_def)

lemma go_bet_for_records: "go_bet_for c who k i v w = Inr w' \<Longrightarrow> records_kept w w'"
  by (auto simp: go_bet_for_def Let_def result_simps dest!: pay_kept) (simp add: same_bets_def records_kept_def)

lemma bet_calls_records:
  "go_bet c o' k i v w = Inr w' \<Longrightarrow> records_kept w w'"
  "go_bet_with_invite c o' k i v code w = Inr w' \<Longrightarrow> records_kept w w'"
  "betting_claim c o' k w = Inr w' \<Longrightarrow> records_kept w w'"
  by (auto elim!: go_bet_Inr go_bet_with_invite_Inr betting_claim_Inr dest!: go_bet_for_records
      simp: same_bets_def records_kept_def)

lemma pledge_calls_records:
  "append_betting_pledge c o' k v w = Inr w' \<Longrightarrow> records_kept w w'"
  "drop_betting c o' k w = Inr w' \<Longrightarrow> records_kept w w'"
  "update_odds c o' k ps w = Inr w' \<Longrightarrow> records_kept w w'"
  by (auto simp: append_betting_pledge_def drop_betting_def update_odds_def Let_def result_simps
      dest!: pay_kept) (simp_all add: same_bets_def records_kept_def)

lemma create_betting_records: "create_betting c o' ty bs ps i v w = Inr w' \<Longrightarrow> records_kept w w'"
  unfolding create_betting_def Let_def result_simps
  by (elim exE conjE) (drule pay_kept, auto simp: same_bets_def records_kept_def)

lemma give_tickets_infos: "give_tickets c i as w = Inr w' \<Longrightarrow> infos_kept w w'"
  by (induction as arbitrary: w) (auto simp: result_simps infos_kept_def)

lemma sheet_calls_infos:
  "give_away_tickets c o' i code w = Inr w' \<Longrightarrow> infos_kept w w'"
  "transfer_ticket c o' i n a w = Inr w' \<Longrightarrow> infos_kept w w'"
  "buy_ticket c o' n code w = Inr w' \<Longrightarrow> infos_kept w w'"
  "initial_vote c o' i n xs w = Inr w' \<Longrightarrow> infos_kept w w'"
  "append_vote c o' i k ty n xs w = Inr w' \<Longrightarrow> infos_kept w w'"
  "tournament_claim c o' i w = Inr w' \<Longrightarrow> infos_kept w w'"
       apply (erule give_away_tickets_Inr, erule give_tickets_infos)
      apply (erule transfer_ticket_Inr, simp add: infos_kept_def same_sheets_def)
     apply (erule buy_ticket_Inr, simp add: infos_kept_def same_sheets_def)
    apply (erule initial_vote_Inr, simp add: infos_kept_def)
   apply (erule append_vote_Inr, auto simp: infos_kept_def) [1]
  apply (erule tournament_claim_Inr, simp add: infos_kept_def same_sheets_def)
  done

lemma call_claims:
  assumes "run_tournament_call c call o' w = Inr w'"
  shows "claims_kept w w'"
proof -
  have "records_kept w w' \<and> infos_kept w w'"
    using assms
    by (cases call) (auto dest!: call_kept(1-16) intro: kept_same bet_calls_records pledge_calls_records
        create_betting_records sheet_calls_infos bet_calls_sheets pledge_calls_sheets create_betting_sheets
        sheet_calls_bets)
  then show ?thesis by (simp add: claims_kept_def records_kept_def infos_kept_def)
qed

lemma step_claims: "tournament_step c w w' \<Longrightarrow> claims_kept w w'"
proof (induction rule: tournament_step.induct)
  case (ts_call call o' w w')
  then show ?case by (rule call_claims)
next
  case (ts_other w w')
  then show ?case by (intro claims_kept_same) (simp add: upper_tournament)
next
  case (ts_time w t)
  show ?case by (intro claims_kept_same) (simp add: same_bets_def same_sheets_def)
qed

lemma run_claims: "(tournament_step c)\<^sup>*\<^sup>* w w' \<Longrightarrow> claims_kept w w'"
  by (induction rule: rtranclp_induct) (auto intro: claims_kept_trans step_claims)

section \<open>The invariants along all steps\<close>

lemma step_ok:
  assumes "tournament_step c w w'"
  shows "bettings_ok w \<Longrightarrow> bettings_ok w'" and "tickets_ok w \<Longrightarrow> tickets_ok w'"
proof -
  have "(bettings_ok w \<longrightarrow> bettings_ok w') \<and> (tickets_ok w \<longrightarrow> tickets_ok w')"
    using assms
  proof (induction rule: tournament_step.induct)
    case (ts_call call o' w w')
    then show ?case using call_bettings_ok call_tickets_ok by blast
  next
    case (ts_other w w')
    then show ?case using upper_tournament(1,2) bettings_ok_same tickets_ok_same by blast
  next
    case (ts_time w t)
    have "same_bets w (w\<lparr>moment := t\<rparr>)" "same_sheets w (w\<lparr>moment := t\<rparr>)"
      by (simp_all add: same_bets_def same_sheets_def)
    then show ?case using bettings_ok_same tickets_ok_same by blast
  qed
  then show "bettings_ok w \<Longrightarrow> bettings_ok w'" and "tickets_ok w \<Longrightarrow> tickets_ok w'" by blast+
qed

interpretation bets: invariant_system tournament_genesis "tournament_step c" bettings_ok for c
proof unfold_locales
  fix w :: "'a tournament_state"
  assume "tournament_genesis w"
  then show "bettings_ok w" by (simp add: bettings_ok_def tournament_genesis_def)
qed (rule step_ok(1))

interpretation sheets: invariant_system tournament_genesis "tournament_step c" tickets_ok for c
proof unfold_locales
  fix w :: "'a tournament_state"
  assume "tournament_genesis w"
  then show "tickets_ok w" by (simp add: tickets_ok_def tournament_genesis_def sheet_tickets_def)
qed (rule step_ok(2))

end
