(* ===== verification/Tournament_Correct.thy ===== *)
theory Tournament_Correct
  imports Tournament_Invariants Market_Correct
begin

text \<open>
  The bets and the tickets of the tournament: every bet on the books is well formed and has one outcome
  that hits; the tickets an account bought are unspent or on one of its sheets; a claim is paid once; what
  a ticket costs and who gets it; the bonuses of a season fit its treasury; and the withdrawal of the rest
  of a pledge, which can be repeated.
\<close>

section \<open>The demonstration season\<close>

text \<open>
  Token 1 is AWT. Season 1 has one battle between the characters 1 and 2. The organizer's account 905
  creates the bets, whose pledges lie on the accounts from 800 on.
\<close>

definition demo_tn :: "ref_native tournament_config" where
  "demo_tn =
    \<lparr>tn_token = ref_token_config,
     tn_bridge = \<lparr>br_admin_origin = (\<lambda>o'. o' = RootOrigin), br_chain_id = 42, br_proposal_lifetime = 10,
       br_native_resource_id = [], br_account = 900, br_treasury = 903\<rparr>,
     tn_organizer_origin = (\<lambda>o'. o' = RootOrigin), tn_awt = 1, tn_max_tickets = 200, tn_min_betting = 10,
     tn_donor = 907, tn_donation = 1, tn_max_participants = 100, tn_bvb_treasury = 906, tn_bvb_organizer = 905,
     tn_swap_pool = 908, tn_arithmetic = ref_arithmetic,
     tn_parse_time = (\<lambda>bs. case bs of [d] \<Rightarrow> Some (ucast d) | _ \<Rightarrow> None),
     tn_base64 = (\<lambda>bs. Some bs), tn_decode_account = (\<lambda>bs. case bs of [d] \<Rightarrow> Some (unat d) | _ \<Rightarrow> None),
     tn_decode_list = (\<lambda>bs. Some (List.map (\<lambda>d. [d]) bs)),
     tn_season_treasury = (\<lambda>i. 700 + unat i), tn_betting_treasury = (\<lambda>i. 800 + unat i)\<rparr>"

definition demo_tn_start :: "ref_native tournament_state" where
  "demo_tn_start =
    oracle_state.extend (market_state.extend
      (ref_market_state
        \<lparr>tokens := [1 \<mapsto> BEP20 [65, 87, 84] [65, 87, 84] 30000000000000000000 False 18],
         token_balances := [(1, 5) \<mapsto> \<lparr>acc_free = 10000000000000000000, acc_reserved = 0\<rparr>,
           (1, 905) \<mapsto> \<lparr>acc_free = 20000000000000000000, acc_reserved = 0\<rparr>]\<rparr>)
      \<lparr>prices = (\<lambda>_. no_price)\<rparr>)
    \<lparr>moment = 1000, next_season_id = 1, next_npc_id = 1, next_battle_id = 1, next_betting_id = 1, default_season = 1,
     npcs = (\<lambda>_. None), betting_invite_amount = (\<lambda>_. 0), betting_by_battle = (\<lambda>_. []),
     battles = (\<lambda>_. None), bettings = (\<lambda>_. None), betting_records = (\<lambda>_. ([], False)),
     season_winners = (\<lambda>_. []), seasons = (\<lambda>_. None), participant_points = [], npc_points = (\<lambda>_. (0, 0, 0, 0)),
     tickets = (\<lambda>_. (0, 0)), invite_code = (\<lambda>_. ([], 0, 0)), invite_records = (\<lambda>_. False),
     vote_select_infos = (\<lambda>_. ([], False)), votes_for_calc = (\<lambda>_. []), tournament_events = []\<rparr>"

fun run_tournament ::
  "'n tournament_config \<Rightarrow> (tournament_call \<times> origin) list \<Rightarrow> 'n tournament_state \<Rightarrow> 'n tournament_state result" where
  "run_tournament c [] w = Inr w"
| "run_tournament c ((call, o') # cs) w = and_then (run_tournament_call c call o' w) (run_tournament c cs)"

lemma run_tournament_reachable:
  assumes "run_tournament c cs w = Inr w'" and "tournament_reachable c w"
  shows "tournament_reachable c w'"
  using assms
proof (induction cs arbitrary: w)
  case (Cons x cs)
  obtain call o' where x: "x = (call, o')" by (cases x)
  obtain w1 where "run_tournament_call c call o' w = Inr w1" and run: "run_tournament c cs w1 = Inr w'"
    using Cons.prems(1) by (auto simp: x and_then_Inr)
  then have "tournament_reachable c w1" using Cons.prems(2) by (blast intro: reachable_step ts_call)
  with run show ?case by (rule Cons.IH)
qed simp

lemma demo_tn_start_reachable: "tournament_reachable c demo_tn_start"
  by (rule reachable_init)
    (simp add: tournament_genesis_def demo_tn_start_def oracle_state.extend_def)

definition demo_season :: "(tournament_call \<times> origin) list" where
  "demo_season =
    [(CreateNpc [1] [] [] [], RootOrigin), (CreateNpc [2] [] [] [], RootOrigin),
     (CreateSeason [83] [50] Finals 1000000000000000001, RootOrigin),
     (CreateBattle 1 Finals 1 2 [60] 0, RootOrigin),
     (CreateBetting BettingWinLose [1] [] 1 1000, RootOrigin)]"

text \<open>The battle ends three to one.\<close>

definition demo_result :: "(tournament_call \<times> origin) list" where
  "demo_result = [(SetResult 1 3 1 [], RootOrigin), (FinalsSettle 1, RootOrigin)]"

section \<open>Bets\<close>

text \<open>
  C22. Every bet on the books, in every reachable state and whatever else happens, passed the checks:
  one battle; for a bet on the score the six possible scores, for a bet on the winner the two
  possible winners, each once; and all odds above one.
\<close>

theorem bettings_checked:
  assumes "tournament_reachable c w" and "bettings w k = Some b"
  shows "betting_check b"
  using bets.inv_reachable [OF assms(1)] assms(2) by (rule bettings_okD)

lemma demo_result_run:
  "case run_tournament demo_tn (demo_season @ demo_result) demo_tn_start of Inl e \<Rightarrow> False
   | Inr w \<Rightarrow> case bettings w 1 of None \<Rightarrow> False
     | Some b \<Rightarrow> bet_battles b = [1] \<and> length (bet_odds b) = 2
       \<and> (case calc_betting_hit_index b w of Inl e \<Rightarrow> False | Inr n \<Rightarrow> n = 0)
       \<and> (case battles w 1 of None \<Rightarrow> False
          | Some bt \<Rightarrow> btl_status bt = BattleFinalized \<and> btl_home_score bt = Some 3 \<and> btl_visiting_score bt = Some 1)"
  by code_simp

lemma demo_result_state:
  obtains w b bt where "tournament_reachable demo_tn w" and "bettings w 1 = Some b" and "bet_battles b = [1]"
    and "calc_betting_hit_index b w = Inr 0" and "length (bet_odds b) = 2"
    and "battles w 1 = Some bt" and "btl_status bt = BattleFinalized"
    and "btl_home_score bt = Some 3" and "btl_visiting_score bt = Some 1"
proof -
  obtain w where run: "run_tournament demo_tn (demo_season @ demo_result) demo_tn_start = Inr w"
    using demo_result_run by (auto split: sum.splits)
  have "tournament_reachable demo_tn w" by (rule run_tournament_reachable [OF run demo_tn_start_reachable])
  then show thesis using demo_result_run run that by (auto split: option.splits sum.splits)
qed

theorem bettings_checked_witness:
  "\<exists>w b. tournament_reachable demo_tn w \<and> bettings w 1 = Some b \<and> betting_check b"
  by (rule demo_result_state) (use bettings_checked in blast)

section \<open>The outcome of a bet\<close>

definition outcome_hits :: "betting_type \<Rightarrow> score \<Rightarrow> score \<Rightarrow> odds_item \<Rightarrow> bool" where
  "outcome_hits ty h v x = (case ty of
     BettingScore \<Rightarrow> od_score x = [(h, v)]
   | BettingWinLose \<Rightarrow> od_win_lose x = [if v < h then 1 else 2])"

lemma first_hit_cases:
  assumes "\<forall>x\<in>set os. hit x = Inr (P x)"
  shows "case first_hit hit i os of
      Inr n \<Rightarrow> \<exists>j<length os. n = word_of_nat (i + j) \<and> P (os ! j)
    | Inl e \<Rightarrow> e = terr BettingError \<and> (\<forall>x\<in>set os. \<not> P x)"
  using assms
proof (induction os arbitrary: i)
  case (Cons x os)
  show ?case
  proof (cases "P x")
    case False
    then have "first_hit hit i (x # os) = first_hit hit (i + 1) os" using Cons.prems by simp
    then show ?thesis
      using Cons.IH [of "i + 1"] Cons.prems False by (fastforce split: sum.splits)
  qed (use Cons.prems in auto)
qed simp

text \<open>A list of as many distinct entries as there are possible ones holds each exactly once.\<close>

lemma all_listed:
  assumes "distinct xs" and "set xs \<subseteq> S" and "finite S" and "card S = length xs"
  shows "set xs = S"
  using assms by (metis card_subset_eq distinct_card)

lemma legal_scores: "{x. legal_score x} = {(3, 0), (3, 1), (3, 2), (0, 3), (1, 3), (2, 3)}"
proof -
  have below: "x < 3 \<longleftrightarrow> x = 0 \<or> x = 1 \<or> x = (2 :: score)" for x
    by (simp add: word_less_nat_alt word_unat_eq_iff) arith
  have "legal_score (h, v) \<longleftrightarrow> h = 3 \<and> v < 3 \<or> v = 3 \<and> h < 3" for h v
    by (auto simp: legal_score_def not_less order.order_iff_strict)
  then show ?thesis by (auto simp: below)
qed

lemma single: "length xs = Suc 0 \<Longrightarrow> \<exists>x. xs = [x]"
  by (cases xs) auto

lemma outcomes_listed:
  assumes "betting_check b"
  shows "bet_type b = BettingScore \<Longrightarrow> set (List.map od_score (bet_odds b)) = (\<lambda>x. [x]) ` {x. legal_score x}"
    and "bet_type b = BettingWinLose \<Longrightarrow> set (List.map od_win_lose (bet_odds b)) = {[1], [2]}"
    and "distinct (List.map od_score (bet_odds b)) \<or> bet_type b = BettingWinLose"
    and "distinct (List.map od_win_lose (bet_odds b)) \<or> bet_type b = BettingScore"
    and "length (bet_odds b) \<le> 6"
proof -
  have card: "card ((\<lambda>x. [x]) ` {x. legal_score x}) = 6"
    by (subst card_image) (simp_all add: legal_scores inj_on_def)
  show "set (List.map od_score (bet_odds b)) = (\<lambda>x. [x]) ` {x. legal_score x}" if ty: "bet_type b = BettingScore"
  proof (rule all_listed)
    show "set (List.map od_score (bet_odds b)) \<subseteq> (\<lambda>x. [x]) ` {x. legal_score x}"
      using assms ty by (auto simp: betting_check_def odds_check_def list_all_iff dest!: single)
        (force dest!: single)
  qed (use assms ty card in \<open>simp_all add: betting_check_def legal_scores\<close>)
  show "set (List.map od_win_lose (bet_odds b)) = {[1], [2]}" if ty: "bet_type b = BettingWinLose"
  proof (rule all_listed)
    show "set (List.map od_win_lose (bet_odds b)) \<subseteq> {[1], [2]}"
      using assms ty by (auto simp: betting_check_def odds_check_def list_all_iff dest!: single)
        (force dest!: single)
  qed (use assms ty in \<open>simp_all add: betting_check_def\<close>)
qed (use assms in \<open>cases "bet_type b"; auto simp: betting_check_def\<close>)+

lemma nth_unique:
  assumes "distinct (List.map f xs)" and "i < length xs" and "f (xs ! i) = y"
  shows "\<forall>j<length xs. f (xs ! j) = y \<longleftrightarrow> j = i"
  using assms by (metis length_map nth_eq_iff_index_eq nth_map)

lemma hit_unique:
  assumes "betting_check b" and "i < length (bet_odds b)" and "outcome_hits (bet_type b) h v (bet_odds b ! i)"
  shows "\<forall>j<length (bet_odds b). outcome_hits (bet_type b) h v (bet_odds b ! j) \<longleftrightarrow> j = i"
proof (cases "bet_type b")
  case BettingScore
  then have "distinct (List.map od_score (bet_odds b))" using outcomes_listed(3) [OF assms(1)] by simp
  from nth_unique [OF this assms(2)] show ?thesis using assms(3) by (simp add: outcome_hits_def BettingScore)
next
  case BettingWinLose
  then have "distinct (List.map od_win_lose (bet_odds b))" using outcomes_listed(4) [OF assms(1)] by simp
  from nth_unique [OF this assms(2)] show ?thesis using assms(3) by (simp add: outcome_hits_def BettingWinLose)
qed

lemma hit_exists:
  assumes "betting_check b" and "\<forall>x\<in>set (bet_odds b). \<not> outcome_hits (bet_type b) h v x"
  shows "bet_type b = BettingScore \<and> \<not> legal_score (h, v)"
proof (cases "bet_type b")
  case BettingScore
  have "[(h, v)] \<notin> set (List.map od_score (bet_odds b))"
    using assms(2) by (auto simp: outcome_hits_def BettingScore)
  then show ?thesis using outcomes_listed(1) [OF assms(1) BettingScore] BettingScore by auto
next
  case BettingWinLose
  have "[if v < h then 1 else 2] \<notin> set (List.map od_win_lose (bet_odds b))"
    using assms(2) by (auto simp: outcome_hits_def BettingWinLose)
  then show ?thesis using outcomes_listed(2) [OF assms(1) BettingWinLose] by (auto split: if_splits)
qed

lemma calc_hit:
  assumes "betting_check b" and "bet_battles b = [i]" and "battles w i = Some bt"
    and "btl_status bt = BattleFinalized" and "btl_home_score bt = Some h" and "btl_visiting_score bt = Some v"
  shows "case calc_betting_hit_index b w of
      Inr n \<Rightarrow> \<exists>j<length (bet_odds b). n = word_of_nat j \<and> outcome_hits (bet_type b) h v (bet_odds b ! j)
    | Inl e \<Rightarrow> e = terr BettingError \<and> (\<forall>x\<in>set (bet_odds b). \<not> outcome_hits (bet_type b) h v x)"
proof -
  let ?hit = "case bet_type b of BettingScore \<Rightarrow> (\<lambda>x. score_hit [bt] 0 (od_score x))
    | BettingWinLose \<Rightarrow> (\<lambda>x. win_lose_hit [bt] 0 (od_win_lose x))"
  have "\<forall>x\<in>set (bet_odds b). ?hit x = Inr (outcome_hits (bet_type b) h v x)"
  proof
    fix x
    assume x: "x \<in> set (bet_odds b)"
    show "?hit x = Inr (outcome_hits (bet_type b) h v x)"
    proof (cases "bet_type b")
      case BettingScore
      have "od_score x \<in> set (List.map od_score (bet_odds b))" using x by simp
      then obtain p q where "od_score x = [(p, q)]"
        unfolding outcomes_listed(1) [OF assms(1) BettingScore] by auto
      then show ?thesis
        using assms(5,6) by (auto simp: BettingScore outcome_hits_def index_def unwrap_def ok_or_def)
    next
      case BettingWinLose
      have "od_win_lose x \<in> set (List.map od_win_lose (bet_odds b))" using x by simp
      then obtain p where "od_win_lose x = [p]"
        unfolding outcomes_listed(2) [OF assms(1) BettingWinLose] by auto
      then show ?thesis
        using assms(5,6) by (auto simp: BettingWinLose outcome_hits_def index_def)
    qed
  qed
  from first_hit_cases [OF this, of 0] show ?thesis
    using assms(2-4) by (simp add: calc_betting_hit_index_def get_battle_def split: sum.splits)
qed

text \<open>
  C21. A bet on a finalized battle pays one outcome. For every bet on the books whose battle is finalized
  with a score, the computed index is that of the outcome that names the score, or the winner, and of no
  other one. Only for a bet on the score, and only when the organizer entered a score that is not
  one of the six possible ones, there is none, and the call fails with \<open>BettingError\<close>.
\<close>

theorem outcome_exact:
  assumes "tournament_reachable c w" and "bettings w k = Some b" and "bet_battles b = [i]"
    and "battles w i = Some bt" and "btl_status bt = BattleFinalized"
    and "btl_home_score bt = Some h" and "btl_visiting_score bt = Some v"
  shows "case calc_betting_hit_index b w of
      Inr n \<Rightarrow> unat n < length (bet_odds b)
        \<and> (\<forall>j<length (bet_odds b). outcome_hits (bet_type b) h v (bet_odds b ! j) \<longleftrightarrow> j = unat n)
    | Inl e \<Rightarrow> e = terr BettingError \<and> bet_type b = BettingScore \<and> \<not> legal_score (h, v)"
proof -
  have ok: "betting_check b" using bets.inv_reachable [OF assms(1)] assms(2) by (rule bettings_okD)
  note calc = calc_hit [OF ok assms(3-7)]
  show ?thesis
  proof (cases "calc_betting_hit_index b w")
    case (Inl e)
    then show ?thesis using calc hit_exists [OF ok, of h v] by simp
  next
    case (Inr n)
    then obtain j where j: "j < length (bet_odds b)" "n = word_of_nat j"
        "outcome_hits (bet_type b) h v (bet_odds b ! j)"
      using calc by auto
    moreover have "unat n = j" using j(1,2) outcomes_listed(5) [OF ok] by (simp add: unat_of_nat)
    ultimately show ?thesis using Inr hit_unique [OF ok j(1,3)] by simp
  qed
qed

theorem outcome_exact_witness:
  "\<exists>w b. tournament_reachable demo_tn w \<and> bettings w 1 = Some b
    \<and> outcome_hits (bet_type b) 3 1 (bet_odds b ! 0) \<and> \<not> outcome_hits (bet_type b) 3 1 (bet_odds b ! 1)"
proof (rule demo_result_state)
  fix w b bt
  assume w: "tournament_reachable demo_tn w" "bettings w 1 = Some b" "bet_battles b = [1]"
    "battles w 1 = Some bt" "btl_status bt = BattleFinalized"
    "btl_home_score bt = Some 3" "btl_visiting_score bt = Some 1"
    and hit: "calc_betting_hit_index b w = Inr 0" "length (bet_odds b) = 2"
  from outcome_exact [OF w] show ?thesis using w(1,2) hit by auto
qed

section \<open>Claims\<close>

text \<open>
  C20. A claim is paid once. After an account has claimed on a bet, no later claim of it on that bet goes
  through, whatever happened in between, and the same holds for its claim of the bonus of a season.
\<close>

theorem claims_paid_once:
  assumes "(tournament_step c)\<^sup>*\<^sup>* w' v"
  shows "(betting_claim c (SignedOrigin who) k w = Inr w'
      \<longrightarrow> betting_claim c (SignedOrigin who) k v = Inl (terr HaveNoBonus))
    \<and> (tournament_claim c (SignedOrigin who) i w = Inr w'
      \<longrightarrow> tournament_claim c (SignedOrigin who) i v
        \<in> {Inl (terr SeasonNotFound), Inl (terr SeasonStatusError), Inl (terr HaveNoBonus)})"
proof (intro conjI impI)
  assume "betting_claim c (SignedOrigin who) k w = Inr w'"
  then have "snd (betting_records w' (who, k))" by (auto elim: betting_claim_Inr)
  then have "snd (betting_records v (who, k))" using run_claims [OF assms] by (simp add: claims_kept_def)
  then show "betting_claim c (SignedOrigin who) k v = Inl (terr HaveNoBonus)"
    by (simp add: betting_claim_def ensure_signed_def ensure_def Let_def case_prod_unfold)
next
  assume "tournament_claim c (SignedOrigin who) i w = Inr w'"
  then have "snd (vote_select_infos w' (who, i))" by (auto elim: tournament_claim_Inr)
  then have "snd (vote_select_infos v (who, i))" using run_claims [OF assms] by (simp add: claims_kept_def)
  then show "tournament_claim c (SignedOrigin who) i v
      \<in> {Inl (terr SeasonNotFound), Inl (terr SeasonStatusError), Inl (terr HaveNoBonus)}"
    by (auto simp: tournament_claim_def ensure_signed_def ensure_def Let_def and_then_def get_season_def ok_or_def
        split: option.splits)
qed

text \<open>The season is over: account 5 bet 100 on the winner, and has a sheet with two tickets on him.\<close>

definition demo_over :: "ref_native tournament_state" where
  "demo_over = demo_tn_start
    \<lparr>token_balances := [(1, 701) \<mapsto> \<lparr>acc_free = 800, acc_reserved = 0\<rparr>, (1, 801) \<mapsto> \<lparr>acc_free = 1000, acc_reserved = 0\<rparr>],
     battles := [1 \<mapsto> \<lparr>btl_season = 1, btl_season_name = [83], btl_home = 1, btl_type = Finals, btl_visiting = 2,
       btl_status = BattleFinalized, btl_start_time = 60, btl_position = 0, btl_home_score = Some 3,
       btl_visiting_score = Some 1, btl_video_url = []\<rparr>],
     bettings := [1 \<mapsto> \<lparr>bet_creator = 905, bet_pledge_account = 801, bet_total_pledge = 800, bet_type = BettingWinLose,
       bet_battles = [1],
       bet_odds = [\<lparr>od_win_lose = [1], od_score = [], od_o = 200, od_total_compensate_amount = 200, od_buy_in = 100,
                     od_accounts = 1\<rparr>,
                   \<lparr>od_win_lose = [2], od_score = [], od_o = 200, od_total_compensate_amount = 0, od_buy_in = 0,
                     od_accounts = 0\<rparr>],
       bet_token_id = 1, bet_min_amount = 10, bet_season = 1\<rparr>],
     betting_records := (\<lambda>_. ([], False))((5, 1) := ([(0, 200, 100)], False)),
     season_winners := (\<lambda>_. [])(1 := [(1, 1)]),
     seasons := [1 \<mapsto> \<lparr>ssn_id = 1, ssn_name = [83], ssn_status = SeasonFinalized, ssn_treasury = 701, ssn_start_time = 50,
       ssn_total_battles = 1, ssn_bonus_strategy = [(1, 2, 700), (0, 0, 100)], ssn_ticket_price = 20,
       ssn_first_finals = Finals, ssn_current_finals = Finals, ssn_champion = Some 1, ssn_total_tickets = 2\<rparr>],
     tickets := (\<lambda>_. (0, 0))((1, 5) := (2, 0)),
     vote_select_infos := (\<lambda>_. ([], False))
       ((5, 1) := ([\<lparr>vs_ticket_amount = 2, vs_selects = [\<lparr>vs_battle_id = 1, vs_npc_id = 1\<rparr>]\<rparr>], False))\<rparr>"

lemma demo_over_claims:
  "case betting_claim demo_tn (SignedOrigin 5) 1 demo_over of Inl e \<Rightarrow> False
   | Inr w' \<Rightarrow> free_balance ref_token_config 1 5 w' = 200"
  "case tournament_claim demo_tn (SignedOrigin 5) 1 demo_over of Inl e \<Rightarrow> False
   | Inr w' \<Rightarrow> free_balance ref_token_config 1 5 w' = 700"
  by code_simp+

theorem claims_paid_once_witness:
  "\<exists>w'. betting_claim demo_tn (SignedOrigin 5) 1 demo_over = Inr w'
    \<and> betting_claim demo_tn (SignedOrigin 5) 1 w' = Inl (terr HaveNoBonus)"
proof -
  obtain w' where "betting_claim demo_tn (SignedOrigin 5) 1 demo_over = Inr w'"
    using demo_over_claims(1) by (auto split: sum.splits)
  then show ?thesis using claims_paid_once [OF rtranclp.rtrancl_refl, of demo_tn 5 1 demo_over w' 1] by blast
qed

section \<open>Tickets\<close>

text \<open>
  C19. No ticket is lost or used twice: in every reachable state, for every season and account, the
  tickets the account ever got and did not pass on are those it has left plus those on its sheets
  (sums of \<open>u32\<close>). A sheet that is split hands over tickets, it does not copy them.
\<close>

theorem tickets_accounted:
  assumes "tournament_reachable c w"
  shows "fst (tickets w (i, a)) = snd (tickets w (i, a))
    + sum_list (List.map vs_ticket_amount (fst (vote_select_infos w (a, i))))"
  using tickets_okD [OF sheets.inv_reachable [OF assms], of i a] by (simp add: sheet_tickets_def)

definition demo_sheets :: "(tournament_call \<times> origin) list" where
  "demo_sheets =
    [(GiveAwayTickets 1 [5, 5, 5], RootOrigin),
     (InitialVote 1 2 [\<lparr>vs_battle_id = 1, vs_npc_id = 1\<rparr>], SignedOrigin 5)]"

lemma demo_sheets_run:
  "case run_tournament demo_tn (take 4 demo_season @ demo_sheets) demo_tn_start of Inl e \<Rightarrow> False
   | Inr w \<Rightarrow> tickets w (1, 5) = (3, 1)"
  by code_simp

theorem tickets_accounted_witness:
  "\<exists>w. run_tournament demo_tn (take 4 demo_season @ demo_sheets) demo_tn_start = Inr w
    \<and> 3 = 1 + sum_list (List.map vs_ticket_amount (fst (vote_select_infos w (5, 1))))"
proof -
  obtain w where run: "run_tournament demo_tn (take 4 demo_season @ demo_sheets) demo_tn_start = Inr w"
    and t: "tickets w (1, 5) = (3, 1)"
    using demo_sheets_run by (auto split: sum.splits)
  have "tournament_reachable demo_tn w" by (rule run_tournament_reachable [OF run demo_tn_start_reachable])
  from tickets_accounted [OF this, of 1 5] show ?thesis using run t by simp
qed

lemma share_nat:
  assumes "unat m * k < 2 ^ 128" and "k < 2 ^ 128" and "n < 2 ^ 128"
  shows "unat (m * word_of_nat k div word_of_nat n :: u128) = unat m * k div n"
  using assms by (simp add: unat_div unat_mult_lem [THEN iffD1] unat_of_nat)

lemma ticket_shares:
  fixes p bonus s :: u128
  assumes "unat p * 85 < 2 ^ 128" and "bonus = p * 85 div 100" and "s = (if none then 0 else p * 5 div 100)"
  shows "unat bonus = unat p * 85 div 100" and "unat s = (if none then 0 else unat p * 5 div 100)"
    and "unat (p - bonus - s) = unat p - unat p * 85 div 100 - (if none then 0 else unat p * 5 div 100)"
    and "uint p = uint bonus + uint s + uint (p - bonus - s)"
proof -
  show b: "unat bonus = unat p * 85 div 100" using assms(1,2) share_nat [of p 85 100] by simp
  show s: "unat s = (if none then 0 else unat p * 5 div 100)" using assms(1,3) share_nat [of p 5 100] by simp
  have "unat p * 85 div 100 \<le> unat p" "unat p * 5 div 100 \<le> unat p - unat p * 85 div 100" by simp_all
  then have le: "bonus \<le> p" "unat s \<le> unat p - unat bonus" by (simp_all add: word_le_nat_alt b s)
  then have "unat (p - bonus) = unat p - unat bonus" by (simp add: unat_sub)
  moreover from this have "s \<le> p - bonus" using le by (simp add: word_le_nat_alt)
  ultimately have rest: "unat (p - bonus - s) = unat p - unat bonus - unat s" by (simp add: unat_sub)
  then show "unat (p - bonus - s) = unat p - unat p * 85 div 100 - (if none then 0 else unat p * 5 div 100)"
    by (simp only: b s)
  show "uint p = uint bonus + uint s + uint (p - bonus - s)"
    using le by (simp only: uint_nat rest word_le_nat_alt)
qed

text \<open>The share of the account the code names.\<close>

definition invitor_of :: "'n tournament_config \<Rightarrow> account \<Rightarrow> bytes \<Rightarrow> account option" where
  "invitor_of c who code = (case invite_code_to_addr c code of
     Some a \<Rightarrow> if a = who then None else Some a | None \<Rightarrow> None)"

lemma pay_invitor_balances:
  assumes "pay_invitor c who code m w = Inr (ishare, w')" and "tn_awt c \<noteq> native_id (tn_token c)"
  shows "ishare = (if invitor_of c who code = None then 0 else m * 5 div 100)"
    and "uint (free_balance (tn_token c) (tn_awt c) d w') = uint (free_balance (tn_token c) (tn_awt c) d w)
      - (if d = who then uint ishare else 0) + (if invitor_of c who code = Some d then uint ishare else 0)"
proof -
  have "ishare = (if invitor_of c who code = None then 0 else m * 5 div 100)
    \<and> uint (free_balance (tn_token c) (tn_awt c) d w') = uint (free_balance (tn_token c) (tn_awt c) d w)
      - (if d = who then uint ishare else 0) + (if invitor_of c who code = Some d then uint ishare else 0)"
  proof (cases "invitor_of c who code")
    case None
    then show ?thesis
      using assms(1) by (auto simp: pay_invitor_def invitor_of_def split: option.splits if_splits)
  next
    case (Some a)
    then have a: "invite_code_to_addr c code = Some a" "a \<noteq> who"
      by (auto simp: invitor_of_def split: option.splits if_splits)
    obtain w1 where pay: "transfer_token (tn_token c) who (tn_awt c) (m * 5 div 100) a w = Inr w1"
      and ishare: "ishare = m * 5 div 100"
      and bal: "free_balance (tn_token c) (tn_awt c) d w' = free_balance (tn_token c) (tn_awt c) d w1"
      using assms(1) a
      by (auto simp: pay_invitor_def Let_def and_then_Inr case_prod_unfold free_balance_def get_token_balance_def)
    show ?thesis using transfer_balances [OF pay assms(2), of d] Some by (auto simp: ishare bal)
  qed
  then show "ishare = (if invitor_of c who code = None then 0 else m * 5 div 100)"
    and "uint (free_balance (tn_token c) (tn_awt c) d w') = uint (free_balance (tn_token c) (tn_awt c) d w)
      - (if d = who then uint ishare else 0) + (if invitor_of c who code = Some d then uint ishare else 0)" by blast+
qed

text \<open>
  What a purchase of tickets costs. The buyer pays exactly price times number: 85 percent go to the
  treasury of the season, 5 percent to the account the invitation code names, if it names another
  one, and all the rest to the treasury of the game; the two shares are rounded down. The buyer gets the
  tickets, the season counts them, nothing else of the sheets changes; a purchase goes through only before
  the season starts and within the limit per account.
\<close>

theorem buy_ticket_exact:
  assumes "buy_ticket c (SignedOrigin who) n code w = Inr w'" and "seasons w (default_season w) = Some x"
    and "tn_awt c \<noteq> native_id (tn_token c)" and "unat (ssn_ticket_price x) * unat n * 85 < 2 ^ 128"
    and "m = unat (ssn_ticket_price x) * unat n"
  shows "(\<forall>d. uint (free_balance (tn_token c) (tn_awt c) d w') = uint (free_balance (tn_token c) (tn_awt c) d w)
        - (if d = who then int m else 0)
        + (if d = ssn_treasury x then int (m * 85 div 100) else 0)
        + (if invitor_of c who code = Some d then int (m * 5 div 100) else 0)
        + (if d = tn_bvb_treasury c
           then int (m - m * 85 div 100 - (if invitor_of c who code = None then 0 else m * 5 div 100)) else 0))
    \<and> tickets w' = (tickets w)((default_season w, who) :=
        (fst (tickets w (default_season w, who)) + n, snd (tickets w (default_season w, who)) + n))
    \<and> seasons w' (default_season w) = Some (x\<lparr>ssn_total_tickets := ssn_total_tickets x + n\<rparr>)
    \<and> vote_select_infos w' = vote_select_infos w \<and> now_seconds w < ssn_start_time x
    \<and> 0 < n \<and> fst (tickets w (default_season w, who)) + n \<le> tn_max_tickets c"
proof (rule buy_ticket_Inr [OF assms(1)])
  fix who' x' w1 w2 w3 ishare p bonus
  assume who: "SignedOrigin who = SignedOrigin who'" and x': "seasons w (default_season w) = Some x'"
    and time: "now_seconds w < ssn_start_time x'" and n: "0 < n"
    and limit: "fst (tickets w (default_season w, who')) + n \<le> tn_max_tickets c"
    and p: "p = ssn_ticket_price x' * ucast n" and bonus: "bonus = p * 85 div 100"
    and pay1: "transfer_token (tn_token c) who' (tn_awt c) bonus (ssn_treasury x') w = Inr w1"
    and pay2: "pay_invitor c who' code p w1 = Inr (ishare, w2)"
    and pay3: "transfer_token (tn_token c) who' (tn_awt c) (p - bonus - ishare) (tn_bvb_treasury c) w2 = Inr w3"
    and same: "same_sheets w w3" and w': "w' = put_season (default_season w)
      (x'\<lparr>ssn_total_tickets := ssn_total_tickets x' + n\<rparr>) (add_tickets (default_season w) who' n w3)"
  have eq: "who' = who" "x' = x" using who x' assms(2) by simp_all
  note up = unat_ucast_u32 [of n]
  have um: "unat p = m"
    using assms(4,5) by (simp add: p eq up unat_mult_lem [THEN iffD1])
  note ishare = pay_invitor_balances [OF pay2 assms(3), unfolded eq]
  have "unat p * 85 < 2 ^ 128" using assms(4,5) by (simp add: um)
  note shares = ticket_shares [OF this bonus ishare(1), unfolded um]
  have bal: "free_balance (tn_token c) (tn_awt c) d w' = free_balance (tn_token c) (tn_awt c) d w3" for d
    by (simp add: w' free_balance_def get_token_balance_def put_season_def add_tickets_def)
  have total: "int m = uint bonus + uint ishare + uint (p - bonus - ishare)"
    using shares(4) um by (metis uint_nat)
  have "uint (free_balance (tn_token c) (tn_awt c) d w') = uint (free_balance (tn_token c) (tn_awt c) d w)
        - (if d = who then int m else 0)
        + (if d = ssn_treasury x then uint bonus else 0)
        + (if invitor_of c who code = Some d then uint ishare else 0)
        + (if d = tn_bvb_treasury c then uint (p - bonus - ishare) else 0)" for d
    using transfer_balances [OF pay1 assms(3), of d] ishare(2) [of d] transfer_balances [OF pay3 assms(3), of d]
    unfolding bal eq total by (simp split: if_splits)
  moreover have "uint bonus = int (m * 85 div 100)" unfolding uint_nat shares(1) by (rule refl)
  moreover have "(if invitor_of c who code = Some d then uint ishare else 0)
      = (if invitor_of c who code = Some d then int (m * 5 div 100) else 0)" for d
    unfolding uint_nat shares(2) by simp
  moreover have "uint (p - bonus - ishare)
      = int (m - m * 85 div 100 - (if invitor_of c who code = None then 0 else m * 5 div 100))"
    unfolding uint_nat shares(3) by (rule refl)
  ultimately have "uint (free_balance (tn_token c) (tn_awt c) d w') = uint (free_balance (tn_token c) (tn_awt c) d w)
        - (if d = who then int m else 0)
        + (if d = ssn_treasury x then int (m * 85 div 100) else 0)
        + (if invitor_of c who code = Some d then int (m * 5 div 100) else 0)
        + (if d = tn_bvb_treasury c
           then int (m - m * 85 div 100 - (if invitor_of c who code = None then 0 else m * 5 div 100)) else 0)" for d
    by simp
  moreover have "tickets w' = (tickets w)((default_season w, who) :=
      (fst (tickets w (default_season w, who)) + n, snd (tickets w (default_season w, who)) + n))"
    "seasons w' (default_season w) = Some (x\<lparr>ssn_total_tickets := ssn_total_tickets x + n\<rparr>)"
    "vote_select_infos w' = vote_select_infos w"
    using same by (simp_all add: w' eq add_tickets_def put_season_def same_sheets_def)
  ultimately show ?thesis using time n limit unfolding eq by blast
qed

definition demo_shop :: "ref_native tournament_state" where
  "demo_shop = demo_tn_start
    \<lparr>seasons := [1 \<mapsto> \<lparr>ssn_id = 1, ssn_name = [83], ssn_status = SeasonInitial, ssn_treasury = 701, ssn_start_time = 50,
       ssn_total_battles = 1, ssn_bonus_strategy = [], ssn_ticket_price = 333,
       ssn_first_finals = Finals, ssn_current_finals = Finals, ssn_champion = None, ssn_total_tickets = 0\<rparr>]\<rparr>"

lemma demo_shop_run:
  "case buy_ticket demo_tn (SignedOrigin 5) 3 [6] demo_shop of Inl e \<Rightarrow> False | Inr w' \<Rightarrow> tickets w' (1, 5) = (3, 3)"
  "invitor_of demo_tn 5 [6] = Some 6"
  by code_simp+

theorem buy_ticket_exact_witness:
  "\<exists>w'. buy_ticket demo_tn (SignedOrigin 5) 3 [6] demo_shop = Inr w'
    \<and> uint (free_balance ref_token_config 1 701 w') = 849 \<and> uint (free_balance ref_token_config 1 6 w') = 49
    \<and> uint (free_balance ref_token_config 1 906 w') = 101"
proof -
  obtain w' where run: "buy_ticket demo_tn (SignedOrigin 5) 3 [6] demo_shop = Inr w'"
    using demo_shop_run(1) by (auto split: sum.splits)
  have cfg: "tn_token demo_tn = ref_token_config" "tn_awt demo_tn = 1" "tn_bvb_treasury demo_tn = 906"
    by (simp_all add: demo_tn_def)
  obtain x where x: "seasons demo_shop (default_season demo_shop) = Some x"
    and price: "ssn_ticket_price x = 333" and treasury: "ssn_treasury x = 701"
    by (auto simp: demo_shop_def demo_tn_start_def oracle_state.extend_def)
  have start: "free_balance ref_token_config 1 701 demo_shop = 0" "free_balance ref_token_config 1 6 demo_shop = 0"
    "free_balance ref_token_config 1 906 demo_shop = 0"
    by code_simp+
  have side: "tn_awt demo_tn \<noteq> native_id (tn_token demo_tn)" "unat (ssn_ticket_price x) * unat (3 :: u32) * 85 < 2 ^ 128"
    "999 = unat (ssn_ticket_price x) * unat (3 :: u32)"
    by (simp_all add: cfg price)
  note bal = buy_ticket_exact [OF run x side, THEN conjunct1, THEN spec, unfolded cfg treasury demo_shop_run(2)]
  have "uint (free_balance ref_token_config 1 701 w') = 849" using bal [of 701] by (simp add: start)
  moreover have "uint (free_balance ref_token_config 1 6 w') = 49" using bal [of 6] by (simp add: start)
  moreover have "uint (free_balance ref_token_config 1 906 w') = 101" using bal [of 906] by (simp add: start)
  ultimately show ?thesis using run by blast
qed

section \<open>The bonuses of a season\<close>

lemma sum_list_member: "x \<in> set xs \<Longrightarrow> f x \<le> sum_list (List.map f xs)" for f :: "'a \<Rightarrow> nat"
  by (induction xs) auto

lemma champion_share: "b * 7 div 8 \<le> b" for b :: u128
proof -
  have "unat (b * 7) \<le> unat b * 7" by (simp add: unat_word_ariths)
  then have "unat (b * 7) div 8 \<le> unat b" by (simp add: div_le_mono [of _ "unat b * 8" 8, simplified])
  then show ?thesis by (simp add: word_le_nat_alt unat_div)
qed

text \<open>One tier: the bonus per ticket times the tickets of a sheet, for at most as many tickets as counted.\<close>

lemma tier_bonus:
  fixes bonus per :: u128 and n all' :: u32
  assumes "per \<le> bonus div ucast all'" and "n \<le> all'"
  shows "unat (per * ucast n) \<le> unat n * (unat bonus div unat all')"
proof -
  note up = unat_ucast_u32
  have "unat (per * ucast n) \<le> unat per * unat n" by (simp add: unat_word_ariths up)
  also have "\<dots> \<le> (unat bonus div unat all') * unat n"
    using assms(1) by (intro mult_le_mono1) (simp add: word_le_nat_alt unat_div up)
  finally show ?thesis by (simp add: mult.commute)
qed

lemma sheet_bonus_two:
  assumes "ssn_bonus_strategy x = [(k1, a1, b1), (k2, a2, b2)]" and "k1 \<noteq> k2"
    and "r = k1 \<Longrightarrow> n \<le> a1" and "r = k2 \<Longrightarrow> n \<le> a2"
  shows "unat (sheet_bonus x n r (ssn_bonus_strategy x))
    \<le> (if r = k1 then unat n else 0) * (unat b1 div unat a1) + (if r = k2 then unat n else 0) * (unat b2 div unat a2)"
  using assms by (auto simp: Let_def intro!: tier_bonus)

text \<open>
  C23. The bonuses of a closed season fit its treasury. For any sheets, given by their tickets and the
  number of winners on them, whose tickets in each of the two tiers are at most those counted at the
  closing: the bonuses computed for them add up to at most the balance of the treasury at the closing.
  No product of these sums wraps.
\<close>

theorem season_bonus_solvent:
  assumes "close_season c o' i w = Inr w'" and "seasons w' i = Some x" and "seasons w i = Some x0"
    and "\<forall>(k, all', bonus) \<in> set (ssn_bonus_strategy x).
      sum_list (List.map (\<lambda>(n, r). if r = k then unat n else 0) sheets) \<le> unat all'"
  shows "sum_list (List.map (\<lambda>(n, r). unat (sheet_bonus x n r (ssn_bonus_strategy x))) sheets)
    \<le> unat (free_balance (tn_token c) (tn_awt c) (ssn_treasury x0) w)"
proof -
  let ?b = "free_balance (tn_token c) (tn_awt c) (ssn_treasury x0) w" and ?k = "ssn_total_battles x0"
  obtain a1 a2 where strategy: "ssn_bonus_strategy x = [(?k, a1, ?b * 7 div 8), (?k - 1, a2, ?b - ?b * 7 div 8)]"
    using assms(1-3) by (auto simp: close_season_def Let_def result_simps store_season_def put_season_def deposit_tournament_def)
  define t1 t2 where "t1 = (\<lambda>s :: u32 \<times> u8. if snd s = ?k then unat (fst s) else 0)"
    and "t2 = (\<lambda>s :: u32 \<times> u8. if snd s = ?k - 1 then unat (fst s) else 0)"
  have tiers: "sum_list (List.map t1 sheets) \<le> unat a1" "sum_list (List.map t2 sheets) \<le> unat a2"
    using assms(4) by (simp_all add: strategy case_prod_unfold t1_def t2_def)
  define p1 p2 where "p1 = unat (?b * 7 div 8) div unat a1" and "p2 = unat (?b - ?b * 7 div 8) div unat a2"
  have each: "unat (sheet_bonus x (fst s) (snd s) (ssn_bonus_strategy x)) \<le> t1 s * p1 + t2 s * p2"
    if "s \<in> set sheets" for s
    unfolding t1_def t2_def p1_def p2_def
  proof (rule sheet_bonus_two [OF strategy])
    show "snd s = ?k \<Longrightarrow> fst s \<le> a1"
      using le_trans [OF sum_list_member [OF that, of t1] tiers(1)] by (simp add: t1_def word_le_nat_alt)
    show "snd s = ?k - 1 \<Longrightarrow> fst s \<le> a2"
      using le_trans [OF sum_list_member [OF that, of t2] tiers(2)] by (simp add: t2_def word_le_nat_alt)
  qed simp
  have "sum_list (List.map (\<lambda>(n, r). unat (sheet_bonus x n r (ssn_bonus_strategy x))) sheets)
      \<le> sum_list (List.map (\<lambda>s. t1 s * p1 + t2 s * p2) sheets)"
    using each by (intro sum_list_mono) (simp add: case_prod_unfold)
  also have "\<dots> = sum_list (List.map t1 sheets) * p1 + sum_list (List.map t2 sheets) * p2"
    by (simp add: sum_list_addf sum_list_mult_const)
  also have "\<dots> \<le> unat a1 * p1 + unat a2 * p2" using tiers by (intro add_mono mult_le_mono1)
  also have "\<dots> \<le> unat (?b * 7 div 8) + unat (?b - ?b * 7 div 8)"
    unfolding p1_def p2_def by (intro add_mono times_div_less_eq_dividend)
  also have "\<dots> = unat ?b" using champion_share [of ?b] by (simp add: unat_sub word_le_nat_alt)
  finally show ?thesis .
qed

definition demo_close :: "ref_native tournament_state" where
  "demo_close = demo_over
    \<lparr>participant_points := [((1, 5, 0), (1, 1, 3))],
     token_balances := [(1, 701) \<mapsto> \<lparr>acc_free = 800, acc_reserved = 0\<rparr>]\<rparr>"

lemma demo_close_run:
  "case close_season demo_tn RootOrigin 1 demo_close of Inl e \<Rightarrow> False
   | Inr w' \<Rightarrow> case seasons w' 1 of None \<Rightarrow> False
     | Some x \<Rightarrow> ssn_bonus_strategy x = [(1, 2, 700), (0, 0, 100)] \<and> ssn_ticket_price x = 20"
  by code_simp

theorem season_bonus_solvent_witness:
  "\<exists>w' x. close_season demo_tn RootOrigin 1 demo_close = Inr w' \<and> seasons w' 1 = Some x
    \<and> unat (sheet_bonus x 2 1 (ssn_bonus_strategy x)) = 700
    \<and> unat (sheet_bonus x 2 1 (ssn_bonus_strategy x)) \<le> 800"
proof -
  obtain w' x where run: "close_season demo_tn RootOrigin 1 demo_close = Inr w'" and x: "seasons w' 1 = Some x"
    and strategy: "ssn_bonus_strategy x = [(1, 2, 700), (0, 0, 100)]" and price: "ssn_ticket_price x = 20"
    using demo_close_run by (auto split: sum.splits option.splits)
  obtain x0 where x0: "seasons demo_close 1 = Some x0" and treasury: "ssn_treasury x0 = 701"
    by (auto simp: demo_close_def demo_over_def)
  have bal: "free_balance (tn_token demo_tn) (tn_awt demo_tn) 701 demo_close = 800" by code_simp
  have "sum_list (List.map (\<lambda>(n, r). unat (sheet_bonus x n r (ssn_bonus_strategy x))) [(2, 1)])
      \<le> unat (free_balance (tn_token demo_tn) (tn_awt demo_tn) (ssn_treasury x0) demo_close)"
    by (rule season_bonus_solvent [OF run x x0]) (simp add: strategy)
  moreover have "unat (sheet_bonus x 2 1 (ssn_bonus_strategy x)) = 700" by (simp add: strategy price Let_def)
  ultimately show ?thesis using run x by (simp add: treasury bal)
qed

section \<open>The rest of a pledge\<close>

lemma transfer_goes:
  assumes "t \<noteq> native_id c" and "v \<noteq> 0" and "a \<noteq> b" and "v \<le> free_balance c t a w"
    and "unat (free_balance c t b w) + unat v < 2 ^ 128"
  shows "\<exists>w'. transfer_token c a t v b w = Inr w'"
proof -
  have acc: "token_balances w (t, a) = Some (get_token_balance (t, a) w)"
    using assms(1,2,4) by (cases "token_balances w (t, a)")
      (auto simp: free_balance_def get_token_balance_def no_account_def)
  show ?thesis
    using assms acc
    by (simp add: transfer_token_def free_balance_def checked_sub_def checked_add_def Let_def)
qed

lemma calc_hit_battles:
  assumes "battles w' = battles w"
  shows "calc_betting_hit_index b w' = calc_betting_hit_index b w"
proof -
  have "finalized_battles is w' = finalized_battles is w" for "is"
    by (induction "is") (simp_all add: get_battle_def assms)
  then show ?thesis by (simp add: calc_betting_hit_index_def)
qed

text \<open>
  C24. The creator of a bet can withdraw the rest of the pledge again and again. The call moves the pledge
  less what the winners are owed, but it neither records that it was made nor lowers the recorded pledge:
  whenever it moved something and the pledge account still holds as much, a second call moves it
  again, now out of what the winners are owed.
\<close>

theorem revoke_twice:
  assumes "revoke_remain_compensate c (SignedOrigin who) k w = Inr w'" and "bettings w k = Some b"
    and "calc_betting_hit_index b w = Inr n" and "v = bet_total_pledge b - od_total_compensate_amount (bet_odds b ! unat n)"
    and "od_total_compensate_amount (bet_odds b ! unat n) < bet_total_pledge b"
    and "bet_token_id b \<noteq> native_id (tn_token c)" and "who \<noteq> bet_pledge_account b"
    and "v \<le> free_balance (tn_token c) (bet_token_id b) (bet_pledge_account b) w'"
    and "unat (free_balance (tn_token c) (bet_token_id b) who w') + unat v < 2 ^ 128"
  shows "\<exists>w''. revoke_remain_compensate c (SignedOrigin who) k w' = Inr w''
    \<and> unat (free_balance (tn_token c) (bet_token_id b) who w'')
        = unat (free_balance (tn_token c) (bet_token_id b) who w) + 2 * unat v
    \<and> unat (free_balance (tn_token c) (bet_token_id b) (bet_pledge_account b) w'') + 2 * unat v
        = unat (free_balance (tn_token c) (bet_token_id b) (bet_pledge_account b) w)"
proof -
  let ?tc = "tn_token c" and ?t = "bet_token_id b" and ?p = "bet_pledge_account b"
  have guards: "who = bet_creator b" "index (bet_odds b) (unat n) = Inr (bet_odds b ! unat n)"
    and pay: "transfer_token ?tc ?p ?t v who w = Inr w'"
    using assms(1-5) by (auto simp: revoke_remain_compensate_def Let_def result_simps index_def split: if_splits)
  note same = upper_tournament [OF transfer_token_upper [OF pay]]
  have v: "v \<noteq> 0" using assms(4,5) by auto
  obtain w'' where pay': "transfer_token ?tc ?p ?t v who w' = Inr w''"
    using transfer_goes [OF assms(6) v not_sym [OF assms(7)] assms(8,9)] by blast
  have "bettings w' k = Some b" "calc_betting_hit_index b w' = Inr n"
    using same(1) assms(2,3) calc_hit_battles [OF same(4)] by (simp_all add: same_bets_def)
  then have "revoke_remain_compensate c (SignedOrigin who) k w' = Inr w''"
    using guards pay' assms(4,5)
    by (simp add: revoke_remain_compensate_def ensure_signed_def get_betting_def ok_or_def Let_def)
  then show ?thesis
    using transfer_moves(1,2) [OF pay assms(6) not_sym [OF assms(7)]]
      transfer_moves(1,2) [OF pay' assms(6) not_sym [OF assms(7)]] by simp
qed

text \<open>The pledge is 1000, the winners are owed 600: after two calls the account holds 200.\<close>

definition demo_pledge :: "ref_native tournament_state" where
  "demo_pledge = demo_over
    \<lparr>bettings := [1 \<mapsto> \<lparr>bet_creator = 905, bet_pledge_account = 801, bet_total_pledge = 1000, bet_type = BettingWinLose,
       bet_battles = [1],
       bet_odds = [\<lparr>od_win_lose = [1], od_score = [], od_o = 200, od_total_compensate_amount = 600, od_buy_in = 300,
                     od_accounts = 1\<rparr>,
                   \<lparr>od_win_lose = [2], od_score = [], od_o = 200, od_total_compensate_amount = 0, od_buy_in = 0,
                     od_accounts = 0\<rparr>],
       bet_token_id = 1, bet_min_amount = 10, bet_season = 1\<rparr>],
     betting_records := (\<lambda>_. ([], False))((5, 1) := ([(0, 200, 300)], False))\<rparr>"

lemma demo_pledge_run:
  "case revoke_remain_compensate demo_tn (SignedOrigin 905) 1 demo_pledge of Inl e \<Rightarrow> False
   | Inr w' \<Rightarrow> free_balance ref_token_config 1 801 w' = 600 \<and> free_balance ref_token_config 1 905 w' = 400
     \<and> (case revoke_remain_compensate demo_tn (SignedOrigin 905) 1 w' of Inl e \<Rightarrow> False
        | Inr w'' \<Rightarrow> case betting_claim demo_tn (SignedOrigin 5) 1 w'' of Inr u \<Rightarrow> False
          | Inl e \<Rightarrow> e = TokenError token_error.InsufficientBalance)"
  by code_simp

theorem revoke_twice_witness:
  "\<exists>w' w''. revoke_remain_compensate demo_tn (SignedOrigin 905) 1 demo_pledge = Inr w'
    \<and> revoke_remain_compensate demo_tn (SignedOrigin 905) 1 w' = Inr w''
    \<and> unat (free_balance ref_token_config 1 801 w'') + 800 = unat (free_balance ref_token_config 1 801 demo_pledge)
    \<and> betting_claim demo_tn (SignedOrigin 5) 1 w'' = Inl (TokenError token_error.InsufficientBalance)"
proof -
  obtain w' where run: "revoke_remain_compensate demo_tn (SignedOrigin 905) 1 demo_pledge = Inr w'"
    and left: "free_balance ref_token_config 1 801 w' = 600" "free_balance ref_token_config 1 905 w' = 400"
    and claim: "\<And>w''. revoke_remain_compensate demo_tn (SignedOrigin 905) 1 w' = Inr w''
      \<Longrightarrow> betting_claim demo_tn (SignedOrigin 5) 1 w'' = Inl (TokenError token_error.InsufficientBalance)"
    using demo_pledge_run by (auto split: sum.splits)
  obtain b where b: "bettings demo_pledge 1 = Some b" "bet_token_id b = 1" "bet_pledge_account b = 801"
    "od_total_compensate_amount (bet_odds b ! unat (0 :: u16)) = 600" "bet_total_pledge b = 1000"
    by (auto simp: demo_pledge_def)
  have hit: "calc_betting_hit_index b demo_pledge = Inr 0"
    using b(1) by (auto simp: demo_pledge_def demo_over_def calc_betting_hit_index_def get_battle_def ok_or_def index_def)
  have cfg: "tn_token demo_tn = ref_token_config" by (simp add: demo_tn_def)
  have "\<exists>w''. revoke_remain_compensate demo_tn (SignedOrigin 905) 1 w' = Inr w''
      \<and> unat (free_balance (tn_token demo_tn) (bet_token_id b) 905 w'')
          = unat (free_balance (tn_token demo_tn) (bet_token_id b) 905 demo_pledge) + 2 * unat (400 :: u128)
      \<and> unat (free_balance (tn_token demo_tn) (bet_token_id b) (bet_pledge_account b) w'') + 2 * unat (400 :: u128)
          = unat (free_balance (tn_token demo_tn) (bet_token_id b) (bet_pledge_account b) demo_pledge)"
    by (rule revoke_twice [OF run b(1) hit]) (simp_all add: b b(4) [simplified] cfg left)
  then show ?thesis using run claim by (auto simp: b cfg)
qed

end
