(* ===== verification/Broker.thy ===== *)
theory Broker
  imports Verifier_State
begin

text \<open>
  \<open>rpc/src/broker/mod.rs\<close> and \<open>rpc/src/broker/relay.rs\<close>: the gateway of a node through which traders talk to a
  dominator ("prover"). There is one session per prover: callers put requests into a queue, a connector
  task sends them over one web socket and hands each reply to the caller whose request has its id; order
  updates go to the subscription of their user.

  A session and its tasks run concurrently. Each piece between two points where a task waits is one
  operation here; the interleavings are the relation \<open>session_step\<close>. Which side of a \<open>select!\<close> wins, when a
  connection fails and when a client is gone is up to the relation. \<open>ses_sent\<close>, \<open>ses_received\<close> and
  \<open>ses_delivered\<close> record what crossed the socket and what went to the clients. JSON parsing, SS58, hexadecimal
  decoding, hashing, keys and signatures are parameters.
\<close>

section \<open>JSON values\<close>

datatype json =
    JNull
  | JBool bool
  | JNum int
  | JFloat string
  | JStr string
  | JArr "json list"
  | JObj "(string \<times> json) list"

text \<open>\<open>value[key]\<close>: \<open>Null\<close> where there is no such member.\<close>

fun json_get :: "string \<Rightarrow> json \<Rightarrow> json" where
  "json_get k (JObj ms) = value_or JNull (map_of ms k)"
| "json_get k _ = JNull"

fun as_str :: "json \<Rightarrow> string option" where
  "as_str (JStr x) = Some x"
| "as_str _ = None"

fun as_array :: "json \<Rightarrow> json list option" where
  "as_array (JArr xs) = Some xs"
| "as_array _ = None"

fun as_u64 :: "json \<Rightarrow> u64 option" where
  "as_u64 (JNum n) = (if 0 \<le> n \<and> n < 2 ^ 64 then Some (word_of_int n) else None)"
| "as_u64 _ = None"

fun as_i64 :: "json \<Rightarrow> int option" where
  "as_i64 (JNum n) = (if - (2 ^ 63) \<le> n \<and> n < 2 ^ 63 then Some n else None)"
| "as_i64 _ = None"

section \<open>Errors\<close>

text \<open>The code is an \<open>i32\<close>; a message without one has the code of an internal error.\<close>

datatype rpc_error = RpcError "32 word" string

definition INTERNAL_ERROR_CODE :: "32 word" where "INTERNAL_ERROR_CODE = - 32603"

definition internal_rpc_error :: "string \<Rightarrow> rpc_error" where
  "internal_rpc_error m = RpcError INTERNAL_ERROR_CODE m"

type_synonym 'a rpc_result = "rpc_error + 'a"

section \<open>What the gateway needs from outside\<close>

record broker_env =
  be_parse :: "string \<Rightarrow> json option"
  be_ss58 :: "bytes \<Rightarrow> string"
  be_hex_decode :: "string \<Rightarrow> bytes option"
  be_blake2_256 :: "bytes \<Rightarrow> bytes"
  be_from_utf8 :: "bytes \<Rightarrow> string option"
  be_valid_uri :: "string \<Rightarrow> bool"
  be_mapping_code :: u16
  be_keys :: "bytes list"
  be_sign :: "bytes \<Rightarrow> bytes \<Rightarrow> string option"
  be_encode_number :: "block_number \<Rightarrow> bytes"

text \<open>The relayer key is the last one in the keystore.\<close>

definition get_broker_public :: "broker_env \<Rightarrow> bytes option" where
  "get_broker_public e = (if be_keys e = [] then None else Some (last (be_keys e)))"

definition sign_using_keystore :: "broker_env \<Rightarrow> bytes \<Rightarrow> (bytes \<times> string) option" where
  "sign_using_keystore e payload =
    (case get_broker_public e of
       None \<Rightarrow> None
     | Some key \<Rightarrow> (case be_sign e key payload of None \<Rightarrow> None | Some sig \<Rightarrow> Some (key, sig)))"

text \<open>The endpoint a prover has set, read from the storage of the verifier at the best block.\<close>

definition get_prover_rpc :: "broker_env \<Rightarrow> account \<Rightarrow> ('w, 'cb) verifier_state \<Rightarrow> string option" where
  "get_prover_rpc e prover s =
    (case dominator_settings s prover of
       None \<Rightarrow> None
     | Some x \<Rightarrow> be_from_utf8 e (set_rpc_endpoint x))"

function trim_0x :: "string \<Rightarrow> string" where
  "trim_0x s = (if take 2 s = ''0x'' then trim_0x (drop 2 s) else s)"
  by auto
termination by (relation "measure length") (auto intro: diff_less gr0I)

declare trim_0x.simps [simp del]

definition starts_with_0x :: "string \<Rightarrow> bool" where
  "starts_with_0x s = (take 2 s = ''0x'')"

definition hexstr_to_vec :: "broker_env \<Rightarrow> string \<Rightarrow> bytes option" where
  "hexstr_to_vec e h = be_hex_decode e (trim_0x h)"

text \<open>The length prefix of the encoded address is one byte, as only addresses of 20 bytes come here.\<close>

definition to_mapping_address :: "broker_env \<Rightarrow> bytes \<Rightarrow> bytes" where
  "to_mapping_address e address =
    be_blake2_256 e (List.map (\<lambda>c. of_char c) ''-*-#fusotao#-*-'' @ le_bytes 2 (unat (be_mapping_code e))
      @ [4 * word_of_nat (length address)] @ address)"

definition try_into_ss58 :: "broker_env \<Rightarrow> string \<Rightarrow> string option" where
  "try_into_ss58 e addr =
    (if starts_with_0x addr then
       (case hexstr_to_vec e addr of
          None \<Rightarrow> None
        | Some a \<Rightarrow>
            if length a = 32 then Some (be_ss58 e a)
            else if length a = 20 then Some (be_ss58 e (to_mapping_address e a))
            else None)
     else Some addr)"

section \<open>A session\<close>

text \<open>
  A caller: \<open>relay\<close>, or \<open>multiplex\<close> with the key under which its sink will be registered. \<open>tk_channel\<close> is the
  buffer of its reply channel. A sink is named by the caller it belongs to.
\<close>

datatype task_kind = Relay | Multiplex string

datatype outcome =
    Replied "json rpc_result"
  | Accepted json
  | Failed

datatype task_phase = Sending json | Waiting | Finished outcome

record task =
  tk_kind :: task_kind
  tk_id :: u64
  tk_phase :: task_phase
  tk_channel :: "json rpc_result option"

record session =
  ses_id :: u64
  ses_reqs :: "u64 \<Rightarrow> nat option"
  ses_subs :: "string \<Rightarrow> nat option"
  ses_queue :: "json list"
  ses_connected :: bool
  ses_tasks :: "task list"
  ses_sent :: "json list"
  ses_received :: "string list"
  ses_delivered :: "(nat \<times> string) list"

definition QUEUE_SIZE :: nat where "QUEUE_SIZE = 10000"

definition session_init :: session where
  "session_init =
    \<lparr>ses_id = 1, ses_reqs = (\<lambda>_. None), ses_subs = (\<lambda>_. None), ses_queue = [], ses_connected = False,
     ses_tasks = [], ses_sent = [], ses_received = [], ses_delivered = []\<rparr>"

definition request :: "u64 \<Rightarrow> string \<Rightarrow> json \<Rightarrow> json" where
  "request rid meth params =
    JObj [(''jsonrpc'', JStr ''2.0''), (''id'', JNum (uint rid)), (''method'', JStr meth), (''params'', params)]"

definition set_task :: "nat \<Rightarrow> task \<Rightarrow> session \<Rightarrow> session" where
  "set_task t x s = s\<lparr>ses_tasks := (ses_tasks s)[t := x]\<rparr>"

definition finish :: "nat \<Rightarrow> outcome \<Rightarrow> session \<Rightarrow> session" where
  "finish t r s = set_task t ((ses_tasks s ! t)\<lparr>tk_phase := Finished r\<rparr>) s"

text \<open>A caller takes an id, registers its channel under it and starts sending.\<close>

definition start_task :: "task_kind \<Rightarrow> string \<Rightarrow> json \<Rightarrow> session \<Rightarrow> session" where
  "start_task kind meth params s =
    (let rid = ses_id s in
     s\<lparr>ses_id := rid + 1, ses_reqs := (ses_reqs s)(rid \<mapsto> length (ses_tasks s)),
       ses_tasks := ses_tasks s
         @ [\<lparr>tk_kind = kind, tk_id = rid, tk_phase = Sending (request rid meth params), tk_channel = None\<rparr>]\<rparr>)"

definition relay :: "string \<Rightarrow> json \<Rightarrow> session \<Rightarrow> session" where
  "relay meth params s = start_task Relay meth params s"

definition multiplex ::
  "broker_env \<Rightarrow> string \<Rightarrow> string \<Rightarrow> string \<Rightarrow> string \<Rightarrow> session \<Rightarrow> session" where
  "multiplex e user signature nonce relayer s =
    (case try_into_ss58 e user of
       None \<Rightarrow> s\<lparr>ses_id := ses_id s + 1\<rparr>
     | Some key \<Rightarrow>
         start_task (Multiplex key) ''append_user'' (JArr [JStr user, JStr signature, JStr nonce, JStr relayer]) s)"

text \<open>The outer \<open>select!\<close>: the queue has room, or two seconds pass. Only \<open>relay\<close> then takes its id back.\<close>

definition send_done :: "nat \<Rightarrow> json \<Rightarrow> session \<Rightarrow> session" where
  "send_done t payload s =
    set_task t ((ses_tasks s ! t)\<lparr>tk_phase := Waiting\<rparr>) (s\<lparr>ses_queue := ses_queue s @ [payload]\<rparr>)"

definition send_timeout :: "nat \<Rightarrow> session \<Rightarrow> session" where
  "send_timeout t s =
    (case tk_kind (ses_tasks s ! t) of
       Relay \<Rightarrow> finish t (Replied (Inl (internal_rpc_error ''request timeout'')))
         (s\<lparr>ses_reqs := (ses_reqs s)(tk_id (ses_tasks s ! t) := None)\<rparr>)
     | Multiplex _ \<Rightarrow> finish t Failed s)"

text \<open>
  The inner \<open>select!\<close>: a reply, the end of the channel, or a timeout. \<open>multiplex\<close> accepts the sink on a good
  reply, which fails when the client is gone, and then registers it.
\<close>

definition take_reply :: "nat \<Rightarrow> bool \<Rightarrow> json rpc_result \<Rightarrow> session \<Rightarrow> session" where
  "take_reply t client r s =
    (case tk_kind (ses_tasks s ! t) of
       Relay \<Rightarrow> finish t (Replied r) s
     | Multiplex key \<Rightarrow>
         (case r of
            Inl _ \<Rightarrow> finish t Failed s
          | Inr v \<Rightarrow>
              if client then finish t (Accepted v) (s\<lparr>ses_subs := (ses_subs s)(key \<mapsto> t)\<rparr>)
              else finish t Failed s))"

definition channel_closed :: "nat \<Rightarrow> session \<Rightarrow> session" where
  "channel_closed t s =
    (case tk_kind (ses_tasks s ! t) of
       Relay \<Rightarrow> finish t (Replied (Inl (internal_rpc_error ''internal error''))) s
     | Multiplex _ \<Rightarrow> finish t Failed s)"

definition reply_timeout :: "nat \<Rightarrow> session \<Rightarrow> session" where
  "reply_timeout t s =
    (case tk_kind (ses_tasks s ! t) of
       Relay \<Rightarrow> finish t (Replied (Inl (internal_rpc_error ''request timeout''))) s
     | Multiplex _ \<Rightarrow> finish t Failed s)"

section \<open>The connector\<close>

definition rpc_reply :: "json \<Rightarrow> json rpc_result" where
  "rpc_reply rsp =
    (if json_get ''error'' rsp = JNull then Inr (json_get ''result'' rsp)
     else Inl (RpcError
       (word_of_int (value_or (- 32099) (as_i64 (json_get ''code'' (json_get ''error'' rsp)))))
       (value_or ''the prover didn't reply'' (as_str (json_get ''message'' (json_get ''error'' rsp))))))"

text \<open>What a text message is: a reply to a request, an order update, or neither.\<close>

datatype incoming = ReplyTo u64 "json rpc_result" | OrderUpdate string string | Invalid

definition incoming_of :: "json \<Rightarrow> incoming" where
  "incoming_of rsp =
    (case (as_u64 (json_get ''id'' rsp), as_u64 (json_get ''subscription'' (json_get ''params'' rsp))) of
       (Some rid, None) \<Rightarrow> ReplyTo rid (rpc_reply rsp)
     | (None, Some _) \<Rightarrow>
         (let res = json_get ''result'' (json_get ''params'' rsp) in
          case (as_str (json_get ''user_id'' res), as_str (json_get ''order'' res)) of
            (Some user, Some order) \<Rightarrow> OrderUpdate user order
          | _ \<Rightarrow> Invalid)
     | _ \<Rightarrow> Invalid)"

definition hand_reply :: "u64 \<Rightarrow> json rpc_result \<Rightarrow> session \<Rightarrow> session" where
  "hand_reply rid r s =
    (case ses_reqs s rid of
       None \<Rightarrow> s
     | Some t \<Rightarrow> set_task t ((ses_tasks s ! t)\<lparr>tk_channel := Some r\<rparr>) (s\<lparr>ses_reqs := (ses_reqs s)(rid := None)\<rparr>))"

text \<open>\<open>open\<close>: whether the sink took the update; one that is closed is removed.\<close>

definition hand_order :: "bool \<Rightarrow> string \<Rightarrow> string \<Rightarrow> session \<Rightarrow> session" where
  "hand_order open' user order s =
    (case ses_subs s user of
       None \<Rightarrow> s
     | Some t \<Rightarrow>
         if open' then s\<lparr>ses_delivered := ses_delivered s @ [(t, order)]\<rparr>
         else s\<lparr>ses_subs := (ses_subs s)(user := None)\<rparr>)"

definition on_text :: "broker_env \<Rightarrow> bool \<Rightarrow> string \<Rightarrow> session \<Rightarrow> session" where
  "on_text e open' text s =
    (let s = s\<lparr>ses_received := ses_received s @ [text]\<rparr> in
     case be_parse e text of
       None \<Rightarrow> s
     | Some rsp \<Rightarrow>
         (case incoming_of rsp of
            ReplyTo rid r \<Rightarrow> hand_reply rid r s
          | OrderUpdate user order \<Rightarrow> hand_order open' user order s
          | Invalid \<Rightarrow> s))"

text \<open>The next request of the queue goes out; when the socket fails it is lost and the connection with it.\<close>

definition outgoing :: "bool \<Rightarrow> session \<Rightarrow> session" where
  "outgoing ok s =
    (case ses_queue s of
       [] \<Rightarrow> s
     | req # rest \<Rightarrow>
         if ok then s\<lparr>ses_queue := rest, ses_sent := ses_sent s @ [req]\<rparr>
         else s\<lparr>ses_queue := rest, ses_connected := False\<rparr>)"

definition disconnect :: "session \<Rightarrow> session" where
  "disconnect s = s\<lparr>ses_connected := False\<rparr>"

text \<open>The upgrade request: the account, the number of the best block and its signature.\<close>

definition connect_headers ::
  "broker_env \<Rightarrow> account \<Rightarrow> block_number \<Rightarrow> ('w, 'cb) verifier_state
    \<Rightarrow> (string \<times> string \<times> block_number \<times> string) option" where
  "connect_headers e prover now s =
    (case sign_using_keystore e (be_encode_number e now) of
       None \<Rightarrow> None
     | Some (key, sig) \<Rightarrow>
         (case get_prover_rpc e prover s of
            None \<Rightarrow> None
          | Some uri \<Rightarrow> if be_valid_uri e uri then Some (uri, be_ss58 e key, now, ''0x'' @ sig) else None))"

text \<open>
  A new connection asks for the orders of this broker and forgets all subscriptions. \<open>ok\<close>: whether the socket
  took the message; if not, the attempt fails.
\<close>

definition connect :: "broker_env \<Rightarrow> bool \<Rightarrow> session \<Rightarrow> session" where
  "connect e ok s =
    (case get_broker_public e of
       None \<Rightarrow> s\<lparr>ses_id := ses_id s + 1\<rparr>
     | Some key \<Rightarrow>
         if ok then
           s\<lparr>ses_id := ses_id s + 1,
             ses_sent := ses_sent s @ [request (ses_id s) ''sub_trading'' (JArr [JStr (be_ss58 e key)])],
             ses_subs := (\<lambda>_. None), ses_connected := True\<rparr>
         else s\<lparr>ses_id := ses_id s + 1\<rparr>)"

section \<open>Interleavings\<close>

definition task_in :: "nat \<Rightarrow> session \<Rightarrow> task \<Rightarrow> bool" where
  "task_in t s x \<longleftrightarrow> t < length (ses_tasks s) \<and> ses_tasks s ! t = x"

text \<open>The step of one caller.\<close>

inductive caller_step :: "nat \<Rightarrow> session \<Rightarrow> session \<Rightarrow> bool" where
  call_sent: "task_in t s x \<Longrightarrow> tk_phase x = Sending payload \<Longrightarrow> length (ses_queue s) < QUEUE_SIZE
    \<Longrightarrow> caller_step t s (send_done t payload s)"
| call_not_sent: "task_in t s x \<Longrightarrow> tk_phase x = Sending payload \<Longrightarrow> caller_step t s (send_timeout t s)"
| call_replied: "task_in t s x \<Longrightarrow> tk_phase x = Waiting \<Longrightarrow> tk_channel x = Some r
    \<Longrightarrow> caller_step t s (take_reply t client r s)"
| call_closed: "task_in t s x \<Longrightarrow> tk_phase x = Waiting \<Longrightarrow> tk_channel x = None \<Longrightarrow> \<forall>i. ses_reqs s i \<noteq> Some t
    \<Longrightarrow> caller_step t s (channel_closed t s)"
| call_not_replied: "task_in t s x \<Longrightarrow> tk_phase x = Waiting \<Longrightarrow> caller_step t s (reply_timeout t s)"

inductive session_step :: "broker_env \<Rightarrow> session \<Rightarrow> session \<Rightarrow> bool" for e where
  ses_relay: "session_step e s (relay meth params s)"
| ses_multiplex: "session_step e s (multiplex e user sig nonce relayer s)"
| ses_caller: "caller_step t s s' \<Longrightarrow> session_step e s s'"
| ses_outgoing: "ses_connected s \<Longrightarrow> session_step e s (outgoing ok s)"
| ses_text: "ses_connected s \<Longrightarrow> session_step e s (on_text e open' text s)"
| ses_disconnect: "ses_connected s \<Longrightarrow> session_step e s (disconnect s)"
| ses_connect: "\<not> ses_connected s \<Longrightarrow> session_step e s (connect e ok s)"

inductive_cases caller_stepE: "caller_step t s s'"
inductive_cases session_stepE: "session_step e s s'"

section \<open>The calls of the gateway\<close>

text \<open>The sessions of a node: one is started at the first use of a prover that has set an endpoint.\<close>

definition use_session ::
  "broker_env \<Rightarrow> account \<Rightarrow> ('w, 'cb) verifier_state \<Rightarrow> (account \<Rightarrow> session option)
    \<Rightarrow> (session \<times> (account \<Rightarrow> session option)) rpc_result" where
  "use_session e prover s ss =
    (case ss prover of
       Some x \<Rightarrow> Inr (x, ss)
     | None \<Rightarrow>
         (case get_prover_rpc e prover s of
            None \<Rightarrow> Inl (RpcError (- 32102) ''prover not found.'')
          | Some _ \<Rightarrow> Inr (session_init, ss(prover \<mapsto> session_init))))"

definition prover_error :: rpc_error where
  "prover_error = internal_rpc_error ''The prover didn't reply correctly.''"

definition trade_params :: "broker_env \<Rightarrow> string \<Rightarrow> string \<Rightarrow> string \<Rightarrow> string \<Rightarrow> json rpc_result" where
  "trade_params e account_id trade_cmd signature nonce =
    (case get_broker_public e of
       None \<Rightarrow> Inl (RpcError (- 32102) ''The broker key is not registered.'')
     | Some key \<Rightarrow> Inr (JArr [JStr account_id, JStr trade_cmd, JStr signature, JStr nonce, JStr (be_ss58 e key)]))"

definition string_reply :: "json rpc_result \<Rightarrow> string rpc_result" where
  "string_reply r = and_then r (\<lambda>v. ok_or (as_str v) prover_error)"

fun strings_of :: "json list \<Rightarrow> (string list) rpc_result" where
  "strings_of [] = Inr []"
| "strings_of (v # vs) =
    and_then (ok_or (as_str v) prover_error) (\<lambda>x. and_then (strings_of vs) (\<lambda>xs. Inr (x # xs)))"

definition strings_reply :: "json rpc_result \<Rightarrow> (string list) rpc_result" where
  "strings_reply r = and_then r (\<lambda>v. and_then (ok_or (as_array v) prover_error) strings_of)"

text \<open>The requests behind the calls, and how each reads its reply.\<close>

datatype gateway_call =
    Trade string string string string
  | QueryPendingOrders string string string string
  | QueryAccount string string string
  | RegisterTradingKey string string string
  | GetNonce string

fun gateway_request :: "broker_env \<Rightarrow> gateway_call \<Rightarrow> (string \<times> json) rpc_result" where
  "gateway_request e (Trade a trade_cmd sig nonce) =
    and_then (trade_params e a trade_cmd sig nonce) (\<lambda>p. Inr (''trade'', p))"
| "gateway_request e (QueryPendingOrders a symbol sig nonce) =
    Inr (''query_pending_orders'', JArr [JStr a, JStr symbol, JStr sig, JStr nonce])"
| "gateway_request e (QueryAccount a sig nonce) = Inr (''query_account'', JArr [JStr a, JStr sig, JStr nonce])"
| "gateway_request e (RegisterTradingKey a x sr) = Inr (''register_trading_key'', JArr [JStr a, JStr x, JStr sr])"
| "gateway_request e (GetNonce a) = Inr (''get_nonce'', JArr [JStr a])"

fun gateway_result :: "gateway_call \<Rightarrow> json rpc_result \<Rightarrow> (string list) rpc_result" where
  "gateway_result (QueryPendingOrders _ _ _ _) r = strings_reply r"
| "gateway_result (QueryAccount _ _ _) r = strings_reply r"
| "gateway_result _ r = and_then (string_reply r) (\<lambda>x. Inr [x])"

text \<open>
  A call of the gateway up to the point where its request waits to be sent. The lookup of the session and
  its creation are one step here; a session that was created stays, also when the call then fails.
\<close>

definition gateway ::
  "broker_env \<Rightarrow> account \<Rightarrow> gateway_call \<Rightarrow> ('w, 'cb) verifier_state \<Rightarrow> (account \<Rightarrow> session option)
    \<Rightarrow> (account \<Rightarrow> session option) \<times> unit rpc_result" where
  "gateway e prover call s ss =
    (case use_session e prover s ss of
       Inl err \<Rightarrow> (ss, Inl err)
     | Inr (x, ss) \<Rightarrow>
         (case gateway_request e call of
            Inl err \<Rightarrow> (ss, Inl err)
          | Inr (meth, params) \<Rightarrow> (ss(prover \<mapsto> relay meth params x), Inr ())))"

definition subscribe_trading ::
  "broker_env \<Rightarrow> account \<Rightarrow> string \<Rightarrow> string \<Rightarrow> string \<Rightarrow> ('w, 'cb) verifier_state \<Rightarrow> (account \<Rightarrow> session option)
    \<Rightarrow> (account \<Rightarrow> session option) \<times> unit rpc_result" where
  "subscribe_trading e prover user sig nonce s ss =
    (case use_session e prover s ss of
       Inl err \<Rightarrow> (ss, Inl (RpcError (- 32102) ''prover not found''))
     | Inr (x, ss) \<Rightarrow>
         (case get_broker_public e of
            None \<Rightarrow> (ss, Inr ())
          | Some key \<Rightarrow> (ss(prover \<mapsto> multiplex e user sig nonce (be_ss58 e key) x), Inr ())))"

end
