(* ===== verification/Broker_Correct.thy ===== *)
theory Broker_Correct
  imports Broker Transition_Systems
begin

text \<open>
  The gateway under every interleaving: a caller gets its own reply or an error of the gateway, an order
  update reaches only the confirmed subscription of its user, every call returns, and the entries that
  calls leave behind when the prover does not answer.
\<close>

section \<open>Answers and updates of the prover\<close>

definition answered :: "broker_env \<Rightarrow> session \<Rightarrow> u64 \<Rightarrow> json rpc_result \<Rightarrow> bool" where
  "answered e s i r \<longleftrightarrow> (\<exists>text\<in>set (ses_received s). \<exists>v. be_parse e text = Some v \<and> incoming_of v = ReplyTo i r)"

definition updated :: "broker_env \<Rightarrow> session \<Rightarrow> string \<Rightarrow> string \<Rightarrow> bool" where
  "updated e s user order \<longleftrightarrow>
    (\<exists>text\<in>set (ses_received s). \<exists>v. be_parse e text = Some v \<and> incoming_of v = OrderUpdate user order)"

text \<open>The errors the gateway itself answers with.\<close>

definition gateway_error :: "json rpc_result \<Rightarrow> bool" where
  "gateway_error r \<longleftrightarrow> r = Inl (internal_rpc_error ''request timeout'') \<or> r = Inl (internal_rpc_error ''internal error'')"

definition task_ok :: "broker_env \<Rightarrow> session \<Rightarrow> task \<Rightarrow> bool" where
  "task_ok e s x \<longleftrightarrow> (\<forall>r. tk_channel x = Some r \<longrightarrow> answered e s (tk_id x) r)
    \<and> (\<forall>r. tk_phase x = Finished (Replied r) \<longrightarrow> gateway_error r \<or> answered e s (tk_id x) r)
    \<and> (\<forall>v. tk_phase x = Finished (Accepted v) \<longrightarrow> answered e s (tk_id x) (Inr v))"

definition confirmed :: "string \<Rightarrow> nat \<Rightarrow> session \<Rightarrow> bool" where
  "confirmed user t s \<longleftrightarrow> (\<exists>x v. task_in t s x \<and> tk_kind x = Multiplex user \<and> tk_phase x = Finished (Accepted v))"

definition session_ok :: "broker_env \<Rightarrow> session \<Rightarrow> bool" where
  "session_ok e s \<longleftrightarrow> (\<forall>x\<in>set (ses_tasks s). task_ok e s x)
    \<and> (\<forall>i t. ses_reqs s i = Some t \<longrightarrow> (\<exists>x. task_in t s x \<and> tk_id x = i))
    \<and> (\<forall>user t. ses_subs s user = Some t \<longrightarrow> confirmed user t s)
    \<and> (\<forall>t order. (t, order) \<in> set (ses_delivered s) \<longrightarrow> (\<exists>user. confirmed user t s \<and> updated e s user order))"

lemma session_okI:
  assumes "\<And>x. x \<in> set (ses_tasks s) \<Longrightarrow> task_ok e s x"
    and "\<And>i t. ses_reqs s i = Some t \<Longrightarrow> \<exists>x. task_in t s x \<and> tk_id x = i"
    and "\<And>user t. ses_subs s user = Some t \<Longrightarrow> confirmed user t s"
    and "\<And>t order. (t, order) \<in> set (ses_delivered s) \<Longrightarrow> \<exists>user. confirmed user t s \<and> updated e s user order"
  shows "session_ok e s"
  using assms by (simp add: session_ok_def)

lemma session_okD:
  assumes "session_ok e s"
  shows "x \<in> set (ses_tasks s) \<Longrightarrow> task_ok e s x"
    and "ses_reqs s i = Some t \<Longrightarrow> \<exists>x. task_in t s x \<and> tk_id x = i"
    and "ses_subs s user = Some t \<Longrightarrow> confirmed user t s"
    and "(t, order) \<in> set (ses_delivered s) \<Longrightarrow> \<exists>user. confirmed user t s \<and> updated e s user order"
  using assms by (auto simp: session_ok_def)

lemma task_in_member: "task_in t s x \<Longrightarrow> x \<in> set (ses_tasks s)"
  by (auto simp: task_in_def)

section \<open>How tasks move\<close>

text \<open>
  The tasks after a step: those before it in the same order, with the same kinds and ids, finished ones
  unchanged up to their channel; what was received stays received.
\<close>

definition moves :: "session \<Rightarrow> session \<Rightarrow> bool" where
  "moves s s' \<longleftrightarrow> set (ses_received s) \<subseteq> set (ses_received s')
    \<and> (\<forall>t x. task_in t s x \<longrightarrow> (\<exists>x'. task_in t s' x' \<and> tk_kind x' = tk_kind x \<and> tk_id x' = tk_id x
        \<and> (\<forall>r. tk_phase x = Finished r \<longrightarrow> tk_phase x' = Finished r)))"

lemma movesD:
  assumes "moves s s'"
  shows "task_in t s x \<Longrightarrow> \<exists>x'. task_in t s' x' \<and> tk_kind x' = tk_kind x \<and> tk_id x' = tk_id x
      \<and> (\<forall>r. tk_phase x = Finished r \<longrightarrow> tk_phase x' = Finished r)"
    and "answered e s i r \<Longrightarrow> answered e s' i r"
    and "updated e s user order \<Longrightarrow> updated e s' user order"
  using assms by (auto simp: moves_def answered_def updated_def)

lemma moves_confirmed: "moves s s' \<Longrightarrow> confirmed user t s \<Longrightarrow> confirmed user t s'"
  unfolding confirmed_def by (metis movesD(1))

lemma moves_id: "moves s s' \<Longrightarrow> \<exists>x. task_in t s x \<and> tk_id x = i \<Longrightarrow> \<exists>x. task_in t s' x \<and> tk_id x = i"
  by (metis movesD(1))

text \<open>One task changes, and not its kind, its id, or the outcome if it has one.\<close>

lemma set_task_moves:
  assumes "task_in t s x" and "tk_kind x' = tk_kind x" and "tk_id x' = tk_id x"
    and "\<And>r. tk_phase x = Finished r \<Longrightarrow> tk_phase x' = Finished r"
    and "ses_tasks u = ses_tasks s" and "ses_received u = ses_received s"
  shows "moves s (set_task t x' u)"
  using assms by (auto simp: moves_def task_in_def set_task_def nth_list_update)

lemma same_tasks_moves:
  assumes "ses_tasks s' = ses_tasks s" and "set (ses_received s) \<subseteq> set (ses_received s')"
  shows "moves s s'"
  using assms by (auto simp: moves_def task_in_def)

lemma start_task_moves: "moves s (start_task kind meth params s)"
  by (auto simp: moves_def task_in_def start_task_def Let_def nth_append)

section \<open>The invariant\<close>

lemma start_task_ok:
  assumes "session_ok e s"
  shows "session_ok e (start_task kind meth params s)" (is "session_ok e ?s")
proof (rule session_okI)
  note mv = start_task_moves [of s kind meth params]
  fix x
  assume "x \<in> set (ses_tasks ?s)"
  then show "task_ok e ?s x"
    using session_okD(1) [OF assms, of x]
    by (auto simp: start_task_def Let_def task_ok_def answered_def)
next
  fix i t
  assume "ses_reqs ?s i = Some t"
  then show "\<exists>x. task_in t ?s x \<and> tk_id x = i"
    using session_okD(2) [OF assms, of i t] moves_id [OF start_task_moves]
    by (cases "i = ses_id s") (auto simp: start_task_def Let_def task_in_def nth_append)
next
  fix user t
  assume "ses_subs ?s user = Some t"
  then show "confirmed user t ?s"
    using session_okD(3) [OF assms, of user t] moves_confirmed [OF start_task_moves] by (simp add: start_task_def Let_def)
next
  fix t order
  assume "(t, order) \<in> set (ses_delivered ?s)"
  then show "\<exists>user. confirmed user t ?s \<and> updated e ?s user order"
    using session_okD(4) [OF assms, of t order] moves_confirmed [OF start_task_moves] movesD(3) [OF start_task_moves]
    by (fastforce simp: start_task_def Let_def)
qed

text \<open>One task changes: what is left to show.\<close>

lemma set_task_ok:
  assumes ok: "session_ok e s" and x: "task_in t s x"
    and x': "tk_kind x' = tk_kind x" "tk_id x' = tk_id x" "\<And>r. tk_phase x = Finished r \<Longrightarrow> tk_phase x' = Finished r"
    and u: "ses_tasks u = ses_tasks s" "ses_received u = ses_received s" "ses_delivered u = ses_delivered s"
    and new: "task_ok e s x'"
    and reqs: "\<And>i k. ses_reqs u i = Some k \<Longrightarrow> ses_reqs s i = Some k"
    and subs: "\<And>user k. ses_subs u user = Some k
      \<Longrightarrow> ses_subs s user = Some k \<or> k = t \<and> tk_kind x' = Multiplex user \<and> (\<exists>v. tk_phase x' = Finished (Accepted v))"
  shows "session_ok e (set_task t x' u)" (is "session_ok e ?s")
proof (rule session_okI)
  have mv: "moves s ?s" by (rule set_task_moves [OF x x' u(1,2)])
  have t: "t < length (ses_tasks s)" using x by (simp add: task_in_def)
  show "task_ok e ?s y" if "y \<in> set (ses_tasks ?s)" for y
  proof -
    have "y = x' \<or> y \<in> set (ses_tasks s)"
      using that set_update_subset_insert [of "ses_tasks s" t x'] by (auto simp: set_task_def u)
    then have "task_ok e s y" using new session_okD(1) [OF ok] by blast
    then show ?thesis by (simp add: task_ok_def answered_def set_task_def u)
  qed
  show "\<exists>y. task_in k ?s y \<and> tk_id y = i" if "ses_reqs ?s i = Some k" for i k
    using that reqs [of i k] session_okD(2) [OF ok, of i k] moves_id [OF mv] by (simp add: set_task_def)
  show "confirmed user k ?s" if "ses_subs ?s user = Some k" for user k
  proof -
    have "ses_subs s user = Some k \<or> k = t \<and> tk_kind x' = Multiplex user \<and> (\<exists>v. tk_phase x' = Finished (Accepted v))"
      using that subs [of user k] by (simp add: set_task_def)
    then show ?thesis
      using session_okD(3) [OF ok, of user k] moves_confirmed [OF mv] t
      by (auto simp: confirmed_def task_in_def set_task_def u)
  qed
  show "\<exists>user. confirmed user k ?s \<and> updated e ?s user order" if "(k, order) \<in> set (ses_delivered ?s)" for k order
    using that session_okD(4) [OF ok, of k order] moves_confirmed [OF mv] movesD(3) [OF mv]
    by (fastforce simp: set_task_def u)
qed

lemma same_session_ok:
  assumes ok: "session_ok e s" and "ses_tasks s' = ses_tasks s" and "set (ses_received s) \<subseteq> set (ses_received s')"
    and "ses_reqs s' = ses_reqs s" and "\<And>user k. ses_subs s' user = Some k \<Longrightarrow> ses_subs s user = Some k"
    and "\<And>t order. (t, order) \<in> set (ses_delivered s') \<Longrightarrow> (t, order) \<in> set (ses_delivered s)
      \<or> (\<exists>user. confirmed user t s \<and> updated e s' user order)"
  shows "session_ok e s'"
proof (rule session_okI)
  have mv: "moves s s'" by (rule same_tasks_moves [OF assms(2,3)])
  show "task_ok e s' x" if "x \<in> set (ses_tasks s')" for x
    using session_okD(1) [OF ok, of x] that movesD(2) [OF mv] by (auto simp: assms(2) task_ok_def)
  show "\<exists>x. task_in t s' x \<and> tk_id x = i" if "ses_reqs s' i = Some t" for i t
    using session_okD(2) [OF ok, of i t] that moves_id [OF mv] by (simp add: assms(4))
  show "confirmed user t s'" if "ses_subs s' user = Some t" for user t
    using session_okD(3) [OF ok] assms(5) [OF that] moves_confirmed [OF mv] by blast
  show "\<exists>user. confirmed user t s' \<and> updated e s' user order" if "(t, order) \<in> set (ses_delivered s')" for t order
    using session_okD(4) [OF ok, of t order] assms(6) [OF that] moves_confirmed [OF mv] movesD(3) [OF mv] by blast
qed

text \<open>A caller finishes, having registered its sink or not.\<close>

lemma finish_ok:
  assumes ok: "session_ok e s" and x: "task_in t s x" and open': "\<And>r. tk_phase x \<noteq> Finished r"
    and u: "ses_tasks u = ses_tasks s" "ses_received u = ses_received s" "ses_delivered u = ses_delivered s"
    and reply: "\<And>r. out = Replied r \<Longrightarrow> gateway_error r \<or> answered e s (tk_id x) r"
    and accept: "\<And>v. out = Accepted v \<Longrightarrow> answered e s (tk_id x) (Inr v)"
    and reqs: "\<And>i k. ses_reqs u i = Some k \<Longrightarrow> ses_reqs s i = Some k"
    and subs: "\<And>user k. ses_subs u user = Some k
      \<Longrightarrow> ses_subs s user = Some k \<or> k = t \<and> tk_kind x = Multiplex user \<and> (\<exists>v. out = Accepted v)"
  shows "session_ok e (finish t out u)"
proof -
  have eq: "ses_tasks u ! t = x" using x by (simp add: u task_in_def)
  have "task_ok e s (x\<lparr>tk_phase := Finished out\<rparr>)"
    using session_okD(1) [OF ok task_in_member [OF x]] reply accept by (auto simp: task_ok_def)
  then show ?thesis
    unfolding finish_def eq using open' reqs subs by (intro set_task_ok [OF ok x _ _ _ u]) auto
qed

lemma take_reply_ok:
  assumes ok: "session_ok e s" and x: "task_in t s x" and "tk_phase x = Waiting" and "tk_channel x = Some r"
  shows "session_ok e (take_reply t client r s)"
proof -
  have ans: "answered e s (tk_id x) r"
    using session_okD(1) [OF ok task_in_member [OF x]] assms(4) by (simp add: task_ok_def)
  have eq: "ses_tasks s ! t = x" using x by (simp add: task_in_def)
  show ?thesis
    unfolding take_reply_def eq using ans assms(3)
    by (auto split: task_kind.splits sum.splits if_splits intro!: finish_ok [OF ok x])
qed

lemma caller_step_ok:
  assumes "caller_step t s s'" and ok: "session_ok e s"
  shows "session_ok e s'"
  using assms(1)
proof (cases rule: caller_step.cases)
  case (call_sent x payload)
  have eq: "ses_tasks s ! t = x" using call_sent(2) by (simp add: task_in_def)
  have "task_ok e s (x\<lparr>tk_phase := Waiting\<rparr>)"
    using session_okD(1) [OF ok task_in_member [OF call_sent(2)]] by (simp add: task_ok_def)
  then show ?thesis
    unfolding call_sent(1) send_done_def eq using call_sent(3) by (intro set_task_ok [OF ok call_sent(2)]) auto
next
  case (call_not_sent x payload)
  have eq: "ses_tasks s ! t = x" using call_not_sent(2) by (simp add: task_in_def)
  show ?thesis
    unfolding call_not_sent(1) send_timeout_def eq using call_not_sent(3)
    by (auto split: task_kind.splits if_splits simp: gateway_error_def intro!: finish_ok [OF ok call_not_sent(2)])
next
  case (call_replied x r client)
  then show ?thesis using take_reply_ok [OF ok] by simp
next
  case (call_closed x)
  have eq: "ses_tasks s ! t = x" using call_closed(2) by (simp add: task_in_def)
  show ?thesis
    unfolding call_closed(1) channel_closed_def eq using call_closed(3)
    by (auto split: task_kind.splits simp: gateway_error_def intro!: finish_ok [OF ok call_closed(2)])
next
  case (call_not_replied x)
  have eq: "ses_tasks s ! t = x" using call_not_replied(2) by (simp add: task_in_def)
  show ?thesis
    unfolding call_not_replied(1) reply_timeout_def eq using call_not_replied(3)
    by (auto split: task_kind.splits simp: gateway_error_def intro!: finish_ok [OF ok call_not_replied(2)])
qed

lemma hand_reply_ok:
  assumes ok: "session_ok e s" and ans: "answered e s i r"
  shows "session_ok e (hand_reply i r s)"
proof (cases "ses_reqs s i")
  case (Some t)
  then obtain x where x: "task_in t s x" "tk_id x = i" using session_okD(2) [OF ok] by blast
  have eq: "ses_tasks s ! t = x" using x(1) by (simp add: task_in_def)
  have "task_ok e s (x\<lparr>tk_channel := Some r\<rparr>)"
    using session_okD(1) [OF ok task_in_member [OF x(1)]] ans x(2) by (simp add: task_ok_def)
  then have "session_ok e (set_task t (x\<lparr>tk_channel := Some r\<rparr>) (s\<lparr>ses_reqs := (ses_reqs s)(i := None)\<rparr>))"
    by (intro set_task_ok [OF ok x(1)]) (auto split: if_splits)
  then show ?thesis by (simp add: hand_reply_def Some eq)
qed (simp add: hand_reply_def ok)

lemma hand_order_ok:
  assumes ok: "session_ok e s" and upd: "updated e s user order"
  shows "session_ok e (hand_order open' user order s)"
proof (cases "ses_subs s user")
  case (Some t)
  then have "confirmed user t s" using session_okD(3) [OF ok] by blast
  moreover from upd have "updated e (s\<lparr>ses_delivered := ses_delivered s @ [(t, order)]\<rparr>) user order"
    by (simp add: updated_def)
  ultimately show ?thesis
    by (auto simp: hand_order_def Some split: if_splits intro!: same_session_ok [OF ok])
qed (simp add: hand_order_def ok)

lemma on_text_ok:
  assumes ok: "session_ok e s"
  shows "session_ok e (on_text e open' text s)"
proof -
  let ?s = "s\<lparr>ses_received := ses_received s @ [text]\<rparr>"
  have ok': "session_ok e ?s" by (rule same_session_ok [OF ok]) auto
  have "answered e ?s i r" if "be_parse e text = Some v" "incoming_of v = ReplyTo i r" for v i r
    using that by (auto simp: answered_def)
  moreover have "updated e ?s user order" if "be_parse e text = Some v" "incoming_of v = OrderUpdate user order" for v user order
    using that by (auto simp: updated_def)
  ultimately show ?thesis
    using ok' by (auto simp: on_text_def Let_def split: option.splits incoming.splits intro: hand_reply_ok hand_order_ok)
qed

lemma connector_ok:
  assumes "session_ok e s"
  shows "session_ok e (outgoing ok s)" and "session_ok e (disconnect s)" and "session_ok e (connect e ok s)"
  by (auto simp: outgoing_def disconnect_def connect_def split: list.splits option.splits
      intro!: same_session_ok [OF assms])

lemma multiplex_ok:
  assumes "session_ok e s"
  shows "session_ok e (multiplex e user sig nonce relayer s)"
proof (cases "try_into_ss58 e user")
  case None
  then show ?thesis by (auto simp: multiplex_def intro!: same_session_ok [OF assms])
qed (simp add: multiplex_def start_task_ok [OF assms])

lemma session_step_ok: "session_step e s s' \<Longrightarrow> session_ok e s \<Longrightarrow> session_ok e s'"
  by (erule session_step.cases)
    (auto simp: relay_def intro: start_task_ok multiplex_ok caller_step_ok on_text_ok connector_ok)

abbreviation session_reachable :: "broker_env \<Rightarrow> session \<Rightarrow> bool" where
  "session_reachable e \<equiv> reachable (\<lambda>s. s = session_init) (session_step e)"

interpretation gateway: invariant_system "\<lambda>s. s = session_init" "session_step e" "session_ok e" for e
proof unfold_locales
  fix s
  assume "s = session_init"
  then show "session_ok e s" by (auto simp: session_ok_def session_init_def)
qed (rule session_step_ok)

section \<open>Replies and updates\<close>

text \<open>
  C27. A caller gets its own reply. In every reachable state of a session, whatever the interleaving, what a
  finished request returned is the timeout or internal error of the gateway, or the reply of a
  message that was received and carried the id of this request.
\<close>

theorem replies_matched:
  assumes "session_reachable e s" and "task_in t s x" and "tk_phase x = Finished (Replied r)"
  shows "r = Inl (internal_rpc_error ''request timeout'') \<or> r = Inl (internal_rpc_error ''internal error'')
    \<or> (\<exists>text\<in>set (ses_received s). \<exists>v. be_parse e text = Some v \<and> incoming_of v = ReplyTo (tk_id x) r)"
  using session_okD(1) [OF gateway.inv_reachable [OF assms(1)] task_in_member [OF assms(2)]] assms(3)
  by (auto simp: task_ok_def gateway_error_def answered_def)

text \<open>
  C28. An order update goes to its user only. In every reachable state of a session, an update that went to
  a client came in a message for the user under whose key this client subscribed, and the prover had
  confirmed that subscription with a reply to its request.
\<close>

theorem orders_to_owner:
  assumes "session_reachable e s" and "(t, order) \<in> set (ses_delivered s)"
  shows "\<exists>user x v text. task_in t s x \<and> tk_kind x = Multiplex user \<and> tk_phase x = Finished (Accepted v)
    \<and> (\<exists>reply\<in>set (ses_received s). \<exists>u. be_parse e reply = Some u \<and> incoming_of u = ReplyTo (tk_id x) (Inr v))
    \<and> text \<in> set (ses_received s) \<and> (\<exists>u. be_parse e text = Some u \<and> incoming_of u = OrderUpdate user order)"
proof -
  note ok = gateway.inv_reachable [OF assms(1)]
  obtain user x v where x: "task_in t s x" "tk_kind x = Multiplex user" "tk_phase x = Finished (Accepted v)"
    and upd: "updated e s user order"
    using session_okD(4) [OF ok assms(2)] by (auto simp: confirmed_def)
  have "answered e s (tk_id x) (Inr v)"
    using session_okD(1) [OF ok task_in_member [OF x(1)]] x(3) by (simp add: task_ok_def)
  with x upd show ?thesis unfolding answered_def updated_def by blast
qed

section \<open>Every call returns\<close>

text \<open>The points at which a caller still has to wait.\<close>

fun phase_work :: "task_phase \<Rightarrow> nat" where
  "phase_work (Sending _) = 2"
| "phase_work Waiting = 1"
| "phase_work (Finished _) = 0"

definition call_work :: "nat \<Rightarrow> session \<Rightarrow> nat" where
  "call_work t s = phase_work (tk_phase (ses_tasks s ! t))"

lemma finish_work: "t < length (ses_tasks u) \<Longrightarrow> call_work t (finish t out u) = 0"
  by (simp add: call_work_def finish_def set_task_def)

lemma caller_progress: "caller_step t s s' \<Longrightarrow> call_work t s' < call_work t s"
  by (erule caller_step.cases)
    (auto simp: send_timeout_def take_reply_def channel_closed_def reply_timeout_def finish_work task_in_def
      send_done_def set_task_def call_work_def finish_def split: task_kind.splits sum.splits)

lemma caller_length: "caller_step t s s' \<Longrightarrow> length (ses_tasks s') = length (ses_tasks s)"
  by (erule caller_step.cases)
    (auto simp: send_timeout_def take_reply_def channel_closed_def reply_timeout_def send_done_def set_task_def
      finish_def split: task_kind.splits sum.splits)

lemma caller_others: "caller_step t s s' \<Longrightarrow> k \<noteq> t \<Longrightarrow> call_work k s' = call_work k s"
  by (erule caller_step.cases)
    (auto simp: send_timeout_def take_reply_def channel_closed_def reply_timeout_def send_done_def set_task_def
      finish_def call_work_def split: task_kind.splits sum.splits)

lemma channel_work [simp]:
  "tk_phase ((xs[k := (xs ! k)\<lparr>tk_channel := r\<rparr>]) ! t) = tk_phase (xs ! t)"
  by (cases "k < length xs") (auto simp: nth_list_update list_update_beyond)

lemma step_work:
  assumes "session_step e s s'" and "t < length (ses_tasks s)"
  shows "call_work t s' \<le> call_work t s" and "t < length (ses_tasks s')"
proof -
  have "call_work t s' \<le> call_work t s \<and> t < length (ses_tasks s')"
    using assms(1)
  proof (cases rule: session_step.cases)
    case (ses_caller k)
    then show ?thesis
      using caller_progress caller_others caller_length assms(2) by (cases "k = t") (auto simp: less_imp_le)
  qed (use assms(2) in \<open>auto simp: relay_def multiplex_def start_task_def Let_def call_work_def nth_append
      outgoing_def on_text_def hand_reply_def hand_order_def set_task_def disconnect_def connect_def
      split: option.splits list.splits incoming.splits if_splits\<close>)
  then show "call_work t s' \<le> call_work t s" and "t < length (ses_tasks s')" by blast+
qed

text \<open>
  C29. Every call returns. A caller that has not returned always has a step of its own, whatever the
  connection and the other callers do, and each of its steps brings it nearer to its return, of which
  it is never more than two away; no step of anything else takes it back. So a caller returns after
  at most two steps of its own in every run.
\<close>

theorem callers_return:
  assumes "t < length (ses_tasks s)"
  shows "(call_work t s = 0 \<longleftrightarrow> (\<exists>r. tk_phase (ses_tasks s ! t) = Finished r))
    \<and> call_work t s \<le> 2
    \<and> (call_work t s \<noteq> 0 \<longrightarrow> (\<exists>s'. caller_step t s s'))
    \<and> (\<forall>s'. caller_step t s s' \<longrightarrow> call_work t s' < call_work t s)
    \<and> (\<forall>s'. session_step e s s' \<longrightarrow> call_work t s' \<le> call_work t s)"
proof -
  define x where "x = ses_tasks s ! t"
  have x: "task_in t s x" using assms by (simp add: task_in_def x_def)
  have "\<exists>s'. caller_step t s s'" if "\<nexists>r. tk_phase x = Finished r"
    using that call_not_sent [OF x] call_not_replied [OF x] by (cases "tk_phase x") blast+
  moreover have "call_work t s = 0 \<longleftrightarrow> (\<exists>r. tk_phase x = Finished r)" "call_work t s \<le> 2"
    by (cases "tk_phase x"; simp add: call_work_def x_def)+
  ultimately show ?thesis
    using caller_progress step_work(1) [OF _ assms] by (simp add: x_def)
qed

section \<open>A session at work\<close>

definition demo_env :: broker_env where
  "demo_env =
    \<lparr>be_parse = (\<lambda>text.
       if text = ''r'' then Some (JObj [(''id'', JNum 2), (''result'', JStr ''ok'')])
       else if text = ''u'' then Some (JObj [(''params'', JObj [(''subscription'', JNum 7),
         (''result'', JObj [(''user_id'', JStr ''alice''), (''order'', JStr ''filled'')])])])
       else None),
     be_ss58 = (\<lambda>bs. ''key''), be_hex_decode = (\<lambda>x. None), be_blake2_256 = (\<lambda>bs. bs),
     be_from_utf8 = (\<lambda>bs. Some ''ws''), be_valid_uri = (\<lambda>x. True), be_mapping_code = 1, be_keys = [[1]],
     be_sign = (\<lambda>k m. Some ''sig''), be_encode_number = (\<lambda>n. [])\<rparr>"

text \<open>A request or a subscription, sent and answered with \<open>ok\<close>.\<close>

definition demo_call :: "session \<Rightarrow> session" where
  "demo_call s = take_reply 0 True (Inr (JStr ''ok'')) (on_text demo_env True ''r''
     (case tk_phase (ses_tasks s ! 0) of Sending p \<Rightarrow> outgoing True (send_done 0 p s) | _ \<Rightarrow> s))"

lemma demo_call_reachable:
  assumes "session_reachable demo_env s" and "ses_connected s" and "ses_tasks s = [x]" and "ses_queue s = []"
    and "tk_phase x = Sending p" and "tk_channel x = None" and "tk_id x = 2" and "ses_reqs s 2 = Some 0"
  shows "session_reachable demo_env (demo_call s)"
proof -
  have x: "task_in 0 s x" using assms(3) by (simp add: task_in_def)
  let ?s1 = "send_done 0 p s" and ?s2 = "outgoing True (send_done 0 p s)"
  let ?s3 = "on_text demo_env True ''r'' ?s2"
  have "session_reachable demo_env ?s1"
    using assms(1) by (rule reachable_step)
      (use x assms(4,5) in \<open>auto intro!: ses_caller call_sent simp: QUEUE_SIZE_def\<close>)
  then have "session_reachable demo_env ?s2"
    by (rule reachable_step) (rule ses_outgoing, simp add: send_done_def set_task_def assms(2))
  then have "session_reachable demo_env ?s3"
    by (rule reachable_step) (rule ses_text, simp add: send_done_def set_task_def outgoing_def assms(2,4))
  moreover have "task_in 0 ?s3 (x\<lparr>tk_phase := Waiting, tk_channel := Some (Inr (JStr ''ok''))\<rparr>)"
    using assms(3,4,8) by (simp add: on_text_def Let_def demo_env_def incoming_of_def rpc_reply_def hand_reply_def
        send_done_def set_task_def outgoing_def task_in_def)
  ultimately have "session_reachable demo_env (take_reply 0 True (Inr (JStr ''ok'')) ?s3)"
    by (elim reachable_step) (rule ses_caller, erule call_replied, simp_all)
  then show ?thesis by (simp add: demo_call_def assms(3,5))
qed

lemma connected_reachable: "session_reachable e (connect e True session_init)"
proof -
  have "session_reachable e session_init" by (rule reachable_init) simp
  then show ?thesis by (rule reachable_step) (rule ses_connect, simp add: session_init_def)
qed

lemma demo_started: "session_reachable demo_env (connect demo_env True session_init)"
  by (rule connected_reachable)

definition demo_request :: session where
  "demo_request = demo_call (relay ''trade'' JNull (connect demo_env True session_init))"

lemma demo_request_reachable: "session_reachable demo_env demo_request"
  unfolding demo_request_def
  by (rule demo_call_reachable [where p = "request 2 ''trade'' JNull"
        and x = "\<lparr>tk_kind = Relay, tk_id = 2, tk_phase = Sending (request 2 ''trade'' JNull), tk_channel = None\<rparr>"],
      rule reachable_step [OF demo_started ses_relay])
    (simp_all add: relay_def start_task_def Let_def connect_def demo_env_def get_broker_public_def session_init_def)

lemma demo_request_done:
  "ses_tasks demo_request = [\<lparr>tk_kind = Relay, tk_id = 2, tk_phase = Finished (Replied (Inr (JStr ''ok''))),
     tk_channel = Some (Inr (JStr ''ok''))\<rparr>]" "ses_received demo_request = [''r'']"
  by (simp_all add: demo_request_def demo_call_def relay_def start_task_def Let_def connect_def demo_env_def
      get_broker_public_def session_init_def on_text_def incoming_of_def rpc_reply_def hand_reply_def send_done_def
      set_task_def outgoing_def take_reply_def finish_def)

theorem replies_matched_witness:
  "session_reachable demo_env demo_request \<and> tk_phase (ses_tasks demo_request ! 0) = Finished (Replied (Inr (JStr ''ok'')))
    \<and> (\<exists>text\<in>set (ses_received demo_request). \<exists>v. be_parse demo_env text = Some v
        \<and> incoming_of v = ReplyTo 2 (Inr (JStr ''ok'')))"
proof -
  have "task_in 0 demo_request (ses_tasks demo_request ! 0)" by (simp add: task_in_def demo_request_done)
  from replies_matched [OF demo_request_reachable this, of "Inr (JStr ''ok'')"] show ?thesis
    using demo_request_reachable by (simp add: demo_request_done)
qed

definition demo_orders :: session where
  "demo_orders = on_text demo_env True ''u''
    (demo_call (multiplex demo_env ''alice'' ''s'' ''1'' ''key'' (connect demo_env True session_init)))"

lemma demo_orders_facts:
  "session_reachable demo_env demo_orders" "ses_delivered demo_orders = [(0, ''filled'')]"
proof -
  let ?s = "multiplex demo_env ''alice'' ''s'' ''1'' ''key'' (connect demo_env True session_init)"
  let ?p = "request 2 ''append_user'' (JArr [JStr ''alice'', JStr ''s'', JStr ''1'', JStr ''key''])"
  note defs = multiplex_def try_into_ss58_def starts_with_0x_def start_task_def Let_def connect_def demo_env_def
    get_broker_public_def session_init_def
  note more = on_text_def incoming_of_def rpc_reply_def hand_reply_def send_done_def set_task_def outgoing_def
    take_reply_def finish_def hand_order_def
  have "session_reachable demo_env (demo_call ?s)"
    by (rule demo_call_reachable [where p = ?p and x = "\<lparr>tk_kind = Multiplex ''alice'', tk_id = 2, tk_phase = Sending ?p, tk_channel = None\<rparr>"],
        rule reachable_step [OF demo_started ses_multiplex]) (simp_all add: defs)
  moreover have "ses_connected (demo_call ?s)" by (simp add: demo_call_def defs more)
  ultimately show "session_reachable demo_env demo_orders"
    unfolding demo_orders_def by (blast intro: reachable_step ses_text)
  show "ses_delivered demo_orders = [(0, ''filled'')]" by (simp add: demo_orders_def demo_call_def defs more)
qed

theorem orders_to_owner_witness:
  "session_reachable demo_env demo_orders \<and> (0, ''filled'') \<in> set (ses_delivered demo_orders)
    \<and> (\<exists>user x v. task_in 0 demo_orders x \<and> tk_kind x = Multiplex user \<and> tk_phase x = Finished (Accepted v))"
proof -
  have "(0, ''filled'') \<in> set (ses_delivered demo_orders)" by (simp add: demo_orders_facts(2))
  from orders_to_owner [OF demo_orders_facts(1) this] this show ?thesis using demo_orders_facts(1) by blast
qed

theorem callers_return_witness:
  "call_work 0 demo_request = 0 \<and> (\<exists>r. tk_phase (ses_tasks demo_request ! 0) = Finished r)"
proof -
  have "0 < length (ses_tasks demo_request)" by (simp add: demo_request_done)
  from callers_return [OF this] show ?thesis by (simp add: demo_request_done)
qed

section \<open>Requests the prover does not answer\<close>

text \<open>One request that is sent and times out waiting for its reply.\<close>

definition abandon :: "session \<Rightarrow> session" where
  "abandon s = (let t = length (ses_tasks s) in
     reply_timeout t (outgoing True (send_done t (request (ses_id s) ''trade'' JNull) (relay ''trade'' JNull s))))"

definition abandoned :: "broker_env \<Rightarrow> nat \<Rightarrow> session \<Rightarrow> bool" where
  "abandoned e n s \<longleftrightarrow> session_reachable e s \<and> ses_connected s \<and> ses_queue s = [] \<and> length (ses_tasks s) = n
    \<and> ses_id s = word_of_nat (n + 2)
    \<and> (\<forall>t<n. tk_id (ses_tasks s ! t) = word_of_nat (t + 2) \<and> ses_reqs s (word_of_nat (t + 2)) = Some t
        \<and> (\<exists>r. tk_phase (ses_tasks s ! t) = Finished r))"

lemma abandon_fields:
  "ses_connected (abandon s) = ses_connected s" "ses_queue s = [] \<Longrightarrow> ses_queue (abandon s) = []"
  "ses_id (abandon s) = ses_id s + 1" "ses_reqs (abandon s) = (ses_reqs s)(ses_id s \<mapsto> length (ses_tasks s))"
  "ses_tasks (abandon s) = ses_tasks s @ [\<lparr>tk_kind = Relay, tk_id = ses_id s,
     tk_phase = Finished (Replied (Inl (internal_rpc_error ''request timeout''))), tk_channel = None\<rparr>]"
  by (auto simp: abandon_def Let_def relay_def start_task_def send_done_def set_task_def outgoing_def
      reply_timeout_def finish_def split: list.splits)

lemma abandon_reachable:
  assumes "session_reachable e s" and "ses_connected s" and "ses_queue s = []"
  shows "session_reachable e (abandon s)"
proof -
  let ?t = "length (ses_tasks s)" and ?p = "request (ses_id s) ''trade'' JNull" and ?s1 = "relay ''trade'' JNull s"
  let ?x = "\<lparr>tk_kind = Relay, tk_id = ses_id s, tk_phase = Sending ?p, tk_channel = None\<rparr>"
  have "session_reachable e ?s1" by (rule reachable_step [OF assms(1) ses_relay])
  moreover have "task_in ?t ?s1 ?x" "length (ses_queue ?s1) < QUEUE_SIZE"
    by (simp_all add: task_in_def relay_def start_task_def Let_def assms(3) QUEUE_SIZE_def)
  ultimately have "session_reachable e (send_done ?t ?p ?s1)"
    by (elim reachable_step) (rule ses_caller, erule call_sent, simp_all)
  then have "session_reachable e (outgoing True (send_done ?t ?p ?s1))"
    by (rule reachable_step) (rule ses_outgoing,
      simp add: send_done_def set_task_def relay_def start_task_def Let_def assms(2))
  moreover have "task_in ?t (outgoing True (send_done ?t ?p ?s1)) (?x\<lparr>tk_phase := Waiting\<rparr>)"
    by (auto simp: task_in_def send_done_def set_task_def outgoing_def relay_def start_task_def Let_def split: list.splits)
  ultimately show ?thesis
    unfolding abandon_def Let_def by (elim reachable_step) (rule ses_caller, erule call_not_replied, simp)
qed

lemma abandon_step:
  assumes ab: "abandoned e n s" and n: "n + 3 < 2 ^ 64"
  shows "abandoned e (Suc n) (abandon s)"
proof -
  have "word_of_nat (t + 2) \<noteq> (word_of_nat (n + 2) :: u64)" if "t < n" for t
  proof
    assume eq: "word_of_nat (t + 2) = (word_of_nat (n + 2) :: u64)"
    have "unat (word_of_nat (t + 2) :: u64) = t + 2" "unat (word_of_nat (n + 2) :: u64) = n + 2"
      using that n by (simp_all only: unat_of_nat) simp_all
    with eq that show False by simp
  qed
  then show ?thesis
    using ab abandon_reachable [of e s]
    by (auto simp: abandoned_def abandon_fields nth_append less_Suc_eq add.commute)
qed

text \<open>
  C30. A request the prover does not answer is never forgotten. \<open>relay\<close> takes its entry back when it cannot
  send, but not when it has sent and times out waiting: for every number there is a run in which that
  many requests have all returned and every one of them still has its entry in the table.
\<close>

theorem unanswered_requests_stay:
  assumes "get_broker_public e \<noteq> None" and "n + 3 < 2 ^ 64"
  shows "\<exists>s. session_reachable e s \<and> length (ses_tasks s) = n
    \<and> (\<forall>t<n. (\<exists>r. tk_phase (ses_tasks s ! t) = Finished r) \<and> ses_reqs s (tk_id (ses_tasks s ! t)) = Some t)"
proof -
  have "\<exists>s. abandoned e n s"
    using assms(2)
  proof (induction n)
    case 0
    have "abandoned e 0 (connect e True session_init)"
      using assms(1) connected_reachable [of e] by (auto simp: abandoned_def connect_def session_init_def)
    then show ?case by blast
  next
    case (Suc n)
    then show ?case using abandon_step [of e n] by fastforce
  qed
  then show ?thesis by (auto simp: abandoned_def)
qed

theorem unanswered_requests_stay_witness:
  "\<exists>s. session_reachable demo_env s \<and> length (ses_tasks s) = 5 \<and> (\<forall>t<5. ses_reqs s (tk_id (ses_tasks s ! t)) = Some t)"
proof -
  have "get_broker_public demo_env \<noteq> None" by (simp add: demo_env_def get_broker_public_def)
  from unanswered_requests_stay [OF this, of 5] show ?thesis by auto
qed

end
