(* ===== verification/Chain.thy ===== *)
theory Chain
  imports Runtime Foundation Tournament
begin

text \<open>
  \<open>runtime/src/lib.rs\<close>, the whole composition: the runtime of \<open>Runtime\<close> together with the vault of the
  foundation and the tournament, which no pallet of that runtime calls. They work on the same ledgers, so
  their operations run on a view: the ledger part of the runtime's storage extended with the storage of the
  pallet, and the part above the ledgers stays as it is.

  Proposals of the bridge, callbacks and calls through the agent dispatch the calls of \<open>Runtime\<close>; a dispatch
  of a vault or tournament call from there is modelled as an extrinsic of its own with the same origin.
\<close>

type_synonym vault_storage = "unit foundation_state_ext"
type_synonym tournament_storage = "unit tournament_state_ext"

record 'n chain_state =
  runtime :: "'n runtime_state"
  vault :: vault_storage
  games :: tournament_storage

record 'n chain_params =
  cp_runtime :: "'n runtime_params"
  cp_duration :: block_number
  cp_tournament :: "'n tournament_config"

definition foundation_config_of :: "'n chain_params \<Rightarrow> 'n foundation_config" where
  "foundation_config_of C = \<lparr>fnd_currency = currency (rt_token (cp_runtime C)), fnd_duration = cp_duration C\<rparr>"

definition tournament_config_of :: "'n chain_params \<Rightarrow> 'n tournament_config" where
  "tournament_config_of C = (cp_tournament C)
    \<lparr>tn_token := rt_token (cp_runtime C), tn_bridge := rt_bridge (cp_runtime C),
     tn_arithmetic := lib_arithmetic (rt_libs (cp_runtime C))\<rparr>"

section \<open>The views\<close>

definition vault_view :: "'n chain_state \<Rightarrow> 'n foundation_state" where
  "vault_view ch = token_state.extend (token_state.truncate (world (runtime ch))) (vault ch)"

definition put_vault :: "'n foundation_state \<Rightarrow> 'n chain_state \<Rightarrow> 'n chain_state" where
  "put_vault v ch = ch
    \<lparr>runtime := (runtime ch)\<lparr>world := token_state.extend (token_state.truncate v) (token_state.more (world (runtime ch)))\<rparr>,
     vault := token_state.more v\<rparr>"

definition on_vault ::
  "('n foundation_state \<Rightarrow> 'n foundation_state result) \<Rightarrow> 'n chain_state \<Rightarrow> 'n chain_state result" where
  "on_vault f ch = and_then (f (vault_view ch)) (\<lambda>v. Inr (put_vault v ch))"

definition games_view :: "'n chain_state \<Rightarrow> 'n tournament_state" where
  "games_view ch = oracle_state.extend (oracle_state.truncate (world (runtime ch))) (games ch)"

definition put_games :: "'n tournament_state \<Rightarrow> 'n chain_state \<Rightarrow> 'n chain_state" where
  "put_games g ch = ch
    \<lparr>runtime := (runtime ch)\<lparr>world := oracle_state.extend (oracle_state.truncate g) (oracle_state.more (world (runtime ch)))\<rparr>,
     games := oracle_state.more g\<rparr>"

definition on_games ::
  "('n tournament_state \<Rightarrow> 'n tournament_state result) \<Rightarrow> 'n chain_state \<Rightarrow> 'n chain_state result" where
  "on_games f ch = and_then (f (games_view ch)) (\<lambda>g. Inr (put_games g ch))"

definition on_runtime ::
  "('n runtime_state \<Rightarrow> 'n runtime_state result) \<Rightarrow> 'n chain_state \<Rightarrow> 'n chain_state result" where
  "on_runtime f ch = and_then (f (runtime ch)) (\<lambda>s. Inr (ch\<lparr>runtime := s\<rparr>))"

section \<open>Calls and blocks\<close>

datatype chain_call =
    RuntimeCall runtime_call
  | PutIntoVault account foundation_data bool
  | ApproveRelease account u32
  | TournamentCall tournament_call

fun run_chain_call ::
  "'n chain_params \<Rightarrow> nat \<Rightarrow> chain_call \<Rightarrow> origin \<Rightarrow> 'n chain_state \<Rightarrow> 'n chain_state result" where
  "run_chain_call C n (RuntimeCall call) o' ch =
    on_runtime (run_runtime_call (cp_runtime C) (nested_dispatch (cp_runtime C) n) call o') ch"
| "run_chain_call C n (PutIntoVault a f need) o' ch =
    on_vault (put_into_vault (foundation_config_of C) o' a f need) ch"
| "run_chain_call C n (ApproveRelease a e) o' ch = on_vault (approve o' a e) ch"
| "run_chain_call C n (TournamentCall call) o' ch =
    on_games (run_tournament_call (tournament_config_of C) call o') ch"

text \<open>
  The start of a block: the system sets the number, then the hooks run in the order of the pallets, the vault
  before the verifier.
\<close>

definition set_number :: "block_number \<Rightarrow> 'n chain_state \<Rightarrow> 'n chain_state" where
  "set_number now ch = ch\<lparr>runtime := (runtime ch)\<lparr>world := (world (runtime ch))\<lparr>block_number := now\<rparr>\<rparr>\<rparr>"

definition begin_chain_block ::
  "'n chain_params \<Rightarrow> nat \<Rightarrow> block_number \<Rightarrow> 'n chain_state \<Rightarrow> 'n chain_state result" where
  "begin_chain_block C n now ch =
    and_then (on_vault (foundation_initialize (foundation_config_of C) now) (set_number now ch))
      (on_runtime (begin_block (cp_runtime C) n now))"

fun apply_chain_extrinsics ::
  "'n chain_params \<Rightarrow> nat \<Rightarrow> (chain_call \<times> origin) list \<Rightarrow> 'n chain_state \<Rightarrow> 'n chain_state result" where
  "apply_chain_extrinsics C n [] ch = Inr ch"
| "apply_chain_extrinsics C n ((call, o') # xs) ch =
    and_then (drop_error ch (run_chain_call C n call o' ch)) (apply_chain_extrinsics C n xs)"

definition execute_chain_block ::
  "'n chain_params \<Rightarrow> nat \<Rightarrow> block_number \<Rightarrow> (chain_call \<times> origin) list
    \<Rightarrow> 'n chain_state \<Rightarrow> 'n chain_state result" where
  "execute_chain_block C n now xs ch = and_then (begin_chain_block C n now ch) (apply_chain_extrinsics C n xs)"

section \<open>Reading the views\<close>

lemma config_of_simps' [simp]:
  "fnd_currency (foundation_config_of C) = currency (rt_token (cp_runtime C))"
  "fnd_duration (foundation_config_of C) = cp_duration C"
  "tn_token (tournament_config_of C) = rt_token (cp_runtime C)"
  by (simp_all add: foundation_config_of_def tournament_config_of_def)

lemma vault_view_simps [simp]:
  "native (vault_view ch) = native (world (runtime ch))"
  "block_number (vault_view ch) = block_number (world (runtime ch))"
  "token_balances (vault_view ch) = token_balances (world (runtime ch))"
  "token_state.more (vault_view ch) = vault ch"
  by (simp_all add: vault_view_def token_state.extend_def token_state.truncate_def)

lemma put_vault_simps [simp]:
  "native (world (runtime (put_vault v ch))) = native v"
  "block_number (world (runtime (put_vault v ch))) = block_number v"
  "token_balances (world (runtime (put_vault v ch))) = token_balances v"
  "token_state.more (world (runtime (put_vault v ch))) = token_state.more (world (runtime ch))"
  "reserves (runtime (put_vault v ch)) = reserves (runtime ch)"
  "receipts (runtime (put_vault v ch)) = receipts (runtime ch)"
  "vault (put_vault v ch) = token_state.more v" "games (put_vault v ch) = games ch"
  by (simp_all add: put_vault_def token_state.extend_def token_state.truncate_def)

lemma games_view_simps [simp]:
  "native (games_view ch) = native (world (runtime ch))"
  "block_number (games_view ch) = block_number (world (runtime ch))"
  "token_balances (games_view ch) = token_balances (world (runtime ch))"
  "oracle_state.more (games_view ch) = games ch"
  by (simp_all add: games_view_def oracle_state.extend_def oracle_state.truncate_def)

lemma put_games_simps [simp]:
  "native (world (runtime (put_games g ch))) = native g"
  "block_number (world (runtime (put_games g ch))) = block_number g"
  "token_balances (world (runtime (put_games g ch))) = token_balances g"
  "oracle_state.more (world (runtime (put_games g ch))) = oracle_state.more (world (runtime ch))"
  "reserves (runtime (put_games g ch)) = reserves (runtime ch)"
  "receipts (runtime (put_games g ch)) = receipts (runtime ch)"
  "vault (put_games g ch) = vault ch" "games (put_games g ch) = oracle_state.more g"
  by (simp_all add: put_games_def oracle_state.extend_def oracle_state.truncate_def)

section \<open>The laws of the views\<close>

text \<open>
  What is put is what is seen, nothing changes when what is seen is put back, and the last put counts: so
  operations through a view compose like the operations on the storage they see.
\<close>

locale storage_view =
  fixes view :: "'c \<Rightarrow> 'v" and put :: "'v \<Rightarrow> 'c \<Rightarrow> 'c"
  assumes view_put: "view (put v c) = v"
    and put_view: "put (view c) c = c"
    and put_put: "put v (put u c) = put v c"
begin

lemma lifted_Inr: "and_then (f (view c)) (\<lambda>v. Inr (put v c)) = Inr c' \<longleftrightarrow> f (view c) = Inr (view c') \<and> c' = put (view c') c"
  by (auto simp: and_then_Inr view_put)

lemma lifted_then:
  "and_then (and_then (f (view c)) (\<lambda>v. Inr (put v c))) (\<lambda>c. and_then (g (view c)) (\<lambda>v. Inr (put v c)))
    = and_then (and_then (f (view c)) g) (\<lambda>v. Inr (put v c))"
  by (cases "f (view c)") (simp_all add: view_put put_put)

end

lemma token_views:
  "token_state.extend (token_state.truncate w) (token_state.more w) = w"
  "token_state.truncate (token_state.extend (token_state.truncate w) m) = token_state.truncate w"
  "token_state.more (token_state.extend (token_state.truncate w) m) = m"
  by (cases w, simp add: token_state.extend_def token_state.truncate_def)+

lemma oracle_views:
  "oracle_state.extend (oracle_state.truncate w) (oracle_state.more w) = w"
  "oracle_state.truncate (oracle_state.extend (oracle_state.truncate w) m) = oracle_state.truncate w"
  "oracle_state.more (oracle_state.extend (oracle_state.truncate w) m) = m"
  by (cases w, simp add: oracle_state.extend_def oracle_state.truncate_def)+

interpretation vault_storage: storage_view vault_view put_vault
  by unfold_locales (simp_all add: vault_view_def put_vault_def token_views)

interpretation games_storage: storage_view games_view put_games
  by unfold_locales (simp_all add: games_view_def put_games_def oracle_views)

end
