(* ===== verification/Mall.thy ===== *)
theory Mall
  imports Primitives
begin

text \<open>
  \<open>pallets/abyss-mall/src/lib.rs\<close>: the pallet has no storage and one call. It takes an amount and a number of
  days and uses neither.
\<close>

definition stake_awt :: "origin \<Rightarrow> u128 \<Rightarrow> u16 \<Rightarrow> 's \<Rightarrow> 's result" where
  "stake_awt o' awt_amount days s = and_then (ensure_signed o') (\<lambda>who. Inr s)"

lemma stake_awt_keeps: "stake_awt o' v d s = Inr s' \<Longrightarrow> s' = s"
  by (simp add: stake_awt_def and_then_Inr)

end
