(* ===== verification/Deployment.thy ===== *)
theory Deployment
  imports Chain Mall
begin

text \<open>
  \<open>runtime/src/constants.rs\<close> and the \<open>parameter_types!\<close> of \<open>runtime/src/lib.rs\<close>: the constants with which the
  pallets are deployed. \<open>deploy\<close> puts them into a configuration of the runtime, whose libraries (currency,
  lookup, hashes, decoders, accounts derived from pallet ids) stay as they are.
\<close>

section \<open>Units\<close>

definition MILLICENTS :: u128 where "MILLICENTS = 10000000000000"
definition CENTS :: u128 where "CENTS = 1000 * MILLICENTS"
definition DOLLARS :: u128 where "DOLLARS = 100 * CENTS"
definition TAO :: u128 where "TAO = 1000000000000000000"

definition MILLISECS_PER_BLOCK :: u64 where "MILLISECS_PER_BLOCK = 6000"
definition SECS_PER_BLOCK :: u64 where "SECS_PER_BLOCK = MILLISECS_PER_BLOCK div 1000"
definition MINUTES :: block_number where "MINUTES = 60 div ucast SECS_PER_BLOCK"
definition HOURS :: block_number where "HOURS = MINUTES * 60"
definition DAYS :: block_number where "DAYS = HOURS * 24"
definition MONTHS :: block_number where "MONTHS = DAYS * 30"

text \<open>The value of the blocks, with the assertion \<open>DAYS % 20 == 0\<close> of the runtime.\<close>

lemma DAYS_eq: "DAYS = 14400" and MONTHS_eq: "MONTHS = 432000"
  by (simp_all add: MONTHS_def DAYS_def HOURS_def MINUTES_def SECS_PER_BLOCK_def MILLISECS_PER_BLOCK_def)

lemma DAYS_assertion: "DAYS mod 20 = 0"
  by (simp add: DAYS_eq)

section \<open>Accounts and origins\<close>

definition TREASURY :: account where
  "TREASURY = 0x36e5fc3abd178f8823ec53a94fb03873779fa85d61f03a95901a4bde1eca1626"

definition BRIDGE_ADMIN :: account where
  "BRIDGE_ADMIN = 0x9653992f8241ee51bb578076a1af026b74e08c1c0d53164fc880a4ae5442334c"

definition BRIDGE_ADMIN1 :: account where
  "BRIDGE_ADMIN1 = 0x5e6197279237e048a53e59b25c50e7e48de9d1c76c7077d5f33b8fcde4af873f"

definition BVB_ORGANIZER :: account where
  "BVB_ORGANIZER = 0x4a390a4c6da1c32cff91183a861cab95f313dafa017c5fe0a7726976097e0c4e"

definition SWAP_POOL_ACCOUNT :: account where
  "SWAP_POOL_ACCOUNT = 0x1636e5823e75c71f9f05ec07f36ba0c7bce26e700239d032891c6e7b99a89042"

definition BVB_TREASURY :: account where
  "BVB_TREASURY = 0x760409da47a69ccab6ee4dd81ccf829fa05c14e25df43e2af556dc683f93c6dc"

definition bridge_admin_members :: "account list" where
  "bridge_admin_members = [BRIDGE_ADMIN, BRIDGE_ADMIN1]"

definition treasury_members :: "account list" where "treasury_members = [TREASURY]"

definition bvb_organizer_members :: "account list" where "bvb_organizer_members = [BVB_ORGANIZER]"

definition signed_by_member :: "account list \<Rightarrow> origin \<Rightarrow> bool" where
  "signed_by_member ms o' = (case o' of SignedOrigin a \<Rightarrow> List.member ms a | _ \<Rightarrow> False)"

text \<open>\<open>derive_resource_id(FusotaoChainId, 0, b"TAO").unwrap()\<close>; that it does not panic is proved below.\<close>

definition FUSOTAO_CHAIN_ID :: chain_id where "FUSOTAO_CHAIN_ID = 42"

definition native_resource_id :: resource_id where
  "native_resource_id = (case derive_resource_id FUSOTAO_CHAIN_ID 0 [84, 65, 79] of Inr r \<Rightarrow> r | Inl _ \<Rightarrow> [])"

lemma native_resource_id_unwraps: "derive_resource_id FUSOTAO_CHAIN_ID 0 [84, 65, 79] = Inr native_resource_id"
  using derive_resource_id_ok [of FUSOTAO_CHAIN_ID 0 "[84, 65, 79]"] by (auto simp: native_resource_id_def)

section \<open>The pallets\<close>

definition deploy_token :: "'n token_config \<Rightarrow> 'n token_config" where
  "deploy_token c = c
    \<lparr>near_chain_id := 255, eth_chain_id := 1, bnb_chain_id := 56, native_chain_id := 42, polygon_chain_id := 137,
     native_id := 0, burn_tao_when_issue := 10 * TAO, token_admin_origin := signed_by_member bridge_admin_members\<rparr>"

definition deploy_bridge :: "bridge_config \<Rightarrow> bridge_config" where
  "deploy_bridge c = c
    \<lparr>br_admin_origin := signed_by_member bridge_admin_members, br_chain_id := FUSOTAO_CHAIN_ID,
     br_proposal_lifetime := 48 * HOURS, br_native_resource_id := native_resource_id, br_treasury := TREASURY\<rparr>"

definition deploy_handler :: "'n handler_config \<Rightarrow> 'n handler_config" where
  "deploy_handler c = c
    \<lparr>hd_admin_origin := signed_by_member bridge_admin_members, hd_native_max := 30000000 * TAO, hd_donor := 0,
     hd_donation := 1 * TAO\<rparr>"

definition deploy_reward :: "'n reward_config \<Rightarrow> 'n reward_config" where
  "deploy_reward c = c
    \<lparr>era_duration := DAYS, time_coefficient_zoom := 720, reward_terminate_at := 1825 * DAYS,
     treasury_origin := signed_by_member treasury_members\<rparr>"

definition deploy_bot :: "'n bot_config \<Rightarrow> 'n bot_config" where
  "deploy_bot c = c\<lparr>bot_staking_threshold := 5000 * DOLLARS\<rparr>"

definition deploy_verifier :: "verifier_params \<Rightarrow> verifier_params" where
  "deploy_verifier p = p
    \<lparr>dominator_online_threshold := 80000 * DOLLARS, season_duration := 3 * DAYS,
     minimal_staking_amount := 100 * DOLLARS, dominator_check_grace_period := 20, max_taker_fee := 10000,
     max_maker_fee := 10000\<rparr>"

definition deploy_market :: "'n market_config \<Rightarrow> 'n market_config" where
  "deploy_market c = c\<lparr>broker_staking_threshold := 50000 * TAO, market_close_grace_period := 14400\<rparr>"

definition deploy_agent :: "('n, 'p) agent_config \<Rightarrow> ('n, 'p) agent_config" where
  "deploy_agent c = c\<lparr>ag_network := 1, ag_byte_fee := 100000000\<rparr>"

definition deploy_foundation :: "'n foundation_config \<Rightarrow> 'n foundation_config" where
  "deploy_foundation c = c\<lparr>fnd_duration := MONTHS\<rparr>"

definition deploy_tournament :: "'n tournament_config \<Rightarrow> 'n tournament_config" where
  "deploy_tournament c = c
    \<lparr>tn_organizer_origin := signed_by_member bvb_organizer_members, tn_awt := 15, tn_max_tickets := 99,
     tn_min_betting := 100 * TAO, tn_donor := 0, tn_donation := 1 * TAO, tn_max_participants := 10000000,
     tn_bvb_treasury := BVB_TREASURY, tn_bvb_organizer := BVB_ORGANIZER, tn_swap_pool := SWAP_POOL_ACCOUNT\<rparr>"

definition deploy :: "'n runtime_params \<Rightarrow> 'n runtime_params" where
  "deploy R = R
    \<lparr>rt_token := deploy_token (rt_token R), rt_reward := deploy_reward (rt_reward R),
     rt_market := deploy_market (rt_market R), rt_verifier := deploy_verifier (rt_verifier R),
     rt_bridge := deploy_bridge (rt_bridge R), rt_handler := deploy_handler (rt_handler R),
     rt_bot := deploy_bot (rt_bot R), rt_agent := deploy_agent (rt_agent R)\<rparr>"

text \<open>The whole chain: the vault counts in months.\<close>

definition deploy_chain :: "'n chain_params \<Rightarrow> 'n chain_params" where
  "deploy_chain C = C
    \<lparr>cp_runtime := deploy (cp_runtime C), cp_duration := MONTHS, cp_tournament := deploy_tournament (cp_tournament C)\<rparr>"

lemma deploy_chain_simps [simp]:
  "cp_runtime (deploy_chain C) = deploy (cp_runtime C)" "cp_duration (deploy_chain C) = MONTHS"
  by (simp_all add: deploy_chain_def)

lemma deployed_vault: "foundation_config_of (deploy_chain C) = deploy_foundation (foundation_config_of C)"
  by (simp add: foundation_config_of_def deploy_chain_def deploy_def deploy_token_def deploy_foundation_def)

lemma deploy_simps [simp]:
  "currency (rt_token (deploy R)) = currency (rt_token R)" "native_id (rt_token (deploy R)) = 0"
  "season_duration (rt_verifier (deploy R)) = 43200" "dominator_check_grace_period (rt_verifier (deploy R)) = 20"
  by (simp_all add: deploy_def deploy_token_def deploy_verifier_def DAYS_eq)

end
