(* ===== verification/Runtime_Schedule.thy ===== *)
theory Runtime_Schedule
  imports Staking_Correct
begin

text \<open>
  The calendar of the runtime: the block hook looks at pending releases and at ends of seasons only in blocks
  whose number is a multiple of the grace period. Dominators start at such blocks, and what is booked for a
  block stays booked until that block begins.
\<close>

section \<open>Blocks\<close>

lemma release_all_frame:
  "release_all (runtime_config R dp) rs s = Inr s' \<Longrightarrow>
    bonuses s' = bonuses s \<and> pending_unstakings s' = pending_unstakings s
    \<and> block_number (world s') = block_number (world s)"
proof (induction rs arbitrary: s)
  case (Cons p rs)
  let ?c = "runtime_config R dp"
  obtain a v where p: "p = (a, v)" by (cases p)
  obtain s1 where run: "release_all ?c rs s1 = Inr s'"
    and s1: "s1 = s \<or> (\<exists>s0. vf_unreserve ?c RESERVE_FOR_PENDING_UNSTAKE a (native_token_id ?c) v
        (verifier_system_account (vc_params ?c)) s = Inr s0
      \<and> s1 = deposit_verifier (TaoUnstakeUnlock a v) s0)"
    using Cons.prems unfolding p by (rule release_all_step)
  from s1 have "bonuses s1 = bonuses s \<and> pending_unstakings s1 = pending_unstakings s
    \<and> block_number (world s1) = block_number (world s)"
    using ledger_block(2) by (auto simp: vf_unreserve_Inr)
  with Cons.IH [OF run] show ?case by simp
qed simp

lemma begin_block_number: "begin_block R n now s = Inr s' \<Longrightarrow> block_number (world s') = now"
  unfolding begin_block_def
  by (erule on_initialize_Inr)
    (auto dest!: release_all_frame close_seasons_frame simp: only_bonusesD)

lemma begin_block_pending:
  assumes "begin_block R n now s = Inr s'" and "u \<noteq> now"
  shows "pending_unstakings s' u = pending_unstakings s u"
  using assms unfolding begin_block_def
  by (auto elim!: on_initialize_Inr dest!: release_all_frame)

section \<open>Booked releases stay booked\<close>

definition bookings_grow :: "('w, 'cb) verifier_state \<Rightarrow> ('w, 'cb) verifier_state \<Rightarrow> bool" where
  "bookings_grow s s' \<longleftrightarrow> (\<forall>a u. pending_of a u s \<le> pending_of a u s')"

lemma bookings_same: "pending_unstakings s' = pending_unstakings s \<Longrightarrow> bookings_grow s s'"
  by (simp add: bookings_grow_def pending_of_def)

lemma bookings_unstake:
  assumes "unstake_from c a dmn v s = Inr s'"
  shows "bookings_grow s s'"
  using assms
proof (cases rule: unstake_from_Inr)
  case (1 d tot st remain s1 s2 sn rm y s3)
  then show ?thesis by (auto simp: bookings_grow_def pending_of_def update_conv')
qed

lemma bookings_calls:
  "register c o' name s = Inr s' \<Longrightarrow> bookings_grow s s'"
  "evict c o' src s = Inr s' \<Longrightarrow> bookings_grow s s'"
  "launch c o' src s = Inr s' \<Longrightarrow> bookings_grow s s'"
  "stake_on c a dmn v s = Inr s' \<Longrightarrow> bookings_grow s s'"
  "claim_shares c o' src s = Inr s' \<Longrightarrow> bookings_grow s s'"
  by (auto simp: evict_def launch_def result_simps put_dominator_def only_worldD
      elim!: register_Inr stake_on_Inr claim_shares_Inr intro!: bookings_same split: if_splits)

lemma bookings_trans: "bookings_grow s t \<Longrightarrow> bookings_grow t u \<Longrightarrow> bookings_grow s u"
  unfolding bookings_grow_def by (meson order_trans)

interpretation bookings: runtime_call_frame R bookings_grow for R :: "'n runtime_params"
  by (rule runtime_call_frame.intro)
    ((erule (1) bookings_trans | erule bookings_unstake bookings_calls
      | simp add: same_stakes_def put_dominator_def bookings_same)+)

lemma bookings_step:
  assumes "runtime_step R n s s'" and "block_number (world s') \<noteq> u"
  shows "pending_of a u s \<le> pending_of a u s'"
  using assms(1)
proof cases
  case (step_call call o')
  then have "bookings_grow s s'" by (rule bookings.Q_step_call)
  then show ?thesis by (simp add: bookings_grow_def)
next
  case (step_block now)
  then show ?thesis
    using begin_block_number [OF step_block] begin_block_pending [OF step_block] assms(2) by (auto simp: pending_of_def)
qed (simp add: pending_of_def)

lemma bookings_run:
  "run_of (runtime_step R n) s ts \<Longrightarrow> \<forall>t\<in>set ts. block_number (world t) \<noteq> u
    \<Longrightarrow> pending_of a u s \<le> pending_of a u (last (s # ts))"
proof (induction ts arbitrary: s)
  case (Cons t ts)
  then have "pending_of a u s \<le> pending_of a u t" by (auto dest: bookings_step)
  also have "\<dots> \<le> pending_of a u (last (t # ts))" using Cons by simp
  finally show ?case by simp
qed simp

section \<open>Seasons start at visited blocks\<close>

definition aligned :: "('w, 'cb) verifier_config \<Rightarrow> ('w, 'cb) verifier_state \<Rightarrow> bool" where
  "aligned c s \<longleftrightarrow> distinct (List.map fst (dominators s))
    \<and> (\<forall>dmn d. get_dominator dmn s = Some d \<longrightarrow> dom_start d mod dominator_check_grace_period (vc_params c) = 0)"

definition stays_aligned :: "('w, 'cb) verifier_config \<Rightarrow> ('w, 'cb) verifier_state \<Rightarrow> ('w, 'cb) verifier_state \<Rightarrow> bool" where
  "stays_aligned c s s' \<longleftrightarrow> (aligned c s \<longrightarrow> aligned c s')"

lemma stays_aligned_trans: "stays_aligned c s t \<Longrightarrow> stays_aligned c t u \<Longrightarrow> stays_aligned c s u"
  by (simp add: stays_aligned_def)

lemma aligned_same: "dominators s' = dominators s \<Longrightarrow> stays_aligned c s s'"
  by (simp add: stays_aligned_def aligned_def get_dominator_def)

lemma aligned_update:
  assumes "dominators s' = AList.update dmn d (dominators s)"
    and "aligned c s \<Longrightarrow> dom_start d mod dominator_check_grace_period (vc_params c) = 0"
  shows "stays_aligned c s s'"
  using assms get_dominator_update [OF assms(1)] by (auto simp: stays_aligned_def aligned_def distinct_update)

lemma aligned_put:
  assumes "dominators s' = AList.update dmn d' (dominators s)" and "get_dominator dmn s = Some d"
    and "dom_start d' = dom_start d"
  shows "stays_aligned c s s'"
  using assms by (intro aligned_update [OF assms(1)]) (auto simp: aligned_def)

lemma round_down_mod: "(b - b mod g) mod g = (0 :: 'a::len word)"
proof -
  have "unat (b - b mod g) = unat b - unat b mod unat g"
    by (simp add: unat_sub word_le_nat_alt unat_mod)
  then have "unat ((b - b mod g) mod g) = 0" by (simp add: unat_mod)
  then show ?thesis by (simp only: unat_eq_0)
qed

lemma aligned_register:
  assumes "register c o' name s = Inr s'"
  shows "stays_aligned c s s'"
proof -
  obtain dmn d where "dominators s' = AList.update dmn d (dominators s)"
    and "dom_start d mod dominator_check_grace_period (vc_params c) = 0"
    using assms
    by (auto simp: register_def Let_def ensure_Inr and_then_Inr ensure_signed_Inr word_rem_Inr put_dominator_def
        round_down_mod)
  then show ?thesis by (intro aligned_update)
qed

lemma aligned_calls:
  "evict c o' src s = Inr s' \<Longrightarrow> stays_aligned c s s'"
  "launch c o' src s = Inr s' \<Longrightarrow> stays_aligned c s s'"
  "stake_on c a dmn v s = Inr s' \<Longrightarrow> stays_aligned c s s'"
  "unstake_from c a dmn v s = Inr s' \<Longrightarrow> stays_aligned c s s'"
  "claim_shares c o' src s = Inr s' \<Longrightarrow> stays_aligned c s s'"
proof -
  show "evict c o' src s = Inr s' \<Longrightarrow> stays_aligned c s s'"
    by (auto simp: evict_def result_simps put_dominator_def intro!: aligned_put split: if_splits)
  show "launch c o' src s = Inr s' \<Longrightarrow> stays_aligned c s s'"
    by (auto simp: launch_def result_simps put_dominator_def intro!: aligned_put split: if_splits)
  show "stake_on c a dmn v s = Inr s' \<Longrightarrow> stays_aligned c s s'"
    by (erule stake_on_Inr) (erule (1) aligned_put, simp)
  show "unstake_from c a dmn v s = Inr s' \<Longrightarrow> stays_aligned c s s'"
    by (erule unstake_from_Inr) (erule (1) aligned_put, simp)
  show "claim_shares c o' src s = Inr s' \<Longrightarrow> stays_aligned c s s'"
    by (erule claim_shares_Inr) (rule aligned_same, simp add: only_worldD)
qed

lemma aligned_block: "on_initialize c now s = Inr s' \<Longrightarrow> stays_aligned c s s'"
  by (erule on_initialize_Inr)
    (auto dest!: release_all_dominators close_seasons_frame simp: only_bonusesD intro!: aligned_same)

text \<open>Nothing here depends on the dispatch.\<close>

abbreviation runtime_aligned :: "'n runtime_params \<Rightarrow> 'n runtime_state \<Rightarrow> bool" where
  "runtime_aligned R \<equiv> aligned (runtime_config R (nested_dispatch R 0))"

lemma stays_aligned_config:
  "stays_aligned (runtime_config R dp) s s' = stays_aligned (runtime_config R (nested_dispatch R 0)) s s'"
  by (simp add: stays_aligned_def aligned_def)

interpretation calendar: runtime_frame R "stays_aligned (runtime_config R (nested_dispatch R 0))"
  for R :: "'n runtime_params"
proof unfold_locales
  fix dp a dmn v o' src name now d r q and s s' :: "'n runtime_state"
  let ?Q = "stays_aligned (runtime_config R (nested_dispatch R 0))"
  note config = stays_aligned_config [of R dp, symmetric]
  show "?Q s s'" if "register (runtime_config R dp) o' name s = Inr s'"
    using aligned_register [OF that] by (simp only: config)
  show "?Q s s'" if "evict (runtime_config R dp) o' src s = Inr s'"
    using aligned_calls(1) [OF that] by (simp only: config)
  show "?Q s s'" if "launch (runtime_config R dp) o' src s = Inr s'"
    using aligned_calls(2) [OF that] by (simp only: config)
  show "?Q s s'" if "stake_on (runtime_config R dp) a dmn v s = Inr s'"
    using aligned_calls(3) [OF that] by (simp only: config)
  show "?Q s s'" if "unstake_from (runtime_config R dp) a dmn v s = Inr s'"
    using aligned_calls(4) [OF that] by (simp only: config)
  show "?Q s s'" if "claim_shares (runtime_config R dp) o' src s = Inr s'"
    using aligned_calls(5) [OF that] by (simp only: config)
  show "?Q s s'" if "on_initialize (runtime_config R dp) now s = Inr s'"
    using aligned_block [OF that] by (simp only: config)
  show "?Q s (put_dominator dmn (d\<lparr>merkle_root := r, dom_sequence := q\<rparr>) s)" if "get_dominator dmn s = Some d"
    by (rule aligned_put [where d' = "d\<lparr>merkle_root := r, dom_sequence := q\<rparr>", OF _ that])
      (simp_all add: put_dominator_def)
qed (auto simp: same_stakes_def intro: aligned_same stays_aligned_trans)

interpretation calendar_system:
  invariant_system runtime_genesis "runtime_step R n" "runtime_aligned R" for R :: "'n runtime_params" and n
  by unfold_locales
    (simp add: runtime_genesis_def aligned_def get_dominator_def, use calendar.Q_step in \<open>auto simp: stays_aligned_def\<close>)

section \<open>The end of a season\<close>

lemma close_seasons_step:
  assumes "close_seasons c now ((x, d) # ds) s = Inr s'"
  defines "len \<equiv> season_duration (vc_params c)"
  defines "k \<equiv> (now - dom_start d) div len - 1"
  obtains b where "close_seasons c now ds (s\<lparr>bonuses := b\<rparr>) = Inr s'"
    and "b = (if now \<noteq> dom_start d \<and> (now - dom_start d) mod len = 0
      then (bonuses s)((x, k) := (bonuses s (x, k))\<lparr>bonus_staked := dom_staked d\<rparr>) else bonuses s)"
proof -
  have same: "s\<lparr>bonuses := bonuses s\<rparr> = s" by (cases s) simp
  show thesis
  proof (cases "now = dom_start d")
    case True
    then show thesis using assms(1) that same by simp
  next
    case False
    have "and_then (word_rem (now - dom_start d) len) (\<lambda>rm. if rm = 0
        then close_seasons c now ds (s\<lparr>bonuses := (bonuses s)((x, k) :=
          (bonuses s (x, k))\<lparr>bonus_staked := dom_staked d\<rparr>)\<rparr>)
        else close_seasons c now ds s) = Inr s'"
      using assms(1) unfolding close_seasons.simps if_not_P [OF False] k_def len_def Let_def by assumption
    then obtain rm where "word_rem (now - dom_start d) len = Inr rm"
      and "(if rm = 0
        then close_seasons c now ds (s\<lparr>bonuses := (bonuses s)((x, k) :=
          (bonuses s (x, k))\<lparr>bonus_staked := dom_staked d\<rparr>)\<rparr>)
        else close_seasons c now ds s) = Inr s'"
      unfolding and_then_Inr by (elim exE conjE)
    moreover from this(1) have "rm = (now - dom_start d) mod len" by (simp add: word_rem_Inr)
    ultimately show thesis
      using False same that [of "if rm = 0 then (bonuses s)((x, k) := (bonuses s (x, k))\<lparr>bonus_staked := dom_staked d\<rparr>)
          else bonuses s"]
      by (simp split: if_splits)
  qed
qed

lemma close_seasons_other:
  "close_seasons c now ds s = Inr s' \<Longrightarrow> dmn \<notin> fst ` set ds \<Longrightarrow> bonuses s' (dmn, k) = bonuses s (dmn, k)"
proof (induction ds arbitrary: s)
  case (Cons p ds)
  obtain x d where p: "p = (x, d)" by (cases p)
  from Cons.prems(1) show ?case
    unfolding p by (rule close_seasons_step) (use Cons.IH Cons.prems(2) p in \<open>fastforce split: if_splits\<close>)
qed simp

lemma close_seasons_at_end:
  assumes "close_seasons c now ds s = Inr s'" and "distinct (List.map fst ds)" and "(dmn, d) \<in> set ds"
    and "now \<noteq> dom_start d" and "(now - dom_start d) mod season_duration (vc_params c) = 0"
    and "k = (now - dom_start d) div season_duration (vc_params c) - 1"
  shows "bonuses s' (dmn, k) = (bonuses s (dmn, k))\<lparr>bonus_staked := dom_staked d\<rparr>"
  using assms(1-3)
proof (induction ds arbitrary: s)
  case (Cons p ds)
  obtain x e where p: "p = (x, e)" by (cases p)
  obtain b where run: "close_seasons c now ds (s\<lparr>bonuses := b\<rparr>) = Inr s'"
    and b: "b = (if now \<noteq> dom_start e \<and> (now - dom_start e) mod season_duration (vc_params c) = 0
      then (bonuses s)((x, (now - dom_start e) div season_duration (vc_params c) - 1) :=
        (bonuses s (x, (now - dom_start e) div season_duration (vc_params c) - 1))\<lparr>bonus_staked := dom_staked e\<rparr>)
      else bonuses s)"
    using Cons.prems(1) unfolding p by (rule close_seasons_step)
  show ?case
  proof (cases "x = dmn")
    case True
    then have "e = d" and new: "dmn \<notin> fst ` set ds" using Cons.prems(2,3) by (force simp: p)+
    then show ?thesis using close_seasons_other [OF run new] assms(4-6) by (simp add: b True)
  next
    case False
    then have "b (dmn, k) = bonuses s (dmn, k)" by (simp add: b)
    then show ?thesis using Cons.IH [OF run] Cons.prems(2,3) False by (simp add: p)
  qed
qed simp

end
