(* ===== verification/Deployment_Correct.thy ===== *)
theory Deployment_Correct
  imports Deployment Runtime_Schedule
begin

text \<open>
  The runtime with its deployed constants: no block start fails, what is booked for a block is paid then, and
  every season of every dominator is closed at its last block. The constants fit together for this: the
  grace period of 20 blocks divides the delay of 57600 blocks, the season of three days and the start of
  every dominator.
\<close>

section \<open>A deployed chain\<close>

text \<open>These play no part in the runs below and need not be evaluated in them.\<close>

declare bridge_admin_members_def [code del] deploy_bridge_def [code del] deploy_handler_def [code del]
  deploy_reward_def [code del] deploy_bot_def [code del] deploy_market_def [code del] deploy_agent_def [code del]

text \<open>
  Account 5 has a thousand. In block 40 account 9 registers as a dominator, root launches it and account 5
  stakes a hundred on it, the least amount there is.
\<close>

definition demo_deployed :: "ref_native runtime_state result" where
  "demo_deployed =
    execute_block (deploy ref_runtime) 1 40
      [(VerifierCall (CallRegister [100, 101, 120]), SignedOrigin 9), (VerifierCall (CallLaunch 9), RootOrigin),
       (VerifierCall (CallStake 9 100000000000000000000), SignedOrigin 5)]
      (ref_runtime_state\<lparr>world := ref_world\<lparr>native :=
        \<lparr>rn_accounts = (\<lambda>a. if a = 5 then (1000000000000000000000, 0) else (0, 0)),
         rn_issuance = 1000000000000000000000\<rparr>\<rparr>\<rparr>)"

lemma demo_deployed_state:
  "case demo_deployed of Inl _ \<Rightarrow> False
   | Inr s \<Rightarrow> map_option dom_start (get_dominator 9 s) = Some 40
      \<and> map_option dom_staked (get_dominator 9 s) = Some 100000000000000000000
      \<and> block_number (world s) = 40
      \<and> (case run_runtime_call (deploy ref_runtime) (nested_dispatch (deploy ref_runtime) 1)
          (VerifierCall (CallUnstake 9 100000000000000000000)) (SignedOrigin 5) s of Inl _ \<Rightarrow> False | Inr _ \<Rightarrow> True)"
  by code_simp

lemma demo_deployed_reachable:
  assumes "demo_deployed = Inr s"
  shows "reachable runtime_genesis (runtime_step (deploy ref_runtime) 1) s"
proof -
  have "reachable runtime_genesis (runtime_step (deploy ref_runtime) 1)
      (ref_runtime_state\<lparr>world := ref_world\<lparr>native :=
        \<lparr>rn_accounts = (\<lambda>a. if a = 5 then (1000000000000000000000, 0) else (0, 0)),
         rn_issuance = 1000000000000000000000\<rparr>\<rparr>\<rparr>)"
    by (rule reachable_init) (simp add: runtime_genesis_def ref_runtime_state_def ref_world_def
        bot_state.extend_def handler_state.extend_def bridge_state.extend_def oracle_state.extend_def)
  with assms [unfolded demo_deployed_def] show ?thesis by (rule block_reachable)
qed

lemma ref_deployed_laws: "balances_laws (currency (rt_token ref_runtime))"
  using ref_balances_laws by (simp add: ref_runtime_def)

section \<open>Blocks start\<close>

lemma deployed_hook:
  assumes reach: "reachable runtime_genesis (runtime_step (deploy R) n) s"
    and laws: "balances_laws (currency (rt_token R))"
  shows "\<exists>s'. begin_block (deploy R) n now s = Inr s' \<and> block_number (world s') = now
    \<and> (now mod 20 = 0 \<longrightarrow> pending_unstakings s' now = [] \<and> (\<forall>a. released (deploy R) a (pending_of a now s) s s'))"
proof (cases "now mod 20 = 0")
  case True
  then obtain s' where s': "begin_block (deploy R) n now s = Inr s'"
    "pending_unstakings s' = (pending_unstakings s)(now := [])" "\<forall>a. released (deploy R) a (pending_of a now s) s s'"
    using hook_releases [OF reach, of now] laws by auto
  then show ?thesis using begin_block_number [OF s'(1)] by simp
next
  case False
  then have "begin_block (deploy R) n now s = Inr (s\<lparr>world := (world s)\<lparr>block_number := now\<rparr>\<rparr>)"
    by (simp add: begin_block_def on_initialize_def word_rem_def)
  then show ?thesis using False by simp
qed

text \<open>
  On the deployed chain every block starts: in every reachable state the block hook goes through for
  every block number, and after a block whose number is a multiple of the grace period nothing that was
  booked for it is left.
\<close>

theorem blocks_always_start:
  assumes "reachable runtime_genesis (runtime_step (deploy R) n) s"
    and "balances_laws (currency (rt_token R))"
  shows "\<exists>s'. begin_block (deploy R) n now s = Inr s' \<and> block_number (world s') = now
    \<and> (now mod 20 = 0 \<longrightarrow> pending_unstakings s' now = [])"
  using deployed_hook [OF assms] by blast

theorem blocks_always_start_witness:
  "\<exists>s s'. demo_deployed = Inr s \<and> begin_block (deploy ref_runtime) 1 57640 s = Inr s' \<and> pending_unstakings s' 57640 = []"
proof -
  obtain s where s: "demo_deployed = Inr s" using demo_deployed_state by (auto split: sum.splits)
  then show ?thesis
    using blocks_always_start [OF demo_deployed_reachable [OF s] ref_deployed_laws, of 57640] by auto
qed

section \<open>Seasons\<close>

text \<open>
  C8. On the deployed chain every season of every dominator is closed: at the first block after a season the
  hook records the stake of the dominator as the stake of that season, by which its profit is shared.
  (The block is within the range of block numbers.)
\<close>

theorem seasons_closed_on_time:
  assumes reach: "reachable runtime_genesis (runtime_step (deploy R) n) s"
    and laws: "balances_laws (currency (rt_token R))"
    and d: "get_dominator dmn s = Some d"
    and range: "unat (dom_start d) + (unat k + 1) * 43200 < 2 ^ 32"
  shows "\<exists>s'. begin_block (deploy R) n (dom_start d + (k + 1) * 43200) s = Inr s'
    \<and> bonuses s' (dmn, k) = (bonuses s (dmn, k))\<lparr>bonus_staked := dom_staked d\<rparr>"
proof -
  let ?c = "runtime_config (deploy R) (nested_dispatch (deploy R) n)"
  define now where "now = dom_start d + (k + 1) * 43200"
  have al: "distinct (List.map fst (dominators s))" "dom_start d mod 20 = 0"
    using calendar_system.inv_reachable [OF reach] d by (auto simp: aligned_def)
  have k: "unat (k + 1) = unat k + 1" using range by (simp add: unat_add_fits)
  have "unat (k + 1) * unat (43200 :: u32) < 2 ^ LENGTH(32)" using range by (simp add: k)
  then have "unat ((k + 1) * 43200) = unat (k + 1) * unat (43200 :: u32)" by (simp only: unat_mult_lem)
  then have len: "unat ((k + 1) * 43200) = (unat k + 1) * 43200" by (simp add: k)
  have nat: "unat now = unat (dom_start d) + (unat k + 1) * 43200"
    unfolding now_def using range len by (simp add: unat_add_fits)
  have diff: "now - dom_start d = (k + 1) * 43200" by (simp add: now_def)
  have "unat (dom_start d) mod 20 = 0" using arg_cong [OF al(2), of unat] by (simp add: unat_mod)
  then have "unat (now mod 20) = 0" by (simp add: unat_mod nat mod_add_eq [symmetric] mod_mult_eq [symmetric])
  then have vis: "now mod 20 = 0" by (simp only: unat_eq_0)
  have "unat ((now - dom_start d) mod 43200) = 0" "unat ((now - dom_start d) div 43200) = unat (k + 1)"
    by (simp_all only: unat_mod unat_div diff len k) simp_all
  then have ends: "(now - dom_start d) mod 43200 = 0" "(now - dom_start d) div 43200 = k + 1"
    by (simp_all only: unat_eq_0 word_unat_eq_iff)
  have later: "now \<noteq> dom_start d" using nat by auto
  obtain s' where s': "begin_block (deploy R) n now s = Inr s'"
    using deployed_hook [OF reach laws, of now] by blast
  let ?s0 = "s\<lparr>world := (world s)\<lparr>block_number := now\<rparr>\<rparr>"
  have "on_initialize ?c now ?s0 = Inr s'" using s' by (simp add: begin_block_def)
  then obtain s1 where close: "close_seasons ?c now (dominators s) ?s0 = Inr s1"
    and rel: "release_all ?c (pending_unstakings s now)
      (s1\<lparr>pending_unstakings := (pending_unstakings s)(now := [])\<rparr>) = Inr s'"
    by (auto elim!: on_initialize_Inr simp: vis)
  have "(dmn, d) \<in> set (dominators s)" using d by (simp add: get_dominator_def map_of_SomeD)
  then have "bonuses s1 (dmn, k) = (bonuses s (dmn, k))\<lparr>bonus_staked := dom_staked d\<rparr>"
    using close_seasons_at_end [OF close al(1) _ later, where dmn = dmn and k = k] ends by simp
  then have "bonuses s' (dmn, k) = (bonuses s (dmn, k))\<lparr>bonus_staked := dom_staked d\<rparr>"
    using release_all_frame [OF rel] by simp
  with s' show ?thesis unfolding now_def by blast
qed

theorem seasons_closed_on_time_witness:
  "\<exists>s s'. demo_deployed = Inr s \<and> begin_block (deploy ref_runtime) 1 43240 s = Inr s'
    \<and> bonus_staked (bonuses s' (9, 0)) = 100000000000000000000"
proof -
  obtain s d where s: "demo_deployed = Inr s" and d: "get_dominator 9 s = Some d" "dom_start d = 40"
    "dom_staked d = 100000000000000000000"
    using demo_deployed_state by (auto split: sum.splits)
  have "unat (dom_start d) + (unat (0 :: u32) + 1) * 43200 < 2 ^ 32" by (simp add: d)
  from seasons_closed_on_time [OF demo_deployed_reachable [OF s] ref_deployed_laws d(1) this]
  show ?thesis using s by (auto simp: d)
qed

end
