(* ===== verification/Dispatch_Frame.thy ===== *)
theory Dispatch_Frame
  imports Runtime
begin

text \<open>
  Only a callback uses the dispatch of runtime calls: every other operation of the verifier, and with it the
  calls of the bot and of the bridge handler, does the same whatever the dispatch is.
\<close>

named_theorems no_dispatch \<open>operations that do not use the dispatch\<close>

lemma config_fields [no_dispatch]:
  "vc_asset (c\<lparr>vc_dispatch := dp\<rparr>) = vc_asset c" "vc_env (c\<lparr>vc_dispatch := dp\<rparr>) = vc_env c"
  "vc_params (c\<lparr>vc_dispatch := dp\<rparr>) = vc_params c" "vc_libs (c\<lparr>vc_dispatch := dp\<rparr>) = vc_libs c"
  by simp_all

section \<open>Custody\<close>

lemma current_block_same [no_dispatch]: "current_block (c\<lparr>vc_dispatch := dp\<rparr>) = current_block c"
  by (intro ext) (simp only: current_block_def no_dispatch)

lemma native_token_id_same [no_dispatch]: "native_token_id (c\<lparr>vc_dispatch := dp\<rparr>) = native_token_id c"
  by (simp only: native_token_id_def no_dispatch)

lemma vf_reserve_same [no_dispatch]: "vf_reserve (c\<lparr>vc_dispatch := dp\<rparr>) = vf_reserve c"
  by (intro ext) (simp only: vf_reserve_def no_dispatch)

lemma vf_unreserve_same [no_dispatch]: "vf_unreserve (c\<lparr>vc_dispatch := dp\<rparr>) = vf_unreserve c"
  by (intro ext) (simp only: vf_unreserve_def no_dispatch)

lemma clear_same [no_dispatch]: "clear (c\<lparr>vc_dispatch := dp\<rparr>) = clear c"
  by (intro ext) (simp only: clear_def no_dispatch)

lemma authorize_to_same [no_dispatch]: "authorize_to (c\<lparr>vc_dispatch := dp\<rparr>) = authorize_to c"
  by (intro ext) (simp only: authorize_to_def no_dispatch)

lemma revoke_from_same [no_dispatch]: "revoke_from (c\<lparr>vc_dispatch := dp\<rparr>) = revoke_from c"
  by (intro ext) (simp only: revoke_from_def no_dispatch)

section \<open>Proofs\<close>

lemma try_get_account_same [no_dispatch]: "try_get_account (c\<lparr>vc_dispatch := dp\<rparr>) = try_get_account c"
  by (intro ext) (simp only: try_get_account_def no_dispatch)

lemma check_fee_same [no_dispatch]: "check_fee (c\<lparr>vc_dispatch := dp\<rparr>) = check_fee c"
  by (intro ext) (simp only: check_fee_def no_dispatch)

lemma verify_transfer_in_same [no_dispatch]: "verify_transfer_in (c\<lparr>vc_dispatch := dp\<rparr>) = verify_transfer_in c"
  by (intro ext) (simp only: verify_transfer_in_def no_dispatch)

lemma verify_transfer_out_same [no_dispatch]: "verify_transfer_out (c\<lparr>vc_dispatch := dp\<rparr>) = verify_transfer_out c"
  by (intro ext) (simp only: verify_transfer_out_def no_dispatch)

lemma verify_reject_transfer_out_same [no_dispatch]: "verify_reject_transfer_out (c\<lparr>vc_dispatch := dp\<rparr>) = verify_reject_transfer_out c"
  by (intro ext) (simp only: verify_reject_transfer_out_def no_dispatch)

lemma verify_cancel_same [no_dispatch]: "verify_cancel (c\<lparr>vc_dispatch := dp\<rparr>) = verify_cancel c"
  by (intro ext) (simp only: verify_cancel_def no_dispatch)

lemma ask_makers_same [no_dispatch]: "ask_makers (c\<lparr>vc_dispatch := dp\<rparr>) = ask_makers c"
proof (intro ext)
  fix s dmn base quote ls ix acc
  show "ask_makers (c\<lparr>vc_dispatch := dp\<rparr>) s dmn base quote ls ix acc = ask_makers c s dmn base quote ls ix acc"
  proof (induction ix arbitrary: acc)
    case (Cons x xs)
    then have IH: "ask_makers (c\<lparr>vc_dispatch := dp\<rparr>) s dmn base quote ls xs = ask_makers c s dmn base quote ls xs"
      by (intro ext) (rule Cons.IH)
    show ?case
      by (cases x; cases acc rule: prod_cases3) (simp_all only: ask_makers.simps no_dispatch IH)
  qed simp
qed

lemma bid_makers_same [no_dispatch]: "bid_makers (c\<lparr>vc_dispatch := dp\<rparr>) = bid_makers c"
proof (intro ext)
  fix s dmn base quote ls ix acc
  show "bid_makers (c\<lparr>vc_dispatch := dp\<rparr>) s dmn base quote ls ix acc = bid_makers c s dmn base quote ls ix acc"
  proof (induction ix arbitrary: acc)
    case (Cons x xs)
    then have IH: "bid_makers (c\<lparr>vc_dispatch := dp\<rparr>) s dmn base quote ls xs = bid_makers c s dmn base quote ls xs"
      by (intro ext) (rule Cons.IH)
    show ?case
      by (cases x; cases acc rule: prod_cases3) (simp_all only: bid_makers.simps no_dispatch IH)
  qed simp
qed

lemma verify_ask_limit_same [no_dispatch]: "verify_ask_limit (c\<lparr>vc_dispatch := dp\<rparr>) = verify_ask_limit c"
  by (intro ext) (simp only: verify_ask_limit_def no_dispatch)

lemma verify_bid_limit_same [no_dispatch]: "verify_bid_limit (c\<lparr>vc_dispatch := dp\<rparr>) = verify_bid_limit c"
  by (intro ext) (simp only: verify_bid_limit_def no_dispatch)

section \<open>Staking\<close>

lemma current_season_same [no_dispatch]: "current_season (c\<lparr>vc_dispatch := dp\<rparr>) = current_season c"
  by (intro ext) (simp only: current_season_def no_dispatch)

lemma all_shares_same [no_dispatch]: "all_shares (c\<lparr>vc_dispatch := dp\<rparr>) = all_shares c"
  by (intro ext) (simp only: all_shares_def no_dispatch)

lemma pay_shares_same [no_dispatch]: "pay_shares (c\<lparr>vc_dispatch := dp\<rparr>) = pay_shares c"
proof (intro ext)
  fix a ps s
  show "pay_shares (c\<lparr>vc_dispatch := dp\<rparr>) a ps s = pay_shares c a ps s"
  proof (induction ps arbitrary: s)
    case (Cons x xs)
    then have IH: "pay_shares (c\<lparr>vc_dispatch := dp\<rparr>) a xs = pay_shares c a xs"
      by (intro ext) (rule Cons.IH)
    show ?case
      by (cases x) (simp only: pay_shares.simps no_dispatch IH)
  qed simp
qed

lemma take_shares_same [no_dispatch]: "take_shares (c\<lparr>vc_dispatch := dp\<rparr>) = take_shares c"
  by (intro ext) (simp only: take_shares_def no_dispatch)

lemma status_of_stake_same [no_dispatch]: "status_of_stake (c\<lparr>vc_dispatch := dp\<rparr>) = status_of_stake c"
  by (intro ext) (simp only: status_of_stake_def no_dispatch)

lemma stake_on_same [no_dispatch]: "stake_on (c\<lparr>vc_dispatch := dp\<rparr>) = stake_on c"
  by (intro ext) (simp only: stake_on_def no_dispatch)

lemma unstake_from_same [no_dispatch]: "unstake_from (c\<lparr>vc_dispatch := dp\<rparr>) = unstake_from c"
  by (intro ext) (simp only: unstake_from_def no_dispatch)

lemma claim_shares_same [no_dispatch]: "claim_shares (c\<lparr>vc_dispatch := dp\<rparr>) = claim_shares c"
  by (intro ext) (simp only: claim_shares_def no_dispatch)

lemma stake_same [no_dispatch]: "stake (c\<lparr>vc_dispatch := dp\<rparr>) = stake c"
  by (intro ext) (simp only: stake_def no_dispatch)

lemma unstake_same [no_dispatch]: "unstake (c\<lparr>vc_dispatch := dp\<rparr>) = unstake c"
  by (intro ext) (simp only: unstake_def no_dispatch)

section \<open>Settlement\<close>

lemma settle_makers_same [no_dispatch]: "settle_makers (c\<lparr>vc_dispatch := dp\<rparr>) = settle_makers c"
proof (intro ext)
  fix dmn base quote block ds s
  show "settle_makers (c\<lparr>vc_dispatch := dp\<rparr>) dmn base quote block ds s = settle_makers c dmn base quote block ds s"
  proof (induction ds arbitrary: s)
    case (Cons x xs)
    then have IH: "settle_makers (c\<lparr>vc_dispatch := dp\<rparr>) dmn base quote block xs = settle_makers c dmn base quote block xs"
      by (intro ext) (rule Cons.IH)
    show ?case
      by (simp only: settle_makers.simps no_dispatch IH)
  qed simp
qed

lemma pay_fee_same [no_dispatch]: "pay_fee (c\<lparr>vc_dispatch := dp\<rparr>) = pay_fee c"
  by (intro ext) (simp only: pay_fee_def no_dispatch)

lemma pay_base_fee_same [no_dispatch]: "pay_base_fee (c\<lparr>vc_dispatch := dp\<rparr>) = pay_base_fee c"
  by (intro ext) (simp only: pay_base_fee_def no_dispatch)

lemma settle_same [no_dispatch]: "settle (c\<lparr>vc_dispatch := dp\<rparr>) = settle c"
  by (intro ext) (simp only: settle_def no_dispatch)

lemma ask_limit_same [no_dispatch]: "ask_limit (c\<lparr>vc_dispatch := dp\<rparr>) = ask_limit c"
  by (intro ext) (simp only: ask_limit_def no_dispatch)

lemma bid_limit_same [no_dispatch]: "bid_limit (c\<lparr>vc_dispatch := dp\<rparr>) = bid_limit c"
  by (intro ext) (simp only: bid_limit_def no_dispatch)

lemma cancel_order_same [no_dispatch]: "cancel_order (c\<lparr>vc_dispatch := dp\<rparr>) = cancel_order c"
  by (intro ext) (simp only: cancel_order_def no_dispatch)

lemma transfer_in_same [no_dispatch]: "transfer_in (c\<lparr>vc_dispatch := dp\<rparr>) = transfer_in c"
  by (intro ext) (simp only: transfer_in_def no_dispatch)

lemma reject_transfer_out_same [no_dispatch]: "reject_transfer_out (c\<lparr>vc_dispatch := dp\<rparr>) = reject_transfer_out c"
  by (intro ext) (simp only: reject_transfer_out_def no_dispatch)

lemma check_proof_same [no_dispatch]: "check_proof (c\<lparr>vc_dispatch := dp\<rparr>) = check_proof c"
  by (intro ext) (simp only: check_proof_def no_dispatch)

lemma uncompress_same [no_dispatch]: "uncompress (c\<lparr>vc_dispatch := dp\<rparr>) = uncompress c"
  by (intro ext) (simp only: uncompress_def no_dispatch)

section \<open>Administration\<close>

lemma register_same [no_dispatch]: "register (c\<lparr>vc_dispatch := dp\<rparr>) = register c"
  by (intro ext) (simp only: register_def no_dispatch)

lemma evict_same [no_dispatch]: "evict (c\<lparr>vc_dispatch := dp\<rparr>) = evict c"
  by (intro ext) (simp only: evict_def no_dispatch)

lemma launch_same [no_dispatch]: "launch (c\<lparr>vc_dispatch := dp\<rparr>) = launch c"
  by (intro ext) (simp only: launch_def no_dispatch)

lemma validate_beneficiary_same [no_dispatch]: "validate_beneficiary (c\<lparr>vc_dispatch := dp\<rparr>) = validate_beneficiary c"
  by (intro ext) (simp only: validate_beneficiary_def no_dispatch)

lemma dominator_set_beneficiary_same [no_dispatch]: "dominator_set_beneficiary (c\<lparr>vc_dispatch := dp\<rparr>) = dominator_set_beneficiary c"
  by (intro ext) (simp only: dominator_set_beneficiary_def no_dispatch)

lemma authorize_same [no_dispatch]: "authorize (c\<lparr>vc_dispatch := dp\<rparr>) = authorize c"
  by (intro ext) (simp only: authorize_def no_dispatch)

lemma revoke_same [no_dispatch]: "revoke (c\<lparr>vc_dispatch := dp\<rparr>) = revoke c"
  by (intro ext) (simp only: revoke_def no_dispatch)

lemma revoke_with_callback_same [no_dispatch]: "revoke_with_callback (c\<lparr>vc_dispatch := dp\<rparr>) = revoke_with_callback c"
  by (intro ext) (simp only: revoke_with_callback_def no_dispatch)

lemma vf_open_market_same [no_dispatch]: "vf_open_market (c\<lparr>vc_dispatch := dp\<rparr>) = vf_open_market c"
  by (intro ext) (simp only: vf_open_market_def no_dispatch)

section \<open>The pallets above\<close>

lemma handler_same [no_dispatch]:
  "authorize_associated h (c\<lparr>vc_dispatch := dp\<rparr>) = authorize_associated h c"
  by (intro ext) (simp only: authorize_associated_def no_dispatch)

lemma bridge_transfer_in_same [no_dispatch]:
  "bridge_transfer_in h (c\<lparr>vc_dispatch := dp\<rparr>) = bridge_transfer_in h c"
  by (intro ext) (simp only: bridge_transfer_in_def no_dispatch)

lemma bot_same [no_dispatch]:
  "deposit_into_sub b (c\<lparr>vc_dispatch := dp\<rparr>) = deposit_into_sub b c"
  "revoke_to_sub b (c\<lparr>vc_dispatch := dp\<rparr>) = revoke_to_sub b c"
  by (intro ext, simp only: deposit_into_sub_def revoke_to_sub_def no_dispatch)+

lemma run_handler_call_same [no_dispatch]: "run_handler_call h (c\<lparr>vc_dispatch := dp\<rparr>) = run_handler_call h c"
proof (intro ext)
  fix call o' s
  show "run_handler_call h (c\<lparr>vc_dispatch := dp\<rparr>) call o' s = run_handler_call h c call o' s"
    by (cases call) (simp_all only: run_handler_call.simps no_dispatch)
qed

lemma run_bot_call_same [no_dispatch]: "run_bot_call b (c\<lparr>vc_dispatch := dp\<rparr>) = run_bot_call b c"
proof (intro ext)
  fix call o' s
  show "run_bot_call b (c\<lparr>vc_dispatch := dp\<rparr>) call o' s = run_bot_call b c call o' s"
    by (cases call) (simp_all only: run_bot_call.simps no_dispatch)
qed

lemma runtime_config_dispatch: "runtime_config R dp' = (runtime_config R dp)\<lparr>vc_dispatch := dp'\<rparr>"
  by (simp add: runtime_config_def)

end
