(* ===== verification/Dispatch_Weight.thy ===== *)
theory Dispatch_Weight
  imports Runtime_Frame Dispatch_Frame
begin

text \<open>
  How much dispatch a call can cause. A call weighs one more than the call inside it; callbacks that wait in
  receipts count with their weight. A call of the runtime adds at most its own weight to what waits, and a
  callback leaves its receipt before it runs.
\<close>

section \<open>Weights\<close>

fun call_weight :: "runtime_call \<Rightarrow> nat" where
  "call_weight (VerifierCall (CallRevokeWithCallback d t v cb)) = Suc (call_weight cb)"
| "call_weight (BridgeCall (BridgeAcknowledge nonce src rid h p)) = Suc (call_weight p)"
| "call_weight (BridgeCall (BridgeReject nonce src rid p)) = Suc (call_weight p)"
| "call_weight (BridgeCall (BridgeEval nonce src p)) = Suc (call_weight p)"
| "call_weight (AgentSubmit (Ecdsa call nonce sg)) = Suc (call_weight call)"
| "call_weight _ = 1"

lemma call_weight_pos: "1 \<le> call_weight call"
  by (cases call rule: call_weight.cases) simp_all

definition callback_weight :: "runtime_call receipt \<Rightarrow> nat" where
  "callback_weight r = (case r of RevokeWithCallback _ _ _ cb \<Rightarrow> call_weight cb | _ \<Rightarrow> 0)"

definition waiting :: "'n runtime_state \<Rightarrow> nat" where
  "waiting s = dom_sum callback_weight (receipts s)"

definition within :: "nat \<Rightarrow> 'n runtime_state \<Rightarrow> 'n runtime_state \<Rightarrow> bool" where
  "within k s s' \<longleftrightarrow> (finite (dom (receipts s)) \<longrightarrow> finite (dom (receipts s')) \<and> waiting s' \<le> waiting s + k)"

lemma within_same: "receipts s' = receipts s \<Longrightarrow> within k s s'"
  by (simp add: within_def waiting_def)

lemma within_trans: "within j s t \<Longrightarrow> within k t u \<Longrightarrow> within (j + k) s u"
  by (auto simp: within_def)

lemma within_trans0: "within 0 s t \<Longrightarrow> within 0 t u \<Longrightarrow> within 0 s u"
  using within_trans [of 0 s t 0 u] by simp

lemma within_mono: "within j s t \<Longrightarrow> j \<le> k \<Longrightarrow> within k s t"
  by (auto simp: within_def)

lemma within_cong: "within j t u \<Longrightarrow> receipts t = receipts s \<Longrightarrow> j \<le> k \<Longrightarrow> within k s u"
  by (auto simp: within_def waiting_def)

lemma within_put:
  assumes "receipts s' = (receipts s)(x := r)" and "opt_val callback_weight r \<le> k"
  shows "within k s s'"
  using dom_sum_upd [of "receipts s" callback_weight x r] assms by (auto simp: within_def waiting_def)

text \<open>A receipt that is taken out gives its weight back.\<close>

lemma take_receipt:
  assumes "receipts s' = (receipts s)(x := None)" and "receipts s x = Some r" and "finite (dom (receipts s))"
  shows "finite (dom (receipts s'))" and "waiting s' + callback_weight r = waiting s"
  using dom_sum_upd [OF assms(3), of callback_weight x None] assms by (simp_all add: waiting_def)

section \<open>Receipts the operations leave alone\<close>

named_theorems receipts_kept \<open>operations that leave the receipts\<close>

lemma ledger_receipts [receipts_kept]:
  "vf_reserve c rid a t v dmn s = Inr s' \<Longrightarrow> receipts s' = receipts s"
  "vf_unreserve c rid a t v dmn s = Inr s' \<Longrightarrow> receipts s' = receipts s"
  "clear c a dmn t v s = Inr s' \<Longrightarrow> receipts s' = receipts s"
  "merge_stash a t dmn s = Inr s' \<Longrightarrow> receipts s' = receipts s"
  "on_world f s = Inr s' \<Longrightarrow> receipts s' = receipts s"
  by (auto simp: vf_reserve_def vf_unreserve_def clear_def merge_stash_def Let_def result_simps split: if_splits)

lemma settle_makers_receipts [receipts_kept]:
  "settle_makers c dmn base quote block ds s = Inr s' \<Longrightarrow> receipts s' = receipts s"
  by (induction ds arbitrary: s) (auto simp: and_then_Inr dest!: ledger_receipts)

lemma pay_base_fee_receipts [receipts_kept]:
  "pay_base_fee c ben bk base fee s = Inr s' \<Longrightarrow> receipts s' = receipts s"
  by (auto simp: pay_base_fee_def pay_fee_def Let_def and_then_Inr ok_or_Inr dest!: ledger_receipts
      split: if_splits option.splits)

lemma settle_receipts [receipts_kept]:
  "settle c dmn ben base quote bk block sn cr s = Inr s' \<Longrightarrow> receipts s' = receipts s"
  by (auto simp: settle_def Let_def and_then_Inr put_profit_def
      dest!: settle_makers_receipts ledger_receipts pay_base_fee_receipts split: if_splits)

lemma orders_receipts [receipts_kept]:
  "ask_limit c dmn ben p block sn pr amount mf tf base quote bk s = Inr (cr, s') \<Longrightarrow> receipts s' = receipts s"
  "bid_limit c dmn ben p block sn pr amount mf tf base quote bk s = Inr (cr, s') \<Longrightarrow> receipts s' = receipts s"
  "cancel_order c p base quote s = Inr s' \<Longrightarrow> receipts s' = receipts s"
  by (auto simp: ask_limit_def bid_limit_def cancel_order_def Let_def and_then_Inr ensure_Inr drop_error_Inr
      on_world_Inr dest!: settle_receipts)

lemma settings_receipts [receipts_kept]:
  "dominator_set_pubkey o' key s = Inr s' \<Longrightarrow> receipts s' = receipts s"
  "dominator_set_rpc_endpoint o' e s = Inr s' \<Longrightarrow> receipts s' = receipts s"
  by (auto simp: dominator_set_pubkey_def dominator_set_rpc_endpoint_def put_setting_def Let_def result_simps)

lemma beneficiary_receipts [receipts_kept]:
  assumes "dominator_set_beneficiary c o' new sg s = Inr s'"
  shows "receipts s' = receipts s"
proof -
  have put: "receipts (put_setting dmn x t) = receipts t" for dmn x and t :: "('a, 'b) verifier_state"
    by (simp add: put_setting_def)
  have validate: "receipts t = receipts s" if "validate_beneficiary c old sg new s = Inr t" for old t
    using that by (cases old) (auto simp: validate_beneficiary_def split: if_splits)
  obtain dmn where "o' = SignedOrigin dmn" using assms by (auto simp: dominator_set_beneficiary_def result_simps)
  with assms show ?thesis
    by (cases "dominator_settings s dmn")
      (auto simp: dominator_set_beneficiary_def ensure_signed_def ensure_Inr and_then_Inr put validate)
qed

lemma stake_receipts [receipts_kept]:
  "stake_on c a dmn v s = Inr s' \<Longrightarrow> receipts s' = receipts s"
  "unstake_from c a dmn v s = Inr s' \<Longrightarrow> receipts s' = receipts s"
  "claim_shares c o' src s = Inr s' \<Longrightarrow> receipts s' = receipts s"
  by (auto elim!: stake_on_Inr unstake_from_Inr claim_shares_Inr simp: only_worldD)

lemma admin_receipts [receipts_kept]:
  "register c o' name s = Inr s' \<Longrightarrow> receipts s' = receipts s"
  "evict c o' src s = Inr s' \<Longrightarrow> receipts s' = receipts s"
  "launch c o' src s = Inr s' \<Longrightarrow> receipts s' = receipts s"
  "vf_open_market c o' b q bs qs mb s = Inr s' \<Longrightarrow> receipts s' = receipts s"
  by (auto simp: register_def evict_def launch_def vf_open_market_def put_dominator_def Let_def result_simps
      split: if_splits)

section \<open>What a call adds\<close>

lemma authorize_to_within: "authorize_to c a dmn t v s = Inr s' \<Longrightarrow> within 0 s s'"
  by (auto simp: authorize_to_def Let_def result_simps callback_weight_def
      dest!: ledger_receipts intro!: within_put [where x = "(dmn, a)"])

lemma revoke_from_within:
  assumes "revoke_from c a dmn t amount cb s = Inr s'"
  shows "within (opt_val call_weight cb) s s'"
proof -
  let ?v = "value_or (get_reserve ((RESERVE_FOR_AUTHORIZING, a, t), dmn) s) amount"
  show ?thesis
  proof (cases "?v = 0")
    case True
    with assms show ?thesis by (simp add: revoke_from_def Let_def within_same)
  next
    case False
    then obtain d where d: "get_dominator dmn s = Some d"
      using assms by (auto simp: revoke_from_def Let_def ensure_Inr and_then_Inr ok_or_Inr)
    show ?thesis
    proof (cases "dom_status d = DOMINATOR_EVICTED")
      case True
      obtain s1 s2 where s1: "merge_stash a t dmn s = Inr s1"
        and s2: "vf_unreserve c RESERVE_FOR_AUTHORIZING a t ?v dmn s1 = Inr s2"
        and "s' = deposit_verifier (TokenRevoked a dmn t ?v)
          (s2\<lparr>receipts := (receipts s2)((dmn, a) := None)\<rparr>)"
        using assms False True d by (auto simp: revoke_from_def Let_def ensure_Inr and_then_Inr ok_or_Inr)
      then show ?thesis
        by (intro within_put [where x = "(dmn, a)" and r = None]) (auto dest!: ledger_receipts)
    next
      case not_evicted: False
      then obtain r where "receipts s' = (receipts s)((dmn, a) \<mapsto> r)" "callback_weight r \<le> opt_val call_weight cb"
        using assms False d
        by (auto simp: revoke_from_def Let_def ensure_Inr and_then_Inr ok_or_Inr callback_weight_def split: option.splits)
      then show ?thesis by (intro within_put [where x = "(dmn, a)" and r = "Some r"]) (simp, subst opt_val_simps, assumption)
    qed
  qed
qed

locale weighed_dispatch =
  fixes R :: "'n runtime_params" and dp :: "'n runtime_dispatch"
  assumes dispatch_within: "dp cb a s = Inr s' \<Longrightarrow> within (call_weight cb) s s'"
begin

abbreviation cfg :: "('n runtime_world, runtime_call) verifier_config" where
  "cfg \<equiv> runtime_config R dp"

lemma run_callback_within: "run_callback cfg a r s = Inr s' \<Longrightarrow> within (callback_weight r) s s'"
  by (cases r) (auto simp: drop_error_Inr callback_weight_def within_same dispatch_within)

text \<open>The callback of a receipt adds at most what its receipt gave back.\<close>

lemma transfer_out_within:
  assumes "transfer_out cfg dmn p t v s = Inr s'"
  shows "within 0 s s'"
  unfolding within_def
proof
  assume fin: "finite (dom (receipts s))"
  obtain r s1 where r: "receipts s (dmn, user_id p) = Some r"
    and s1: "vf_unreserve cfg RESERVE_FOR_AUTHORIZING (user_id p) t v dmn s = Inr s1"
    and run: "run_callback cfg (user_id p) r (s1\<lparr>receipts := (receipts s1)((dmn, user_id p) := None)\<rparr>) = Inr s'"
    using assms by (auto simp: transfer_out_def and_then_Inr ensure_Inr ok_or_Inr)
  let ?s2 = "s1\<lparr>receipts := (receipts s1)((dmn, user_id p) := None)\<rparr>"
  have "receipts ?s2 = (receipts s)((dmn, user_id p) := None)" using ledger_receipts(2) [OF s1] by simp
  note take = take_receipt [OF this r fin]
  show "finite (dom (receipts s')) \<and> waiting s' \<le> waiting s + 0"
    using run_callback_within [OF run] take by (simp add: within_def)
qed

lemma answers_within:
  "transfer_in cfg dmn p t v s = Inr s' \<Longrightarrow> within 0 s s'"
  "reject_transfer_out cfg dmn p t v s = Inr s' \<Longrightarrow> within 0 s s'"
  "reject_transfer_in dmn p s = Inr s' \<Longrightarrow> within 0 s s'"
  by (auto simp: transfer_in_def reject_transfer_out_def reject_transfer_in_def Let_def and_then_Inr ensure_Inr
      split: option.splits intro: within_same within_put [where x = "(dmn, user_id p)" and r = None])

lemma advance_within: "advance dmn p block tr s = Inr (tr', s') \<Longrightarrow> within 0 s s'"
  by (auto simp: advance_def put_dominator_def split: option.splits intro: within_same)

lemma verify_and_update_within:
  assumes "verify_and_update cfg dmn ben root claim_at p s = Inr (tr, s')"
  shows "within 0 s s'"
proof -
  note ops = orders_receipts [THEN within_same] transfer_out_within answers_within
  show ?thesis
    using assms by (cases "cmd p")
      (auto simp: verify_and_update_def ensure_Inr and_then_Inr Let_def intro: ops within_trans0 [OF _ advance_within])
qed

lemma verify_all_within:
  "verify_all cfg dmn ben claim_at ps (root, incr, s) = Inr (root', incr', s') \<Longrightarrow> within 0 s s'"
proof (induction ps arbitrary: root incr s)
  case Nil
  then show ?case by (simp add: within_same)
next
  case (Cons p ps)
  then show ?case by (auto simp: and_then_Inr intro: within_trans0 [OF verify_and_update_within])
qed

lemma verify_batch_within: "verify_batch cfg dmn ben d ps s = Inr s' \<Longrightarrow> within 0 s s'"
  by (auto simp: verify_batch_def and_then_Inr Let_def intro!: within_trans0 [OF verify_all_within within_same])

lemma verifier_call_within:
  assumes "run_verifier_call cfg call o' s = Inr s'"
  shows "within (call_weight (VerifierCall call)) s s'"
proof -
  have batch: "within k s s'" if "verify_batch cfg dmn ben d ps s = Inr s'" for dmn ben d ps k
    using verify_batch_within [OF that] by (rule within_mono) simp
  show ?thesis
  proof (cases call)
    case (CallVerifyCompress bs)
    with assms show ?thesis by (auto simp: verify_compress_def and_then_Inr split: prod.splits intro: batch)
  next
    case (CallVerify ps)
    with assms show ?thesis by (auto simp: verify_def and_then_Inr split: prod.splits intro: batch)
  next
    case (CallVerifyCompressV2 bs)
    with assms show ?thesis by (auto simp: verify_compress_v2_def and_then_Inr split: prod.splits intro: batch)
  next
    case (CallVerifyV2 ps)
    with assms show ?thesis by (auto simp: verify_v2_def and_then_Inr split: prod.splits intro: batch)
  next
    case (CallAuthorize d t v)
    with assms show ?thesis
      by (auto simp: authorize_def and_then_Inr intro: within_mono authorize_to_within)
  next
    case (CallRevoke d t v)
    with assms show ?thesis
      by (auto simp: revoke_def and_then_Inr intro: within_mono dest!: revoke_from_within)
  next
    case (CallRevokeWithCallback d t v cb)
    with assms show ?thesis
      by (auto simp: revoke_with_callback_def and_then_Inr intro: within_mono dest!: revoke_from_within)
  qed (use assms in \<open>auto simp: stake_def unstake_def and_then_Inr intro!: within_same dest!: receipts_kept\<close>)
qed

end

end
