(* ===== verification/Runtime_Termination.thy ===== *)
theory Runtime_Termination
  imports Dispatch_Weight Runtime_Correct
begin

text \<open>
  Nested dispatch ends. The runtime calls itself through proposals, calls of agents and callbacks of receipts;
  the weight of a call together with the weights of all waiting callbacks bounds how deep it can get, so
  from there on the bound of \<open>nested_dispatch\<close> makes no difference.
\<close>

section \<open>Waiting callbacks across the calls of the runtime\<close>

lemma bridge_within:
  assumes dp: "\<And>cb a s s'. dp cb a s = Inr s' \<Longrightarrow> within (call_weight cb) s s'"
    and run: "run_bridge_call b dp call o' s = Inr s'"
  shows "within (call_weight (BridgeCall call)) s s'"
proof -
  have emit: "receipts (bridge_emit e t) = receipts t" for e and t :: "'n runtime_state"
    by (simp add: bridge_emit_def)
  have resolve: "within (call_weight p) t s'" if run': "try_resolve_proposal b dp nonce src p t = Inr s'" for nonce src p t
  proof -
    obtain v st v' where v: "votes (world t) (src, nonce, p) = Some v"
      and st: "try_to_complete (relayer_threshold (world t)) (relayer_count (world t)) v = (st, v')"
      using run' by (fastforce simp: try_resolve_proposal_def split: option.splits prod.splits)
    let ?t1 = "bridge_emit (ProposalApproved src nonce) (t\<lparr>world := put_votes (src, nonce, p) v' (world t)\<rparr>)"
    have "receipts ?t1 = receipts t" by (simp add: emit)
    moreover have "receipts s' = receipts t \<or> (\<exists>t2. dp p (br_account b) ?t1 = Inr t2 \<and> receipts s' = receipts t2)"
      using run' v st
      by (cases st) (auto simp: try_resolve_proposal_def Let_def ensure_Inr finalize_execution_def and_then_Inr
          cancel_execution_def emit)
    ultimately have "receipts s' = receipts t
        \<or> (\<exists>t1 t2. receipts t1 = receipts t \<and> dp p (br_account b) t1 = Inr t2 \<and> receipts s' = receipts t2)"
      by blast
    then show ?thesis by (elim disjE exE conjE) (auto simp: within_def waiting_def dest!: dp)
  qed
  show ?thesis
  proof (cases call)
    case (BridgeAcknowledge nonce src rid h p)
    then obtain a t where t: "on_world (commit_vote b a nonce src p True) (bridge_emit (ProposalVote src h nonce) s) = Inr t"
      and res: "try_resolve_proposal b dp nonce src p t = Inr s'"
      using run by (auto simp: acknowledge_proposal_def vote_for_def and_then_Inr)
    show ?thesis
      by (rule within_cong [OF resolve [OF res]]) (simp_all add: BridgeAcknowledge emit ledger_receipts(5) [OF t])
  next
    case (BridgeReject nonce src rid p)
    then obtain a t where t: "on_world (commit_vote b a nonce src p False) s = Inr t"
      and res: "try_resolve_proposal b dp nonce src p t = Inr s'"
      using run by (auto simp: reject_proposal_def vote_against_def and_then_Inr)
    show ?thesis
      by (rule within_cong [OF resolve [OF res]]) (simp_all add: BridgeReject emit ledger_receipts(5) [OF t])
  next
    case (BridgeEval nonce src p)
    then have "try_resolve_proposal b dp nonce src p s = Inr s'"
      using run by (auto simp: eval_vote_state_def and_then_Inr)
    from resolve [OF this] show ?thesis by (rule within_mono) (simp add: BridgeEval)
  qed (use run in \<open>auto intro!: within_same dest!: ledger_receipts(5)\<close>)
qed

lemma agent_within:
  assumes dp: "\<And>cb a s s'. dp cb a s = Inr s' \<Longrightarrow> within (call_weight cb) s s'"
    and run: "submit_external_tx c dp o' tx s = Inr s'"
  shows "within (call_weight (AgentSubmit tx)) s s'"
proof -
  have emit: "receipts (agent_emit a r t) = receipts t" for a r and t :: "'n runtime_state"
    by (simp add: agent_emit_def)
  obtain a call nonce sg where a: "extract_signer c tx = Inr a" and tx: "tx = Ecdsa call nonce sg"
    using run by (auto simp: submit_external_tx_def and_then_Inr extract_signer_def split: external_verifiable.splits)
  show ?thesis
  proof (cases "dp call a s")
    case (Inl e)
    then show ?thesis
      using run a tx by (auto simp: submit_external_tx_def and_then_Inr emit intro!: within_same split: if_splits)
  next
    case (Inr t)
    then have "s' = agent_emit a None t" using run a tx by (auto simp: submit_external_tx_def and_then_Inr)
    then show ?thesis using dp [OF Inr] by (auto simp: tx within_def waiting_def emit)
  qed
qed

text \<open>A dispatch that never runs anything: what is left are the operations that do not dispatch.\<close>

interpretation idle: runtime_parts R "\<lambda>_ _ _. Inl Panic" "within 0" for R :: "'n runtime_params"
  by unfold_locales (auto intro: within_trans0 within_same authorize_to_within dest!: revoke_from_within)

lemma runtime_call_within:
  assumes dp: "\<And>cb a s s'. dp cb a s = Inr s' \<Longrightarrow> within (call_weight cb) s s'"
    and run: "run_runtime_call R dp call o' s = Inr s'"
  shows "within (call_weight call) s s'"
proof (cases call)
  case (VerifierCall vc)
  have "weighed_dispatch dp" using dp by (rule weighed_dispatch.intro)
  with run show ?thesis by (simp add: VerifierCall weighed_dispatch.verifier_call_within)
next
  case (BridgeCall bc)
  with bridge_within [OF dp] run show ?thesis by simp
next
  case (AgentSubmit tx)
  with agent_within [OF dp] run show ?thesis by simp
next
  case (HandlerCall hc)
  have "run_runtime_call R (\<lambda>_ _ _. Inl Panic) call o' s = Inr s'"
    using run by (simp add: HandlerCall runtime_config_dispatch [of R "\<lambda>_ _ _. Inl Panic" dp] no_dispatch)
  then have "within 0 s s'" by (rule idle.Q_other_call) (simp add: HandlerCall)
  then show ?thesis by (rule within_mono) simp
next
  case (BotCall bc)
  have "run_runtime_call R (\<lambda>_ _ _. Inl Panic) call o' s = Inr s'"
    using run by (simp add: BotCall runtime_config_dispatch [of R "\<lambda>_ _ _. Inl Panic" dp] no_dispatch)
  then have "within 0 s s'" by (rule idle.Q_other_call) (simp add: BotCall)
  then show ?thesis by (rule within_mono) simp
qed (use run in \<open>auto intro!: within_same dest!: ledger_receipts(5)\<close>)

lemma nested_within: "nested_dispatch R n call a s = Inr s' \<Longrightarrow> within (call_weight call) s s'"
proof (induction n arbitrary: call a s s')
  case (Suc n)
  show ?case by (rule runtime_call_within [OF Suc.IH]) (use Suc.prems in \<open>simp_all\<close>)
qed simp

lemma call_within:
  "run_runtime_call R (nested_dispatch R n) call o' s = Inr s' \<Longrightarrow> within (call_weight call) s s'"
  by (rule runtime_call_within [of "nested_dispatch R n"]) (rule nested_within)

section \<open>Two dispatches that agree on what is light enough\<close>

definition agree :: "nat \<Rightarrow> 'n runtime_dispatch \<Rightarrow> 'n runtime_dispatch \<Rightarrow> bool" where
  "agree n dp dp' \<longleftrightarrow> (\<forall>cb a s. finite (dom (receipts s)) \<longrightarrow> call_weight cb + waiting s \<le> n \<longrightarrow> dp cb a s = dp' cb a s)"

definition light :: "nat \<Rightarrow> 'n runtime_state \<Rightarrow> bool" where
  "light n s \<longleftrightarrow> finite (dom (receipts s)) \<and> waiting s \<le> n"

lemma light_within: "light n s \<Longrightarrow> within 0 s s' \<Longrightarrow> light n s'"
  by (auto simp: light_def within_def)

lemma and_then_cong: "r = r' \<Longrightarrow> (\<And>x. r' = Inr x \<Longrightarrow> f x = g x) \<Longrightarrow> and_then r f = and_then r' g"
  by (cases r') simp_all

lemma ensure_same: "(b \<Longrightarrow> r = r') \<Longrightarrow> ensure b e r = ensure b e r'"
  by (cases b) simp_all

lemma run_callback_agree:
  assumes "agree n dp dp'" and "finite (dom (receipts s))" and "callback_weight r + waiting s \<le> n"
  shows "run_callback (runtime_config R dp) a r s = run_callback (runtime_config R dp') a r s"
  using assms by (cases r) (auto simp: agree_def callback_weight_def)

lemma transfer_out_agree:
  assumes ag: "agree n dp dp'" and li: "light n s"
  shows "transfer_out (runtime_config R dp) dmn p t v s = transfer_out (runtime_config R dp') dmn p t v s"
proof -
  let ?c = "runtime_config R dp" and ?c' = "runtime_config R dp'"
  note same = runtime_config_dispatch [of R dp' dp]
  have call: "run_callback ?c (user_id p) r (s1\<lparr>receipts := (receipts s1)((dmn, user_id p) := None)\<rparr>)
      = run_callback ?c' (user_id p) r (s1\<lparr>receipts := (receipts s1)((dmn, user_id p) := None)\<rparr>)"
    if r: "receipts s (dmn, user_id p) = Some r"
      and s1: "vf_unreserve ?c RESERVE_FOR_AUTHORIZING (user_id p) t v dmn s = Inr s1" for r s1
  proof -
    let ?s2 = "s1\<lparr>receipts := (receipts s1)((dmn, user_id p) := None)\<rparr>"
    have "receipts ?s2 = (receipts s)((dmn, user_id p) := None)" using ledger_receipts(2) [OF s1] by simp
    note take = take_receipt [OF this r]
    show ?thesis
      by (rule run_callback_agree [OF ag]) (use take li in \<open>auto simp: light_def\<close>)
  qed
  have fixed: "vf_unreserve ?c' = vf_unreserve ?c" "verify_transfer_out ?c' = verify_transfer_out ?c"
    unfolding same by (simp_all only: no_dispatch)
  show ?thesis
    unfolding transfer_out_def fixed
    by (intro and_then_cong ensure_same refl call) (auto simp: ok_or_Inr)
qed

lemma verify_and_update_agree:
  assumes ag: "agree n dp dp'" and li: "light n s"
  shows "verify_and_update (runtime_config R dp) dmn ben root claim_at p s
    = verify_and_update (runtime_config R dp') dmn ben root claim_at p s"
proof -
  let ?c = "runtime_config R dp" and ?c' = "runtime_config R dp'"
  have fixed: "check_proof ?c' = check_proof ?c" "current_block ?c' = current_block ?c"
    "current_season ?c' = current_season ?c" "ask_limit ?c' = ask_limit ?c" "bid_limit ?c' = bid_limit ?c"
    "cancel_order ?c' = cancel_order ?c" "transfer_in ?c' = transfer_in ?c"
    "reject_transfer_out ?c' = reject_transfer_out ?c"
    unfolding runtime_config_dispatch [of R dp' dp] by (simp_all only: no_dispatch)
  show ?thesis
    unfolding verify_and_update_def fixed transfer_out_agree [OF ag li] ..
qed

lemma verify_all_agree:
  assumes ag: "agree n dp dp'" and wd: "weighed_dispatch dp'"
  shows "light n s \<Longrightarrow> verify_all (runtime_config R dp) dmn ben claim_at ps (root, incr, s)
    = verify_all (runtime_config R dp') dmn ben claim_at ps (root, incr, s)"
proof (induction ps arbitrary: root incr s)
  case (Cons p ps)
  have "verify_all (runtime_config R dp) dmn ben claim_at ps (tr_root tr, add_turnover tr incr, t)
      = verify_all (runtime_config R dp') dmn ben claim_at ps (tr_root tr, add_turnover tr incr, t)"
    if "verify_and_update (runtime_config R dp') dmn ben root claim_at p s = Inr (tr, t)" for tr t
    by (rule Cons.IH, rule light_within [OF Cons.prems])
      (rule weighed_dispatch.verify_and_update_within [OF wd that])
  then show ?case
    by (auto simp: verify_and_update_agree [OF ag Cons.prems] intro!: and_then_cong)
qed simp

lemma verify_batch_agree:
  assumes "agree n dp dp'" and "weighed_dispatch dp'" and "light n s"
  shows "verify_batch (runtime_config R dp) dmn ben d ps s = verify_batch (runtime_config R dp') dmn ben d ps s"
  by (simp add: verify_batch_def verify_all_agree [OF assms] current_block_def)

lemma verifier_call_agree:
  assumes "agree n dp dp'" and "weighed_dispatch dp'" and "light n s"
  shows "run_verifier_call (runtime_config R dp) call o' s = run_verifier_call (runtime_config R dp') call o' s"
proof -
  have fixed: "uncompress (runtime_config R dp') = uncompress (runtime_config R dp)"
    unfolding runtime_config_dispatch [of R dp' dp] by (simp_all only: no_dispatch)
  note batch = verify_batch_agree [OF assms]
  show ?thesis
  proof (cases call)
    case (CallVerifyCompress bs)
    then show ?thesis by (simp add: verify_compress_def batch fixed)
  next
    case (CallVerify ps)
    then show ?thesis by (simp add: verify_def batch)
  next
    case (CallVerifyCompressV2 bs)
    then show ?thesis by (simp add: verify_compress_v2_def batch fixed)
  next
    case (CallVerifyV2 ps)
    then show ?thesis by (simp add: verify_v2_def batch)
  qed (unfold runtime_config_dispatch [of R dp' dp], simp_all only: run_verifier_call.simps no_dispatch)
qed

section \<open>The runtime\<close>

lemma resolve_agree:
  assumes ag: "agree n dp dp'" and fin: "finite (dom (receipts s))" and le: "call_weight p + waiting s \<le> n"
  shows "try_resolve_proposal b dp nonce src p s = try_resolve_proposal b dp' nonce src p s"
proof -
  have "dp p a t = dp' p a t" if "receipts t = receipts s" for a t
    using ag fin le that by (simp add: agree_def waiting_def)
  then have fin: "finalize_execution b dp src nonce p (s\<lparr>world := w\<rparr>) = finalize_execution b dp' src nonce p (s\<lparr>world := w\<rparr>)" for w
    by (simp add: finalize_execution_def bridge_emit_def)
  show ?thesis unfolding try_resolve_proposal_def Let_def fin ..
qed

lemma runtime_call_agree:
  assumes ag: "agree n dp dp'" and wd: "weighed_dispatch dp'"
    and fin: "finite (dom (receipts s))" and le: "call_weight call + waiting s \<le> Suc n"
  shows "run_runtime_call R dp call o' s = run_runtime_call R dp' call o' s"
proof -
  have li: "light n s" using fin le call_weight_pos [of call] by (simp add: light_def)
  have resolve: "try_resolve_proposal b dp nonce src p t = try_resolve_proposal b dp' nonce src p t"
    if "receipts t = receipts s" "Suc (call_weight p) \<le> call_weight call" for b nonce src p t
    by (rule resolve_agree [OF ag]) (use that fin le in \<open>simp_all add: waiting_def\<close>)
  show ?thesis
  proof (cases call)
    case (VerifierCall vc)
    then show ?thesis by (simp add: verifier_call_agree [OF ag wd li])
  next
    case (BridgeCall bc)
    have emit: "receipts (bridge_emit e t) = receipts t" for e and t :: "'n runtime_state" by (simp add: bridge_emit_def)
    have "run_bridge_call b dp bc o' s = run_bridge_call b dp' bc o' s" for b
    proof (cases bc)
      case (BridgeAcknowledge nonce src rid h p)
      then show ?thesis
        by (auto simp: acknowledge_proposal_def vote_for_def BridgeCall emit
            intro!: and_then_cong resolve dest!: ledger_receipts(5))
    next
      case (BridgeReject nonce src rid p)
      then show ?thesis
        by (auto simp: reject_proposal_def vote_against_def BridgeCall
            intro!: and_then_cong resolve dest!: ledger_receipts(5))
    next
      case (BridgeEval nonce src p)
      then show ?thesis by (auto simp: eval_vote_state_def BridgeCall intro!: and_then_cong resolve)
    qed simp_all
    then show ?thesis by (simp add: BridgeCall)
  next
    case (AgentSubmit tx)
    show ?thesis
    proof (cases tx)
      case (Ecdsa rc nonce sg)
      then have "dp rc a s = dp' rc a s" for a using ag fin le by (simp add: AgentSubmit agree_def)
      then show ?thesis by (simp add: AgentSubmit Ecdsa submit_external_tx_def)
    qed (simp add: AgentSubmit submit_external_tx_def)
  qed (simp_all add: runtime_config_dispatch [of R dp' dp] no_dispatch)
qed

lemma nested_weighed: "weighed_dispatch (nested_dispatch R n)"
  by (rule weighed_dispatch.intro) (rule nested_within)

lemma nested_agree: "agree n (nested_dispatch R n) (nested_dispatch R (n + m))"
proof (induction n)
  case 0
  show ?case
    unfolding agree_def
  proof (intro allI impI)
    fix cb a and s :: "'a runtime_state"
    assume "call_weight cb + waiting s \<le> 0"
    with call_weight_pos [of cb] show "nested_dispatch R 0 cb a s = nested_dispatch R (0 + m) cb a s" by simp
  qed
next
  case (Suc n)
  show ?case
    unfolding agree_def using runtime_call_agree [OF Suc.IH nested_weighed] by simp
qed

section \<open>The block hook and reachable states\<close>

text \<open>The hook does not dispatch at all.\<close>

lemma close_seasons_same [no_dispatch]: "close_seasons (c\<lparr>vc_dispatch := dp\<rparr>) = close_seasons c"
proof (intro ext)
  fix now ds s
  show "close_seasons (c\<lparr>vc_dispatch := dp\<rparr>) now ds s = close_seasons c now ds s"
  proof (induction ds arbitrary: s)
    case (Cons x xs)
    then have IH: "close_seasons (c\<lparr>vc_dispatch := dp\<rparr>) now xs = close_seasons c now xs"
      by (intro ext) (rule Cons.IH)
    show ?case by (cases x) (simp only: close_seasons.simps no_dispatch IH)
  qed simp
qed

lemma release_all_same [no_dispatch]: "release_all (c\<lparr>vc_dispatch := dp\<rparr>) = release_all c"
proof (intro ext)
  fix rs s
  show "release_all (c\<lparr>vc_dispatch := dp\<rparr>) rs s = release_all c rs s"
  proof (induction rs arbitrary: s)
    case (Cons x xs)
    then have IH: "release_all (c\<lparr>vc_dispatch := dp\<rparr>) xs = release_all c xs" by (intro ext) (rule Cons.IH)
    show ?case by (cases x) (simp only: release_all.simps no_dispatch IH)
  qed simp
qed

lemma on_initialize_same [no_dispatch]: "on_initialize (c\<lparr>vc_dispatch := dp\<rparr>) = on_initialize c"
  by (intro ext) (simp only: on_initialize_def no_dispatch)

lemma begin_block_same: "begin_block R n now s = begin_block R m now s"
  unfolding begin_block_def runtime_config_dispatch [of R "nested_dispatch R n" "nested_dispatch R m"] no_dispatch ..

lemma release_all_receipts: "release_all c rs s = Inr s' \<Longrightarrow> receipts s' = receipts s"
proof (induction rs arbitrary: s)
  case (Cons p rs)
  obtain a v where p: "p = (a, v)" by (cases p)
  obtain s1 where run: "release_all c rs s1 = Inr s'"
    and s1: "s1 = s \<or> (\<exists>s0. vf_unreserve c RESERVE_FOR_PENDING_UNSTAKE a (native_token_id c) v
        (verifier_system_account (vc_params c)) s = Inr s0
      \<and> s1 = deposit_verifier (TaoUnstakeUnlock a v) s0)"
    using Cons.prems unfolding p by (rule release_all_step)
  from s1 have "receipts s1 = receipts s" by (auto dest!: ledger_receipts(2))
  with Cons.IH [OF run] show ?case by simp
qed simp

lemma begin_block_receipts: "begin_block R n now s = Inr s' \<Longrightarrow> receipts s' = receipts s"
  unfolding begin_block_def
  by (erule on_initialize_Inr) (auto dest!: release_all_receipts close_seasons_frame simp: only_bonusesD)

interpretation receipts_system:
  invariant_system runtime_genesis "runtime_step R n" "\<lambda>s. finite (dom (receipts s))" for R :: "'n runtime_params" and n
proof unfold_locales
  fix s t :: "'n runtime_state"
  assume fin: "finite (dom (receipts s))" and "runtime_step R n s t"
  from this(2) show "finite (dom (receipts t))"
  proof cases
    case (step_call call o')
    with call_within fin show ?thesis unfolding within_def by blast
  next
    case (step_block now)
    with fin show ?thesis by (simp add: begin_block_receipts)
  qed (use fin in simp)
qed (simp add: runtime_genesis_def)

section \<open>Nesting is bounded\<close>

text \<open>
  C10. Nested dispatch ends. In every reachable state, a call of the runtime nests no deeper than its weight
  and the weights of the callbacks that wait in receipts: with a bound of that size, less one for the
  call itself, it has the same result as with every larger bound, so that no result is due to the bound. A
  call that goes through adds at most its weight to what waits. The start of a block does not depend on
  the bound at all.
\<close>

theorem nesting_bounded:
  assumes "reachable runtime_genesis (runtime_step R k) s" and "call_weight call + waiting s \<le> Suc n"
  shows "run_runtime_call R (nested_dispatch R (n + m)) call o' s = run_runtime_call R (nested_dispatch R n) call o' s
    \<and> (\<forall>s'. run_runtime_call R (nested_dispatch R n) call o' s = Inr s' \<longrightarrow> waiting s' \<le> waiting s + call_weight call)
    \<and> begin_block R (n + m) now s = begin_block R n now s"
proof -
  have fin: "finite (dom (receipts s))" using assms(1) by (rule receipts_system.inv_reachable)
  have "waiting s' \<le> waiting s + call_weight call"
    if "run_runtime_call R (nested_dispatch R n) call o' s = Inr s'" for s'
    using call_within [OF that] fin by (simp add: within_def)
  then show ?thesis
    using runtime_call_agree [OF nested_agree nested_weighed fin assms(2)] begin_block_same [of R "n + m" now s n] by auto
qed

text \<open>An agent submits a revocation whose callback submits another call.\<close>

definition demo_nested :: runtime_call where
  "demo_nested = AgentSubmit (Ecdsa (VerifierCall (CallRevokeWithCallback 9 0 5
    (AgentSubmit (Ecdsa RewardTake 0 [7])))) 0 [5])"

theorem nesting_bounded_witness:
  "\<exists>s. run_runtime_call ref_runtime (nested_dispatch ref_runtime 3) demo_nested NoneOrigin ref_runtime_state = Inr s
    \<and> run_runtime_call ref_runtime (nested_dispatch ref_runtime 100) demo_nested NoneOrigin ref_runtime_state = Inr s
    \<and> waiting s \<le> 4"
proof -
  have "reachable runtime_genesis (runtime_step ref_runtime 1) ref_runtime_state"
    by (rule reachable_init) (simp add: runtime_genesis_def ref_runtime_state_def ref_world_def
        bot_state.extend_def handler_state.extend_def bridge_state.extend_def oracle_state.extend_def)
  moreover have weight: "call_weight demo_nested = 4" "waiting ref_runtime_state = 0"
    by (simp_all add: demo_nested_def waiting_def ref_runtime_state_def)
  ultimately have bounded: "run_runtime_call ref_runtime (nested_dispatch ref_runtime (3 + 97)) demo_nested o' ref_runtime_state
      = run_runtime_call ref_runtime (nested_dispatch ref_runtime 3) demo_nested o' ref_runtime_state
    \<and> (\<forall>s'. run_runtime_call ref_runtime (nested_dispatch ref_runtime 3) demo_nested o' ref_runtime_state = Inr s'
        \<longrightarrow> waiting s' \<le> waiting ref_runtime_state + call_weight demo_nested)
    \<and> begin_block ref_runtime (3 + 97) 1 ref_runtime_state = begin_block ref_runtime 3 1 ref_runtime_state" for o'
    by (intro nesting_bounded) simp_all
  have "extract_signer (rt_agent ref_runtime) (Ecdsa tx nonce [b]) = Inr (unat b)" for tx nonce b
    by (simp add: ref_runtime_def extract_signer_def ref_agent_def ascii_def encode_short_def numeral_2_eq_2)
  note signer = this [of _ _ 5]
  have inner: "run_runtime_call ref_runtime dp (VerifierCall (CallRevokeWithCallback 9 0 5 cb)) (SignedOrigin a) ref_runtime_state
      = Inl (verr verifier_error.InsufficientBalance)" for dp cb a
    by (simp add: revoke_with_callback_def ensure_signed_def revoke_from_def has_authorized_morethan_def
        ref_runtime_state_def get_reserve_def ref_runtime_def ref_libs_def)
  have three: "nested_dispatch ref_runtime 3 rc a s
      = run_runtime_call ref_runtime (nested_dispatch ref_runtime 2) rc (SignedOrigin a) s" for rc a s
    by (simp add: numeral_3_eq_3 numeral_2_eq_2)
  have "\<exists>s. run_runtime_call ref_runtime (nested_dispatch ref_runtime 3) demo_nested NoneOrigin ref_runtime_state = Inr s"
    by (simp add: demo_nested_def submit_external_tx_def ensure_none_def signer three inner del: run_runtime_call.simps(1))
  then show ?thesis using bounded [of NoneOrigin] weight by auto
qed

end
