(* ===== verification/Runtime_Clock.thy ===== *)
theory Runtime_Clock
  imports Staking_Correct Verifier_World
begin

text \<open>Only the system moves the clock: no call of the runtime changes the number of the block.\<close>

abbreviation same_clock :: "('n, 'z) token_state_scheme \<Rightarrow> ('n, 'z) token_state_scheme \<Rightarrow> bool" where
  "same_clock w w' \<equiv> block_number w' = block_number w"

lemma ledger_clock: "same_ledger w w' \<Longrightarrow> same_clock w w'"
  by (simp add: same_ledger_def)

interpretation clock_frame: ledger_frame "runtime_config R dp" same_clock
  for R :: "'n runtime_params" and dp :: "'n runtime_dispatch"
  by unfold_locales (auto simp: inc_account_nonce_def dest: asset_block
      consume_liquidity_ledger [THEN ledger_clock] remove_liquidity_ledger [THEN ledger_clock]
      open_market_ledger [THEN ledger_clock]
      intro: put_liquidity_ledger [THEN ledger_clock] set_price_ledger [THEN ledger_clock])

lemma clock_calls:
  assumes "\<And>call a s s'. dp call a s = Inr s' \<Longrightarrow> same_clock (world s) (world s')"
  shows "runtime_calls R dp (\<lambda>s s'. same_clock (world s) (world s'))"
proof -
  have frame: "world_frame (runtime_config R dp) same_clock"
    by unfold_locales (simp add: assms)
  show ?thesis
    by unfold_locales (auto simp: quiet_def intro: assms world_frame.call_world [OF frame]
        clock_frame.authorize_to_world clock_frame.revoke_from_world)
qed

lemma call_keeps_clock:
  assumes "\<And>call a s s'. dp call a s = Inr s' \<Longrightarrow> same_clock (world s) (world s')"
    and "run_runtime_call R dp call o' s = Inr s'"
  shows "same_clock (world s) (world s')"
  using runtime_calls.Q_call [OF clock_calls [of dp R, OF assms(1)] assms(2)] .

lemma nested_clock: "nested_dispatch R n call a s = Inr s' \<Longrightarrow> same_clock (world s) (world s')"
proof (induction n arbitrary: call a s s')
  case (Suc n)
  then have run: "run_runtime_call R (nested_dispatch R n) call (SignedOrigin a) s = Inr s'" by simp
  show ?case by (rule call_keeps_clock [OF _ run]) (rule Suc.IH)
qed simp

lemma call_clock:
  assumes "run_runtime_call R (nested_dispatch R n) call o' s = Inr s'"
  shows "same_clock (world s) (world s')"
  by (rule call_keeps_clock [OF _ assms]) (rule nested_clock)

end
