(* ===== verification/Tournament_Quiet.thy ===== *)
theory Tournament_Quiet
  imports Tournament Runtime_Backing
begin

text \<open>
  No call of the tournament changes a reserved balance or the clock: the pallet transfers and mints, and
  writes its own storage. \<open>leaves\<close> says so of the outcome of an operation, and its rules follow the shape of
  a body: a sequence, a guard, a branch, a write.
\<close>

definition leaves ::
  "'n token_config \<Rightarrow> ('n, 'z) token_state_scheme \<Rightarrow> ('n, 'z) token_state_scheme result \<Rightarrow> bool" where
  "leaves c w r \<longleftrightarrow> (\<forall>w'. r = Inr w' \<longrightarrow> quiet c w w')"

named_theorems leaving \<open>rules for the outcome of an operation that leaves the reserved balances\<close>

lemma leavesD: "leaves c w r \<Longrightarrow> r = Inr w' \<Longrightarrow> quiet c w w'"
  by (simp add: leaves_def)

lemma leaves_then: "leaves c w m \<Longrightarrow> (\<And>u. quiet c w u \<Longrightarrow> leaves c w (k u)) \<Longrightarrow> leaves c w (and_then m k)"
  by (auto simp: leaves_def and_then_Inr)

lemma leaves_value: "(\<And>x. leaves c w (k x)) \<Longrightarrow> leaves c w (and_then m k)"
  by (auto simp: leaves_def and_then_Inr)

lemma leaves_branches [leaving]:
  "quiet c w u \<Longrightarrow> leaves c w (Inr u)"
  "leaves c w (Inl e)"
  "leaves c w r \<Longrightarrow> leaves c w (ensure b e r)"
  "leaves c w r \<Longrightarrow> leaves c w (organizer tc o' r)"
  "leaves c w r \<Longrightarrow> leaves c w q \<Longrightarrow> leaves c w (if b then r else q)"
  "leaves c w n \<Longrightarrow> (\<And>x. leaves c w (f x)) \<Longrightarrow> leaves c w (case y of None \<Rightarrow> n | Some x \<Rightarrow> f x)"
  "quiet c w u \<Longrightarrow> leaves c w r \<Longrightarrow> leaves c w (drop_error u r)"
  by (auto simp: leaves_def ensure_Inr organizer_def drop_error_Inr split: option.splits)

lemma leaves_ledger [leaving]:
  assumes "quiet c w u"
  shows "leaves c w (transfer_token c a t v b u)" "leaves c w (mint_into t a v u)" "leaves c w (donate c d v a u)"
  using assms by (auto simp: leaves_def donate_def drop_error_Inr
      intro: quiet_trans transfer_token_quiet mint_into_quiet split: if_splits)

lemma quiet_cong:
  "token_balances u' = token_balances u \<Longrightarrow> native u' = native u \<Longrightarrow> block_number u' = block_number u
    \<Longrightarrow> quiet c w u' = quiet c w u"
  by (simp add: quiet_def same_reserved_def reserved_balance_def get_token_balance_def)

lemma quiet_writes [simp]:
  fixes u :: "('n, 'z) tournament_state_scheme"
  shows "quiet c w (u\<lparr>next_season_id := i\<rparr>) = quiet c w u" "quiet c w (u\<lparr>next_npc_id := i\<rparr>) = quiet c w u"
    "quiet c w (u\<lparr>next_battle_id := i\<rparr>) = quiet c w u" "quiet c w (u\<lparr>next_betting_id := i\<rparr>) = quiet c w u"
    "quiet c w (u\<lparr>default_season := i\<rparr>) = quiet c w u" "quiet c w (u\<lparr>npcs := f1\<rparr>) = quiet c w u"
    "quiet c w (u\<lparr>betting_invite_amount := f2\<rparr>) = quiet c w u" "quiet c w (u\<lparr>betting_by_battle := f3\<rparr>) = quiet c w u"
    "quiet c w (u\<lparr>battles := f4\<rparr>) = quiet c w u" "quiet c w (u\<lparr>bettings := f5\<rparr>) = quiet c w u"
    "quiet c w (u\<lparr>betting_records := f6\<rparr>) = quiet c w u" "quiet c w (u\<lparr>season_winners := f7\<rparr>) = quiet c w u"
    "quiet c w (u\<lparr>seasons := f8\<rparr>) = quiet c w u" "quiet c w (u\<lparr>participant_points := f9\<rparr>) = quiet c w u"
    "quiet c w (u\<lparr>npc_points := f10\<rparr>) = quiet c w u" "quiet c w (u\<lparr>tickets := f11\<rparr>) = quiet c w u"
    "quiet c w (u\<lparr>invite_code := f12\<rparr>) = quiet c w u" "quiet c w (u\<lparr>invite_records := f13\<rparr>) = quiet c w u"
    "quiet c w (u\<lparr>vote_select_infos := f14\<rparr>) = quiet c w u" "quiet c w (u\<lparr>votes_for_calc := f15\<rparr>) = quiet c w u"
    "quiet c w (u\<lparr>tournament_events := f16\<rparr>) = quiet c w u"
  by (rule quiet_cong; simp)+

lemma quiet_puts [simp]:
  "quiet c w (put_season i x u) = quiet c w u" "quiet c w (put_battle i b u) = quiet c w u"
  "quiet c w (deposit_tournament e u) = quiet c w u" "quiet c w (store_season i x u) = quiet c w u"
  "quiet c w (put_betting k bt u) = quiet c w u" "quiet c w (add_tickets i a n u) = quiet c w u"
  by (simp_all add: put_season_def put_battle_def deposit_tournament_def store_season_def put_betting_def
      add_tickets_def)

lemma quiet_points [simp]:
  "quiet c w (score_vote i k ba n e u) = quiet c w u" "quiet c w (update_npc_league_point i x y d ty u) = quiet c w u"
  by (simp_all add: score_vote_def update_npc_league_point_def Let_def split: prod.splits)

lemma quiet_votes [simp]: "quiet c w (fold (score_vote i k ba n) es u) = quiet c w u"
  by (induction es arbitrary: u) simp_all

lemma record_leaves [leaving]:
  fixes u :: "('n, 'z) tournament_state_scheme"
  assumes "quiet (tn_token c) w u"
  shows "leaves (tn_token c) w (create_npc c o' a1 b1 d1 e1 u)"
    "leaves (tn_token c) w (create_season c o' a b t2 p u)"
    "leaves (tn_token c) w (update_season_current_round c o' i t3 u)"
    "leaves (tn_token c) w (update_season c o' i a b t1 j p u)"
    "leaves (tn_token c) w (set_default_season c o' i u)"
    "leaves (tn_token c) w (create_battle c o' i1 t4 h1 v1 s1 n1 u)"
    "leaves (tn_token c) w (update_battle c o' j1 i1 t4 h1 v1 s1 n1 u)"
    "leaves (tn_token c) w (set_result c o' i x y url u)"
  unfolding create_npc_def create_season_def update_season_current_round_def update_season_def
      set_default_season_def create_battle_def update_battle_def set_result_def Let_def
  by (rule leaving leaves_then leaves_value | simp add: assms split: option.splits)+

lemma give_leaves [leaving]:
  fixes u :: "('n, 'z) tournament_state_scheme"
  shows "quiet (tn_token c) w u \<Longrightarrow> leaves (tn_token c) w (give_tickets c i as u)"
    "quiet (tn_token c) w u \<Longrightarrow> leaves (tn_token c) w (give_fees c as u)"
  by (induction as arbitrary: u) (simp_all, (rule leaving leaves_then leaves_value | simp)+)

lemma money_leaves [leaving]:
  fixes u :: "('n, 'z) tournament_state_scheme"
  assumes "quiet (tn_token c) w u"
  shows "leaves (tn_token c) w (give_away_tickets c o' i b u)"
    "leaves (tn_token c) w (give_away_fee c o' b u)"
    "leaves (tn_token c) w (withdraw_season_treasury c o' i a n u)"
    "leaves (tn_token c) w (tournament_deposit c o' a n r u)"
    "leaves (tn_token c) w (tournament_swap c o' a n r u)"
    "leaves (tn_token c) w (revoke_remain_compensate c o' i u)"
    "leaves (tn_token c) w (transfer_ticket c o' i m a u)"
  unfolding give_away_tickets_def give_away_fee_def withdraw_season_treasury_def tournament_deposit_def
    tournament_swap_def swap_from_pool_def revoke_remain_compensate_def transfer_ticket_def Let_def case_prod_unfold
  by (rule leaving leaves_then leaves_value | simp add: assms)+

lemma settle_leaves [leaving]:
  fixes u :: "('n, 'z) tournament_state_scheme"
  assumes "quiet (tn_token c) w u"
  shows "leaves (tn_token c) w (finals_settle c o' i u)"
    "leaves (tn_token c) w (league_settle c o' i u)"
    "leaves (tn_token c) w (close_season c o' i u)"
  unfolding finals_settle_def league_settle_def close_season_def update_participant_point_def finalize_battle_def Let_def
    case_prod_unfold
  by (rule leaving leaves_then leaves_value | simp add: assms)+

lemma vote_leaves [leaving]:
  fixes u :: "('n, 'z) tournament_state_scheme"
  shows "quiet (tn_token c) w u \<Longrightarrow> leaves (tn_token c) w (put_vote_list c a i xs u)"
    "quiet (tn_token c) w u \<Longrightarrow> leaves (tn_token c) w (cast_votes c a j x i xs u)"
    "quiet (tn_token c) w u \<Longrightarrow> leaves (tn_token c) w (extend_votes c a j i xs u)"
  by (induction xs arbitrary: u)
    (simp_all add: put_vote_def, (rule leaving leaves_then leaves_value | simp)+)

lemma leaves_invitor [leaving]:
  fixes u :: "('n, 'z) tournament_state_scheme"
  assumes "quiet (tn_token c) w u" and k: "\<And>x v. quiet (tn_token c) w v \<Longrightarrow> leaves (tn_token c) w (k (x, v))"
  shows "leaves (tn_token c) w (and_then (pay_invitor c who code m u) k)"
proof -
  have "quiet (tn_token c) w v" if "pay_invitor c who code m u = Inr (x, v)" for x v
    using that assms(1)
    by (auto simp: pay_invitor_def Let_def and_then_Inr case_prod_unfold split: option.splits if_splits
        dest!: transfer_token_quiet intro: quiet_trans)
  then show ?thesis using k by (auto simp: leaves_def and_then_Inr)
qed

lemma sheet_leaves [leaving]:
  fixes u :: "('n, 'z) tournament_state_scheme"
  assumes "quiet (tn_token c) w u"
  shows "leaves (tn_token c) w (buy_ticket c o' m code u)"
    "leaves (tn_token c) w (initial_vote c o' i m xs u)"
    "leaves (tn_token c) w (append_vote c o' i k ty m xs u)"
    "leaves (tn_token c) w (tournament_claim c o' i u)"
  unfolding buy_ticket_def initial_vote_def append_vote_def append_whole_def append_split_def tournament_claim_def
    Let_def case_prod_unfold
  by (rule leaving leaves_then leaves_value | simp add: assms)+

lemma bet_leaves [leaving]:
  fixes u :: "('n, 'z) tournament_state_scheme"
  assumes "quiet (tn_token c) w u"
  shows "leaves (tn_token c) w (go_bet_for c a k i v u)"
  unfolding go_bet_for_def Let_def by (rule leaving leaves_then leaves_value | simp add: assms)+

lemma betting_leaves [leaving]:
  fixes u :: "('n, 'z) tournament_state_scheme"
  assumes "quiet (tn_token c) w u"
  shows "leaves (tn_token c) w (go_bet c o' k i v u)"
    "leaves (tn_token c) w (go_bet_with_invite c o' k i v code u)"
    "leaves (tn_token c) w (betting_claim c o' k u)"
    "leaves (tn_token c) w (append_betting_pledge c o' k v u)"
    "leaves (tn_token c) w (drop_betting c o' k u)"
    "leaves (tn_token c) w (update_odds c o' k os u)"
    "leaves (tn_token c) w (create_betting c o' bty bs ps j v u)"
  unfolding go_bet_def go_bet_with_invite_def betting_claim_def append_betting_pledge_def drop_betting_def
    update_odds_def create_betting_def Let_def case_prod_unfold
  by (rule leaving leaves_then leaves_value | simp add: assms split: option.splits)+

lemma tournament_quiet:
  assumes "run_tournament_call c call o' w = Inr w'"
  shows "quiet (tn_token c) w w'"
proof -
  have "leaves (tn_token c) w (run_tournament_call c call o' w)"
    by (cases call) (simp_all add: leaving)
  then show ?thesis using assms by (rule leavesD)
qed

end
