(* ===== verification/Chain_Correct.thy ===== *)
theory Chain_Correct
  imports Chain Vault_Backing Runtime_Clock Runtime_Schedule Tournament_Quiet Tournament_Invariants
begin

text \<open>
  The whole chain: the runtime, the vault and the tournament on the same ledgers. What the verifier holds and
  what the vault owes stay backed together, so that neither is paid out of the other; and seen from the runtime
  and from the tournament the chain is a run of theirs, so that what is proved of them holds on the chain.
\<close>

section \<open>Steps\<close>

definition funds :: "'n chain_state \<Rightarrow> (account \<times> foundation_data) list" where
  "funds ch = foundation (vault_view ch)"

text \<open>
  A step of the chain: a call, the start of a later block, the time of the tournament, or a change of the
  native balances by a pallet outside the model that releases no reserve. Which calls a run admits is a
  parameter of the step: \<open>\<lambda>_. True\<close> is the chain as it is. The pallet accepts every fund that is put into the
  vault; \<open>sound_call\<close> are the calls whose fund is sound: its total fits into a \<open>u128\<close>, and it pays at least once
  and at an interval.
\<close>

fun sound_call :: "chain_call \<Rightarrow> bool" where
  "sound_call (PutIntoVault a f need) \<longleftrightarrow> sound_fund f"
| "sound_call _ \<longleftrightarrow> True"

abbreviation currency_of :: "'n chain_params \<Rightarrow> 'n native_currency" where
  "currency_of C \<equiv> currency (rt_token (cp_runtime C))"

abbreviation clock :: "'n chain_state \<Rightarrow> block_number" where
  "clock ch \<equiv> block_number (world (runtime ch))"

inductive chain_step :: "(chain_call \<Rightarrow> bool) \<Rightarrow> 'n chain_params \<Rightarrow> nat \<Rightarrow> 'n chain_state \<Rightarrow> 'n chain_state \<Rightarrow> bool"
  for admit :: "chain_call \<Rightarrow> bool" and C :: "'n chain_params" and n :: nat
  where
    cs_call: "run_chain_call C n call o' ch = Inr ch' \<Longrightarrow> admit call \<Longrightarrow> chain_step admit C n ch ch'"
  | cs_block: "begin_chain_block C n now ch = Inr ch' \<Longrightarrow> clock ch < now \<Longrightarrow> chain_step admit C n ch ch'"
  | cs_time: "on_games (\<lambda>g. Inr (g\<lparr>moment := t\<rparr>)) ch = Inr ch' \<Longrightarrow> chain_step admit C n ch ch'"
  | cs_balances: "\<forall>a. nc_reserved (currency_of C) a (native (world (runtime ch))) \<le> nc_reserved (currency_of C) a n'
      \<Longrightarrow> chain_step admit C n ch (ch\<lparr>runtime := (runtime ch)\<lparr>world := (world (runtime ch))
        \<lparr>native := n', account_nonce := nonces\<rparr>\<rparr>\<rparr>)"

text \<open>At the start the vault holds what the genesis of its pallet reserved.\<close>

definition chain_genesis :: "'n chain_params \<Rightarrow> 'n chain_state \<Rightarrow> bool" where
  "chain_genesis C ch \<longleftrightarrow> runtime_genesis (runtime ch) \<and> tournament_genesis (games_view ch)
    \<and> distinct (List.map fst (funds ch))
    \<and> (\<forall>(a, f) \<in> set (funds ch). sound_fund f
        \<and> fund_total f \<le> nc_reserved (currency_of C) a (native (world (runtime ch))))"

abbreviation chain_reachable :: "(chain_call \<Rightarrow> bool) \<Rightarrow> 'n chain_params \<Rightarrow> nat \<Rightarrow> 'n chain_state \<Rightarrow> bool" where
  "chain_reachable admit C n \<equiv> reachable (chain_genesis C) (chain_step admit C n)"

section \<open>What is held and owed\<close>

definition vault_owes :: "'n chain_params \<Rightarrow> 'n chain_state \<Rightarrow> token_id \<Rightarrow> account \<Rightarrow> nat" where
  "vault_owes C ch t a =
    (if t = native_id (rt_token (cp_runtime C)) then account_due (next_epoch (cp_duration C) (clock ch)) (funds ch) a else 0)"

definition chain_ok :: "'n chain_params \<Rightarrow> 'n chain_state \<Rightarrow> bool" where
  "chain_ok C ch \<longleftrightarrow> runtime_ok_with (cp_runtime C) (vault_owes C ch) (runtime ch) \<and> funds_ok (funds ch)"

lemma foundation_more: "token_state.more v = token_state.more w \<Longrightarrow> foundation v = foundation w"
  by (cases v; cases w) simp

lemma funds_vault: "vault ch' = vault ch \<Longrightarrow> funds ch' = funds ch"
  unfolding funds_def by (rule foundation_more) simp

lemma funds_put [simp]: "funds (put_vault v ch) = foundation v"
  by (simp add: funds_def vault_storage.view_put)

lemma reserved_games [simp]:
  "reserved_balance c t a (games_view ch) = reserved_balance c t a (world (runtime ch))"
  "reserved_balance c t a (world (runtime (put_games g ch))) = reserved_balance c t a g"
  by (simp_all add: reserved_balance_def get_token_balance_def)

text \<open>Only the ledger, the clock and the funds count.\<close>

lemma runtime_ok_change:
  assumes "runtime_ok_with R others s" and "reserves s' = reserves s" and "receipts s' = receipts s"
    and "\<And>t a. good_token R' t \<Longrightarrow> R' = rt_token R \<Longrightarrow>
      held a t (reserves s) + others t a \<le> unat (reserved_balance R' t a (world s))
      \<Longrightarrow> held a t (reserves s) + others' t a \<le> unat (reserved_balance R' t a (world s'))"
  shows "R' = rt_token R \<Longrightarrow> runtime_ok_with R others' s'"
  using assms by (auto simp: custody_ok_def receipt_covered_def get_reserve_def)

lemma chain_ok_quiet:
  assumes ok: "chain_ok C ch" and "quiet (rt_token (cp_runtime C)) (world (runtime ch)) (world (runtime ch'))"
    and "reserves (runtime ch') = reserves (runtime ch)" "receipts (runtime ch') = receipts (runtime ch)"
    and "funds ch' = funds ch"
  shows "chain_ok C ch'"
proof -
  have owes: "vault_owes C ch' = vault_owes C ch" using assms by (simp add: vault_owes_def quiet_def fun_eq_iff)
  have "runtime_ok_with (cp_runtime C) (vault_owes C ch') (runtime ch')"
    using assms(1-4) unfolding owes chain_ok_def
    by (intro runtime_ok_change [OF _ assms(3,4) _ refl]) (auto simp: same_reserved_def quiet_def)
  with ok assms(5) show ?thesis by (simp add: chain_ok_def)
qed

section \<open>The steps of the components\<close>

lemma runtime_call_ok:
  assumes ok: "chain_ok C ch" and run: "run_chain_call C n (RuntimeCall call) o' ch = Inr ch'"
  shows "chain_ok C ch'"
proof -
  obtain s where s: "run_runtime_call (cp_runtime C) (nested_dispatch (cp_runtime C) n) call o' (runtime ch) = Inr s"
    and ch': "ch' = ch\<lparr>runtime := s\<rparr>"
    using run by (auto simp: on_runtime_def and_then_Inr)
  have f: "funds ch' = funds ch" by (rule funds_vault) (simp add: ch')
  moreover have "vault_owes C ch' = vault_owes C ch" using call_clock [OF s] f by (simp add: ch' vault_owes_def fun_eq_iff)
  ultimately show ?thesis using ok call_ok_with [OF s] by (simp add: chain_ok_def ch')
qed

lemma games_quiet:
  assumes "on_games f ch = Inr ch'" and "\<And>g. f (games_view ch) = Inr g \<Longrightarrow> quiet c (games_view ch) g"
  shows "quiet c (world (runtime ch)) (world (runtime ch'))"
    and "reserves (runtime ch') = reserves (runtime ch)" "receipts (runtime ch') = receipts (runtime ch)"
    and "vault ch' = vault ch"
proof -
  obtain g where g: "f (games_view ch) = Inr g" and ch': "ch' = put_games g ch"
    using assms(1) by (auto simp: on_games_def and_then_Inr)
  show "quiet c (world (runtime ch)) (world (runtime ch'))"
    using assms(2) [OF g]
    by (simp add: ch' quiet_def same_reserved_def)
  show "reserves (runtime ch') = reserves (runtime ch)" "receipts (runtime ch') = receipts (runtime ch)"
    "vault ch' = vault ch"
    by (simp_all add: ch')
qed

lemma games_ok:
  assumes "chain_ok C ch" and "on_games f ch = Inr ch'"
    and "\<And>g. f (games_view ch) = Inr g \<Longrightarrow> quiet (rt_token (cp_runtime C)) (games_view ch) g"
  shows "chain_ok C ch'"
  using chain_ok_quiet [OF assms(1) games_quiet(1-3) [OF assms(2,3)] funds_vault [OF games_quiet(4) [OF assms(2,3)]]]
  by blast

text \<open>The vault: the debts and the reserved balances it moves fit together.\<close>

definition debts_paid :: "'n chain_params \<Rightarrow> 'n chain_state \<Rightarrow> 'n foundation_state \<Rightarrow> bool" where
  "debts_paid C ch v \<longleftrightarrow> token_balances v = token_balances (world (runtime ch))
    \<and> (\<forall>h. (\<forall>b. h b + account_due (next_epoch (cp_duration C) (clock ch)) (funds ch) b
          \<le> unat (nc_reserved (currency_of C) b (native (world (runtime ch)))))
      \<longrightarrow> funds_ok (foundation v) \<and> (\<forall>a. h a + account_due (next_epoch (cp_duration C) (block_number v)) (foundation v) a
          \<le> unat (nc_reserved (currency_of C) a (native v))))"

lemma vault_ok:
  assumes ok: "chain_ok C ch" and laws: "vault_laws (currency_of C)" and v: "debts_paid C ch v"
  shows "chain_ok C (put_vault v ch)"
proof -
  let ?R = "cp_runtime C" and ?h = "\<lambda>a. held a (native_id (rt_token (cp_runtime C))) (reserves (runtime ch))"
  let ?ch = "put_vault v ch"
  have good: "good_token (rt_token ?R) (native_id (rt_token ?R))"
    using laws by (simp add: good_token_def vault_laws_def)
  have "?h b + account_due (next_epoch (cp_duration C) (clock ch)) (funds ch) b
      \<le> unat (nc_reserved (currency_of C) b (native (world (runtime ch))))" for b
    using ok custody_okD(2) [where good = "good_token (rt_token ?R)", OF _ good, of "token_asset (rt_token ?R)"
        "vault_owes C ch" "runtime ch" b]
    by (simp add: chain_ok_def vault_owes_def reserved_balance_def)
  then have "\<forall>b. ?h b + account_due (next_epoch (cp_duration C) (clock ch)) (funds ch) b
      \<le> unat (nc_reserved (currency_of C) b (native (world (runtime ch))))" ..
  note all = v [unfolded debts_paid_def, THEN conjunct2, THEN spec, THEN mp, OF this]
  note paid = conjunct1 [OF all] spec [OF conjunct2 [OF all]]
  have "runtime_ok_with ?R (vault_owes C ?ch) (runtime ?ch)"
  proof (rule runtime_ok_change [OF _ _ _ _ refl])
    show "runtime_ok_with ?R (vault_owes C ch) (runtime ch)" using ok by (simp add: chain_ok_def)
    fix t a
    assume "held a t (reserves (runtime ch)) + vault_owes C ch t a \<le> unat (reserved_balance (rt_token ?R) t a (world (runtime ch)))"
    then show "held a t (reserves (runtime ch)) + vault_owes C ?ch t a \<le> unat (reserved_balance (rt_token ?R) t a (world (runtime ?ch)))"
      using paid(2) [of a] v
      by (auto simp: debts_paid_def vault_owes_def reserved_balance_def get_token_balance_def)
  qed simp_all
  then show ?thesis using paid(1) by (simp add: chain_ok_def)
qed

lemma on_vault_Inr: "on_vault f ch = Inr ch' \<longleftrightarrow> (\<exists>v. f (vault_view ch) = Inr v \<and> ch' = put_vault v ch)"
  by (auto simp: on_vault_def and_then_Inr)

lemma on_games_Inr: "on_games f ch = Inr ch' \<longleftrightarrow> (\<exists>g. f (games_view ch) = Inr g \<and> ch' = put_games g ch)"
  by (auto simp: on_games_def and_then_Inr)

lemma on_runtime_Inr: "on_runtime f ch = Inr ch' \<longleftrightarrow> (\<exists>s. f (runtime ch) = Inr s \<and> ch' = ch\<lparr>runtime := s\<rparr>)"
  by (auto simp: on_runtime_def and_then_Inr)

lemma put_debts_paid:
  assumes laws: "vault_laws (currency_of C)" and sound: "sound_fund f" and ok: "funds_ok (funds ch)"
    and run: "put_into_vault (foundation_config_of C) o' a f need (vault_view ch) = Inr v"
  shows "debts_paid C ch v"
proof -
  have laws': "vault_laws (fnd_currency (foundation_config_of C))" using laws by simp
  note put = put_into_vault_due [OF laws' run ok [unfolded funds_def] sound]
  then show ?thesis by (simp add: debts_paid_def same_tokens_def funds_def)
qed

lemma approve_debts_paid: "approve o' a e (vault_view ch) = Inr v \<Longrightarrow> funds_ok (funds ch) \<Longrightarrow> debts_paid C ch v"
  by (drule approve_frame) (simp add: debts_paid_def same_tokens_def funds_def)

lemma put_set_number [simp]: "put_vault v (set_number now ch) = put_vault v ch"
  by (simp add: put_vault_def set_number_def)

lemma set_number_simps [simp]:
  "native (world (runtime (set_number now ch))) = native (world (runtime ch))"
  "token_balances (world (runtime (set_number now ch))) = token_balances (world (runtime ch))"
  "clock (set_number now ch) = now" "vault (set_number now ch) = vault ch"
  by (simp_all add: set_number_def)

lemma funds_set_number [simp]: "funds (set_number now ch) = funds ch"
  by (rule funds_vault) simp

lemma hook_debts_paid:
  assumes laws: "vault_laws (currency_of C)" and ok: "funds_ok (funds ch)" and now: "clock ch < now"
    and run: "foundation_initialize (foundation_config_of C) now (vault_view (set_number now ch)) = Inr v"
  shows "debts_paid C ch v" and "block_number v = now"
proof -
  have laws': "vault_laws (fnd_currency (foundation_config_of C))" using laws by simp
  have f: "foundation (vault_view (set_number now ch)) = funds ch" by (simp add: funds_def [symmetric])
  note hook = initialize_due [OF laws' run ok [folded f] now, unfolded f]
  show number: "block_number v = now"
    using initialize_tokens [OF run] by (simp add: same_tokens_def)
  show "debts_paid C ch v"
    unfolding debts_paid_def
  proof (intro conjI allI impI)
    fix h
    assume "\<forall>b. h b + account_due (next_epoch (cp_duration C) (clock ch)) (funds ch) b
      \<le> unat (nc_reserved (currency_of C) b (native (world (runtime ch))))"
    then have due: "\<And>b. h b + account_due (next_epoch (fnd_duration (foundation_config_of C)) (clock ch)) (funds ch) b
      \<le> res_of (foundation_config_of C) b (vault_view (set_number now ch))"
      by simp
    show "funds_ok (foundation v)" by (rule hook(2) [OF due])
    show "h a + account_due (next_epoch (cp_duration C) (block_number v)) (foundation v) a
        \<le> unat (nc_reserved (currency_of C) a (native v))" for a
      using hook(1) [OF due] number by simp
  qed (use initialize_tokens [OF run] in \<open>simp add: same_tokens_def\<close>)
qed

text \<open>A change of the native balances that releases no reserve.\<close>

lemma balances_ok:
  assumes "chain_ok C ch"
    and "\<forall>a. nc_reserved (currency_of C) a (native (world (runtime ch))) \<le> nc_reserved (currency_of C) a n'"
  shows "chain_ok C (ch\<lparr>runtime := (runtime ch)\<lparr>world := (world (runtime ch))\<lparr>native := n', account_nonce := nonces\<rparr>\<rparr>\<rparr>)"
    (is "chain_ok C ?ch")
proof -
  have f: "funds ?ch = funds ch" by (rule funds_vault) simp
  then have owes: "vault_owes C ?ch = vault_owes C ch" by (simp add: vault_owes_def fun_eq_iff)
  have "runtime_ok_with (cp_runtime C) (vault_owes C ?ch) (runtime ?ch)"
    unfolding owes using assms custody_mono [of "token_asset (rt_token (cp_runtime C))" _ "vault_owes C ch" "runtime ch"]
    by (simp add: chain_ok_def reserved_balance_def get_token_balance_def)
  then show ?thesis using assms(1) f by (simp add: chain_ok_def)
qed

text \<open>The start of a block: the vault's hook, then the verifier's.\<close>

lemma begin_chain_block_Inr:
  assumes "begin_chain_block C n now ch = Inr ch'"
  obtains v s where "foundation_initialize (foundation_config_of C) now (vault_view (set_number now ch)) = Inr v"
    and "begin_block (cp_runtime C) n now (runtime (put_vault v ch)) = Inr s" and "ch' = (put_vault v ch)\<lparr>runtime := s\<rparr>"
  using assms by (auto simp: begin_chain_block_def and_then_Inr on_vault_Inr on_runtime_Inr)

lemma block_ok:
  assumes ok: "chain_ok C ch" and laws: "vault_laws (currency_of C)" and now: "clock ch < now"
    and run: "begin_chain_block C n now ch = Inr ch'"
  shows "chain_ok C ch'"
  using run
proof (cases rule: begin_chain_block_Inr)
  case (1 v s)
  have f: "funds_ok (funds ch)" using ok by (simp add: chain_ok_def)
  note hook = hook_debts_paid [OF laws f now 1(1)]
  have ok1: "chain_ok C (put_vault v ch)" by (rule vault_ok [OF ok laws hook(1)])
  have "funds ch' = funds (put_vault v ch)" by (rule funds_vault) (simp add: 1)
  moreover have "clock ch' = clock (put_vault v ch)" using begin_block_number [OF 1(2)] hook(2) by (simp add: 1)
  ultimately have "vault_owes C ch' = vault_owes C (put_vault v ch)" "funds_ok (funds ch')"
    using ok1 by (simp_all add: vault_owes_def fun_eq_iff chain_ok_def)
  then show ?thesis using ok1 block_ok_with [OF 1(2)] by (simp add: chain_ok_def 1)
qed

lemma chain_call_ok:
  assumes ok: "chain_ok C ch" and laws: "vault_laws (currency_of C)" and "sound_call call"
    and run: "run_chain_call C n call o' ch = Inr ch'"
  shows "chain_ok C ch'"
proof -
  have f: "funds_ok (funds ch)" using ok by (simp add: chain_ok_def)
  show ?thesis
  proof (cases call)
    case (RuntimeCall c)
    with ok run show ?thesis by (blast intro: runtime_call_ok)
  next
    case (PutIntoVault a g need)
    with run assms(3) show ?thesis
      by (auto simp: on_vault_Inr intro: vault_ok [OF ok laws] put_debts_paid [OF laws _ f])
  next
    case (ApproveRelease a e)
    with run show ?thesis
      by (auto simp: on_vault_Inr intro: vault_ok [OF ok laws] approve_debts_paid [OF _ f])
  next
    case (TournamentCall c)
    with run have "on_games (run_tournament_call (tournament_config_of C) c o') ch = Inr ch'" by simp
    then show ?thesis
      by (rule games_ok [OF ok]) (use tournament_quiet [of "tournament_config_of C"] in \<open>simp\<close>)
  qed
qed

lemma chain_step_ok:
  assumes "chain_step sound_call C n ch ch'" and ok: "chain_ok C ch" and laws: "vault_laws (currency_of C)"
  shows "chain_ok C ch'"
  using assms(1)
proof cases
  case (cs_call call o')
  then show ?thesis by (blast intro: chain_call_ok [OF ok laws])
next
  case (cs_block now)
  then show ?thesis by (blast intro: block_ok [OF ok laws])
next
  case (cs_time t)
  then show ?thesis by (rule games_ok [OF ok]) (auto intro: quiet_eq)
next
  case cs_balances
  then show ?thesis using balances_ok [OF ok] by blast
qed

lemma chain_genesis_ok:
  assumes "chain_genesis C ch"
  shows "chain_ok C ch"
proof -
  let ?R = "cp_runtime C"
  have f: "funds_ok (funds ch)" using assms by (auto simp: chain_genesis_def funds_ok_def sound_fund_def)
  have "vault_owes C ch t a \<le> unat (reserved_balance (rt_token ?R) t a (world (runtime ch)))" for t a
  proof (cases "map_of (funds ch) a")
    case (Some f)
    then have f: "sound_fund f" "fund_total f \<le> nc_reserved (currency_of C) a (native (world (runtime ch)))"
      using assms by (auto simp: chain_genesis_def dest!: map_of_SomeD)
    have "fund_due e f \<le> unat (fund_total f)" for e by (simp add: fund_due_def sound_total [OF f(1)])
    then show ?thesis
      using Some f(2) by (auto simp: vault_owes_def account_due_def reserved_balance_def word_le_nat_alt intro: le_trans)
  qed (simp add: vault_owes_def account_due_def)
  then show ?thesis
    using assms f by (auto simp: chain_ok_def chain_genesis_def custody_ok_def runtime_genesis_def held_def
        receipt_covered_def case_prod_unfold)
qed

section \<open>The chain seen from its components\<close>

text \<open>The start of a chain whose \<open>pallet_balances\<close> keeps its documented laws.\<close>

definition lawful_genesis :: "'n chain_params \<Rightarrow> 'n chain_state \<Rightarrow> bool" where
  "lawful_genesis C ch \<longleftrightarrow> vault_laws (currency_of C) \<and> chain_genesis C ch"

lemma lawful_reachable:
  "chain_reachable sound_call C n ch \<Longrightarrow> vault_laws (currency_of C) \<Longrightarrow> reachable (lawful_genesis C) (chain_step sound_call C n) ch"
  by (induction rule: reachable.induct) (auto simp: lawful_genesis_def intro: reachable.intros)

lemma upper_of_more: "token_state.more w' = token_state.more w \<Longrightarrow> oracle_state.more w' = oracle_state.more w"
  by (cases w; cases w') simp

lemma put_vault_upper [simp]: "oracle_state.more (world (runtime (put_vault v ch))) = oracle_state.more (world (runtime ch))"
  by (rule upper_of_more) simp

lemma runtime_put:
  "runtime (put_vault v ch) = (runtime ch)\<lparr>world := world (runtime (put_vault v ch))\<rparr>"
  "runtime (put_games g ch) = (runtime ch)\<lparr>world := world (runtime (put_games g ch))\<rparr>"
  by (simp_all add: put_vault_def put_games_def)

lemma chain_ok_backed:
  assumes "chain_ok C ch" and "good_token (rt_token (cp_runtime C)) t"
  shows "held a t (reserves (runtime ch)) + vault_owes C ch t a
    \<le> unat (reserved_balance (rt_token (cp_runtime C)) t a (world (runtime ch)))"
  using custody_okD(2) [where good = "good_token (rt_token (cp_runtime C))", OF _ assms(2)] assms(1)
  unfolding chain_ok_def by (metis token_asset_simps(4))

lemmas chain_ok_held = chain_ok_backed [THEN add_leD1]

text \<open>A step that works on the ledgers only is an outside step of the runtime.\<close>

lemma ledgers_step:
  assumes "chain_ok C ch'" and "runtime ch' = (runtime ch)\<lparr>world := world (runtime ch')\<rparr>"
    and "oracle_state.more (world (runtime ch')) = oracle_state.more (world (runtime ch))" and "clock ch' = clock ch"
  shows "runtime_step (cp_runtime C) n (runtime ch) (runtime ch')"
proof -
  have "reserves (runtime ch') = reserves (runtime ch)" by (subst assms(2)) simp
  then have "runtime_step (cp_runtime C) n (runtime ch) ((runtime ch)\<lparr>world := world (runtime ch')\<rparr>)"
    using chain_ok_held [OF assms(1)] assms(3,4) by (intro step_ledgers) simp_all
  then show ?thesis using assms(2) by simp
qed

lemma vault_ledgers:
  assumes "chain_ok C (put_vault v ch)" and "block_number v = clock ch"
  shows "runtime_step (cp_runtime C) n (runtime ch) (runtime (put_vault v ch))"
  by (rule ledgers_step [OF assms(1) runtime_put(1)]) (simp_all add: assms(2))

lemma games_ledgers:
  assumes "on_games f ch = Inr ch'" and "chain_ok C ch'" and "\<And>g. f (games_view ch) = Inr g \<Longrightarrow> same_clock (games_view ch) g"
  shows "runtime_step (cp_runtime C) n (runtime ch) (runtime ch')"
proof -
  obtain g where g: "f (games_view ch) = Inr g" and ch': "ch' = put_games g ch" using assms(1) by (auto simp: on_games_Inr)
  show ?thesis using assms(2,3) g unfolding ch' by (intro ledgers_step runtime_put(2)) simp_all
qed

text \<open>
  The start of a block is two steps of the runtime: what the vault's hook does to the ledgers, then the block,
  which sets the number.
\<close>

definition before_block :: "'n foundation_state \<Rightarrow> 'n chain_state \<Rightarrow> 'n runtime_state" where
  "before_block v ch = (runtime ch)\<lparr>world := (world (runtime (put_vault v ch)))\<lparr>block_number := clock ch\<rparr>\<rparr>"

lemma before_block_eq: "begin_block R n now (before_block v ch) = begin_block R n now (runtime (put_vault v ch))"
  by (simp add: begin_block_def before_block_def put_vault_def)

lemma hook_runtime:
  assumes ok: "chain_ok C ch" and laws: "vault_laws (currency_of C)" and now: "clock ch < now"
    and run: "foundation_initialize (foundation_config_of C) now (vault_view (set_number now ch)) = Inr v"
  shows "runtime_step (cp_runtime C) n (runtime ch) (before_block v ch)"
proof -
  let ?w = "(world (runtime (put_vault v ch)))\<lparr>block_number := clock ch\<rparr>"
  have f: "funds_ok (funds ch)" using ok by (simp add: chain_ok_def)
  have ok1: "chain_ok C (put_vault v ch)" by (rule vault_ok [OF ok laws hook_debts_paid(1) [OF laws f now run]])
  have same: "reserved_balance c t a ?w = reserved_balance c t a (world (runtime (put_vault v ch)))" for c t a
    by (simp add: reserved_balance_def get_token_balance_def)
  show ?thesis unfolding before_block_def
    by (rule step_ledgers) (use chain_ok_held [OF ok1] in \<open>simp_all add: same\<close>)
qed

lemma block_runtime:
  assumes ok: "chain_ok C ch" and laws: "vault_laws (currency_of C)" and now: "clock ch < now"
    and run: "begin_chain_block C n now ch = Inr ch'"
  shows "(runtime_step (cp_runtime C) n)\<^sup>*\<^sup>* (runtime ch) (runtime ch')"
  using run
proof (cases rule: begin_chain_block_Inr)
  case (1 v s)
  have step: "runtime_step (cp_runtime C) n (before_block v ch) s"
    using 1(2) by (intro step_block [where now = now]) (simp add: before_block_eq)
  have "(runtime_step (cp_runtime C) n)\<^sup>*\<^sup>* (runtime ch) s"
    by (rule converse_rtranclp_into_rtranclp [of "runtime_step (cp_runtime C) n", OF hook_runtime [OF ok laws now 1(1)]])
      (rule r_into_rtranclp, rule step)
  then show ?thesis by (simp add: 1(3))
qed

lemma call_runtime:
  assumes ok: "chain_ok C ch" "chain_ok C ch'" and run: "run_chain_call C n call o' ch = Inr ch'"
  shows "runtime_step (cp_runtime C) n (runtime ch) (runtime ch')"
proof (cases call)
  case (RuntimeCall c)
  with run show ?thesis by (auto simp: on_runtime_Inr intro: step_call)
next
  case (PutIntoVault a f need)
  then obtain v where v: "put_into_vault (foundation_config_of C) o' a f need (vault_view ch) = Inr v" "ch' = put_vault v ch"
    using run by (auto simp: on_vault_Inr)
  have "block_number v = clock ch"
    using v(1) by (auto simp: put_into_vault_def Let_def and_then_Inr ensure_Inr put_fund_def)
  then show ?thesis using ok(2) unfolding v(2) by (intro vault_ledgers)
next
  case (ApproveRelease a e)
  then obtain v where v: "approve o' a e (vault_view ch) = Inr v" "ch' = put_vault v ch"
    using run by (auto simp: on_vault_Inr)
  then show ?thesis using ok(2) approve_frame [OF v(1)] unfolding v(2)
    by (intro vault_ledgers) (simp_all add: same_tokens_def)
next
  case (TournamentCall c)
  with run have "on_games (run_tournament_call (tournament_config_of C) c o') ch = Inr ch'" by simp
  then show ?thesis using ok(2)
    by (rule games_ledgers) (auto dest: tournament_quiet simp: quiet_def)
qed

lemma chain_runtime_step:
  assumes ok: "chain_ok C ch" and laws: "vault_laws (currency_of C)" and step: "chain_step sound_call C n ch ch'"
  shows "(runtime_step (cp_runtime C) n)\<^sup>*\<^sup>* (runtime ch) (runtime ch')"
proof -
  note ok' = chain_step_ok [OF step ok laws]
  show ?thesis
    using step
  proof cases
    case (cs_call call o')
    then show ?thesis by (blast intro: call_runtime [OF ok ok'])
  next
    case (cs_block now)
    then show ?thesis by (blast intro: block_runtime [OF ok laws])
  next
    case (cs_time t)
    then have "runtime_step (cp_runtime C) n (runtime ch) (runtime ch')"
      using ok' by (rule games_ledgers) auto
    then show ?thesis by blast
  next
    case (cs_balances n' nonces)
    have "runtime_step (cp_runtime C) n (runtime ch) (runtime ch')"
      by (rule ledgers_step [OF ok']) (simp_all add: cs_balances)
    then show ?thesis by blast
  qed
qed

interpretation chain_runtime: simulation "lawful_genesis C" "chain_step sound_call C n"
  "\<lambda>ch. vault_laws (currency_of C) \<and> chain_ok C ch" runtime_genesis "runtime_step (cp_runtime C) n" runtime
  for C :: "'n chain_params" and n
  by unfold_locales
    (auto simp: lawful_genesis_def chain_genesis_def intro: chain_genesis_ok chain_step_ok chain_runtime_step)

text \<open>Seen from the tournament, everything else is an operation of other pallets.\<close>

lemma games_view_upper: "games ch' = games ch \<Longrightarrow> same_upper (games_view ch) (games_view ch')"
  by simp

lemma chain_games_step:
  assumes "chain_step admit C n ch ch'"
  shows "tournament_step (tournament_config_of C) (games_view ch) (games_view ch')"
  using assms
proof cases
  case (cs_call call o')
  show ?thesis
  proof (cases call)
    case (TournamentCall c)
    with cs_call show ?thesis by (auto simp: on_games_Inr games_storage.view_put intro: ts_call)
  qed (use cs_call in \<open>auto simp: on_runtime_Inr on_vault_Inr intro!: ts_other\<close>)
next
  case cs_block
  from cs_block(1) show ?thesis
    by (rule begin_chain_block_Inr) (auto intro!: ts_other)
next
  case cs_time
  then show ?thesis by (auto simp: on_games_Inr games_storage.view_put intro: ts_time)
next
  case cs_balances
  then show ?thesis by (auto intro!: ts_other)
qed

interpretation chain_games: simulation "chain_genesis C" "chain_step admit C n" "\<lambda>_. True" tournament_genesis
  "tournament_step (tournament_config_of C)" games_view for C :: "'n chain_params" and n and admit
  by unfold_locales (auto simp: chain_genesis_def intro: chain_games_step)

text \<open>What is reachable with fewer calls is reachable with more.\<close>

lemma chain_step_mono:
  assumes "chain_step admit C n ch ch'" and "\<And>call. admit call \<Longrightarrow> admit' call"
  shows "chain_step admit' C n ch ch'"
  using assms(1)
proof cases
  case cs_call
  then show ?thesis using assms(2) by (blast intro: chain_step.cs_call)
qed (auto intro: chain_step.cs_block chain_step.cs_time chain_step.cs_balances)

lemma chain_reachable_mono:
  assumes "chain_reachable admit C n ch" and "\<And>call. admit call \<Longrightarrow> admit' call"
  shows "chain_reachable admit' C n ch"
  using assms(1) by (induction rule: reachable.induct) (auto intro: reachable.intros chain_step_mono assms(2))

section \<open>Releases booked on the chain\<close>

lemma chain_call_clock:
  assumes "run_chain_call C n call o' ch = Inr ch'"
  shows "clock ch' = clock ch"
proof (cases call)
  case (RuntimeCall c)
  with assms show ?thesis by (auto simp: on_runtime_Inr dest: call_clock)
next
  case (PutIntoVault a f need)
  with assms show ?thesis
    by (auto simp: on_vault_Inr put_into_vault_def Let_def and_then_Inr ensure_Inr put_fund_def)
next
  case (ApproveRelease a e)
  with assms show ?thesis by (auto simp: on_vault_Inr same_tokens_def dest: approve_frame)
next
  case (TournamentCall c)
  with assms show ?thesis by (auto simp: on_games_Inr quiet_def dest: tournament_quiet)
qed

lemma chain_block_clock:
  assumes "begin_chain_block C n now ch = Inr ch'"
  shows "clock ch' = now"
  using assms by (rule begin_chain_block_Inr) (simp add: begin_block_number)

lemma chain_clock:
  assumes "chain_step admit C n ch ch'"
  shows "clock ch \<le> clock ch'"
  using assms
proof cases
  case cs_call
  then show ?thesis by (simp add: chain_call_clock)
next
  case cs_block
  then show ?thesis by (simp add: chain_block_clock)
qed (auto simp: on_games_Inr)

text \<open>Until its block begins, what is booked for an account stays booked.\<close>

lemma chain_bookings_step:
  assumes ok: "chain_ok C ch" and laws: "vault_laws (currency_of C)" and step: "chain_step sound_call C n ch ch'"
    and u: "clock ch' < u"
  shows "pending_of a u (runtime ch) \<le> pending_of a u (runtime ch')"
proof -
  note ok' = chain_step_ok [OF step ok laws]
  have once: "pending_of a u (runtime ch) \<le> pending_of a u (runtime ch')"
    if "runtime_step (cp_runtime C) n (runtime ch) (runtime ch')"
    using that u by (intro bookings_step) auto
  show ?thesis
    using step
  proof cases
    case (cs_call call o')
    then show ?thesis by (intro once) (blast intro: call_runtime [OF ok ok'])
  next
    case (cs_block now)
    from cs_block(1) show ?thesis
    proof (cases rule: begin_chain_block_Inr)
      case (1 v s)
      have now: "clock ch' = now" by (rule chain_block_clock [OF cs_block(1)])
      have "pending_of a u (runtime ch) \<le> pending_of a u (before_block v ch)"
        using hook_runtime [OF ok laws cs_block(2) 1(1)] cs_block(2) u now
        by (intro bookings_step [where n = n]) (auto simp: before_block_def)
      also have "\<dots> \<le> pending_of a u s"
      proof (rule bookings_step)
        show "runtime_step (cp_runtime C) n (before_block v ch) s"
          using 1(2) by (intro step_block [where now = now]) (simp add: before_block_eq)
        show "block_number (world s) \<noteq> u" using now u by (auto simp: 1(3))
      qed
      finally show ?thesis by (simp add: 1(3))
    qed
  next
    case (cs_time t)
    then show ?thesis by (intro once games_ledgers [OF _ ok']) auto
  next
    case cs_balances
    then show ?thesis by (intro once ledgers_step [OF ok']) simp_all
  qed
qed

lemma chain_bookings_run:
  assumes "vault_laws (currency_of C)"
  shows "run_of (chain_step sound_call C n) ch ts \<Longrightarrow> chain_ok C ch \<Longrightarrow> clock (last (ch # ts)) < u
    \<Longrightarrow> pending_of a u (runtime ch) \<le> pending_of a u (runtime (last (ch # ts))) \<and> clock ch \<le> clock (last (ch # ts))"
proof (induction ts arbitrary: ch)
  case (Cons t ts)
  have ok: "chain_ok C t" using Cons.prems(1,2) assms by (auto intro: chain_step_ok)
  have IH: "pending_of a u (runtime t) \<le> pending_of a u (runtime (last (t # ts))) \<and> clock t \<le> clock (last (t # ts))"
    using Cons.prems by (intro Cons.IH [OF _ ok]) auto
  then have "clock t < u" using Cons.prems(3) by auto
  then have "pending_of a u (runtime ch) \<le> pending_of a u (runtime t)"
    using Cons.prems(1,2) assms by (auto intro: chain_bookings_step)
  moreover have "clock ch \<le> clock t" using Cons.prems(1) by (auto intro: chain_clock)
  ultimately show ?case using IH by auto
qed simp

section \<open>Blocks\<close>

lemma chain_extrinsics_reachable:
  "apply_chain_extrinsics C n xs ch = Inr ch' \<Longrightarrow> list_all (\<lambda>(call, _). admit call) xs \<Longrightarrow>
    chain_reachable admit C n ch \<Longrightarrow> chain_reachable admit C n ch'"
proof (induction xs arbitrary: ch)
  case (Cons x xs)
  obtain call o' where x: "x = (call, o')" by (cases x)
  obtain t where t: "t = ch \<or> run_chain_call C n call o' ch = Inr t" and rest: "apply_chain_extrinsics C n xs t = Inr ch'"
    using Cons.prems(1) by (auto simp: x and_then_Inr drop_error_Inr)
  have "chain_reachable admit C n t" using t Cons.prems(2,3) by (auto simp: x intro: reachable_step cs_call)
  then show ?case using Cons.IH [OF rest] Cons.prems(2) by simp
qed simp

lemma chain_block_reachable:
  assumes "execute_chain_block C n now xs ch = Inr ch'" and "list_all (\<lambda>(call, _). admit call) xs"
    and "clock ch < now" and "chain_reachable admit C n ch"
  shows "chain_reachable admit C n ch'"
proof -
  obtain t where "begin_chain_block C n now ch = Inr t" and run: "apply_chain_extrinsics C n xs t = Inr ch'"
    using assms(1) by (auto simp: execute_chain_block_def and_then_Inr)
  then have "chain_reachable admit C n t" using assms(3,4) by (blast intro: reachable_step cs_block)
  with run assms(2) show ?thesis by (rule chain_extrinsics_reachable)
qed

end
