(* ===== verification/Chain_Properties.thy ===== *)
theory Chain_Properties
  imports Chain_Correct Deployment_Correct Tournament_Correct Vault_Correct
begin

text \<open>
  The theorems about the whole chain: custody and vault are backed together, the components run on the chain as
  they do alone, every block of the deployed chain starts, and what one fund whose total wraps does to all this.
\<close>

section \<open>A concrete chain\<close>

definition demo_params :: "ref_native chain_params" where
  "demo_params = \<lparr>cp_runtime = ref_runtime, cp_duration = 10, cp_tournament = demo_tn\<rparr>"

definition demo_chain_start :: "ref_native chain_state" where
  "demo_chain_start =
    \<lparr>runtime = ref_runtime_state, vault = token_state.more empty_vault, games = oracle_state.more demo_tn_start\<rparr>"

text \<open>
  In block 40 account 5 stakes 90000 on dominator 9 and account 6 authorises 700, as before; then account 6 puts a
  fund for account 5 into the vault: 100 at epoch 5, then 300 twice, every second epoch. The organizer creates a
  character.
\<close>

definition demo_fund :: foundation_data where
  "demo_fund =
    \<lparr>delay_durations = 5, interval_durations = 2, fund_times = 2, fund_amount = 300, first_amount = 100\<rparr>"

definition demo_chain :: "ref_native chain_state result" where
  "demo_chain = execute_chain_block demo_params 1 40
    (List.map (\<lambda>(call, o'). (RuntimeCall call, o')) demo_block1
      @ [(PutIntoVault 5 demo_fund False, SignedOrigin 6), (TournamentCall (CreateNpc [1] [] [] []), RootOrigin)])
    demo_chain_start"

lemma demo_chain_state:
  "case demo_chain of Inl _ \<Rightarrow> False
   | Inr ch \<Rightarrow> get_reserve ((RESERVE_FOR_STAKING, 5, 0), 9) (runtime ch) = 90000
      \<and> vault_owes demo_params ch 0 5 = 700
      \<and> reserved_balance ref_token_config 0 5 (world (runtime ch)) = 90700
      \<and> clock ch = 40 \<and> next_npc_id (games_view ch) = 2"
  by code_simp

lemma demo_chain_clock:
  assumes "demo_chain = Inr ch"
  shows "clock ch = 40"
  using demo_chain_state unfolding assms sum.case by blast

lemma demo_params_simps [simp]:
  "cp_runtime demo_params = ref_runtime" "rt_token ref_runtime = ref_token_config"
  by (simp_all add: demo_params_def ref_runtime_def)

lemma demo_clock: "clock demo_chain_start < 40" "clock demo_chain_start < 432000"
  by code_simp+

lemma demo_start:
  "runtime_genesis (runtime demo_chain_start)" "tournament_genesis (games_view demo_chain_start)"
  "funds demo_chain_start = []"
  by (simp_all add: runtime_genesis_def ref_runtime_state_def ref_world_def bot_state.extend_def
      handler_state.extend_def bridge_state.extend_def oracle_state.extend_def tournament_genesis_def games_view_def
      demo_chain_start_def demo_tn_start_def funds_def vault_view_def empty_vault_def token_state.extend_def)

lemma demo_start_reachable: "chain_reachable admit C n demo_chain_start"
  using demo_start by (intro reachable_init) (simp add: chain_genesis_def)

lemma demo_chain_reachable:
  assumes "demo_chain = Inr ch"
  shows "chain_reachable sound_call demo_params 1 ch"
  using assms unfolding demo_chain_def
proof (rule chain_block_reachable [OF _ _ _ demo_start_reachable])
  show "list_all (\<lambda>(call, _). sound_call call) (List.map (\<lambda>(call, o'). (RuntimeCall call, o')) demo_block1
      @ [(PutIntoVault 5 demo_fund False, SignedOrigin 6), (TournamentCall (CreateNpc [1] [] [] []), RootOrigin)])"
    by (simp add: demo_block1_def sound_fund_def demo_fund_def)
  show "clock demo_chain_start < 40" by (rule demo_clock)
qed

text \<open>In block 41 account 5 takes 20000 of its stake back.\<close>

definition demo_unstaked :: "ref_native chain_state result" where
  "demo_unstaked = and_then demo_chain
    (execute_chain_block demo_params 1 41 [(RuntimeCall (VerifierCall (CallUnstake 9 20000)), SignedOrigin 5)])"

lemma demo_unstaked_state:
  "case demo_unstaked of Inl _ \<Rightarrow> False
   | Inr ch \<Rightarrow> pending_unstakings (runtime ch) 57640 = [(5, 20000)] \<and> clock ch = 41"
  by code_simp

lemma demo_unstaked_reachable:
  assumes "demo_unstaked = Inr ch"
  shows "chain_reachable sound_call demo_params 1 ch"
proof -
  obtain ch0 where ch0: "demo_chain = Inr ch0" and run: "execute_chain_block demo_params 1 41
      [(RuntimeCall (VerifierCall (CallUnstake 9 20000)), SignedOrigin 5)] ch0 = Inr ch"
    using assms unfolding demo_unstaked_def and_then_Inr by blast
  have "clock ch0 < 41" using demo_chain_clock [OF ch0] by simp
  then show ?thesis by (intro chain_block_reachable [OF run _ _ demo_chain_reachable [OF ch0]]) simp_all
qed

lemma demo_grace:
  "dominator_check_grace_period (rt_verifier ref_runtime) = 20" "season_duration (rt_verifier ref_runtime) = 43200"
  "cp_duration demo_params = 10"
  by (simp_all add: ref_runtime_def ref_verifier_params_def demo_params_def)

lemma demo_token:
  "currency ref_token_config = ref_currency" "native_id ref_token_config = 0"
  by (simp_all add: ref_token_config_def)

text \<open>The tournament plays no part in the run below and need not be evaluated in it.\<close>

declare deploy_tournament_def [code del]

text \<open>The same with the deployed constants: account 5 has a thousand and stakes the least amount there is.\<close>

definition demo_deployed_chain :: "ref_native chain_state result" where
  "demo_deployed_chain = execute_chain_block (deploy_chain demo_params) 1 40
    [(RuntimeCall (VerifierCall (CallRegister [100, 101, 120])), SignedOrigin 9),
     (RuntimeCall (VerifierCall (CallLaunch 9)), RootOrigin),
     (RuntimeCall (VerifierCall (CallStake 9 100000000000000000000)), SignedOrigin 5)]
    (demo_chain_start\<lparr>runtime := ref_runtime_state\<lparr>world := ref_world\<lparr>native :=
      \<lparr>rn_accounts = (\<lambda>a. if a = 5 then (1000000000000000000000, 0) else (0, 0)),
       rn_issuance = 1000000000000000000000\<rparr>\<rparr>\<rparr>\<rparr>)"

lemma demo_deployed_chain_state:
  "case demo_deployed_chain of Inl _ \<Rightarrow> False
   | Inr ch \<Rightarrow> clock ch = 40
      \<and> (case run_chain_call (deploy_chain demo_params) 1
          (RuntimeCall (VerifierCall (CallUnstake 9 100000000000000000000))) (SignedOrigin 5) ch of
          Inl _ \<Rightarrow> False | Inr ch1 \<Rightarrow> clock ch1 = 40)"
  by code_simp

lemma demo_deployed_chain_reachable:
  assumes "demo_deployed_chain = Inr ch"
  shows "chain_reachable sound_call (deploy_chain demo_params) 1 ch"
  using assms unfolding demo_deployed_chain_def
proof (rule chain_block_reachable)
  show "chain_reachable sound_call (deploy_chain demo_params) 1
    (demo_chain_start\<lparr>runtime := ref_runtime_state\<lparr>world := ref_world\<lparr>native :=
      \<lparr>rn_accounts = (\<lambda>a. if a = 5 then (1000000000000000000000, 0) else (0, 0)),
       rn_issuance = 1000000000000000000000\<rparr>\<rparr>\<rparr>\<rparr>)"
    by (rule reachable_init) (simp add: chain_genesis_def runtime_genesis_def ref_runtime_state_def ref_world_def
        bot_state.extend_def handler_state.extend_def bridge_state.extend_def oracle_state.extend_def
        tournament_genesis_def games_view_def demo_chain_start_def demo_tn_start_def funds_def vault_view_def
        empty_vault_def token_state.extend_def)
  show "clock (demo_chain_start\<lparr>runtime := ref_runtime_state\<lparr>world := ref_world\<lparr>native :=
      \<lparr>rn_accounts = (\<lambda>a. if a = 5 then (1000000000000000000000, 0) else (0, 0)),
       rn_issuance = 1000000000000000000000\<rparr>\<rparr>\<rparr>\<rparr>) < 40"
    by code_simp
qed simp

section \<open>Custody and vault\<close>

text \<open>
  C1. On the whole chain what the verifier holds and what the vault owes are backed together, as long as only
  sound funds are put into the vault (the total fits into a \<open>u128\<close>, at least one payment, a positive interval;
  the pallet does not check it, and C25 shows what one other fund does). Then in every reachable state, for
  every account and token, the amounts the verifier holds for all purposes and dominators and, in the native
  token, the releases the vault still owes the account add up to at most the account's reserved balance: no
  pallet pays out of what another holds. An authorisation receipt is covered by the stash. Pallets outside the
  model release no reserve, the funds of the genesis are sound and reserved, and \<open>pallet_balances\<close> keeps its
  documented laws.
\<close>

theorem custody_and_vault_backed:
  assumes "chain_reachable sound_call C n ch" and "vault_laws (currency_of C)"
  shows "held a t (reserves (runtime ch)) + vault_owes C ch t a
      \<le> unat (reserved_balance (rt_token (cp_runtime C)) t a (world (runtime ch)))
    \<and> (receipts (runtime ch) (dmn, a) = Some (Authorize t v b) \<longrightarrow>
        v \<le> get_reserve ((RESERVE_FOR_AUTHORIZING_STASH, a, t), dmn) (runtime ch))"
proof
  note reach = lawful_reachable [OF assms]
  have "chain_ok C ch" using chain_runtime.inv_reachable [OF reach] by blast
  then show "held a t (reserves (runtime ch)) + vault_owes C ch t a
      \<le> unat (reserved_balance (rt_token (cp_runtime C)) t a (world (runtime ch)))"
    using assms(2) by (intro chain_ok_backed) (simp_all add: good_token_def vault_laws_def)
  show "receipts (runtime ch) (dmn, a) = Some (Authorize t v b) \<longrightarrow>
        v \<le> get_reserve ((RESERVE_FOR_AUTHORIZING_STASH, a, t), dmn) (runtime ch)"
    using custody_okD(3) [OF runtime_system.inv_reachable [OF chain_runtime.abs_reachable [OF reach]]]
    by (auto simp: receipt_covered_def word_le_nat_alt)
qed

theorem custody_and_vault_backed_witness:
  "\<exists>ch. demo_chain = Inr ch \<and> vault_owes demo_params ch 0 5 = 700
    \<and> held 5 0 (reserves (runtime ch)) + 700 \<le> unat (reserved_balance ref_token_config 0 5 (world (runtime ch)))"
proof -
  obtain ch where ch: "demo_chain = Inr ch" "vault_owes demo_params ch 0 5 = 700"
    using demo_chain_state by (auto split: sum.splits)
  have "vault_laws (currency_of demo_params)" using ref_vault_laws by simp
  from custody_and_vault_backed [OF demo_chain_reachable [OF ch(1)] this, of 5 0] show ?thesis
    using ch by (intro exI [of _ ch]) (simp add: add.commute)
qed

text \<open>So on such a chain the vault is backed as its schedule supposes.\<close>

lemma chain_vault_backed:
  assumes "chain_reachable sound_call C n ch" and laws: "vault_laws (currency_of C)"
    and "next_epoch (cp_duration C) (clock ch) \<le> e"
  shows "vault_backed (foundation_config_of C) e (vault_view ch)"
proof -
  have ok: "chain_ok C ch" using chain_runtime.inv_reachable [OF lawful_reachable [OF assms(1,2)]] by blast
  let ?t = "native_id (rt_token (cp_runtime C))"
  have good: "good_token (rt_token (cp_runtime C)) ?t" using laws by (simp add: good_token_def vault_laws_def)
  have "account_due e (funds ch) b \<le> unat (nc_reserved (currency_of C) b (native (world (runtime ch))))" for b
    using chain_ok_backed [OF ok good, of b] account_due_mono [OF assms(3), of "funds ch" b]
    by (simp add: vault_owes_def reserved_balance_def)
  then show ?thesis using ok by (simp add: vault_backed_def chain_ok_def funds_def)
qed

section \<open>The components on the chain\<close>

text \<open>
  C2. The chain refines its components. Every reachable state of the chain, whatever calls are made, seen as the
  storage of the tournament is a reachable state of the tournament; and as long as only sound funds are put
  into the vault and \<open>pallet_balances\<close> keeps its documented laws, seen as the storage of the runtime it is a
  reachable state of the runtime: the vault and the tournament then touch nothing the runtime relies on. So
  what is stated of the reachable states of either holds on the chain, under the same condition.
\<close>

theorem chain_refines_components:
  assumes "chain_reachable admit C n ch"
  shows "tournament_reachable (tournament_config_of C) (games_view ch)
    \<and> ((\<forall>call. admit call \<longrightarrow> sound_call call) \<and> vault_laws (currency_of C) \<longrightarrow>
        reachable runtime_genesis (runtime_step (cp_runtime C) n) (runtime ch))"
proof (intro conjI impI)
  show "tournament_reachable (tournament_config_of C) (games_view ch)" by (rule chain_games.abs_reachable [OF assms])
  assume sound: "(\<forall>call. admit call \<longrightarrow> sound_call call) \<and> vault_laws (currency_of C)"
  then have "chain_reachable sound_call C n ch" by (intro chain_reachable_mono [OF assms]) simp
  then show "reachable runtime_genesis (runtime_step (cp_runtime C) n) (runtime ch)"
    using sound by (intro chain_runtime.abs_reachable lawful_reachable) simp_all
qed

theorem chain_refines_components_witness:
  "\<exists>ch. demo_chain = Inr ch \<and> reachable runtime_genesis (runtime_step ref_runtime 1) (runtime ch)
    \<and> tournament_reachable (tournament_config_of demo_params) (games_view ch) \<and> next_npc_id (games_view ch) = 2"
proof -
  obtain ch where ch: "demo_chain = Inr ch" "next_npc_id (games_view ch) = 2"
    using demo_chain_state by (auto split: sum.splits)
  have "vault_laws (currency_of demo_params)" using ref_vault_laws by simp
  with chain_refines_components [OF demo_chain_reachable [OF ch(1)]] show ?thesis
    using ch by (intro exI [of _ ch]) simp
qed

section \<open>Blocks start\<close>

text \<open>The start of a block: the vault's hook goes through, and from the state it leaves the verifier's hook.\<close>

lemma vault_hook_returns:
  assumes ok: "chain_ok C ch" and laws: "vault_laws (currency_of C)" and "cp_duration C \<noteq> 0"
  obtains v where "foundation_initialize (foundation_config_of C) now (vault_view (set_number now ch)) = Inr v"
proof -
  have "funds_ok (foundation (vault_view (set_number now ch)))"
    using ok funds_set_number [of now ch] by (simp add: chain_ok_def funds_def)
  then have "\<exists>v. foundation_initialize (foundation_config_of C) now (vault_view (set_number now ch)) = Inr v"
    using laws assms(3) by (intro initialize_returns) (simp_all add: word_gt_0)
  then show thesis using that by blast
qed

lemma after_vault_hook:
  assumes reach: "chain_reachable sound_call C n ch" and laws: "vault_laws (currency_of C)" and now: "clock ch < now"
    and duration: "cp_duration C \<noteq> 0"
  obtains v where "foundation_initialize (foundation_config_of C) now (vault_view (set_number now ch)) = Inr v"
    and "reachable runtime_genesis (runtime_step (cp_runtime C) n) (before_block v ch)"
proof -
  note lawful = lawful_reachable [OF reach laws]
  have ok: "chain_ok C ch" using chain_runtime.inv_reachable [OF lawful] by blast
  obtain v where v: "foundation_initialize (foundation_config_of C) now (vault_view (set_number now ch)) = Inr v"
    using vault_hook_returns [OF ok laws duration] .
  moreover have "reachable runtime_genesis (runtime_step (cp_runtime C) n) (before_block v ch)"
    using chain_runtime.abs_reachable [OF lawful] hook_runtime [OF ok laws now v] by (rule reachable_step)
  ultimately show thesis by (rule that)
qed

lemma begin_chain_block_at:
  assumes "foundation_initialize (foundation_config_of C) now (vault_view (set_number now ch)) = Inr v"
    and "begin_block (cp_runtime C) n now (before_block v ch) = Inr s"
  shows "begin_chain_block C n now ch = Inr ((put_vault v ch)\<lparr>runtime := s\<rparr>)"
  using assms by (simp add: begin_chain_block_def on_vault_def on_runtime_def before_block_eq)

lemma before_block_same [simp]:
  "pending_unstakings (before_block v ch) = pending_unstakings (runtime ch)"
  "pending_of a u (before_block v ch) = pending_of a u (runtime ch)"
  "released R a k (before_block v ch) s = released R a k (runtime (put_vault v ch)) s"
  by (simp_all add: before_block_def pending_of_def put_vault_def released_def Let_def get_reserve_def
      reserved_balance_def get_token_balance_def)

text \<open>
  C9. On the deployed chain every block starts, as long as only sound funds are put into the vault (a fund whose
  interval is zero stops every later epoch block, see \<open>vault_zero_interval_halts\<close>) and \<open>pallet_balances\<close> keeps
  its documented laws: then in every reachable state and for every later block number the hooks of the vault
  and of the verifier go through, and after a block whose number is a multiple of the grace period no release
  that was booked for it is left.
\<close>

theorem chain_blocks_start:
  assumes "chain_reachable sound_call (deploy_chain C) n ch" and "vault_laws (currency_of C)" and "clock ch < now"
  shows "\<exists>ch'. begin_chain_block (deploy_chain C) n now ch = Inr ch' \<and> clock ch' = now
    \<and> (now mod 20 = 0 \<longrightarrow> pending_unstakings (runtime ch') now = [])"
proof -
  have laws: "vault_laws (currency_of (deploy_chain C))" and duration: "cp_duration (deploy_chain C) \<noteq> 0"
    using assms(2) by (simp_all add: MONTHS_eq)
  obtain v where v: "foundation_initialize (foundation_config_of (deploy_chain C)) now (vault_view (set_number now ch)) = Inr v"
    and reach: "reachable runtime_genesis (runtime_step (cp_runtime (deploy_chain C)) n) (before_block v ch)"
    using after_vault_hook [OF assms(1) laws assms(3) duration] .
  have "balances_laws (currency (rt_token (cp_runtime C)))" using assms(2) by (simp add: vault_laws_def)
  then obtain s where s: "begin_block (deploy (cp_runtime C)) n now (before_block v ch) = Inr s"
    "block_number (world s) = now" "now mod 20 = 0 \<longrightarrow> pending_unstakings s now = []"
    using deployed_hook [where n = n and now = now] reach by fastforce
  then show ?thesis using begin_chain_block_at [OF v] by auto
qed

theorem chain_blocks_start_witness:
  "\<exists>ch'. begin_chain_block (deploy_chain demo_params) 1 432000 demo_chain_start = Inr ch' \<and> clock ch' = 432000
    \<and> pending_unstakings (runtime ch') 432000 = []"
proof -
  have "vault_laws (currency_of demo_params)" "clock demo_chain_start < 432000" using ref_vault_laws demo_clock by auto
  from chain_blocks_start [OF demo_start_reachable this] show ?thesis by auto
qed

section \<open>Delayed releases\<close>

text \<open>
  C6. At a later block whose number is a multiple of the grace period the block starts, the list of releases
  pending for the block is emptied, and every entry is paid in full: after what the vault's own hook moves,
  each account's reserve for pending releases and its reserved balance of the native token fall by exactly
  what was pending for it. No entry is lost. This holds in every state the chain reaches while only sound
  funds are put into the vault (C25 shows a fund that frees custody) and pallets outside the model release no
  reserve; \<open>pallet_balances\<close> keeps its documented laws, and the constants for the grace period, the season and
  the epoch are not zero.
\<close>

theorem stakes_released_on_time:
  assumes reach: "chain_reachable sound_call C n ch" and laws: "vault_laws (currency_of C)" and now: "clock ch < now"
    and grace: "dominator_check_grace_period (rt_verifier (cp_runtime C)) \<noteq> 0"
      "now mod dominator_check_grace_period (rt_verifier (cp_runtime C)) = 0"
    and season: "season_duration (rt_verifier (cp_runtime C)) \<noteq> 0" and duration: "cp_duration C \<noteq> 0"
  shows "\<exists>v ch'. foundation_initialize (foundation_config_of C) now (vault_view (set_number now ch)) = Inr v
    \<and> begin_chain_block C n now ch = Inr ch'
    \<and> pending_unstakings (runtime ch') = (pending_unstakings (runtime ch))(now := [])
    \<and> (\<forall>a. released (cp_runtime C) a (pending_of a now (runtime ch)) (runtime (put_vault v ch)) (runtime ch'))"
proof -
  obtain v where v: "foundation_initialize (foundation_config_of C) now (vault_view (set_number now ch)) = Inr v"
    and reach': "reachable runtime_genesis (runtime_step (cp_runtime C) n) (before_block v ch)"
    using after_vault_hook [OF reach laws now duration] .
  have "balances_laws (currency (rt_token (cp_runtime C)))" using laws by (simp add: vault_laws_def)
  from hook_releases [OF reach' this grace season]
  obtain s where s: "begin_block (cp_runtime C) n now (before_block v ch) = Inr s"
    "pending_unstakings s = (pending_unstakings (runtime ch))(now := [])"
    "\<forall>a. released (cp_runtime C) a (pending_of a now (runtime ch)) (runtime (put_vault v ch)) s"
    by auto
  then show ?thesis using v begin_chain_block_at [OF v s(1)] by auto
qed

theorem stakes_released_on_time_witness:
  "\<exists>ch v ch'. demo_unstaked = Inr ch
    \<and> foundation_initialize (foundation_config_of demo_params) 57640 (vault_view (set_number 57640 ch)) = Inr v
    \<and> begin_chain_block demo_params 1 57640 ch = Inr ch'
    \<and> unat (nc_reserved ref_currency 5 (native v)) = unat (nc_reserved ref_currency 5 (native (world (runtime ch')))) + 20000"
proof -
  obtain ch where ch: "demo_unstaked = Inr ch" "pending_unstakings (runtime ch) 57640 = [(5, 20000)]" "clock ch = 41"
    using demo_unstaked_state by (auto split: sum.splits)
  have laws: "vault_laws (currency_of demo_params)" and late: "clock ch < 57640" using ref_vault_laws ch(3) by simp_all
  obtain v ch' where "foundation_initialize (foundation_config_of demo_params) 57640 (vault_view (set_number 57640 ch)) = Inr v"
    and "begin_chain_block demo_params 1 57640 ch = Inr ch'"
    and "released ref_runtime 5 (pending_of 5 57640 (runtime ch)) (runtime (put_vault v ch)) (runtime ch')"
    using stakes_released_on_time [OF demo_unstaked_reachable [OF ch(1)] laws late]
    by (auto simp: demo_grace)
  then show ?thesis
    using ch(1,2) by (intro exI [of _ ch] exI [of _ v] exI [of _ ch'])
      (simp add: released_def Let_def pending_of_def reserved_balance_def demo_token)
qed

text \<open>
  C7. On the deployed chain an unstaked amount is paid out. After an unstake in a block below the last 57600 of
  the range of block numbers there is a block \<open>u\<close>, a multiple of the grace period at most 57600 and more than
  57580 blocks ahead, such that whatever happens before that block begins, as long as only sound funds are put
  into the vault and pallets outside the model release no reserve, the block starts, and when it does, after
  what the vault's own hook moves, the reserved balance of the staker falls by at least the amount and by
  exactly what is booked for the staker, of which nothing is left.
\<close>

theorem unstaked_is_paid:
  assumes reach: "chain_reachable sound_call (deploy_chain C) n ch" and laws: "vault_laws (currency_of C)"
    and call: "run_chain_call (deploy_chain C) n (RuntimeCall (VerifierCall (CallUnstake src v))) (SignedOrigin a) ch
      = Inr ch1"
    and now: "unat (clock ch) + 57600 < 2 ^ 32"
  shows "\<exists>u. u mod 20 = 0 \<and> unat u \<le> unat (clock ch) + 57600 \<and> unat (clock ch) + 57580 < unat u
    \<and> (\<forall>chs t. run_of (chain_step sound_call (deploy_chain C) n) ch1 chs \<and> t = last (ch1 # chs) \<and> clock t < u \<longrightarrow>
      (\<exists>w t'. foundation_initialize (foundation_config_of (deploy_chain C)) u (vault_view (set_number u t)) = Inr w
        \<and> begin_chain_block (deploy_chain C) n u t = Inr t'
        \<and> unat v \<le> pending_of a u (runtime t) \<and> pending_of a u (runtime t') = 0
        \<and> unat (nc_reserved (currency_of C) a (native w))
          = unat (nc_reserved (currency_of C) a (native (world (runtime t')))) + pending_of a u (runtime t)))"
proof -
  let ?C = "deploy_chain C" and ?R = "deploy (cp_runtime C)"
  have laws': "vault_laws (currency_of ?C)" and duration: "cp_duration ?C \<noteq> 0" using laws by (simp_all add: MONTHS_eq)
  obtain s1 where s1: "run_runtime_call ?R (nested_dispatch ?R n) (VerifierCall (CallUnstake src v)) (SignedOrigin a)
      (runtime ch) = Inr s1" and ch1: "ch1 = ch\<lparr>runtime := s1\<rparr>"
    using call by (auto simp: on_runtime_Inr)
  then obtain dmn where un: "unstake_from (runtime_config ?R (nested_dispatch ?R n)) a dmn v (runtime ch) = Inr s1"
    by (auto simp: unstake_def and_then_Inr ensure_signed_Inr)
  have "unat (dominator_check_grace_period (rt_verifier ?R)) dvd 57600" by simp
  from unstake_books [OF un this now, unfolded deploy_simps]
  obtain u where u: "u mod 20 = 0" "unat u \<le> unat (clock ch) + 57600" "unat (clock ch) + 57600 < unat u + unat (20 :: u32)"
    "pending_of a u s1 = pending_of a u (runtime ch) + unat v"
    by (elim exE conjE)
  have step: "chain_step sound_call ?C n ch ch1" by (rule cs_call [OF call]) simp
  have reach1: "chain_reachable sound_call ?C n ch1" by (rule reachable_step [OF reach step])
  have ok1: "chain_ok ?C ch1" using chain_runtime.inv_reachable [OF lawful_reachable [OF reach1 laws']] by blast
  have paid: "\<exists>w t'. foundation_initialize (foundation_config_of ?C) u (vault_view (set_number u t)) = Inr w
        \<and> begin_chain_block ?C n u t = Inr t'
        \<and> unat v \<le> pending_of a u (runtime t) \<and> pending_of a u (runtime t') = 0
        \<and> unat (nc_reserved (currency_of C) a (native w))
          = unat (nc_reserved (currency_of C) a (native (world (runtime t')))) + pending_of a u (runtime t)"
    if run: "run_of (chain_step sound_call ?C n) ch1 chs" and t: "t = last (ch1 # chs)" and late: "clock t < u" for chs t
  proof -
    have "chain_reachable sound_call ?C n t" using reachable_run [OF reach1 run] reach1 by (cases chs) (auto simp: t)
    then obtain w where w: "foundation_initialize (foundation_config_of ?C) u (vault_view (set_number u t)) = Inr w"
      and reach2: "reachable runtime_genesis (runtime_step (cp_runtime ?C) n) (before_block w t)"
      by (rule after_vault_hook [OF _ laws' late duration])
    have "balances_laws (currency (rt_token (cp_runtime C)))" using laws by (simp add: vault_laws_def)
    with deployed_hook [of "cp_runtime C" n "before_block w t" u] reach2 u(1)
    obtain s where s: "begin_block ?R n u (before_block w t) = Inr s" "pending_unstakings s u = []"
      "released ?R a (pending_of a u (runtime t)) (runtime (put_vault w t)) s"
      by auto
    have "unat v \<le> pending_of a u (runtime t)"
      using chain_bookings_run [OF laws' run ok1, of u a] late u(4) by (simp add: t ch1)
    moreover have "begin_chain_block ?C n u t = Inr ((put_vault w t)\<lparr>runtime := s\<rparr>)"
      using s(1) by (intro begin_chain_block_at [OF w]) simp
    ultimately show ?thesis
      using w s(2,3) by (auto simp: released_def Let_def pending_of_def reserved_balance_def)
  qed
  have "unat (clock ch) + 57580 < unat u" using u(3) by simp
  with u(1,2) paid show ?thesis by (intro exI [of _ u] conjI allI impI) auto
qed

theorem unstaked_is_paid_witness:
  "\<exists>ch ch1 u w t'. demo_deployed_chain = Inr ch
    \<and> run_chain_call (deploy_chain demo_params) 1 (RuntimeCall (VerifierCall (CallUnstake 9 100000000000000000000)))
      (SignedOrigin 5) ch = Inr ch1
    \<and> unat u \<le> 57640
    \<and> foundation_initialize (foundation_config_of (deploy_chain demo_params)) u (vault_view (set_number u ch1)) = Inr w
    \<and> begin_chain_block (deploy_chain demo_params) 1 u ch1 = Inr t' \<and> pending_of 5 u (runtime t') = 0
    \<and> unat (nc_reserved ref_currency 5 (native (world (runtime t')))) + 100000000000000000000 \<le> unat (nc_reserved ref_currency 5 (native w))"
proof -
  obtain ch ch1 where ch: "demo_deployed_chain = Inr ch" and b: "clock ch = 40"
    and ch1: "run_chain_call (deploy_chain demo_params) 1 (RuntimeCall (VerifierCall (CallUnstake 9 100000000000000000000)))
      (SignedOrigin 5) ch = Inr ch1" and c1: "clock ch1 = 40"
    using demo_deployed_chain_state by (auto split: sum.splits simp del: run_chain_call.simps)
  have "vault_laws (currency_of demo_params)" "unat (clock ch) + 57600 < 2 ^ 32" using ref_vault_laws b by simp_all
  from unstaked_is_paid [OF demo_deployed_chain_reachable [OF ch] this(1) ch1 this(2)]
  obtain u where u: "unat u \<le> 57640" "57620 < unat u"
    and all: "\<And>chs t. run_of (chain_step sound_call (deploy_chain demo_params) 1) ch1 chs \<Longrightarrow> t = last (ch1 # chs) \<Longrightarrow>
      clock t < u \<Longrightarrow> \<exists>w t'. foundation_initialize (foundation_config_of (deploy_chain demo_params)) u
          (vault_view (set_number u t)) = Inr w
        \<and> begin_chain_block (deploy_chain demo_params) 1 u t = Inr t'
        \<and> unat (100000000000000000000 :: u128) \<le> pending_of 5 u (runtime t) \<and> pending_of 5 u (runtime t') = 0
        \<and> unat (nc_reserved (currency_of demo_params) 5 (native w))
          = unat (nc_reserved (currency_of demo_params) 5 (native (world (runtime t')))) + pending_of 5 u (runtime t)"
    unfolding b by auto
  have "clock ch1 < u" using u(2) c1 by (simp add: word_less_nat_alt)
  then obtain w t' where "foundation_initialize (foundation_config_of (deploy_chain demo_params)) u (vault_view (set_number u ch1)) = Inr w"
    "begin_chain_block (deploy_chain demo_params) 1 u ch1 = Inr t'" "pending_of 5 u (runtime t') = 0"
    "unat (100000000000000000000 :: u128) \<le> pending_of 5 u (runtime ch1)"
    "unat (nc_reserved (currency_of demo_params) 5 (native w))
      = unat (nc_reserved (currency_of demo_params) 5 (native (world (runtime t')))) + pending_of 5 u (runtime ch1)"
    using all [of "[]" ch1] by auto
  then show ?thesis using ch ch1 u(1) by (intro exI conjI) (auto simp: demo_token)
qed

section \<open>A fund whose total wraps\<close>

definition wrapped_fund :: foundation_data where
  "wrapped_fund =
    \<lparr>delay_durations = 5, interval_durations = 1, fund_times = 1, fund_amount = 2, first_amount = 2 ^ 128 - 2\<rparr>"

lemma demo_wrap_state:
  "case demo_chain of Inl _ \<Rightarrow> False
   | Inr ch \<Rightarrow> reserved_balance ref_token_config 0 6 (world (runtime ch)) = 700
      \<and> (case run_chain_call demo_params 1 (PutIntoVault 6 wrapped_fund False) (SignedOrigin 5) ch of Inl _ \<Rightarrow> False
         | Inr ch1 \<Rightarrow> (case begin_chain_block demo_params 1 50 ch1 of Inl _ \<Rightarrow> False
            | Inr ch2 \<Rightarrow> receipts (runtime ch2) (9, 6) = Some (Authorize 0 700 40)
                \<and> get_reserve ((RESERVE_FOR_AUTHORIZING_STASH, 6, 0), 9) (runtime ch2) = 700
                \<and> reserved_balance ref_token_config 0 6 (world (runtime ch2)) = 0))"
  by code_simp

text \<open>
  C25. The total of a fund is computed on \<open>u128\<close> and wraps. From a reachable state of the chain (with sound funds
  only) anybody can put a fund for any account whose total wraps to zero: nothing is reserved for it, and at its epoch the hook
  releases whatever the account has reserved. What the verifier holds for the account is then no longer
  backed: its entries and receipt are as before, its reserved balance is zero.
\<close>

theorem vault_overflow_frees_custody:
  "\<exists>ch ch1 ch2. demo_chain = Inr ch \<and> chain_reachable sound_call demo_params 1 ch
    \<and> chain_reachable (\<lambda>_. True) demo_params 1 ch2
    \<and> reserved_balance ref_token_config 0 6 (world (runtime ch)) = 700
    \<and> run_chain_call demo_params 1 (PutIntoVault 6 wrapped_fund False) (SignedOrigin 5) ch = Inr ch1
    \<and> begin_chain_block demo_params 1 50 ch1 = Inr ch2
    \<and> receipts (runtime ch2) (9, 6) = Some (Authorize 0 700 40)
    \<and> get_reserve ((RESERVE_FOR_AUTHORIZING_STASH, 6, 0), 9) (runtime ch2) = 700
    \<and> reserved_balance ref_token_config 0 6 (world (runtime ch2)) = 0"
proof -
  obtain ch ch1 ch2 where ch: "demo_chain = Inr ch"
    "run_chain_call demo_params 1 (PutIntoVault 6 wrapped_fund False) (SignedOrigin 5) ch = Inr ch1"
    "begin_chain_block demo_params 1 50 ch1 = Inr ch2"
    and state: "reserved_balance ref_token_config 0 6 (world (runtime ch)) = 700"
    "receipts (runtime ch2) (9, 6) = Some (Authorize 0 700 40)"
    "get_reserve ((RESERVE_FOR_AUTHORIZING_STASH, 6, 0), 9) (runtime ch2) = 700"
    "reserved_balance ref_token_config 0 6 (world (runtime ch2)) = 0"
    using demo_wrap_state by (auto split: sum.splits)
  have reach: "chain_reachable sound_call demo_params 1 ch" by (rule demo_chain_reachable [OF ch(1)])
  have "clock ch1 = 40" using demo_chain_clock [OF ch(1)] chain_call_clock [OF ch(2)] by simp
  then have block: "chain_step (\<lambda>_. True) demo_params 1 ch1 ch2" by (intro cs_block [OF ch(3)]) simp
  have call: "chain_step (\<lambda>_. True) demo_params 1 ch ch1" by (rule cs_call [OF ch(2)]) simp
  have "chain_reachable (\<lambda>_. True) demo_params 1 ch" by (rule chain_reachable_mono [OF reach]) simp
  then have "chain_reachable (\<lambda>_. True) demo_params 1 ch2" using call block by (rule reachable_step [OF reachable_step])
  with ch reach state show ?thesis by blast
qed

end
