(* ===== verification/Chain_Spec.thy ===== *)
theory Chain_Spec
  imports Deployment
begin

text \<open>
  \<open>cli/src/chain_spec.rs\<close>: the genesis of the development and test chains, and what it makes of the storage of
  the modelled pallets. The derivation of key pairs from seeds is a parameter; so are the parts of the storage
  that pallets outside the model build.
\<close>

section \<open>Keys\<close>

datatype key_kind = Sr25519Key | BabeKey | GrandpaKey | ImOnlineKey | BeefyKey | OctopusKey

record key_env =
  pair_from_string :: "key_kind \<Rightarrow> string \<Rightarrow> bytes option"
  into_account :: "bytes \<Rightarrow> account"

text \<open>A seed that gives no pair makes the node panic.\<close>

definition get_from_seed :: "key_env \<Rightarrow> key_kind \<Rightarrow> string \<Rightarrow> bytes result" where
  "get_from_seed e kind seed = ok_or (pair_from_string e kind (''//'' @ seed)) Panic"

definition get_account_id_from_seed :: "key_env \<Rightarrow> key_kind \<Rightarrow> string \<Rightarrow> account result" where
  "get_account_id_from_seed e kind seed = and_then (get_from_seed e kind seed) (\<lambda>p. Inr (into_account e p))"

record session_keys =
  sk_babe :: bytes
  sk_grandpa :: bytes
  sk_im_online :: bytes
  sk_beefy :: bytes
  sk_octopus :: bytes

record authority =
  au_account :: account
  au_keys :: session_keys

definition authority_keys_from_seed :: "key_env \<Rightarrow> string \<Rightarrow> authority result" where
  "authority_keys_from_seed e seed =
    and_then (get_account_id_from_seed e Sr25519Key seed) (\<lambda>a.
    and_then (get_from_seed e BabeKey seed) (\<lambda>babe.
    and_then (get_from_seed e GrandpaKey seed) (\<lambda>grandpa.
    and_then (get_from_seed e ImOnlineKey seed) (\<lambda>im_online.
    and_then (get_from_seed e BeefyKey seed) (\<lambda>beefy.
    and_then (get_from_seed e OctopusKey seed) (\<lambda>octopus.
    Inr \<lparr>au_account = a, au_keys = \<lparr>sk_babe = babe, sk_grandpa = grandpa, sk_im_online = im_online,
      sk_beefy = beefy, sk_octopus = octopus\<rparr>\<rparr>))))))"

section \<open>The genesis of the test chains\<close>

text \<open>The code of the runtime and the entries that are the defaults of their pallets are left out.\<close>

type_synonym fund_entry = "account \<times> u32 \<times> u32 \<times> u32 \<times> u128 \<times> u128"

record genesis_config =
  gc_balances :: "(account \<times> u128) list"
  gc_session_keys :: "(account \<times> account \<times> session_keys) list"
  gc_sudo_key :: "account option"
  gc_anchor_contract :: string
  gc_validators :: "(account \<times> u128) list"
  gc_premined_amount :: u128
  gc_asset_id_by_token_id :: "(string \<times> token_id) list"
  gc_era_payout :: u128
  gc_interval :: u32
  gc_fund :: "fund_entry list"

definition ENDOWMENT :: u128 where "ENDOWMENT = 10000000 * DOLLARS"
definition STASH :: u128 where "STASH = 100 * TAO"

fun accounts_from_seeds :: "key_env \<Rightarrow> string list \<Rightarrow> account list result" where
  "accounts_from_seeds e [] = Inr []"
| "accounts_from_seeds e (seed # seeds) =
    and_then (get_account_id_from_seed e Sr25519Key seed) (\<lambda>a.
    and_then (accounts_from_seeds e seeds) (\<lambda>as. Inr (a # as)))"

definition testnet_genesis ::
  "key_env \<Rightarrow> authority list \<Rightarrow> account \<Rightarrow> account list option \<Rightarrow> genesis_config result" where
  "testnet_genesis e initial_authorities root_key endowed_accounts =
    and_then (case endowed_accounts of
        Some as \<Rightarrow> Inr as
      | None \<Rightarrow> accounts_from_seeds e [''Alice'', ''Bob'', ''Charlie'', ''Dave'', ''Eve'', ''Ferdie'']) (\<lambda>endowed.
    and_then (get_account_id_from_seed e Sr25519Key ''Charile'') (\<lambda>a1.
    and_then (get_account_id_from_seed e Sr25519Key ''Eva'') (\<lambda>a2.
    Inr \<lparr>gc_balances = List.map (\<lambda>x. (x, ENDOWMENT)) endowed,
      gc_session_keys = List.map (\<lambda>x. (au_account x, au_account x, au_keys x)) initial_authorities,
      gc_sudo_key = Some root_key,
      gc_anchor_contract = ''octopus-anchor.testnet'',
      gc_validators = List.map (\<lambda>x. (au_account x, STASH)) initial_authorities,
      gc_premined_amount = 1024 * DOLLARS,
      gc_asset_id_by_token_id = [(''usdn.testnet'', 0)],
      gc_era_payout = 2 * DOLLARS,
      gc_interval = 1,
      gc_fund = [(a1, 1, 1, 100, 1000 * DOLLARS, 2000 * DOLLARS), (a2, 1, 2, 99, 100 * DOLLARS, 2000 * DOLLARS)]\<rparr>)))"

fun authorities_from_seeds :: "key_env \<Rightarrow> string list \<Rightarrow> authority list result" where
  "authorities_from_seeds e [] = Inr []"
| "authorities_from_seeds e (seed # seeds) =
    and_then (authority_keys_from_seed e seed) (\<lambda>a.
    and_then (authorities_from_seeds e seeds) (\<lambda>as. Inr (a # as)))"

definition development_config_genesis :: "key_env \<Rightarrow> genesis_config result" where
  "development_config_genesis e =
    and_then (authorities_from_seeds e [''Alice'']) (\<lambda>as.
    and_then (get_account_id_from_seed e Sr25519Key ''Alice'') (\<lambda>root. testnet_genesis e as root None))"

definition local_testnet_genesis :: "key_env \<Rightarrow> genesis_config result" where
  "local_testnet_genesis e =
    and_then (authorities_from_seeds e [''Alice'', ''Bob'']) (\<lambda>as.
    and_then (get_account_id_from_seed e Sr25519Key ''Alice'') (\<lambda>root. testnet_genesis e as root None))"

section \<open>Chain specifications\<close>

datatype chain_type = DevelopmentChain | LocalChain

record spec_properties =
  ss58_format :: nat
  token_decimals :: nat
  token_symbol :: string

definition barnacle_chain_spec_properties :: spec_properties where
  "barnacle_chain_spec_properties = \<lparr>ss58_format = 42, token_decimals = 18, token_symbol = ''BAR''\<rparr>"

record chain_spec =
  spec_name :: string
  spec_id :: string
  spec_type :: chain_type
  spec_genesis :: "genesis_config result"
  protocol_id :: "string option"
  properties :: "spec_properties option"

definition development_config :: "key_env \<Rightarrow> chain_spec" where
  "development_config e =
    \<lparr>spec_name = ''Development'', spec_id = ''dev'', spec_type = DevelopmentChain,
     spec_genesis = development_config_genesis e, protocol_id = Some ''bar'',
     properties = Some barnacle_chain_spec_properties\<rparr>"

definition local_testnet_config :: "key_env \<Rightarrow> chain_spec" where
  "local_testnet_config e =
    \<lparr>spec_name = ''Local Testnet'', spec_id = ''local_testnet'', spec_type = LocalChain,
     spec_genesis = local_testnet_genesis e, protocol_id = Some ''bar'',
     properties = Some barnacle_chain_spec_properties\<rparr>"

text \<open>
  \<open>load_spec\<close> of \<open>cli/src/command.rs\<close>. The specifications of the Octopus networks and of a file are read by Substrate.
\<close>

record spec_source =
  octopus_testnet_config :: "string + chain_spec"
  octopus_mainnet_config :: "string + chain_spec"
  from_json_file :: "string \<Rightarrow> string + chain_spec"

definition load_spec :: "key_env \<Rightarrow> spec_source \<Rightarrow> string \<Rightarrow> string + chain_spec" where
  "load_spec e src spec =
    (if spec = [] then
       Inl ''Please specify which chain you want to run, e.g. --dev or --chain=local''
     else if spec = ''dev'' then Inr (development_config e)
     else if spec = ''local'' then Inr (local_testnet_config e)
     else if spec = ''octopus-testnet'' then octopus_testnet_config src
     else if spec = ''octopus-mainnet'' then octopus_mainnet_config src
     else from_json_file src spec)"

section \<open>The storage it gives\<close>

definition fund_of_entry :: "fund_entry \<Rightarrow> account \<times> foundation_data" where
  "fund_of_entry entry =
    (let (a, delay, interval, times, amount, first) = entry in
     (a, \<lparr>delay_durations = delay, interval_durations = interval, fund_times = times, fund_amount = amount,
          first_amount = first\<rparr>))"

fun build_vault ::
  "'n foundation_config \<Rightarrow> (account \<Rightarrow> u128 \<Rightarrow> 'n \<Rightarrow> 'n) \<Rightarrow> fund_entry list
    \<Rightarrow> ('n, 'z) foundation_state_scheme \<Rightarrow> ('n, 'z) foundation_state_scheme result" where
  "build_vault c deposit [] s = Inr s"
| "build_vault c deposit (entry # rest) s =
    and_then (build_fund c deposit (fund_of_entry entry) s) (build_vault c deposit rest)"

text \<open>
  The pallets build their storage in their order: the balances, pallets outside the model (\<open>foreign\<close>), which may
  change the balances, and the vault. All other storage of the modelled pallets is empty.
\<close>

definition genesis_storage ::
  "'n chain_params \<Rightarrow> ((account \<times> u128) list \<Rightarrow> 'n result) \<Rightarrow> ('n \<Rightarrow> 'n) \<Rightarrow> (account \<Rightarrow> u128 \<Rightarrow> 'n \<Rightarrow> 'n)
    \<Rightarrow> genesis_config \<Rightarrow> 'n chain_state \<Rightarrow> 'n chain_state result" where
  "genesis_storage C build_balances foreign deposit g ch =
    and_then (build_balances (gc_balances g)) (\<lambda>n.
    on_vault (build_vault (foundation_config_of C) deposit (gc_fund g))
      (ch\<lparr>runtime := (runtime ch)\<lparr>world := (world (runtime ch))\<lparr>native := foreign n\<rparr>\<rparr>\<rparr>))"

end
