(* ===== verification/Chain_Spec_Correct.thy ===== *)
theory Chain_Spec_Correct
  imports Chain_Spec Chain_Properties
begin

text \<open>
  The genesis of the test chains builds, and what it builds is a start of the chain as the theorems about
  the whole chain suppose it.
\<close>

section \<open>The laws of the balances at genesis\<close>

text \<open>
  What the documentation of \<open>pallet_balances\<close> promises here: the genesis of distinct accounts whose amounts are at
  least the existential deposit of one unit (a smaller one panics) and add up to a \<open>u128\<close> gives each its amount,
  free; a deposit touches its account only and no reserve; what was deposited can be reserved, if the
  account can hold it; a reserve touches its account only.
\<close>

definition genesis_laws ::
  "'n native_currency \<Rightarrow> ((account \<times> u128) list \<Rightarrow> 'n result) \<Rightarrow> (account \<Rightarrow> u128 \<Rightarrow> 'n \<Rightarrow> 'n) \<Rightarrow> bool" where
  "genesis_laws cur build_balances deposit \<longleftrightarrow>
    (\<forall>l. distinct (List.map fst l) \<and> (\<forall>p \<in> set l. 1 \<le> snd p) \<and> (\<Sum>p\<leftarrow>l. unat (snd p)) < 2 ^ 128
      \<longrightarrow> (\<exists>n. build_balances l = Inr n
      \<and> (\<forall>b. nc_free cur b n = value_or 0 (map_of l b) \<and> nc_reserved cur b n = 0)))
    \<and> (\<forall>a v n. keeps_reserved cur n (deposit a v n) \<and> (\<forall>b. b \<noteq> a \<longrightarrow> nc_free cur b (deposit a v n) = nc_free cur b n))
    \<and> (\<forall>a v n. unat (nc_free cur a n) + unat (nc_reserved cur a n) + unat v < 2 ^ 128
        \<longrightarrow> (\<exists>n'. nc_reserve cur a v (deposit a v n) = Inr n'))
    \<and> (\<forall>a v n n' b. nc_reserve cur a v n = Inr n' \<longrightarrow> b \<noteq> a \<longrightarrow> nc_free cur b n' = nc_free cur b n)"

lemma genesis_lawsD:
  assumes "genesis_laws cur build_balances deposit"
  shows "distinct (List.map fst l) \<Longrightarrow> \<forall>p \<in> set l. 1 \<le> snd p \<Longrightarrow> (\<Sum>p\<leftarrow>l. unat (snd p)) < 2 ^ 128 \<Longrightarrow> \<exists>n. build_balances l = Inr n
      \<and> (\<forall>b. nc_free cur b n = value_or 0 (map_of l b) \<and> nc_reserved cur b n = 0)"
    and "nc_reserved cur b (deposit a v n) = nc_reserved cur b n"
    and "b \<noteq> a \<Longrightarrow> nc_free cur b (deposit a v n) = nc_free cur b n"
    and "unat (nc_free cur a n) + unat (nc_reserved cur a n) + unat v < 2 ^ 128
      \<Longrightarrow> \<exists>n'. nc_reserve cur a v (deposit a v n) = Inr n'"
    and "nc_reserve cur a v n = Inr n' \<Longrightarrow> b \<noteq> a \<Longrightarrow> nc_free cur b n' = nc_free cur b n"
  using assms by (simp_all add: genesis_laws_def keeps_reserved_def)

section \<open>One fund\<close>

lemma build_fund_returns:
  assumes laws: "genesis_laws cur build_balances deposit" "balances_laws cur" and cur: "fnd_currency c = cur"
    and fits: "unat (nc_free cur a (native s)) + unat (nc_reserved cur a (native s)) + unat (fund_total f) < 2 ^ 128"
  obtains s' where "build_fund c deposit (a, f) s = Inr s'" and "foundation s' = put_entry a f (foundation s)"
    and "unat (nc_reserved cur a (native s')) = unat (nc_reserved cur a (native s)) + unat (fund_total f)"
    and "\<And>b. b \<noteq> a \<Longrightarrow> nc_reserved cur b (native s') = nc_reserved cur b (native s)
      \<and> nc_free cur b (native s') = nc_free cur b (native s)"
    and "block_number s' = block_number s"
proof -
  let ?d = "deposit a (fund_total f) (native s)"
  obtain n where n: "nc_reserve cur a (fund_total f) ?d = Inr n" using genesis_lawsD(4) [OF laws(1) fits] by blast
  let ?s = "put_fund a f (s\<lparr>native := n\<rparr>)"
  have "build_fund c deposit (a, f) s = Inr ?s" using n by (simp add: build_fund_def cur map_err_def)
  moreover have "moves_reserved cur a (unat (fund_total f)) 0 ?d n" by (rule balances_lawsD(1) [OF laws(2) n])
  moreover have "b \<noteq> a \<Longrightarrow> nc_free cur b n = nc_free cur b (native s)" for b
    using genesis_lawsD(3,5) [OF laws(1)] n by metis
  ultimately show ?thesis
    using genesis_lawsD(2) [OF laws(1)] by (intro that [of ?s]) (auto simp: put_fund_def moves_reserved_def)
qed

section \<open>Both funds\<close>

lemma total_values:
  "unat (fund_total (snd (fund_of_entry (a, 1, 1, 100, 1000 * DOLLARS, 2000 * DOLLARS)))) = 102000 * 10 ^ 18"
  "unat (fund_total (snd (fund_of_entry (a, 1, 2, 99, 100 * DOLLARS, 2000 * DOLLARS)))) = 11900 * 10 ^ 18"
  "unat ENDOWMENT = 10000000 * 10 ^ 18"
  by (simp_all add: fund_total_def fund_of_entry_def DOLLARS_def CENTS_def MILLICENTS_def ENDOWMENT_def)

lemma funds_sound:
  "sound_fund (snd (fund_of_entry (a, 1, 1, 100, 1000 * DOLLARS, 2000 * DOLLARS)))"
  "sound_fund (snd (fund_of_entry (a, 1, 2, 99, 100 * DOLLARS, 2000 * DOLLARS)))"
  by (simp_all add: sound_fund_def fund_of_entry_def DOLLARS_def CENTS_def MILLICENTS_def)

section \<open>Genesis and the components\<close>

lemma runtime_fields:
  "token_state.more w' = token_state.more w \<Longrightarrow> chain_nonces w' = chain_nonces w
    \<and> relayer_threshold w' = relayer_threshold w \<and> relayers w' = relayers w \<and> relayer_count w' = relayer_count w
    \<and> votes w' = votes w \<and> bridge_events w' = bridge_events w \<and> bots w' = bots w"
  for w w' :: "'n runtime_world"
  by (cases w; cases w') simp

lemma games_fields:
  "same_upper w w' \<Longrightarrow> bettings w' = bettings w \<and> betting_records w' = betting_records w
    \<and> tickets w' = tickets w \<and> vote_select_infos w' = vote_select_infos w"
  for w w' :: "'n tournament_state"
  by (cases w; cases w') simp

lemma runtime_genesis_put:
  assumes "runtime_genesis (runtime ch)"
  shows "runtime_genesis (runtime (put_vault v ch))"
proof -
  obtain w where w: "runtime (put_vault v ch) = (runtime ch)\<lparr>world := w\<rparr>"
    and more: "token_state.more w = token_state.more (world (runtime ch))"
    by (rule that [OF runtime_put(1)]) simp
  show ?thesis using assms runtime_fields [OF more] by (simp add: runtime_genesis_def w)
qed

lemma games_genesis_more: "games ch' = games ch \<Longrightarrow> tournament_genesis (games_view ch) \<Longrightarrow> tournament_genesis (games_view ch')"
  for ch ch' :: "'n chain_state"
  using games_fields [OF games_view_upper, of ch' ch] by (simp add: tournament_genesis_def)

section \<open>The start\<close>

text \<open>The accounts that are endowed: those given, or those of the six seeds.\<close>

definition test_seeds :: "string list" where
  "test_seeds = [''Alice'', ''Bob'', ''Charlie'', ''Dave'', ''Eve'', ''Ferdie'']"

definition endowed_by :: "key_env \<Rightarrow> account list option \<Rightarrow> account list result" where
  "endowed_by e endowed = (case endowed of Some as \<Rightarrow> Inr as | None \<Rightarrow> accounts_from_seeds e test_seeds)"

lemma genesis_builds:
  assumes seeds: "get_account_id_from_seed e Sr25519Key ''Charile'' = Inr a1"
      "get_account_id_from_seed e Sr25519Key ''Eva'' = Inr a2" "a1 \<noteq> a2"
    and endowed: "endowed_by e accounts = Inr endowed" "distinct endowed" "length endowed * (10000000 * 10 ^ 18) < 2 ^ 128"
    and laws: "balances_laws (currency_of C)" "genesis_laws (currency_of C) build_balances deposit"
    and foreign: "\<And>n b. b \<in> {a1, a2} \<Longrightarrow> nc_free (currency_of C) b (foreign n) = nc_free (currency_of C) b n
      \<and> nc_reserved (currency_of C) b (foreign n) = nc_reserved (currency_of C) b n"
    and empty: "runtime_genesis (runtime ch0)" "tournament_genesis (games_view ch0)" "funds ch0 = []" "clock ch0 = 0"
  shows "\<exists>g ch. testnet_genesis e authorities root accounts = Inr g
    \<and> genesis_storage (deploy_chain C) build_balances foreign deposit g ch0 = Inr ch
    \<and> chain_reachable admit (deploy_chain C) n ch
    \<and> vault_owes (deploy_chain C) ch 0 a1 = 102000 * 10 ^ 18
    \<and> vault_owes (deploy_chain C) ch 0 a2 = 11900 * 10 ^ 18"
proof -
  let ?C = "deploy_chain C" and ?cur = "currency_of C"
  let ?e1 = "(a1, 1, 1, 100, 1000 * DOLLARS, 2000 * DOLLARS) :: fund_entry"
    and ?e2 = "(a2, 1, 2, 99, 100 * DOLLARS, 2000 * DOLLARS) :: fund_entry"
  define f1 f2 where f: "f1 = snd (fund_of_entry ?e1)" "f2 = snd (fund_of_entry ?e2)"
  have entries: "fund_of_entry ?e1 = (a1, f1)" "fund_of_entry ?e2 = (a2, f2)" by (simp_all add: f fund_of_entry_def)
  have total: "unat (fund_total f1) = 102000 * 10 ^ 18" "unat (fund_total f2) = 11900 * 10 ^ 18"
    and sound: "sound_fund f1" "sound_fund f2" and delay: "delay_durations f1 = 1" "delay_durations f2 = 1"
    unfolding f by (rule total_values funds_sound)+ (simp_all add: fund_of_entry_def)
  obtain g where g: "testnet_genesis e authorities root accounts = Inr g"
    "gc_balances g = List.map (\<lambda>x. (x, ENDOWMENT)) endowed" "gc_fund g = [?e1, ?e2]"
    using seeds(1,2) endowed(1) unfolding testnet_genesis_def endowed_by_def test_seeds_def by auto
  have "distinct (List.map fst (gc_balances g))" using endowed(2) by (simp add: g comp_def)
  moreover have "\<forall>p \<in> set (gc_balances g). 1 \<le> snd p"
    by (auto simp: g ENDOWMENT_def DOLLARS_def CENTS_def MILLICENTS_def)
  moreover have "(\<Sum>p\<leftarrow>gc_balances g. unat (snd p)) < 2 ^ 128"
    using endowed(3) by (simp add: g comp_def total_values sum_list_triv)
  ultimately  obtain n0 where n0: "build_balances (gc_balances g) = Inr n0"
    "nc_free ?cur b n0 = value_or 0 (map_of (gc_balances g) b)" "nc_reserved ?cur b n0 = 0" for b
    using genesis_lawsD(1) [OF laws(2)] by metis
  have free: "unat (nc_free ?cur b n0) \<le> 10000000 * 10 ^ 18" for b
  proof (cases "map_of (gc_balances g) b")
    case (Some v)
    then have "v = ENDOWMENT" by (auto simp: g dest!: map_of_SomeD)
    then show ?thesis using Some by (simp add: n0 value_or_def total_values)
  qed (simp add: n0 value_or_def)
  let ?ch = "ch0\<lparr>runtime := (runtime ch0)\<lparr>world := (world (runtime ch0))\<lparr>native := foreign n0\<rparr>\<rparr>\<rparr>"
  let ?s = "vault_view ?ch" and ?c = "foundation_config_of ?C"
  have c: "fnd_currency ?c = ?cur" by simp
  have s: "native ?s = foreign n0" "foundation ?s = []" "block_number ?s = 0"
    using empty(3,4) funds_vault [of ?ch ch0] by (simp_all add: funds_def)
  obtain s1 where s1: "build_fund ?c deposit (a1, f1) ?s = Inr s1" "foundation s1 = [(a1, f1)]"
    "unat (nc_reserved ?cur a1 (native s1)) = 102000 * 10 ^ 18"
    "nc_reserved ?cur a2 (native s1) = 0" "nc_free ?cur a2 (native s1) = nc_free ?cur a2 n0" "block_number s1 = 0"
  proof (rule build_fund_returns [OF laws(2,1) c, of a1 ?s f1])
    show "unat (nc_free ?cur a1 (native ?s)) + unat (nc_reserved ?cur a1 (native ?s)) + unat (fund_total f1) < 2 ^ 128"
      using free [of a1] foreign [of a1 n0] by (simp add: s n0 total)
  qed (use foreign [of a1 n0] foreign [of a2 n0] seeds(3) in \<open>auto simp: s n0 empty(4) total\<close>)
  obtain s2 where s2: "build_fund ?c deposit (a2, f2) s1 = Inr s2" "foundation s2 = [(a1, f1), (a2, f2)]"
    "unat (nc_reserved ?cur a1 (native s2)) = 102000 * 10 ^ 18"
    "unat (nc_reserved ?cur a2 (native s2)) = 11900 * 10 ^ 18" "block_number s2 = 0"
  proof (rule build_fund_returns [OF laws(2,1) c, of a2 s1 f2])
    show "unat (nc_free ?cur a2 (native s1)) + unat (nc_reserved ?cur a2 (native s1)) + unat (fund_total f2) < 2 ^ 128"
      using free [of a2] by (simp add: s1 total)
  qed (use s1 seeds(3) in \<open>auto simp: total\<close>)
  let ?ch' = "put_vault s2 ?ch"
  have built: "genesis_storage ?C build_balances foreign deposit g ch0 = Inr ?ch'"
    using n0(1) s1(1) s2(1) by (simp add: genesis_storage_def on_vault_def g(3) entries)
  have "runtime_genesis (runtime ?ch)" using empty(1) by (simp add: runtime_genesis_def)
  then have "runtime_genesis (runtime ?ch')" by (rule runtime_genesis_put)
  moreover have "tournament_genesis (games_view ?ch')" using empty(2) by (rule games_genesis_more [rotated]) simp
  ultimately have "chain_genesis ?C ?ch'"
    using s2 seeds(3) sound by (auto simp: chain_genesis_def word_le_nat_alt total)
  then have "chain_reachable admit ?C n ?ch'" by (rule reachable_init)
  moreover have "vault_owes ?C ?ch' 0 a1 = 102000 * 10 ^ 18" "vault_owes ?C ?ch' 0 a2 = 11900 * 10 ^ 18"
    using seeds(3) total sound_total [OF sound(1)] sound_total [OF sound(2)]
    by (simp_all add: vault_owes_def s2 account_due_def fund_due_def next_epoch_def delay)
  ultimately show ?thesis using g(1) built by blast
qed

lemma accounts_of_seeds:
  "(\<And>seed. seed \<in> set seeds \<Longrightarrow> get_account_id_from_seed e Sr25519Key seed = Inr (acc seed))
    \<Longrightarrow> accounts_from_seeds e seeds = Inr (List.map acc seeds)"
  by (induction seeds) simp_all

lemma authorities_of_seeds:
  "(\<And>kind seed. seed \<in> set seeds \<Longrightarrow> \<exists>k. get_from_seed e kind seed = Inr k)
    \<Longrightarrow> \<exists>as. authorities_from_seeds e seeds = Inr as"
proof (induction seeds)
  case (Cons seed seeds)
  have "\<And>kind. \<exists>k. get_from_seed e kind seed = Inr k" using Cons.prems by simp
  then obtain k where k: "\<And>kind. get_from_seed e kind seed = Inr (k kind)" by metis
  then have "get_account_id_from_seed e Sr25519Key seed = Inr (into_account e (k Sr25519Key))"
    by (simp add: get_account_id_from_seed_def)
  with k show ?case using Cons by (auto simp: authority_keys_from_seed_def)
qed simp

text \<open>
  C26. The genesis of the development chain and of the local test chain, which endow the accounts of six seeds, is
  a start of the deployed chain. If every seed gives its key pairs and different seeds different accounts, the
  configuration builds without a panic, the storage satisfies what the theorems about the whole chain suppose
  of its start, so that they hold of the chain that starts there, and the vault owes the accounts of the seeds
  \<open>Charile\<close> and \<open>Eva\<close> 102000 and 11900 units of 10^18. All other storage is empty at first, the pallets outside
  the model that build between the balances and the vault leave the balances of the two accounts as they are, and \<open>pallet_balances\<close> keeps its
  documented laws (for amounts of at least the existential deposit).
\<close>

theorem testnet_genesis_starts_chain:
  assumes pairs: "\<And>kind seed. seed \<in> set test_seeds \<union> {''Charile'', ''Eva''} \<Longrightarrow> \<exists>k. get_from_seed e kind seed = Inr k"
    and accounts: "\<And>seed. seed \<in> set test_seeds \<union> {''Charile'', ''Eva''} \<Longrightarrow>
      get_account_id_from_seed e Sr25519Key seed = Inr (acc seed)"
    and different: "inj_on acc (set test_seeds \<union> {''Charile'', ''Eva''})"
    and laws: "balances_laws (currency_of C)" "genesis_laws (currency_of C) build_balances deposit"
    and foreign: "\<And>n b. b \<in> {acc ''Charile'', acc ''Eva''} \<Longrightarrow>
      nc_free (currency_of C) b (foreign n) = nc_free (currency_of C) b n
      \<and> nc_reserved (currency_of C) b (foreign n) = nc_reserved (currency_of C) b n"
    and empty: "runtime_genesis (runtime ch0)" "tournament_genesis (games_view ch0)" "funds ch0 = []" "clock ch0 = 0"
    and spec: "spec \<in> {development_config e, local_testnet_config e}"
  shows "\<exists>g ch. spec_genesis spec = Inr g
    \<and> genesis_storage (deploy_chain C) build_balances foreign deposit g ch0 = Inr ch
    \<and> chain_reachable admit (deploy_chain C) n ch
    \<and> vault_owes (deploy_chain C) ch 0 (acc ''Charile'') = 102000 * 10 ^ 18
    \<and> vault_owes (deploy_chain C) ch 0 (acc ''Eva'') = 11900 * 10 ^ 18"
proof -
  have "endowed_by e None = Inr (List.map acc test_seeds)"
    using accounts by (simp add: endowed_by_def accounts_of_seeds)
  moreover have "distinct (List.map acc test_seeds)"
    using different by (simp add: distinct_map inj_on_Un) (simp add: test_seeds_def)
  moreover have "length (List.map acc test_seeds) * (10000000 * 10 ^ 18) < 2 ^ 128" by (simp add: test_seeds_def)
  moreover have "acc ''Charile'' \<noteq> acc ''Eva''" using different by (auto simp: inj_on_def)
  ultimately have builds: "\<exists>g ch. testnet_genesis e authorities root None = Inr g
      \<and> genesis_storage (deploy_chain C) build_balances foreign deposit g ch0 = Inr ch
      \<and> chain_reachable admit (deploy_chain C) n ch
      \<and> vault_owes (deploy_chain C) ch 0 (acc ''Charile'') = 102000 * 10 ^ 18
      \<and> vault_owes (deploy_chain C) ch 0 (acc ''Eva'') = 11900 * 10 ^ 18" for authorities root
    using accounts by (intro genesis_builds [OF _ _ _ _ _ _ laws foreign empty]) auto
  have "\<exists>as. authorities_from_seeds e seeds = Inr as" if "set seeds \<subseteq> set test_seeds" for seeds
    using that by (intro authorities_of_seeds pairs) auto
  from this [of "[''Alice'']"] this [of "[''Alice'', ''Bob'']"]
  obtain as bs where "authorities_from_seeds e [''Alice''] = Inr as" "authorities_from_seeds e [''Alice'', ''Bob''] = Inr bs"
    by (auto simp: test_seeds_def simp del: authorities_from_seeds.simps)
  moreover have "get_account_id_from_seed e Sr25519Key ''Alice'' = Inr (acc ''Alice'')"
    using accounts by (simp add: test_seeds_def)
  ultimately obtain authorities root where "spec_genesis spec = testnet_genesis e authorities root None"
    using spec by (auto simp: development_config_def local_testnet_config_def development_config_genesis_def
        local_testnet_genesis_def)
  then show ?thesis using builds by simp
qed

text \<open>Keys that spell the seed, balances with what is listed.\<close>

definition ref_keys :: key_env where
  "ref_keys = \<lparr>pair_from_string = (\<lambda>_ seed. Some (List.map (\<lambda>ch. word_of_nat (of_char ch)) seed)),
    into_account = (\<lambda>p. foldr (\<lambda>b acc. unat b + 256 * acc) p 0)\<rparr>"

definition ref_build_balances :: "(account \<times> u128) list \<Rightarrow> ref_native result" where
  "ref_build_balances l =
    ensure (distinct (List.map fst l) \<and> (\<forall>p \<in> set l. 1 \<le> snd p)) Panic (Inr (foldr (\<lambda>(a, v). rn_put a (v, 0)) l rn_empty))"

definition ref_deposit :: "account \<Rightarrow> u128 \<Rightarrow> ref_native \<Rightarrow> ref_native" where
  "ref_deposit a v n = (let (fr, rs) = rn_accounts n a in rn_put a (fr + v, rs) n)"

lemma ref_genesis_laws: "genesis_laws ref_currency ref_build_balances ref_deposit"
proof -
  have "rn_accounts (foldr (\<lambda>(a, v). rn_put a (v, 0)) l rn_empty) b = (value_or 0 (map_of l b), 0)" for l b
    by (induction l) (auto simp: rn_empty_def rn_put_def value_or_def)
  moreover have "\<exists>n'. rn_reserve a v (ref_deposit a v n) = Inr n'"
    if "unat (fst (rn_accounts n a)) + unat (snd (rn_accounts n a)) + unat v < 2 ^ 128" for a v n
  proof -
    obtain fr rs where p: "rn_accounts n a = (fr, rs)" by (cases "rn_accounts n a")
    have "unat (fr + v) = unat fr + unat v" using that by (simp add: p unat_add_fits)
    then have "v \<le> fr + v" by (simp add: word_le_nat_alt)
    then show ?thesis
      using that by (simp add: p ref_deposit_def rn_reserve_def rn_move_def rn_put_def take_free_def give_reserved_def
          checked_sub_def checked_add_def ok_or_def)
  qed
  ultimately show ?thesis
    by (auto simp: genesis_laws_def ref_currency_def ref_build_balances_def ref_deposit_def keeps_reserved_def rn_put_def
        rn_reserve_def rn_move_def result_simps split: prod.splits)
qed

definition demo_genesis_start :: "ref_native chain_state" where
  "demo_genesis_start = set_number 0 demo_chain_start"

definition ref_account :: "string \<Rightarrow> account" where
  "ref_account seed = into_account ref_keys (List.map (\<lambda>ch. word_of_nat (of_char ch)) (''//'' @ seed))"

lemma ref_accounts_differ: "inj_on ref_account (set test_seeds \<union> {''Charile'', ''Eva''})"
  by (simp add: test_seeds_def) (simp add: ref_account_def ref_keys_def)

theorem testnet_genesis_starts_chain_witness:
  "\<exists>g ch. spec_genesis (development_config ref_keys) = Inr g
    \<and> genesis_storage (deploy_chain demo_params) ref_build_balances id ref_deposit g demo_genesis_start = Inr ch
    \<and> chain_reachable sound_call (deploy_chain demo_params) 1 ch
    \<and> vault_owes (deploy_chain demo_params) ch 0 (ref_account ''Charile'') = 102000 * 10 ^ 18"
proof -
  have pairs: "\<exists>k. get_from_seed ref_keys kind seed = Inr k" for kind seed
    by (simp add: get_from_seed_def ok_or_def ref_keys_def)
  have accounts: "get_account_id_from_seed ref_keys Sr25519Key seed = Inr (ref_account seed)" for seed
    by (simp add: get_account_id_from_seed_def get_from_seed_def ok_or_def ref_keys_def ref_account_def)
  have cur: "currency_of demo_params = ref_currency" by (simp add: ref_token_config_def)
  have laws: "balances_laws (currency_of demo_params)" "genesis_laws (currency_of demo_params) ref_build_balances ref_deposit"
    unfolding cur by (rule ref_balances_laws ref_genesis_laws)+
  have empty: "runtime_genesis (runtime demo_genesis_start)" "tournament_genesis (games_view demo_genesis_start)"
    "funds demo_genesis_start = []" "clock demo_genesis_start = 0"
  proof -
    show "runtime_genesis (runtime demo_genesis_start)" "clock demo_genesis_start = 0"
      using demo_start(1) by (simp_all add: demo_genesis_start_def runtime_genesis_def set_number_def)
    show "funds demo_genesis_start = []" using demo_start(3) by (simp add: demo_genesis_start_def)
    show "tournament_genesis (games_view demo_genesis_start)"
      using demo_start(2) by (rule games_genesis_more [rotated]) (simp add: demo_genesis_start_def set_number_def)
  qed
  from testnet_genesis_starts_chain [OF pairs accounts ref_accounts_differ laws _ empty,
      where foreign = id and spec = "development_config ref_keys" and n = 1 and admit = sound_call]
  show ?thesis by force
qed

end
