(* ===== verification/Rpc.thy ===== *)
theory Rpc
  imports Broker Runtime
begin

text \<open>
  The queries of a node: \<open>runtime-api/src/verifier.rs\<close> with its implementation in \<open>runtime/src/lib.rs\<close>, the RPC
  methods on top of it (\<open>rpc/src/verifier/mod.rs\<close>), and the key under which a map of a pallet is read from
  the storage (\<open>rpc/src/lib.rs\<close>).

  The client is a parameter: the storage of each block it knows, and its best block. It runs a query of the
  runtime on the storage of the block asked for; a block it does not have, or a query that panics, is an error
  of the client.
\<close>

section \<open>The runtime interface\<close>

definition api_current_season :: "'n runtime_params \<Rightarrow> account \<Rightarrow> 'n runtime_state \<Rightarrow> season result" where
  "api_current_season R dmn = current_season_of_dominator (runtime_config R (\<lambda>call o' s. Inl Panic)) dmn"

definition api_pending_shares :: "'n runtime_params \<Rightarrow> account \<Rightarrow> account \<Rightarrow> 'n runtime_state \<Rightarrow> u128 result" where
  "api_pending_shares R dmn who = pending_shares_of_dominator (runtime_config R (\<lambda>call o' s. Inl Panic)) dmn who"

section \<open>The methods of the node\<close>

record ('h, 'n, 'e) node_client =
  cl_best_hash :: 'h
  cl_storage :: "'h \<Rightarrow> 'e + 'n runtime_state"
  cl_trap :: "dispatch_error \<Rightarrow> 'e"
  cl_show :: "'e \<Rightarrow> string"
  cl_number :: "u128 \<Rightarrow> json option"

datatype error_object = ErrorObject "32 word" string "string option"

definition SERVER_ERROR :: "32 word \<Rightarrow> 32 word" where "SERVER_ERROR code = code"

definition INVALID_PARAMS_CODE :: "32 word" where "INVALID_PARAMS_CODE = - 32602"

definition run_api :: "('h, 'n, 'e) node_client \<Rightarrow> 'h \<Rightarrow> ('n runtime_state \<Rightarrow> 'a result) \<Rightarrow> 'e + 'a" where
  "run_api cl at f =
    and_then (cl_storage cl at) (\<lambda>s. case f s of Inl e \<Rightarrow> Inl (cl_trap cl e) | Inr x \<Rightarrow> Inr x)"

definition query_error :: "('h, 'n, 'e) node_client \<Rightarrow> 32 word \<Rightarrow> string \<Rightarrow> 'e + 'a \<Rightarrow> error_object + 'a" where
  "query_error cl code message r =
    (case r of Inl e \<Rightarrow> Inl (ErrorObject (SERVER_ERROR code) message (Some (cl_show cl e))) | Inr x \<Rightarrow> Inr x)"

definition rpc_current_season ::
  "'n runtime_params \<Rightarrow> ('h, 'n, 'e) node_client \<Rightarrow> account \<Rightarrow> 'h option \<Rightarrow> error_object + season" where
  "rpc_current_season R cl dominator at =
    query_error cl 101 ''Unable to query current season''
      (run_api cl (value_or (cl_best_hash cl) at) (api_current_season R dominator))"

definition rpc_pending_shares ::
  "'n runtime_params \<Rightarrow> ('h, 'n, 'e) node_client \<Rightarrow> account \<Rightarrow> account \<Rightarrow> 'h option \<Rightarrow> error_object + json" where
  "rpc_pending_shares R cl dominator who at =
    and_then (query_error cl 100 ''Unable to query pending shares''
        (run_api cl (value_or (cl_best_hash cl) at) (api_pending_shares R dominator who))) (\<lambda>shares.
    ok_or (cl_number cl shares)
      (ErrorObject INVALID_PARAMS_CODE ''doesn't fit in NumberOrHex representation'' None))"

section \<open>Storage keys\<close>

text \<open>The hashes of \<open>sp_core\<close> are parameters, the key comes encoded.\<close>

definition blake2_128concat_storage_key ::
  "(bytes \<Rightarrow> bytes) \<Rightarrow> (bytes \<Rightarrow> bytes) \<Rightarrow> bytes \<Rightarrow> bytes \<Rightarrow> bytes \<Rightarrow> bytes" where
  "blake2_128concat_storage_key twox_128 blake2_128 module storage x =
    twox_128 module @ twox_128 storage @ (blake2_128 x @ x)"

text \<open>Hashes of 16 bytes: the key can be read back, so different entries have different keys.\<close>

lemma storage_key_reads_back:
  assumes "\<And>x. length (twox_128 x) = 16" and "\<And>x. length (blake2_128 x) = 16"
  shows "drop 48 (blake2_128concat_storage_key twox_128 blake2_128 m st x) = x"
  by (simp add: blake2_128concat_storage_key_def assms)

end
