(* ===== verification/Rpc_Correct.thy ===== *)
theory Rpc_Correct
  imports Rpc Staking_Correct
begin

text \<open>
  What the node tells a staker about pending shares is what a claim pays, summed over the tokens.
\<close>

section \<open>Sums of shares\<close>

definition total_of :: "(token_id \<times> u128) list \<Rightarrow> u128" where
  "total_of shares = (\<Sum>(t, v)\<leftarrow>shares. v)"

definition share_of :: "token_id \<Rightarrow> (token_id \<times> u128) list \<Rightarrow> u128" where
  "share_of t shares = (\<Sum>(k, v)\<leftarrow>shares. if k = t then v else 0)"

lemma total_of_add: "total_of (bt_upsert (\<lambda>v. v + x) x k m) = total_of m + x"
  by (induction m) (auto simp: total_of_def ac_simps)

lemma season_total_of: "total_of (season_shares ar amt b shares) = season_total ar amt b (total_of shares)"
proof -
  have "total_of (fold (\<lambda>(t, p). add_share t (g p)) ps m) = fold (\<lambda>(_, p) acc. acc + g p) ps (total_of m)"
    for ps :: "(token_id \<times> u128) list" and m and g :: "u128 \<Rightarrow> u128"
    by (induction ps arbitrary: m) (auto simp: add_share_def total_of_add)
  then show ?thesis by (simp add: season_shares_def season_total_def Let_def)
qed

lemma all_shares_total:
  "total_of (all_shares c dmn d s) = fold (\<lambda>n. season_total (lib_arithmetic (vc_libs c)) (dist_staking d) (bonuses s (dmn, n)))
     (seasons_between (dist_from d) (dist_to d)) 0"
proof -
  have "total_of (fold (\<lambda>n. season_shares ar amt (b n)) ns m) = fold (\<lambda>n. season_total ar amt (b n)) ns (total_of m)"
    for ar amt and b :: "season \<Rightarrow> bonus" and ns m
    by (induction ns arbitrary: m) (simp_all add: season_total_of)
  then show ?thesis by (simp add: all_shares_def total_of_def)
qed

section \<open>What a claim pays\<close>

text \<open>
  For the native token the claim relies on what the documentation of \<open>pallet_balances\<close> says of a mutation of an
  account: it writes what its closure returns (the existential deposit is one unit, so no account is dust).
\<close>

definition mutates_as_told :: "'n native_currency \<Rightarrow> bool" where
  "mutates_as_told cur \<longleftrightarrow> (\<forall>a f n n'. nc_mutate_account cur a f n = Inr n' \<longrightarrow>
    f (nc_free cur a n, nc_reserved cur a n) = Inr (nc_free cur a n', nc_reserved cur a n'))"

lemma mutate_free:
  assumes "try_mutate_account c t a (\<lambda>(fr, rs). Inr (fr + v, rs)) w = Inr w'"
    and "u = native_id c \<longrightarrow> mutates_as_told (currency c)"
  shows "free_balance c u a w' = free_balance c u a w + (if u = t then v else 0)"
proof (cases "t = native_id c")
  case True
  then obtain n where n: "nc_mutate_account (currency c) a (\<lambda>(fr, rs). Inr (fr + v, rs)) (native w) = Inr n"
    and w': "w' = w\<lparr>native := n\<rparr>"
    using assms(1) by (auto simp: try_mutate_account_def and_then_Inr)
  show ?thesis
  proof (cases "u = t")
    case u: True
    then have "(\<lambda>(fr, rs). Inr (fr + v, rs)) (nc_free (currency c) a (native w), nc_reserved (currency c) a (native w))
        = (Inr (nc_free (currency c) a n, nc_reserved (currency c) a n) :: (u128 \<times> u128) result)"
      using assms(2) True n unfolding mutates_as_told_def by blast
    then show ?thesis using True u by (simp add: w' free_balance_def)
  next
    case False
    then show ?thesis using True by (simp add: w' free_balance_def get_token_balance_def)
  qed
next
  case False
  then show ?thesis
    using assms(1) by (auto simp: try_mutate_account_def free_balance_def get_token_balance_def Let_def and_then_Inr
        keep_alive_def no_account_def value_or_def split: if_splits)
qed

lemma pay_shares_free:
  assumes "pay_shares (runtime_config R dp) a shares s = Inr s'" and "t = native_id (rt_token R) \<longrightarrow> mutates_as_told (currency (rt_token R))"
  shows "free_balance (rt_token R) t a (world s') = free_balance (rt_token R) t a (world s) + share_of t shares"
  using assms(1)
proof (induction shares arbitrary: s)
  case Nil
  then show ?case by (simp add: share_of_def)
next
  case (Cons p shares)
  obtain k v where p: "p = (k, v)" by (cases p)
  obtain w where w: "try_mutate_account (rt_token R) k a (\<lambda>(fr, rs). Inr (fr + v, rs)) (world s) = Inr w"
    and rest: "pay_shares (runtime_config R dp) a shares (s\<lparr>world := w\<rparr>) = Inr s'"
    using Cons.prems by (auto simp: p and_then_Inr on_world_Inr)
  show ?case using Cons.IH [OF rest] mutate_free [OF w assms(2)] by (simp add: p share_of_def)
qed

lemma take_shares_free:
  assumes "take_shares (runtime_config R dp) a dmn d s = Inr (x, s')" and "t = native_id (rt_token R) \<longrightarrow> mutates_as_told (currency (rt_token R))"
  shows "free_balance (rt_token R) t a (world s') = free_balance (rt_token R) t a (world s)
    + share_of t (all_shares (runtime_config R dp) dmn d s)"
proof (cases "dist_to d = dist_from d")
  case True
  then have "all_shares (runtime_config R dp) dmn d s = []" by (simp add: all_shares_def seasons_between_def)
  then show ?thesis using True assms(1) by (simp add: take_shares_def share_of_def)
next
  case False
  then show ?thesis using assms by (auto simp: take_shares_def and_then_Inr intro: pay_shares_free)
qed

section \<open>Quotes\<close>

lemma quote_is:
  assumes "get_dominator dmn s = Some d" and "dom_start d \<noteq> 0" and "stakings s (dmn, a) = Some st"
    and "staking_amount st \<noteq> 0" and "current_season (runtime_config R dp) (block_number (world s)) (dom_start d) = Inr sn"
  shows "api_pending_shares R dmn a s = Inr (total_of (all_shares (runtime_config R dp) dmn
    \<lparr>dist_from = from_season st, dist_to = sn, dist_staking = staking_amount st\<rparr> s))"
proof -
  have "current_season (runtime_config R (\<lambda>call o' s. Inl Panic)) (block_number (world s)) (dom_start d) = Inr sn"
    using assms(5) by (simp add: current_season_def split: if_splits)
  then show ?thesis
    using assms(1-4) by (simp add: api_pending_shares_def pending_shares_of_dominator_def all_shares_total value_or_def)
qed

lemma quote_at_zero: "get_dominator dmn s = Some d \<Longrightarrow> dom_start d = 0 \<Longrightarrow> api_pending_shares R dmn a s = Inr 0"
  by (simp add: api_pending_shares_def pending_shares_of_dominator_def value_or_def)

text \<open>
  C13. The node quotes what a claim pays. An account with a stake on a dominator asks the node for the pending
  shares at the best block, then claims on that storage: the answer is the sum of the shares by which the claim
  raises the account's free balances of all tokens, and the same question on the storage after the claim is
  answered with zero. The exception is a dominator that starts at block 0, for which the answer is zero
  whatever the claim pays. For the native token \<open>pallet_balances\<close> writes what it is told to an account.
\<close>

theorem quoted_shares_paid:
  assumes best: "cl_storage cl (cl_best_hash cl) = Inr s"
    and claim: "claim_shares (runtime_config R dp) (SignedOrigin a) src s = Inr s'"
    and dmn: "lib_lookup (rt_libs R) src = Inr dmn" "get_dominator dmn s = Some d"
    and stake: "stake_of dmn a s \<noteq> 0"
  shows "\<exists>shares. rpc_pending_shares R cl dmn a None
        = ok_or (cl_number cl (if dom_start d = 0 then 0 else total_of shares))
            (ErrorObject INVALID_PARAMS_CODE ''doesn't fit in NumberOrHex representation'' None)
    \<and> (\<forall>t. (t = native_id (rt_token R) \<longrightarrow> mutates_as_told (currency (rt_token R))) \<longrightarrow>
        free_balance (rt_token R) t a (world s') = free_balance (rt_token R) t a (world s) + share_of t shares)
    \<and> api_pending_shares R dmn a s' = Inr 0"
proof -
  let ?c = "runtime_config R dp"
  obtain st sn x s0 where st: "stakings s (dmn, a) = Some st"
    and sn: "current_season ?c (block_number (world s)) (dom_start d) = Inr sn"
    and take: "take_shares ?c a dmn
      \<lparr>dist_from = from_season st, dist_to = sn, dist_staking = staking_amount st\<rparr> s = Inr (x, s0)"
    and s': "s' = s0\<lparr>stakings := (stakings s0)((dmn, a) \<mapsto> st\<lparr>from_season := x\<rparr>)\<rparr>"
    using claim dmn by (auto simp: claim_shares_def result_simps)
  let ?shares = "all_shares ?c dmn \<lparr>dist_from = from_season st, dist_to = sn, dist_staking = staking_amount st\<rparr> s"
  have amount: "staking_amount st \<noteq> 0" using stake st by (simp add: stake_of_def no_staking_def)
  have w: "only_world s s0" and x: "x = sn" using take_shares_frame [OF take] by simp_all
  have d': "get_dominator dmn s' = Some d"
    using dmn(2) only_worldD(4) [OF w] by (simp add: s' get_dominator_def)
  have "api_pending_shares R dmn a s = Inr (if dom_start d = 0 then 0 else total_of ?shares)"
    using quote_is [OF dmn(2) _ st amount sn] quote_at_zero [OF dmn(2)] by simp
  then have "rpc_pending_shares R cl dmn a None = ok_or (cl_number cl (if dom_start d = 0 then 0 else total_of ?shares))
      (ErrorObject INVALID_PARAMS_CODE ''doesn't fit in NumberOrHex representation'' None)"
    using best by (simp add: rpc_pending_shares_def run_api_def query_error_def value_or_def)
  moreover have "api_pending_shares R dmn a s' = Inr 0"
  proof (cases "dom_start d = 0")
    case True
    then show ?thesis by (rule quote_at_zero [OF d'])
  next
    case False
    then show ?thesis
      using quote_is [OF d' False, of a "st\<lparr>from_season := sn\<rparr>" R dp sn] amount sn take_shares_block [OF take]
      by (simp add: s' x all_shares_def seasons_between_def total_of_def)
  qed
  moreover have "\<forall>t. (t = native_id (rt_token R) \<longrightarrow> mutates_as_told (currency (rt_token R))) \<longrightarrow>
      free_balance (rt_token R) t a (world s') = free_balance (rt_token R) t a (world s) + share_of t ?shares"
    using take_shares_free [OF take] by (simp add: s')
  ultimately show ?thesis by blast
qed

text \<open>Account 5 has staked 90000 of 90000 on dominator 9, and 500 of token 3 were earned in season 0.\<close>

definition demo_client :: "(nat, ref_native, string) node_client" where
  "demo_client = \<lparr>cl_best_hash = 1, cl_storage = (\<lambda>h. if h = 1 then Inr demo_season else Inl ''unknown block''),
    cl_trap = (\<lambda>_. ''panic''), cl_show = id, cl_number = (\<lambda>v. Some (JNum (uint v)))\<rparr>"

lemma demo_quote:
  "rpc_pending_shares ref_runtime demo_client 9 5 None = Inr (JNum 500)
    \<and> rpc_pending_shares ref_runtime demo_client 9 5 (Some 2)
      = Inl (ErrorObject 100 ''Unable to query pending shares'' (Some ''unknown block''))"
  by code_simp

theorem quoted_shares_paid_witness:
  "\<exists>s shares. claim_shares (runtime_config ref_runtime (nested_dispatch ref_runtime 1)) (SignedOrigin 5) 9 demo_season = Inr s
    \<and> total_of shares = 500
    \<and> (\<forall>t. free_balance (rt_token ref_runtime) t 5 (world s)
        = free_balance (rt_token ref_runtime) t 5 (world demo_season) + share_of t shares)
    \<and> api_pending_shares ref_runtime 9 5 s = Inr 0"
proof -
  let ?claim = "claim_shares (runtime_config ref_runtime (nested_dispatch ref_runtime 1)) (SignedOrigin 5) 9 demo_season"
  obtain s where s: "?claim = Inr s" by (rule demo_claim)
  have best: "cl_storage demo_client (cl_best_hash demo_client) = Inr demo_season"
    and number: "\<And>v. cl_number demo_client v = Some (JNum (uint v))" by (simp_all add: demo_client_def)
  have facts: "lib_lookup (rt_libs ref_runtime) 9 = Inr 9" "stake_of 9 5 demo_season \<noteq> 0"
    "get_dominator 9 demo_season = Some \<lparr>dom_name = [100, 101], dom_staked = 90000, merkle_root = [], dom_start = 40,
        dom_sequence = (0, 40), dom_status = DOMINATOR_ACTIVE\<rparr>"
    by code_simp+
  have law: "mutates_as_told (currency (rt_token ref_runtime))"
    by (auto simp: mutates_as_told_def ref_runtime_def ref_token_config_def ref_currency_def rn_move_def rn_put_def
        and_then_Inr)
  from quoted_shares_paid [OF best s facts(1,3,2)] law obtain shares where
    quote: "rpc_pending_shares ref_runtime demo_client 9 5 None = ok_or (cl_number demo_client (total_of shares))
            (ErrorObject INVALID_PARAMS_CODE ''doesn't fit in NumberOrHex representation'' None)"
    and rest: "\<forall>t. free_balance (rt_token ref_runtime) t 5 (world s)
        = free_balance (rt_token ref_runtime) t 5 (world demo_season) + share_of t shares"
    "api_pending_shares ref_runtime 9 5 s = Inr 0"
    by auto
  have "uint (total_of shares) = 500" using quote demo_quote by (simp add: number ok_or_def)
  then have "total_of shares = 500" by (simp add: word_uint_eq_iff)
  with s rest show ?thesis by blast
qed

end
