(* ===== verification/Inspect.thy ===== *)
theory Inspect
  imports Primitives "HOL-Library.Char_ord"
begin

text \<open>
  \<open>inspect/src/lib.rs\<close> and \<open>inspect/src/command.rs\<close>: the command of the node that prints a block or an extrinsic, given
  by its address or by its bytes. The parsers of hashes and of hexadecimal text, the SCALE decoders and
  encoders, the debug formats of derived types and the access to the chain are parameters.
\<close>

section \<open>Decimal numbers\<close>

text \<open>\<open>from_str\<close> of the unsigned integer types, for numbers below \<open>m\<close>, and how they are displayed.\<close>

datatype int_error = EmptyInt | InvalidDigit | PosOverflow

fun show_int_error :: "int_error \<Rightarrow> string" where
  "show_int_error EmptyInt = ''cannot parse integer from empty string''"
| "show_int_error InvalidDigit = ''invalid digit found in string''"
| "show_int_error PosOverflow = ''number too large to fit in target type''"

definition to_digit :: "char \<Rightarrow> nat option" where
  "to_digit ch = (if 48 \<le> (of_char ch :: nat) \<and> of_char ch \<le> (57 :: nat) then Some (of_char ch - 48) else None)"

definition next_digit :: "nat \<Rightarrow> nat \<Rightarrow> char \<Rightarrow> int_error + nat" where
  "next_digit m acc ch =
    and_then (ok_or (to_digit ch) InvalidDigit) (\<lambda>d.
    ensure (acc * 10 < m) PosOverflow (
    ensure (acc * 10 + d < m) PosOverflow (Inr (acc * 10 + d))))"

fun parse_digits :: "nat \<Rightarrow> nat \<Rightarrow> string \<Rightarrow> int_error + nat" where
  "parse_digits m acc [] = Inr acc"
| "parse_digits m acc (ch # s) = and_then (next_digit m acc ch) (\<lambda>acc. parse_digits m acc s)"

definition parse_unsigned :: "nat \<Rightarrow> string \<Rightarrow> int_error + nat" where
  "parse_unsigned m s =
    (if s = [] then Inl EmptyInt
     else if s = ''+'' \<or> s = ''-'' then Inl InvalidDigit
     else if hd s = CHR ''+'' then parse_digits m 0 (tl s)
     else parse_digits m 0 s)"

fun show_decimal :: "nat \<Rightarrow> string" where
  "show_decimal n = (if n < 10 then [char_of (48 + n)] else show_decimal (n div 10) @ [char_of (48 + n mod 10)])"

declare show_decimal.simps [simp del]

section \<open>Addresses\<close>

datatype 'h block_address =
    HashAddress 'h
  | NumberAddress u32
  | BytesAddress bytes

datatype 'h extrinsic_address =
    ExtrinsicOfBlock "'h block_address" u64
  | ExtrinsicBytes bytes

datatype 'h block_id = HashId 'h | NumberId u32

record ('hd, 'x) inspected_block =
  ib_header :: 'hd
  ib_extrinsics :: "'x list"

text \<open>What the inspector needs from outside; \<open>'c\<close> and \<open>'e\<close> are the errors of the decoders and of the chain.\<close>

record ('h, 'hd, 'x, 'c, 'e) inspect_env =
  ie_parse_hash :: "string \<Rightarrow> 'h option"
  ie_from_hex :: "string \<Rightarrow> string + bytes"
  ie_block_body :: "'h block_id \<Rightarrow> 'e + 'x list option"
  ie_header :: "'h block_id \<Rightarrow> 'e + 'hd option"
  ie_decode_block :: "bytes \<Rightarrow> 'c + ('hd, 'x) inspected_block"
  ie_decode_extrinsic :: "bytes \<Rightarrow> 'c + 'x"
  ie_debug_id :: "'h block_id \<Rightarrow> string"
  ie_debug_block :: "('hd, 'x) inspected_block \<Rightarrow> string"
  ie_debug_header :: "'hd \<Rightarrow> string"
  ie_debug_extrinsic :: "'x \<Rightarrow> string"
  ie_block_hex :: "('hd, 'x) inspected_block \<Rightarrow> string"
  ie_extrinsic_hex :: "'x \<Rightarrow> string"
  ie_show_codec :: "'c \<Rightarrow> string"
  ie_show_chain :: "'e \<Rightarrow> string"

definition parse_block_address ::
  "('h, 'hd, 'x, 'c, 'e) inspect_env \<Rightarrow> string \<Rightarrow> string + 'h block_address" where
  "parse_block_address e s =
    (case ie_parse_hash e s of
       Some h \<Rightarrow> Inr (HashAddress h)
     | None \<Rightarrow>
         (case parse_unsigned (2 ^ 32) s of
            Inr n \<Rightarrow> Inr (NumberAddress (word_of_nat n))
          | Inl _ \<Rightarrow>
              (case ie_from_hex e s of
                 Inr bytes \<Rightarrow> Inr (BytesAddress bytes)
               | Inl msg \<Rightarrow> Inl (''Given string does not look like hash or number. ''
                   @ ''It could not be parsed as bytes either: '' @ msg))))"

text \<open>\<open>str::split\<close> by a predicate on characters: at least one piece.\<close>

fun split_at :: "(char \<Rightarrow> bool) \<Rightarrow> string \<Rightarrow> string list" where
  "split_at p [] = [[]]"
| "split_at p (ch # s) =
    (if p ch then [] # split_at p s
     else (case split_at p s of piece # rest \<Rightarrow> (ch # piece) # rest | [] \<Rightarrow> [[ch]]))"

definition address_separator :: "char \<Rightarrow> bool" where
  "address_separator ch = (ch = CHR ''.'' \<or> ch = CHR '':'' \<or> ch = CHR '' '')"

definition parse_extrinsic_address ::
  "('h, 'hd, 'x, 'c, 'e) inspect_env \<Rightarrow> string \<Rightarrow> string + 'h extrinsic_address" where
  "parse_extrinsic_address e s =
    (case ie_from_hex e s of
       Inr bytes \<Rightarrow> Inr (ExtrinsicBytes bytes)
     | Inl _ \<Rightarrow>
         (let pieces = split_at address_separator s in
          and_then (parse_block_address e (hd pieces)) (\<lambda>block.
          if tl pieces = [] then Inl ''Extrinsic index missing: example \"5:0\"''
          else (case parse_unsigned (2 ^ 64) (hd (tl pieces)) of
                  Inl err \<Rightarrow> Inl (''Invalid index format: '' @ show_int_error err)
                | Inr i \<Rightarrow> Inr (ExtrinsicOfBlock block (word_of_nat i))))))"

section \<open>The inspector\<close>

datatype ('c, 'e) inspect_error =
    CodecFailure 'c
  | BlockchainFailure 'e
  | NotFoundFailure string

fun show_inspect_error :: "('h, 'hd, 'x, 'c, 'e) inspect_env \<Rightarrow> ('c, 'e) inspect_error \<Rightarrow> string" where
  "show_inspect_error e (CodecFailure err) = ie_show_codec e err"
| "show_inspect_error e (BlockchainFailure err) = ie_show_chain e err"
| "show_inspect_error e (NotFoundFailure msg) = msg"

definition from_error :: "('a \<Rightarrow> 'f) \<Rightarrow> 'a + 'b \<Rightarrow> 'f + 'b" where
  "from_error f r = (case r of Inl x \<Rightarrow> Inl (f x) | Inr y \<Rightarrow> Inr y)"

definition block_by_id ::
  "('h, 'hd, 'x, 'c, 'e) inspect_env \<Rightarrow> 'h block_id \<Rightarrow> ('c, 'e) inspect_error + ('hd, 'x) inspected_block" where
  "block_by_id e bid =
    (let not_found = NotFoundFailure (''Could not find block '' @ ie_debug_id e bid) in
     and_then (from_error BlockchainFailure (ie_block_body e bid)) (\<lambda>found.
     and_then (ok_or found not_found) (\<lambda>xs.
     and_then (from_error BlockchainFailure (ie_header e bid)) (\<lambda>found.
     and_then (ok_or found not_found) (\<lambda>hd.
     Inr \<lparr>ib_header = hd, ib_extrinsics = xs\<rparr>)))))"

fun get_block ::
  "('h, 'hd, 'x, 'c, 'e) inspect_env \<Rightarrow> 'h block_address \<Rightarrow> ('c, 'e) inspect_error + ('hd, 'x) inspected_block" where
  "get_block e (BytesAddress bytes) = from_error CodecFailure (ie_decode_block e bytes)"
| "get_block e (NumberAddress n) = block_by_id e (NumberId n)"
| "get_block e (HashAddress h) = block_by_id e (HashId h)"

text \<open>The debug printer. Writing to a string does not fail.\<close>

definition newline :: string where "newline = [char_of (10 :: nat)]"

definition fmt_extrinsic :: "('h, 'hd, 'x, 'c, 'e) inspect_env \<Rightarrow> 'x \<Rightarrow> string" where
  "fmt_extrinsic e x =
    '' '' @ ie_debug_extrinsic e x @ newline @ '' Bytes: '' @ ie_extrinsic_hex e x @ newline"

definition fmt_block :: "('h, 'hd, 'x, 'c, 'e) inspect_env \<Rightarrow> ('hd, 'x) inspected_block \<Rightarrow> string" where
  "fmt_block e b =
    ''Header:'' @ newline @ ie_debug_header e (ib_header b) @ newline
    @ ''Block bytes: '' @ ie_block_hex e b @ newline
    @ ''Extrinsics ('' @ show_decimal (length (ib_extrinsics b)) @ '')'' @ newline
    @ concat (List.map (\<lambda>(i, x). ''- '' @ show_decimal i @ '':'' @ newline @ fmt_extrinsic e x)
        (List.enumerate 0 (ib_extrinsics b)))"

definition inspect_block ::
  "('h, 'hd, 'x, 'c, 'e) inspect_env \<Rightarrow> 'h block_address \<Rightarrow> ('c, 'e) inspect_error + string" where
  "inspect_block e input = and_then (get_block e input) (\<lambda>b. Inr (fmt_block e b))"

definition inspect_extrinsic ::
  "('h, 'hd, 'x, 'c, 'e) inspect_env \<Rightarrow> 'h extrinsic_address \<Rightarrow> ('c, 'e) inspect_error + string" where
  "inspect_extrinsic e input =
    and_then
      (case input of
         ExtrinsicOfBlock block i \<Rightarrow>
           and_then (get_block e block) (\<lambda>b.
           if unat i < length (ib_extrinsics b) then Inr (ib_extrinsics b ! unat i)
           else Inl (NotFoundFailure (''Could not find extrinsic '' @ show_decimal (unat i) @ '' in block ''
             @ ie_debug_block e b)))
       | ExtrinsicBytes bytes \<Rightarrow> from_error CodecFailure (ie_decode_extrinsic e bytes)) (\<lambda>x.
    Inr (fmt_extrinsic e x))"

section \<open>The command\<close>

datatype inspect_cmd = InspectBlock string | InspectExtrinsic string

text \<open>What the command prints, or the text of the error it ends with.\<close>

fun run_inspect :: "('h, 'hd, 'x, 'c, 'e) inspect_env \<Rightarrow> inspect_cmd \<Rightarrow> string + string" where
  "run_inspect e (InspectBlock input) =
    and_then (parse_block_address e input) (\<lambda>a. from_error (show_inspect_error e) (inspect_block e a))"
| "run_inspect e (InspectExtrinsic input) =
    and_then (parse_extrinsic_address e input) (\<lambda>a. from_error (show_inspect_error e) (inspect_extrinsic e a))"

end
