(* ===== verification/Inspect_Correct.thy ===== *)
theory Inspect_Correct
  imports Inspect
begin

text \<open>
  Numbers read back as they are shown, and the address of an extrinsic finds it.
\<close>

section \<open>Numbers\<close>

lemma parse_digits_append:
  "parse_digits m acc (s @ [ch]) = and_then (parse_digits m acc s) (\<lambda>acc. next_digit m acc ch)"
proof (induction s arbitrary: acc)
  case Nil
  then show ?case by (cases "next_digit m acc ch") simp_all
next
  case (Cons d s)
  then show ?case by (cases "next_digit m acc d") simp_all
qed

lemma of_char_digit: "d < 10 \<Longrightarrow> of_char (char_of (48 + d)) = (48 + d :: nat)"
  by simp

lemma next_digit_shown: "d < 10 \<Longrightarrow> acc * 10 + d < m \<Longrightarrow> next_digit m acc (char_of (48 + d)) = Inr (acc * 10 + d)"
  by (simp add: next_digit_def to_digit_def of_char_digit ok_or_def ensure_def del: of_char_of)

lemma parse_shown: "n < m \<Longrightarrow> parse_digits m 0 (show_decimal n) = Inr n"
proof (induction n rule: show_decimal.induct)
  case (1 n)
  show ?case
  proof (cases "n < 10")
    case True
    then show ?thesis using 1 next_digit_shown [of n 0 m] by (simp add: show_decimal.simps [of n])
  next
    case False
    then have "parse_digits m 0 (show_decimal (n div 10)) = Inr (n div 10)" using 1 by auto
    then show ?thesis
      using 1(2) False next_digit_shown [of "n mod 10" "n div 10" m]
      by (simp add: show_decimal.simps [of n] parse_digits_append)
  qed
qed

lemma shown_digits: "ch \<in> set (show_decimal n) \<Longrightarrow> 48 \<le> (of_char ch :: nat) \<and> of_char ch \<le> (57 :: nat)"
proof (induction n rule: show_decimal.induct)
  case (1 n)
  then show ?case
    by (subst (asm) (2) show_decimal.simps) (auto simp: of_char_digit split: if_splits simp del: of_char_of)
qed

lemma shown_not_empty [simp]: "show_decimal n \<noteq> []"
  by (simp add: show_decimal.simps)

lemma shown_length: "n < 10 ^ k \<Longrightarrow> 0 < k \<Longrightarrow> length (show_decimal n) \<le> k"
proof (induction k arbitrary: n)
  case (Suc k)
  show ?case
  proof (cases "n < 10")
    case True
    then show ?thesis by (simp add: show_decimal.simps [of n])
  next
    case False
    then have "0 < k" using Suc.prems by (cases k) auto
    moreover have "n div 10 < 10 ^ k" using Suc.prems by auto
    ultimately have "length (show_decimal (n div 10)) \<le> k" using Suc.IH by blast
    then show ?thesis using False by (simp add: show_decimal.simps [of n])
  qed
qed simp

lemma parse_unsigned_shown:
  assumes "n < m"
  shows "parse_unsigned m (show_decimal n) = Inr n"
proof -
  have "ch \<in> set (show_decimal n) \<Longrightarrow> ch \<noteq> CHR ''+'' \<and> ch \<noteq> CHR ''-''" for ch
    using shown_digits [of ch n] by (auto simp: of_char_def)
  then have "hd (show_decimal n) \<noteq> CHR ''+''" "show_decimal n \<noteq> ''+''" "show_decimal n \<noteq> ''-''"
    by (fastforce intro: hd_in_set)+
  then show ?thesis using parse_shown [OF assms] by (simp add: parse_unsigned_def)
qed

section \<open>Pieces\<close>

lemma split_at_none: "\<forall>ch\<in>set s. \<not> p ch \<Longrightarrow> split_at p s = [s]"
  by (induction s) auto

lemma split_at_sep: "\<forall>ch\<in>set s. \<not> p ch \<Longrightarrow> p sep \<Longrightarrow> split_at p (s @ sep # t) = s # split_at p t"
  by (induction s) auto

lemma shown_no_separator: "\<forall>ch\<in>set (show_decimal n). \<not> address_separator ch"
  using shown_digits by (fastforce simp: address_separator_def of_char_def)

section \<open>The address of an extrinsic\<close>

text \<open>
  C40. The inspector finds the extrinsic it is asked for. The address of the extrinsic number i of the block
  number n, written as both numbers in decimal with a colon or a dot between, is read back as this block and index,
  and the command prints that extrinsic of the block on the chain; past the end it says that there
  is none. What is assumed of the parsers: hexadecimal text has no such separator, the text of a hash has at least 40
  characters.
\<close>

theorem extrinsic_address_found:
  assumes hex: "\<And>s. CHR '':'' \<in> set s \<or> CHR ''.'' \<in> set s \<Longrightarrow> \<exists>msg. ie_from_hex e s = Inl msg"
    and hash: "\<And>s h. ie_parse_hash e s = Some h \<Longrightarrow> 40 \<le> length s"
    and sep: "sep = CHR '':'' \<or> sep = CHR ''.''"
    and chain: "ie_block_body e (NumberId n) = Inr (Some xs)" "ie_header e (NumberId n) = Inr (Some h)"
  shows "parse_extrinsic_address e (show_decimal (unat n) @ sep # show_decimal (unat i))
      = Inr (ExtrinsicOfBlock (NumberAddress n) i)
    \<and> run_inspect e (InspectExtrinsic (show_decimal (unat n) @ sep # show_decimal (unat i)))
      = (if unat i < length xs then Inr (fmt_extrinsic e (xs ! unat i))
         else Inl (''Could not find extrinsic '' @ show_decimal (unat i) @ '' in block ''
           @ ie_debug_block e \<lparr>ib_header = h, ib_extrinsics = xs\<rparr>))"
proof -
  let ?s = "show_decimal (unat n) @ sep # show_decimal (unat i)"
  have n: "unat n < 2 ^ 32" and i: "unat i < 2 ^ 64" using unsigned_less [of n] unsigned_less [of i] by simp_all
  have "length (show_decimal (unat n)) \<le> 10" using n by (intro shown_length) simp_all
  then have no_hash: "ie_parse_hash e (show_decimal (unat n)) = None"
    using hash [of "show_decimal (unat n)"] by (cases "ie_parse_hash e (show_decimal (unat n))") auto
  have is_sep: "address_separator sep" using sep by (auto simp: address_separator_def)
  have "split_at address_separator ?s = [show_decimal (unat n), show_decimal (unat i)]"
    using split_at_sep [OF shown_no_separator is_sep] split_at_none [OF shown_no_separator] by simp
  moreover obtain msg where "ie_from_hex e ?s = Inl msg" using hex [of ?s] sep by auto
  ultimately have parsed: "parse_extrinsic_address e ?s = Inr (ExtrinsicOfBlock (NumberAddress n) i)"
    using no_hash parse_unsigned_shown [OF n] parse_unsigned_shown [OF i]
    by (simp add: parse_extrinsic_address_def parse_block_address_def)
  then show ?thesis
    using chain by (simp add: inspect_extrinsic_def block_by_id_def from_error_def ok_or_def Let_def)
qed

text \<open>A chain with a block 1234 of two extrinsics, numbers as extrinsics.\<close>

definition demo_inspect :: "(nat, nat, nat, string, string) inspect_env" where
  "demo_inspect =
    \<lparr>ie_parse_hash = (\<lambda>s. if length s = 40 then Some 7 else None),
     ie_from_hex = (\<lambda>s. if length s mod 2 = 0 \<and> list_all (\<lambda>ch. to_digit ch \<noteq> None) s
        then Inr (List.map (\<lambda>ch. of_nat (of_char ch)) s) else Inl ''invalid hex''),
     ie_block_body = (\<lambda>bid. Inr (if bid = NumberId 1234 then Some [20, 21] else None)),
     ie_header = (\<lambda>bid. Inr (if bid = NumberId 1234 then Some 9 else None)),
     ie_decode_block = (\<lambda>_. Inl ''no block''), ie_decode_extrinsic = (\<lambda>bs. Inr (length bs)),
     ie_debug_id = (\<lambda>_. ''id''), ie_debug_block = (\<lambda>_. ''block''), ie_debug_header = show_decimal,
     ie_debug_extrinsic = show_decimal, ie_block_hex = (\<lambda>_. ''00''), ie_extrinsic_hex = show_decimal,
     ie_show_codec = id, ie_show_chain = id\<rparr>"

theorem extrinsic_address_found_witness:
  "run_inspect demo_inspect (InspectExtrinsic ''1234:1'') = Inr (fmt_extrinsic demo_inspect 21)
    \<and> run_inspect demo_inspect (InspectExtrinsic ''1234.2'') = Inl ''Could not find extrinsic 2 in block block''"
proof -
  have hex: "\<exists>msg. ie_from_hex demo_inspect s = Inl msg" if "CHR '':'' \<in> set s \<or> CHR ''.'' \<in> set s" for s
  proof -
    have "to_digit (CHR '':'') = None" "to_digit (CHR ''.'') = None" by (simp_all add: to_digit_def of_char_def)
    then have "\<not> list_all (\<lambda>ch. to_digit ch \<noteq> None) s" using that by (auto simp: list_all_iff)
    then show ?thesis by (auto simp: demo_inspect_def)
  qed
  have hash: "\<And>s h. ie_parse_hash demo_inspect s = Some h \<Longrightarrow> 40 \<le> length s"
    by (simp add: demo_inspect_def split: if_splits)
  have chain: "ie_block_body demo_inspect (NumberId 1234) = Inr (Some [20, 21])"
    "ie_header demo_inspect (NumberId 1234) = Inr (Some 9)" by (simp_all add: demo_inspect_def)
  have shown: "show_decimal 1234 = ''1234''" "show_decimal (Suc 0) = ''1''" "show_decimal 2 = ''2''"
    by (simp_all add: show_decimal.simps char_of_def bit_0)
  have debug: "ie_debug_block demo_inspect b = ''block''" for b by (simp add: demo_inspect_def)
  from extrinsic_address_found [OF hex hash _ chain, where sep = "CHR '':''" and i = 1]
  have "run_inspect demo_inspect (InspectExtrinsic ''1234:1'') = Inr (fmt_extrinsic demo_inspect 21)"
    by (simp add: shown del: run_inspect.simps)
  moreover from extrinsic_address_found [OF hex hash _ chain, where sep = "CHR ''.''" and i = 2]
  have "run_inspect demo_inspect (InspectExtrinsic ''1234.2'') = Inl ''Could not find extrinsic 2 in block block''"
    by (simp add: shown debug del: run_inspect.simps)
  ultimately show ?thesis by blast
qed

end
