(* ===== verification/Extrinsics.thy ===== *)
theory Extrinsics
  imports Deployment
begin

text \<open>
  The signed extrinsics the node makes itself: \<open>create_transaction\<close> of \<open>runtime/src/lib.rs\<close> for the off-chain worker,
  \<open>fetch_nonce\<close> and \<open>create_extrinsic\<close> of \<open>cli/src/service.rs\<close> for its tools. Eras, payload encoding, keys and the
  client are parameters. Of the signed extension only the parts that carry data are kept.
\<close>

section \<open>Constants\<close>

definition SPEC_VERSION :: u32 where "SPEC_VERSION = 204"
definition TRANSACTION_VERSION :: u32 where "TRANSACTION_VERSION = 3"
definition BLOCK_HASH_COUNT :: block_number where "BLOCK_HASH_COUNT = 2400"

text \<open>The smallest power of two that is not below, if the type has it.\<close>

definition checked_next_power_of_two :: "'a::len word \<Rightarrow> 'a word option" where
  "checked_next_power_of_two n =
    map_option (\<lambda>k. 2 ^ k) (List.find (\<lambda>k. unat n \<le> 2 ^ k) [0 ..< LENGTH('a)])"

text \<open>The biggest period possible: half of the power of two above the number of known hashes.\<close>

definition era_period :: u64 where
  "era_period = ucast (value_or 2 (map_option (\<lambda>c. c div 2) (checked_next_power_of_two BLOCK_HASH_COUNT)))"

lemma next_power_bounds:
  assumes "checked_next_power_of_two n = Some p"
  shows "unat n \<le> unat p" and "unat p = 1 \<or> unat p < 2 * unat n"
proof -
  obtain k where k: "List.find (\<lambda>k. unat n \<le> 2 ^ k) [0 ..< LENGTH('a)] = Some k" and p: "p = 2 ^ k"
    using assms by (auto simp: checked_next_power_of_two_def)
  then have bounds: "k < LENGTH('a)" "unat n \<le> 2 ^ k" "j < k \<Longrightarrow> \<not> unat n \<le> 2 ^ j" for j
    by (auto simp: find_Some_iff)
  have "p = word_of_nat (2 ^ k)" by (simp add: p)
  then have "unat p = 2 ^ k" using bounds(1) by (simp only: unat_of_nat) simp
  moreover have "k = 0 \<or> 2 ^ k < 2 * unat n" using bounds(3) [of "k - 1"] by (cases k) auto
  ultimately show "unat n \<le> unat p" "unat p = 1 \<or> unat p < 2 * unat n" using bounds(2) by auto
qed

text \<open>A mortal extrinsic refers to a block whose hash the chain still knows.\<close>

lemma era_period_eq: "era_period = 2048"
  by (simp add: era_period_def checked_next_power_of_two_def BLOCK_HASH_COUNT_def upt_rec value_or_def)

lemma era_period_known: "unat era_period < unat BLOCK_HASH_COUNT"
  by (simp add: era_period_eq BLOCK_HASH_COUNT_def)

section \<open>Extrinsics\<close>

record 'era signed_extra =
  ex_era :: 'era
  ex_nonce :: u32
  ex_tip :: u128

record 'h additional_signed =
  as_spec_version :: u32
  as_transaction_version :: u32
  as_genesis_hash :: 'h
  as_era_hash :: 'h

record ('call, 'era, 'h, 'addr, 'sig) tx_env =
  tx_mortal :: "u64 \<Rightarrow> u64 \<Rightarrow> 'era"
  tx_additional :: "'era signed_extra \<Rightarrow> 'h additional_signed option"
  tx_encode :: "'call \<Rightarrow> 'era signed_extra \<Rightarrow> 'h additional_signed \<Rightarrow> bytes"
  tx_sign :: "bytes \<Rightarrow> bytes \<Rightarrow> 'sig option"
  tx_unlookup :: "account \<Rightarrow> 'addr"

definition signed_extra_at ::
  "('call, 'era, 'h, 'addr, 'sig) tx_env \<Rightarrow> u64 \<Rightarrow> u32 \<Rightarrow> 'era signed_extra" where
  "signed_extra_at e current nonce = \<lparr>ex_era = tx_mortal e era_period current, ex_nonce = nonce, ex_tip = 0\<rparr>"

text \<open>
  The off-chain worker. The block number of the system is that of the block being built, so the current one is
  one less. No payload or no signature, no extrinsic.
\<close>

definition create_transaction ::
  "('call, 'era, 'h, 'addr, 'sig) tx_env \<Rightarrow> 'call \<Rightarrow> bytes \<Rightarrow> account \<Rightarrow> u32 \<Rightarrow> block_number
    \<Rightarrow> ('call \<times> 'addr \<times> 'sig \<times> 'era signed_extra) option" where
  "create_transaction e call public account nonce block =
    (let extra = signed_extra_at e (saturating_sub (ucast block) 1) nonce in
     case tx_additional e extra of
       None \<Rightarrow> None
     | Some additional \<Rightarrow>
         (case tx_sign e public (tx_encode e call extra additional) of
            None \<Rightarrow> None
          | Some sig \<Rightarrow> Some (call, tx_unlookup e account, sig, extra)))"

text \<open>The tools of the node: a pair always signs; a client without genesis block or nonce is a panic.\<close>

record ('h, 'e) chain_client =
  cc_best_hash :: 'h
  cc_best_number :: block_number
  cc_block_hash :: "block_number \<Rightarrow> 'e + 'h option"
  cc_account_nonce :: "'h \<Rightarrow> account \<Rightarrow> 'e + u32"

record 'sig key_pair =
  kp_account :: account
  kp_sign :: "bytes \<Rightarrow> 'sig"

definition fetch_nonce :: "('h, 'e) chain_client \<Rightarrow> 'sig key_pair \<Rightarrow> u32 result" where
  "fetch_nonce cl sender = map_err Panic (cc_account_nonce cl (cc_best_hash cl) (kp_account sender))"

definition create_extrinsic ::
  "('call, 'era, 'h, 'addr, 'sig) tx_env \<Rightarrow> ('h, 'e) chain_client \<Rightarrow> 'sig key_pair \<Rightarrow> 'call \<Rightarrow> u32 option
    \<Rightarrow> ('call \<times> account \<times> 'sig \<times> 'era signed_extra) result" where
  "create_extrinsic e cl sender call nonce =
    and_then (case cc_block_hash cl 0 of Inr (Some h) \<Rightarrow> Inr h | _ \<Rightarrow> Inl Panic) (\<lambda>genesis_hash.
    and_then (case nonce of Some x \<Rightarrow> Inr x | None \<Rightarrow> fetch_nonce cl sender) (\<lambda>nonce.
    let extra = signed_extra_at e (ucast (cc_best_number cl)) nonce;
        additional = \<lparr>as_spec_version = SPEC_VERSION, as_transaction_version = TRANSACTION_VERSION,
          as_genesis_hash = genesis_hash, as_era_hash = cc_best_hash cl\<rparr> in
    Inr (call, kp_account sender, kp_sign sender (tx_encode e call extra additional), extra)))"

text \<open>
  Both sign alike: an extrinsic of the tools for the current block, where the runtime supplies what they
  assume of it, is the one the off-chain worker makes in the next block with the same key.
\<close>

lemma tools_sign_like_worker:
  assumes "create_extrinsic e cl sender call (Some nonce) = Inr (call', a, sig, extra)"
    and "tx_additional e extra = Some \<lparr>as_spec_version = SPEC_VERSION, as_transaction_version = TRANSACTION_VERSION,
          as_genesis_hash = gh, as_era_hash = cc_best_hash cl\<rparr>" and "cc_block_hash cl 0 = Inr (Some gh)"
    and "\<And>m. tx_sign e public m = Some (kp_sign sender m)" and "cc_best_number cl \<noteq> - 1"
  shows "create_transaction e call public a nonce (cc_best_number cl + 1) = Some (call, tx_unlookup e a, sig, extra)"
proof -
  have extra: "extra = signed_extra_at e (ucast (cc_best_number cl)) nonce"
    and sig: "sig = kp_sign sender (tx_encode e call extra \<lparr>as_spec_version = SPEC_VERSION,
      as_transaction_version = TRANSACTION_VERSION, as_genesis_hash = gh, as_era_hash = cc_best_hash cl\<rparr>)"
    using assms(1,3) by (auto simp: create_extrinsic_def Let_def)
  let ?b = "cc_best_number cl"
  have wide: "unat (ucast x :: u64) = unat x" for x :: u32
  proof -
    have "unat x < 2 ^ 64" using unsigned_less [of x, where ?'a = nat] by simp
    then show ?thesis by (simp add: unsigned_ucast_eq take_bit_nat_eq_self)
  qed
  have n: "unat (?b + 1) = unat ?b + 1" using assms(5)
    by (metis Suc_eq_plus1 add.commute add_diff_cancel_right' diff_add_cancel eq_neg_iff_add_eq_0 unatSuc)
  have "saturating_sub (ucast (?b + 1)) 1 = (ucast ?b :: u64)"
    using n by (simp add: saturating_sub_def word_le_nat_alt word_unat_eq_iff unat_sub wide)
  then show ?thesis using assms(2,4) extra sig by (simp add: create_transaction_def Let_def)
qed

end
