(* ===== verification/Spec2Isabelle.thy ===== *)
theory Spec2Isabelle
  imports Reward_Correct Market_Correct Verifier_Correct Staking_Correct Bridge_Runtime Handler_Correct
    Bot_Correct Vault_Correct Tournament_Correct Broker_Correct
    Deployment_Correct Runtime_Termination Chain_Properties Chain_Spec_Correct Rpc_Correct
    Inspect_Correct Extrinsics
begin

text \<open>
  Verification development for Fusotao, the chain of a decentralised exchange: its runtime (pallets under
  \<open>pallets/\<close>, composed in \<open>runtime/src/lib.rs\<close>) and the gateway of its nodes to the order books
  (\<open>rpc/src/broker\<close>), with their queries of the chain (\<open>rpc/src/verifier\<close>) and the genesis of the test chains
  (\<open>cli/src/chain_spec.rs\<close>).

  The program. Off-chain order books ("dominators") settle trades on the chain: the verifier pallet holds
  the authorised tokens of the users in custody, checks a Merkle proof for every trade, moves the
  balances and pays fees, and lets token holders stake on dominators. The token pallet is the ledger of
  all tokens, the market pallet lists pairs and brokers, the reward pallet pays liquidity providers and
  traders, the indicator keeps prices. The two bridge pallets let relayers vote on calls from other chains
  and move tokens in and out, the bot pallet pools deposits, the agent pallet runs calls signed with
  Ethereum keys, the foundation pallet releases locked tokens by schedule. The tournament pallet runs seasons
  of battles: tickets with which participants predict winners, and bets on single battles. The broker gateway
  of a node passes the requests of traders to a dominator, whose endpoint it reads from the verifier, and
  the order updates of the dominator back to the traders.

  Conventions. A storage map is a function into \<open>option\<close> or a total function with the default, an
  ordered or iterated one an association list; the storage of a pallet is a record that extends that of
  the pallet below it. Integers are words of their width with the operators of the source (wrapping,
  checked or saturating). A dispatchable returns \<open>dispatch_error + storage\<close>: an error leaves the storage,
  as FRAME runs each call in a storage layer. A panic is the error \<open>Panic\<close>, which no handler catches.
  Code outside the repository (\<open>pallet_balances\<close>, hashes, decoders, signatures, \<open>sp_arithmetic\<close>) is a
  parameter; what is needed of it is a named hypothesis: \<open>balances_laws\<close>, for the vault \<open>vault_laws\<close> and at genesis
  \<open>genesis_laws\<close>, what \<open>pallet_balances\<close> documents. \<open>Reference\<close>, \<open>Vault_Backing\<close> and
  \<open>Chain_Spec_Correct\<close> show that they can hold.

  Theories and sources.
  \<^item> \<open>Prelude\<close>, \<open>Primitives\<close>, \<open>Transition_Systems\<close>: checked arithmetic, results, sums over finite maps, errors
    and origins, reachable states and the rule for invariants (a locale).
  \<^item> \<open>External_Chain\<close> (\<open>fuso-support\<close>): token descriptors, constants, resource ids.
  \<^item> \<open>Token\<close>, \<open>Token_Laws\<close>, \<open>Token_Asset\<close>, \<open>Token_Correct\<close> (\<open>token\<close>): the ledger; \<open>Asset_Interface\<close> is the
    trait \<open>ReservableToken\<close> as a locale, interpreted by \<open>Token_Asset\<close>.
  \<^item> \<open>Reward\<close>, \<open>Reward_Correct\<close> (\<open>reward\<close>); \<open>Market\<close>, \<open>Market_Correct\<close> (\<open>market\<close>); \<open>Indicator\<close> (\<open>indicator\<close>).
  \<^item> \<open>Verifier_State\<close>, \<open>Verifier_Ledger\<close>, \<open>Verifier_Proofs\<close>, \<open>Verifier_Staking\<close>, \<open>Verifier_Clearing\<close>,
    \<open>Verifier_Calls\<close> (\<open>verifier\<close>): data, custody, the checks of each proof, staking, settlement, calls.
  \<^item> \<open>Bridge\<close>, \<open>Bridge_Handler\<close>, \<open>Bot\<close>, \<open>Agent\<close>, \<open>Foundation\<close>: the pallets of those names.
  \<^item> \<open>Tournament_State\<close>, \<open>Tournament_Bets\<close>, \<open>Tournament\<close> (\<open>abyss-tournament\<close>): data, bets, tickets and votes, calls.
  \<^item> \<open>Broker\<close> (\<open>rpc/src/broker/mod.rs\<close>, \<open>rpc/src/broker/relay.rs\<close>): sessions with a dominator as a step relation over
    the interleavings of callers and connector, and the calls of the gateway.
  \<^item> \<open>Runtime\<close>: how the pallets implement each other's configuration, the calls of the runtime, nested
    dispatch, blocks, and the steps of the system. \<open>Chain\<close>: the runtime with the vault of the foundation and
    the tournament, which work on the same ledgers through views of its storage. \<open>Deployment\<close> (with \<open>runtime/src/constants.rs\<close>): the constants
    with which the pallets are deployed. \<open>Mall\<close>: the one call of \<open>abyss-mall\<close>, which does nothing.
  \<^item> \<open>Rpc\<close> (\<open>runtime-api\<close>, \<open>rpc/src/verifier/mod.rs\<close>, \<open>rpc/src/lib.rs\<close>): the queries of a node and the keys of storage
    entries. \<open>Chain_Spec\<close> (\<open>cli/src/chain_spec.rs\<close>): the genesis of the test chains and the storage it gives.
    \<open>Inspect\<close> (\<open>inspect\<close>): the command that prints a block or an extrinsic by its address. \<open>Extrinsics\<close>
    (\<open>runtime/src/lib.rs\<close>, \<open>cli/src/service.rs\<close>): the signed extrinsics the node makes itself.

  What is shown.
  \<^item> \<open>Chain_Correct\<close>, \<open>Chain_Properties\<close> (with \<open>Vault_Backing\<close>, \<open>Tournament_Quiet\<close>, \<open>Runtime_Clock\<close>): which calls a
    run of the chain admits is a parameter of its steps. As long as only sound funds are put into the vault
    (\<open>sound_call\<close>), custody and vault are backed together, the chain simulates the runtime, so that its theorems
    hold on the chain, no block start of the deployed chain fails, releases are paid in full and on time, and
    what is unstaked is paid at its block; a fund whose total wraps breaks this. The tournament it simulates
    whatever calls are made.
    \<open>Chain_Spec_Correct\<close>: the genesis of the test chains builds and is a start of such a chain.
  \<^item> \<open>Rpc_Correct\<close>: the shares a node quotes are what a claim pays. \<open>Inspect_Correct\<close>: the address of an extrinsic
    is read back and finds it.
  \<^item> \<open>Verifier_Backing\<close>, \<open>Runtime_Backing\<close>, \<open>Runtime_Correct\<close>: custody is backed by reserved balances in every
    reachable state, stakes are consistent with it, the hook pays pending releases, dominators follow their
    life cycle. Pallets outside the runtime are assumed to leave custody backed.
  \<^item> \<open>Runtime_Schedule\<close>, \<open>Deployment_Correct\<close>: with the deployed constants no block start of the runtime fails, what
    is booked stays booked, and every season of a dominator is closed at its end.
  \<^item> \<open>Verifier_Frame\<close>, \<open>Verifier_Facts\<close>, \<open>Verifier_Stakes\<close>, \<open>Runtime_Frame\<close>: what each operation leaves alone,
    and how the successful runs of an operation look; used by all of the above.
  \<^item> \<open>Verifier_Correct\<close>, \<open>Staking_Correct\<close>: trades conserve both tokens up to the fees in 128-bit
    arithmetic, and as numbers where these fit; batches follow the
    Merkle roots, authorisations and revocations move exactly their amount.
  \<^item> \<open>Token_Correct\<close>, \<open>Reward_Correct\<close>, \<open>Market_Correct\<close>: supply of every token against what other pallets add and
    remove (\<open>token_run\<close>), exact results on every branch,
    solvency of the rewards, the life of markets.
  \<^item> \<open>Bridge_Correct\<close>, \<open>Verifier_World\<close>, \<open>Runtime_World\<close>, \<open>Bridge_Runtime\<close>: the bridge refines an abstract
    election and keeps its books, across every call of the runtime and every nested one.
  \<^item> \<open>Handler_Correct\<close>, \<open>Bot_Correct\<close>, \<open>Vault_Correct\<close> (with \<open>Foundation_Correct\<close>): what a transfer out costs, bots and
    external nonces, the schedule of the vault for one account among any others, and the fund that stops it.
  \<^item> \<open>Ledger_Frame\<close>: the ledgers leave the storage of the pallets above them; used for the runtime and the
    tournament.
  \<^item> \<open>Tournament_Frame\<close>, \<open>Tournament_Invariants\<close>, \<open>Tournament_Correct\<close>: which call writes what, the invariants of
    bets and tickets, the outcome of a bet, what tickets cost, the bonuses, the pledges.
  \<^item> \<open>Broker_Correct\<close>: under every interleaving, callers get their own replies, updates reach only confirmed
    subscriptions of their user, callers return; what unanswered requests leave behind.

  Fuel. Calls nest (a callback of the verifier, a proposal of the bridge and a call of the agent are
  calls of the runtime), so \<open>nested_dispatch\<close> takes a bound on the depth. Every theorem about the runtime
  holds for every bound, and \<open>Runtime_Termination\<close> (with \<open>Dispatch_Frame\<close>, \<open>Dispatch_Weight\<close>) shows which bound is
  enough: the weight of the call with the weights of all callbacks that wait in receipts.

  Not modelled: the FRAME and Octopus pallets, consensus and session keys; weights, except where the agent
  charges for them; the rest of the node (services, network, executor) and the wiring of its RPC server, which are I/O
  around the runtime; the migrations. A proposal of the bridge, a callback or a call through the agent that is a call of the vault or the tournament is an extrinsic of its own here, with the
  same origin.
\<close>

end
